(* ===== verification/Prelude.thy ===== *)
theory Prelude
  imports Main "HOL-Library.Word" "HOL-Library.AList"
begin

text \<open>
  What every component of the model shares. Rust strings are lists of Unicode scalar values
  (\<open>str\<close>), with the byte length of their UTF-8 encoding where the source asks for it
  (\<open>len()\<close>); the standard library's whitespace, trimming, integer parsing and decimal
  printing; hash maps as association lists with the \<open>AList\<close> operations; order-preserving
  de-duplication through a \<open>HashSet\<close>; the JSON values of \<open>serde_json\<close> and the
  accessors the source calls on them. The collections of rewrite rules the component theories
  extend are declared here.
\<close>

named_theorems kv_simps \<open>definitions of the KV manager's operations\<close>
named_theorems json_simps \<open>evaluation of JSON accessors\<close>


section \<open>Text\<close>

type_synonym str = "nat list"

definition lit :: "string \<Rightarrow> str" where
  "lit s = map of_char s"

lemma inj_of_char_nat: "inj (of_char :: char \<Rightarrow> nat)"
  by (rule inj_of_char)

lemma lit_eq_iff [simp]: "lit a = lit b \<longleftrightarrow> a = b"
  by (simp add: lit_def inj_map_eq_map inj_of_char_nat)

lemma lit_eq_Nil [simp]: "lit a = [] \<longleftrightarrow> a = []"
  by (simp add: lit_def)

lemma Nil_eq_lit [simp]: "[] = lit a \<longleftrightarrow> a = []"
  by (auto simp: lit_def)

lemma length_lit [simp]: "length (lit s) = length s"
  by (simp add: lit_def)

lemma lit_append: "lit (a @ b) = lit a @ lit b"
  by (simp add: lit_def)

text \<open>\<open>str::len\<close>: the number of UTF-8 bytes.\<close>

definition utf8_len :: "nat \<Rightarrow> nat" where
  "utf8_len c = (if c < 128 then 1 else if c < 2048 then 2 else if c < 65536 then 3 else 4)"

definition byte_len :: "str \<Rightarrow> nat" where
  "byte_len s = sum_list (map utf8_len s)"

lemma utf8_len_pos: "1 \<le> utf8_len c"
  by (simp add: utf8_len_def)

lemma byte_len_simps [simp]:
  "byte_len [] = 0" "byte_len (c # s) = utf8_len c + byte_len s"
  "byte_len (s @ t) = byte_len s + byte_len t"
  by (simp_all add: byte_len_def)

lemma length_le_byte_len: "length s \<le> byte_len s"
proof (induction s)
  case (Cons c s)
  then show ?case using utf8_len_pos [of c] by simp
qed simp

text \<open>\<open>char::is_whitespace\<close>: the code points with the \<open>White_Space\<close> property.\<close>

definition is_ws :: "nat \<Rightarrow> bool" where
  "is_ws c \<longleftrightarrow> 9 \<le> c \<and> c \<le> 13 \<or> c = 32 \<or> c = 133 \<or> c = 160 \<or> c = 5760
     \<or> 8192 \<le> c \<and> c \<le> 8202 \<or> c = 8232 \<or> c = 8233 \<or> c = 8239 \<or> c = 8287 \<or> c = 12288"

definition trim_start :: "str \<Rightarrow> str" where
  "trim_start s = dropWhile is_ws s"

definition trim_end :: "str \<Rightarrow> str" where
  "trim_end s = rev (dropWhile is_ws (rev s))"

definition trim :: "str \<Rightarrow> str" where
  "trim s = trim_end (trim_start s)"

lemma trim_Nil [simp]: "trim [] = []"
  by (simp add: trim_def trim_start_def trim_end_def)

lemma set_trim: "set (trim s) \<subseteq> set s"
  by (auto simp: trim_def trim_start_def trim_end_def dest!: set_dropWhileD)

lemma trim_eq_Nil_iff: "trim s = [] \<longleftrightarrow> (\<forall>c \<in> set s. is_ws c)"
  by (auto simp: trim_def trim_start_def trim_end_def dropWhile_eq_Nil_conv
      dest: set_dropWhileD)
     (metis dropWhile_eq_Nil_conv dropWhile_idem list.set_sel(1) hd_dropWhile)

definition ascii_lower :: "nat \<Rightarrow> nat" where
  "ascii_lower c = (if 65 \<le> c \<and> c \<le> 90 then c + 32 else c)"

definition is_ascii_digit :: "nat \<Rightarrow> bool" where
  "is_ascii_digit c \<longleftrightarrow> 48 \<le> c \<and> c \<le> 57"

definition is_ascii_alpha :: "nat \<Rightarrow> bool" where
  "is_ascii_alpha c \<longleftrightarrow> 65 \<le> c \<and> c \<le> 90 \<or> 97 \<le> c \<and> c \<le> 122"

definition is_ascii_alnum :: "nat \<Rightarrow> bool" where
  "is_ascii_alnum c \<longleftrightarrow> is_ascii_digit c \<or> is_ascii_alpha c"

text \<open>\<open>str::starts_with\<close>, \<open>str::ends_with\<close>, \<open>str::contains\<close>.\<close>

fun starts_with :: "'a list \<Rightarrow> 'a list \<Rightarrow> bool" where
  "starts_with s [] = True"
| "starts_with [] (p # ps) = False"
| "starts_with (c # s) (p # ps) = (c = p \<and> starts_with s ps)"

definition ends_with :: "'a list \<Rightarrow> 'a list \<Rightarrow> bool" where
  "ends_with s p = starts_with (rev s) (rev p)"

fun str_contains :: "'a list \<Rightarrow> 'a list \<Rightarrow> bool" where
  "str_contains [] p = (p = [])"
| "str_contains (c # s) p = (starts_with (c # s) p \<or> str_contains s p)"

lemma starts_with_iff: "starts_with s p \<longleftrightarrow> (\<exists>t. s = p @ t)"
  by (induction s p rule: starts_with.induct) auto

lemma str_contains_iff: "str_contains s p \<longleftrightarrow> (\<exists>a b. s = a @ p @ b)"
proof (induction s)
  case (Cons c s)
  show ?case
  proof
    assume "str_contains (c # s) p"
    then consider "starts_with (c # s) p" | "str_contains s p" by auto
    then show "\<exists>a b. c # s = a @ p @ b"
    proof cases
      case 1
      then obtain t where "c # s = [] @ p @ t" by (auto simp: starts_with_iff)
      then show ?thesis by blast
    next
      case 2
      then obtain a b where "s = a @ p @ b" using Cons.IH by auto
      then have "c # s = (c # a) @ p @ b" by simp
      then show ?thesis by blast
    qed
  next
    assume "\<exists>a b. c # s = a @ p @ b"
    then obtain a b where ab: "c # s = a @ p @ b" by blast
    show "str_contains (c # s) p"
    proof (cases a)
      case Nil
      with ab have "starts_with (c # s) p" by (simp add: starts_with_iff)
      then show ?thesis by simp
    next
      case (Cons d a')
      with ab have "s = a' @ p @ b" by simp
      with Cons.IH show ?thesis by auto
    qed
  qed
qed auto

text \<open>\<open>Path::join\<close> on a relative component.\<close>

definition path_join :: "str \<Rightarrow> str \<Rightarrow> str" where
  "path_join dir name = (if dir = [] then name
     else if last dir = 47 then dir @ name else dir @ [47] @ name)"


section \<open>Decimal printing and parsing\<close>

fun dec_str :: "nat \<Rightarrow> str" where
  "dec_str n = (if n < 10 then [48 + n] else dec_str (n div 10) @ [48 + n mod 10])"

declare dec_str.simps [simp del]

fun digits_val :: "nat \<Rightarrow> str \<Rightarrow> nat option" where
  "digits_val acc [] = Some acc"
| "digits_val acc (c # s) =
     (if is_ascii_digit c then digits_val (10 * acc + (c - 48)) s else None)"

text \<open>\<open>u64::from_str\<close> and \<open>i64::from_str\<close>: an optional sign, at least one digit, in range.\<close>

definition digits :: "str \<Rightarrow> nat option" where
  "digits s = (if s = [] then None else digits_val 0 s)"

definition parse_u64 :: "str \<Rightarrow> nat option" where
  "parse_u64 s =
     (case digits (if s \<noteq> [] \<and> hd s = 43 then tl s else s) of
        None \<Rightarrow> None
      | Some n \<Rightarrow> if n < 2 ^ 64 then Some n else None)"

definition parse_i64 :: "str \<Rightarrow> int option" where
  "parse_i64 s =
     (if s \<noteq> [] \<and> hd s = 45
      then (case digits (tl s) of
              None \<Rightarrow> None
            | Some n \<Rightarrow> if n \<le> 2 ^ 63 then Some (- int n) else None)
      else (case digits (if s \<noteq> [] \<and> hd s = 43 then tl s else s) of
              None \<Rightarrow> None
            | Some n \<Rightarrow> if n < 2 ^ 63 then Some (int n) else None))"

lemma digits_val_append:
  "digits_val acc (s @ t) = (case digits_val acc s of None \<Rightarrow> None | Some v \<Rightarrow> digits_val v t)"
  by (induction acc s rule: digits_val.induct) auto

lemma digits_val_dec_str: "digits_val 0 (dec_str n) = Some n"
proof (induction n rule: dec_str.induct)
  case (1 n)
  show ?case
  proof (cases "n < 10")
    case True
    then show ?thesis by (subst dec_str.simps) (simp add: is_ascii_digit_def)
  next
    case False
    with 1 have "digits_val 0 (dec_str (n div 10)) = Some (n div 10)" by simp
    with False show ?thesis
      by (subst dec_str.simps) (simp add: digits_val_append is_ascii_digit_def)
  qed
qed

lemma dec_str_digits: "c \<in> set (dec_str n) \<Longrightarrow> is_ascii_digit c"
proof (induction n rule: dec_str.induct)
  case (1 n)
  then show ?case
    by (subst (asm) (2) dec_str.simps) (auto simp: is_ascii_digit_def split: if_splits)
qed

lemma dec_str_not_Nil [simp]: "dec_str n \<noteq> []"
  by (subst dec_str.simps) simp

lemma parse_u64_dec_str: "n < 2 ^ 64 \<Longrightarrow> parse_u64 (dec_str n) = Some n"
proof -
  assume n: "n < 2 ^ 64"
  obtain c s where cs: "dec_str n = c # s" by (cases "dec_str n") auto
  then have "is_ascii_digit c" using dec_str_digits [of c n] by simp
  then have "c \<noteq> 43" by (simp add: is_ascii_digit_def)
  with n cs show ?thesis
    using digits_val_dec_str [of n] by (simp add: parse_u64_def digits_def)
qed


section \<open>Lists used as Rust vectors\<close>

text \<open>First-seen order de-duplication through a \<open>HashSet\<close>.\<close>

fun unique_from :: "'a set \<Rightarrow> 'a list \<Rightarrow> 'a list" where
  "unique_from seen [] = []"
| "unique_from seen (h # hs) =
     (if h \<in> seen then unique_from seen hs else h # unique_from (insert h seen) hs)"

lemma set_unique_from [simp]: "set (unique_from seen hs) = set hs - seen"
  by (induction seen hs rule: unique_from.induct) auto

lemma distinct_unique_from [simp]: "distinct (unique_from seen hs)"
  by (induction seen hs rule: unique_from.induct) auto

lemma unique_from_id: "distinct hs \<Longrightarrow> set hs \<inter> seen = {} \<Longrightarrow> unique_from seen hs = hs"
  by (induction seen hs rule: unique_from.induct) auto

lemma unique_from_filter:
  "unique_from seen hs = filter (\<lambda>h. h \<notin> seen) (unique_from {} hs)"
proof (induction hs arbitrary: seen)
  case (Cons h hs)
  have "unique_from (insert h {}) hs = filter (\<lambda>x. x \<noteq> h) (unique_from {} hs)"
    by (subst Cons.IH) simp
  moreover have "unique_from (insert h seen) hs
      = filter (\<lambda>x. x \<notin> insert h seen) (unique_from {} hs)"
    by (subst Cons.IH) simp
  ultimately show ?case
    using Cons.IH [of seen] by (auto simp: filter_id_conv intro: filter_cong)
qed simp

lemma rev_remdups_rev_Cons:
  "rev (remdups (rev (h # hs))) = h # filter (\<lambda>x. x \<noteq> h) (rev (remdups (rev hs)))"
proof (induction hs rule: rev_induct)
  case (snoc x xs)
  then show ?case by auto
qed simp

text \<open>The hand-written loop keeps exactly the first occurrences.\<close>

lemma unique_from_remdups: "unique_from {} hs = rev (remdups (rev hs))"
proof (induction hs)
  case (Cons h hs)
  have "unique_from {h} hs = filter (\<lambda>x. x \<noteq> h) (unique_from {} hs)"
    by (subst unique_from_filter) simp
  with Cons.IH show ?case
    by (simp only: rev_remdups_rev_Cons unique_from.simps empty_iff if_False)
qed simp


section \<open>Hash maps\<close>

text \<open>
  A \<open>HashMap\<close> is an association list with distinct keys; \<open>map_of\<close> is \<open>get\<close>,
  \<open>AList.update\<close> is \<open>insert\<close> and \<open>AList.delete\<close> is \<open>remove\<close>. The iteration order of the list stands for the
  unspecified order of the hash table.
\<close>

abbreviation keys_distinct :: "('k \<times> 'v) list \<Rightarrow> bool" where
  "keys_distinct m \<equiv> distinct (map fst m)"

lemma map_of_update [simp]:
  "map_of (AList.update k v m) k' = (if k' = k then Some v else map_of m k')"
  by (simp add: update_conv')

lemma map_of_delete [simp]:
  "map_of (AList.delete k m) k' = (if k' = k then None else map_of m k')"
  by (simp add: delete_conv')

lemma keys_distinct_update [simp]: "keys_distinct m \<Longrightarrow> keys_distinct (AList.update k v m)"
  by (simp add: distinct_update)

lemma keys_distinct_delete [simp]: "keys_distinct m \<Longrightarrow> keys_distinct (AList.delete k m)"
  by (simp add: distinct_delete)

lemma keys_delete: "set (map fst (AList.delete k m)) = set (map fst m) - {k}"
  by (simp add: delete_keys)

text \<open>How many entries' values satisfy a predicate.\<close>

definition count_vals :: "('v \<Rightarrow> bool) \<Rightarrow> ('k \<times> 'v) list \<Rightarrow> nat" where
  "count_vals P m = length (filter (P \<circ> snd) m)"

lemma count_vals_Nil [simp]: "count_vals P [] = 0"
  by (simp add: count_vals_def)

lemma count_vals_Cons [simp]:
  "count_vals P ((k, v) # m) = (if P v then 1 else 0) + count_vals P m"
  by (simp add: count_vals_def)

lemma count_vals_le: "count_vals P m \<le> length m"
  by (simp add: count_vals_def)

lemma count_vals_delete_absent: "k \<notin> fst ` set m \<Longrightarrow> AList.delete k m = m"
  by (simp add: delete_id)

lemma count_vals_update:
  assumes "keys_distinct m"
  shows "count_vals P (AList.update k v m)
       = (count_vals P m + (if P v then 1 else 0))
         - (case map_of m k of Some w \<Rightarrow> if P w then 1 else 0 | None \<Rightarrow> 0)"
  using assms
proof (induction m)
  case (Cons kv m)
  obtain k' v' where kv: "kv = (k', v')" by (cases kv)
  show ?case
  proof (cases "k' = k")
    case True
    then show ?thesis using kv by simp
  next
    case False
    have le: "(case map_of m k of Some w \<Rightarrow> if P w then 1 else 0 | None \<Rightarrow> 0) \<le> count_vals P m"
      by (auto split: option.split dest!: map_of_SomeD)
         (metis (mono_tags, lifting) comp_apply count_vals_def filter_empty_conv length_greater_0_conv
           less_eq_Suc_le One_nat_def snd_conv)
    show ?thesis using False kv Cons le by auto
  qed
qed simp

lemma count_vals_delete:
  assumes "keys_distinct m"
  shows "count_vals P (AList.delete k m)
       = count_vals P m - (case map_of m k of Some w \<Rightarrow> if P w then 1 else 0 | None \<Rightarrow> 0)"
  using assms
proof (induction m)
  case (Cons kv m)
  obtain k' v' where kv: "kv = (k', v')" by (cases kv)
  show ?case
  proof (cases "k' = k")
    case True
    with Cons.prems kv have "k \<notin> fst ` set m" by simp
    with True kv show ?thesis
      by (simp add: delete_id)
  next
    case False
    have le: "(case map_of m k of Some w \<Rightarrow> if P w then 1 else 0 | None \<Rightarrow> 0) \<le> count_vals P m"
      by (auto split: option.split dest!: map_of_SomeD)
         (metis (mono_tags, lifting) comp_apply count_vals_def filter_empty_conv length_greater_0_conv
           less_eq_Suc_le One_nat_def snd_conv)
    show ?thesis using False kv Cons le by auto
  qed
qed simp

lemma count_vals_pos:
  "count_vals P m > 0 \<longleftrightarrow> (\<exists>(k, v) \<in> set m. P v)"
  by (force simp: count_vals_def filter_empty_conv)


section \<open>JSON values\<close>

text \<open>
  \<open>serde_json::Value\<close>. A number is kept as its JSON text, as the \<open>arbitrary_precision\<close>
  feature does; an object is a \<open>BTreeMap\<close>, an association list in key order.
\<close>

datatype json =
    JNull
  | JBool bool
  | JNumber str
  | JString str
  | JArray "json list"
  | JObject "(str \<times> json) list"

fun as_str :: "json \<Rightarrow> str option" where
  "as_str (JString s) = Some s"
| "as_str _ = None"

fun as_bool :: "json \<Rightarrow> bool option" where
  "as_bool (JBool b) = Some b"
| "as_bool _ = None"

fun as_array :: "json \<Rightarrow> json list option" where
  "as_array (JArray xs) = Some xs"
| "as_array _ = None"

fun as_object :: "json \<Rightarrow> (str \<times> json) list option" where
  "as_object (JObject kvs) = Some kvs"
| "as_object _ = None"

fun as_u64 :: "json \<Rightarrow> nat option" where
  "as_u64 (JNumber n) = parse_u64 n"
| "as_u64 _ = None"

fun as_i64 :: "json \<Rightarrow> int option" where
  "as_i64 (JNumber n) = parse_i64 n"
| "as_i64 _ = None"

fun is_object :: "json \<Rightarrow> bool" where
  "is_object (JObject _) = True"
| "is_object _ = False"

fun is_string :: "json \<Rightarrow> bool" where
  "is_string (JString _) = True"
| "is_string _ = False"

fun json_get :: "json \<Rightarrow> str \<Rightarrow> json option" where
  "json_get (JObject kvs) k = map_of kvs k"
| "json_get _ k = None"

text \<open>\<open>value[key]\<close>: \<open>Null\<close> where the key is missing.\<close>

definition json_index :: "json \<Rightarrow> str \<Rightarrow> json" where
  "json_index v k = (case json_get v k of Some x \<Rightarrow> x | None \<Rightarrow> JNull)"

definition jnat :: "nat \<Rightarrow> json" where
  "jnat n = JNumber (dec_str n)"

text \<open>The object of the \<open>json!\<close> macro, in the key order of the \<open>BTreeMap\<close>.\<close>

fun str_less :: "str \<Rightarrow> str \<Rightarrow> bool" where
  "str_less s [] = False"
| "str_less [] (d # t) = True"
| "str_less (c # s) (d # t) = (c < d \<or> c = d \<and> str_less s t)"

fun obj_insert :: "str \<Rightarrow> 'v \<Rightarrow> (str \<times> 'v) list \<Rightarrow> (str \<times> 'v) list" where
  "obj_insert k v [] = [(k, v)]"
| "obj_insert k v ((k', v') # m) =
     (if k = k' then (k, v) # m
      else if str_less k k' then (k, v) # (k', v') # m
      else (k', v') # obj_insert k v m)"

definition obj_of :: "(str \<times> 'v) list \<Rightarrow> (str \<times> 'v) list" where
  "obj_of kvs = fold (\<lambda>(k, v). obj_insert k v) kvs []"

definition jobject :: "(str \<times> json) list \<Rightarrow> json" where
  "jobject kvs = JObject (obj_of kvs)"

lemma map_of_obj_insert [simp]:
  "map_of (obj_insert k v m) = (map_of m)(k \<mapsto> v)"
  by (induction k v m rule: obj_insert.induct) (auto simp: fun_eq_iff)

lemma map_of_fold_obj_insert:
  "map_of (fold (\<lambda>(k, v). obj_insert k v) kvs m) = map_of m ++ map_of (rev kvs)"
  by (induction kvs arbitrary: m) (auto simp: map_add_def fun_eq_iff split: option.splits)

lemma map_of_obj_of: "map_of (obj_of kvs) = map_of (rev kvs)"
  by (simp add: obj_of_def map_of_fold_obj_insert)

lemma json_get_jobject [json_simps]: "json_get (jobject kvs) k = map_of (rev kvs) k"
  by (simp add: jobject_def map_of_obj_of)

lemma as_u64_jnat: "n < 2 ^ 64 \<Longrightarrow> as_u64 (jnat n) = Some n"
  by (simp add: jnat_def parse_u64_dec_str)

end
