(* ===== verification/KvManager.thy ===== *)
theory KvManager
  imports Prelude
begin

text \<open>
  The coordinator of \<open>ram-a-kv/crates/manager-core\<close>: configuration, errors, the chunk-hash
  map of a session, the backend interface, the debug file writer and every operation of
  \<open>KvCacheManager\<close>. An operation is a function of the manager's state that returns its
  \<open>Result\<close>, the new state and the effects it has outside the process in order (backend
  calls and debug files). What the outside answers is an argument, the record \<open>world\<close>.
  Here an operation runs alone; \<open>KvConcurrency\<close> interleaves them at the granularity of the
  locks.
\<close>

section \<open>Configuration and errors\<close>

record KvCacheConfig =
  enabled :: bool
  debug_enabled :: bool
  trace_events :: bool
  debug_dir :: str
  backend_url :: str
  turn_start_prefetch :: bool

definition default_KvCacheConfig :: KvCacheConfig where
  "default_KvCacheConfig = \<lparr>enabled = False, debug_enabled = False, trace_events = False,
     debug_dir = lit ''kvcache_debug'', backend_url = lit ''http://localhost:6999'',
     turn_start_prefetch = True\<rparr>"

text \<open>\<open>from_xiaoo_llm_section\<close>: the TOML table is read through its boolean lookups.\<close>

definition from_xiaoo_llm_section :: "(str \<Rightarrow> bool option) \<Rightarrow> KvCacheConfig" where
  "from_xiaoo_llm_section llm_bool =
     (let e = (case llm_bool (lit ''kvcache_enabled'') of Some b \<Rightarrow> b | None \<Rightarrow> False);
          d = (case llm_bool (lit ''kvcache_debug_enabled'') of Some b \<Rightarrow> b | None \<Rightarrow> False)
      in default_KvCacheConfig\<lparr>enabled := e, debug_enabled := d\<rparr>)"

datatype KvCacheError =
    BackendFailed str
  | SessionNotFound str
  | ConfigError str
  | DebugWriteFailed str str

fun kv_error_string :: "KvCacheError \<Rightarrow> str" where
  "kv_error_string (BackendFailed m) = lit ''backend request failed: '' @ m"
| "kv_error_string (SessionNotFound s) = lit ''session '' @ [39] @ s @ [39] @ lit '' not found''"
| "kv_error_string (ConfigError m) = lit ''config error: '' @ m"
| "kv_error_string (DebugWriteFailed p e) = lit ''debug file write failed: '' @ p @ lit '': '' @ e"


section \<open>The chunk-hash map of a session\<close>

type_synonym KvCacheMap = "str list"

definition chunk_hashes :: "KvCacheMap \<Rightarrow> str list" where
  "chunk_hashes m = m"

definition map_replace :: "KvCacheMap \<Rightarrow> str list \<Rightarrow> KvCacheMap" where
  "map_replace m new_hashes = new_hashes"

definition map_is_empty :: "KvCacheMap \<Rightarrow> bool" where
  "map_is_empty m = (m = [])"

definition map_len :: "KvCacheMap \<Rightarrow> nat" where
  "map_len m = length m"


section \<open>The backend interface and the outside world\<close>

record BackendResult =
  status :: nat
  responded :: bool

text \<open>
  The answers of the outside: the backend's \<open>prefetch\<close> (hashes, lookup id, session id) and
  \<open>evict\<close>, and the file system calls of the debug writer (\<open>Some e\<close> is an I/O error).
\<close>

record world =
  w_prefetch :: "str list \<Rightarrow> str \<Rightarrow> str \<Rightarrow> BackendResult"
  w_evict :: "str list \<Rightarrow> BackendResult"
  w_dir_exists :: "str \<Rightarrow> bool"
  w_create_dir :: "str \<Rightarrow> str option"
  w_write_file :: "str \<Rightarrow> json \<Rightarrow> str option"

datatype effect =
    Prefetch "str list" str str
  | Evict "str list"
  | WriteFile str json

definition backend_ok :: "BackendResult \<Rightarrow> bool" where
  "backend_ok r \<longleftrightarrow> responded r \<and> status r \<ge> 200 \<and> status r < 300"


section \<open>The debug file writer\<close>

record TimingInfo =
  ttft_ms :: "nat option"
  total_time_ms :: "nat option"
  tpot_ms :: "nat option"

record DebugContext =
  messages :: "json list"
  timing :: TimingInfo

definition default_TimingInfo :: TimingInfo where
  "default_TimingInfo = \<lparr>ttft_ms = None, total_time_ms = None, tpot_ms = None\<rparr>"

definition default_DebugContext :: DebugContext where
  "default_DebugContext = \<lparr>messages = [], timing = default_TimingInfo\<rparr>"

definition sanitize_char :: "nat \<Rightarrow> nat" where
  "sanitize_char c = (if is_ascii_alnum c \<or> c = 95 \<or> c = 45 then c else 95)"

definition sanitize_session_id :: "str \<Rightarrow> str" where
  "sanitize_session_id session_id =
     (let out = map sanitize_char session_id
      in if out = [] then lit ''unknown'' else out)"

definition jopt_nat :: "nat option \<Rightarrow> json" where
  "jopt_nat x = (case x of Some n \<Rightarrow> jnat n | None \<Rightarrow> JNull)"

definition debug_file_name :: "str \<Rightarrow> 32 word \<Rightarrow> str" where
  "debug_file_name session_id turn_count =
     lit ''kvcache_debug_'' @ sanitize_session_id session_id @ lit ''_''
       @ dec_str (unat turn_count) @ lit ''.json''"

definition debug_file_data :: "str \<Rightarrow> 32 word \<Rightarrow> str list \<Rightarrow> DebugContext \<Rightarrow> json" where
  "debug_file_data session_id turn_count hashes ctx = jobject
     [(lit ''session_id'', JString session_id),
      (lit ''turn_count'', jnat (unat turn_count)),
      (lit ''chunk_hashes'', JArray (map JString hashes)),
      (lit ''messages'', JArray (messages ctx)),
      (lit ''timing'', jobject
        [(lit ''ttft_ms'', jopt_nat (ttft_ms (timing ctx))),
         (lit ''total_time_ms'', jopt_nat (total_time_ms (timing ctx))),
         (lit ''tpot_ms'', jopt_nat (tpot_ms (timing ctx)))])]"

definition write_debug_file ::
  "world \<Rightarrow> KvCacheConfig \<Rightarrow> str \<Rightarrow> 32 word \<Rightarrow> str list \<Rightarrow> DebugContext
     \<Rightarrow> (KvCacheError + unit) \<times> effect list" where
  "write_debug_file w config session_id turn_count hashes ctx =
     (if \<not> debug_enabled config then (Inr (), [])
      else
        case (if w_dir_exists w (debug_dir config) then None
              else w_create_dir w (debug_dir config)) of
          Some e \<Rightarrow> (Inl (DebugWriteFailed (debug_dir config) e), [])
        | None \<Rightarrow>
            let path = path_join (debug_dir config) (debug_file_name session_id turn_count);
                content = debug_file_data session_id turn_count hashes ctx
            in case w_write_file w path content of
                 Some e \<Rightarrow> (Inl (DebugWriteFailed path e), [])
               | None \<Rightarrow> (Inr (), [WriteFile path content]))"


section \<open>The manager's state\<close>

record SessionKvState =
  sess_map :: KvCacheMap
  turn_count :: "32 word"

record ForkSnapshot =
  fs_session_id :: str
  fs_hashes :: "str list"

type_synonym refcounts = "(str \<times> nat) list"

record KvCacheManager =
  config :: KvCacheConfig
  sessions :: "(str \<times> SessionKvState) list"
  refcounts :: refcounts
  fork_snapshots :: "(nat \<times> ForkSnapshot) list"
  next_fork_id :: nat

record OperationOutcome =
  evicted_count :: nat
  debug_written :: bool
  prefetch_sent :: bool
  prefetch_count :: nat
  backend_degraded :: bool

definition default_outcome :: OperationOutcome where
  "default_outcome = \<lparr>evicted_count = 0, debug_written = False, prefetch_sent = False,
     prefetch_count = 0, backend_degraded = False\<rparr>"

definition new_manager :: "KvCacheConfig \<Rightarrow> KvCacheManager" where
  "new_manager cfg = \<lparr>config = cfg, sessions = [], refcounts = [], fork_snapshots = [],
     next_fork_id = 1\<rparr>"

type_synonym 'a op_result = "(KvCacheError + 'a) \<times> KvCacheManager \<times> effect list"


section \<open>Reference counts\<close>

definition unique_hashes :: "str list \<Rightarrow> str list" where
  "unique_hashes hashes = unique_from {} hashes"

fun decrement_refcounts :: "refcounts \<Rightarrow> str list \<Rightarrow> refcounts \<times> str list" where
  "decrement_refcounts rc [] = (rc, [])"
| "decrement_refcounts rc (hash # hashes) =
     (case map_of rc hash of
        Some count \<Rightarrow>
          if count > 0 then
            if count - 1 = 0 then
              let (rc', to_evict) = decrement_refcounts (AList.delete hash rc) hashes
              in (rc', hash # to_evict)
            else decrement_refcounts (AList.update hash (count - 1) rc) hashes
          else decrement_refcounts rc hashes
      | None \<Rightarrow> decrement_refcounts rc hashes)"

definition increment_refcount :: "str \<Rightarrow> refcounts \<Rightarrow> refcounts" where
  "increment_refcount hash rc =
     AList.update hash ((case map_of rc hash of Some c \<Rightarrow> c | None \<Rightarrow> 0) + 1) rc"

definition increment_refcounts :: "refcounts \<Rightarrow> str list \<Rightarrow> refcounts" where
  "increment_refcounts rc hashes = fold increment_refcount hashes rc"

definition old_unique_iter :: "str list \<Rightarrow> str set \<Rightarrow> str list" where
  "old_unique_iter old_hashes new_set = filter (\<lambda>h. h \<notin> new_set) old_hashes"


section \<open>Operations\<close>

text \<open>
  The tail every mutating operation shares: evict outside the locks, and report the count only
  when the backend accepted.
\<close>

definition evict_tail ::
  "world \<Rightarrow> str list \<Rightarrow> OperationOutcome \<Rightarrow> OperationOutcome \<times> effect list" where
  "evict_tail w to_evict outcome =
     (if to_evict \<noteq> [] then
        let result = w_evict w to_evict
        in (if \<not> backend_ok result then outcome\<lparr>backend_degraded := True\<rparr>
            else outcome\<lparr>evicted_count := length to_evict\<rparr>, [Evict to_evict])
      else (outcome, []))"

definition prefetch_tail ::
  "world \<Rightarrow> str list \<Rightarrow> str \<Rightarrow> str \<Rightarrow> OperationOutcome \<Rightarrow> OperationOutcome \<times> effect list" where
  "prefetch_tail w hashes lookup_id session_id outcome =
     (let result = w_prefetch w hashes lookup_id session_id
      in (if \<not> backend_ok result then outcome\<lparr>backend_degraded := True\<rparr>
          else outcome\<lparr>prefetch_sent := True\<rparr>, [Prefetch hashes lookup_id session_id]))"

definition on_turn_start :: "world \<Rightarrow> str \<Rightarrow> KvCacheManager \<Rightarrow> OperationOutcome op_result" where
  "on_turn_start w session_id m =
     (if \<not> turn_start_prefetch (config m) then (Inr default_outcome, m, [])
      else
        let hashes = (case map_of (sessions m) session_id of
                        Some s \<Rightarrow> unique_hashes (chunk_hashes (sess_map s))
                      | None \<Rightarrow> [])
        in if hashes = [] then (Inr default_outcome, m, [])
           else
             let outcome = default_outcome\<lparr>prefetch_count := length hashes\<rparr>;
                 (outcome, eff) = prefetch_tail w hashes (lit ''turn_prefetch_'' @ session_id)
                                    session_id outcome
             in (Inr outcome, m, eff))"

text \<open>
  The critical section of \<open>on_turn_end\<close>, under the session lock: the diff of the unique hash
  sets, the reference counts, the new map. It returns the hashes to evict, the turn count and the
  hashes for the debug file.
\<close>

definition turn_end_section ::
  "str \<Rightarrow> str list option \<Rightarrow> KvCacheManager
     \<Rightarrow> (str list \<times> 32 word \<times> str list) \<times> KvCacheManager" where
  "turn_end_section session_id new_hashes m =
     (let state = (case map_of (sessions m) session_id of
                     Some s \<Rightarrow> s
                   | None \<Rightarrow> \<lparr>sess_map = [], turn_count = 0\<rparr>);
          state = state\<lparr>turn_count := turn_count state + 1\<rparr>
      in case new_hashes of
           None \<Rightarrow>
             (([], turn_count state, chunk_hashes (sess_map state)),
              m\<lparr>sessions := AList.update session_id state (sessions m)\<rparr>)
         | Some new_hashes \<Rightarrow>
             let old_unique = unique_hashes (chunk_hashes (sess_map state));
                 new_unique = unique_hashes new_hashes;
                 to_decrement = filter (\<lambda>h. h \<notin> set new_unique) old_unique;
                 to_increment = filter (\<lambda>h. h \<notin> set old_unique) new_unique;
                 (rc, to_evict) = decrement_refcounts (refcounts m) to_decrement;
                 rc = increment_refcounts rc to_increment;
                 state = state\<lparr>sess_map := map_replace (sess_map state) new_hashes\<rparr>
             in ((to_evict, turn_count state, new_hashes),
                 m\<lparr>sessions := AList.update session_id state (sessions m), refcounts := rc\<rparr>))"

definition on_turn_end ::
  "world \<Rightarrow> str \<Rightarrow> str list option \<Rightarrow> DebugContext option \<Rightarrow> KvCacheManager
     \<Rightarrow> OperationOutcome op_result" where
  "on_turn_end w session_id new_hashes debug_context m =
     (let ((to_evict, turns, map_hashes), m') = turn_end_section session_id new_hashes m;
          (outcome, eff) = evict_tail w to_evict default_outcome
      in if debug_enabled (config m) then
           let ctx = (case debug_context of Some c \<Rightarrow> c | None \<Rightarrow> default_DebugContext)
           in case write_debug_file w (config m) session_id turns map_hashes ctx of
                (Inr _, eff') \<Rightarrow> (Inr (outcome\<lparr>debug_written := True\<rparr>), m', eff @ eff')
              | (Inl e, eff') \<Rightarrow> (Inl e, m', eff @ eff')
         else (Inr outcome, m', eff))"

text \<open>The critical section of \<open>on_snapshot_restore\<close>.\<close>

definition restore_section :: "str \<Rightarrow> str list \<Rightarrow> KvCacheManager \<Rightarrow> str list \<times> KvCacheManager" where
  "restore_section session_id hashes m =
     (let new_unique = unique_hashes hashes;
          new_map = map_replace [] hashes;
          old_hashes = (case map_of (sessions m) session_id of
                          Some s \<Rightarrow> unique_hashes (chunk_hashes (sess_map s))
                        | None \<Rightarrow> []);
          to_decrement = old_unique_iter old_hashes (set new_unique);
          to_increment = filter (\<lambda>h. h \<notin> set old_hashes) new_unique;
          (rc, to_evict) = decrement_refcounts (refcounts m) to_decrement;
          rc = increment_refcounts rc to_increment;
          turns = (case map_of (sessions m) session_id of Some s \<Rightarrow> turn_count s | None \<Rightarrow> 0)
      in (to_evict,
          m\<lparr>sessions := AList.update session_id \<lparr>sess_map = new_map, turn_count = turns\<rparr> (sessions m),
            refcounts := rc\<rparr>))"

definition on_snapshot_restore ::
  "world \<Rightarrow> str \<Rightarrow> str list \<Rightarrow> KvCacheManager \<Rightarrow> OperationOutcome op_result" where
  "on_snapshot_restore w session_id hashes m =
     (let (to_evict, m') = restore_section session_id hashes m;
          (outcome, eff) = evict_tail w to_evict default_outcome
      in if hashes \<noteq> [] then
           let outcome = outcome\<lparr>prefetch_count := length hashes\<rparr>;
               (outcome, eff') = prefetch_tail w hashes (lit ''snapshot_prefetch_'' @ session_id)
                                   session_id outcome
           in (Inr outcome, m', eff @ eff')
         else (Inr outcome, m', eff))"

definition session_map :: "str \<Rightarrow> KvCacheManager \<Rightarrow> KvCacheMap option" where
  "session_map session_id m = map_option sess_map (map_of (sessions m) session_id)"

definition session_turn_count :: "str \<Rightarrow> KvCacheManager \<Rightarrow> 32 word option" where
  "session_turn_count session_id m = map_option turn_count (map_of (sessions m) session_id)"

definition close_section :: "str \<Rightarrow> KvCacheManager \<Rightarrow> str list \<times> KvCacheManager" where
  "close_section session_id m =
     (case map_of (sessions m) session_id of
        None \<Rightarrow> ([], m)
      | Some state \<Rightarrow>
          let unique = unique_hashes (chunk_hashes (sess_map state));
              (rc, to_evict) = decrement_refcounts (refcounts m) unique
          in (to_evict, m\<lparr>sessions := AList.delete session_id (sessions m), refcounts := rc\<rparr>))"

definition on_session_close :: "world \<Rightarrow> str \<Rightarrow> KvCacheManager \<Rightarrow> OperationOutcome op_result" where
  "on_session_close w session_id m =
     (let (to_evict, m') = close_section session_id m;
          (outcome, eff) = evict_tail w to_evict default_outcome
      in (Inr outcome, m', eff))"

text \<open>
  The fork takes three locks one after the other: read, register, count. Drawing the id, an atomic counter
  nothing else reads, is one step with registering the snapshot under it.
\<close>

definition fork_read :: "str \<Rightarrow> KvCacheManager \<Rightarrow> str list option" where
  "fork_read session_id m =
     map_option (\<lambda>s. unique_hashes (chunk_hashes (sess_map s))) (map_of (sessions m) session_id)"

definition fork_register :: "str \<Rightarrow> str list \<Rightarrow> KvCacheManager \<Rightarrow> nat \<times> KvCacheManager" where
  "fork_register session_id hashes m =
     (let fork_id = next_fork_id m
      in (fork_id, m\<lparr>next_fork_id := fork_id + 1,
            fork_snapshots := AList.update fork_id
              \<lparr>fs_session_id = session_id, fs_hashes = hashes\<rparr> (fork_snapshots m)\<rparr>))"

definition fork_count :: "str list \<Rightarrow> KvCacheManager \<Rightarrow> KvCacheManager" where
  "fork_count hashes m = m\<lparr>refcounts := increment_refcounts (refcounts m) hashes\<rparr>"

definition on_session_fork :: "str \<Rightarrow> KvCacheManager \<Rightarrow> nat op_result" where
  "on_session_fork session_id m =
     (case fork_read session_id m of
        None \<Rightarrow> (Inl (SessionNotFound session_id), m, [])
      | Some hashes \<Rightarrow>
          let (fork_id, m1) = fork_register session_id hashes m
          in (Inr fork_id, fork_count hashes m1, []))"

text \<open>Which snapshot a \<open>fork_end\<close> consumes: by id if it is this session's, else the latest.\<close>

definition pick_snapshot :: "str \<Rightarrow> nat option \<Rightarrow> KvCacheManager \<Rightarrow> nat option" where
  "pick_snapshot session_id fork_id m =
     (case fork_id of
        Some i \<Rightarrow> (case map_of (fork_snapshots m) i of
                     Some s \<Rightarrow> if fs_session_id s = session_id then Some i else None
                   | None \<Rightarrow> None)
      | None \<Rightarrow>
          (case map fst (filter (\<lambda>(_, snap). fs_session_id snap = session_id) (fork_snapshots m)) of
             [] \<Rightarrow> None
           | i # is \<Rightarrow> Some (fold max is i)))"

definition fork_end_section ::
  "str \<Rightarrow> nat option \<Rightarrow> KvCacheManager \<Rightarrow> str list \<times> KvCacheManager" where
  "fork_end_section session_id fork_id m =
     (case pick_snapshot session_id fork_id m of
        None \<Rightarrow> ([], m)
      | Some i \<Rightarrow>
          (case map_of (fork_snapshots m) i of
             None \<Rightarrow> ([], m)
           | Some snapshot \<Rightarrow>
               let (rc, to_evict) = decrement_refcounts (refcounts m) (fs_hashes snapshot)
               in (to_evict,
                   m\<lparr>fork_snapshots := AList.delete i (fork_snapshots m), refcounts := rc\<rparr>)))"

definition on_session_fork_end ::
  "world \<Rightarrow> str \<Rightarrow> nat option \<Rightarrow> KvCacheManager \<Rightarrow> OperationOutcome op_result" where
  "on_session_fork_end w session_id fork_id m =
     (let (to_evict, m') = fork_end_section session_id fork_id m;
          (outcome, eff) = evict_tail w to_evict default_outcome
      in (Inr outcome, m', eff))"

definition restore_session :: "str \<Rightarrow> SessionKvState \<Rightarrow> KvCacheManager \<Rightarrow> KvCacheManager" where
  "restore_session session_id state m =
     m\<lparr>sessions := AList.update session_id state (sessions m)\<rparr>"

fun count_session_hashes :: "str set \<Rightarrow> str list \<Rightarrow> refcounts \<Rightarrow> refcounts" where
  "count_session_hashes seen [] rc = rc"
| "count_session_hashes seen (hash # hashes) rc =
     (if hash \<in> seen then count_session_hashes seen hashes rc
      else count_session_hashes (insert hash seen) hashes (increment_refcount hash rc))"

definition rebuild_refcounts :: "KvCacheManager \<Rightarrow> KvCacheManager" where
  "rebuild_refcounts m =
     m\<lparr>refcounts := fold (\<lambda>(_, state) rc. count_session_hashes {} (chunk_hashes (sess_map state)) rc)
                      (sessions m) []\<rparr>"

definition set_refcounts :: "refcounts \<Rightarrow> KvCacheManager \<Rightarrow> KvCacheManager" where
  "set_refcounts rc m = m\<lparr>refcounts := rc\<rparr>"

definition sessions_count :: "KvCacheManager \<Rightarrow> nat" where
  "sessions_count m = length (sessions m)"

lemmas section_defs [kv_simps] =
  turn_end_section_def restore_section_def close_section_def fork_read_def fork_register_def
  fork_count_def fork_end_section_def chunk_hashes_def map_replace_def old_unique_iter_def

end
