(* ===== verification/KvRefcount.thy ===== *)
theory KvRefcount
  imports KvManager
begin

text \<open>
  The reference-count table as an interface. The locale \<open>refcount_table\<close> states what the
  coordinator relies on (incrementing a list counts it, decrementing a duplicate-free list
  releases one reference of each element and reports exactly those that reach zero); the client
  lemmas about replacing one hash set by another and about acquiring and releasing are proved
  once inside it, and the interpretation \<open>rct\<close> discharges the laws for the table of the
  code.
\<close>

section \<open>The interface\<close>

locale refcount_table =
  fixes cnt :: "'t \<Rightarrow> 'k \<Rightarrow> nat"
    and inc :: "'t \<Rightarrow> 'k list \<Rightarrow> 't"
    and dec :: "'t \<Rightarrow> 'k list \<Rightarrow> 't \<times> 'k list"
    and wf :: "'t \<Rightarrow> bool"
  assumes wf_inc: "wf t \<Longrightarrow> wf (inc t ks)"
    and wf_dec: "wf t \<Longrightarrow> wf (fst (dec t ks))"
    and cnt_inc: "cnt (inc t ks) k = cnt t k + count_list ks k"
    and cnt_dec: "\<lbrakk> wf t; distinct ks \<rbrakk>
      \<Longrightarrow> cnt (fst (dec t ks)) k = cnt t k - (if k \<in> set ks then 1 else 0)"
    and released: "\<lbrakk> wf t; distinct ks \<rbrakk> \<Longrightarrow> set (snd (dec t ks)) = {k \<in> set ks. cnt t k = 1}"
    and released_distinct: "\<lbrakk> wf t; distinct ks \<rbrakk> \<Longrightarrow> distinct (snd (dec t ks))"
begin

text \<open>Replacing the set \<open>old\<close> by \<open>new\<close> through the two differences.\<close>

definition swap :: "'t \<Rightarrow> 'k list \<Rightarrow> 'k list \<Rightarrow> 't \<times> 'k list" where
  "swap t old new =
     (let (t', ev) = dec t (filter (\<lambda>k. k \<notin> set new) old)
      in (inc t' (filter (\<lambda>k. k \<notin> set old) new), ev))"

lemma swap_wf: "wf t \<Longrightarrow> wf (fst (swap t old new))"
  using wf_dec [of t "filter (\<lambda>k. k \<notin> set new) old"]
  by (simp add: swap_def wf_inc split_beta)

lemma count_list_filter_distinct:
  "distinct ks \<Longrightarrow> count_list (filter P ks) k = (if k \<in> set ks \<and> P k then 1 else 0)"
  by (induction ks) auto

lemma swap_cnt:
  assumes "wf t" "distinct old" "distinct new" "\<forall>k \<in> set old. 0 < cnt t k"
  shows "cnt (fst (swap t old new)) k + (if k \<in> set old then 1 else 0)
       = cnt t k + (if k \<in> set new then 1 else 0)"
proof -
  obtain t' ev where d: "dec t (filter (\<lambda>k. k \<notin> set new) old) = (t', ev)" by fastforce
  have "cnt t' k = cnt t k - (if k \<in> set old \<and> k \<notin> set new then 1 else 0)"
    using cnt_dec [OF assms(1), of "filter (\<lambda>k. k \<notin> set new) old" k] assms(2) d by simp
  moreover have "cnt (fst (swap t old new)) k
      = cnt t' k + (if k \<in> set new \<and> k \<notin> set old then 1 else 0)"
    using d assms(3) by (simp add: swap_def cnt_inc count_list_filter_distinct)
  moreover have "k \<in> set old \<Longrightarrow> 0 < cnt t k" using assms(4) by blast
  ultimately show ?thesis by (cases "k \<in> set old"; cases "k \<in> set new") simp_all
qed

lemma swap_released:
  assumes "wf t" "distinct old"
  shows "set (snd (swap t old new)) = {k. k \<in> set old \<and> k \<notin> set new \<and> cnt t k = 1}"
    and "distinct (snd (swap t old new))"
proof -
  let ?f = "filter (\<lambda>k. k \<notin> set new) old"
  have f: "distinct ?f" using assms(2) by simp
  have e: "snd (swap t old new) = snd (dec t ?f)" by (simp add: swap_def split_beta)
  show "set (snd (swap t old new)) = {k. k \<in> set old \<and> k \<notin> set new \<and> cnt t k = 1}"
    unfolding e released [OF assms(1) f] by auto
  show "distinct (snd (swap t old new))"
    unfolding e by (rule released_distinct [OF assms(1) f])
qed

text \<open>A reference taken and given back leaves every count as it was and releases nothing held before.\<close>

lemma acquire_release:
  assumes "wf t" "distinct ks"
  shows "cnt (fst (dec (inc t ks) ks)) k = cnt t k"
    and "k \<in> set (snd (dec (inc t ks) ks)) \<Longrightarrow> cnt t k = 0"
proof -
  have c: "count_list ks k = (if k \<in> set ks then 1 else 0)"
    using count_list_filter_distinct [OF assms(2), of "\<lambda>_. True"] by simp
  show "cnt (fst (dec (inc t ks) ks)) k = cnt t k"
    by (simp add: cnt_dec wf_inc assms cnt_inc c)
  show "k \<in> set (snd (dec (inc t ks) ks)) \<Longrightarrow> cnt t k = 0"
    by (simp add: released wf_inc assms cnt_inc c split: if_splits)
qed

end


section \<open>The table of the code\<close>

definition rc_count :: "refcounts \<Rightarrow> str \<Rightarrow> nat" where
  "rc_count rc h = (case map_of rc h of Some c \<Rightarrow> c | None \<Rightarrow> 0)"

definition rc_wf :: "refcounts \<Rightarrow> bool" where
  "rc_wf rc \<longleftrightarrow> keys_distinct rc \<and> (\<forall>(h, c) \<in> set rc. 0 < c)"

lemma rc_wf_pos: "rc_wf rc \<Longrightarrow> map_of rc h = Some c \<Longrightarrow> 0 < c"
  by (auto simp: rc_wf_def dest!: map_of_SomeD)

lemma rc_wf_Nil [simp]: "rc_wf []"
  by (simp add: rc_wf_def)

lemma rc_wf_update: "rc_wf rc \<Longrightarrow> 0 < c \<Longrightarrow> rc_wf (AList.update h c rc)"
  unfolding rc_wf_def
  by (metis (no_types, lifting) case_prodI2 case_prodD keys_distinct_update map_of_eq_Some_iff
      map_of_update option.inject)

lemma rc_wf_delete: "rc_wf rc \<Longrightarrow> rc_wf (AList.delete h rc)"
  unfolding rc_wf_def
  by (metis (no_types, lifting) case_prodI2 case_prodD keys_distinct_delete map_of_eq_Some_iff
      map_of_delete option.discI)

lemma rc_count_update [simp]:
  "rc_count (AList.update h c rc) k = (if k = h then c else rc_count rc k)"
  by (simp add: rc_count_def)

lemma rc_count_delete [simp]:
  "rc_count (AList.delete h rc) k = (if k = h then 0 else rc_count rc k)"
  by (simp add: rc_count_def)

lemma increment_refcount_wf: "rc_wf rc \<Longrightarrow> rc_wf (increment_refcount h rc)"
  by (simp add: increment_refcount_def rc_wf_update)

lemma rc_count_increment_refcount [simp]:
  "rc_count (increment_refcount h rc) k = rc_count rc k + (if k = h then 1 else 0)"
  by (simp add: increment_refcount_def) (simp add: rc_count_def)

lemma increment_refcounts_wf: "rc_wf rc \<Longrightarrow> rc_wf (increment_refcounts rc hs)"
  unfolding increment_refcounts_def
  by (induction hs arbitrary: rc) (auto simp: increment_refcount_wf)

lemma rc_count_increment_refcounts:
  "rc_count (increment_refcounts rc hs) k = rc_count rc k + count_list hs k"
  unfolding increment_refcounts_def
  by (induction hs arbitrary: rc) auto

text \<open>One step of the decrement loop, as a case distinction on the count.\<close>

lemma decrement_refcounts_step:
  assumes "rc_wf rc"
  shows "decrement_refcounts rc (h # hs) =
    (if rc_count rc h = 0 then decrement_refcounts rc hs
     else if rc_count rc h = 1
       then (fst (decrement_refcounts (AList.delete h rc) hs),
             h # snd (decrement_refcounts (AList.delete h rc) hs))
     else decrement_refcounts (AList.update h (rc_count rc h - 1) rc) hs)"
  using rc_wf_pos [OF assms, of h]
  by (auto simp: rc_count_def Let_def split: option.split prod.split)

lemma decrement_refcounts_wf: "rc_wf rc \<Longrightarrow> rc_wf (fst (decrement_refcounts rc hs))"
proof (induction hs arbitrary: rc)
  case (Cons h hs)
  then show ?case
    by (simp add: decrement_refcounts_step rc_wf_delete rc_wf_update del: decrement_refcounts.simps)
qed simp

lemma rc_count_decrement_refcounts:
  "rc_wf rc \<Longrightarrow> distinct hs \<Longrightarrow>
   rc_count (fst (decrement_refcounts rc hs)) k = rc_count rc k - (if k \<in> set hs then 1 else 0)"
proof (induction hs arbitrary: rc)
  case (Cons h hs)
  then show ?case
    by (auto simp add: decrement_refcounts_step rc_wf_delete rc_wf_update
        simp del: decrement_refcounts.simps)
qed simp

lemma decrement_refcounts_released:
  "rc_wf rc \<Longrightarrow> distinct hs \<Longrightarrow>
   set (snd (decrement_refcounts rc hs)) = {k \<in> set hs. rc_count rc k = 1}"
proof (induction hs arbitrary: rc)
  case (Cons h hs)
  then show ?case
    by (auto simp add: decrement_refcounts_step rc_wf_delete rc_wf_update
        simp del: decrement_refcounts.simps)
qed simp

lemma decrement_refcounts_sub: "set (snd (decrement_refcounts rc hs)) \<subseteq> set hs"
proof (induction hs arbitrary: rc)
  case (Cons h hs)
  note IH = Cons.IH [of "AList.delete h rc"] Cons.IH [of rc]
    Cons.IH [of "AList.update h c rc" for c]
  show ?case
    using IH by (auto simp: Let_def split: option.splits prod.splits)
qed simp

lemma decrement_refcounts_distinct:
  "distinct hs \<Longrightarrow> distinct (snd (decrement_refcounts rc hs))"
proof (induction hs arbitrary: rc)
  case (Cons h hs)
  have "h \<notin> set (snd (decrement_refcounts (AList.delete h rc) hs))"
    using decrement_refcounts_sub [of "AList.delete h rc" hs] Cons.prems by auto
  then show ?case
    using Cons by (auto simp: Let_def split: option.splits prod.splits) (metis snd_conv)
qed simp

interpretation rct: refcount_table rc_count increment_refcounts decrement_refcounts rc_wf
  by unfold_locales
     (simp_all add: increment_refcounts_wf decrement_refcounts_wf rc_count_increment_refcounts
       rc_count_decrement_refcounts decrement_refcounts_released decrement_refcounts_distinct)

lemma unique_hashes_simps [simp]:
  "set (unique_hashes hs) = set hs" "distinct (unique_hashes hs)"
  by (simp_all add: unique_hashes_def)

end
