(* ===== verification/KvInvariant.thy ===== *)
theory KvInvariant
  imports KvRefcount
begin

text \<open>
  The accounting invariant of the coordinator and what its operations do to it. The abstract
  view of a manager is, for each chunk hash, the number of holders: the sessions whose map
  contains it and the fork snapshots that captured it. The invariant says the reference-count
  table is exactly that function; each critical section keeps it and evicts exactly the hashes
  that lose their last holder.
\<close>

section \<open>Holders and the invariant\<close>

definition holders :: "KvCacheManager \<Rightarrow> str \<Rightarrow> nat" where
  "holders m h = count_vals (\<lambda>s. h \<in> set (sess_map s)) (sessions m)
               + count_vals (\<lambda>f. h \<in> set (fs_hashes f)) (fork_snapshots m)"

definition kv_inv :: "KvCacheManager \<Rightarrow> bool" where
  "kv_inv m \<longleftrightarrow> keys_distinct (sessions m) \<and> keys_distinct (fork_snapshots m)
     \<and> rc_wf (refcounts m)
     \<and> (\<forall>(i, f) \<in> set (fork_snapshots m). i < next_fork_id m \<and> distinct (fs_hashes f))
     \<and> rc_count (refcounts m) = holders m"

definition released_exactly :: "KvCacheManager \<Rightarrow> str list \<Rightarrow> KvCacheManager \<Rightarrow> bool" where
  "released_exactly m ev m' \<longleftrightarrow>
     distinct ev \<and> (\<forall>h. h \<in> set ev \<longleftrightarrow> 0 < holders m h \<and> holders m' h = 0)"

lemma released_exactly_refl: "holders m' = holders m \<Longrightarrow> released_exactly m [] m'"
  by (auto simp: released_exactly_def)

lemma kv_inv_new [simp]: "kv_inv (new_manager cfg)"
  by (simp add: kv_inv_def new_manager_def holders_def rc_count_def fun_eq_iff)

lemma holders_pos_session:
  "map_of (sessions m) sid = Some s \<Longrightarrow> h \<in> set (sess_map s) \<Longrightarrow> 0 < holders m h"
  by (auto simp: holders_def count_vals_pos dest!: map_of_SomeD)

lemma holders_pos_snapshot:
  "map_of (fork_snapshots m) i = Some f \<Longrightarrow> h \<in> set (fs_hashes f) \<Longrightarrow> 0 < holders m h"
  by (auto simp: holders_def count_vals_pos dest!: map_of_SomeD)

text \<open>The hashes a session holds; an unknown session holds none.\<close>

definition held_by :: "KvCacheManager \<Rightarrow> str \<Rightarrow> str list" where
  "held_by m sid = (case map_of (sessions m) sid of
     Some s \<Rightarrow> unique_hashes (chunk_hashes (sess_map s)) | None \<Rightarrow> [])"

lemma distinct_held_by [simp]: "distinct (held_by m sid)"
  by (simp add: held_by_def split: option.split)

lemma count_vals_ge_member:
  "map_of xs k = Some v \<Longrightarrow> P v \<Longrightarrow> 1 \<le> count_vals P xs"
  using count_vals_pos [of P xs] by (auto dest!: map_of_SomeD simp: Suc_le_eq)

lemma last_holder:
  "(a' :: nat) + (if b then 1 else 0) = a \<Longrightarrow> b \<and> a = 1 \<longleftrightarrow> 0 < a \<and> a' = 0"
  by (cases b) auto

lemma holders_put_session:
  assumes "keys_distinct (sessions m)"
  shows "holders (m\<lparr>sessions := AList.update sid s (sessions m), refcounts := rc\<rparr>) h
           + (if h \<in> set (held_by m sid) then 1 else 0)
       = holders m h + (if h \<in> set (sess_map s) then 1 else 0)"
  using count_vals_ge_member [of "sessions m" sid _ "\<lambda>s. h \<in> set (sess_map s)"]
  by (auto simp: holders_def held_by_def chunk_hashes_def count_vals_update [OF assms]
      split: option.split)

lemma holders_drop_session:
  assumes "keys_distinct (sessions m)"
  shows "holders (m\<lparr>sessions := AList.delete sid (sessions m), refcounts := rc\<rparr>) h
           + (if h \<in> set (held_by m sid) then 1 else 0) = holders m h"
  using count_vals_ge_member [of "sessions m" sid _ "\<lambda>s. h \<in> set (sess_map s)"]
  by (auto simp: holders_def held_by_def chunk_hashes_def count_vals_delete [OF assms]
      split: option.split)

lemma held_by_counted:
  assumes "kv_inv m" "h \<in> set (held_by m sid)"
  shows "0 < rc_count (refcounts m) h"
  using assms holders_pos_session [of m sid]
  by (auto simp: kv_inv_def held_by_def chunk_hashes_def split: option.splits)


section \<open>The critical sections\<close>

text \<open>Giving a session a new map through the swap of the reference-count table.\<close>

lemma put_session_inv:
  assumes inv: "kv_inv m"
    and sw: "rct.swap (refcounts m) (held_by m sid) (unique_hashes (sess_map s)) = (rc, ev)"
  defines "m' \<equiv> m\<lparr>sessions := AList.update sid s (sessions m), refcounts := rc\<rparr>"
  shows "kv_inv m'" "released_exactly m ev m'"
proof -
  let ?old = "held_by m sid" and ?new = "unique_hashes (sess_map s)"
  have wf: "rc_wf (refcounts m)" and kd: "keys_distinct (sessions m)"
    and eq: "rc_count (refcounts m) = holders m"
    using inv by (simp_all add: kv_inv_def)
  have pos: "\<forall>h \<in> set ?old. 0 < rc_count (refcounts m) h"
    using held_by_counted [OF inv] by blast
  have cnt: "rc_count rc h + (if h \<in> set ?old then 1 else 0)
      = holders m h + (if h \<in> set (sess_map s) then 1 else 0)" for h
    using rct.swap_cnt [OF wf _ _ pos, of ?new h] sw eq by simp
  have hold: "holders m' h + (if h \<in> set ?old then 1 else 0)
      = holders m h + (if h \<in> set (sess_map s) then 1 else 0)" for h
    unfolding m'_def by (rule holders_put_session [OF kd])
  have "rc_count rc h = holders m' h" for h
    using cnt [of h] hold [of h] by linarith
  moreover have "rc_wf rc" using rct.swap_wf [OF wf, of ?old ?new] sw by simp
  ultimately show "kv_inv m'"
    using inv by (auto simp: kv_inv_def m'_def)
  have ev: "set ev = {h. h \<in> set ?old \<and> h \<notin> set (sess_map s) \<and> holders m h = 1}"
    using rct.swap_released(1) [OF wf, of ?old ?new] sw eq by simp
  have "h \<in> set ev \<longleftrightarrow> 0 < holders m h \<and> holders m' h = 0" for h
    using hold [of h] pos eq unfolding ev
    by (cases "h \<in> set ?old"; cases "h \<in> set (sess_map s)") auto
  moreover have "distinct ev" using rct.swap_released(2) [OF wf, of ?old ?new] sw by simp
  ultimately show "released_exactly m ev m'"
    by (simp add: released_exactly_def)
qed

text \<open>The state \<open>on_turn_end\<close> works on: created when missing, with its turn counted.\<close>

definition counted_state :: "KvCacheManager \<Rightarrow> str \<Rightarrow> SessionKvState" where
  "counted_state m sid =
     (case map_of (sessions m) sid of
        Some s \<Rightarrow> s\<lparr>turn_count := turn_count s + 1\<rparr>
      | None \<Rightarrow> \<lparr>sess_map = [], turn_count = 1\<rparr>)"

lemma set_held_by: "set (held_by m sid) = set (sess_map (counted_state m sid))"
  by (simp add: held_by_def counted_state_def chunk_hashes_def split: option.split)

lemma turn_end_section_Some:
  "turn_end_section sid (Some hs) m =
     (let (rc, ev) = rct.swap (refcounts m) (held_by m sid) (unique_hashes hs);
          s = (counted_state m sid)\<lparr>sess_map := hs\<rparr>
      in ((ev, turn_count s, hs),
          m\<lparr>sessions := AList.update sid s (sessions m), refcounts := rc\<rparr>))"
  by (cases "map_of (sessions m) sid")
     (simp_all add: turn_end_section_def Let_def held_by_def rct.swap_def map_replace_def
       chunk_hashes_def counted_state_def unique_hashes_def split_beta)

lemma turn_end_section_None:
  "turn_end_section sid None m =
     (let s = counted_state m sid
      in (([], turn_count s, sess_map s), m\<lparr>sessions := AList.update sid s (sessions m)\<rparr>))"
  by (cases "map_of (sessions m) sid")
     (simp_all add: turn_end_section_def Let_def chunk_hashes_def counted_state_def)

lemma turn_end_section_inv:
  assumes "kv_inv m" "turn_end_section sid nh m = ((ev, tc, hs'), m')"
  shows "kv_inv m'" "released_exactly m ev m'"
proof -
  have "kv_inv m' \<and> released_exactly m ev m'"
  proof (cases nh)
    case (Some hs)
    let ?s = "(counted_state m sid)\<lparr>sess_map := hs\<rparr>"
    obtain rc where sw: "rct.swap (refcounts m) (held_by m sid) (unique_hashes (sess_map ?s)) = (rc, ev)"
      and m': "m' = m\<lparr>sessions := AList.update sid ?s (sessions m), refcounts := rc\<rparr>"
      using assms(2) Some by (auto simp: turn_end_section_Some Let_def split: prod.splits)
    show ?thesis using put_session_inv [OF assms(1) sw] by (simp add: m')
  next
    case None
    define s where "s = counted_state m sid"
    have s: "ev = []" and m': "m' = m\<lparr>sessions := AList.update sid s (sessions m)\<rparr>"
      using assms(2) None by (auto simp: turn_end_section_None Let_def s_def)
    have kd: "keys_distinct (sessions m)" using assms(1) by (simp add: kv_inv_def)
    have "h \<in> set (held_by m sid) \<longleftrightarrow> h \<in> set (sess_map s)" for h
      by (simp add: set_held_by s_def)
    then have "holders (m\<lparr>sessions := AList.update sid s (sessions m), refcounts := refcounts m\<rparr>) h
        = holders m h" for h
      using holders_put_session [OF kd, where sid = sid and s = s and rc = "refcounts m" and h = h] by simp
    then have "holders m' = holders m" by (simp add: m' fun_eq_iff)
    with assms(1) s show ?thesis
      by (simp add: kv_inv_def m' released_exactly_refl)
  qed
  then show "kv_inv m'" "released_exactly m ev m'" by auto
qed

lemma restore_section_eq:
  assumes "restore_section sid hs m = (ev, m')"
  obtains s rc where "rct.swap (refcounts m) (held_by m sid) (unique_hashes hs) = (rc, ev)"
    "sess_map s = hs"
    "turn_count s = (case map_of (sessions m) sid of Some t \<Rightarrow> turn_count t | None \<Rightarrow> 0)"
    "m' = m\<lparr>sessions := AList.update sid s (sessions m), refcounts := rc\<rparr>"
proof -
  let ?t = "case map_of (sessions m) sid of Some t \<Rightarrow> turn_count t | None \<Rightarrow> 0"
  let ?s = "\<lparr>sess_map = hs, turn_count = ?t\<rparr>"
  obtain rc where sw: "rct.swap (refcounts m) (held_by m sid) (unique_hashes hs) = (rc, ev)"
    and m': "m' = m\<lparr>sessions := AList.update sid ?s (sessions m), refcounts := rc\<rparr>"
    using assms
    by (auto simp: restore_section_def Let_def held_by_def rct.swap_def map_replace_def
        old_unique_iter_def split: prod.splits)
  show ?thesis by (rule that [OF sw _ _ m']) simp_all
qed

lemma restore_section_inv:
  assumes "kv_inv m" "restore_section sid hs m = (ev, m')"
  shows "kv_inv m'" "released_exactly m ev m'"
  using assms put_session_inv [OF assms(1)] by (auto elim!: restore_section_eq)

lemma close_section_inv:
  assumes inv: "kv_inv m" and cl: "close_section sid m = (ev, m')"
  shows "kv_inv m'" "released_exactly m ev m'"
proof -
  have wf: "rc_wf (refcounts m)" and kd: "keys_distinct (sessions m)"
    and eq: "rc_count (refcounts m) = holders m"
    using inv by (simp_all add: kv_inv_def)
  have "kv_inv m' \<and> released_exactly m ev m'"
  proof (cases "map_of (sessions m) sid")
    case None
    with cl inv show ?thesis by (simp add: close_section_def released_exactly_refl)
  next
    case (Some s)
    obtain rc where dec: "decrement_refcounts (refcounts m) (held_by m sid) = (rc, ev)"
      and m': "m' = m\<lparr>sessions := AList.delete sid (sessions m), refcounts := rc\<rparr>"
      using cl Some by (auto simp: close_section_def held_by_def Let_def split: prod.splits)
    have hold: "holders m' h + (if h \<in> set (held_by m sid) then 1 else 0) = holders m h" for h
      unfolding m' by (rule holders_drop_session [OF kd])
    have cnt: "rc_count rc h = holders m h - (if h \<in> set (held_by m sid) then 1 else 0)" for h
      using rct.cnt_dec [OF wf, of "held_by m sid" h] dec eq by simp
    have "rc_count rc h = holders m' h" for h
      using hold [of h] cnt [of h] by linarith
    moreover have "rc_wf rc" using rct.wf_dec [OF wf, of "held_by m sid"] dec by simp
    ultimately have "kv_inv m'" using inv by (auto simp: kv_inv_def m')
    moreover have "h \<in> set ev \<longleftrightarrow> 0 < holders m h \<and> holders m' h = 0" for h
      using rct.released [OF wf distinct_held_by, of m sid] dec eq last_holder [OF hold [of h]]
      by simp
    moreover have "distinct ev" using rct.released_distinct [OF wf, of "held_by m sid"] dec by simp
    ultimately show ?thesis by (simp add: released_exactly_def)
  qed
  then show "kv_inv m'" "released_exactly m ev m'" by auto
qed

lemma snapshot_id_fresh: "kv_inv m \<Longrightarrow> map_of (fork_snapshots m) (next_fork_id m) = None"
proof (rule ccontr)
  assume "kv_inv m" "map_of (fork_snapshots m) (next_fork_id m) \<noteq> None"
  then obtain f where "(next_fork_id m, f) \<in> set (fork_snapshots m)"
    by (auto dest: map_of_SomeD)
  with \<open>kv_inv m\<close> show False by (auto simp: kv_inv_def)
qed

lemma fork_inv:
  assumes inv: "kv_inv m" and rd: "fork_read sid m = Some hs"
    and reg: "fork_register sid hs m = (i, m1)"
  shows "kv_inv (fork_count hs m1)"
    "holders (fork_count hs m1) h = holders m h + (if h \<in> set hs then 1 else 0)"
proof -
  have d: "distinct hs" using rd by (auto simp: fork_read_def)
  have kd: "keys_distinct (fork_snapshots m)" and eq: "rc_count (refcounts m) = holders m"
    using inv by (simp_all add: kv_inv_def)
  have c: "count_list hs h = (if h \<in> set hs then 1 else 0)" for h
    using d by (induction hs) auto
  have m1: "m1 = m\<lparr>next_fork_id := next_fork_id m + 1, fork_snapshots := AList.update i
      \<lparr>fs_session_id = sid, fs_hashes = hs\<rparr> (fork_snapshots m)\<rparr>" and i: "i = next_fork_id m"
    using reg by (auto simp: fork_register_def Let_def)
  show hold: "holders (fork_count hs m1) h = holders m h + (if h \<in> set hs then 1 else 0)" for h
    using snapshot_id_fresh [OF inv] i
    by (simp add: fork_count_def m1 holders_def count_vals_update [OF kd])
  have "rc_count (refcounts (fork_count hs m1)) = holders (fork_count hs m1)"
    by (simp add: fun_eq_iff hold) (simp add: fork_count_def m1 rct.cnt_inc eq c)
  moreover have "\<forall>(j, f) \<in> set (AList.update i \<lparr>fs_session_id = sid, fs_hashes = hs\<rparr> (fork_snapshots m)).
      j < next_fork_id m + 1 \<and> distinct (fs_hashes f)"
  proof -
    have "(j, f) \<in> set (AList.update i v xs) \<Longrightarrow> (j, f) = (i, v) \<or> (j, f) \<in> set xs" for j f v
      and xs :: "(nat \<times> ForkSnapshot) list"
      by (induction xs) (auto split: if_splits)
    then show ?thesis using inv i d by (fastforce simp: kv_inv_def)
  qed
  ultimately show "kv_inv (fork_count hs m1)"
    using inv by (simp add: kv_inv_def fork_count_def m1 rct.wf_inc)
qed

lemma pick_snapshot_Some:
  assumes "kv_inv m" "pick_snapshot sid fid m = Some i"
  obtains f where "map_of (fork_snapshots m) i = Some f" "fs_session_id f = sid"
proof -
  have kd: "keys_distinct (fork_snapshots m)" using assms(1) by (simp add: kv_inv_def)
  have "\<exists>f. map_of (fork_snapshots m) i = Some f \<and> fs_session_id f = sid"
  proof (cases fid)
    case (Some j)
    with assms(2) show ?thesis by (auto simp: pick_snapshot_def split: option.splits if_splits)
  next
    case None
    define ids where
      "ids = map fst (filter (\<lambda>(_, snap). fs_session_id snap = sid) (fork_snapshots m))"
    from None assms(2) have "ids \<noteq> []" and i: "i = fold max (tl ids) (hd ids)"
      by (auto simp: pick_snapshot_def ids_def split: list.splits)
    then have "i = Max (set ids)"
      by (metis Max.set_eq_fold list.exhaust_sel)
    with \<open>ids \<noteq> []\<close> have "i \<in> set ids" by simp
    then obtain f where "(i, f) \<in> set (fork_snapshots m)" "fs_session_id f = sid"
      by (auto simp: ids_def)
    with kd show ?thesis by (auto simp: map_of_eq_Some_iff)
  qed
  then show ?thesis using that by blast
qed

lemma fork_end_section_inv:
  assumes inv: "kv_inv m" and fe: "fork_end_section sid fid m = (ev, m')"
  shows "kv_inv m'" "released_exactly m ev m'"
proof -
  have wf: "rc_wf (refcounts m)" and kd: "keys_distinct (fork_snapshots m)"
    and eq: "rc_count (refcounts m) = holders m"
    using inv by (simp_all add: kv_inv_def)
  have "kv_inv m' \<and> released_exactly m ev m'"
  proof (cases "pick_snapshot sid fid m")
    case None
    with fe inv show ?thesis by (simp add: fork_end_section_def released_exactly_refl)
  next
    case (Some i)
    then obtain f where f: "map_of (fork_snapshots m) i = Some f"
      using pick_snapshot_Some [OF inv] by metis
    then have d: "distinct (fs_hashes f)"
      using inv by (auto simp: kv_inv_def dest!: map_of_SomeD)
    obtain rc where dec: "decrement_refcounts (refcounts m) (fs_hashes f) = (rc, ev)"
      and m': "m' = m\<lparr>fork_snapshots := AList.delete i (fork_snapshots m), refcounts := rc\<rparr>"
      using fe Some f by (auto simp: fork_end_section_def split: prod.splits)
    have hold: "holders m' h + (if h \<in> set (fs_hashes f) then 1 else 0) = holders m h" for h
      using f count_vals_ge_member [of "fork_snapshots m" i f "\<lambda>f. h \<in> set (fs_hashes f)"]
      by (auto simp: holders_def m' count_vals_delete [OF kd])
    have cnt: "rc_count rc h = holders m h - (if h \<in> set (fs_hashes f) then 1 else 0)" for h
      using rct.cnt_dec [OF wf d, of h] dec eq by simp
    have "rc_count rc h = holders m' h" for h
      using hold [of h] cnt [of h] by linarith
    moreover have "rc_wf rc" using rct.wf_dec [OF wf, of "fs_hashes f"] dec by simp
    moreover have "\<forall>(j, g) \<in> set (AList.delete i (fork_snapshots m)).
        j < next_fork_id m \<and> distinct (fs_hashes g)"
      using inv by (auto simp: kv_inv_def AList.delete_eq)
    ultimately have "kv_inv m'" using inv by (auto simp: kv_inv_def m')
    moreover have "h \<in> set ev \<longleftrightarrow> 0 < holders m h \<and> holders m' h = 0" for h
      using rct.released [OF wf d] dec eq last_holder [OF hold [of h]] by simp
    moreover have "distinct ev" using rct.released_distinct [OF wf d] dec by simp
    ultimately show ?thesis by (simp add: released_exactly_def)
  qed
  then show "kv_inv m'" "released_exactly m ev m'" by auto
qed

lemmas section_invs =
  turn_end_section_inv restore_section_inv close_section_inv fork_end_section_inv

end
