(* ===== verification/KvOps.thy ===== *)
theory KvOps
  imports KvInvariant
begin

text \<open>
  The operations of the coordinator run one after the other: a command type, its execution, the
  states reachable from a new manager, and the properties of whole operations and of runs.
\<close>

section \<open>Commands and runs\<close>

datatype kv_op =
    TurnStart str
  | TurnEnd str "str list option" "DebugContext option"
  | SnapshotRestore str "str list"
  | SessionClose str
  | SessionFork str
  | SessionForkEnd str "nat option"

fun exec_op :: "world \<Rightarrow> kv_op \<Rightarrow> KvCacheManager \<Rightarrow> KvCacheManager \<times> effect list" where
  "exec_op w (TurnStart sid) m = snd (on_turn_start w sid m)"
| "exec_op w (TurnEnd sid hs ctx) m = snd (on_turn_end w sid hs ctx m)"
| "exec_op w (SnapshotRestore sid hs) m = snd (on_snapshot_restore w sid hs m)"
| "exec_op w (SessionClose sid) m = snd (on_session_close w sid m)"
| "exec_op w (SessionFork sid) m = snd (on_session_fork sid m)"
| "exec_op w (SessionForkEnd sid fid) m = snd (on_session_fork_end w sid fid m)"

declare exec_op.simps [simp del]

fun run_ops :: "(world \<times> kv_op) list \<Rightarrow> KvCacheManager \<Rightarrow> KvCacheManager \<times> effect list" where
  "run_ops [] m = (m, [])"
| "run_ops ((w, c) # cs) m =
     (let (m', eff) = exec_op w c m; (m'', eff') = run_ops cs m' in (m'', eff @ eff'))"

inductive kv_reachable :: "KvCacheConfig \<Rightarrow> KvCacheManager \<Rightarrow> bool" for cfg where
  start: "kv_reachable cfg (new_manager cfg)"
| step: "kv_reachable cfg m \<Longrightarrow> exec_op w c m = (m', eff) \<Longrightarrow> kv_reachable cfg m'"

text \<open>The hashes evicted from the backend by a list of effects.\<close>

fun evicted :: "effect list \<Rightarrow> str list" where
  "evicted [] = []"
| "evicted (Evict hs # eff) = hs @ evicted eff"
| "evicted (_ # eff) = evicted eff"

lemma evicted_append [simp]: "evicted (a @ b) = evicted a @ evicted b"
  by (induction a rule: evicted.induct) auto

lemma evicted_tail [simp]: "evicted (snd (evict_tail w ev out)) = ev"
  by (simp add: evict_tail_def Let_def)

lemma evicted_prefetch_tail [simp]: "evicted (snd (prefetch_tail w hs l sid out)) = []"
  by (simp add: prefetch_tail_def Let_def)

lemma evicted_write_debug [simp]: "evicted (snd (write_debug_file w cfg sid t hs ctx)) = []"
  by (simp add: write_debug_file_def Let_def split: option.split)

text \<open>What an operation does to the state and which hashes it evicts, as its section says.\<close>

lemma exec_turn_start: "exec_op w (TurnStart sid) m = (m', eff) \<Longrightarrow> m' = m \<and> evicted eff = []"
proof -
  have "fst (snd (on_turn_start w sid m)) = m \<and> evicted (snd (snd (on_turn_start w sid m))) = []"
    by (simp add: on_turn_start_def Let_def split_beta)
  then show "exec_op w (TurnStart sid) m = (m', eff) \<Longrightarrow> m' = m \<and> evicted eff = []"
    by (auto simp: exec_op.simps)
qed

lemma exec_turn_end:
  assumes "exec_op w (TurnEnd sid hs ctx) m = (m', eff)"
  obtains ev tc hs' where "turn_end_section sid hs m = ((ev, tc, hs'), m')" "evicted eff = ev"
proof -
  obtain ev tc hs' m1 where s: "turn_end_section sid hs m = ((ev, tc, hs'), m1)"
    by (metis prod.collapse)
  obtain out eff1 where t: "evict_tail w ev default_outcome = (out, eff1)" by fastforce
  then have "evicted eff1 = ev" by (metis evicted_tail snd_conv)
  moreover have "evicted e = []" if "write_debug_file w cfg i t l c = (r, e)" for cfg i t l c r e
    using that evicted_write_debug by (metis snd_conv)
  ultimately show ?thesis
    using assms s t that by (auto simp: exec_op.simps on_turn_end_def Let_def split: if_splits sum.splits prod.splits)
qed

lemma exec_restore:
  assumes "exec_op w (SnapshotRestore sid hs) m = (m', eff)"
  obtains ev where "restore_section sid hs m = (ev, m')" "evicted eff = ev"
proof -
  obtain ev m1 where s: "restore_section sid hs m = (ev, m1)" by fastforce
  obtain out eff1 where t: "evict_tail w ev default_outcome = (out, eff1)" by fastforce
  then have "evicted eff1 = ev" by (metis evicted_tail snd_conv)
  moreover have "evicted e = []" if "prefetch_tail w l i sid' out' = (r, e)" for l i sid' out' r e
    using that evicted_prefetch_tail by (metis snd_conv)
  ultimately show ?thesis
    using assms s t that
    by (auto simp: exec_op.simps on_snapshot_restore_def Let_def split: if_splits prod.splits)
qed

lemma exec_close:
  assumes "exec_op w (SessionClose sid) m = (m', eff)"
  obtains ev where "close_section sid m = (ev, m')" "evicted eff = ev"
proof -
  have "m' = snd (close_section sid m)" "evicted eff = fst (close_section sid m)"
    using assms by (auto simp: exec_op.simps on_session_close_def Let_def split_beta)
  then show ?thesis by (metis prod.collapse that)
qed

lemma exec_fork_end:
  assumes "exec_op w (SessionForkEnd sid fid) m = (m', eff)"
  obtains ev where "fork_end_section sid fid m = (ev, m')" "evicted eff = ev"
proof -
  have "m' = snd (fork_end_section sid fid m)" "evicted eff = fst (fork_end_section sid fid m)"
    using assms by (auto simp: exec_op.simps on_session_fork_end_def Let_def split_beta)
  then show ?thesis by (metis prod.collapse that)
qed

lemma exec_fork:
  assumes "kv_inv m" "exec_op w (SessionFork sid) m = (m', eff)"
  shows "kv_inv m'" "evicted eff = []" "holders m h \<le> holders m' h"
  using assms fork_inv [OF assms(1)]
  by (auto simp: exec_op.simps on_session_fork_def split: option.splits prod.splits)

lemmas exec_elims = exec_turn_end exec_restore exec_close exec_fork_end

lemma exec_op_spec:
  assumes "kv_inv m" "exec_op w c m = (m', eff)"
  shows "kv_inv m' \<and> released_exactly m (evicted eff) m'"
proof (cases c)
  case (TurnStart sid)
  then show ?thesis
    using assms exec_turn_start [of w sid m m' eff] by (simp add: released_exactly_refl)
next
  case (TurnEnd sid hs ctx)
  then show ?thesis
    using assms turn_end_section_inv [OF assms(1)] by (auto elim!: exec_turn_end)
next
  case (SnapshotRestore sid hs)
  then show ?thesis
    using assms restore_section_inv [OF assms(1)] by (auto elim!: exec_restore)
next
  case (SessionClose sid)
  then show ?thesis
    using assms close_section_inv [OF assms(1)] by (auto elim!: exec_close)
next
  case (SessionFork sid)
  note e = exec_fork [OF assms(1), of w sid m' eff]
  have "exec_op w (SessionFork sid) m = (m', eff)" using assms(2) SessionFork by simp
  from e [OF this] show ?thesis
    by (auto simp: released_exactly_def) (metis le_zero_eq)
next
  case (SessionForkEnd sid fid)
  then show ?thesis
    using assms fork_end_section_inv [OF assms(1)] by (auto elim!: exec_fork_end)
qed

lemma kv_reachable_inv: "kv_reachable cfg m \<Longrightarrow> kv_inv m"
  by (induction rule: kv_reachable.induct) (auto dest: exec_op_spec)

lemma kv_reachable_run:
  "kv_reachable cfg m \<Longrightarrow> kv_reachable cfg (fst (run_ops cs m))"
proof (induction cs arbitrary: m)
  case (Cons c cs)
  obtain w d where c: "c = (w, d)" by (cases c)
  obtain m' eff where e: "exec_op w d m = (m', eff)" by fastforce
  then have "kv_reachable cfg m'" using Cons.prems kv_reachable.step by blast
  then show ?case using Cons.IH c e by (simp add: split_beta)
qed simp

text \<open>The counts a restart rebuilds from the sessions alone.\<close>

lemma count_session_hashes_eq:
  "count_session_hashes seen hs rc = increment_refcounts rc (unique_from seen hs)"
  by (induction seen hs rc rule: count_session_hashes.induct) (simp_all add: increment_refcounts_def)

lemma rebuild_fold:
  "rc_wf rc \<Longrightarrow>
   (let rc' = fold (\<lambda>(_, s) rc. count_session_hashes {} (chunk_hashes (sess_map s)) rc) xs rc
    in rc_wf rc' \<and> rc_count rc' h = rc_count rc h + count_vals (\<lambda>s. h \<in> set (sess_map s)) xs)"
proof (induction xs arbitrary: rc)
  case (Cons ks xs)
  obtain k s where ks: "ks = (k, s)" by (cases ks)
  have c: "count_list (unique_from {} (sess_map s)) h = (if h \<in> set (sess_map s) then 1 else 0)"
    using rct.count_list_filter_distinct [of "unique_from {} (sess_map s)" "\<lambda>_. True" h] by simp
  have "rc_wf (increment_refcounts rc (unique_from {} (sess_map s)))"
    using Cons.prems by (rule rct.wf_inc)
  from Cons.IH [OF this] show ?case
    by (simp add: ks count_session_hashes_eq chunk_hashes_def Let_def rct.cnt_inc c)
qed simp

lemma rebuild_kv_inv:
  "keys_distinct (sessions m) \<Longrightarrow> fork_snapshots m = [] \<Longrightarrow> kv_inv (rebuild_refcounts m)"
  using rebuild_fold [OF rc_wf_Nil, of "sessions m"]
  by (auto simp: kv_inv_def rebuild_refcounts_def holders_def Let_def fun_eq_iff rc_count_def)

text \<open>An accepting world, for concrete runs.\<close>

definition ok_world :: world where
  "ok_world = \<lparr>w_prefetch = (\<lambda>_ _ _. \<lparr>status = 200, responded = True\<rparr>),
     w_evict = (\<lambda>_. \<lparr>status = 204, responded = True\<rparr>), w_dir_exists = (\<lambda>_. True),
     w_create_dir = (\<lambda>_. None), w_write_file = (\<lambda>_ _. None)\<rparr>"

text \<open>Two sessions share hash \<open>A\<close>; the first is forked; the second then drops it.\<close>

definition sample_run :: "(world \<times> kv_op) list" where
  "sample_run = [(ok_world, TurnEnd (lit ''s1'') (Some [lit ''A'', lit ''B'']) None),
     (ok_world, TurnEnd (lit ''s2'') (Some [lit ''A'', lit ''A'']) None),
     (ok_world, SessionFork (lit ''s1'')),
     (ok_world, TurnEnd (lit ''s2'') (Some []) None)]"

definition sample_state :: KvCacheManager where
  "sample_state = fst (run_ops sample_run (new_manager default_KvCacheConfig))"

lemma sample_reachable: "kv_reachable default_KvCacheConfig sample_state"
  unfolding sample_state_def by (intro kv_reachable_run kv_reachable.start)

lemmas run_eval = run_ops.simps exec_op.simps on_turn_end_def on_turn_start_def
  on_snapshot_restore_def on_session_close_def on_session_fork_def on_session_fork_end_def
  turn_end_section_def restore_section_def close_section_def fork_read_def fork_register_def
  fork_count_def fork_end_section_def pick_snapshot_def chunk_hashes_def map_replace_def
  old_unique_iter_def unique_hashes_def increment_refcounts_def increment_refcount_def
  evict_tail_def prefetch_tail_def backend_ok_def write_debug_file_def ok_world_def
  default_outcome_def new_manager_def default_KvCacheConfig_def Let_def

lemma sample_state_eval:
  "sample_state = \<lparr>config = default_KvCacheConfig,
     sessions = [(lit ''s1'', \<lparr>sess_map = [lit ''A'', lit ''B''], turn_count = 1\<rparr>),
                 (lit ''s2'', \<lparr>sess_map = [], turn_count = 2\<rparr>)],
     refcounts = [(lit ''A'', 2), (lit ''B'', 2)],
     fork_snapshots = [(1, \<lparr>fs_session_id = lit ''s1'', fs_hashes = [lit ''A'', lit ''B'']\<rparr>)],
     next_fork_id = 2\<rparr>"
  by (simp add: sample_state_def sample_run_def run_eval)

end
