(* ===== verification/KvProps.thy ===== *)
theory KvProps
  imports KvOps
begin

text \<open>
  The properties of the KV-cache coordinator run one operation at a time: the accounting
  invariant of every reachable state, evictions exactly at the loss of the last holder, the
  protection a fork gives, the no-op turn, idempotence of restore, and the file name the debug
  writer derives from an untrusted session id.
\<close>

text \<open>C1: In every state the coordinator can reach by any sequence of operations, from a new
  manager and whatever the backend and the file system answer, the count of a chunk hash is the
  number of sessions whose map contains it plus the number of open fork snapshots that captured
  it; no entry is zero, and every open fork id is below the next one.\<close>

theorem refcount_accounting:
  assumes "kv_reachable cfg m"
  shows "rc_count (refcounts m) h
           = length (filter (\<lambda>(_, s). h \<in> set (sess_map s)) (sessions m))
           + length (filter (\<lambda>(_, f). h \<in> set (fs_hashes f)) (fork_snapshots m))
         \<and> map_of (refcounts m) h \<noteq> Some 0
         \<and> list_all (\<lambda>(i, f). i < next_fork_id m) (fork_snapshots m)"
proof -
  have inv: "kv_inv m" using assms by (rule kv_reachable_inv)
  have f: "length (filter (\<lambda>(_, v). P v) xs) = count_vals P xs" for P and xs :: "('k \<times> 'v) list"
    by (simp add: count_vals_def comp_def case_prod_unfold)
  have "map_of (refcounts m) h \<noteq> Some 0"
    using inv rc_wf_pos [of "refcounts m" h 0] by (auto simp: kv_inv_def)
  then show ?thesis
    unfolding f using inv by (auto simp: kv_inv_def holders_def list_all_iff)
qed

theorem refcount_accounting_witness:
  "kv_reachable default_KvCacheConfig sample_state
   \<and> rc_count (refcounts sample_state) (lit ''A'') = 2"
  using refcount_accounting [OF sample_reachable, of "lit ''A''"] sample_reachable
  by (simp add: sample_state_eval)


text \<open>C2: Eviction is safe and complete. In a reachable state, whatever operation runs and
  whatever the backend answers, the hashes sent to \<open>evict\<close> are duplicate-free and are exactly
  those that had a holder (a session or an open fork) before the operation and have none after
  it: nothing still referenced is evicted and nothing that lost its last reference is leaked.\<close>

theorem eviction_exact:
  assumes "kv_reachable cfg m" and "exec_op w c m = (m', eff)"
  shows "distinct (evicted eff)
    \<and> (h \<in> set (evicted eff) \<longleftrightarrow> 0 < holders m h \<and> holders m' h = 0)"
  using exec_op_spec [OF kv_reachable_inv [OF assms(1)] assms(2)]
  by (auto simp: released_exactly_def)

theorem eviction_exact_witness:
  "\<exists>m' eff. exec_op ok_world (SessionForkEnd (lit ''s1'') None)
       (fst (exec_op ok_world (SessionClose (lit ''s1'')) sample_state)) = (m', eff)
     \<and> distinct (evicted eff) \<and> lit ''A'' \<in> set (evicted eff)"
proof -
  let ?m = "fst (exec_op ok_world (SessionClose (lit ''s1'')) sample_state)"
  have r: "kv_reachable default_KvCacheConfig ?m"
    by (rule kv_reachable.step [OF sample_reachable, of ok_world "SessionClose (lit ''s1'')" _
          "snd (exec_op ok_world (SessionClose (lit ''s1'')) sample_state)"]) simp
  obtain m' eff where e: "exec_op ok_world (SessionForkEnd (lit ''s1'') None) ?m = (m', eff)"
    by fastforce
  have "m' = fst (exec_op ok_world (SessionForkEnd (lit ''s1'') None) ?m)" using e by simp
  then have "0 < holders ?m (lit ''A'') \<and> holders m' (lit ''A'') = 0"
    by (simp add: sample_state_eval run_eval holders_def)
  then show ?thesis
    using e eviction_exact [OF r e] by blast
qed


text \<open>Every count is at most the number of sessions plus the number of open forks, so the
  code's \<open>u64\<close> counters cannot overflow while those fit in memory.\<close>

lemma refcount_bounded:
  assumes "kv_reachable cfg m" and "map_of (refcounts m) h = Some c"
  shows "1 \<le> c \<and> c \<le> length (sessions m) + length (fork_snapshots m)"
proof -
  have inv: "kv_inv m" using assms(1) by (rule kv_reachable_inv)
  then have "c = holders m h" using assms(2) by (auto simp: kv_inv_def rc_count_def fun_eq_iff)
      (metis option.simps(5))
  moreover have "0 < c" using inv assms(2) rc_wf_pos by (auto simp: kv_inv_def)
  ultimately show ?thesis
    using count_vals_le [of _ "sessions m"] count_vals_le [of _ "fork_snapshots m"]
    by (auto simp: holders_def add_mono)
qed

lemma refcount_bounded_witness:
  "map_of (refcounts sample_state) (lit ''B'') = Some 2 \<and> (2::nat) \<le> 3"
  using refcount_bounded [OF sample_reachable, of "lit ''B''" 2] by (simp add: sample_state_eval)

fun spares_fork :: "str \<Rightarrow> nat \<Rightarrow> kv_op \<Rightarrow> bool" where
  "spares_fork sid i (SessionForkEnd s f) =
     (s \<noteq> sid \<or> (case f of Some j \<Rightarrow> j \<noteq> i | None \<Rightarrow> False))"
| "spares_fork sid i _ = True"

lemma section_keeps_snapshots:
  "fork_snapshots (snd (turn_end_section sid hs m)) = fork_snapshots m"
  "fork_snapshots (snd (restore_section sid hs' m)) = fork_snapshots m"
  "fork_snapshots (snd (close_section sid m)) = fork_snapshots m"
  by (simp_all add: turn_end_section_def restore_section_def close_section_def Let_def split_beta
      split: option.split)

lemma exec_keeps_snapshot:
  assumes inv: "kv_inv m" and ex: "exec_op w c m = (m', eff)" and sp: "spares_fork sid i c"
    and f: "map_of (fork_snapshots m) i = Some f" "fs_session_id f = sid"
  shows "map_of (fork_snapshots m') i = Some f"
proof (cases c)
  case (TurnStart s)
  then show ?thesis using ex f exec_turn_start by blast
next
  case (TurnEnd s hs ctx)
  with ex show ?thesis
    using f section_keeps_snapshots(1) [of s hs m] by (auto elim!: exec_turn_end)
next
  case (SnapshotRestore s hs)
  with ex show ?thesis
    using f section_keeps_snapshots(2) [of s hs m] by (auto elim!: exec_restore)
next
  case (SessionClose s)
  with ex show ?thesis
    using f section_keeps_snapshots(3) [of s m] by (auto elim!: exec_close)
next
  case (SessionFork s)
  with ex f show ?thesis
    using snapshot_id_fresh [OF inv]
    by (auto simp: exec_op.simps on_session_fork_def fork_register_def fork_count_def Let_def
        split: option.splits)
next
  case (SessionForkEnd s fid)
  with ex obtain ev where fe: "fork_end_section s fid m = (ev, m')" by (auto elim: exec_fork_end)
  show ?thesis
  proof (cases "pick_snapshot s fid m")
    case None
    with fe f show ?thesis by (simp add: fork_end_section_def)
  next
    case (Some j)
    then obtain g where g: "map_of (fork_snapshots m) j = Some g" "fs_session_id g = s"
      by (rule pick_snapshot_Some [OF inv])
    have "j \<noteq> i"
    proof
      assume "j = i"
      with g f have "s = sid" by simp
      with sp SessionForkEnd obtain k where "fid = Some k" "k \<noteq> i" by (cases fid) auto
      with Some \<open>j = i\<close> show False by (auto simp: pick_snapshot_def split: option.splits if_splits)
    qed
    with fe Some g f show ?thesis by (auto simp: fork_end_section_def split: prod.splits)
  qed
qed

lemma run_keeps_snapshot:
  assumes "kv_inv m" "list_all (\<lambda>(_, c). spares_fork sid i c) cs" "run_ops cs m = (m', eff)"
    "map_of (fork_snapshots m) i = Some f" "fs_session_id f = sid" "h \<in> set (fs_hashes f)"
  shows "h \<notin> set (evicted eff)"
  using assms
proof (induction cs arbitrary: m eff)
  case (Cons wc cs)
  obtain w c where wc: "wc = (w, c)" by (cases wc)
  obtain m1 eff1 eff2 where e1: "exec_op w c m = (m1, eff1)" and e2: "run_ops cs m1 = (m', eff2)"
    and eff: "eff = eff1 @ eff2"
    using Cons.prems(3) wc by (auto split: prod.splits)
  have k: "map_of (fork_snapshots m1) i = Some f"
    using exec_keeps_snapshot [OF Cons.prems(1) e1 _ Cons.prems(4,5)] Cons.prems(2) wc by simp
  have spec: "kv_inv m1 \<and> released_exactly m (evicted eff1) m1"
    using exec_op_spec [OF Cons.prems(1) e1] .
  have "0 < holders m1 h" using holders_pos_snapshot [OF k Cons.prems(6)] .
  then have "h \<notin> set (evicted eff1)" using spec by (auto simp: released_exactly_def)
  moreover have "h \<notin> set (evicted eff2)"
    using Cons.IH [OF _ _ e2 k] Cons.prems spec wc by simp
  ultimately show ?case by (simp add: eff)
qed simp

text \<open>C4: A fork protects what it captured. After a successful \<open>session_fork\<close>, no sequence of
  operations that ends neither this fork nor, without naming one, a fork of its session evicts any of the
  captured hashes: turns, restores and closes of the parent or of any session, and other forks, may all
  happen. (An end without a fork id takes the latest fork of the session, which may be this one.)\<close>

theorem fork_protects:
  assumes "kv_reachable cfg m" and "on_session_fork sid m = (Inr i, m1, eff1)"
    and "fork_read sid m = Some hashes"
    and "list_all (\<lambda>(_, c). spares_fork sid i c) cs" and "run_ops cs m1 = (m2, eff)"
  shows "set hashes \<inter> set (evicted eff) = {}"
proof -
  have inv: "kv_inv m" using assms(1) by (rule kv_reachable_inv)
  obtain m0 where reg: "fork_register sid hashes m = (i, m0)" and m1: "m1 = fork_count hashes m0"
    using assms(2,3) by (auto simp: on_session_fork_def split: prod.splits)
  have i1: "kv_inv m1" unfolding m1 by (rule fork_inv(1) [OF inv assms(3) reg])
  have "map_of (fork_snapshots m1) i = Some \<lparr>fs_session_id = sid, fs_hashes = hashes\<rparr>"
    using reg by (auto simp: m1 fork_register_def fork_count_def Let_def)
  from run_keeps_snapshot [OF i1 assms(4,5) this] show ?thesis by auto
qed

definition fork_sample_ops :: "(world \<times> kv_op) list" where
  "fork_sample_ops = [(ok_world, TurnEnd (lit ''s1'') (Some [lit ''C'']) None),
     (ok_world, SessionFork (lit ''s2'')), (ok_world, SessionForkEnd (lit ''s1'') (Some 1)),
     (ok_world, SessionClose (lit ''s1''))]"

theorem fork_protects_witness:
  "fork_read (lit ''s1'') sample_state = Some [lit ''A'', lit ''B'']
   \<and> fst (on_session_fork (lit ''s1'') sample_state) = Inr 2
   \<and> list_all (\<lambda>(_, c). spares_fork (lit ''s1'') 2 c) fork_sample_ops
   \<and> {lit ''A'', lit ''B''} \<inter> set (evicted (snd (run_ops fork_sample_ops
        (fst (snd (on_session_fork (lit ''s1'') sample_state)))))) = {}"
proof -
  let ?m1 = "fst (snd (on_session_fork (lit ''s1'') sample_state))"
  have rd: "fork_read (lit ''s1'') sample_state = Some [lit ''A'', lit ''B'']"
    and fk: "on_session_fork (lit ''s1'') sample_state = (Inr 2, ?m1, [])"
    by (simp_all add: sample_state_eval run_eval)
  have sp: "list_all (\<lambda>(_, c). spares_fork (lit ''s1'') 2 c) fork_sample_ops"
    by (simp add: fork_sample_ops_def)
  have run: "run_ops fork_sample_ops ?m1
      = (fst (run_ops fork_sample_ops ?m1), snd (run_ops fork_sample_ops ?m1))" by simp
  have "set [lit ''A'', lit ''B''] \<inter> set (evicted (snd (run_ops fork_sample_ops ?m1))) = {}"
    using fork_protects [OF sample_reachable fk rd sp run] .
  then show ?thesis using rd fk sp by (metis empty_set fst_conv list.simps(15))
qed

lemma fork_end_once:
  assumes inv: "kv_inv m" and fk: "on_session_fork sid m = (Inr i, m1, eff1)"
    and fe: "fork_end_section sid (Some i) m1 = (ev, m2)"
  shows "ev = []" "sessions m2 = sessions m"
    "map_of (fork_snapshots m2) = map_of (fork_snapshots m)" "holders m2 = holders m"
    "fork_end_section sid (Some i) m2 = ([], m2)"
proof -
  obtain hs m0 where rd: "fork_read sid m = Some hs" and reg: "fork_register sid hs m = (i, m0)"
    and m1: "m1 = fork_count hs m0"
    using fk by (auto simp: on_session_fork_def split: option.splits prod.splits)
  have d: "distinct hs" using rd by (auto simp: fork_read_def)
  have eq: "rc_count (refcounts m) = holders m" and wf: "rc_wf (refcounts m)"
    using inv by (simp_all add: kv_inv_def)
  have fresh: "map_of (fork_snapshots m) i = None"
    using reg snapshot_id_fresh [OF inv] by (auto simp: fork_register_def Let_def)
  have inv1: "kv_inv m1" unfolding m1 by (rule fork_inv(1) [OF inv rd reg])
  have m1': "refcounts m1 = increment_refcounts (refcounts m) hs" "sessions m1 = sessions m"
    "fork_snapshots m1 = AList.update i \<lparr>fs_session_id = sid, fs_hashes = hs\<rparr> (fork_snapshots m)"
    using reg by (auto simp: m1 fork_register_def fork_count_def Let_def)
  have pick: "pick_snapshot sid (Some i) m1 = Some i" by (simp add: pick_snapshot_def m1')
  obtain rc where dec: "decrement_refcounts (refcounts m1) hs = (rc, ev)"
    and m2: "m2 = m1\<lparr>fork_snapshots := AList.delete i (fork_snapshots m1), refcounts := rc\<rparr>"
    using fe by (auto simp: fork_end_section_def pick m1' split: prod.splits)
  have rcm: "rc_count rc = rc_count (refcounts m)"
    using rct.acquire_release(1) [OF wf d] dec by (simp add: m1' fun_eq_iff)
  show sess: "sessions m2 = sessions m" by (simp add: m2 m1')
  show snap: "map_of (fork_snapshots m2) = map_of (fork_snapshots m)"
    using fresh by (auto simp: m2 m1' fun_eq_iff)
  show h2: "holders m2 = holders m"
    using fork_end_section_inv(1) [OF inv1 fe] rcm eq by (simp add: kv_inv_def m2)
  have hs0: "0 < holders m h" if "h \<in> set hs" for h
    using that rd by (auto simp: fork_read_def chunk_hashes_def intro: holders_pos_session)
  have "set ev = {}"
  proof -
    have "h \<in> set hs" "holders m h = 0" if "h \<in> set ev" for h
      using that rct.acquire_release(2) [OF wf d, of h] dec decrement_refcounts_sub [of "refcounts m1" hs] eq
      by (auto simp: m1')
    then show ?thesis using hs0 by (metis equals0I less_irrefl)
  qed
  then show "ev = []" by simp
  show "fork_end_section sid (Some i) m2 = ([], m2)"
    by (simp add: fork_end_section_def pick_snapshot_def snap fresh)
qed

text \<open>\<open>fork_end\<close> undoes \<open>fork\<close>. In a reachable state, ending a fork by the id
  \<open>session_fork\<close> returned evicts nothing and restores the sessions, the open forks and every
  count; ending it a second time changes nothing at all and reports no eviction.\<close>

theorem fork_end_undoes_fork:
  assumes "kv_reachable cfg m" and "on_session_fork sid m = (Inr i, m1, eff1)"
    and "on_session_fork_end w sid (Some i) m1 = (r, m2, eff2)"
  shows "r = Inr default_outcome \<and> eff2 = [] \<and> sessions m2 = sessions m
    \<and> map_of (fork_snapshots m2) = map_of (fork_snapshots m)
    \<and> rc_count (refcounts m2) = rc_count (refcounts m)
    \<and> on_session_fork_end w sid (Some i) m2 = (Inr default_outcome, m2, [])"
proof -
  have inv: "kv_inv m" using assms(1) by (rule kv_reachable_inv)
  obtain ev where fe: "fork_end_section sid (Some i) m1 = (ev, m2)"
    using assms(3) by (auto simp: on_session_fork_end_def Let_def split: prod.splits)
  note once = fork_end_once [OF inv assms(2) fe]
  have "exec_op w (SessionFork sid) m = (m1, eff1)"
    using assms(2) by (simp add: exec_op.simps)
  then have "kv_inv m1" using exec_op_spec [OF inv] by blast
  then have "kv_inv m2" using fork_end_section_inv(1) [OF _ fe] by blast
  then have "rc_count (refcounts m2) = rc_count (refcounts m)"
    using inv once(4) by (simp add: kv_inv_def)
  then show ?thesis
    using assms(3) once fe by (simp add: on_session_fork_end_def evict_tail_def)
qed

theorem fork_end_undoes_fork_witness:
  "\<exists>m1 m2. on_session_fork (lit ''s1'') sample_state = (Inr 2, m1, [])
     \<and> on_session_fork_end ok_world (lit ''s1'') (Some 2) m1 = (Inr default_outcome, m2, [])
     \<and> sessions m2 = sessions sample_state"
proof -
  obtain m1 where fk: "on_session_fork (lit ''s1'') sample_state = (Inr 2, m1, [])"
    by (simp add: sample_state_eval run_eval)
  obtain r m2 eff where fe: "on_session_fork_end ok_world (lit ''s1'') (Some 2) m1 = (r, m2, eff)"
    by (metis prod_cases3)
  show ?thesis using fork_end_undoes_fork [OF sample_reachable fk fe] fk fe by blast
qed


text \<open>A turn without \<open>kv_transfer_params\<close> leaves the session's map, every other session,
  the reference counts and the forks as they are, evicts nothing, and counts the turn; an explicit
  list replaces the map by exactly that list, in the client's order and with its duplicates.\<close>

theorem turn_end_effect:
  "(let m' = fst (snd (on_turn_end w sid None ctx m)); eff = snd (snd (on_turn_end w sid None ctx m))
    in session_map sid m' = Some (case session_map sid m of Some hs \<Rightarrow> hs | None \<Rightarrow> [])
      \<and> refcounts m' = refcounts m \<and> fork_snapshots m' = fork_snapshots m \<and> evicted eff = [])
   \<and> (let m' = fst (snd (on_turn_end w sid (Some hs) ctx m))
      in session_map sid m' = Some hs \<and> fork_snapshots m' = fork_snapshots m)
   \<and> (let m' = fst (snd (on_turn_end w sid nh ctx m))
      in session_turn_count sid m' = Some (case session_turn_count sid m of Some n \<Rightarrow> n + 1 | None \<Rightarrow> 1)
        \<and> (s \<noteq> sid \<longrightarrow> map_of (sessions m') s = map_of (sessions m) s))"
proof -
  have state: "fst (snd (on_turn_end w sid nh ctx m)) = snd (turn_end_section sid nh m)" for nh
    by (simp add: on_turn_end_def Let_def split_beta split: sum.split)
  have "evicted (snd (snd (on_turn_end w sid None ctx m))) = []"
    by (simp add: on_turn_end_def turn_end_section_None Let_def split_beta evict_tail_def
        write_debug_file_def split: sum.split option.split)
  moreover have "session_turn_count sid (snd (turn_end_section sid nh m))
      = Some (case session_turn_count sid m of Some n \<Rightarrow> n + 1 | None \<Rightarrow> 1)"
    by (cases nh) (simp_all add: turn_end_section_None turn_end_section_Some Let_def split_beta
        session_turn_count_def counted_state_def split: option.split)
  moreover have "s \<noteq> sid \<Longrightarrow> map_of (sessions (snd (turn_end_section sid nh m))) s = map_of (sessions m) s"
    by (cases nh) (simp_all add: turn_end_section_None turn_end_section_Some Let_def split_beta)
  ultimately show ?thesis
    by (simp add: state turn_end_section_None turn_end_section_Some Let_def split_beta
        session_map_def counted_state_def split: option.split)
qed

theorem turn_end_effect_witness:
  "session_map (lit ''s2'') (fst (snd (on_turn_end ok_world (lit ''s1'') (Some []) None sample_state)))
     = Some []
   \<and> map_of (sessions (fst (snd (on_turn_end ok_world (lit ''s1'') None None sample_state)))) (lit ''s2'')
     = map_of (sessions sample_state) (lit ''s2'')"
  using turn_end_effect [of ok_world "lit ''s1''" None sample_state "[]" None "lit ''s2''"]
    turn_end_effect [of ok_world "lit ''s1''" None sample_state "[]" "Some []" "lit ''s2''"]
  by (simp add: Let_def session_map_def sample_state_eval)

lemma AList_update_idem: "AList.update k v (AList.update k v xs) = AList.update k v xs"
  by (induction xs) auto

text \<open>Restoring a snapshot is idempotent: running \<open>snapshot_restore\<close> again with the same
  hashes leaves the manager's state exactly as the first run left it, evicts nothing, and only
  repeats the prefetch; the turn count of a known session survives both.\<close>

theorem snapshot_restore_idempotent:
  "let m1 = fst (snd (on_snapshot_restore w sid hs m));
       (r, m2, eff) = on_snapshot_restore w' sid hs m1
   in m2 = m1 \<and> evicted eff = []
    \<and> session_turn_count sid m1 = Some (case session_turn_count sid m of Some n \<Rightarrow> n | None \<Rightarrow> 0)"
proof -
  have state: "fst (snd (on_snapshot_restore w sid hs m)) = snd (restore_section sid hs m)" for w m
    by (simp add: on_snapshot_restore_def Let_def split_beta)
  have ev: "evicted (snd (snd (on_snapshot_restore w sid hs m))) = fst (restore_section sid hs m)" for w m
    by (simp add: on_snapshot_restore_def Let_def split_beta)
  have again: "restore_section sid hs (snd (restore_section sid hs m))
      = ([], snd (restore_section sid hs m))"
    by (simp add: restore_section_def old_unique_iter_def chunk_hashes_def map_replace_def
        increment_refcounts_def Let_def split_beta AList_update_idem)
  show ?thesis
    using again ev [of w' "snd (restore_section sid hs m)"] state [of w' "snd (restore_section sid hs m)"]
    by (auto simp: Let_def split_beta state session_turn_count_def)
       (simp add: restore_section_def Let_def split_beta split: option.split)
qed


text \<open>Rebuilding the reference counts after a restart, from the restored sessions alone,
  re-establishes the accounting invariant: each session counts each of its distinct hashes
  once.\<close>

theorem rebuild_refcounts_accounting:
  assumes "keys_distinct (sessions m)" and "fork_snapshots m = []"
  shows "kv_inv (rebuild_refcounts m)
    \<and> rc_count (refcounts (rebuild_refcounts m)) h
        = length (filter (\<lambda>(_, s). h \<in> set (sess_map s)) (sessions m))"
  using rebuild_kv_inv [OF assms] assms(2)
  by (simp add: kv_inv_def rebuild_refcounts_def holders_def count_vals_def comp_def
      case_prod_unfold)

definition restarted :: KvCacheManager where
  "restarted = restore_session (lit ''b'') \<lparr>sess_map = [lit ''X''], turn_count = 3\<rparr>
     (restore_session (lit ''a'') \<lparr>sess_map = [lit ''X'', lit ''Y'', lit ''X''], turn_count = 7\<rparr>
       (new_manager default_KvCacheConfig))"

theorem rebuild_refcounts_accounting_witness:
  "kv_inv (rebuild_refcounts restarted)
   \<and> refcounts (rebuild_refcounts restarted) = [(lit ''X'', 2), (lit ''Y'', 1)]"
proof -
  have "kv_inv (rebuild_refcounts restarted)"
    using rebuild_refcounts_accounting [of restarted]
    by (simp add: restarted_def restore_session_def new_manager_def)
  then show ?thesis
    by (simp add: restarted_def restore_session_def new_manager_def rebuild_refcounts_def
        chunk_hashes_def increment_refcount_def)
qed


text \<open>The hash set of a session counts each hash once, in first-seen order: the loop over a
  \<open>HashSet\<close> equals the reference definition by \<open>remdups\<close>.\<close>

theorem unique_hashes_reference:
  "unique_hashes hs = rev (remdups (rev hs)) \<and> unique_hashes (unique_hashes hs) = unique_hashes hs"
  by (simp add: unique_hashes_def unique_from_remdups [symmetric] unique_from_id)

definition safe_char :: "nat \<Rightarrow> bool" where
  "safe_char c \<longleftrightarrow> is_ascii_alnum c \<or> c = 95 \<or> c = 45"

lemma sanitize_safe: "list_all safe_char (sanitize_session_id s)"
proof -
  have "list_all safe_char (lit ''unknown'')" by code_simp
  moreover have "safe_char (sanitize_char c)" for c
    by (simp add: safe_char_def sanitize_char_def)
  ultimately show ?thesis by (simp add: sanitize_session_id_def Let_def list_all_iff)
qed

lemma lit_safe: "list_all safe_char (lit ''kvcache_debug_'')" "list_all safe_char (lit ''_'')"
  by code_simp+

text \<open>An untrusted session id cannot leave the debug directory: every file a
  \<open>turn_end\<close> writes is the debug directory joined with one path component that starts with
  \<open>kvcache_debug_\<close> and contains only ASCII letters, digits, \<open>_\<close>, \<open>-\<close> and the
  one dot of the extension; no separator and no parent component can occur.\<close>

theorem debug_file_confined:
  assumes "WriteFile path content \<in> set (snd (snd (on_turn_end w sid hs ctx m)))"
  shows "\<exists>name. path = path_join (debug_dir (config m)) (lit ''kvcache_debug_'' @ name @ lit ''.json'')
     \<and> list_all safe_char (lit ''kvcache_debug_'' @ name)"
proof -
  have "WriteFile path content \<notin> set (snd (evict_tail w ev out))" for ev out
    by (simp add: evict_tail_def Let_def)
  then obtain t hs' c where
    "WriteFile path content \<in> set (snd (write_debug_file w (config m) sid t hs' c))"
    using assms by (auto simp: on_turn_end_def Let_def split_beta split: if_splits sum.splits)
  then have p: "path = path_join (debug_dir (config m)) (debug_file_name sid t)"
    by (auto simp: write_debug_file_def Let_def split: if_splits option.splits)
  have "list_all safe_char (dec_str (unat t))"
    using dec_str_digits by (auto simp: list_all_iff safe_char_def is_ascii_alnum_def)
  then have "list_all safe_char
      (lit ''kvcache_debug_'' @ (sanitize_session_id sid @ lit ''_'' @ dec_str (unat t)))"
    using sanitize_safe lit_safe by (simp add: list_all_append)
  moreover have "path = path_join (debug_dir (config m)) (lit ''kvcache_debug_''
      @ (sanitize_session_id sid @ lit ''_'' @ dec_str (unat t)) @ lit ''.json'')"
    using p by (simp add: debug_file_name_def)
  ultimately show ?thesis by blast
qed

definition debug_manager :: KvCacheManager where
  "debug_manager = new_manager (default_KvCacheConfig\<lparr>debug_enabled := True\<rparr>)"

theorem debug_file_confined_witness:
  "\<exists>path content. WriteFile path content
       \<in> set (snd (snd (on_turn_end ok_world (lit ''../../etc/passwd'') None None debug_manager)))
     \<and> (\<exists>name. path = path_join (lit ''kvcache_debug'') (lit ''kvcache_debug_'' @ name @ lit ''.json''))"
proof -
  have "\<exists>path content. WriteFile path content
       \<in> set (snd (snd (on_turn_end ok_world (lit ''../../etc/passwd'') None None debug_manager)))"
    by (simp add: debug_manager_def run_eval)
  then obtain path content where w: "WriteFile path content
       \<in> set (snd (snd (on_turn_end ok_world (lit ''../../etc/passwd'') None None debug_manager)))"
    by blast
  from debug_file_confined [OF w] w show ?thesis
    by (auto simp: debug_manager_def new_manager_def default_KvCacheConfig_def)
qed

end
