(* ===== verification/KvConcurrency.thy ===== *)
theory KvConcurrency
  imports KvOps
begin

text \<open>
  The coordinator under concurrency. A request is cut at its lock boundaries: the critical
  section of a turn, a restore, a close or a fork's end is one step, the call of the backend's
  \<open>evict\<close> that follows it outside the locks is another, and a fork is three steps (read the
  map, register the snapshot, count its hashes). The requests of all tasks interleave freely.
  Calls that change no state (prefetch, debug files) are left out.
\<close>

section \<open>Steps\<close>

datatype task =
    Forking str "str list"
  | Counting nat "str list"
  | Evicting "str list"

datatype cevent =
    Internal
  | Released "nat option" "str list"
  | EvictCall "str list"

type_synonym csystem = "KvCacheManager \<times> task list"

definition spawn_evict :: "str list \<Rightarrow> task list \<Rightarrow> task list" where
  "spawn_evict ev T = (if ev \<noteq> [] then Evicting ev # T else T)"

inductive cstep :: "csystem \<Rightarrow> cevent \<Rightarrow> csystem \<Rightarrow> bool" where
  turn_end: "turn_end_section sid hs m = ((ev, n, l), m') \<Longrightarrow>
    cstep (m, T) (Released None ev) (m', spawn_evict ev T)"
| restore: "restore_section sid hs' m = (ev, m') \<Longrightarrow>
    cstep (m, T) (Released None ev) (m', spawn_evict ev T)"
| close: "close_section sid m = (ev, m') \<Longrightarrow>
    cstep (m, T) (Released None ev) (m', spawn_evict ev T)"
| fork_end: "fork_end_section sid fid m = (ev, m') \<Longrightarrow>
    cstep (m, T) (Released (pick_snapshot sid fid m) ev) (m', spawn_evict ev T)"
| fork_read: "fork_read sid m = Some hs' \<Longrightarrow> cstep (m, T) Internal (m, Forking sid hs' # T)"
| fork_register: "Forking sid hs' \<in> set T \<Longrightarrow> fork_register sid hs' m = (i, m') \<Longrightarrow>
    cstep (m, T) Internal (m', Counting i hs' # remove1 (Forking sid hs') T)"
| fork_count: "Counting i hs' \<in> set T \<Longrightarrow>
    cstep (m, T) Internal (fork_count hs' m, remove1 (Counting i hs') T)"
| evict_call: "Evicting ev \<in> set T \<Longrightarrow>
    cstep (m, T) (EvictCall ev) (m, remove1 (Evicting ev) T)"

inductive_cases cstepE: "cstep c e c'"

text \<open>The forks whose hashes are not counted yet, and how many of them captured a hash.\<close>

fun uncounted :: "task list \<Rightarrow> nat list" where
  "uncounted [] = []"
| "uncounted (Counting i hs # T) = i # uncounted T"
| "uncounted (_ # T) = uncounted T"

fun pending :: "task list \<Rightarrow> str \<Rightarrow> nat" where
  "pending [] h = 0"
| "pending (Counting i hs # T) h = (if h \<in> set hs then 1 else 0) + pending T h"
| "pending (_ # T) h = pending T h"

text \<open>
  A run is disciplined if a fork is ended only after its hashes were counted, as happens when
  clients end forks by the id that \<open>session_fork\<close> answered.
\<close>

fun counted_end :: "cevent \<Rightarrow> task list \<Rightarrow> bool" where
  "counted_end (Released (Some i) ev) T = (i \<notin> set (uncounted T))"
| "counted_end _ T = True"

inductive creach :: "bool \<Rightarrow> KvCacheConfig \<Rightarrow> csystem \<Rightarrow> bool" for d cfg where
  init: "creach d cfg (new_manager cfg, [])"
| step: "creach d cfg c \<Longrightarrow> cstep c e c' \<Longrightarrow> d \<longrightarrow> counted_end e (snd c) \<Longrightarrow> creach d cfg c'"


section \<open>The settled view\<close>

text \<open>Without the uncounted snapshots the sequential invariant holds at every moment.\<close>

definition settled :: "KvCacheManager \<Rightarrow> task list \<Rightarrow> KvCacheManager" where
  "settled m T = m\<lparr>fork_snapshots :=
     filter (\<lambda>(i, f). i \<notin> set (uncounted T)) (fork_snapshots m)\<rparr>"

definition cinv :: "csystem \<Rightarrow> bool" where
  "cinv = (\<lambda>(m, T). kv_inv (settled m T) \<and> keys_distinct (fork_snapshots m)
     \<and> (\<forall>(i, f) \<in> set (fork_snapshots m). i < next_fork_id m \<and> distinct (fs_hashes f))
     \<and> distinct (uncounted T)
     \<and> (\<forall>i hs. Counting i hs \<in> set T \<longrightarrow>
          (\<exists>f. map_of (fork_snapshots m) i = Some f \<and> fs_hashes f = hs))
     \<and> (\<forall>sid hs. Forking sid hs \<in> set T \<longrightarrow> distinct hs))"

lemma uncounted_iff: "i \<in> set (uncounted T) \<longleftrightarrow> (\<exists>hs. Counting i hs \<in> set T)"
  by (induction T rule: uncounted.induct) auto

lemma tasks_spawn [simp]:
  "uncounted (spawn_evict ev T) = uncounted T" "pending (spawn_evict ev T) = pending T"
  "Counting i hs \<in> set (spawn_evict ev T) \<longleftrightarrow> Counting i hs \<in> set T"
  "Forking s hs \<in> set (spawn_evict ev T) \<longleftrightarrow> Forking s hs \<in> set T"
  by (auto simp: spawn_evict_def fun_eq_iff)

lemma uncounted_remove:
  "uncounted (remove1 (Forking s hs) T) = uncounted T"
  "uncounted (remove1 (Evicting ev) T) = uncounted T"
  "distinct (uncounted T) \<Longrightarrow> Counting i hs \<in> set T \<Longrightarrow>
     uncounted (remove1 (Counting i hs) T) = remove1 i (uncounted T)"
  by (induction T rule: uncounted.induct) (auto simp: uncounted_iff)

lemma pending_remove:
  "pending (remove1 (Forking s hs) T) h = pending T h"
  "pending (remove1 (Evicting ev) T) h = pending T h"
  by (induction T rule: uncounted.induct) auto

lemma count_vals_uncount:
  assumes "keys_distinct xs" "map_of xs i = Some f" "i \<in> U"
  shows "count_vals P (filter (\<lambda>(j, _). j \<notin> U - {i}) xs)
       = count_vals P (filter (\<lambda>(j, _). j \<notin> U) xs) + (if P f then 1 else 0)"
  using assms
proof (induction xs)
  case (Cons kv xs)
  obtain k v where kv: "kv = (k, v)" by (cases kv)
  show ?case
  proof (cases "k = i")
    case True
    have "j \<noteq> i" if "(j, g) \<in> set xs" for j g
      using that Cons.prems(1) kv True by force
    then have "filter (\<lambda>(j, _). j \<notin> U - {i}) xs = filter (\<lambda>(j, _). j \<notin> U) xs"
      by (auto intro!: filter_cong)
    with Cons.prems kv True show ?thesis by simp
  next
    case False
    with Cons kv show ?thesis by simp
  qed
qed simp

lemma holders_settled:
  assumes "cinv (m, T)"
  shows "holders m h = holders (settled m T) h + pending T h"
proof -
  let ?P = "\<lambda>f. h \<in> set (fs_hashes f)"
  have "count_vals ?P xs = count_vals ?P (filter (\<lambda>(j, _). j \<notin> set (uncounted T)) xs) + pending T h"
    if "keys_distinct xs" "distinct (uncounted T)"
      "\<forall>i hs. Counting i hs \<in> set T \<longrightarrow> (\<exists>f. map_of xs i = Some f \<and> fs_hashes f = hs)" for xs
    using that(2,3)
  proof (induction T rule: uncounted.induct)
    case (2 i hs T)
    then obtain f where f: "map_of xs i = Some f" "fs_hashes f = hs" by auto
    have "insert i (set (uncounted T)) - {i} = set (uncounted T)" using 2 by auto
    with count_vals_uncount [OF that(1) f(1), of "insert i (set (uncounted T))" ?P] 2 f
    show ?case by simp
  qed simp_all
  moreover have "keys_distinct (fork_snapshots m)" "distinct (uncounted T)"
    "\<forall>i hs. Counting i hs \<in> set T \<longrightarrow> (\<exists>f. map_of (fork_snapshots m) i = Some f \<and> fs_hashes f = hs)"
    using assms by (simp_all add: cinv_def del: map_of_eq_Some_iff)
  ultimately show ?thesis by (simp add: holders_def settled_def del: map_of_eq_Some_iff)
qed

text \<open>The critical sections of turns, restores and closes do not look at the forks.\<close>

lemma sections_forks:
  "turn_end_section sid hs (m\<lparr>fork_snapshots := F\<rparr>)
     = (fst (turn_end_section sid hs m), (snd (turn_end_section sid hs m))\<lparr>fork_snapshots := F\<rparr>)"
  "restore_section sid hs' (m\<lparr>fork_snapshots := F\<rparr>)
     = (fst (restore_section sid hs' m), (snd (restore_section sid hs' m))\<lparr>fork_snapshots := F\<rparr>)"
  "close_section sid (m\<lparr>fork_snapshots := F\<rparr>)
     = (fst (close_section sid m), (snd (close_section sid m))\<lparr>fork_snapshots := F\<rparr>)"
  by (cases hs; simp add: turn_end_section_def restore_section_def close_section_def Let_def split_beta
      split: option.split)+

lemma sections_keep_forks:
  "turn_end_section sid hs m = (r, m') \<Longrightarrow>
     fork_snapshots m' = fork_snapshots m \<and> next_fork_id m' = next_fork_id m"
  "restore_section sid hs' m = (ev, m') \<Longrightarrow>
     fork_snapshots m' = fork_snapshots m \<and> next_fork_id m' = next_fork_id m"
  "close_section sid m = (ev, m') \<Longrightarrow>
     fork_snapshots m' = fork_snapshots m \<and> next_fork_id m' = next_fork_id m"
  by (auto simp: turn_end_section_def restore_section_def close_section_def Let_def split_beta
      split: option.splits)

definition released_settled :: "csystem \<Rightarrow> str list \<Rightarrow> csystem \<Rightarrow> bool" where
  "released_settled c ev c' \<longleftrightarrow>
     released_exactly (settled (fst c) (snd c)) ev (settled (fst c') (snd c'))"

text \<open>A section that leaves the forks alone and keeps the sequential invariant.\<close>

lemma section_cinv:
  assumes "cinv (m, T)" "kv_inv (settled m' T)" "released_exactly (settled m T) ev (settled m' T)"
    "fork_snapshots m' = fork_snapshots m \<and> next_fork_id m' = next_fork_id m"
  shows "cinv (m', spawn_evict ev T) \<and> released_settled (m, T) ev (m', spawn_evict ev T)"
  using assms by (simp add: cinv_def released_settled_def settled_def del: map_of_eq_Some_iff)

lemma turn_end_cinv:
  assumes "cinv (m, T)" "turn_end_section sid hs m = ((ev, n, l), m')"
  shows "cinv (m', spawn_evict ev T) \<and> released_settled (m, T) ev (m', spawn_evict ev T)"
proof -
  have f: "fork_snapshots m' = fork_snapshots m \<and> next_fork_id m' = next_fork_id m"
    using assms(2) by (rule sections_keep_forks)
  have "turn_end_section sid hs (settled m T) = ((ev, n, l), settled m' T)"
    using assms(2) f by (simp add: settled_def sections_forks)
  from turn_end_section_inv [OF _ this] assms(1) f show ?thesis
    by (intro section_cinv) (auto simp: cinv_def)
qed

lemma restore_cinv:
  assumes "cinv (m, T)" "restore_section sid hs m = (ev, m')"
  shows "cinv (m', spawn_evict ev T) \<and> released_settled (m, T) ev (m', spawn_evict ev T)"
proof -
  have f: "fork_snapshots m' = fork_snapshots m \<and> next_fork_id m' = next_fork_id m"
    using assms(2) by (rule sections_keep_forks)
  have "restore_section sid hs (settled m T) = (ev, settled m' T)"
    using assms(2) f by (simp add: settled_def sections_forks)
  from restore_section_inv [OF _ this] assms(1) f show ?thesis
    by (intro section_cinv) (auto simp: cinv_def)
qed

lemma close_cinv:
  assumes "cinv (m, T)" "close_section sid m = (ev, m')"
  shows "cinv (m', spawn_evict ev T) \<and> released_settled (m, T) ev (m', spawn_evict ev T)"
proof -
  have f: "fork_snapshots m' = fork_snapshots m \<and> next_fork_id m' = next_fork_id m"
    using assms(2) by (rule sections_keep_forks)
  have "close_section sid (settled m T) = (ev, settled m' T)"
    using assms(2) f by (simp add: settled_def sections_forks)
  from close_section_inv [OF _ this] assms(1) f show ?thesis
    by (intro section_cinv) (auto simp: cinv_def)
qed

lemma filter_delete: "filter (\<lambda>(j, f). j \<notin> U) (AList.delete i xs) = AList.delete i (filter (\<lambda>(j, f). j \<notin> U) xs)"
  by (induction xs) auto

lemma map_of_filter_keys: "map_of (filter (\<lambda>(j, f). j \<notin> U) xs) i = (if i \<in> U then None else map_of xs i)"
  by (induction xs) auto

lemma fork_end_cinv:
  assumes inv: "cinv (m, T)" and fe: "fork_end_section sid fid m = (ev, m')"
    and ok: "counted_end (Released (pick_snapshot sid fid m) ev) T"
  shows "cinv (m', spawn_evict ev T) \<and> released_settled (m, T) ev (m', spawn_evict ev T)"
proof (cases "pick_snapshot sid fid m")
  case None
  with fe inv show ?thesis
    by (simp add: fork_end_section_def released_settled_def released_exactly_refl spawn_evict_def)
next
  case (Some i)
  then have i: "i \<notin> set (uncounted T)" using ok by simp
  show ?thesis
  proof (cases "map_of (fork_snapshots m) i")
    case None
    with fe Some inv show ?thesis
      by (simp add: fork_end_section_def released_settled_def released_exactly_refl spawn_evict_def)
  next
    case f: (Some f)
    obtain rc where dec: "decrement_refcounts (refcounts m) (fs_hashes f) = (rc, ev)"
      and m': "m' = m\<lparr>fork_snapshots := AList.delete i (fork_snapshots m), refcounts := rc\<rparr>"
      using fe Some f by (auto simp: fork_end_section_def split: prod.splits)
    have "fork_end_section (fs_session_id f) (Some i) (settled m T) = (ev, settled m' T)"
      using f i dec by (simp add: fork_end_section_def pick_snapshot_def settled_def m' filter_delete
          map_of_filter_keys)
    from fork_end_section_inv [OF _ this] inv
    have k: "kv_inv (settled m' T)" "released_exactly (settled m T) ev (settled m' T)"
      by (simp_all add: cinv_def)
    have "\<exists>g. map_of (fork_snapshots m') j = Some g \<and> fs_hashes g = hs" if "Counting j hs \<in> set T" for j hs
    proof -
      have "j \<noteq> i" using that i by (auto simp: uncounted_iff)
      with that inv show ?thesis by (simp add: m' cinv_def del: map_of_eq_Some_iff)
    qed
    moreover have "\<forall>(j, g) \<in> set (fork_snapshots m'). j < next_fork_id m' \<and> distinct (fs_hashes g)"
      using inv by (auto simp: m' cinv_def AList.delete_eq)
    ultimately show ?thesis
      using k inv by (simp add: cinv_def m' released_settled_def settled_def del: map_of_eq_Some_iff)
  qed
qed

lemma filter_update_dropped:
  "i \<in> U \<Longrightarrow> filter (\<lambda>(j, f). j \<notin> U) (AList.update i v xs) = filter (\<lambda>(j, f). j \<notin> U) xs"
  by (induction xs) auto

lemma set_update_subset: "set (AList.update i v xs) \<subseteq> insert (i, v) (set xs)"
  by (induction xs) auto

lemma fork_register_cinv:
  assumes inv: "cinv (m, T)" and t: "Forking sid hs \<in> set T" and reg: "fork_register sid hs m = (i, m')"
  shows "cinv (m', Counting i hs # remove1 (Forking sid hs) T)"
proof -
  let ?f = "\<lparr>fs_session_id = sid, fs_hashes = hs\<rparr>" and ?U = "set (uncounted T)"
  have i: "i = next_fork_id m" and m': "m' = m\<lparr>next_fork_id := i + 1,
      fork_snapshots := AList.update i ?f (fork_snapshots m)\<rparr>"
    using reg by (auto simp: fork_register_def Let_def)
  have d: "distinct hs" using inv t by (auto simp: cinv_def)
  have keys: "\<forall>(j, f) \<in> set (fork_snapshots m). j < i \<and> distinct (fs_hashes f)"
    using inv by (simp add: cinv_def i)
  then have fresh: "map_of (fork_snapshots m) i = None" by (force simp: map_of_eq_None_iff)
  have ct: "Counting j l \<in> set T \<Longrightarrow> \<exists>f. map_of (fork_snapshots m) j = Some f \<and> fs_hashes f = l" for j l
    using inv by (simp add: cinv_def del: map_of_eq_Some_iff)
  then have new: "i \<notin> ?U" using fresh by (fastforce simp: uncounted_iff)
  have "filter (\<lambda>(j, f). j \<notin> insert i ?U) (fork_snapshots m) = filter (\<lambda>(j, f). j \<notin> ?U) (fork_snapshots m)"
    using keys by (intro filter_cong) auto
  then have "settled m' (Counting i hs # remove1 (Forking sid hs) T) = (settled m T)\<lparr>next_fork_id := i + 1\<rparr>"
    by (simp add: settled_def m' uncounted_remove filter_update_dropped [OF insertI1] del: insert_iff)
  then have "kv_inv (settled m' (Counting i hs # remove1 (Forking sid hs) T))"
    using inv keys by (auto simp: cinv_def kv_inv_def settled_def holders_def fun_eq_iff)
  moreover have "\<forall>(j, f) \<in> set (fork_snapshots m'). j < next_fork_id m' \<and> distinct (fs_hashes f)"
    using keys d set_update_subset [of i ?f "fork_snapshots m"] by (fastforce simp: m')
  moreover have "\<forall>j l. Counting j l \<in> set (Counting i hs # remove1 (Forking sid hs) T) \<longrightarrow>
      (\<exists>f. map_of (fork_snapshots m') j = Some f \<and> fs_hashes f = l)"
    using ct fresh by (auto simp: m' dest!: set_remove1_subset [THEN subsetD] split: if_splits simp del: map_of_eq_Some_iff)
      (metis notin_set_remove1 option.distinct(1))+
  ultimately show ?thesis
    using inv new by (auto simp: cinv_def uncounted_remove m' dest!: set_remove1_subset [THEN subsetD]
        simp del: map_of_eq_Some_iff)
qed

lemma fork_count_cinv:
  assumes inv: "cinv (m, T)" and t: "Counting i hs \<in> set T"
  shows "cinv (fork_count hs m, remove1 (Counting i hs) T)"
proof -
  let ?T = "remove1 (Counting i hs) T" and ?U = "set (uncounted T)"
  have kd: "keys_distinct (fork_snapshots m)" and du: "distinct (uncounted T)"
    and all: "\<forall>(j, f) \<in> set (fork_snapshots m). j < next_fork_id m \<and> distinct (fs_hashes f)"
    and kv: "kv_inv (settled m T)"
    and ct: "\<forall>j l. Counting j l \<in> set T \<longrightarrow> (\<exists>f. map_of (fork_snapshots m) j = Some f \<and> fs_hashes f = l)"
    using inv by (simp_all add: cinv_def del: map_of_eq_Some_iff)
  obtain f where f: "map_of (fork_snapshots m) i = Some f" "fs_hashes f = hs" using ct t by blast
  then have d: "distinct hs" using all by (auto dest!: map_of_SomeD)
  have u: "uncounted ?T = remove1 i (uncounted T)" using du t by (rule uncounted_remove(3))
  then have U: "set (uncounted ?T) = ?U - {i}" using du by simp
  have i: "i \<in> ?U" using t by (auto simp: uncounted_iff)
  have c: "count_list hs h = (if h \<in> set hs then 1 else 0)" for h
    using rct.count_list_filter_distinct [OF d, of "\<lambda>_. True" h] by simp
  have "holders (settled (fork_count hs m) ?T) h
      = holders (settled m T) h + (if h \<in> set hs then 1 else 0)" for h
    using count_vals_uncount [OF kd f(1) i, of "\<lambda>f. h \<in> set (fs_hashes f)"] f(2)
    by (simp add: holders_def settled_def U fork_count_def)
  moreover have "rc_count (refcounts m) = holders (settled m T)" "rc_wf (refcounts m)"
    "keys_distinct (sessions m)"
    using kv by (simp_all add: kv_inv_def settled_def)
  moreover have "keys_distinct (filter (\<lambda>(j, f). j \<notin> ?U - {i}) (fork_snapshots m))"
    using kd by (rule distinct_map_filter)
  ultimately have "kv_inv (settled (fork_count hs m) ?T)"
    using all by (auto simp: kv_inv_def fun_eq_iff rct.cnt_inc c settled_def U fork_count_def rct.wf_inc)
  moreover have "\<forall>j l. Counting j l \<in> set ?T \<longrightarrow> (\<exists>f. map_of (fork_snapshots m) j = Some f \<and> fs_hashes f = l)"
    using ct notin_set_remove1 by fast
  ultimately show ?thesis
    using inv u by (auto simp: cinv_def fork_count_def dest!: set_remove1_subset [THEN subsetD] simp del: map_of_eq_Some_iff)
qed

lemma cstep_cinv:
  assumes "cinv c" "cstep c e c'" "counted_end e (snd c)"
  shows "cinv c' \<and> (\<forall>f ev. e = Released f ev \<longrightarrow> released_settled c ev c')"
  using assms(2)
proof cases
  case (turn_end sid hs m ev n l m' T)
  then show ?thesis using turn_end_cinv assms(1) by auto
next
  case (restore sid hs m ev m' T)
  then show ?thesis using restore_cinv assms(1) by auto
next
  case (close sid m ev m' T)
  then show ?thesis using close_cinv assms(1) by auto
next
  case (fork_end sid fid m ev m' T)
  then show ?thesis using fork_end_cinv [of m T sid fid ev m'] assms(1,3) by auto
next
  case (fork_read sid m hs T)
  then have "distinct hs" by (auto simp: fork_read_def)
  then show ?thesis
    using assms(1) fork_read by (auto simp: cinv_def settled_def simp del: map_of_eq_Some_iff)
next
  case (fork_register sid hs T m i m')
  then show ?thesis using fork_register_cinv assms(1) by auto
next
  case (fork_count i hs T m)
  then show ?thesis using fork_count_cinv assms(1) by auto
next
  case (evict_call ev T m)
  then show ?thesis
    using assms(1) by (auto simp: cinv_def settled_def uncounted_remove dest!: set_remove1_subset [THEN subsetD]
        simp del: map_of_eq_Some_iff)
qed

lemma creach_cinv: "creach True cfg c \<Longrightarrow> cinv c"
proof (induction rule: creach.induct)
  case init
  have "settled (new_manager cfg) [] = new_manager cfg" by (simp add: settled_def new_manager_def)
  then show ?case using kv_inv_new [of cfg] by (simp add: cinv_def) (simp add: new_manager_def)
qed (use cstep_cinv in blast)


section \<open>Properties\<close>

text \<open>C7: Accounting under concurrency. In every interleaving in which a fork is ended only after
  its hashes were counted, the count of a hash plus the forks that captured it and have not
  counted it yet is its number of holders, and a critical section hands to \<open>evict\<close> each hash
  once and only hashes that had a holder and keep none but such uncounted forks.\<close>

theorem concurrent_accounting:
  assumes "creach True cfg (m, T)" and "cstep (m, T) (Released f ev) (m', T')"
    and "counted_end (Released f ev) T"
  shows "rc_count (refcounts m) h + pending T h = holders m h \<and> distinct ev
    \<and> (h \<in> set ev \<longrightarrow> 0 < holders m h \<and> holders m' h = pending T' h)"
proof -
  have inv: "cinv (m, T)" using assms(1) by (rule creach_cinv)
  have step: "cinv (m', T')" "released_settled (m, T) ev (m', T')"
    using cstep_cinv [OF inv assms(2)] assms(3) by simp_all
  have "rc_count (refcounts m) h = holders (settled m T) h"
    using inv by (simp add: cinv_def kv_inv_def settled_def)
  then show ?thesis
    using holders_settled [OF inv, of h] holders_settled [OF step(1), of h] step(2)
    by (auto simp: released_settled_def released_exactly_def)
qed

text \<open>A run of sections of several tasks, for concrete instances.\<close>

abbreviation c_put :: "string \<Rightarrow> string list \<Rightarrow> csystem \<Rightarrow> csystem" where
  "c_put sid hs c \<equiv> (case turn_end_section (lit sid) (Some (map lit hs)) (fst c) of
     ((ev, _, _), m') \<Rightarrow> (m', spawn_evict ev (snd c)))"

lemma creach_put:
  assumes "creach d cfg c"
  shows "creach d cfg (c_put sid hs c)"
proof -
  obtain m T where c: "c = (m, T)" by (cases c)
  obtain ev n l m' where s: "turn_end_section (lit sid) (Some (map lit hs)) m = ((ev, n, l), m')"
    by (metis prod.collapse)
  show ?thesis
    using creach.step [OF assms [unfolded c] cstep.turn_end [OF s]] by (simp add: c s)
qed

abbreviation c_start :: csystem where
  "c_start \<equiv> (new_manager default_KvCacheConfig, [])"

lemma creach_start: "creach d default_KvCacheConfig c_start"
  by (rule creach.init)

definition handover :: csystem where
  "handover = c_put ''s2'' [''A''] (c_put ''s1'' [] (c_put ''s1'' [''A''] c_start))"

lemmas section_eval = turn_end_section_def chunk_hashes_def map_replace_def unique_hashes_def
  increment_refcounts_def increment_refcount_def spawn_evict_def new_manager_def Let_def

lemma handover_eval:
  "handover = (\<lparr>config = default_KvCacheConfig,
     sessions = [(lit ''s1'', \<lparr>sess_map = [], turn_count = 2\<rparr>),
                 (lit ''s2'', \<lparr>sess_map = [lit ''A''], turn_count = 1\<rparr>)],
     refcounts = [(lit ''A'', 1)], fork_snapshots = [], next_fork_id = 1\<rparr>, [Evicting [lit ''A'']])"
  by (simp add: handover_def section_eval)

lemma handover_reachable: "creach d default_KvCacheConfig handover"
  unfolding handover_def by (intro creach_put creach_start)

theorem concurrent_accounting_witness:
  "\<exists>ev m'. close_section (lit ''s2'') (fst handover) = (ev, m') \<and> lit ''A'' \<in> set ev
     \<and> holders m' (lit ''A'') = 0"
proof -
  obtain ev m' where c: "close_section (lit ''s2'') (fst handover) = (ev, m')" by (cases "close_section (lit ''s2'') (fst handover)")
  have h: "handover = (fst handover, [Evicting [lit ''A'']])" by (simp add: handover_eval)
  have r: "creach True default_KvCacheConfig (fst handover, [Evicting [lit ''A'']])"
    using handover_reachable h by metis
  have "lit ''A'' \<in> set ev"
    using c by (auto simp: handover_eval close_section_def chunk_hashes_def unique_hashes_def Let_def)
  then show ?thesis
    using concurrent_accounting [OF r cstep.close [OF c], of "lit ''A''"] c by simp
qed

text \<open>C9: An eviction can reach the backend late. Even in disciplined interleavings there is a
  reachable state in which the pending backend call is to evict a chunk that a session holds and
  the reference counts count: the call is made after the locks are released, and another session
  took the chunk up in between.\<close>

theorem late_evict_of_held_chunk:
  "\<exists>cfg m T m' T' ev h sid. creach True cfg (m, T) \<and> cstep (m, T) (EvictCall ev) (m', T')
     \<and> h \<in> set ev \<and> session_map sid m = Some [h] \<and> rc_count (refcounts m) h = 1"
proof -
  have h: "handover = (fst handover, [Evicting [lit ''A'']])" by (simp add: handover_eval)
  then have "creach True default_KvCacheConfig (fst handover, [Evicting [lit ''A'']])"
    using handover_reachable by metis
  moreover have "cstep (fst handover, [Evicting [lit ''A'']]) (EvictCall [lit ''A''])
      (fst handover, remove1 (Evicting [lit ''A'']) [Evicting [lit ''A'']])"
    by (rule cstep.evict_call) simp
  moreover have "session_map (lit ''s2'') (fst handover) = Some [lit ''A'']"
    "rc_count (refcounts (fst handover)) (lit ''A'') = 1"
    by (simp_all add: handover_eval session_map_def rc_count_def)
  ultimately show ?thesis by (metis list.set_intros(1))
qed

text \<open>A fork that is registered but not counted while another request ends the latest fork.\<close>

definition forking :: csystem where
  "forking = (let c = c_put ''s1'' [''A''] c_start; (i, m) = fork_register (lit ''s1'') [lit ''A''] (fst c)
     in (m, [Counting i [lit ''A'']]))"

lemma forking_eval:
  "forking = (\<lparr>config = default_KvCacheConfig,
     sessions = [(lit ''s1'', \<lparr>sess_map = [lit ''A''], turn_count = 1\<rparr>)],
     refcounts = [(lit ''A'', 1)],
     fork_snapshots = [(1, \<lparr>fs_session_id = lit ''s1'', fs_hashes = [lit ''A'']\<rparr>)],
     next_fork_id = 2\<rparr>, [Counting 1 [lit ''A'']])"
  by (simp add: forking_def section_eval fork_register_def)

lemma forking_reachable: "creach d default_KvCacheConfig forking"
proof -
  let ?c = "c_put ''s1'' [''A''] c_start"
  let ?m = "fst ?c"
  have c: "?c = (?m, [])" by (simp add: section_eval)
  have 1: "creach d default_KvCacheConfig (?m, [])" using creach_put [OF creach_start] c by metis
  have "fork_read (lit ''s1'') ?m = Some [lit ''A'']" by (simp add: section_eval fork_read_def)
  from creach.step [OF 1 cstep.fork_read [OF this]]
  have 2: "creach d default_KvCacheConfig (?m, [Forking (lit ''s1'') [lit ''A'']])" by simp
  obtain i m' where r: "fork_register (lit ''s1'') [lit ''A''] ?m = (i, m')" by fastforce
  from creach.step [OF 2 cstep.fork_register [OF _ r]]
  have "creach d default_KvCacheConfig (m', [Counting i [lit ''A'']])" by simp
  then show ?thesis using r by (simp add: forking_def Let_def)
qed

text \<open>C10: A fork's end that overtakes the counting of the fork releases a reference that was never
  taken: there is an interleaving in which it hands to \<open>evict\<close> a chunk that the parent session
  still holds.\<close>

theorem early_fork_end_evicts_held_chunk:
  "\<exists>cfg m T m' T' f ev h sid. creach False cfg (m, T) \<and> cstep (m, T) (Released f ev) (m', T')
     \<and> h \<in> set ev \<and> session_map sid m' = Some [h]"
proof -
  let ?m = "fst forking"
  obtain ev m' where e: "fork_end_section (lit ''s1'') None ?m = (ev, m')" by fastforce
  have "ev = [lit ''A'']" "session_map (lit ''s1'') m' = Some [lit ''A'']"
    using e by (auto simp: forking_eval fork_end_section_def pick_snapshot_def session_map_def)
  moreover have "creach False default_KvCacheConfig (?m, snd forking)"
    using forking_reachable by simp
  ultimately show ?thesis using cstep.fork_end [OF e, of "snd forking"] by (metis list.set_intros(1))
qed

text \<open>The same overtaking can leak a chunk for good: there is an interleaving after which no
  task is left, no session and no fork holds the chunk, and its count is one, so no later
  operation of these sessions and forks will ever evict it.\<close>

theorem early_fork_end_leaks_chunk:
  "\<exists>cfg m h. creach False cfg (m, []) \<and> sessions m = [] \<and> fork_snapshots m = []
     \<and> holders m h = 0 \<and> rc_count (refcounts m) h = 1"
proof -
  let ?cfg = default_KvCacheConfig
  obtain m1 T1 where f: "forking = (m1, T1)" by (cases forking)
  obtain ev2 m2 where 2: "close_section (lit ''s1'') m1 = (ev2, m2)" by fastforce
  obtain ev3 m3 where 3: "fork_end_section (lit ''s1'') None m2 = (ev3, m3)" by fastforce
  have T1: "T1 = [Counting 1 [lit ''A'']]" using f by (simp add: forking_eval)
  have r1: "creach False ?cfg (m1, T1)" using forking_reachable f by metis
  have r2: "creach False ?cfg (m2, spawn_evict ev2 T1)"
    using creach.step [OF r1 cstep.close [OF 2]] by simp
  have r3: "creach False ?cfg (m3, spawn_evict ev3 (spawn_evict ev2 T1))"
    using creach.step [OF r2 cstep.fork_end [OF 3]] by simp
  have ev: "ev2 = [lit ''A'']" "ev3 = []" and m3: "m3 = m1\<lparr>sessions := [], refcounts := [], fork_snapshots := []\<rparr>"
    using 2 3 f by (auto simp: forking_eval close_section_def fork_end_section_def pick_snapshot_def
        chunk_hashes_def unique_hashes_def Let_def)
  then have r3': "creach False ?cfg (m3, [Evicting [lit ''A''], Counting 1 [lit ''A'']])"
    using r3 by (simp add: spawn_evict_def T1)
  have r4: "creach False ?cfg (m3, [Counting 1 [lit ''A'']])"
    using creach.step [OF r3' cstep.evict_call [of "[lit ''A'']"]] by simp
  have r5: "creach False ?cfg (fork_count [lit ''A''] m3, [])"
    using creach.step [OF r4 cstep.fork_count [of 1 "[lit ''A'']"]] by simp
  have "holders (fork_count [lit ''A''] m3) (lit ''A'') = 0"
    "rc_count (refcounts (fork_count [lit ''A''] m3)) (lit ''A'') = 1"
    by (simp_all add: m3 fork_count_def holders_def rc_count_def increment_refcounts_def increment_refcount_def)
  moreover have "sessions (fork_count [lit ''A''] m3) = []" "fork_snapshots (fork_count [lit ''A''] m3) = []"
    by (simp_all add: m3 fork_count_def)
  ultimately show ?thesis using r5 by blast
qed

end
