(* ===== verification/KvStore.thy ===== *)
theory KvStore
  imports KvManager
begin

text \<open>
  The SQLite session store of the daemon (\<open>session_store.rs\<close>): the tables \<open>sessions\<close> and
  \<open>pins\<close>, each operation with its failure branch. What \<open>rusqlite\<close>, \<open>serde_json\<close> and
  the clock answer is the argument \<open>db_env\<close>: which statement fails, the text a map is
  serialized to and what a text parses to. The locale \<open>pinned_rows\<close> is the interface the
  daemon relies on; \<open>store\<close> interprets it on the tables of the model.
\<close>

section \<open>Tables\<close>

type_synonym session_row = "str \<times> 32 word"

record SqliteSessionStore =
  session_rows :: "(str \<times> session_row) list"
  pin_rows :: "(str \<times> nat) list"

definition row_put :: "str \<Rightarrow> session_row \<Rightarrow> SqliteSessionStore \<Rightarrow> SqliteSessionStore" where
  "row_put sid r st = st\<lparr>session_rows := AList.update sid r (session_rows st)\<rparr>"

definition row_get :: "SqliteSessionStore \<Rightarrow> str \<Rightarrow> session_row option" where
  "row_get st sid = map_of (session_rows st) sid"

definition row_del :: "str \<Rightarrow> SqliteSessionStore \<Rightarrow> SqliteSessionStore" where
  "row_del sid st = st\<lparr>session_rows := AList.delete sid (session_rows st)\<rparr>"

definition pin_put :: "nat \<Rightarrow> str \<Rightarrow> SqliteSessionStore \<Rightarrow> SqliteSessionStore" where
  "pin_put t sid st = st\<lparr>pin_rows := AList.update sid t (pin_rows st)\<rparr>"

definition pin_get :: "SqliteSessionStore \<Rightarrow> str \<Rightarrow> bool" where
  "pin_get st sid \<longleftrightarrow> map_of (pin_rows st) sid \<noteq> None"

text \<open>A fresh database file (\<open>SqliteSessionStore::new\<close>): the two tables, empty.\<close>

definition new_store :: SqliteSessionStore where
  "new_store = \<lparr>session_rows = [], pin_rows = []\<rparr>"


section \<open>The interface\<close>

locale rows =
  fixes put :: "'k \<Rightarrow> 'v \<Rightarrow> 's \<Rightarrow> 's"
    and get :: "'s \<Rightarrow> 'k \<Rightarrow> 'v option"
    and del :: "'k \<Rightarrow> 's \<Rightarrow> 's"
  assumes get_put: "get (put k v s) k' = (if k' = k then Some v else get s k')"
    and get_del: "get (del k s) k' = (if k' = k then None else get s k')"
begin

lemma put_put: "get (put k v (put k w s)) = get (put k v s)"
  by (simp add: fun_eq_iff get_put)

lemma del_put: "get (del k (put k v s)) = get (del k s)"
  by (simp add: fun_eq_iff get_put get_del)

end

locale pinned_rows = rows put get del
  for put :: "'k \<Rightarrow> 'v \<Rightarrow> 's \<Rightarrow> 's" and get :: "'s \<Rightarrow> 'k \<Rightarrow> 'v option" and del :: "'k \<Rightarrow> 's \<Rightarrow> 's" +
  fixes pin :: "'k \<Rightarrow> 's \<Rightarrow> 's"
    and pinned :: "'s \<Rightarrow> 'k \<Rightarrow> bool"
  assumes pinned_pin: "pinned (pin k s) k' \<longleftrightarrow> k' = k \<or> pinned s k'"
    and pinned_put: "pinned (put k v s) k' \<longleftrightarrow> pinned s k'"
    and pinned_del: "pinned (del k s) k' \<longleftrightarrow> pinned s k'"
    and get_pin: "get (pin k s) k' = get s k'"
begin

text \<open>Dropping a row unless it is pinned, as a close does.\<close>

definition release :: "'k \<Rightarrow> 's \<Rightarrow> 's" where
  "release k s = (if pinned s k then s else del k s)"

lemma release_pinned: "pinned s k \<Longrightarrow> release k s = s"
  by (simp add: release_def)

lemma release_get: "get (release k s) k' = (if k' = k \<and> \<not> pinned s k then None else get s k')"
  by (simp add: release_def get_del)

lemma pinned_release: "pinned (release k s) k' \<longleftrightarrow> pinned s k'"
  by (simp add: release_def pinned_del)

text \<open>Once pinned, a row survives any number of releases.\<close>

lemma pin_survives: "get (fold release ks (pin k s)) k = get s k"
proof -
  have "pinned s' k \<Longrightarrow> get (fold release ks s') k = get s' k" for s'
    by (induction ks arbitrary: s') (auto simp: pinned_release release_get)
  then show ?thesis by (simp add: pinned_pin get_pin)
qed

end

interpretation store: pinned_rows row_put row_get row_del "pin_put t" pin_get
  by unfold_locales
     (auto simp: row_put_def row_get_def row_del_def pin_put_def pin_get_def)


section \<open>Operations\<close>

datatype sql_op = SqlSave | SqlLoad | SqlRemove | SqlList | SqlPin | SqlIsPinned

record db_env =
  sql_error :: "sql_op \<Rightarrow> str option"
  to_json :: "str list \<Rightarrow> str"
  from_json :: "str \<Rightarrow> str list option"
  now_ms :: nat

datatype SessionStoreError = Sqlite str | Serde str

fun store_error_string :: "SessionStoreError \<Rightarrow> str" where
  "store_error_string (Sqlite e) = lit ''sqlite error: '' @ e"
| "store_error_string (Serde e) = lit ''serialization error: '' @ e"

definition store_save ::
  "db_env \<Rightarrow> str \<Rightarrow> KvCacheMap \<Rightarrow> 32 word \<Rightarrow> SqliteSessionStore
     \<Rightarrow> (SessionStoreError + unit) \<times> SqliteSessionStore" where
  "store_save db session_id m turns st =
     (let map_json = to_json db m
      in case sql_error db SqlSave of
           Some e \<Rightarrow> (Inl (Sqlite e), st)
         | None \<Rightarrow> (Inr (), row_put session_id (map_json, turns) st))"

definition store_load :: "db_env \<Rightarrow> str \<Rightarrow> SqliteSessionStore \<Rightarrow> (KvCacheMap \<times> 32 word) option" where
  "store_load db session_id st =
     (case sql_error db SqlLoad of
        Some e \<Rightarrow> None
      | None \<Rightarrow>
          (case row_get st session_id of
             None \<Rightarrow> None
           | Some (map_json, turns) \<Rightarrow>
               (case from_json db map_json of
                  Some m \<Rightarrow> Some (m, turns)
                | None \<Rightarrow> None)))"

definition store_remove :: "db_env \<Rightarrow> str \<Rightarrow> SqliteSessionStore \<Rightarrow> SqliteSessionStore" where
  "store_remove db session_id st =
     (case sql_error db SqlRemove of Some e \<Rightarrow> st | None \<Rightarrow> row_del session_id st)"

definition store_list_all :: "db_env \<Rightarrow> SqliteSessionStore \<Rightarrow> str list" where
  "store_list_all db st =
     (case sql_error db SqlList of Some e \<Rightarrow> [] | None \<Rightarrow> map fst (session_rows st))"

definition store_pin_session :: "db_env \<Rightarrow> str \<Rightarrow> SqliteSessionStore \<Rightarrow> SqliteSessionStore" where
  "store_pin_session db session_id st =
     (let pinned_at_ms = now_ms db
      in case sql_error db SqlPin of Some e \<Rightarrow> st | None \<Rightarrow> pin_put pinned_at_ms session_id st)"

definition store_is_pinned :: "db_env \<Rightarrow> str \<Rightarrow> SqliteSessionStore \<Rightarrow> bool" where
  "store_is_pinned db session_id st =
     (case sql_error db SqlIsPinned of Some e \<Rightarrow> False | None \<Rightarrow> pin_get st session_id)"

text \<open>
  What the store relies on: no statement fails, and a serialized map reads back. A concrete
  serialization with that property, each hash behind its length, shows the two can hold.
\<close>

definition db_healthy :: "db_env \<Rightarrow> bool" where
  "db_healthy db \<longleftrightarrow> (\<forall>c. sql_error db c = None) \<and> (\<forall>m. from_json db (to_json db m) = Some m)"

fun frame :: "str list \<Rightarrow> str" where
  "frame [] = []"
| "frame (h # hs) = length h # h @ frame hs"

fun unframe :: "nat \<Rightarrow> str \<Rightarrow> str list option" where
  "unframe 0 s = (if s = [] then Some [] else None)"
| "unframe (Suc k) [] = Some []"
| "unframe (Suc k) (n # s) =
     (if length s < n then None else map_option ((#) (take n s)) (unframe k (drop n s)))"

lemma unframe_frame: "length (frame hs) \<le> k \<Longrightarrow> unframe k (frame hs) = Some hs"
proof (induction hs arbitrary: k)
  case Nil
  then show ?case by (cases k) auto
next
  case (Cons h hs)
  then obtain k' where k: "k = Suc k'" by (cases k) auto
  with Cons show ?case by simp
qed

definition framed_db :: db_env where
  "framed_db = \<lparr>sql_error = (\<lambda>_. None), to_json = frame,
     from_json = (\<lambda>s. unframe (length s) s), now_ms = 17\<rparr>"

lemma framed_db_healthy: "db_healthy framed_db"
  by (simp add: db_healthy_def framed_db_def unframe_frame)

lemma save_then_load:
  "db_healthy db \<Longrightarrow> store_save db sid m t st = (r, st') \<Longrightarrow>
   r = Inr () \<and> store_load db sid' st' = (if sid' = sid then Some (m, t) else store_load db sid' st)"
  by (cases "sid' = sid")
     (auto simp: db_healthy_def store_save_def store_load_def Let_def store.get_put)

end
