(* ===== verification/KvBackend.thy ===== *)
theory KvBackend
  imports KvManager
begin

text \<open>
  The three backends behind the \<open>KvCacheBackend\<close> trait: \<open>NoopBackend\<close>, \<open>UCMBackend\<close> and
  \<open>LMCacheAscendBackend\<close>. The HTTP client is an argument that answers a request with the
  status and body of the response, or nothing (connection error, timeout). The locale
  \<open>backend_contract\<close> states what the coordinator needs of a backend's answers, and each of the
  three is an interpretation of it.
\<close>

record http_request =
  rq_url :: str
  rq_headers :: "(str \<times> str) list"
  rq_body :: json

type_synonym http = "http_request \<Rightarrow> (nat \<times> str) option"

record backend =
  b_prefetch :: "str list \<Rightarrow> str \<Rightarrow> str \<Rightarrow> BackendResult"
  b_evict :: "str list \<Rightarrow> BackendResult"
  b_query :: "str list \<Rightarrow> (str \<times> str list) list"

definition accepted :: BackendResult where
  "accepted = \<lparr>status = 204, responded = True\<rparr>"

definition answer :: "(nat \<times> str) option \<Rightarrow> BackendResult" where
  "answer r = (case r of Some (st, _) \<Rightarrow> \<lparr>status = st, responded = True\<rparr>
                | None \<Rightarrow> \<lparr>status = 0, responded = False\<rparr>)"

definition noop_backend :: backend where
  "noop_backend = \<lparr>b_prefetch = (\<lambda>_ _ _. accepted), b_evict = (\<lambda>_. accepted), b_query = (\<lambda>_. [])\<rparr>"

definition json_headers :: "(str \<times> str) list" where
  "json_headers = [(lit ''Content-Type'', lit ''application/json''), (lit ''Accept'', lit ''*/*'')]"

definition ucm_prefetch_request :: "str \<Rightarrow> str list \<Rightarrow> str \<Rightarrow> http_request" where
  "ucm_prefetch_request base hashes session_id =
     \<lparr>rq_url = base @ lit ''/kv/prefetch'',
      rq_headers = json_headers @ [(lit ''x-session-id'', session_id)],
      rq_body = jobject [(lit ''block_ids'', JArray (map JString hashes))]\<rparr>"

definition ucm_prefetch :: "http \<Rightarrow> str \<Rightarrow> str list \<Rightarrow> str \<Rightarrow> str \<Rightarrow> BackendResult" where
  "ucm_prefetch send base hashes lookup_id session_id =
     (if hashes = [] then accepted else answer (send (ucm_prefetch_request base hashes session_id)))"

definition ucm_evict :: "str list \<Rightarrow> BackendResult" where
  "ucm_evict hashes = accepted"

definition ucm_query :: "str list \<Rightarrow> (str \<times> str list) list" where
  "ucm_query hashes = []"

definition ucm_backend :: "http \<Rightarrow> str \<Rightarrow> backend" where
  "ucm_backend send base = \<lparr>b_prefetch = ucm_prefetch send base, b_evict = ucm_evict,
     b_query = ucm_query\<rparr>"

definition lmcache_request :: "str \<Rightarrow> string \<Rightarrow> (str \<times> json) list \<Rightarrow> http_request" where
  "lmcache_request base path payload =
     \<lparr>rq_url = base @ lit path, rq_headers = json_headers, rq_body = jobject payload\<rparr>"

definition lmcache_prefetch :: "http \<Rightarrow> str \<Rightarrow> str list \<Rightarrow> str \<Rightarrow> str \<Rightarrow> BackendResult" where
  "lmcache_prefetch send base hashes lookup_id session_id =
     answer (send (lmcache_request base ''/memory/prefetch''
       [(lit ''chunk_hashes'', JArray (map JString hashes)), (lit ''lookup_id'', JString lookup_id)]))"

definition lmcache_evict :: "http \<Rightarrow> str \<Rightarrow> str list \<Rightarrow> BackendResult" where
  "lmcache_evict send base hashes =
     answer (send (lmcache_request base ''/memory/evict''
       [(lit ''chunk_hashes'', JArray (map JString hashes))]))"

text \<open>The response body of a query is parsed by \<open>serde_json\<close>, the argument \<open>parse\<close>.\<close>

definition lmcache_query ::
  "(str \<Rightarrow> (str \<times> str list) list option) \<Rightarrow> http \<Rightarrow> str \<Rightarrow> str list \<Rightarrow> (str \<times> str list) list" where
  "lmcache_query parse send base hashes =
     (case send (lmcache_request base ''/memory/query''
             [(lit ''chunk_hashes'', JArray (map JString hashes))]) of
        Some (_, body_text) \<Rightarrow> (case parse body_text of Some data \<Rightarrow> data | None \<Rightarrow> [])
      | None \<Rightarrow> [])"

definition lmcache_backend ::
  "(str \<Rightarrow> (str \<times> str list) list option) \<Rightarrow> http \<Rightarrow> str \<Rightarrow> backend" where
  "lmcache_backend parse send base = \<lparr>b_prefetch = lmcache_prefetch send base,
     b_evict = lmcache_evict send base, b_query = lmcache_query parse send base\<rparr>"


section \<open>What the coordinator relies on\<close>

text \<open>
  A backend that did not respond reports status 0, so the success test of the coordinator never
  takes a transport failure for a success; the status alone decides.
\<close>

locale backend_contract =
  fixes be :: backend
  assumes silent_prefetch: "\<not> responded (b_prefetch be hs l s) \<Longrightarrow> status (b_prefetch be hs l s) = 0"
    and silent_evict: "\<not> responded (b_evict be hs) \<Longrightarrow> status (b_evict be hs) = 0"
begin

lemma ok_by_status:
  "backend_ok (b_prefetch be hs l s) \<longleftrightarrow> status (b_prefetch be hs l s) \<in> {200..<300}"
  "backend_ok (b_evict be hs) \<longleftrightarrow> status (b_evict be hs) \<in> {200..<300}"
  using silent_prefetch [of hs l s] silent_evict [of hs]
  by (cases "responded (b_prefetch be hs l s)"; cases "responded (b_evict be hs)";
      simp add: backend_ok_def)+

end

lemma answer_silent: "\<not> responded (answer r) \<Longrightarrow> status (answer r) = 0"
  by (simp add: answer_def split: option.splits prod.splits)

interpretation noop: backend_contract noop_backend
  by unfold_locales (simp_all add: noop_backend_def accepted_def)

interpretation ucm: backend_contract "ucm_backend send base" for send base
  by unfold_locales
     (auto simp: ucm_backend_def ucm_prefetch_def ucm_evict_def accepted_def answer_silent
       split: if_splits)

interpretation lmcache: backend_contract "lmcache_backend parse send base" for parse send base
  by unfold_locales
     (simp_all add: lmcache_backend_def lmcache_prefetch_def lmcache_evict_def answer_silent)

text \<open>The part of the outside world a backend answers for.\<close>

definition world_of :: "backend \<Rightarrow> world \<Rightarrow> world" where
  "world_of be w = w\<lparr>w_prefetch := b_prefetch be, w_evict := b_evict be\<rparr>"

text \<open>
  Under the UCM backend an eviction is never reported as degraded: whatever the router answers,
  closing a session reports every released hash as evicted.
\<close>

lemma ucm_evict_never_degraded:
  "on_session_close (world_of (ucm_backend send base) w) sid m = (Inr out, m', eff)
   \<Longrightarrow> \<not> backend_degraded out \<and> evicted_count out = length (fst (close_section sid m))"
  by (auto simp: on_session_close_def evict_tail_def world_of_def ucm_backend_def ucm_evict_def
      accepted_def backend_ok_def default_outcome_def Let_def split_beta split: if_splits)

end
