(* ===== verification/KvDaemon.thy ===== *)
theory KvDaemon
  imports KvStore KvBackend
begin

text \<open>
  The daemon \<open>ram-a-kv\<close>: its configuration, the event handlers, the registry, the dispatcher
  \<open>handle_event\<close> with the persistence it does after a handler, the bearer-token check and the
  start-up that rehydrates the coordinator from the session store.
\<close>

section \<open>State, results, effects\<close>

record DaemonConfig =
  listen_addr :: str
  noop_backend_flag :: bool
  lmcache_url :: str
  ucm_backend_flag :: bool
  ucm_url :: str
  d_debug_enabled :: bool
  d_trace_events :: bool
  d_debug_dir :: str
  session_store_path :: str
  d_turn_start_prefetch :: bool
  turn_start_prefetch_async :: bool
  auth_token :: str
  actrail_receiver_url :: "str option"
  actrail_model_deployment_key :: "str option"
  actrail_kv_namespace :: "str option"

definition default_DaemonConfig :: DaemonConfig where
  "default_DaemonConfig = \<lparr>listen_addr = lit ''127.0.0.1:6998'', noop_backend_flag = False,
     lmcache_url = lit ''http://localhost:6999'', ucm_backend_flag = False,
     ucm_url = lit ''http://127.0.0.1:9003'', d_debug_enabled = False, d_trace_events = False,
     d_debug_dir = lit ''kvcache_debug'',
     session_store_path = lit ''/var/lib/ram-a-kv/sessions.db'', d_turn_start_prefetch = True,
     turn_start_prefetch_async = False, auth_token = [], actrail_receiver_url = None,
     actrail_model_deployment_key = None, actrail_kv_namespace = None\<rparr>"

record ActrailRelay =
  receiver_url :: str
  model_deployment_key :: "str option"
  kv_namespace :: "str option"

record ActrailCapture =
  endpoint_key :: str
  agent_key :: "str option"
  ac_payload :: json

definition new_relay :: "DaemonConfig \<Rightarrow> ActrailRelay option" where
  "new_relay cfg =
     (case actrail_receiver_url cfg of
        None \<Rightarrow> None
      | Some url \<Rightarrow>
          if trim url = [] then None
          else Some \<lparr>receiver_url = url, model_deployment_key = actrail_model_deployment_key cfg,
                     kv_namespace = actrail_kv_namespace cfg\<rparr>)"

definition relay_request :: "ActrailRelay \<Rightarrow> ActrailCapture \<Rightarrow> str \<Rightarrow> http_request" where
  "relay_request r capture session_id =
     (let opt = (\<lambda>name v. case v of Some x \<Rightarrow> [(lit name, x)] | None \<Rightarrow> [])
      in \<lparr>rq_url = receiver_url r @ lit ''/requests'',
          rq_headers = [(lit ''X-Actrail-Endpoint-Key'', endpoint_key capture),
                     (lit ''X-Actrail-Source'', lit ''ram-a-kv-relay''),
                     (lit ''X-Actrail-Session-Key'', session_id)]
            @ opt ''X-Actrail-Agent-Key'' (agent_key capture)
            @ opt ''X-Actrail-Model-Deployment-Key'' (model_deployment_key r)
            @ opt ''X-Actrail-KV-Namespace'' (kv_namespace r),
          rq_body = ac_payload capture\<rparr>)"

record AppState =
  manager :: KvCacheManager
  store :: SqliteSessionStore
  relay :: "ActrailRelay option"
  prefetch_async :: bool

datatype EventResult = EOk json | EErr str

text \<open>
  What an event does outside: the coordinator's effects, a background task that will run
  \<open>on_turn_start\<close>, a background relay request.
\<close>

datatype daemon_effect =
    Manager effect
  | SpawnTurnStart str
  | SpawnRelay http_request

record daemon_env =
  de_world :: world
  de_db :: db_env
  serde_error :: "json \<Rightarrow> str"

type_synonym handled = "EventResult \<times> AppState \<times> daemon_effect list"


section \<open>Payloads\<close>

definition payload_session_id :: "json \<Rightarrow> str" where
  "payload_session_id payload =
     (case as_str (json_index payload (lit ''session_id'')) of Some s \<Rightarrow> s | None \<Rightarrow> [])"

definition empty_session_error :: str where
  "empty_session_error = lit ''session_id must not be empty''"

fun strings_of :: "json list \<Rightarrow> str list option" where
  "strings_of [] = Some []"
| "strings_of (JString s # vs) = map_option ((#) s) (strings_of vs)"
| "strings_of (_ # vs) = None"

text \<open>
  The \<open>Deserialize\<close> instances of the payload structs: a struct is read from an object by field
  name (a missing field with \<open>#[serde(default)]\<close> or of type \<open>Option\<close> is \<open>None\<close>, so is
  \<open>null\<close>) or from an array by position. \<open>None\<close> is a deserialization error.
\<close>

definition parse_chunk_hashes :: "json \<Rightarrow> str list option" where
  "parse_chunk_hashes v = (case v of JArray vs \<Rightarrow> strings_of vs | _ \<Rightarrow> None)"

definition parse_kv_params :: "json \<Rightarrow> str list option" where
  "parse_kv_params v =
     (case v of
        JObject kvs \<Rightarrow> (case map_of kvs (lit ''chunk_hashes'') of
                          Some c \<Rightarrow> parse_chunk_hashes c | None \<Rightarrow> None)
      | JArray [c] \<Rightarrow> parse_chunk_hashes c
      | _ \<Rightarrow> None)"

definition parse_opt :: "(json \<Rightarrow> 'a option) \<Rightarrow> json option \<Rightarrow> 'a option option" where
  "parse_opt p v =
     (case v of None \<Rightarrow> Some None
      | Some x \<Rightarrow> if x = JNull then Some None else map_option Some (p x))"

definition parse_capture :: "json \<Rightarrow> ActrailCapture option" where
  "parse_capture v =
     (let build = (\<lambda>e a p. case as_str e of
              None \<Rightarrow> None
            | Some ek \<Rightarrow> (case parse_opt as_str a of
                  None \<Rightarrow> None
                | Some ak \<Rightarrow> Some \<lparr>endpoint_key = ek, agent_key = ak, ac_payload = p\<rparr>))
      in case v of
           JObject kvs \<Rightarrow>
             (case (map_of kvs (lit ''endpoint_key''), map_of kvs (lit ''payload'')) of
                (Some e, Some p) \<Rightarrow> build e (map_of kvs (lit ''agent_key'')) p
              | _ \<Rightarrow> None)
         | JArray [e, a, p] \<Rightarrow> build e (Some a) p
         | _ \<Rightarrow> None)"

record TurnEndPayload =
  te_session_id :: str
  te_kv_params :: "str list option"
  te_debug_context :: "json option"
  te_capture :: "ActrailCapture option"

definition parse_turn_end :: "json \<Rightarrow> TurnEndPayload option" where
  "parse_turn_end payload =
     (case (case json_get payload (lit ''session_id'') of Some v \<Rightarrow> as_str v | None \<Rightarrow> None) of
        None \<Rightarrow> None
      | Some sid \<Rightarrow>
          (case (parse_opt parse_kv_params (json_get payload (lit ''kv_transfer_params'')),
                 parse_opt Some (json_get payload (lit ''debug_context'')),
                 parse_opt parse_capture (json_get payload (lit ''actrail_capture''))) of
             (Some kv, Some dc, Some cap) \<Rightarrow>
               Some \<lparr>te_session_id = sid, te_kv_params = kv, te_debug_context = dc,
                     te_capture = cap\<rparr>
           | _ \<Rightarrow> None))"

definition get_u64 :: "json \<Rightarrow> string \<Rightarrow> nat option" where
  "get_u64 v k = (case json_get v (lit k) of Some x \<Rightarrow> as_u64 x | None \<Rightarrow> None)"

definition debug_context_of :: "json option \<Rightarrow> DebugContext option" where
  "debug_context_of dc =
     (case dc of None \<Rightarrow> None
      | Some dc \<Rightarrow>
          let msgs = (case json_get dc (lit ''messages'') of Some m \<Rightarrow> as_array m | None \<Rightarrow> None);
              tim = map_option (\<lambda>t. \<lparr>ttft_ms = get_u64 t ''ttft_ms'',
                        total_time_ms = get_u64 t ''total_time_ms'',
                        tpot_ms = get_u64 t ''tpot_ms''\<rparr>) (json_get dc (lit ''timing''))
          in if msgs \<noteq> None \<or> tim \<noteq> None then
               Some \<lparr>messages = (case msgs of Some m \<Rightarrow> m | None \<Rightarrow> []),
                     timing = (case tim of Some t \<Rightarrow> t | None \<Rightarrow> default_TimingInfo)\<rparr>
             else None)"


section \<open>Handlers\<close>

definition MAX_CHUNK_HASH_LEN :: nat where
  "MAX_CHUNK_HASH_LEN = 100"

definition MAX_CHUNK_COUNT :: nat where
  "MAX_CHUNK_COUNT = 4096"

definition with_manager :: "AppState \<Rightarrow> KvCacheManager \<Rightarrow> AppState" where
  "with_manager s m = s\<lparr>manager := m\<rparr>"

text \<open>The first index, counted from \<open>i\<close>, of a hash that is too long.\<close>

fun find_long :: "nat \<Rightarrow> str list \<Rightarrow> (nat \<times> str) option" where
  "find_long i [] = None"
| "find_long i (h # hs) =
     (if byte_len h > MAX_CHUNK_HASH_LEN then Some (i, h) else find_long (Suc i) hs)"

definition check_chunk_limits :: "str list option \<Rightarrow> str option" where
  "check_chunk_limits new_hashes =
     (case new_hashes of
        None \<Rightarrow> None
      | Some hashes \<Rightarrow>
          if length hashes > MAX_CHUNK_COUNT then
            Some (lit ''chunk_hashes count '' @ dec_str (length hashes)
              @ lit '' exceeds limit of '' @ dec_str MAX_CHUNK_COUNT)
          else case find_long 0 hashes of
            Some (i, h) \<Rightarrow>
              Some (lit ''chunk_hashes['' @ dec_str i @ lit ''] length '' @ dec_str (byte_len h)
                @ lit '' exceeds limit of '' @ dec_str MAX_CHUNK_HASH_LEN @ lit '' bytes'')
          | None \<Rightarrow> None)"

definition turn_start_handle :: "daemon_env \<Rightarrow> json \<Rightarrow> AppState \<Rightarrow> handled" where
  "turn_start_handle env payload s =
     (let session_id = payload_session_id payload
      in if session_id = [] then (EErr empty_session_error, s, [])
         else if prefetch_async s then
           (EOk (jobject [(lit ''prefetch_sent'', JBool True), (lit ''prefetch_count'', JNull),
              (lit ''backend_degraded'', JBool False), (lit ''async'', JBool True)]),
            s, [SpawnTurnStart session_id])
         else case on_turn_start (de_world env) session_id (manager s) of
           (Inl e, m, eff) \<Rightarrow> (EErr (kv_error_string e), with_manager s m, map Manager eff)
         | (Inr out, m, eff) \<Rightarrow>
             (EOk (jobject [(lit ''prefetch_sent'', JBool (prefetch_sent out)),
                (lit ''prefetch_count'', jnat (prefetch_count out)),
                (lit ''backend_degraded'', JBool (backend_degraded out))]),
              with_manager s m, map Manager eff))"

definition turn_end_handle :: "daemon_env \<Rightarrow> json \<Rightarrow> AppState \<Rightarrow> handled" where
  "turn_end_handle env payload s =
     (case parse_turn_end payload of
        None \<Rightarrow> (EErr (lit ''invalid turn_end payload: '' @ serde_error env payload), s, [])
      | Some parsed \<Rightarrow>
          if te_session_id parsed = [] then (EErr empty_session_error, s, [])
          else case check_chunk_limits (te_kv_params parsed) of
            Some e \<Rightarrow> (EErr e, s, [])
          | None \<Rightarrow>
              let map_updated = te_kv_params parsed \<noteq> None;
                  chunk_count = (case te_kv_params parsed of Some h \<Rightarrow> length h | None \<Rightarrow> 0);
                  ctx = debug_context_of (te_debug_context parsed)
              in case on_turn_end (de_world env) (te_session_id parsed) (te_kv_params parsed) ctx
                        (manager s) of
                   (Inl e, m, eff) \<Rightarrow> (EErr (kv_error_string e), with_manager s m, map Manager eff)
                 | (Inr out, m, eff) \<Rightarrow>
                     let fwd = (case (relay s, te_capture parsed) of
                                  (Some r, Some c) \<Rightarrow> [SpawnRelay (relay_request r c (te_session_id parsed))]
                                | _ \<Rightarrow> [])
                     in (EOk (jobject [(lit ''evicted_count'', jnat (evicted_count out)),
                           (lit ''map_updated'', JBool map_updated),
                           (lit ''debug_written'', JBool (debug_written out)),
                           (lit ''backend_degraded'', JBool (backend_degraded out)),
                           (lit ''chunk_count'', jnat chunk_count)]),
                         with_manager s m, map Manager eff @ fwd))"

text \<open>The hashes a restore uses: the session's own map if it has one, else its stored row.\<close>

definition restore_source :: "daemon_env \<Rightarrow> str \<Rightarrow> AppState \<Rightarrow> str + str list" where
  "restore_source env session_id s =
     (let from_store =
            (case store_load (de_db env) session_id (store s) of
               None \<Rightarrow> Inl (lit ''session '' @ [39] @ session_id @ [39]
                            @ lit '' not found in memory or store'')
             | Some (m, _) \<Rightarrow>
                 if map_is_empty m then
                   Inl (lit ''session '' @ [39] @ session_id @ [39]
                        @ lit '' has no chunk_hashes to restore'')
                 else Inr (chunk_hashes m))
      in case session_map session_id (manager s) of
           Some m \<Rightarrow> if \<not> map_is_empty m then Inr (chunk_hashes m) else from_store
         | None \<Rightarrow> from_store)"

definition snapshot_restore_handle :: "daemon_env \<Rightarrow> json \<Rightarrow> AppState \<Rightarrow> handled" where
  "snapshot_restore_handle env payload s =
     (let session_id = payload_session_id payload
      in if session_id = [] then (EErr empty_session_error, s, [])
         else
           case restore_source env session_id s of
             Inl e \<Rightarrow> (EErr e, s, [])
           | Inr hs \<Rightarrow>
               (case on_snapshot_restore (de_world env) session_id hs (manager s) of
                  (Inl e, m, eff) \<Rightarrow> (EErr (kv_error_string e), with_manager s m, map Manager eff)
                | (Inr out, m, eff) \<Rightarrow>
                    (EOk (jobject [(lit ''prefetch_sent'', JBool (prefetch_sent out)),
                       (lit ''prefetch_count'', jnat (length hs)),
                       (lit ''backend_degraded'', JBool (backend_degraded out)),
                       (lit ''evicted_count'', jnat (evicted_count out)),
                       (lit ''pinned'', JBool True)]),
                     (with_manager s m)\<lparr>store := store_pin_session (de_db env) session_id (store s)\<rparr>,
                     map Manager eff)))"

definition session_map_handle :: "daemon_env \<Rightarrow> json \<Rightarrow> AppState \<Rightarrow> handled" where
  "session_map_handle env payload s =
     (let session_id = payload_session_id payload
      in if session_id = [] then (EErr empty_session_error, s, [])
         else case session_map session_id (manager s) of
           Some m \<Rightarrow> (EOk (jobject [(lit ''session_id'', JString session_id),
                        (lit ''chunk_hashes'', JArray (map JString m))]), s, [])
         | None \<Rightarrow> (EErr (lit ''session '' @ [39] @ session_id @ [39] @ lit '' not found''), s, []))"

definition session_close_handle :: "daemon_env \<Rightarrow> json \<Rightarrow> AppState \<Rightarrow> handled" where
  "session_close_handle env payload s =
     (let session_id = payload_session_id payload
      in if session_id = [] then (EErr empty_session_error, s, [])
         else
           let pinned = store_is_pinned (de_db env) session_id (store s)
           in case on_session_close (de_world env) session_id (manager s) of
                (Inl e, m, eff) \<Rightarrow> (EErr (kv_error_string e), with_manager s m, map Manager eff)
              | (Inr out, m, eff) \<Rightarrow>
                  (EOk (jobject [(lit ''closed'', JBool True), (lit ''pinned'', JBool pinned),
                     (lit ''evicted_count'', jnat (evicted_count out)),
                     (lit ''backend_degraded'', JBool (backend_degraded out))]),
                   with_manager s m, map Manager eff))"

definition session_suspend_handle :: "daemon_env \<Rightarrow> json \<Rightarrow> AppState \<Rightarrow> handled" where
  "session_suspend_handle env payload s =
     (let session_id = payload_session_id payload
      in if session_id = [] then (EErr empty_session_error, s, [])
         else
           let s1 = s\<lparr>store := store_pin_session (de_db env) session_id (store s)\<rparr>
           in case on_session_close (de_world env) session_id (manager s1) of
                (Inl e, m, eff) \<Rightarrow> (EErr (kv_error_string e), with_manager s1 m, map Manager eff)
              | (Inr out, m, eff) \<Rightarrow>
                  (EOk (jobject [(lit ''pinned'', JBool True), (lit ''suspended'', JBool True),
                     (lit ''evicted_count'', jnat (evicted_count out)),
                     (lit ''backend_degraded'', JBool (backend_degraded out))]),
                   with_manager s1 m, map Manager eff))"

definition session_fork_handle :: "daemon_env \<Rightarrow> json \<Rightarrow> AppState \<Rightarrow> handled" where
  "session_fork_handle env payload s =
     (let session_id = payload_session_id payload
      in if session_id = [] then (EErr empty_session_error, s, [])
         else case on_session_fork session_id (manager s) of
           (Inl e, m, eff) \<Rightarrow> (EErr (kv_error_string e), with_manager s m, map Manager eff)
         | (Inr fork_id, m, eff) \<Rightarrow>
             (EOk (jobject [(lit ''forked'', JBool True), (lit ''fork_id'', jnat fork_id)]),
              with_manager s m, map Manager eff))"

definition session_fork_end_handle :: "daemon_env \<Rightarrow> json \<Rightarrow> AppState \<Rightarrow> handled" where
  "session_fork_end_handle env payload s =
     (let session_id = payload_session_id payload
      in if session_id = [] then (EErr empty_session_error, s, [])
         else
           let fork_id = as_u64 (json_index payload (lit ''fork_id''))
           in case on_session_fork_end (de_world env) session_id fork_id (manager s) of
                (Inl e, m, eff) \<Rightarrow> (EErr (kv_error_string e), with_manager s m, map Manager eff)
              | (Inr out, m, eff) \<Rightarrow>
                  (EOk (jobject [(lit ''fork_end'', JBool True),
                     (lit ''evicted_count'', jnat (evicted_count out)),
                     (lit ''backend_degraded'', JBool (backend_degraded out)),
                     (lit ''matched'', JBool (evicted_count out > 0 \<or> \<not> backend_degraded out))]),
                   with_manager s m, map Manager eff))"

definition health_handle :: "daemon_env \<Rightarrow> json \<Rightarrow> AppState \<Rightarrow> handled" where
  "health_handle env payload s =
     (EOk (jobject [(lit ''status'', JString (lit ''running'')),
        (lit ''sessions_count'', jnat (sessions_count (manager s)))]), s, [])"

definition agent_event_handle :: "daemon_env \<Rightarrow> json \<Rightarrow> AppState \<Rightarrow> handled" where
  "agent_event_handle env payload s =
     (let session_id = payload_session_id payload
      in if session_id = [] then (EErr empty_session_error, s, [])
         else (EOk (jobject [(lit ''accepted'', JBool True)]), s, []))"


section \<open>Registry and dispatcher\<close>

record EventSpec =
  description :: str
  required :: "str list"
  optional :: "str list"

datatype EventHandler =
    TurnStartHandler
  | TurnEndHandler
  | SnapshotRestoreHandler
  | SessionMapHandler
  | SessionCloseHandler
  | SessionSuspendHandler
  | SessionForkHandler
  | SessionForkEndHandler
  | HealthHandler
  | AgentEventHandler

definition turn_start_spec :: EventSpec where
  "turn_start_spec = \<lparr>description = lit
     ''Pre-inference prefetch: daemon reads chunk_hashes from the session map and prefetches'',
     required = [lit ''session_id''], optional = []\<rparr>"

definition turn_end_spec :: EventSpec where
  "turn_end_spec = \<lparr>description = lit
     ''Post-inference safe eviction + update: decrement refcount, evict only when refcount == 0'',
     required = [lit ''session_id''],
     optional = [lit ''kv_transfer_params'', lit ''debug_context'', lit ''actrail_capture'']\<rparr>"

definition snapshot_restore_spec :: EventSpec where
  "snapshot_restore_spec = \<lparr>description = lit
     ''Restore session snapshot: load chunk_hashes from memory or persistent storage, register references + prefetch'',
     required = [lit ''session_id''], optional = []\<rparr>"

definition session_map_spec :: EventSpec where
  "session_map_spec = \<lparr>description = lit ''Get session cache state'',
     required = [lit ''session_id''], optional = []\<rparr>"

definition session_close_spec :: EventSpec where
  "session_close_spec = \<lparr>description = lit
     ''Close session: release references and evict refcount==0 chunks; pinned sessions keep their SQLite row'',
     required = [lit ''session_id''], optional = []\<rparr>"

definition session_suspend_spec :: EventSpec where
  "session_suspend_spec = \<lparr>description = lit
     ''Suspend session: pin the SQLite row for snapshot restore, then release references and evict'',
     required = [lit ''session_id''], optional = []\<rparr>"

definition session_fork_spec :: EventSpec where
  "session_fork_spec = \<lparr>description = lit
     (''Fork session: increment refcount on the session'' @ [CHR 0x27] @ ''s chunk_hashes to prevent parent turn_end from evicting''),
     required = [lit ''session_id''], optional = []\<rparr>"

definition session_fork_end_spec :: EventSpec where
  "session_fork_end_spec = \<lparr>description = lit
     (''Fork end: decrement refcount on the session'' @ [CHR 0x27] @ ''s chunk_hashes, evict blocks with refcount = 0''),
     required = [lit ''session_id''], optional = [lit ''fork_id'']\<rparr>"

definition health_spec :: EventSpec where
  "health_spec = \<lparr>description = lit ''Health check'', required = [], optional = []\<rparr>"

definition agent_event_spec :: EventSpec where
  "agent_event_spec = \<lparr>description = lit
     ''Acknowledge an agent turn boundary reported by the framework middleware'',
     required = [lit ''session_id''],
     optional = [lit ''event_name'', lit ''event_action'', lit ''source'', lit ''agent_turn_id'',
       lit ''event_id'', lit ''payload'', lit ''detail_level'', lit ''schema_version'']\<rparr>"

fun handler_spec :: "EventHandler \<Rightarrow> EventSpec" where
  "handler_spec TurnStartHandler = turn_start_spec"
| "handler_spec TurnEndHandler = turn_end_spec"
| "handler_spec SnapshotRestoreHandler = snapshot_restore_spec"
| "handler_spec SessionMapHandler = session_map_spec"
| "handler_spec SessionCloseHandler = session_close_spec"
| "handler_spec SessionSuspendHandler = session_suspend_spec"
| "handler_spec SessionForkHandler = session_fork_spec"
| "handler_spec SessionForkEndHandler = session_fork_end_spec"
| "handler_spec HealthHandler = health_spec"
| "handler_spec AgentEventHandler = agent_event_spec"

fun handle :: "EventHandler \<Rightarrow> daemon_env \<Rightarrow> json \<Rightarrow> AppState \<Rightarrow> handled" where
  "handle TurnStartHandler = turn_start_handle"
| "handle TurnEndHandler = turn_end_handle"
| "handle SnapshotRestoreHandler = snapshot_restore_handle"
| "handle SessionMapHandler = session_map_handle"
| "handle SessionCloseHandler = session_close_handle"
| "handle SessionSuspendHandler = session_suspend_handle"
| "handle SessionForkHandler = session_fork_handle"
| "handle SessionForkEndHandler = session_fork_end_handle"
| "handle HealthHandler = health_handle"
| "handle AgentEventHandler = agent_event_handle"

record EventRegistry =
  handlers :: "(str \<times> EventHandler) list"
  specs :: "(str \<times> EventSpec) list"

definition new_registry :: EventRegistry where
  "new_registry = \<lparr>handlers = [], specs = []\<rparr>"

definition register :: "str \<Rightarrow> EventHandler \<Rightarrow> EventRegistry \<Rightarrow> EventRegistry" where
  "register type_name h reg = reg\<lparr>handlers := AList.update type_name h (handlers reg),
     specs := AList.update type_name (handler_spec h) (specs reg)\<rparr>"

definition get_handler :: "EventRegistry \<Rightarrow> str \<Rightarrow> EventHandler option" where
  "get_handler reg type_name = map_of (handlers reg) type_name"

definition get_spec :: "EventRegistry \<Rightarrow> str \<Rightarrow> EventSpec option" where
  "get_spec reg type_name = map_of (specs reg) type_name"

definition list_events :: "EventRegistry \<Rightarrow> (str \<times> EventSpec) list" where
  "list_events reg = specs reg"

text \<open>The registrations of \<open>main\<close>, in its order.\<close>

definition daemon_registry :: EventRegistry where
  "daemon_registry = fold (\<lambda>(n, h). register (lit n) h)
     [(''turn_start'', TurnStartHandler), (''turn_end'', TurnEndHandler),
      (''snapshot_restore'', SnapshotRestoreHandler), (''session_map'', SessionMapHandler),
      (''session_close'', SessionCloseHandler), (''session_suspend'', SessionSuspendHandler),
      (''session_fork'', SessionForkHandler), (''session_fork_end'', SessionForkEndHandler),
      (''health'', HealthHandler), (''agent_event'', AgentEventHandler)] new_registry"

record EventResponse =
  ok :: bool
  type_ :: "str option"
  data :: "json option"
  error :: "str option"

definition response_ok :: "str \<Rightarrow> json \<Rightarrow> EventResponse" where
  "response_ok t d = \<lparr>ok = True, type_ = Some t, data = Some d, error = None\<rparr>"

definition response_error :: "str option \<Rightarrow> str \<Rightarrow> EventResponse" where
  "response_error t msg = \<lparr>ok = False, type_ = t, data = None, error = Some msg\<rparr>"

definition spec_json :: "EventSpec \<Rightarrow> json" where
  "spec_json sp = jobject [(lit ''description'', JString (description sp)),
     (lit ''required'', JArray (map JString (required sp))),
     (lit ''optional'', JArray (map JString (optional sp)))]"

definition events_json :: "EventRegistry \<Rightarrow> json" where
  "events_json reg = jobject [(lit ''events'',
     jobject (map (\<lambda>(n, sp). (n, spec_json sp)) (list_events reg)))]"

definition payload_type :: "json \<Rightarrow> str" where
  "payload_type payload =
     (case json_get payload (lit ''type'') of
        Some v \<Rightarrow> (case as_str v of Some s \<Rightarrow> s | None \<Rightarrow> [])
      | None \<Rightarrow> [])"

text \<open>Persistence after a successful handler: save after \<open>turn_end\<close>, drop after
  \<open>session_close\<close> unless pinned. \<open>Some e\<close> is a failed save.\<close>

definition persist_turn ::
  "daemon_env \<Rightarrow> str \<Rightarrow> AppState \<Rightarrow> SessionStoreError option \<times> AppState" where
  "persist_turn env session_id s =
     (case session_map session_id (manager s) of
        None \<Rightarrow> (None, s)
      | Some m \<Rightarrow>
          let turns = (case session_turn_count session_id (manager s) of Some t \<Rightarrow> t | None \<Rightarrow> 0)
          in case store_save (de_db env) session_id m turns (store s) of
               (Inl e, st) \<Rightarrow> (Some e, s\<lparr>store := st\<rparr>)
             | (Inr _, st) \<Rightarrow> (None, s\<lparr>store := st\<rparr>))"

definition release_row :: "daemon_env \<Rightarrow> str \<Rightarrow> AppState \<Rightarrow> AppState" where
  "release_row env session_id s =
     (if store_is_pinned (de_db env) session_id (store s) then s
      else s\<lparr>store := store_remove (de_db env) session_id (store s)\<rparr>)"

definition handle_event ::
  "daemon_env \<Rightarrow> EventRegistry \<Rightarrow> json \<Rightarrow> AppState
     \<Rightarrow> EventResponse \<times> AppState \<times> daemon_effect list" where
  "handle_event env reg payload s =
     (let type_str = payload_type payload;
          session_id = payload_session_id payload
      in if type_str = [] then
           (response_error None (lit ''missing or empty '' @ [39] @ lit ''type'' @ [39] @ lit '' field''), s, [])
         else if type_str = lit ''list_events'' then
           (response_ok (lit ''list_events'') (events_json reg), s, [])
         else case get_handler reg type_str of
           None \<Rightarrow> (response_error (Some type_str) (lit ''unknown event type''), s, [])
         | Some h \<Rightarrow>
             let missing = (case get_spec reg type_str of
                              Some sp \<Rightarrow> find (\<lambda>f. json_get payload f = None) (required sp)
                            | None \<Rightarrow> None)
             in case missing of
                  Some field \<Rightarrow>
                    (response_error (Some type_str)
                       (lit ''missing required field '' @ [39] @ field @ [39]), s, [])
                | None \<Rightarrow>
                    (case handle h env payload s of
                       (EOk d, s1, eff) \<Rightarrow>
                         let (failed, s2) =
                               (if type_str = lit ''turn_end'' \<and> session_id \<noteq> []
                                then persist_turn env session_id s1 else (None, s1))
                         in case failed of
                              Some e \<Rightarrow>
                                (response_error (Some type_str)
                                   (lit ''event completed but persistence failed: ''
                                     @ store_error_string e), s2, eff)
                            | None \<Rightarrow>
                                let s3 = (if type_str = lit ''session_close'' \<and> session_id \<noteq> []
                                          then release_row env session_id s2 else s2)
                                in (response_ok type_str d, s3, eff)
                     | (EErr e, s1, eff) \<Rightarrow> (response_error (Some type_str) e, s1, eff)))"


section \<open>Start-up\<close>

text \<open>\<open>rsplit_once(':')\<close>: the part before the last colon, if there is one.\<close>

definition before_last_colon :: "str \<Rightarrow> str option" where
  "before_last_colon s =
     (if 58 \<in> set s then Some (rev (tl (dropWhile (\<lambda>c. c \<noteq> 58) (rev s)))) else None)"

definition loopback_host :: "str \<Rightarrow> str" where
  "loopback_host addr =
     (let host = (case before_last_colon addr of Some h \<Rightarrow> h | None \<Rightarrow> addr);
          host = dropWhile (\<lambda>c. c = 91) host
      in rev (dropWhile (\<lambda>c. c = 93) (rev host)))"

definition is_loopback_listen_addr :: "str \<Rightarrow> bool" where
  "is_loopback_listen_addr addr \<longleftrightarrow>
     loopback_host addr \<in> {lit ''127.0.0.1'', lit ''localhost'', lit ''::1'', []}"

definition select_backend ::
  "(str \<Rightarrow> (str \<times> str list) list option) \<Rightarrow> http \<Rightarrow> DaemonConfig \<Rightarrow> backend \<times> str" where
  "select_backend parse send cfg =
     (if noop_backend_flag cfg then (noop_backend, lmcache_url cfg)
      else if ucm_backend_flag cfg then (ucm_backend send (ucm_url cfg), ucm_url cfg)
      else (lmcache_backend parse send (lmcache_url cfg), lmcache_url cfg))"

definition core_config :: "DaemonConfig \<Rightarrow> str \<Rightarrow> KvCacheConfig" where
  "core_config cfg b_url = \<lparr>enabled = True, debug_enabled = d_debug_enabled cfg,
     trace_events = d_trace_events cfg, debug_dir = d_debug_dir cfg, backend_url = b_url,
     turn_start_prefetch = d_turn_start_prefetch cfg\<rparr>"

definition rehydrate :: "db_env \<Rightarrow> SqliteSessionStore \<Rightarrow> KvCacheManager \<Rightarrow> KvCacheManager" where
  "rehydrate db st m =
     rebuild_refcounts (fold (\<lambda>sid m.
         case store_load db sid st of
           Some (mp, turns) \<Rightarrow> restore_session sid \<lparr>sess_map = mp, turn_count = turns\<rparr> m
         | None \<Rightarrow> m)
       (store_list_all db st) m)"

text \<open>\<open>main\<close> after the configuration is read: \<open>None\<close> is the refusal to start.\<close>

definition startup ::
  "(str \<Rightarrow> (str \<times> str list) list option) \<Rightarrow> http \<Rightarrow> db_env \<Rightarrow> DaemonConfig \<Rightarrow> SqliteSessionStore
     \<Rightarrow> (backend \<times> AppState) option" where
  "startup parse send db cfg st =
     (if \<not> is_loopback_listen_addr (listen_addr cfg) \<and> auth_token cfg = [] then None
      else
        let (be, b_url) = select_backend parse send cfg;
            m = rehydrate db st (new_manager (core_config cfg b_url))
        in Some (be, \<lparr>manager = m, store = st, relay = new_relay cfg,
             prefetch_async = turn_start_prefetch_async cfg\<rparr>))"


section \<open>Bearer tokens\<close>

text \<open>UTF-8, for the byte comparison.\<close>

definition utf8_char :: "nat \<Rightarrow> 8 word list" where
  "utf8_char c =
     (if c < 128 then [of_nat c]
      else if c < 2048 then [of_nat (192 + c div 64), of_nat (128 + c mod 64)]
      else if c < 65536 then
        [of_nat (224 + c div 4096), of_nat (128 + c div 64 mod 64), of_nat (128 + c mod 64)]
      else [of_nat (240 + c div 262144), of_nat (128 + c div 4096 mod 64),
            of_nat (128 + c div 64 mod 64), of_nat (128 + c mod 64)])"

definition utf8 :: "str \<Rightarrow> 8 word list" where
  "utf8 s = concat (map utf8_char s)"

definition constant_time_eq :: "8 word list \<Rightarrow> 8 word list \<Rightarrow> bool" where
  "constant_time_eq a b =
     (if length a \<noteq> length b then False
      else fold (\<lambda>(x, y) diff. or diff (xor x y)) (zip a b) 0 = 0)"

definition strip_prefix :: "str \<Rightarrow> str \<Rightarrow> str option" where
  "strip_prefix p s = (if starts_with s p then Some (drop (length p) s) else None)"

text \<open>\<open>require_auth\<close>: whether a request with this \<open>Authorization\<close> header is let through.\<close>

definition require_auth :: "str \<Rightarrow> str option \<Rightarrow> bool" where
  "require_auth expected header =
     (if expected \<noteq> [] then
        (case (case header of Some v \<Rightarrow> strip_prefix (lit ''Bearer '') v | None \<Rightarrow> None) of
           Some t \<Rightarrow> constant_time_eq (utf8 t) (utf8 expected)
         | None \<Rightarrow> False)
      else True)"

end
