(* ===== verification/KvDaemonInv.thy ===== *)
theory KvDaemonInv
  imports KvOps KvDaemon
begin

text \<open>
  The daemon as a state machine: what a handler does to the coordinator is at most one of the
  coordinator's operations; the states reachable from a start by events and restarts; the
  invariant of those states. The lemmas about the dispatcher that the daemon's properties share
  are here.
\<close>

section \<open>Handlers run the coordinator's operations\<close>

fun manager_effects :: "daemon_effect list \<Rightarrow> effect list" where
  "manager_effects [] = []"
| "manager_effects (Manager e # eff) = e # manager_effects eff"
| "manager_effects (_ # eff) = manager_effects eff"

lemma manager_effects_append [simp]:
  "manager_effects (a @ b) = manager_effects a @ manager_effects b"
  by (induction a rule: manager_effects.induct) auto

lemma manager_effects_map [simp]: "manager_effects (map Manager eff) = eff"
  by (induction eff) auto

lemma with_manager_simps [simp]:
  "manager (with_manager s m) = m" "store (with_manager s m) = store s"
  "relay (with_manager s m) = relay s" "prefetch_async (with_manager s m) = prefetch_async s"
  by (simp_all add: with_manager_def)

definition one_op :: "world \<Rightarrow> KvCacheManager \<Rightarrow> KvCacheManager \<Rightarrow> effect list \<Rightarrow> bool" where
  "one_op w m m' eff \<longleftrightarrow> m' = m \<and> eff = [] \<or> (\<exists>c. exec_op w c m = (m', eff))"

lemma one_op_same [simp]: "one_op w m m []"
  by (simp add: one_op_def)

lemma one_opI:
  "on_turn_start w sid m = (r, m', eff) \<Longrightarrow> one_op w m m' eff"
  "on_turn_end w sid hs ctx m = (r, m', eff) \<Longrightarrow> one_op w m m' eff"
  "on_snapshot_restore w sid hs' m = (r, m', eff) \<Longrightarrow> one_op w m m' eff"
  "on_session_close w sid m = (r, m', eff) \<Longrightarrow> one_op w m m' eff"
  "on_session_fork sid m = (r', m', eff) \<Longrightarrow> one_op w m m' eff"
  "on_session_fork_end w sid fid m = (r, m', eff) \<Longrightarrow> one_op w m m' eff"
  unfolding one_op_def by (metis exec_op.simps snd_conv)+

lemma handle_one_op:
  assumes "handle h env payload s = (r, s', eff)"
  shows "one_op (de_world env) (manager s) (manager s') (manager_effects eff)"
proof (cases h)
  case TurnStartHandler
  with assms show ?thesis
    by (auto simp: turn_start_handle_def Let_def split: if_splits sum.splits prod.splits
        intro: one_opI)
next
  case TurnEndHandler
  with assms show ?thesis
    by (auto simp: turn_end_handle_def Let_def split: if_splits option.splits sum.splits prod.splits
        intro: one_opI)
next
  case SnapshotRestoreHandler
  with assms show ?thesis
    by (auto simp: snapshot_restore_handle_def Let_def
        split: if_splits sum.splits prod.splits intro: one_opI)
next
  case SessionMapHandler
  with assms show ?thesis
    by (auto simp: session_map_handle_def Let_def split: if_splits option.splits)
next
  case SessionCloseHandler
  with assms show ?thesis
    by (auto simp: session_close_handle_def Let_def split: if_splits sum.splits prod.splits
        intro: one_opI)
next
  case SessionSuspendHandler
  with assms show ?thesis
    by (auto simp: session_suspend_handle_def Let_def split: if_splits sum.splits prod.splits
        intro: one_opI)
next
  case SessionForkHandler
  with assms show ?thesis
    by (auto simp: session_fork_handle_def Let_def split: if_splits sum.splits prod.splits
        intro: one_opI)
next
  case SessionForkEndHandler
  with assms show ?thesis
    by (auto simp: session_fork_end_handle_def Let_def split: if_splits sum.splits prod.splits
        intro: one_opI)
next
  case HealthHandler
  with assms show ?thesis by (auto simp: health_handle_def)
next
  case AgentEventHandler
  with assms show ?thesis by (auto simp: agent_event_handle_def Let_def split: if_splits)
qed

lemma persist_turn_manager [simp]: "manager (snd (persist_turn env sid s)) = manager s"
  by (simp add: persist_turn_def Let_def split: option.split sum.split prod.split)

lemma release_row_manager [simp]: "manager (release_row env sid s) = manager s"
  by (simp add: release_row_def)

lemma handle_event_one_op:
  assumes "handle_event env reg payload s = (resp, s', eff)"
  shows "one_op (de_world env) (manager s) (manager s') (manager_effects eff)"
proof -
  have p: "manager s2 = manager s1" if "persist_turn env i s1 = (f, s2)" for i s1 f s2
    using that persist_turn_manager by (metis snd_conv)
  show ?thesis
    using assms
    by (auto simp: handle_event_def Let_def p split: if_splits option.splits prod.splits
        EventResult.splits dest!: handle_one_op)
qed


section \<open>The steps of the daemon\<close>

text \<open>
  What one event can do to the state, whichever handler serves it. The persistence of a turn and
  the release of a row follow the handler within the same event.
\<close>

inductive dstep :: "daemon_env \<Rightarrow> json \<Rightarrow> AppState \<Rightarrow> AppState \<Rightarrow> bool" for env p s where
  idle: "dstep env p s s"
| turn_saved: "payload_type p = lit ''turn_end'' \<Longrightarrow> payload_session_id p = sid \<Longrightarrow>
    check_chunk_limits hs = None \<Longrightarrow>
    on_turn_end (de_world env) sid hs ctx (manager s) = (Inr out, m, eff) \<Longrightarrow>
    persist_turn env sid (with_manager s m) = (f, s') \<Longrightarrow> dstep env p s s'"
| turn_failed: "payload_type p = lit ''turn_end'' \<Longrightarrow> payload_session_id p = sid \<Longrightarrow>
    check_chunk_limits hs = None \<Longrightarrow>
    on_turn_end (de_world env) sid hs ctx (manager s) = (Inl e, m, eff) \<Longrightarrow>
    dstep env p s (with_manager s m)"
| restore: "session_map sid (manager s) = Some hs
      \<or> (\<exists>t. store_load (de_db env) sid (store s) = Some (hs, t)) \<Longrightarrow>
    on_snapshot_restore (de_world env) sid hs (manager s) = (r, m, eff) \<Longrightarrow>
    dstep env p s ((with_manager s m)\<lparr>store := store_pin_session (de_db env) sid (store s)\<rparr>)"
| close: "on_session_close (de_world env) sid (manager s) = (r, m, eff) \<Longrightarrow>
    dstep env p s (release_row env sid (with_manager s m))"
| suspend: "on_session_close (de_world env) sid (manager s) = (r, m, eff) \<Longrightarrow>
    dstep env p s (with_manager (s\<lparr>store := store_pin_session (de_db env) sid (store s)\<rparr>) m)"
| forks: "sessions m = sessions (manager s) \<Longrightarrow> dstep env p s (with_manager s m)"

lemma turn_start_keeps: "on_turn_start w sid m = (r, m', eff) \<Longrightarrow> m' = m"
  by (auto simp: on_turn_start_def Let_def split: if_splits prod.splits)

lemma fork_keeps_sessions:
  "on_session_fork sid m = (r, m', eff) \<Longrightarrow> sessions m' = sessions m"
  "on_session_fork_end w sid fid m = (r', m', eff) \<Longrightarrow> sessions m' = sessions m"
  by (auto simp: on_session_fork_def fork_register_def fork_count_def on_session_fork_end_def
      fork_end_section_def Let_def split: option.splits prod.splits)

lemma never_fails:
  "fst (on_snapshot_restore w sid hs m) \<noteq> Inl e" "fst (on_session_close w sid m) \<noteq> Inl e"
  "fst (on_session_fork_end w sid fid m) \<noteq> Inl e" "fst (on_turn_start w sid m) \<noteq> Inl e"
  by (simp_all add: on_snapshot_restore_def on_session_close_def on_session_fork_end_def
      on_turn_start_def Let_def split_beta)

lemma with_manager_id [simp]: "with_manager s (manager s) = s"
  by (simp add: with_manager_def)

lemma fork_fails_unchanged: "on_session_fork sid m = (Inl e, m', eff) \<Longrightarrow> m' = m \<and> eff = []"
  by (auto simp: on_session_fork_def split: option.splits prod.splits)

lemma parse_turn_end_session:
  "parse_turn_end payload = Some t \<Longrightarrow> payload_session_id payload = te_session_id t"
  by (auto simp: parse_turn_end_def payload_session_id_def json_index_def split: option.splits)

text \<open>The dispatcher reaches exactly the handler the event's type names.\<close>

lemma get_handler_daemon:
  "get_handler daemon_registry t = map_of
     [(lit ''turn_start'', TurnStartHandler), (lit ''turn_end'', TurnEndHandler),
      (lit ''snapshot_restore'', SnapshotRestoreHandler), (lit ''session_map'', SessionMapHandler),
      (lit ''session_close'', SessionCloseHandler), (lit ''session_suspend'', SessionSuspendHandler),
      (lit ''session_fork'', SessionForkHandler), (lit ''session_fork_end'', SessionForkEndHandler),
      (lit ''health'', HealthHandler), (lit ''agent_event'', AgentEventHandler)] t"
  by (simp add: get_handler_def daemon_registry_def register_def new_registry_def)

lemma get_spec_daemon: "get_spec daemon_registry t = map_option handler_spec (get_handler daemon_registry t)"
  by (simp add: get_handler_daemon) (simp add: get_spec_def daemon_registry_def register_def new_registry_def)

lemma spec_required [simp]:
  "required turn_end_spec = [lit ''session_id'']" "required turn_start_spec = [lit ''session_id'']"
  "required snapshot_restore_spec = [lit ''session_id'']" "required session_map_spec = [lit ''session_id'']"
  "required session_close_spec = [lit ''session_id'']" "required session_suspend_spec = [lit ''session_id'']"
  "required session_fork_spec = [lit ''session_id'']" "required session_fork_end_spec = [lit ''session_id'']"
  "required agent_event_spec = [lit ''session_id'']" "required health_spec = []"
  by (simp_all add: turn_end_spec_def turn_start_spec_def snapshot_restore_spec_def session_map_spec_def
   session_close_spec_def session_suspend_spec_def session_fork_spec_def session_fork_end_spec_def
   agent_event_spec_def health_spec_def)

lemma registry_exact:
  "get_handler daemon_registry t = Some TurnEndHandler \<longleftrightarrow> t = lit ''turn_end''"
  "get_handler daemon_registry t = Some SessionCloseHandler \<longleftrightarrow> t = lit ''session_close''"
  by (auto simp: get_handler_daemon)

text \<open>A \<open>turn_end\<close> is rejected, fails writing its debug file, or is done.\<close>

lemma turn_end_handle_result:
  assumes "turn_end_handle env payload s = (r, s1, eff)"
  obtains (rejected) e where "r = EErr e" "s1 = s" "eff = []"
  | (failed) t ctx e m eff' where "parse_turn_end payload = Some t"
    "check_chunk_limits (te_kv_params t) = None" "payload_session_id payload \<noteq> []"
    "on_turn_end (de_world env) (payload_session_id payload) (te_kv_params t) ctx (manager s)
       = (Inl e, m, eff')"
    "r = EErr (kv_error_string e)" "s1 = with_manager s m" "eff = map Manager eff'"
  | (turned) t ctx out m eff' d where "parse_turn_end payload = Some t"
    "check_chunk_limits (te_kv_params t) = None" "payload_session_id payload \<noteq> []"
    "on_turn_end (de_world env) (payload_session_id payload) (te_kv_params t) ctx (manager s)
       = (Inr out, m, eff')"
    "r = EOk d" "s1 = with_manager s m"
proof (cases "parse_turn_end payload")
  case None
  with assms rejected show ?thesis by (auto simp: turn_end_handle_def)
next
  case (Some t)
  then have sid: "te_session_id t = payload_session_id payload"
    by (simp add: parse_turn_end_session)
  let ?ctx = "debug_context_of (te_debug_context t)"
  consider "te_session_id t = []" | e where "te_session_id t \<noteq> []" "check_chunk_limits (te_kv_params t) = Some e"
    | "te_session_id t \<noteq> []" "check_chunk_limits (te_kv_params t) = None"
    by fastforce
  then show ?thesis
  proof cases
    case 1
    with assms Some rejected show ?thesis by (auto simp: turn_end_handle_def)
  next
    case 2
    with assms Some rejected show ?thesis by (auto simp: turn_end_handle_def)
  next
    case 3
    obtain q m e' where q: "on_turn_end (de_world env) (te_session_id t) (te_kv_params t) ?ctx
        (manager s) = (q, m, e')" by (rule prod_cases3)
    show ?thesis
    proof (cases q)
      case (Inl x)
      have "r = EErr (kv_error_string x)" "s1 = with_manager s m" "eff = map Manager e'"
        using assms Some 3 q Inl by (auto simp: turn_end_handle_def Let_def)
      then show ?thesis using failed [OF Some 3(2)] 3(1) q Inl sid by simp
    next
      case (Inr out)
      then obtain d where "r = EOk d" "s1 = with_manager s m"
        using assms Some 3 q by (auto simp: turn_end_handle_def Let_def)
      then show ?thesis using turned [OF Some 3(2)] 3(1) q Inr sid by simp
    qed
  qed
qed

lemma close_result:
  obtains out m' e where "on_session_close w sid m = (Inr out, m', e)"
proof -
  obtain r m' e where c: "on_session_close w sid m = (r, m', e)" by (rule prod_cases3)
  obtain out where "r = Inr out" using c never_fails(2) by (cases r) (metis fst_conv)+
  with c that show ?thesis by blast
qed

lemma restore_result:
  obtains out m' e where "on_snapshot_restore w sid hs m = (Inr out, m', e)"
proof -
  obtain r m' e where c: "on_snapshot_restore w sid hs m = (r, m', e)" by (rule prod_cases3)
  obtain out where "r = Inr out" using c never_fails(1) by (cases r) (metis fst_conv)+
  with c that show ?thesis by blast
qed

lemma session_close_handle_result:
  assumes "session_close_handle env payload s = (r, s1, eff)"
  obtains "r = EErr empty_session_error" "s1 = s" "eff = []" "payload_session_id payload = []"
  | d out m e where "r = EOk d" "s1 = with_manager s m" "payload_session_id payload \<noteq> []"
    "on_session_close (de_world env) (payload_session_id payload) (manager s) = (Inr out, m, e)"
    "eff = map Manager e"
proof (cases "payload_session_id payload = []")
  case True
  with assms that(1) show ?thesis by (simp add: session_close_handle_def Let_def)
next
  case False
  obtain out m e where c:
    "on_session_close (de_world env) (payload_session_id payload) (manager s) = (Inr out, m, e)"
    by (rule close_result)
  show ?thesis
    using assms False c by (auto simp: session_close_handle_def Let_def intro: that(2))
qed

text \<open>Where the hashes of a restore come from: the session's own map, else its row.\<close>

lemma snapshot_restore_handle_result:
  assumes "snapshot_restore_handle env payload s = (r, s1, eff)"
  obtains e where "r = EErr e" "s1 = s" "eff = []"
  | d hs out m e where "r = EOk d" "payload_session_id payload \<noteq> []" "hs \<noteq> []"
    "session_map (payload_session_id payload) (manager s) = Some hs
      \<or> (session_map (payload_session_id payload) (manager s) \<in> {None, Some []}
          \<and> (\<exists>t. store_load (de_db env) (payload_session_id payload) (store s) = Some (hs, t)))"
    "on_snapshot_restore (de_world env) (payload_session_id payload) hs (manager s) = (Inr out, m, e)"
    "s1 = (with_manager s m)\<lparr>store :=
       store_pin_session (de_db env) (payload_session_id payload) (store s)\<rparr>"
    "eff = map Manager e"
proof -
  let ?sid = "payload_session_id payload"
  have src: "hs \<noteq> [] \<and> (session_map ?sid (manager s) = Some hs
      \<or> (session_map ?sid (manager s) \<in> {None, Some []}
          \<and> (\<exists>t. store_load (de_db env) ?sid (store s) = Some (hs, t))))"
    if "restore_source env ?sid s = Inr hs" for hs
    using that by (auto simp: restore_source_def map_is_empty_def chunk_hashes_def Let_def
        split: option.splits if_splits)
  consider "?sid = []" | e where "?sid \<noteq> []" "restore_source env ?sid s = Inl e"
    | hs where "?sid \<noteq> []" "restore_source env ?sid s = Inr hs"
    by (cases "restore_source env ?sid s") auto
  then show ?thesis
  proof cases
    case (3 hs)
    obtain out m e where c: "on_snapshot_restore (de_world env) ?sid hs (manager s) = (Inr out, m, e)"
      by (rule restore_result)
    have "\<exists>d. r = EOk d" "s1 = (with_manager s m)\<lparr>store := store_pin_session (de_db env) ?sid (store s)\<rparr>"
      "eff = map Manager e"
      using assms 3 c by (auto simp: snapshot_restore_handle_def Let_def)
    with src [OF 3(2)] 3(1) c that(2) show ?thesis by blast
  qed (use assms that(1) in \<open>auto simp: snapshot_restore_handle_def Let_def\<close>)
qed

lemma other_handle_dstep:
  assumes "handle h env payload s = (r, s1, eff)" "h \<noteq> TurnEndHandler" "h \<noteq> SessionCloseHandler"
  shows "dstep env payload s s1"
proof (cases h)
  case TurnStartHandler
  with assms(1) have "s1 = s"
    by (auto simp: turn_start_handle_def Let_def dest!: turn_start_keeps
        split: if_splits sum.splits prod.splits)
  then show ?thesis by (simp add: dstep.idle)
next
  case SnapshotRestoreHandler
  with assms(1) have "snapshot_restore_handle env payload s = (r, s1, eff)" by simp
  then show ?thesis
    by (rule snapshot_restore_handle_result) (auto intro: dstep.intros)
next
  case SessionMapHandler
  with assms(1) have "s1 = s"
    by (auto simp: session_map_handle_def Let_def split: if_splits option.splits)
  then show ?thesis by (simp add: dstep.idle)
next
  case SessionSuspendHandler
  let ?sid = "payload_session_id payload"
  obtain out m e where c: "on_session_close (de_world env) ?sid (manager s) = (Inr out, m, e)"
    by (rule close_result)
  have "s1 = s \<or> s1 = with_manager (s\<lparr>store := store_pin_session (de_db env) ?sid (store s)\<rparr>) m"
    using assms(1) SessionSuspendHandler c
    by (auto simp: session_suspend_handle_def Let_def split: if_splits)
  then show ?thesis using dstep.suspend [OF c] by (auto intro: dstep.idle)
next
  case SessionForkHandler
  then obtain m where "s1 = with_manager s m" "sessions m = sessions (manager s)"
    using assms(1) with_manager_id [of s]
    by (force simp: session_fork_handle_def Let_def dest: fork_keeps_sessions
        split: if_splits sum.splits prod.splits)
  then show ?thesis by (auto intro: dstep.forks)
next
  case SessionForkEndHandler
  then obtain m where "s1 = with_manager s m" "sessions m = sessions (manager s)"
    using assms(1) with_manager_id [of s]
    by (force simp: session_fork_end_handle_def Let_def dest: fork_keeps_sessions
        split: if_splits sum.splits prod.splits)
  then show ?thesis by (auto intro: dstep.forks)
next
  case HealthHandler
  with assms(1) show ?thesis by (auto simp: health_handle_def intro: dstep.idle)
next
  case AgentEventHandler
  with assms(1) show ?thesis
    by (auto simp: agent_event_handle_def Let_def intro: dstep.idle split: if_splits)
qed (use assms in auto)

text \<open>What the dispatcher does with an event.\<close>

lemma handle_event_cases:
  assumes "handle_event env daemon_registry payload s = (resp, s', eff)"
  obtains (refused) t e where "resp = response_error t e" "s' = s" "eff = []"
  | (listing) "s' = s" "eff = []" "payload_type payload = lit ''list_events''"
  | (failed) h e where "get_handler daemon_registry (payload_type payload) = Some h"
    "handle h env payload s = (EErr e, s', eff)"
    "resp = response_error (Some (payload_type payload)) e"
  | (unsaved) d s1 e where "payload_type payload = lit ''turn_end''"
    "turn_end_handle env payload s = (EOk d, s1, eff)"
    "persist_turn env (payload_session_id payload) s1 = (Some e, s')"
    "resp = response_error (Some (lit ''turn_end''))
       (lit ''event completed but persistence failed: '' @ store_error_string e)"
  | (saved) d s1 where "payload_type payload = lit ''turn_end''"
    "turn_end_handle env payload s = (EOk d, s1, eff)"
    "persist_turn env (payload_session_id payload) s1 = (None, s')"
    "resp = response_ok (lit ''turn_end'') d"
  | (closed) d s1 where "payload_type payload = lit ''session_close''"
    "session_close_handle env payload s = (EOk d, s1, eff)"
    "s' = release_row env (payload_session_id payload) s1"
    "resp = response_ok (lit ''session_close'') d"
  | (served) h d where "get_handler daemon_registry (payload_type payload) = Some h"
    "h \<noteq> TurnEndHandler" "h \<noteq> SessionCloseHandler" "handle h env payload s = (EOk d, s', eff)"
    "resp = response_ok (payload_type payload) d"
proof -
  let ?t = "payload_type payload" and ?sid = "payload_session_id payload"
  consider "?t = []" | "?t = lit ''list_events''" | "?t \<noteq> []" "?t \<noteq> lit ''list_events''" by blast
  then show ?thesis
  proof cases
    case 1
    with assms refused show ?thesis by (auto simp: handle_event_def)
  next
    case 2
    with assms listing show ?thesis by (auto simp: handle_event_def)
  next
    case ne: 3
    show ?thesis
    proof (cases "get_handler daemon_registry ?t")
      case None
      with assms ne refused show ?thesis by (auto simp: handle_event_def)
    next
      case (Some h)
      show ?thesis
      proof (cases "case get_spec daemon_registry ?t of
          Some sp \<Rightarrow> find (\<lambda>f. json_get payload f = None) (required sp) | None \<Rightarrow> None")
        case (Some field)
        with assms ne \<open>get_handler _ _ = _\<close> refused show ?thesis by (auto simp: handle_event_def)
      next
        case None
        note ev = assms [unfolded handle_event_def Let_def] ne \<open>get_handler _ _ = _\<close> None
        obtain r s1 e1 where h: "handle h env payload s = (r, s1, e1)" by (rule prod_cases3)
        show ?thesis
        proof (cases r)
          case (EErr e)
          with ev h failed [OF \<open>get_handler _ _ = _\<close>] show ?thesis by simp
        next
          case (EOk d)
          consider "h = TurnEndHandler" "?t = lit ''turn_end''" "?t \<noteq> lit ''session_close''"
            | "h = SessionCloseHandler" "?t = lit ''session_close''" "?t \<noteq> lit ''turn_end''"
            | "h \<noteq> TurnEndHandler" "h \<noteq> SessionCloseHandler" "?t \<noteq> lit ''turn_end''"
              "?t \<noteq> lit ''session_close''"
            using registry_exact [of ?t] \<open>get_handler _ _ = _\<close> by fastforce
          then show ?thesis
          proof cases
            case 1
            then have th: "turn_end_handle env payload s = (EOk d, s1, e1)" using h EOk by simp
            then have sid: "?sid \<noteq> []" by (rule turn_end_handle_result) auto
            obtain f s2 where p: "persist_turn env ?sid s1 = (f, s2)" by (cases "persist_turn env ?sid s1")
            show ?thesis
            proof (cases f)
              case None
              with ev h EOk 1 sid p th saved [OF 1(2)] show ?thesis by simp
            next
              case (Some x)
              with ev h EOk 1 sid p th unsaved [OF 1(2)] show ?thesis by simp
            qed
          next
            case 2
            then have th: "session_close_handle env payload s = (EOk d, s1, e1)" using h EOk by simp
            then have sid: "?sid \<noteq> []" by (rule session_close_handle_result) auto
            with ev h EOk 2 th closed [OF 2(2)] show ?thesis by simp
          next
            case 3
            with ev h EOk served [OF \<open>get_handler _ _ = _\<close> 3(1,2)] show ?thesis by simp
          qed
        qed
      qed
    qed
  qed
qed

lemma handle_dstep_err:
  assumes "handle h env payload s = (EErr e, s1, eff)"
    "get_handler daemon_registry (payload_type payload) = Some h"
  shows "dstep env payload s s1"
proof (cases "h = TurnEndHandler \<or> h = SessionCloseHandler")
  case True
  then consider "turn_end_handle env payload s = (EErr e, s1, eff)" "payload_type payload = lit ''turn_end''"
    | "session_close_handle env payload s = (EErr e, s1, eff)" using assms registry_exact by auto
  then show ?thesis
  proof cases
    case 1
    then show ?thesis by (elim turn_end_handle_result) (auto intro: dstep.intros)
  next
    case 2
    then show ?thesis by (rule session_close_handle_result) (auto intro: dstep.intros)
  qed
qed (use assms other_handle_dstep in blast)

lemma handle_event_dstep:
  assumes "handle_event env daemon_registry payload s = (resp, s', eff)"
  shows "dstep env payload s s'"
  using assms
proof (cases rule: handle_event_cases)
  case (unsaved d s1 e)
  then show ?thesis by (elim turn_end_handle_result) (auto intro: dstep.turn_saved)
next
  case (saved d s1)
  then show ?thesis by (elim turn_end_handle_result) (auto intro: dstep.turn_saved)
next
  case (closed d s1)
  then show ?thesis by (elim session_close_handle_result) (auto intro: dstep.close)
qed (auto intro: dstep.idle handle_dstep_err other_handle_dstep)


section \<open>What the operations do to the sessions\<close>

lemma on_turn_end_section:
  assumes "on_turn_end w sid hs ctx m = (r, m', eff)"
  shows "m' = snd (turn_end_section sid hs m)"
proof -
  have "fst (snd (on_turn_end w sid hs ctx m)) = snd (turn_end_section sid hs m)"
    by (simp add: on_turn_end_def Let_def split_beta split: sum.split)
  with assms show ?thesis by simp
qed

lemma on_turn_end_sessions:
  assumes "on_turn_end w sid hs ctx m = (r, m', eff)"
  shows "map_of (sessions m') = (map_of (sessions m))(sid \<mapsto>
      (counted_state m sid)\<lparr>sess_map := (case hs of None \<Rightarrow> sess_map (counted_state m sid) | Some l \<Rightarrow> l)\<rparr>)"
    and "config m' = config m"
  unfolding on_turn_end_section [OF assms]
  by (cases hs; simp add: turn_end_section_Some turn_end_section_None Let_def split_beta fun_eq_iff)+

lemma on_snapshot_restore_sessions:
  assumes "on_snapshot_restore w sid hs m = (r, m', eff)"
  shows "map_of (sessions m') = (map_of (sessions m))(sid \<mapsto> \<lparr>sess_map = hs,
      turn_count = (case map_of (sessions m) sid of Some s \<Rightarrow> turn_count s | None \<Rightarrow> 0)\<rparr>)"
    and "config m' = config m"
proof -
  have "fst (snd (on_snapshot_restore w sid hs m)) = snd (restore_section sid hs m)"
    by (simp add: on_snapshot_restore_def Let_def split_beta)
  with assms have "m' = snd (restore_section sid hs m)" by simp
  then show "map_of (sessions m') = (map_of (sessions m))(sid \<mapsto> \<lparr>sess_map = hs,
      turn_count = (case map_of (sessions m) sid of Some s \<Rightarrow> turn_count s | None \<Rightarrow> 0)\<rparr>)"
    "config m' = config m"
    by (simp_all add: restore_section_def map_replace_def Let_def split_beta fun_eq_iff)
qed

lemma on_session_close_sessions:
  assumes "on_session_close w sid m = (r, m', eff)"
  shows "map_of (sessions m') = (map_of (sessions m))(sid := None)" and "config m' = config m"
proof -
  have "fst (snd (on_session_close w sid m)) = snd (close_section sid m)"
    by (simp add: on_session_close_def Let_def split_beta)
  with assms have "m' = snd (close_section sid m)" by simp
  then show "map_of (sessions m') = (map_of (sessions m))(sid := None)" "config m' = config m"
    by (auto simp: close_section_def Let_def split_beta fun_eq_iff split: option.split)
qed

lemma fork_keeps_config:
  "on_session_fork sid m = (r, m', eff) \<Longrightarrow> config m' = config m"
  "on_session_fork_end w sid fid m = (r', m', eff) \<Longrightarrow> config m' = config m"
  by (auto simp: on_session_fork_def fork_register_def fork_count_def on_session_fork_end_def
      fork_end_section_def Let_def split: option.splits prod.splits)

lemmas operation_sessions = on_turn_end_sessions on_snapshot_restore_sessions
  on_session_close_sessions fork_keeps_sessions

lemma on_turn_end_no_debug:
  "\<not> debug_enabled (config m) \<Longrightarrow> fst (on_turn_end w sid hs ctx m) \<noteq> Inl e"
  by (simp add: on_turn_end_def Let_def split_beta)

lemma map_of_counted_state:
  "sess_map (counted_state m sid) = (case session_map sid m of Some l \<Rightarrow> l | None \<Rightarrow> [])"
  by (simp add: counted_state_def session_map_def split: option.split)


section \<open>Rehydration\<close>

definition load_into :: "db_env \<Rightarrow> SqliteSessionStore \<Rightarrow> str \<Rightarrow> KvCacheManager \<Rightarrow> KvCacheManager" where
  "load_into db st sid m = (case store_load db sid st of
     Some (mp, turns) \<Rightarrow> restore_session sid \<lparr>sess_map = mp, turn_count = turns\<rparr> m
   | None \<Rightarrow> m)"

lemma load_into_fields [simp]:
  "fork_snapshots (load_into db st sid m) = fork_snapshots m" "config (load_into db st sid m) = config m"
  "keys_distinct (sessions m) \<Longrightarrow> keys_distinct (sessions (load_into db st sid m))"
  by (auto simp: load_into_def restore_session_def split: option.split)

lemma fold_load_into:
  "fork_snapshots (fold (load_into db st) sids m) = fork_snapshots m"
  "config (fold (load_into db st) sids m) = config m"
  "keys_distinct (sessions m) \<Longrightarrow> keys_distinct (sessions (fold (load_into db st) sids m))"
  by (induction sids arbitrary: m) simp_all

lemma fold_load_into_sessions:
  "map_of (sessions (fold (load_into db st) sids m)) sid =
     (if sid \<in> set sids \<and> store_load db sid st \<noteq> None
      then map_option (\<lambda>(mp, t). \<lparr>sess_map = mp, turn_count = t\<rparr>) (store_load db sid st)
      else map_of (sessions m) sid)"
  by (induction sids arbitrary: m)
     (auto simp: load_into_def restore_session_def split: option.splits)

lemma rehydrate_eq: "rehydrate db st m = rebuild_refcounts (fold (load_into db st) (store_list_all db st) m)"
proof -
  have "load_into db st = (\<lambda>sid m. case store_load db sid st of
      Some (mp, turns) \<Rightarrow> restore_session sid \<lparr>sess_map = mp, turn_count = turns\<rparr> m | None \<Rightarrow> m)"
    by (simp add: fun_eq_iff load_into_def)
  then show ?thesis by (simp add: rehydrate_def)
qed

lemma rehydrate_sessions:
  "map_of (sessions (rehydrate db st (new_manager cfg))) sid =
     (if sid \<in> set (store_list_all db st)
      then map_option (\<lambda>(mp, t). \<lparr>sess_map = mp, turn_count = t\<rparr>) (store_load db sid st) else None)"
  by (cases "store_load db sid st")
     (simp_all add: rehydrate_eq rebuild_refcounts_def fold_load_into_sessions new_manager_def)

lemma rehydrate_config: "config (rehydrate db st m) = config m"
  by (simp add: rehydrate_eq rebuild_refcounts_def fold_load_into)

lemma startup_manager:
  assumes "startup parse send db cfg st = Some (be, s)"
  obtains b_url where "manager s = rehydrate db st (new_manager (core_config cfg b_url))" "store s = st"
    "be = fst (select_backend parse send cfg)"
  using assms by (auto simp: startup_def Let_def split: if_splits prod.splits)


section \<open>Reachable states\<close>

text \<open>
  A run of the daemon: a first start on an empty database, events, restarts on the database the
  last run left. \<open>E\<close> restricts the environments (backend, database, clock) and \<open>C\<close> the
  configurations considered.
\<close>

inductive daemon_reachable :: "(daemon_env \<Rightarrow> bool) \<Rightarrow> (DaemonConfig \<Rightarrow> bool) \<Rightarrow> AppState \<Rightarrow> bool"
  for E C where
  boot: "E env \<Longrightarrow> C cfg \<Longrightarrow> startup parse send (de_db env) cfg new_store = Some (be, s) \<Longrightarrow>
    daemon_reachable E C s"
| event: "daemon_reachable E C s \<Longrightarrow> E env \<Longrightarrow>
    handle_event env daemon_registry payload s = (resp, s', eff) \<Longrightarrow> daemon_reachable E C s'"
| restart: "daemon_reachable E C s \<Longrightarrow> E env \<Longrightarrow> C cfg \<Longrightarrow>
    startup parse send (de_db env) cfg (store s) = Some (be, s') \<Longrightarrow> daemon_reachable E C s'"

definition daemon_inv :: "AppState \<Rightarrow> bool" where
  "daemon_inv s \<longleftrightarrow> kv_inv (manager s)"

lemma startup_inv:
  assumes "startup parse send db cfg st = Some (be, s)"
  shows "daemon_inv s"
proof -
  obtain b where m: "manager s = rehydrate db st (new_manager (core_config cfg b))"
    using assms by (rule startup_manager)
  show ?thesis
    unfolding daemon_inv_def m rehydrate_eq
    by (rule rebuild_kv_inv) (simp_all add: fold_load_into new_manager_def)
qed

lemma one_op_inv:
  assumes "kv_inv m" "one_op w m m' eff"
  shows "kv_inv m' \<and> released_exactly m (evicted eff) m'"
  using assms exec_op_spec [OF assms(1)] by (auto simp: one_op_def released_exactly_refl)

lemma daemon_reachable_inv: "daemon_reachable E C s \<Longrightarrow> daemon_inv s"
proof (induction rule: daemon_reachable.induct)
  case (event s env payload resp s' eff)
  then show ?case
    using one_op_inv [OF _ handle_event_one_op [OF event.hyps(3)]] by (simp add: daemon_inv_def)
qed (auto intro: startup_inv)

text \<open>Every step keeps a property of states that holds of the sessions and rows one by one.\<close>

lemma persist_turn_result:
  "persist_turn env sid s = (f, s') \<Longrightarrow> s' = s \<or> (\<exists>m t. session_map sid (manager s) = Some m
     \<and> s' = s\<lparr>store := row_put sid (to_json (de_db env) m, t) (store s)\<rparr>)"
  by (auto simp: persist_turn_def store_save_def Let_def split: option.splits)

lemma release_row_result:
  "release_row env sid s = s \<or> release_row env sid s = s\<lparr>store := row_del sid (store s)\<rparr>"
  by (simp add: release_row_def store_remove_def split: option.split)

lemma pin_session_rows [simp]: "row_get (store_pin_session db sid st) = row_get st"
  by (simp add: store_pin_session_def row_get_def pin_put_def fun_eq_iff split: option.split)

lemma session_map_cong: "sessions m = sessions m' \<Longrightarrow> session_map sid m = session_map sid m'"
  by (simp add: session_map_def)

lemma turn_end_maps:
  assumes "on_turn_end w sid hs ctx m = (r, m', eff)"
  shows "session_map sid' m' = (if sid' = sid
    then Some (case hs of Some l \<Rightarrow> l | None \<Rightarrow> (case session_map sid m of Some l \<Rightarrow> l | None \<Rightarrow> []))
    else session_map sid' m)"
  using on_turn_end_sessions(1) [OF assms]
  by (simp add: session_map_def counted_state_def split: option.split)

lemma restore_maps:
  assumes "on_snapshot_restore w sid hs m = (r, m', eff)"
  shows "session_map sid' m' = (if sid' = sid then Some hs else session_map sid' m)"
  using on_snapshot_restore_sessions(1) [OF assms] by (simp add: session_map_def)

lemma close_maps:
  assumes "on_session_close w sid m = (r, m', eff)"
  shows "session_map sid' m' = (if sid' = sid then None else session_map sid' m)"
  using on_session_close_sessions(1) [OF assms] by (simp add: session_map_def)

lemmas operation_maps = turn_end_maps restore_maps close_maps


section \<open>Limits on chunk lists\<close>

definition within_limits :: "str list \<Rightarrow> bool" where
  "within_limits hs \<longleftrightarrow> length hs \<le> 4096 \<and> (\<forall>h \<in> set hs. byte_len h \<le> 100)"

lemma find_long_None: "find_long i hs = None \<longleftrightarrow> (\<forall>h \<in> set hs. byte_len h \<le> MAX_CHUNK_HASH_LEN)"
  by (induction i hs rule: find_long.induct) auto

lemma check_chunk_limits_iff: "check_chunk_limits (Some hs) = None \<longleftrightarrow> within_limits hs"
  using find_long_None [of 0 hs]
  by (cases "find_long 0 hs")
     (auto simp: check_chunk_limits_def within_limits_def MAX_CHUNK_COUNT_def MAX_CHUNK_HASH_LEN_def)

lemma within_limits_Nil [simp]: "within_limits []"
  by (simp add: within_limits_def)

end
