(* ===== verification/KvSample.thy ===== *)
theory KvSample
  imports KvDaemonInv
begin

text \<open>
  Concrete daemon runs for the instances of the properties: a database that serializes by
  \<open>frame\<close>, an accepting backend, events built as a client builds them, and the rewrite rules
  that evaluate the dispatcher on them.
\<close>

definition ok_env :: daemon_env where
  "ok_env = \<lparr>de_world = ok_world, de_db = framed_db, serde_error = (\<lambda>_. [])\<rparr>"

definition no_http :: http where
  "no_http r = None"

definition noop_config :: DaemonConfig where
  "noop_config = default_DaemonConfig\<lparr>noop_backend_flag := True\<rparr>"

definition booted :: AppState where
  "booted = snd (the (startup (\<lambda>_. None) no_http framed_db noop_config new_store))"

definition event_json :: "string \<Rightarrow> string \<Rightarrow> (str \<times> json) list \<Rightarrow> json" where
  "event_json t sid kvs = jobject ([(lit ''type'', JString (lit t)),
     (lit ''session_id'', JString (lit sid))] @ kvs)"

definition turn_json :: "string \<Rightarrow> string list \<Rightarrow> json" where
  "turn_json sid hs = event_json ''turn_end'' sid [(lit ''kv_transfer_params'',
     jobject [(lit ''chunk_hashes'', JArray (map (JString \<circ> lit) hs))])]"

definition after :: "json \<Rightarrow> AppState \<Rightarrow> AppState" where
  "after payload s = fst (snd (handle_event ok_env daemon_registry payload s))"

lemma startup_booted: "startup (\<lambda>_. None) no_http framed_db noop_config new_store
    = Some (noop_backend, booted)"
  by (simp add: booted_def startup_def is_loopback_listen_addr_def select_backend_def noop_config_def
      default_DaemonConfig_def loopback_host_def before_last_colon_def Let_def lit_def)

lemma booted_eval: "booted = \<lparr>manager = new_manager (core_config noop_config (lmcache_url noop_config)),
    store = new_store, relay = None, prefetch_async = False\<rparr>"
  by (simp add: booted_def startup_def is_loopback_listen_addr_def select_backend_def noop_config_def
      default_DaemonConfig_def loopback_host_def before_last_colon_def Let_def lit_def rehydrate_def
      store_list_all_def framed_db_def new_store_def rebuild_refcounts_def new_manager_def new_relay_def)

lemma reachable_booted: "E ok_env \<Longrightarrow> C noop_config \<Longrightarrow> daemon_reachable E C booted"
  using startup_booted by (auto intro!: daemon_reachable.boot [of E ok_env C noop_config] simp: ok_env_def)

lemma reachable_after: "daemon_reachable E C s \<Longrightarrow> E ok_env \<Longrightarrow> daemon_reachable E C (after p s)"
  unfolding after_def by (metis daemon_reachable.event prod.collapse)

section \<open>Evaluation of events\<close>

lemma strings_of_lits [simp]: "strings_of (map (JString \<circ> f) hs) = Some (map f hs)"
  by (induction hs) simp_all

lemma jobject_neq_null [simp]: "jobject kvs \<noteq> JNull" "JNull \<noteq> jobject kvs" by (simp_all add: jobject_def)

lemma parse_kv_params_jobject [simp]:
  "parse_kv_params (jobject [(lit ''chunk_hashes'', v)]) = parse_chunk_hashes v"
  by (simp add: parse_kv_params_def jobject_def map_of_obj_of)

lemma parse_turn_json: "parse_turn_end (turn_json sid hs) = Some \<lparr>te_session_id = lit sid, te_kv_params = Some (map lit hs),
   te_debug_context = None, te_capture = None\<rparr>"
  by (simp add: parse_turn_end_def turn_json_def event_json_def json_simps parse_opt_def parse_chunk_hashes_def)

lemma event_fields [simp]: "payload_type (event_json t sid kvs) = (case map_of (rev kvs) (lit ''type'') of Some v \<Rightarrow> (case as_str v of Some s \<Rightarrow> s | None \<Rightarrow> []) | None \<Rightarrow> lit t)"
 "payload_session_id (event_json t sid kvs) = (case map_of (rev kvs) (lit ''session_id'') of Some v \<Rightarrow> (case as_str v of Some s \<Rightarrow> s | None \<Rightarrow> []) | None \<Rightarrow> lit sid)"
 "json_get (event_json t sid []) (lit ''session_id'') = Some (JString (lit sid))"
  by (simp_all add: event_json_def payload_type_def payload_session_id_def json_index_def json_simps map_add_def split: option.split)
lemma turn_fields [simp]: "payload_type (turn_json sid hs) = lit ''turn_end''" "payload_session_id (turn_json sid hs) = lit sid"
  "json_get (turn_json sid hs) (lit ''session_id'') = Some (JString (lit sid))"
  by (simp_all add: turn_json_def) (simp add: event_json_def json_simps)

lemma byte_len_lit: "byte_len (lit s) \<le> 2 * length s"
proof (induction s)
  case (Cons c s)
  have "utf8_len (of_char c) \<le> 2"
  proof -
    have "(of_char c :: nat) < 2048" using nat_of_char_less_256 [of c] by linarith
    then show ?thesis by (simp add: utf8_len_def)
  qed
  with Cons show ?case by (simp add: lit_def)
qed (simp add: lit_def)

lemma byte_len_lit_small [simp]: "length s \<le> 50 \<Longrightarrow> byte_len (lit s) \<le> 100"
  using byte_len_lit [of s] by simp

lemma within_limits_ok [simp]: "within_limits hs \<Longrightarrow> check_chunk_limits (Some hs) = None"
  by (simp add: check_chunk_limits_iff)

lemmas event_eval = handle_event_def get_spec_daemon get_handler_daemon turn_end_handle_def
  parse_turn_json debug_context_of_def
  within_limits_def persist_turn_def store_save_def session_map_def session_turn_count_def row_put_def
  session_close_handle_def session_suspend_handle_def snapshot_restore_handle_def restore_source_def map_is_empty_def
  release_row_def store_remove_def row_del_def store_is_pinned_def pin_get_def store_load_def row_get_def
  store_pin_session_def pin_put_def with_manager_def ok_env_def framed_db_def
  core_config_def noop_config_def default_DaemonConfig_def new_store_def
text \<open>A run with two sessions that share a chunk, for concrete instances.\<close>

definition two_sessions :: AppState where
  "two_sessions = after (turn_json ''b'' [''Y'', ''Z'']) (after (turn_json ''a'' [''X'', ''Y'']) booted)"

lemma reachable_two_sessions: "E ok_env \<Longrightarrow> C noop_config \<Longrightarrow> daemon_reachable E C two_sessions"
  unfolding two_sessions_def by (intro reachable_after reachable_booted)

lemma two_sessions_eval:
  "two_sessions = booted\<lparr>manager := (manager booted)\<lparr>sessions :=
       [(lit ''a'', \<lparr>sess_map = [lit ''X'', lit ''Y''], turn_count = 1\<rparr>),
        (lit ''b'', \<lparr>sess_map = [lit ''Y'', lit ''Z''], turn_count = 1\<rparr>)],
       refcounts := [(lit ''X'', 1), (lit ''Y'', 2), (lit ''Z'', 1)]\<rparr>,
     store := \<lparr>session_rows = [(lit ''a'', (frame [lit ''X'', lit ''Y''], 1)),
         (lit ''b'', (frame [lit ''Y'', lit ''Z''], 1))], pin_rows = []\<rparr>\<rparr>"
  by (simp add: two_sessions_def after_def booted_eval event_eval run_eval)

end
