(* ===== verification/KvDaemonProps.thy ===== *)
theory KvDaemonProps
  imports KvSample
begin

text \<open>
  The properties of the daemon: the accounting invariant and exact evictions over whole runs with
  restarts, the limits on stored chunk lists, durability of a turn and of a suspended session,
  rejected events without effect, authentication and the refusal of an open, unauthenticated
  listener; and the points where the code and its comments part.
\<close>

section \<open>Accounting over runs and restarts\<close>

text \<open>C3: Over any run of the daemon, with any backend and database answers and any number of
  restarts, the reference count of every chunk hash is its number of holders, and an event sends
  to the backend's \<open>evict\<close> exactly the hashes that lose their last holder by it, each once.\<close>

theorem daemon_accounting:
  assumes "daemon_reachable E C s" and "handle_event env daemon_registry payload s = (resp, s', eff)"
  shows "rc_count (refcounts (manager s)) h = holders (manager s) h
    \<and> rc_count (refcounts (manager s')) h = holders (manager s') h
    \<and> distinct (evicted (manager_effects eff))
    \<and> (h \<in> set (evicted (manager_effects eff))
        \<longleftrightarrow> 0 < holders (manager s) h \<and> holders (manager s') h = 0)"
proof -
  have inv: "kv_inv (manager s)" using daemon_reachable_inv [OF assms(1)] by (simp add: daemon_inv_def)
  from one_op_inv [OF inv handle_event_one_op [OF assms(2)]] inv show ?thesis
    by (simp add: kv_inv_def released_exactly_def)
qed

theorem daemon_accounting_witness:
  "evicted (manager_effects (snd (snd (handle_event ok_env daemon_registry
      (event_json ''session_close'' ''a'' []) two_sessions)))) = [lit ''X'']
   \<and> 0 < holders (manager two_sessions) (lit ''X'')
   \<and> 0 < holders (manager (after (event_json ''session_close'' ''a'' []) two_sessions)) (lit ''Y'')"
proof -
  let ?p = "event_json ''session_close'' ''a'' []"
  obtain resp s' eff where e: "handle_event ok_env daemon_registry ?p two_sessions = (resp, s', eff)"
    by (rule prod_cases3)
  have r: "daemon_reachable (\<lambda>_. True) (\<lambda>_. True) two_sessions"
    by (rule reachable_two_sessions) simp_all
  have ev: "evicted (manager_effects (snd (snd (handle_event ok_env daemon_registry ?p two_sessions))))
      = [lit ''X'']" by (simp add: two_sessions_eval booted_eval event_eval run_eval)
  have hold: "0 < holders (manager two_sessions) (lit ''Y'')"
    by (simp add: two_sessions_eval holders_def)
  have "0 < holders (manager two_sessions) (lit ''X'')"
    using daemon_accounting [OF r e, of "lit ''X''"] ev e by simp
  moreover have "0 < holders (manager s') (lit ''Y'')"
    using daemon_accounting [OF r e, of "lit ''Y''"] ev e hold by simp
  ultimately show ?thesis using ev e by (simp add: after_def)
qed


section \<open>Limits on chunk lists\<close>

text \<open>The serialization the database environments of a run share.\<close>

definition codec :: "(str list \<Rightarrow> str) \<Rightarrow> (str \<Rightarrow> str list option) \<Rightarrow> daemon_env \<Rightarrow> bool" where
  "codec enc dec env \<longleftrightarrow> to_json (de_db env) = enc \<and> from_json (de_db env) = dec"

definition limits_inv :: "(str \<Rightarrow> str list option) \<Rightarrow> AppState \<Rightarrow> bool" where
  "limits_inv dec s \<longleftrightarrow>
     (\<forall>sid hs. session_map sid (manager s) = Some hs \<longrightarrow> within_limits hs)
   \<and> (\<forall>sid j t hs. row_get (store s) sid = Some (j, t) \<longrightarrow> dec j = Some hs \<longrightarrow> within_limits hs)"

lemma limits_invI:
  "(\<And>sid hs. session_map sid (manager s) = Some hs \<Longrightarrow> within_limits hs) \<Longrightarrow>
   (\<And>sid j t hs. row_get (store s) sid = Some (j, t) \<Longrightarrow> dec j = Some hs \<Longrightarrow> within_limits hs) \<Longrightarrow>
   limits_inv dec s"
  by (simp add: limits_inv_def)

lemma limits_invD:
  "limits_inv dec s \<Longrightarrow> session_map sid (manager s) = Some hs \<Longrightarrow> within_limits hs"
  "limits_inv dec s \<Longrightarrow> row_get (store s) sid = Some (j, t) \<Longrightarrow> dec j = Some hs \<Longrightarrow> within_limits hs"
  unfolding limits_inv_def by blast+

lemma store_load_row:
  "codec enc dec env \<Longrightarrow> store_load (de_db env) sid st = Some (hs, t) \<Longrightarrow>
   \<exists>j. row_get st sid = Some (j, t) \<and> dec j = Some hs"
  by (auto simp: codec_def store_load_def split: option.splits)

lemma limits_release: "limits_inv dec s \<Longrightarrow> limits_inv dec (release_row env sid s)"
  using release_row_result [of env sid s]
  by (auto simp: store.get_del intro!: limits_invI dest: limits_invD split: if_splits)

lemma dstep_limits:
  assumes "dstep env p s s'" "codec enc dec env" "\<forall>m. dec (enc m) = Some m" "limits_inv dec s"
  shows "limits_inv dec s'"
  using assms(1)
proof cases
  case (turn_saved sid hs ctx out m eff f)
  have lim: "limits_inv dec (with_manager s m)"
    using turn_saved(3) limits_invD [OF assms(4)]
    by (intro limits_invI) (auto simp: turn_end_maps [OF turn_saved(4)] check_chunk_limits_iff
        split: option.splits if_splits)
  from persist_turn_result [OF turn_saved(5)] show ?thesis
    using assms(2,3) limits_invD [OF lim]
    by (auto simp: codec_def store.get_put intro!: limits_invI split: if_splits)
next
  case (turn_failed sid hs ctx e m eff)
  then show ?thesis
    using limits_invD [OF assms(4)]
    by (auto simp: turn_end_maps [OF turn_failed(5)] check_chunk_limits_iff intro!: limits_invI
        split: option.splits if_splits)
next
  case (restore sid hs r m eff)
  have "within_limits hs"
    using restore(2) limits_invD [OF assms(4)] store_load_row [OF assms(2)] by blast
  then show ?thesis
    using restore(1) limits_invD [OF assms(4)]
    by (auto simp: restore_maps [OF restore(3)] intro!: limits_invI split: if_splits)
next
  case (close sid r m eff)
  then show ?thesis
    using limits_invD [OF assms(4)]
    by (auto simp: close_maps [OF close(2)] intro!: limits_release limits_invI split: if_splits)
next
  case (suspend sid r m eff)
  then show ?thesis
    using limits_invD [OF assms(4)]
    by (auto simp: close_maps [OF suspend(2)] intro!: limits_invI split: if_splits)
next
  case (forks m)
  then show ?thesis
    using limits_invD [OF assms(4)] session_map_cong [OF forks(2)] by (auto intro!: limits_invI)
qed (use assms in simp)

lemma rehydrate_map:
  "session_map sid (rehydrate db st (new_manager cfg)) = Some hs \<Longrightarrow>
   \<exists>t. store_load db sid st = Some (hs, t)"
  by (auto simp: session_map_def rehydrate_sessions split: if_splits)

lemma startup_limits:
  assumes "startup parse send (de_db env) cfg st = Some (be, s)" "codec enc dec env"
    "\<forall>sid j t hs. row_get st sid = Some (j, t) \<longrightarrow> dec j = Some hs \<longrightarrow> within_limits hs"
  shows "limits_inv dec s"
proof -
  obtain b where m: "manager s = rehydrate (de_db env) st (new_manager (core_config cfg b))"
    and st: "store s = st" using assms(1) by (rule startup_manager)
  show ?thesis
    using assms(3) rehydrate_map store_load_row [OF assms(2)]
    by (intro limits_invI) (unfold m st, blast+)
qed

lemma daemon_limits:
  assumes "daemon_reachable E C s" "\<forall>env. E env \<longrightarrow> codec enc dec env" "\<forall>m. dec (enc m) = Some m"
  shows "limits_inv dec s"
  using assms(1)
proof (induction rule: daemon_reachable.induct)
  case (boot env cfg parse send be s)
  then show ?case
    using assms(2) by (intro startup_limits) (auto simp: row_get_def new_store_def)
next
  case (event s env payload resp s' eff)
  then show ?case using dstep_limits [OF handle_event_dstep] assms(2,3) by blast
next
  case (restart s env cfg parse send be s')
  then show ?case using assms(2) limits_invD(2) [OF restart.IH] by (intro startup_limits) blast+
qed

text \<open>However events and restarts are interleaved, no session ever holds, in memory or in the
  database, more than 4096 chunk hashes or a hash of more than 100 bytes, provided the database's
  text of a map reads back as that map.\<close>

theorem chunk_limits_invariant:
  assumes "daemon_reachable E C s" and "\<forall>env. E env \<longrightarrow> codec enc dec env"
    and "\<forall>m. dec (enc m) = Some m"
    and "session_map sid (manager s) = Some hs
      \<or> row_get (store s) sid = Some (j, t) \<and> dec j = Some hs"
  shows "length hs \<le> 4096 \<and> (\<forall>h \<in> set hs. byte_len h \<le> 100)"
  using limits_invD [OF daemon_limits [OF assms(1-3)]] assms(4) unfolding within_limits_def by blast

lemma codec_ok_env: "codec frame (\<lambda>s. unframe (length s) s) ok_env"
  by (simp add: codec_def ok_env_def framed_db_def)

theorem chunk_limits_invariant_witness:
  "session_map (lit ''a'') (manager two_sessions) = Some [lit ''X'', lit ''Y'']
   \<and> length [lit ''X'', lit ''Y''] \<le> 4096"
proof -
  have m: "session_map (lit ''a'') (manager two_sessions) = Some [lit ''X'', lit ''Y'']"
    by (simp add: two_sessions_eval session_map_def)
  have r: "daemon_reachable (\<lambda>env. env = ok_env) (\<lambda>_. True) two_sessions"
    by (rule reachable_two_sessions) simp_all
  show ?thesis
    using chunk_limits_invariant [OF r, of frame "\<lambda>s. unframe (length s) s" "lit ''a''"
        "[lit ''X'', lit ''Y'']"] m codec_ok_env
    by (auto simp: unframe_frame)
qed


section \<open>Durability\<close>

text \<open>A database in which no statement fails, with a serialization that reads back.\<close>

definition reliable :: "(str list \<Rightarrow> str) \<Rightarrow> (str \<Rightarrow> str list option) \<Rightarrow> daemon_env \<Rightarrow> bool" where
  "reliable enc dec env \<longleftrightarrow> codec enc dec env \<and> (\<forall>c. sql_error (de_db env) c = None)"

definition on_disk :: "(str \<Rightarrow> str list option) \<Rightarrow> AppState \<Rightarrow> bool" where
  "on_disk dec s \<longleftrightarrow> (\<forall>sid hs. session_map sid (manager s) = Some hs \<longrightarrow>
     (\<exists>j t. row_get (store s) sid = Some (j, t) \<and> dec j = Some hs))"

lemma on_diskI:
  "(\<And>sid hs. session_map sid (manager s) = Some hs \<Longrightarrow>
     \<exists>j t. row_get (store s) sid = Some (j, t) \<and> dec j = Some hs) \<Longrightarrow> on_disk dec s"
  by (simp add: on_disk_def)

lemma on_diskD:
  "on_disk dec s \<Longrightarrow> session_map sid (manager s) = Some hs \<Longrightarrow>
   \<exists>j t. row_get (store s) sid = Some (j, t) \<and> dec j = Some hs"
  by (simp add: on_disk_def)

lemma persist_turn_saves:
  assumes "sql_error (de_db env) SqlSave = None" "session_map sid (manager s) = Some hs"
    "session_turn_count sid (manager s) = Some t"
  shows "persist_turn env sid s
    = (None, s\<lparr>store := row_put sid (to_json (de_db env) hs, t) (store s)\<rparr>)"
  using assms by (simp add: persist_turn_def store_save_def)

lemma turn_count_of_map:
  "session_map sid m = Some hs \<Longrightarrow> \<exists>t. session_turn_count sid m = Some t"
  by (auto simp: session_map_def session_turn_count_def)

lemma snd_eqD: "snd p = q \<Longrightarrow> \<exists>r. p = (r, q)"
  by (cases p) simp

lemma one_op_config: "one_op w m m' eff \<Longrightarrow> config m' = config m"
  unfolding one_op_def
proof (elim disjE exE)
  fix c
  assume "exec_op w c m = (m', eff)"
  then show "config m' = config m"
    by (cases c) (auto simp: exec_op.simps dest!: snd_eqD dest: turn_start_keeps
      on_turn_end_sessions(2) on_snapshot_restore_sessions(2) on_session_close_sessions(2)
      fork_keeps_config)
qed simp

lemma dstep_on_disk:
  assumes "dstep env p s s'" "reliable enc dec env" "\<forall>m. dec (enc m) = Some m"
    "\<not> debug_enabled (config (manager s))" "on_disk dec s"
  shows "on_disk dec s'"
  using assms(1)
proof cases
  case (turn_saved sid hs ctx out m eff f)
  obtain l t where l: "session_map sid m = Some l" "session_turn_count sid m = Some t"
    using turn_end_maps [OF turn_saved(4), of sid] turn_count_of_map by fastforce
  have "s' = (with_manager s m)\<lparr>store := row_put sid (enc l, t) (store s)\<rparr>"
    using persist_turn_saves [of env sid "with_manager s m" l t] l turn_saved(5) assms(2)
    by (simp add: reliable_def codec_def)
  then show ?thesis
    using assms(3) l on_diskD [OF assms(5)] turn_end_maps [OF turn_saved(4)]
    by (auto simp: store.get_put intro!: on_diskI)
next
  case (turn_failed sid hs ctx e m eff)
  then show ?thesis
    using on_turn_end_no_debug [OF assms(4), of "de_world env" sid hs ctx e] by (metis fst_conv)
next
  case (restore sid hs r m eff)
  have "\<exists>j t. row_get (store s) sid = Some (j, t) \<and> dec j = Some hs"
    using restore(2) on_diskD [OF assms(5)] store_load_row assms(2) unfolding reliable_def by blast
  then show ?thesis
    using restore(1) on_diskD [OF assms(5)]
    by (auto simp: restore_maps [OF restore(3)] intro!: on_diskI split: if_splits)
next
  case (close sid r m eff)
  then show ?thesis
    using on_diskD [OF assms(5)] release_row_result [of env sid "with_manager s m"]
    by (auto simp: close_maps [OF close(2)] store.get_del intro!: on_diskI split: if_splits)
next
  case (suspend sid r m eff)
  then show ?thesis
    using on_diskD [OF assms(5)]
    by (auto simp: close_maps [OF suspend(2)] intro!: on_diskI split: if_splits)
next
  case (forks m)
  then show ?thesis
    using on_diskD [OF assms(5)] session_map_cong [OF forks(2)] by (auto intro!: on_diskI)
qed (use assms in simp)

lemma startup_on_disk:
  assumes "startup parse send (de_db env) cfg st = Some (be, s)" "codec enc dec env"
  shows "on_disk dec s" "debug_enabled (config (manager s)) = d_debug_enabled cfg"
proof -
  obtain b where m: "manager s = rehydrate (de_db env) st (new_manager (core_config cfg b))"
    and st: "store s = st" using assms(1) by (rule startup_manager)
  show "on_disk dec s"
    using rehydrate_map store_load_row [OF assms(2)] by (intro on_diskI) (unfold m st, blast)
  show "debug_enabled (config (manager s)) = d_debug_enabled cfg"
    by (simp add: m rehydrate_config new_manager_def core_config_def)
qed

lemma daemon_on_disk:
  assumes "daemon_reachable E C s" "\<forall>env. E env \<longrightarrow> reliable enc dec env"
    "\<forall>cfg. C cfg \<longrightarrow> \<not> d_debug_enabled cfg" "\<forall>m. dec (enc m) = Some m"
  shows "on_disk dec s \<and> \<not> debug_enabled (config (manager s))"
  using assms(1)
proof (induction rule: daemon_reachable.induct)
  case (boot env cfg parse send be s)
  then have "codec enc dec env" using assms(2) by (auto simp: reliable_def)
  from startup_on_disk [OF boot.hyps(3) this] show ?case using assms(3) boot.hyps by auto
next
  case (event s env payload resp s' eff)
  have "config (manager s') = config (manager s)"
    using one_op_config [OF handle_event_one_op [OF event.hyps(3)]] .
  then show ?case
    using dstep_on_disk [OF handle_event_dstep [OF event.hyps(3)] _ assms(4)] event assms(2) by auto
next
  case (restart s env cfg parse send be s')
  then have "codec enc dec env" using assms(2) by (auto simp: reliable_def)
  from startup_on_disk [OF restart.hyps(4) this] show ?case using assms(3) restart.hyps by auto
qed

lemma reliable_load:
  "reliable enc dec env \<Longrightarrow> row_get st sid = Some (j, t) \<Longrightarrow> dec j = Some hs \<Longrightarrow>
   store_load (de_db env) sid st = Some (hs, t) \<and> sid \<in> set (store_list_all (de_db env) st)"
  unfolding reliable_def codec_def
  by (auto simp: store_load_def store_list_all_def row_get_def dest!: map_of_SomeD intro: rev_image_eqI)

text \<open>C5: A restart loses no session. With a database that does not fail and debug files off,
  whatever events and restarts came before, every session of the stopped daemon comes back after
  the next start with exactly the chunk list it had.\<close>

theorem restart_keeps_sessions:
  assumes "daemon_reachable E C s" and "\<forall>env. E env \<longrightarrow> reliable enc dec env"
    and "\<forall>cfg. C cfg \<longrightarrow> \<not> d_debug_enabled cfg" and "\<forall>m. dec (enc m) = Some m"
    and "E env" and "startup parse send (de_db env) cfg (store s) = Some (be, s')"
    and "session_map sid (manager s) = Some hs"
  shows "session_map sid (manager s') = Some hs"
proof -
  obtain j t where "row_get (store s) sid = Some (j, t)" "dec j = Some hs"
    using daemon_on_disk [OF assms(1-4)] on_diskD assms(7) by blast
  then have l: "store_load (de_db env) sid (store s) = Some (hs, t)"
    "sid \<in> set (store_list_all (de_db env) (store s))"
    using assms(2,5) reliable_load [of enc dec env "store s" sid j t hs] by auto
  obtain b where "manager s' = rehydrate (de_db env) (store s) (new_manager (core_config cfg b))"
    using assms(6) by (rule startup_manager)
  with l show ?thesis by (simp add: session_map_def rehydrate_sessions)
qed

lemma reliable_ok_env: "reliable frame (\<lambda>s. unframe (length s) s) ok_env"
  using codec_ok_env by (simp add: reliable_def ok_env_def framed_db_def)

lemma no_debug_noop: "\<not> d_debug_enabled noop_config"
  by (simp add: noop_config_def default_DaemonConfig_def)

lemma startup_again: "\<exists>s'. startup (\<lambda>_. None) no_http framed_db noop_config st = Some (noop_backend, s')"
  using startup_booted by (auto simp: startup_def select_backend_def noop_config_def Let_def split: if_splits)

theorem restart_keeps_sessions_witness:
  "\<exists>s'. startup (\<lambda>_. None) no_http (de_db ok_env) noop_config (store two_sessions) = Some (noop_backend, s')
     \<and> session_map (lit ''b'') (manager s') = Some [lit ''Y'', lit ''Z'']"
proof -
  let ?E = "\<lambda>env. env = ok_env" and ?C = "\<lambda>cfg. cfg = noop_config"
  have r: "daemon_reachable ?E ?C two_sessions" by (rule reachable_two_sessions) simp_all
  obtain s' where s': "startup (\<lambda>_. None) no_http (de_db ok_env) noop_config (store two_sessions)
      = Some (noop_backend, s')"
    using startup_again by (auto simp: ok_env_def)
  have m: "session_map (lit ''b'') (manager two_sessions) = Some [lit ''Y'', lit ''Z'']"
    by (simp add: two_sessions_eval session_map_def)
  have "session_map (lit ''b'') (manager s') = Some [lit ''Y'', lit ''Z'']"
    using restart_keeps_sessions [OF r _ _ _ _ s' m, of frame "\<lambda>s. unframe (length s) s"]
      reliable_ok_env no_debug_noop by (simp add: unframe_frame)
  with s' show ?thesis by blast
qed


text \<open>An acknowledged turn is durable. When a \<open>turn_end\<close> is answered ok and the database
  does not fail, the session in memory holds the list of the event (or its former list if the
  event had none) and one more turn, and the session's row holds exactly the same list and turn
  count.\<close>

theorem turn_end_durable:
  assumes "handle_event env daemon_registry payload s = (resp, s', eff)"
    and "payload_type payload = lit ''turn_end''" and "ok resp" and "db_healthy (de_db env)"
    and "parse_turn_end payload = Some t"
  shows "(let sid = te_session_id t;
       hs = (case te_kv_params t of Some l \<Rightarrow> l
             | None \<Rightarrow> (case session_map sid (manager s) of Some l \<Rightarrow> l | None \<Rightarrow> []));
       n = (case session_turn_count sid (manager s) of Some k \<Rightarrow> k + 1 | None \<Rightarrow> 1)
     in session_map sid (manager s') = Some hs \<and> session_turn_count sid (manager s') = Some n
      \<and> store_load (de_db env) sid (store s') = Some (hs, n))"
proof -
  let ?sid = "te_session_id t"
  have sid: "payload_session_id payload = ?sid" using assms(5) by (rule parse_turn_end_session)
  obtain d s1 where th: "turn_end_handle env payload s = (EOk d, s1, eff)"
    and pt: "persist_turn env ?sid s1 = (None, s')"
    using assms(1)
    by (cases rule: handle_event_cases)
       (use assms(2,3) sid in \<open>auto simp: response_error_def response_ok_def get_handler_daemon\<close>)
  obtain ctx out m e where te: "on_turn_end (de_world env) ?sid (te_kv_params t) ctx (manager s)
      = (Inr out, m, e)" and s1: "s1 = with_manager s m"
    using th sid assms(5) by (elim turn_end_handle_result) auto
  note after = on_turn_end_sessions(1) [OF te]
  obtain hs where hs: "session_map ?sid m = Some hs" using turn_end_maps [OF te] by simp
  then obtain n where n: "session_turn_count ?sid m = Some n" using turn_count_of_map by blast
  have s': "s' = s1\<lparr>store := row_put ?sid (to_json (de_db env) hs, n) (store s1)\<rparr>"
    using persist_turn_saves [of env ?sid s1 hs n] pt hs n s1 assms(4) by (simp add: db_healthy_def)
  have load: "store_load (de_db env) ?sid (store s') = Some (hs, n)"
    using assms(4) by (simp add: s' store_load_def db_healthy_def store.get_put)
  have "hs = (case te_kv_params t of Some l \<Rightarrow> l
      | None \<Rightarrow> (case session_map ?sid (manager s) of Some l \<Rightarrow> l | None \<Rightarrow> []))"
    using hs turn_end_maps [OF te] by simp
  moreover have "n = (case session_turn_count ?sid (manager s) of Some k \<Rightarrow> k + 1 | None \<Rightarrow> 1)"
    using n after by (simp add: session_turn_count_def counted_state_def split: option.splits)
  ultimately show ?thesis using load hs n by (simp add: s' s1 Let_def)
qed

theorem turn_end_durable_witness:
  "store_load framed_db (lit ''a'') (store (after (turn_json ''a'' [''X'', ''X'']) two_sessions))
     = Some ([lit ''X'', lit ''X''], 2)"
proof -
  let ?p = "turn_json ''a'' [''X'', ''X'']"
  obtain resp s' eff where e: "handle_event ok_env daemon_registry ?p two_sessions = (resp, s', eff)"
    by (rule prod_cases3)
  have db: "de_db ok_env = framed_db" by (simp add: ok_env_def)
  have count: "session_turn_count (lit ''a'') (manager two_sessions) = Some 1"
    by (simp add: two_sessions_eval session_turn_count_def)
  have ok: "ok (fst (handle_event ok_env daemon_registry ?p two_sessions))"
    by (simp add: two_sessions_eval booted_eval event_eval run_eval response_ok_def)
  show ?thesis
    using turn_end_durable [OF e, of "\<lparr>te_session_id = lit ''a'', te_kv_params = Some [lit ''X'', lit ''X''],
        te_debug_context = None, te_capture = None\<rparr>"] e ok framed_db_healthy count
    by (simp add: parse_turn_json after_def db Let_def)
qed


section \<open>Rejected events\<close>

lemma handle_err_unchanged:
  assumes "handle h env payload s = (EErr e, s', eff)" "h \<noteq> TurnEndHandler"
  shows "s' = s \<and> eff = []"
proof (cases h)
  case TurnStartHandler
  with assms(1) show ?thesis
    using never_fails(4) [of "de_world env" "payload_session_id payload" "manager s"]
    by (auto simp: turn_start_handle_def Let_def split: if_splits sum.splits prod.splits)
next
  case SnapshotRestoreHandler
  then have "snapshot_restore_handle env payload s = (EErr e, s', eff)" using assms(1) by simp
  then show ?thesis by (elim snapshot_restore_handle_result) auto
next
  case SessionMapHandler
  with assms(1) show ?thesis by (auto simp: session_map_handle_def Let_def split: if_splits option.splits)
next
  case SessionCloseHandler
  then have "session_close_handle env payload s = (EErr e, s', eff)" using assms(1) by simp
  then show ?thesis by (elim session_close_handle_result) auto
next
  case SessionSuspendHandler
  obtain out m e' where "on_session_close (de_world env) (payload_session_id payload) (manager s)
      = (Inr out, m, e')" by (rule close_result)
  with SessionSuspendHandler assms(1) show ?thesis
    by (auto simp: session_suspend_handle_def Let_def split: if_splits)
next
  case SessionForkHandler
  with assms(1) show ?thesis
    by (auto simp: session_fork_handle_def Let_def dest!: fork_fails_unchanged
        split: if_splits sum.splits prod.splits)
next
  case SessionForkEndHandler
  with assms(1) show ?thesis
    using never_fails(3) [of "de_world env" "payload_session_id payload"
        "as_u64 (json_index payload (lit ''fork_id''))" "manager s"]
    by (auto simp: session_fork_end_handle_def Let_def split: if_splits sum.splits prod.splits)
next
  case AgentEventHandler
  with assms(1) show ?thesis by (auto simp: agent_event_handle_def Let_def split: if_splits)
qed (use assms in \<open>auto simp: health_handle_def\<close>)

text \<open>C8: A rejected event changes nothing. Whatever the reason of an error response (no type,
  unknown type, missing field, empty session id, unknown session, empty list), the coordinator,
  the database and the backend are as if the event had not come; only a \<open>turn_end\<close> can fail
  after it took effect.\<close>

theorem rejected_event_no_effect:
  assumes "handle_event env daemon_registry payload s = (resp, s', eff)" and "\<not> ok resp"
    and "payload_type payload \<noteq> lit ''turn_end''"
  shows "s' = s \<and> eff = []"
  using assms(1)
proof (cases rule: handle_event_cases)
  case (failed h e)
  have "h \<noteq> TurnEndHandler" using failed(1) assms(3) registry_exact(1) by blast
  with failed(2) show ?thesis by (rule handle_err_unchanged)
qed (use assms(2,3) in \<open>auto simp: response_ok_def\<close>)

theorem rejected_event_no_effect_witness:
  "\<not> ok (fst (handle_event ok_env daemon_registry (event_json ''session_fork'' ''zz'' []) two_sessions))
   \<and> after (event_json ''session_fork'' ''zz'' []) two_sessions = two_sessions"
proof -
  let ?p = "event_json ''session_fork'' ''zz'' []"
  obtain resp s' eff where e: "handle_event ok_env daemon_registry ?p two_sessions = (resp, s', eff)"
    by (rule prod_cases3)
  have "\<not> ok (fst (handle_event ok_env daemon_registry ?p two_sessions))"
    by (simp add: two_sessions_eval booted_eval event_eval session_fork_handle_def run_eval response_error_def)
  then show ?thesis
    using rejected_event_no_effect [OF e] e by (simp add: after_def)
qed


section \<open>Suspended sessions\<close>

text \<open>Events that are no turn of this session, and restarts, in any order.\<close>

inductive quiet_run :: "(daemon_env \<Rightarrow> bool) \<Rightarrow> str \<Rightarrow> AppState \<Rightarrow> AppState \<Rightarrow> bool" for E sid where
  stop: "quiet_run E sid s s"
| event: "quiet_run E sid s s1 \<Longrightarrow> E env \<Longrightarrow>
    payload_type payload \<noteq> lit ''turn_end'' \<or> payload_session_id payload \<noteq> sid \<Longrightarrow>
    handle_event env daemon_registry payload s1 = (resp, s2, eff) \<Longrightarrow> quiet_run E sid s s2"
| restart: "quiet_run E sid s s1 \<Longrightarrow> E env \<Longrightarrow>
    startup parse send (de_db env) cfg (store s1) = Some (be, s2) \<Longrightarrow> quiet_run E sid s s2"

definition kept :: "(str \<Rightarrow> str list option) \<Rightarrow> str \<Rightarrow> str list \<Rightarrow> AppState \<Rightarrow> bool" where
  "kept dec sid hs s \<longleftrightarrow> pin_get (store s) sid
     \<and> (\<exists>j t. row_get (store s) sid = Some (j, t) \<and> dec j = Some hs)
     \<and> session_map sid (manager s) \<in> {None, Some hs}"

lemma keptD:
  assumes "kept dec sid hs s"
  obtains j t where "pin_get (store s) sid" "row_get (store s) sid = Some (j, t)" "dec j = Some hs"
    "session_map sid (manager s) = None \<or> session_map sid (manager s) = Some hs"
  using assms by (auto simp: kept_def)

lemma keptI:
  "pin_get (store s) sid \<Longrightarrow> row_get (store s) sid = Some (j, t) \<Longrightarrow> dec j = Some hs \<Longrightarrow>
   session_map sid (manager s) = None \<or> session_map sid (manager s) = Some hs \<Longrightarrow> kept dec sid hs s"
  by (auto simp: kept_def)

lemma pin_session_pins:
  "reliable enc dec env \<Longrightarrow> pin_get (store_pin_session (de_db env) k st) k' \<longleftrightarrow> k' = k \<or> pin_get st k'"
  by (simp add: store_pin_session_def reliable_def store.pinned_pin)

lemma is_pinned_reliable: "reliable enc dec env \<Longrightarrow> store_is_pinned (de_db env) k st = pin_get st k"
  by (simp add: store_is_pinned_def reliable_def)

lemma dstep_kept:
  assumes "dstep env p s s'" "reliable enc dec env" "kept dec sid hs s"
    "payload_type p \<noteq> lit ''turn_end'' \<or> payload_session_id p \<noteq> sid"
  shows "kept dec sid hs s'"
proof -
  obtain j t where k: "pin_get (store s) sid" "row_get (store s) sid = Some (j, t)" "dec j = Some hs"
    "session_map sid (manager s) = None \<or> session_map sid (manager s) = Some hs"
    using assms(3) by (rule keptD)
  show ?thesis
    using assms(1)
  proof cases
    case (turn_saved sid' hs' ctx out m eff f)
    then have ne: "sid' \<noteq> sid" using assms(4) by blast
    from persist_turn_result [OF turn_saved(5)] ne k show ?thesis
      by (auto simp: turn_end_maps [OF turn_saved(4)] store.get_put store.pinned_put intro!: keptI)
  next
    case (turn_failed sid' hs' ctx e m eff)
    then have "sid' \<noteq> sid" using assms(4) by blast
    with k turn_failed(1) show ?thesis
      by (auto simp: turn_end_maps [OF turn_failed(5)] intro!: keptI)
  next
    case (restore sid' hs' r m eff)
    have "hs' = hs" if "sid' = sid"
      using restore(2) k that store_load_row [of enc dec env sid "store s" hs'] assms(2)
      by (auto simp: reliable_def)
    with k restore(1) show ?thesis
      by (cases "sid = sid'")
         (auto simp: restore_maps [OF restore(3)] pin_session_pins [OF assms(2)] intro!: keptI)
  next
    case (close sid' r m eff)
    have "release_row env sid' (with_manager s m) = with_manager s m" if "sid' = sid"
      using that k is_pinned_reliable [OF assms(2)] by (simp add: release_row_def)
    with k release_row_result [of env sid' "with_manager s m"] close(1) show ?thesis
      by (cases "sid' = sid")
         (auto simp: close_maps [OF close(2)] store.get_del store.pinned_del intro!: keptI)
  next
    case (suspend sid' r m eff)
    with k show ?thesis
      by (cases "sid = sid'")
         (auto simp: close_maps [OF suspend(2)] pin_session_pins [OF assms(2)] intro!: keptI)
  next
    case (forks m)
    with k session_map_cong [OF forks(2)] show ?thesis by (auto intro!: keptI)
  qed (use assms in simp)
qed

lemma startup_kept:
  assumes "startup parse send (de_db env) cfg (store s) = Some (be, s')" "reliable enc dec env"
    "kept dec sid hs s"
  shows "kept dec sid hs s'"
proof -
  obtain j t where k: "pin_get (store s) sid" "row_get (store s) sid = Some (j, t)" "dec j = Some hs"
    using assms(3) by (rule keptD)
  obtain b where m: "manager s' = rehydrate (de_db env) (store s) (new_manager (core_config cfg b))"
    and st: "store s' = store s" using assms(1) by (rule startup_manager)
  have "session_map sid (manager s') = Some hs"
    using reliable_load [OF assms(2) k(2,3)] by (simp add: m session_map_def rehydrate_sessions)
  with k st show ?thesis by (auto intro!: keptI)
qed

lemma quiet_run_kept:
  assumes "quiet_run E sid s s'" "\<forall>env. E env \<longrightarrow> reliable enc dec env" "kept dec sid hs s"
  shows "kept dec sid hs s'"
  using assms(1,3)
proof (induction rule: quiet_run.induct)
  case (event s s1 env payload resp s2 eff)
  then show ?case using dstep_kept [OF handle_event_dstep [OF event.hyps(4)]] assms(2) by blast
next
  case (restart s s1 env parse send cfg be s2)
  then show ?case using startup_kept [OF restart.hyps(3)] assms(2) by blast
qed

text \<open>An event with a session id reaches its handler.\<close>

lemma session_id_present:
  assumes "payload_session_id p \<noteq> []"
  shows "find (\<lambda>f. json_get p f = None) (required (handler_spec h)) = None"
proof -
  have "json_get p (lit ''session_id'') \<noteq> None"
    using assms by (auto simp: payload_session_id_def json_index_def split: option.splits)
  then show ?thesis by (cases h) auto
qed

lemma handled_type:
  "get_handler daemon_registry t = Some h \<Longrightarrow> t \<noteq> [] \<and> t \<noteq> lit ''list_events''"
  by (auto simp: get_handler_daemon)

lemma dispatch_failed:
  "get_handler daemon_registry (payload_type p) = Some h \<Longrightarrow> payload_session_id p \<noteq> [] \<Longrightarrow>
   handle h env p s = (EErr e, s1, eff) \<Longrightarrow>
   handle_event env daemon_registry p s = (response_error (Some (payload_type p)) e, s1, eff)"
  using handled_type [of "payload_type p" h] session_id_present [of p h]
  by (simp add: handle_event_def Let_def get_spec_daemon)

lemma dispatch_served:
  assumes "get_handler daemon_registry (payload_type p) = Some h" "payload_session_id p \<noteq> []"
    "h \<noteq> TurnEndHandler" "h \<noteq> SessionCloseHandler" "handle h env p s = (EOk d, s1, eff)"
  shows "handle_event env daemon_registry p s = (response_ok (payload_type p) d, s1, eff)"
proof -
  note handled_type [OF assms(1)] session_id_present [OF assms(2), of h]
  moreover have "payload_type p \<noteq> lit ''turn_end''" "payload_type p \<noteq> lit ''session_close''"
    using assms(1,3,4) by (auto simp: get_handler_daemon)
  ultimately show ?thesis
    using assms(1,5) by (simp add: handle_event_def Let_def get_spec_daemon)
qed

lemma suspend_event:
  assumes "payload_type p = lit ''session_suspend''" "payload_session_id p = sid" "sid \<noteq> []"
    "handle_event env daemon_registry p s = (resp, s', eff)"
  obtains out m e where "on_session_close (de_world env) sid (manager s) = (Inr out, m, e)"
    "s' = with_manager (s\<lparr>store := store_pin_session (de_db env) sid (store s)\<rparr>) m" "ok resp"
proof -
  obtain out m e where c: "on_session_close (de_world env) sid (manager s) = (Inr out, m, e)"
    by (rule close_result)
  then obtain d where "handle SessionSuspendHandler env p s = (EOk d,
      with_manager (s\<lparr>store := store_pin_session (de_db env) sid (store s)\<rparr>) m, map Manager e)"
    using assms(2,3) by (simp add: session_suspend_handle_def)
  from dispatch_served [OF _ _ _ _ this] c that assms show ?thesis
    by (auto simp: get_handler_daemon response_ok_def)
qed

lemma restore_event:
  assumes "payload_type p = lit ''snapshot_restore''" "payload_session_id p = sid" "sid \<noteq> []"
    "handle_event env daemon_registry p s = (resp, s', eff)" "restore_source env sid s = Inr hs"
  shows "ok resp \<and> session_map sid (manager s') = Some hs
    \<and> session_turn_count sid (manager s')
        = Some (case session_turn_count sid (manager s) of Some n \<Rightarrow> n | None \<Rightarrow> 0)"
proof -
  obtain out m e where c: "on_snapshot_restore (de_world env) sid hs (manager s) = (Inr out, m, e)"
    by (rule restore_result)
  obtain d where "handle SnapshotRestoreHandler env p s = (EOk d, (with_manager s m)\<lparr>store :=
      store_pin_session (de_db env) sid (store s)\<rparr>, map Manager e)"
    using assms(2,3,5) c by (simp add: snapshot_restore_handle_def)
  from dispatch_served [OF _ _ _ _ this] assms
  have r: "ok resp" and s': "s' = (with_manager s m)\<lparr>store := store_pin_session (de_db env) sid (store s)\<rparr>"
    by (auto simp: get_handler_daemon response_ok_def)
  show ?thesis
    using r on_snapshot_restore_sessions(1) [OF c]
    by (simp add: s' session_map_def session_turn_count_def split: option.split)
qed

lemma kept_source:
  assumes "kept dec sid hs s" "reliable enc dec env" "hs \<noteq> []"
  shows "restore_source env sid s = Inr hs"
proof -
  obtain j t where k: "row_get (store s) sid = Some (j, t)" "dec j = Some hs"
    "session_map sid (manager s) = None \<or> session_map sid (manager s) = Some hs"
    using assms(1) by (rule keptD)
  then show ?thesis
    using reliable_load [OF assms(2) k(1,2)] assms(3)
    by (auto simp: restore_source_def map_is_empty_def chunk_hashes_def Let_def)
qed

text \<open>C6: A suspended session can be restored, if the database never fails, its codec decodes what it
  encoded and debug files are off. Then after a suspend of a session that holds a non-empty chunk list, and any
  events and restarts other than a new turn of that session (closes and restores of it included), the suspend
  was answered ok, and a \<open>snapshot_restore\<close> is answered ok and gives the session exactly the list it had
  when it was suspended. With debug files on, a failing debug write can leave an older row behind, from which
  the restore would take another list; an empty list is not restored.\<close>

theorem suspend_then_restore:
  assumes "daemon_reachable E C s" and "\<forall>env. E env \<longrightarrow> reliable enc dec env"
    and "\<forall>cfg. C cfg \<longrightarrow> \<not> d_debug_enabled cfg" and "\<forall>m. dec (enc m) = Some m"
    and "session_map sid (manager s) = Some hs" and "hs \<noteq> []" and "sid \<noteq> []"
    and "E env1" and "payload_type p1 = lit ''session_suspend''" and "payload_session_id p1 = sid"
    and "handle_event env1 daemon_registry p1 s = (resp1, s1, eff1)"
    and "quiet_run E sid s1 s2"
    and "E env2" and "payload_type p2 = lit ''snapshot_restore''" and "payload_session_id p2 = sid"
    and "handle_event env2 daemon_registry p2 s2 = (resp2, s3, eff2)"
  shows "ok resp1 \<and> ok resp2 \<and> session_map sid (manager s1) = None
    \<and> session_map sid (manager s3) = Some hs"
proof -
  obtain out m e where c: "on_session_close (de_world env1) sid (manager s) = (Inr out, m, e)"
    and s1: "s1 = with_manager (s\<lparr>store := store_pin_session (de_db env1) sid (store s)\<rparr>) m"
    and ok1: "ok resp1"
    using suspend_event [OF assms(9,10,7,11)] .
  have gone: "session_map sid (manager s1) = None" by (simp add: s1 close_maps [OF c])
  obtain j t where "row_get (store s) sid = Some (j, t)" "dec j = Some hs"
    using daemon_on_disk [OF assms(1-4)] on_diskD assms(5) by blast
  then have "kept dec sid hs s1"
    using gone assms(2,8) by (auto simp: s1 pin_session_pins intro!: keptI)
  from quiet_run_kept [OF assms(12,2) this] have "kept dec sid hs s2" .
  with assms(2,6,13) have "restore_source env2 sid s2 = Inr hs" using kept_source by blast
  from restore_event [OF assms(14,15,7,16) this] ok1 gone show ?thesis by blast
qed

theorem suspend_then_restore_witness:
  "session_map (lit ''a'') (manager (after (event_json ''snapshot_restore'' ''a'' [])
      (after (event_json ''session_close'' ''a'' [])
        (after (event_json ''session_suspend'' ''a'' []) two_sessions)))) = Some [lit ''X'', lit ''Y'']"
proof -
  let ?E = "\<lambda>env. env = ok_env" and ?C = "\<lambda>cfg. cfg = noop_config"
  have r: "daemon_reachable ?E ?C two_sessions" by (rule reachable_two_sessions) simp_all
  obtain resp1 s1 eff1 where e1: "handle_event ok_env daemon_registry
      (event_json ''session_suspend'' ''a'' []) two_sessions = (resp1, s1, eff1)" by (rule prod_cases3)
  obtain q s2 eff where e2: "handle_event ok_env daemon_registry
      (event_json ''session_close'' ''a'' []) s1 = (q, s2, eff)" by (rule prod_cases3)
  obtain resp2 s3 eff2 where e3: "handle_event ok_env daemon_registry
      (event_json ''snapshot_restore'' ''a'' []) s2 = (resp2, s3, eff2)" by (rule prod_cases3)
  have run: "quiet_run ?E (lit ''a'') s1 s2"
    by (rule quiet_run.event [OF quiet_run.stop _ _ e2]) simp_all
  have m: "session_map (lit ''a'') (manager two_sessions) = Some [lit ''X'', lit ''Y'']"
    by (simp add: two_sessions_eval session_map_def)
  have "session_map (lit ''a'') (manager s3) = Some [lit ''X'', lit ''Y'']"
    using suspend_then_restore [OF r _ _ _ m _ _ _ _ _ e1 run _ _ _ e3, of frame "\<lambda>s. unframe (length s) s"]
      reliable_ok_env no_debug_noop by (simp add: unframe_frame)
  with e1 e2 e3 show ?thesis by (simp add: after_def)
qed

end
