(* ===== verification/KvDivergence.thy ===== *)
theory KvDivergence
  imports KvDaemonProps
begin

text \<open>
  Behaviour of the daemon that parts from what its comments or its responses say: the turn count
  of a suspended session, the \<open>matched\<close> field of a fork's end, and a turn that fails after it
  took effect.
\<close>

text \<open>Suspending a session and restoring it without a restart in between brings the chunk list
  back but starts the turn count at zero again, whatever it was: the restore reads the stored
  count and drops it.\<close>

theorem suspend_restore_resets_turn_count:
  assumes "daemon_reachable E C s" and "\<forall>env. E env \<longrightarrow> reliable enc dec env"
    and "\<forall>cfg. C cfg \<longrightarrow> \<not> d_debug_enabled cfg" and "\<forall>m. dec (enc m) = Some m"
    and "session_map sid (manager s) = Some hs" and "hs \<noteq> []" and "sid \<noteq> []" and "E env"
    and "payload_type p1 = lit ''session_suspend''" and "payload_session_id p1 = sid"
    and "handle_event env daemon_registry p1 s = (resp1, s1, eff1)"
    and "payload_type p2 = lit ''snapshot_restore''" and "payload_session_id p2 = sid"
    and "handle_event env daemon_registry p2 s1 = (resp2, s2, eff2)"
  shows "session_map sid (manager s2) = Some hs \<and> session_turn_count sid (manager s2) = Some 0"
proof -
  obtain out m e where c: "on_session_close (de_world env) sid (manager s) = (Inr out, m, e)"
    and s1: "s1 = with_manager (s\<lparr>store := store_pin_session (de_db env) sid (store s)\<rparr>) m"
    using suspend_event [OF assms(9,10,7,11)] .
  have gone: "session_map sid (manager s1) = None" by (simp add: s1 close_maps [OF c])
  then have t: "session_turn_count sid (manager s1) = None"
    by (simp add: session_map_def session_turn_count_def)
  obtain j t where "row_get (store s) sid = Some (j, t)" "dec j = Some hs"
    using daemon_on_disk [OF assms(1-4)] on_diskD assms(5) by blast
  then have "kept dec sid hs s1"
    using gone assms(2,8) by (auto simp: s1 pin_session_pins intro!: keptI)
  then have "restore_source env sid s1 = Inr hs" using kept_source assms(2,6,8) by blast
  from restore_event [OF assms(12,13,7,14) this] t show ?thesis by simp
qed

theorem suspend_restore_resets_turn_count_witness:
  "session_turn_count (lit ''a'') (manager two_sessions) = Some 1
   \<and> session_turn_count (lit ''a'') (manager (after (event_json ''snapshot_restore'' ''a'' [])
        (after (event_json ''session_suspend'' ''a'' []) two_sessions))) = Some 0"
proof -
  let ?E = "\<lambda>env. env = ok_env" and ?C = "\<lambda>cfg. cfg = noop_config"
  have r: "daemon_reachable ?E ?C two_sessions" by (rule reachable_two_sessions) simp_all
  obtain resp1 s1 eff1 where e1: "handle_event ok_env daemon_registry
      (event_json ''session_suspend'' ''a'' []) two_sessions = (resp1, s1, eff1)" by (rule prod_cases3)
  obtain resp2 s2 eff2 where e2: "handle_event ok_env daemon_registry
      (event_json ''snapshot_restore'' ''a'' []) s1 = (resp2, s2, eff2)" by (rule prod_cases3)
  have m: "session_map (lit ''a'') (manager two_sessions) = Some [lit ''X'', lit ''Y'']"
    and t: "session_turn_count (lit ''a'') (manager two_sessions) = Some 1"
    by (simp_all add: two_sessions_eval session_map_def session_turn_count_def)
  have "session_turn_count (lit ''a'') (manager s2) = Some 0"
    using suspend_restore_resets_turn_count [OF r _ _ _ m _ _ _ _ _ e1 _ _ e2, of frame
        "\<lambda>s. unframe (length s) s"] reliable_ok_env no_debug_noop by (simp add: unframe_frame)
  with e1 e2 t show ?thesis by (simp add: after_def)
qed

text \<open>The \<open>matched\<close> field of a \<open>session_fork_end\<close> does not say whether a fork was
  matched: with no fork of the session to end, nothing happens and the answer is still ok with
  \<open>matched\<close> true.\<close>

theorem fork_end_matches_nothing:
  assumes "payload_type p = lit ''session_fork_end''" and "payload_session_id p \<noteq> []"
    and "pick_snapshot (payload_session_id p) (as_u64 (json_index p (lit ''fork_id''))) (manager s) = None"
  shows "\<exists>d. handle_event env daemon_registry p s = (response_ok (lit ''session_fork_end'') d, s, [])
    \<and> json_get d (lit ''matched'') = Some (JBool True)"
proof -
  define d where "d = jobject [(lit ''fork_end'', JBool True), (lit ''evicted_count'', jnat 0),
     (lit ''backend_degraded'', JBool False), (lit ''matched'', JBool True)]"
  have "handle SessionForkEndHandler env p s = (EOk d, s, [])"
    using assms(2,3) by (simp add: session_fork_end_handle_def on_session_fork_end_def
        fork_end_section_def evict_tail_def default_outcome_def Let_def d_def)
  from dispatch_served [OF _ assms(2) _ _ this] assms(1)
  have "handle_event env daemon_registry p s = (response_ok (lit ''session_fork_end'') d, s, [])"
    by (simp add: get_handler_daemon)
  then show ?thesis by (auto simp: d_def json_simps)
qed

theorem fork_end_matches_nothing_witness:
  "\<exists>d. handle_event ok_env daemon_registry (event_json ''session_fork_end'' ''zz'' []) two_sessions
       = (response_ok (lit ''session_fork_end'') d, two_sessions, [])
     \<and> json_get d (lit ''matched'') = Some (JBool True)"
  by (rule fork_end_matches_nothing)
     (simp_all add: two_sessions_eval booted_eval new_manager_def pick_snapshot_def split: option.split)

text \<open>C11: A \<open>turn_end\<close> whose debug file cannot be written is answered with an error although it
  took effect: the coordinator holds the new list and one more turn, while the database still
  holds the old row, so a restart undoes the turn and a retry counts it twice.\<close>

theorem debug_failure_diverges:
  assumes "handle_event env daemon_registry p s = (resp, s', eff)"
    and "payload_type p = lit ''turn_end''" and "parse_turn_end p = Some t"
    and "te_session_id t \<noteq> []" and "check_chunk_limits (te_kv_params t) = None"
    and "te_kv_params t = Some hs" and "debug_enabled (config (manager s))"
    and "\<forall>path content. w_write_file (de_world env) path content \<noteq> None"
  shows "\<not> ok resp \<and> store s' = store s \<and> session_map (te_session_id t) (manager s') = Some hs
    \<and> session_turn_count (te_session_id t) (manager s')
        = Some (case session_turn_count (te_session_id t) (manager s) of Some k \<Rightarrow> k + 1 | None \<Rightarrow> 1)"
proof -
  let ?sid = "te_session_id t" and ?w = "de_world env"
  have sid: "payload_session_id p = ?sid" using assms(3) by (rule parse_turn_end_session)
  have dbg: "\<exists>e. fst (write_debug_file ?w (config (manager s)) ?sid n l ctx) = Inl e" for n l ctx
  proof -
    obtain y where "w_write_file ?w (path_join (debug_dir (config (manager s))) (debug_file_name ?sid n))
      (debug_file_data ?sid n l ctx) = Some y" using assms(8) by blast
    with assms(7) show ?thesis by (auto simp: write_debug_file_def Let_def split: option.split)
  qed
  have fails: "\<exists>e. fst (on_turn_end ?w ?sid (te_kv_params t) ctx (manager s)) = Inl e" for ctx
  proof -
    have "fst (write_debug_file ?w (config (manager s)) ?sid n l c) \<noteq> Inr u" for n l c u
      using dbg [of n l c] by auto
    then show ?thesis
      using assms(7) by (simp add: on_turn_end_def Let_def split_beta split: sum.split)
  qed
  define ctx where "ctx = debug_context_of (te_debug_context t)"
  obtain q m e' where te: "on_turn_end ?w ?sid (te_kv_params t) ctx (manager s) = (q, m, e')"
    by (rule prod_cases3)
  then obtain e where "q = Inl e" using fails [of ctx] by auto
  then have "handle TurnEndHandler env p s = (EErr (kv_error_string e), with_manager s m, map Manager e')"
    using te assms(3-5) by (simp add: turn_end_handle_def Let_def ctx_def)
  from dispatch_failed [OF _ _ this] assms(1,2,4) sid
  have r: "resp = response_error (Some (payload_type p)) (kv_error_string e)" "s' = with_manager s m"
    by (auto simp: get_handler_daemon)
  show ?thesis
    using turn_end_maps [OF te] on_turn_end_sessions(1) [OF te] assms(6)
    by (simp add: r response_error_def session_turn_count_def counted_state_def split: option.split)
qed

definition full_disk :: daemon_env where
  "full_disk = ok_env\<lparr>de_world := ok_world\<lparr>w_write_file := \<lambda>_ _. Some (lit ''no space left'')\<rparr>\<rparr>"

definition debugging :: AppState where
  "debugging = two_sessions\<lparr>manager := (manager two_sessions)\<lparr>config :=
     (config (manager two_sessions))\<lparr>debug_enabled := True\<rparr>\<rparr>\<rparr>"

theorem debug_failure_diverges_witness:
  "\<exists>resp s' eff. handle_event full_disk daemon_registry (turn_json ''a'' [''N'']) debugging = (resp, s', eff)
     \<and> \<not> ok resp \<and> session_map (lit ''a'') (manager s') = Some [lit ''N'']
     \<and> row_get (store s') (lit ''a'') = Some (frame [lit ''X'', lit ''Y''], 1)"
proof -
  obtain resp s' eff where e:
    "handle_event full_disk daemon_registry (turn_json ''a'' [''N'']) debugging = (resp, s', eff)"
    by (rule prod_cases3)
  have w: "\<forall>path content. w_write_file (de_world full_disk) path content \<noteq> None"
    by (simp add: full_disk_def)
  have "\<not> ok resp \<and> store s' = store debugging \<and> session_map (lit ''a'') (manager s') = Some [lit ''N'']"
    using debug_failure_diverges [OF e _ parse_turn_json _ _ _ _ w]
    by (simp add: debugging_def within_limits_def)
  with e show ?thesis by (simp add: debugging_def two_sessions_eval row_get_def)
qed

end
