(* ===== verification/KvAccess.thy ===== *)
theory KvAccess
  imports KvSample
begin

text \<open>
  Who may talk to the daemon: the byte comparison of tokens, UTF-8 as an injective encoding, the
  bearer check, and the refusal to start an open listener without a token.
\<close>

section \<open>Comparing bytes\<close>

lemma or_fold_zero:
  "fold (\<lambda>(x, y) diff. or diff (xor x y)) ps (d :: 8 word) = 0
     \<longleftrightarrow> d = 0 \<and> (\<forall>(x, y) \<in> set ps. x = y)"
proof (induction ps arbitrary: d)
  case (Cons p ps)
  obtain x y where p: "p = (x, y)" by (cases p)
  have xor_zero: "xor x y = 0 \<longleftrightarrow> x = y"
    by (metis bit.xor_self xor.assoc xor.left_neutral)
  have "or d (xor x y) = 0 \<longleftrightarrow> d = 0 \<and> x = y"
    by (auto simp: or_eq_0_iff xor_zero)
  then show ?case using Cons p by auto
qed simp

text \<open>The accumulating comparison is equality.\<close>

lemma constant_time_eq_iff: "constant_time_eq a b \<longleftrightarrow> a = b"
proof (cases "length a = length b")
  case True
  then have "(\<forall>(x, y) \<in> set (zip a b). x = y) \<longleftrightarrow> a = b"
    by (induction a b rule: list_induct2) auto
  with True show ?thesis by (simp add: constant_time_eq_def or_fold_zero)
qed (auto simp: constant_time_eq_def)


section \<open>UTF-8\<close>

abbreviation scalar :: "nat \<Rightarrow> bool" where
  "scalar c \<equiv> c < 1114112"

lemma of_nat_byte_eq: "a < 256 \<Longrightarrow> b < 256 \<Longrightarrow> (of_nat a :: 8 word) = of_nat b \<longleftrightarrow> a = b"
  by (simp add: word_of_nat_eq_iff take_bit_eq_mod)

lemma div_mod_inj: "(c :: nat) div k = d div k \<Longrightarrow> c mod k = d mod k \<Longrightarrow> c = d"
  by (metis div_mult_mod_eq)

lemma div_4096: "(c :: nat) div 4096 = c div 64 div 64" "c div 262144 = c div 64 div 64 div 64"
  by (simp_all add: div_mult2_eq [symmetric])

lemma byte_ranges:
  "(c :: nat) < 2048 \<Longrightarrow> c div 64 < 32" "c < 65536 \<Longrightarrow> c div 4096 < 16"
  "c < 1114112 \<Longrightarrow> c div 262144 < 5" "c mod 64 < 64"
  by simp_all

text \<open>The value range of the first byte tells the four lengths apart.\<close>

definition lead :: "nat \<Rightarrow> nat" where
  "lead c = (if c < 128 then c else if c < 2048 then 192 + c div 64
     else if c < 65536 then 224 + c div 4096 else 240 + c div 262144)"

lemma hd_utf8_char: "hd (utf8_char c) = of_nat (lead c)"
  by (simp add: utf8_char_def lead_def)

lemma lead_byte: "scalar c \<Longrightarrow> lead c < 256"
  using byte_ranges [of c] by (auto simp: lead_def)

lemma lead_class:
  assumes "scalar c" "scalar d" "lead c = lead d"
  shows "(c < 128 \<longleftrightarrow> d < 128) \<and> (c < 2048 \<longleftrightarrow> d < 2048) \<and> (c < 65536 \<longleftrightarrow> d < 65536)"
  using assms byte_ranges [of c] byte_ranges [of d] by (auto simp: lead_def split: if_splits)

lemma cont: "(of_nat (128 + a mod 64) :: 8 word) = of_nat (128 + b mod 64) \<longleftrightarrow> a mod 64 = b mod 64"
  using of_nat_byte_eq [of "128 + a mod 64" "128 + b mod 64"] byte_ranges(4) [of a] byte_ranges(4) [of b]
  by linarith

lemma utf8_char_prefix_free:
  assumes "scalar c" "scalar d" "utf8_char c @ x = utf8_char d @ y"
  shows "c = d \<and> x = y"
proof -
  have ne: "utf8_char k \<noteq> []" for k by (simp add: utf8_char_def)
  have "hd (utf8_char c) = hd (utf8_char d)"
    using assms(3) ne by (metis hd_append2)
  then have "lead c = lead d"
    using of_nat_byte_eq lead_byte assms(1,2) by (simp add: hd_utf8_char)
  note cls = lead_class [OF assms(1,2) this]
  consider "c < 128" | "128 \<le> c" "c < 2048" | "2048 \<le> c" "c < 65536" | "65536 \<le> c" by linarith
  then show ?thesis
  proof cases
    case 1
    with cls assms(3) show ?thesis by (simp add: utf8_char_def of_nat_byte_eq)
  next
    case 2
    with cls have d: "128 \<le> d" "d < 2048" by auto
    have "(of_nat (192 + c div 64) :: 8 word) = of_nat (192 + d div 64)"
      "(of_nat (128 + c mod 64) :: 8 word) = of_nat (128 + d mod 64)" "x = y"
      using assms(3) 2 d by (simp_all add: utf8_char_def del: of_nat_add of_nat_numeral)
    moreover have "192 + c div 64 < 256" "192 + d div 64 < 256" using 2 d byte_ranges by simp_all
    ultimately show ?thesis using div_mod_inj [of c 64 d] by (simp only: of_nat_byte_eq cont)
  next
    case 3
    with cls have d: "2048 \<le> d" "d < 65536" by auto
    have "(of_nat (224 + c div 4096) :: 8 word) = of_nat (224 + d div 4096)"
      "(of_nat (128 + c div 64 mod 64) :: 8 word) = of_nat (128 + d div 64 mod 64)"
      "(of_nat (128 + c mod 64) :: 8 word) = of_nat (128 + d mod 64)" "x = y"
      using assms(3) 3 d by (simp_all add: utf8_char_def del: of_nat_add of_nat_numeral)
    moreover have "224 + c div 4096 < 256" "224 + d div 4096 < 256" using 3 d byte_ranges by simp_all
    ultimately show ?thesis
      using div_mod_inj [of c 64 d] div_mod_inj [of "c div 64" 64 "d div 64"]
      by (simp only: of_nat_byte_eq cont) (simp add: div_4096)
  next
    case 4
    with cls have d: "65536 \<le> d" by auto
    have "(of_nat (240 + c div 262144) :: 8 word) = of_nat (240 + d div 262144)"
      "(of_nat (128 + c div 4096 mod 64) :: 8 word) = of_nat (128 + d div 4096 mod 64)"
      "(of_nat (128 + c div 64 mod 64) :: 8 word) = of_nat (128 + d div 64 mod 64)"
      "(of_nat (128 + c mod 64) :: 8 word) = of_nat (128 + d mod 64)" "x = y"
      using assms(3) 4 d by (simp_all add: utf8_char_def del: of_nat_add of_nat_numeral)
    moreover have "240 + c div 262144 < 256" "240 + d div 262144 < 256"
      using assms(1,2) byte_ranges by simp_all
    ultimately show ?thesis
      using div_mod_inj [of c 64 d] div_mod_inj [of "c div 64" 64 "d div 64"]
        div_mod_inj [of "c div 64 div 64" 64 "d div 64 div 64"]
      by (simp only: of_nat_byte_eq cont) (simp add: div_4096)
  qed
qed

lemma utf8_inj:
  "list_all scalar s \<Longrightarrow> list_all scalar t \<Longrightarrow> utf8 s = utf8 t \<Longrightarrow> s = t"
proof (induction s arbitrary: t)
  case Nil
  have "utf8_char d \<noteq> []" for d by (simp add: utf8_char_def)
  with Nil show ?case by (cases t) (auto simp: utf8_def)
next
  case (Cons c s)
  have "utf8_char d \<noteq> []" for d by (simp add: utf8_char_def)
  with Cons.prems obtain d t' where t: "t = d # t'" by (cases t) (auto simp: utf8_def)
  have "utf8_char c @ utf8 s = utf8_char d @ utf8 t'" using Cons.prems t by (simp add: utf8_def)
  then have "c = d \<and> utf8 s = utf8 t'"
    using utf8_char_prefix_free [of c d "utf8 s" "utf8 t'"] Cons.prems t by simp
  with Cons t show ?case by simp
qed


section \<open>Authentication and exposure\<close>

lemma scalar_lit: "list_all scalar (lit s)"
proof -
  have "scalar (of_char c)" for c using nat_of_char_less_256 [of c] by linarith
  then show ?thesis by (simp add: lit_def list_all_iff)
qed

lemma strip_prefix_Some: "strip_prefix p s = Some t \<longleftrightarrow> s = p @ t"
  by (auto simp: strip_prefix_def starts_with_iff)

lemma bearer_iff:
  assumes "list_all scalar expected" and "\<forall>v. header = Some v \<longrightarrow> list_all scalar v"
  shows "require_auth expected header
    \<longleftrightarrow> expected = [] \<or> header = Some (lit ''Bearer '' @ expected)"
proof (cases header)
  case (Some v)
  show ?thesis
  proof (cases "strip_prefix (lit ''Bearer '') v")
    case None
    then have "v \<noteq> lit ''Bearer '' @ expected"
      using strip_prefix_Some [of "lit ''Bearer ''" v expected] by auto
    with Some None show ?thesis by (simp add: require_auth_def)
  next
    case (Some t)
    then have v: "v = lit ''Bearer '' @ t" by (simp add: strip_prefix_Some)
    then have "utf8 t = utf8 expected \<longleftrightarrow> t = expected"
      using utf8_inj assms \<open>header = Some v\<close> by auto
    with Some v \<open>header = Some v\<close> show ?thesis
      by (auto simp: require_auth_def constant_time_eq_iff)
  qed
qed (simp add: require_auth_def)

text \<open>The bearer check lets a request through exactly when no token is configured or the
  \<open>Authorization\<close> header is \<open>Bearer\<close>, one blank and the configured token: the
  constant-time comparison of the UTF-8 bytes is equality of the strings.\<close>

theorem bearer_check:
  assumes "list_all scalar expected" and "\<forall>v. header = Some v \<longrightarrow> list_all scalar v"
  shows "require_auth expected header
    \<longleftrightarrow> expected = [] \<or> header = Some (lit ''Bearer '' @ expected)"
  using assms by (rule bearer_iff)

theorem bearer_check_witness:
  "require_auth (lit ''s3cret'') (Some (lit ''Bearer s3cret''))
   \<and> \<not> require_auth (lit ''s3cret'') (Some (lit ''Bearer s3creT''))"
proof -
  have l: "list_all scalar (lit ''s3cret'')" "list_all scalar (lit ''Bearer s3cret'')"
    "list_all scalar (lit ''Bearer s3creT'')" by (simp_all only: scalar_lit)
  have "lit ''Bearer s3cret'' = lit ''Bearer '' @ lit ''s3cret''"
    "lit ''Bearer s3creT'' \<noteq> lit ''Bearer '' @ lit ''s3cret''"
    by (simp_all add: lit_append [symmetric])
  then show ?thesis
    using bearer_check [of "lit ''s3cret''" "Some (lit ''Bearer s3cret'')"]
      bearer_check [of "lit ''s3cret''" "Some (lit ''Bearer s3creT'')"] l by simp
qed

text \<open>No unauthenticated exposure. If the daemon starts and its bearer check lets a request
  through, then either the request carries the configured, non-empty token, or the listener is on
  a loopback host: the host part of the address is \<open>127.0.0.1\<close>, \<open>localhost\<close>,
  \<open>::1\<close> or empty.\<close>

theorem no_open_listener:
  assumes "startup parse send db cfg st = Some (be, s)" and "require_auth (auth_token cfg) header"
    and "list_all scalar (auth_token cfg)" and "\<forall>v. header = Some v \<longrightarrow> list_all scalar v"
  shows "(auth_token cfg \<noteq> [] \<and> header = Some (lit ''Bearer '' @ auth_token cfg))
    \<or> loopback_host (listen_addr cfg) \<in> {lit ''127.0.0.1'', lit ''localhost'', lit ''::1'', []}"
proof (cases "auth_token cfg = []")
  case True
  with assms(1) have "is_loopback_listen_addr (listen_addr cfg)"
    by (auto simp: startup_def split: if_splits)
  then show ?thesis by (simp add: is_loopback_listen_addr_def)
next
  case False
  have "require_auth (auth_token cfg) header \<longleftrightarrow> auth_token cfg = []
      \<or> header = Some (lit ''Bearer '' @ auth_token cfg)"
    using assms(3,4) by (rule bearer_iff)
  with False assms(2) show ?thesis by blast
qed

definition open_config :: DaemonConfig where
  "open_config = noop_config\<lparr>listen_addr := lit ''0.0.0.0:6998'', auth_token := lit ''k''\<rparr>"

theorem no_open_listener_witness:
  "startup (\<lambda>_. None) no_http framed_db (open_config\<lparr>auth_token := []\<rparr>) new_store = None
   \<and> \<not> require_auth (auth_token open_config) None"
proof -
  have h: "loopback_host (listen_addr open_config) \<notin> {lit ''127.0.0.1'', lit ''localhost'', lit ''::1'', []}"
    by code_simp
  have a: "list_all scalar (auth_token open_config)" by (simp add: open_config_def scalar_lit)
  obtain be s where "startup (\<lambda>_. None) no_http framed_db open_config new_store = Some (be, s)"
    by (simp add: startup_def open_config_def Let_def split_beta)
  then have "\<not> require_auth (auth_token open_config) None"
    using no_open_listener [where header = None] a h by blast
  moreover have "startup (\<lambda>_. None) no_http framed_db (open_config\<lparr>auth_token := []\<rparr>) new_store = None"
    using h by (simp add: startup_def is_loopback_listen_addr_def)
  ultimately show ?thesis by blast
qed

end
