(* ===== verification/PipeError.thy ===== *)
theory PipeError
  imports Prelude
begin

text \<open>
  The errors of \<open>ram-a-mem/crates/memory-pipeline\<close> (\<open>error.rs\<close>): the stages, the origin of
  an error, the wrappers that add a stage or a location, and the classification that callers use
  to decide about a retry.
\<close>

section \<open>Stages, origins, errors\<close>

text \<open>\<open>ErrorOrigin::capture\<close> reads the caller's file and line, the argument \<open>caller\<close>.\<close>

record ErrorOrigin =
  eo_site :: str
  eo_file :: str
  eo_line :: nat

type_synonym caller = "str \<times> nat"

definition capture :: "caller \<Rightarrow> str \<Rightarrow> ErrorOrigin" where
  "capture loc site = \<lparr>eo_site = site, eo_file = fst loc, eo_line = snd loc\<rparr>"

datatype PipelineStage = Normalize | Episode | Window | Extract | Validate | Ground | Aggregate

fun stage_as_str :: "PipelineStage \<Rightarrow> str" where
  "stage_as_str Normalize = lit ''normalize''"
| "stage_as_str Episode = lit ''episode''"
| "stage_as_str Window = lit ''window''"
| "stage_as_str Extract = lit ''extract''"
| "stage_as_str Validate = lit ''validate''"
| "stage_as_str Ground = lit ''ground''"
| "stage_as_str Aggregate = lit ''aggregate''"

fun stage_site :: "PipelineStage \<Rightarrow> str" where
  "stage_site Normalize = lit ''memory_pipeline.normalize''"
| "stage_site Episode = lit ''memory_pipeline.episode''"
| "stage_site Window = lit ''memory_pipeline.window''"
| "stage_site Extract = lit ''memory_pipeline.extract''"
| "stage_site Validate = lit ''memory_pipeline.validate''"
| "stage_site Ground = lit ''memory_pipeline.ground''"
| "stage_site Aggregate = lit ''memory_pipeline.aggregate''"

text \<open>\<open>Json\<close> and \<open>Io\<close> carry the message of the wrapped library error.\<close>

datatype PipelineError =
    InvalidInput str
  | Protocol str
  | Json str
  | Io str
  | Located ErrorOrigin PipelineError
  | Staged PipelineStage ErrorOrigin PipelineError

type_synonym 'a presult = "PipelineError + 'a"

fun error_string :: "PipelineError \<Rightarrow> str" where
  "error_string (InvalidInput m) = m"
| "error_string (Protocol m) = m"
| "error_string (Json m) = m"
| "error_string (Io m) = m"
| "error_string (Located l e) = error_string e"
| "error_string (Staged st l e) = error_string e"


section \<open>Wrapping and reading\<close>

fun at_site :: "caller \<Rightarrow> str \<Rightarrow> PipelineError \<Rightarrow> PipelineError" where
  "at_site loc site (Located l e) = Located l e"
| "at_site loc site e = Located (capture loc site) e"

fun at_stage :: "caller \<Rightarrow> PipelineStage \<Rightarrow> PipelineError \<Rightarrow> PipelineError" where
  "at_stage loc st (Staged st' l e) = Staged st' l e"
| "at_stage loc st e = Staged st (capture loc (stage_site st)) e"

fun error_stage :: "PipelineError \<Rightarrow> PipelineStage option" where
  "error_stage (Staged st l e) = Some st"
| "error_stage (Located l e) = error_stage e"
| "error_stage _ = None"

fun error_origin :: "PipelineError \<Rightarrow> ErrorOrigin option" where
  "error_origin (Staged st l e) = (case error_origin e of Some l' \<Rightarrow> Some l' | None \<Rightarrow> Some l)"
| "error_origin (Located l e) = Some l"
| "error_origin _ = None"

fun error_root :: "PipelineError \<Rightarrow> PipelineError" where
  "error_root (Located l e) = error_root e"
| "error_root (Staged st l e) = error_root e"
| "error_root e = e"

definition protocol_kind :: "str \<Rightarrow> str" where
  "protocol_kind m =
     (if str_contains m (lit ''reasoning content without final content'') then lit ''reasoning_only''
      else if str_contains m (lit ''empty content'') then lit ''empty_content''
      else if str_contains m (lit ''valid JSON'') \<or> str_contains m (lit ''invalid grounding JSON'')
        then lit ''invalid_json''
      else if str_contains m (lit ''schema_version'') \<or> str_contains m (lit ''must be a list'')
          \<or> str_contains m (lit ''must be an object'') \<or> str_contains m (lit ''fields are invalid'')
          \<or> str_contains m (lit ''duplicate'') \<or> str_contains m (lit ''omitted memory'')
        then lit ''schema_invalid''
      else if str_contains m (lit ''timed out'') then lit ''timeout''
      else if str_contains m (lit ''HTTP '') then lit ''http_status''
      else lit ''protocol'')"

text \<open>The last two patterns are the \<open>unreachable!\<close> arm: the root is never a wrapper.\<close>

definition source_error_kind :: "PipelineError \<Rightarrow> str" where
  "source_error_kind e = (case error_root e of
     InvalidInput m \<Rightarrow> lit ''invalid_input''
   | Json m \<Rightarrow> lit ''invalid_json''
   | Io m \<Rightarrow> lit ''io''
   | Protocol m \<Rightarrow> protocol_kind m
   | Located l e' \<Rightarrow> []
   | Staged st l e' \<Rightarrow> [])"

definition safe_summary :: "PipelineError \<Rightarrow> str" where
  "safe_summary e =
     (let k = source_error_kind e
      in if k = lit ''empty_content'' then lit ''model returned empty content''
         else if k = lit ''reasoning_only'' then lit ''model returned reasoning without final content''
         else if k = lit ''invalid_json'' then lit ''model returned invalid JSON''
         else if k = lit ''schema_invalid'' then lit ''model response did not match the required schema''
         else if k = lit ''timeout'' then lit ''model request timed out''
         else if k = lit ''http_status'' then lit ''model provider returned an HTTP error''
         else if k = lit ''invalid_input'' then lit ''pipeline input validation failed''
         else if k = lit ''io'' then lit ''pipeline I/O operation failed''
         else lit ''memory pipeline failed'')"

definition is_retriable :: "PipelineError \<Rightarrow> bool" where
  "is_retriable e \<longleftrightarrow>
     source_error_kind e \<notin> {lit ''invalid_input'', lit ''invalid_json'', lit ''schema_invalid''}"


section \<open>Laws of the wrappers\<close>

fun wrapper :: "PipelineError \<Rightarrow> bool" where
  "wrapper (Located l e) = True"
| "wrapper (Staged st l e) = True"
| "wrapper e = False"

lemma root_no_wrapper: "\<not> wrapper (error_root e)"
  by (induction e) auto

lemma root_wrap [simp]:
  "error_root (at_site loc site e) = error_root e" "error_root (at_stage loc st e) = error_root e"
  by (cases e; simp)+

lemma kind_wrap [simp]:
  "source_error_kind (at_site loc site e) = source_error_kind e"
  "source_error_kind (at_stage loc st e) = source_error_kind e"
  by (simp_all add: source_error_kind_def)

lemma string_wrap [simp]:
  "error_string (at_site loc site e) = error_string e" "error_string (at_stage loc st e) = error_string e"
  by (cases e; simp)+

lemma origin_at_stage:
  "error_origin (at_stage loc st e) = Some (case error_origin e of Some l \<Rightarrow> l
     | None \<Rightarrow> capture loc (stage_site st))"
  by (cases e) (auto split: option.split)

text \<open>Wrapping an error never changes what callers decide by: its message, its kind, whether
  it is worth a retry. The first location wins: a stage added around an error keeps the origin the
  error already had, and wrapping twice is wrapping once.\<close>

theorem wrapping_preserves_error:
  "error_string (at_stage loc st (at_site loc' site e)) = error_string e
   \<and> source_error_kind (at_stage loc st (at_site loc' site e)) = source_error_kind e
   \<and> is_retriable (at_stage loc st (at_site loc' site e)) = is_retriable e
   \<and> error_origin (at_stage loc st (at_site loc' site e)) = error_origin (at_site loc' site e)
   \<and> at_stage loc2 st2 (at_stage loc st e) = at_stage loc st e
   \<and> at_site loc2 site2 (at_site loc' site e) = at_site loc' site e
   \<and> error_stage (at_stage loc st e) \<noteq> None"
proof -
  have o: "\<exists>l. error_origin (at_site loc' site e) = Some l" by (cases e) auto
  have s: "\<exists>st' l e'. at_stage loc st e = Staged st' l e'" by (cases e) auto
  have l: "\<exists>l e'. at_site loc' site e = Located l e'" by (cases e) auto
  show ?thesis
    using o s l by (auto simp: is_retriable_def origin_at_stage)
qed

end
