(* ===== verification/PipeModels.thy ===== *)
theory PipeModels
  imports PipeError
begin

text \<open>
  The data of \<open>ram-a-mem/crates/memory-pipeline\<close> (\<open>models.rs\<close>) and the library code the pipeline
  is built on. What is not under \<open>src/\<close> (JSON text, SHA-256, chrono's date formats, the float
  and Unicode tables) is a field of the parameter \<open>penv\<close>: every definition that needs one takes
  the environment first.
\<close>

section \<open>Library code the crate relies on\<close>

text \<open>
  A finite \<open>f64\<close> as its two renderings: the mantissa and the exponent of \<open>{:e}\<close>, and the text of
  \<open>to_string\<close>; a zero keeps its sign; what overflows is infinite.
\<close>

datatype float_view = FInfinite | FZero bool | FFinite str int str

type_synonym f64 = "64 word"

record penv =
  pe_quote :: "str \<Rightarrow> str"
  pe_float :: "str \<Rightarrow> float_view"
  pe_in_unit :: "str \<Rightarrow> bool"
  pe_fadd :: "f64 \<Rightarrow> f64 \<Rightarrow> f64"
  pe_f64_value :: "f64 \<Rightarrow> json"
  pe_ratio :: "nat \<Rightarrow> nat \<Rightarrow> f64"
  pe_digest :: "str \<Rightarrow> str"
  pe_value_string :: "json \<Rightarrow> str"
  pe_parse_json :: "str \<Rightarrow> str + json"
  pe_debug :: "str \<Rightarrow> str"
  pe_lower :: "str \<Rightarrow> str"
  pe_rfc3339 :: "str \<Rightarrow> int option"
  pe_offset_time :: "str \<Rightarrow> str \<Rightarrow> int option"
  pe_naive_time :: "str \<Rightarrow> str \<Rightarrow> int option"
  pe_naive_date :: "str \<Rightarrow> str \<Rightarrow> int option"

text \<open>
  \<open>pe_quote\<close> is \<open>serde_json::to_string\<close> of a string, \<open>pe_float\<close> reads the text of a JSON number
  as \<open>f64\<close>, \<open>pe_in_unit\<close> says whether that value lies in \<open>0.0..=1.0\<close>, \<open>pe_fadd\<close> is the addition
  of \<open>f64\<close>, \<open>pe_f64_value\<close> its serialisation, \<open>pe_ratio\<close> the quotient of two counts as \<open>f64\<close>, \<open>pe_digest\<close> the first twelve bytes of SHA-256 in hexadecimal, \<open>pe_value_string\<close> is
  \<open>Value::to_string\<close>, \<open>pe_parse_json\<close> is \<open>serde_json::from_str\<close> (its error text on the left),
  \<open>pe_debug\<close> is the \<open>{:?}\<close> of a string, \<open>pe_lower\<close> is \<open>to_lowercase\<close>, and the last four read a time
  in nanoseconds since the epoch: RFC 3339, a \<open>DateTime\<close> format, a \<open>NaiveDateTime\<close> format taken as
  UTC, a \<open>NaiveDate\<close> format at midnight UTC.
\<close>

type_synonym jmap = "(str \<times> json) list"

section \<open>The data model\<close>

record PipelineIssue =
  pi_stage :: str
  pi_code :: str
  pi_message :: str
  pi_source_id :: str
  pi_scope_id :: str
  pi_episode_id :: str
  pi_window_id :: str
  pi_details :: jmap

definition default_issue :: PipelineIssue where
  "default_issue = \<lparr>pi_stage = [], pi_code = [], pi_message = [], pi_source_id = [],
     pi_scope_id = [], pi_episode_id = [], pi_window_id = [], pi_details = []\<rparr>"

record NormalizedMessage =
  nm_id :: str
  nm_scope_id :: str
  nm_text :: str
  nm_candidate_eligible :: bool
  nm_role :: str
  nm_speaker :: str
  nm_timestamp :: str
  nm_session_id :: str
  nm_turn_index :: "int option"
  nm_source_index :: nat
  nm_metadata :: jmap

type_synonym messages_by_id = "str \<rightharpoonup> NormalizedMessage"

record ConversationEpisode =
  ep_id :: str
  ep_scope_id :: str
  ep_session_id :: str
  ep_message_ids :: "str list"
  ep_start_time :: str
  ep_end_time :: str
  ep_boundary_reason :: str
  ep_version :: str

record MessageRef =
  mr_message_id :: str
  mr_start :: nat
  mr_end :: nat
  mr_text :: str

record ExtractionWindow =
  wi_id :: str
  wi_scope_id :: str
  wi_session_id :: str
  wi_episode_id :: str
  wi_candidate_refs :: "MessageRef list"
  wi_before_refs :: "MessageRef list"
  wi_after_refs :: "MessageRef list"
  wi_candidate_message_ids :: "str list"
  wi_candidate_tokens :: nat
  wi_total_tokens :: nat
  wi_version :: str

record EvidenceRef =
  ev_message_id :: str
  ev_quote :: str
  ev_start :: nat
  ev_end :: nat
  ev_role :: str

record AtomicMemory =
  am_id :: str
  am_scope_id :: str
  am_text :: str
  am_memory_type :: str
  am_subject :: jmap
  am_predicate :: str
  am_object :: "json option"
  am_modality :: str
  am_evidence :: "EvidenceRef list"
  am_event_time :: "jmap option"
  am_attributes :: jmap
  am_model_confidence :: "json option"
  am_observed_at :: str
  am_source_episode_id :: str
  am_source_window_id :: str
  am_observation_refs :: "jmap list"

definition jopt :: "json option \<Rightarrow> json" where
  "jopt v = (case v of None \<Rightarrow> JNull | Some x \<Rightarrow> x)"

definition jint :: "int \<Rightarrow> json" where
  "jint i = JNumber (if i < 0 then 45 # dec_str (nat (- i)) else dec_str (nat i))"

definition canonical_content :: "AtomicMemory \<Rightarrow> json" where
  "canonical_content m = jobject
     [(lit ''memory_type'', JString (am_memory_type m)),
      (lit ''text'', JString (am_text m)),
      (lit ''subject'', JObject (am_subject m)),
      (lit ''predicate'', JString (am_predicate m)),
      (lit ''object'', jopt (am_object m)),
      (lit ''modality'', JString (am_modality m)),
      (lit ''event_time'', jopt (map_option JObject (am_event_time m))),
      (lit ''attributes'', JObject (am_attributes m))]"


section \<open>The derived serialisations\<close>

definition message_ref_value :: "MessageRef \<Rightarrow> json" where
  "message_ref_value r = jobject
     [(lit ''message_id'', JString (mr_message_id r)), (lit ''start_char'', jnat (mr_start r)),
      (lit ''end_char'', jnat (mr_end r)), (lit ''text'', JString (mr_text r))]"

definition evidence_value :: "EvidenceRef \<Rightarrow> json" where
  "evidence_value e = jobject
     [(lit ''message_id'', JString (ev_message_id e)), (lit ''quote'', JString (ev_quote e)),
      (lit ''start_char'', jnat (ev_start e)), (lit ''end_char'', jnat (ev_end e)),
      (lit ''evidence_role'', JString (ev_role e))]"

text \<open>\<open>candidate_eligible\<close> is skipped where it is the default.\<close>

definition message_value :: "NormalizedMessage \<Rightarrow> json" where
  "message_value m = jobject
     ([(lit ''id'', JString (nm_id m)), (lit ''scope_id'', JString (nm_scope_id m)),
       (lit ''text'', JString (nm_text m))]
      @ (if nm_candidate_eligible m then []
         else [(lit ''candidate_eligible'', JBool (nm_candidate_eligible m))])
      @ [(lit ''role'', JString (nm_role m)), (lit ''speaker'', JString (nm_speaker m)),
         (lit ''timestamp'', JString (nm_timestamp m)),
         (lit ''session_id'', JString (nm_session_id m)),
         (lit ''turn_index'', jopt (map_option jint (nm_turn_index m))),
         (lit ''source_index'', jnat (nm_source_index m)),
         (lit ''metadata'', JObject (nm_metadata m))])"

definition window_value :: "ExtractionWindow \<Rightarrow> json" where
  "window_value w = jobject
     [(lit ''id'', JString (wi_id w)), (lit ''scope_id'', JString (wi_scope_id w)),
      (lit ''session_id'', JString (wi_session_id w)),
      (lit ''episode_id'', JString (wi_episode_id w)),
      (lit ''candidate_refs'', JArray (map message_ref_value (wi_candidate_refs w))),
      (lit ''context_before_refs'', JArray (map message_ref_value (wi_before_refs w))),
      (lit ''context_after_refs'', JArray (map message_ref_value (wi_after_refs w))),
      (lit ''candidate_message_ids'', JArray (map JString (wi_candidate_message_ids w))),
      (lit ''candidate_token_count'', jnat (wi_candidate_tokens w)),
      (lit ''total_token_count'', jnat (wi_total_tokens w)),
      (lit ''window_version'', JString (wi_version w))]"

definition memory_value :: "AtomicMemory \<Rightarrow> json" where
  "memory_value m = jobject
     [(lit ''id'', JString (am_id m)), (lit ''scope_id'', JString (am_scope_id m)),
      (lit ''text'', JString (am_text m)), (lit ''memory_type'', JString (am_memory_type m)),
      (lit ''subject'', JObject (am_subject m)), (lit ''predicate'', JString (am_predicate m)),
      (lit ''object'', jopt (am_object m)), (lit ''modality'', JString (am_modality m)),
      (lit ''evidence'', JArray (map evidence_value (am_evidence m))),
      (lit ''event_time'', jopt (map_option JObject (am_event_time m))),
      (lit ''attributes'', JObject (am_attributes m)),
      (lit ''model_confidence'', jopt (am_model_confidence m)),
      (lit ''observed_at'', JString (am_observed_at m)),
      (lit ''source_episode_id'', JString (am_source_episode_id m)),
      (lit ''source_window_id'', JString (am_source_window_id m)),
      (lit ''observation_refs'', JArray (map JObject (am_observation_refs m)))]"

end
