(* ===== verification/PipeCanonical.thy ===== *)
theory PipeCanonical
  imports PipeModels
begin

text \<open>
  Canonical JSON, content hashes and the token estimate (\<open>canonical.rs\<close>). The estimate is the
  number of matches of the crate's regular expression, computed by scanning: a maximal run of
  ASCII letters and digits is one match, any other character that is not white space is one.
\<close>

section \<open>Floats as Python prints them\<close>

definition scientific_to_fixed :: "str \<Rightarrow> int \<Rightarrow> str" where
  "scientific_to_fixed mantissa ex =
     (let negative = (mantissa \<noteq> [] \<and> hd mantissa = 45);
          ds = filter (\<lambda>c. c \<noteq> 46) (dropWhile (\<lambda>c. c = 45) mantissa);
          decimal = ex + 1;
          body = (if decimal \<le> 0 then lit ''0.'' @ replicate (nat (- decimal)) 48 @ ds
                  else if nat decimal \<ge> length ds
                    then ds @ replicate (nat decimal - length ds) 48
                  else take (nat decimal) ds @ [46] @ drop (nat decimal) ds);
          body' = (if 46 \<in> set body then body else body @ lit ''.0'')
      in if negative then 45 # body' else body')"

definition two_digits :: "nat \<Rightarrow> str" where
  "two_digits n = (if n < 10 then 48 # dec_str n else dec_str n)"

fun python_float :: "float_view \<Rightarrow> str" where
  "python_float FInfinite = []"
| "python_float (FZero negative) = (if negative then lit ''-0.0'' else lit ''0.0'')"
| "python_float (FFinite mantissa ex fixed) =
     (if - 4 \<le> ex \<and> ex < 16
      then (if 101 \<in> set fixed \<or> 69 \<in> set fixed then scientific_to_fixed mantissa ex
            else if 46 \<in> set fixed then fixed
            else fixed @ lit ''.0'')
      else mantissa @ [101, if ex < 0 then 45 else 43] @ two_digits (nat \<bar>ex\<bar>))"


section \<open>Canonical JSON\<close>

definition canonical_number :: "penv \<Rightarrow> str \<Rightarrow> str" where
  "canonical_number E encoded =
     (if 46 \<notin> set encoded \<and> 101 \<notin> set encoded \<and> 69 \<notin> set encoded then encoded
      else (case pe_float E encoded of FInfinite \<Rightarrow> encoded | v \<Rightarrow> python_float v))"

text \<open>The fields of an object in the order of their keys, \<open>sort_unstable\<close> on the distinct keys.\<close>

definition sorted_fields :: "(str \<times> 'v) list \<Rightarrow> (str \<times> 'v) list" where
  "sorted_fields kvs = obj_of kvs"

lemma size_obj_insert: "size_list f (obj_insert k v m) \<le> Suc (f (k, v) + size_list f m)"
  by (induction k v m rule: obj_insert.induct) auto

lemma size_obj_of: "size_list f (obj_of kvs) \<le> size_list f kvs"
proof -
  have "size_list f (fold (\<lambda>(k, v). obj_insert k v) kvs m) \<le> size_list f kvs + size_list f m" for m
  proof (induction kvs arbitrary: m)
    case (Cons kv kvs)
    obtain k v where kv: "kv = (k, v)" by (cases kv)
    show ?case
      using Cons [of "obj_insert k v m"] size_obj_insert [of f k v m] kv by simp
  qed simp
  from this [of "[]"] show ?thesis by (simp add: obj_of_def)
qed

function (sequential) write_canonical :: "penv \<Rightarrow> json \<Rightarrow> str"
  and write_elements :: "penv \<Rightarrow> json list \<Rightarrow> str"
  and write_fields :: "penv \<Rightarrow> (str \<times> json) list \<Rightarrow> str" where
  "write_canonical E JNull = lit ''null''"
| "write_canonical E (JBool b) = (if b then lit ''true'' else lit ''false'')"
| "write_canonical E (JNumber n) = canonical_number E n"
| "write_canonical E (JString s) = pe_quote E s"
| "write_canonical E (JArray vs) = [91] @ write_elements E vs @ [93]"
| "write_canonical E (JObject kvs) = [123] @ write_fields E (sorted_fields kvs) @ [125]"
| "write_elements E [] = []"
| "write_elements E [v] = write_canonical E v"
| "write_elements E (v # w # vs) = write_canonical E v @ [44] @ write_elements E (w # vs)"
| "write_fields E [] = []"
| "write_fields E [(k, v)] = pe_quote E k @ [58] @ write_canonical E v"
| "write_fields E ((k, v) # kv # kvs) =
     pe_quote E k @ [58] @ write_canonical E v @ [44] @ write_fields E (kv # kvs)"
  by pat_completeness auto


termination
  apply (relation "measure (\<lambda>x. case x of Inl (E, v) \<Rightarrow> 2 * size v
     | Inr (Inl (E, vs)) \<Rightarrow> Suc (2 * size_list size vs)
     | Inr (Inr (E, kvs)) \<Rightarrow> Suc (2 * size_list (size_prod (\<lambda>_. 0) size) kvs))")
  apply (auto simp: sorted_fields_def)
  subgoal for kvs
    using size_obj_of [of "size_prod (\<lambda>_. 0) size" kvs] by simp
  done

definition canonical_json :: "penv \<Rightarrow> json \<Rightarrow> str" where
  "canonical_json E v = write_canonical E v"

definition stable_hash :: "penv \<Rightarrow> json list \<Rightarrow> str" where
  "stable_hash E vs = pe_digest E (canonical_json E (JArray vs))"


section \<open>The token estimate\<close>

text \<open>\<open>\s\<close> of the regular expression is the \<open>White_Space\<close> property, \<open>is_ws\<close>. The flag says whether the
  previous character was part of a run of letters and digits.\<close>

fun count_tokens :: "bool \<Rightarrow> str \<Rightarrow> nat" where
  "count_tokens in_word [] = 0"
| "count_tokens in_word (c # s) =
     (if is_ascii_alnum c then (if in_word then 0 else 1) + count_tokens True s
      else (if is_ws c then 0 else 1) + count_tokens False s)"

definition estimate_tokens :: "str \<Rightarrow> nat" where
  "estimate_tokens s = count_tokens False s"

lemma count_tokens_mono_flag: "count_tokens True s \<le> count_tokens False s"
  by (cases s) auto

lemma count_tokens_flag: "count_tokens False s \<le> Suc (count_tokens True s)"
  by (cases s) auto

lemma count_tokens_append_le: "count_tokens b (s @ t) \<le> count_tokens b s + count_tokens False t"
proof (induction s arbitrary: b)
  case Nil
  then show ?case using count_tokens_mono_flag [of t] by (cases b) auto
qed (simp; blast?)

lemma count_tokens_prefix: "count_tokens b s \<le> count_tokens b (s @ t)"
  by (induction s arbitrary: b) auto

lemma count_tokens_length: "count_tokens b s \<le> length s"
proof (induction s arbitrary: b)
  case (Cons c s)
  show ?case using Cons.IH [of True] Cons.IH [of False] by simp
qed simp

lemma estimate_single: "estimate_tokens [c] \<le> 1"
  by (simp add: estimate_tokens_def)

lemma estimate_prefix: "estimate_tokens s \<le> estimate_tokens (s @ t)"
  by (simp add: estimate_tokens_def count_tokens_prefix)

end
