(* ===== verification/PipeCanonicalProps.thy ===== *)
theory PipeCanonicalProps
  imports PipeCanonical
begin

text \<open>
  Canonical JSON is a faithful encoding: on values whose numbers are integers, two values with
  the same canonical text are the same value, so two content hashes agree only if the digest
  collides.
\<close>

section \<open>Values whose numbers are integers\<close>

definition integer_text :: "str \<Rightarrow> bool" where
  "integer_text n \<longleftrightarrow> n \<noteq> [] \<and> (\<forall>c \<in> set n. is_ascii_digit c \<or> c = 45)"

text \<open>Objects in key order, as a \<open>BTreeMap\<close> iterates.\<close>

fun integer_json :: "json \<Rightarrow> bool" where
  "integer_json (JNumber n) = integer_text n"
| "integer_json (JArray vs) = list_all integer_json vs"
| "integer_json (JObject kvs) = (obj_of kvs = kvs \<and> list_all (\<lambda>kv. integer_json (snd kv)) kvs)"
| "integer_json _ = True"

text \<open>A quoted string starts with the quotation mark and ends where its own closing mark is.\<close>

definition self_delimiting :: "penv \<Rightarrow> bool" where
  "self_delimiting E \<longleftrightarrow>
     (\<forall>a. \<exists>t. pe_quote E a = 34 # t)
     \<and> (\<forall>a b s t. pe_quote E a @ s = pe_quote E b @ t \<longrightarrow> a = b \<and> s = t)"

definition closes :: "str \<Rightarrow> bool" where
  "closes s \<longleftrightarrow> s = [] \<or> hd s \<in> {44, 93, 125}"

lemma closes_simps [simp]: "closes []" "closes (44 # s)" "closes (93 # s)" "closes (125 # s)"
  by (simp_all add: closes_def)

lemma quote_cancel:
  "self_delimiting E \<Longrightarrow> pe_quote E a @ s = pe_quote E b @ t \<Longrightarrow> a = b \<and> s = t"
  unfolding self_delimiting_def by blast

lemma quote_head: "self_delimiting E \<Longrightarrow> \<exists>t. pe_quote E a = 34 # t"
  unfolding self_delimiting_def by blast

lemma canonical_integer: "integer_text n \<Longrightarrow> canonical_number E n = n"
  by (auto simp: integer_text_def canonical_number_def is_ascii_digit_def)

lemma integer_cancel:
  assumes "\<forall>c \<in> set n. is_ascii_digit c \<or> c = 45" "\<forall>c \<in> set m. is_ascii_digit c \<or> c = 45"
    and "closes s" "closes t" "n @ s = m @ t"
  shows "n = m \<and> s = t"
  using assms
proof (induction n arbitrary: m)
  case Nil
  then show ?case by (cases m) (auto simp: closes_def is_ascii_digit_def)
next
  case (Cons c n)
  then show ?case by (cases m) (auto simp: closes_def is_ascii_digit_def)
qed

text \<open>The first character of a canonical text, by the constructor of the value.\<close>

definition lead :: "json \<Rightarrow> nat \<Rightarrow> bool" where
  "lead v c \<longleftrightarrow> (case v of JNull \<Rightarrow> c = 110 | JBool b \<Rightarrow> c = (if b then 116 else 102)
     | JNumber n \<Rightarrow> is_ascii_digit c \<or> c = 45 | JString s \<Rightarrow> c = 34
     | JArray vs \<Rightarrow> c = 91 | JObject kvs \<Rightarrow> c = 123)"

lemma canonical_lead:
  assumes "self_delimiting E" "integer_json v"
  obtains c t where "write_canonical E v = c # t" "lead v c"
proof (cases v)
  case (JNumber n)
  with assms have "integer_text n" by simp
  then show thesis
    using that [of "hd n" "tl n"] JNumber canonical_integer [of n E]
    by (cases n) (auto simp: integer_text_def lead_def)
next
  case (JString s)
  then show thesis using quote_head [OF assms(1), of s] that by (auto simp: lead_def)
next
  case (JBool b)
  then show thesis using that by (cases b) (auto simp: lead_def lit_def)
qed (use that in \<open>auto simp: lead_def lit_def\<close>)

lemma lead_functional:
  "lead v c \<Longrightarrow> lead w c \<Longrightarrow>
   (case v of JNull \<Rightarrow> w = JNull | JBool b \<Rightarrow> w = JBool b | JNumber n \<Rightarrow> \<exists>m. w = JNumber m
     | JString s \<Rightarrow> \<exists>r. w = JString r | JArray vs \<Rightarrow> \<exists>ws. w = JArray ws
     | JObject kvs \<Rightarrow> \<exists>kws. w = JObject kws)"
  by (cases v; cases w; auto simp: lead_def is_ascii_digit_def split: if_splits)

lemma same_constructor:
  assumes "self_delimiting E" "integer_json v" "integer_json w"
    and "write_canonical E v @ s = write_canonical E w @ t"
  shows "case v of JNull \<Rightarrow> w = JNull | JBool b \<Rightarrow> w = JBool b | JNumber n \<Rightarrow> \<exists>m. w = JNumber m
     | JString s \<Rightarrow> \<exists>r. w = JString r | JArray vs \<Rightarrow> \<exists>ws. w = JArray ws
     | JObject kvs \<Rightarrow> \<exists>kws. w = JObject kws"
proof -
  obtain c v' where v: "write_canonical E v = c # v'" "lead v c"
    using canonical_lead [OF assms(1,2)] by blast
  obtain d w' where w: "write_canonical E w = d # w'" "lead w d"
    using canonical_lead [OF assms(1,3)] by blast
  have "lead w c" using assms(4) v w by simp
  with v(2) show ?thesis by (rule lead_functional)
qed

lemma canonical_not_bracket:
  assumes "self_delimiting E" "integer_json v"
  shows "write_canonical E v @ s \<noteq> 93 # t"
proof -
  obtain c v' where v: "write_canonical E v = c # v'" "lead v c"
    using canonical_lead [OF assms] by blast
  have "c \<noteq> 93" using v(2) by (cases v) (auto simp: lead_def is_ascii_digit_def split: if_splits)
  with v(1) show ?thesis by simp
qed

definition tail_elements :: "penv \<Rightarrow> json list \<Rightarrow> str \<Rightarrow> str" where
  "tail_elements E vs s = (if vs = [] then 93 # s else 44 # write_elements E vs @ 93 # s)"

definition tail_fields :: "penv \<Rightarrow> (str \<times> json) list \<Rightarrow> str \<Rightarrow> str" where
  "tail_fields E kvs s = (if kvs = [] then 125 # s else 44 # write_fields E kvs @ 125 # s)"

lemma closes_tail [simp]: "closes (tail_elements E vs s)" "closes (tail_fields E kvs s)"
  by (simp_all add: tail_elements_def tail_fields_def)

lemma elements_head:
  "write_elements E (v # vs) @ 93 # s = write_canonical E v @ tail_elements E vs s"
  by (cases vs) (simp_all add: tail_elements_def)

lemma fields_head:
  "write_fields E ((k, v) # kvs) @ 125 # s
     = pe_quote E k @ 58 # write_canonical E v @ tail_fields E kvs s"
  by (cases kvs) (simp_all add: tail_fields_def)


section \<open>Unique reading\<close>

lemma unique_reading:
  fixes E v vs kvs
  assumes E: "self_delimiting E"
  shows "\<And>w s t. integer_json v \<Longrightarrow> integer_json w \<Longrightarrow> closes s \<Longrightarrow> closes t \<Longrightarrow>
       write_canonical E v @ s = write_canonical E w @ t \<Longrightarrow> v = w \<and> s = t"
    and "\<And>ws s t. list_all integer_json vs \<Longrightarrow> list_all integer_json ws \<Longrightarrow>
       write_elements E vs @ 93 # s = write_elements E ws @ 93 # t \<Longrightarrow> vs = ws \<and> s = t"
    and "\<And>kws s t. list_all (\<lambda>kv. integer_json (snd kv)) kvs \<Longrightarrow>
       list_all (\<lambda>kv. integer_json (snd kv)) kws \<Longrightarrow>
       write_fields E kvs @ 125 # s = write_fields E kws @ 125 # t \<Longrightarrow> kvs = kws \<and> s = t"
  using E
proof (induction E v and E vs and E kvs rule: write_canonical_write_elements_write_fields.induct)
  case (1 E)
  then show ?case using same_constructor [of E JNull w s t] by auto
next
  case (2 E b)
  then show ?case using same_constructor [of E "JBool b" w s t] by auto
next
  case (3 E n)
  then obtain m where w: "w = JNumber m" using same_constructor [of E "JNumber n" w s t] by auto
  with 3 show ?case
    using integer_cancel [of n m s t] by (auto simp: canonical_integer integer_text_def)
next
  case (4 E r)
  then obtain m where w: "w = JString m" using same_constructor [of E "JString r" w s t] by auto
  with 4 show ?case using quote_cancel [of E r s m t] by auto
next
  case (5 E vs)
  then obtain ws where w: "w = JArray ws" using same_constructor [of E "JArray vs" w s t] by auto
  have "write_elements E vs @ 93 # s = write_elements E ws @ 93 # t"
    using 5(6) unfolding w by simp
  then have "vs = ws \<and> s = t" using 5(1) [of ws s t] 5(2,3,7) w by simp
  with w show ?case by simp
next
  case (6 E kvs)
  then obtain kws where w: "w = JObject kws" using same_constructor [of E "JObject kvs" w s t] by auto
  have srt: "sorted_fields kvs = kvs" "sorted_fields kws = kws"
    using 6(2,3) w by (simp_all add: sorted_fields_def)
  have "write_fields E kvs @ 125 # s = write_fields E kws @ 125 # t"
    using 6(6) unfolding w by (simp add: srt)
  moreover have "list_all (\<lambda>kv. integer_json (snd kv)) kvs"
      "list_all (\<lambda>kv. integer_json (snd kv)) kws"
    using 6(2,3) w by simp_all
  ultimately have "kvs = kws \<and> s = t"
    using 6(1) [unfolded srt, of kws s t] 6(7) by blast
  with w show ?case by simp
next
  case (7 E)
  show ?case
  proof (cases ws)
    case (Cons w ws')
    have "93 # s = write_canonical E w @ tail_elements E ws' t"
      using 7(3) Cons elements_head [of E w ws' t] by simp
    then show ?thesis using canonical_not_bracket [of E w "tail_elements E ws' t" s] 7 Cons by simp
  qed (use 7 in simp)
next
  case (8 E v)
  show ?case
  proof (cases ws)
    case Nil
    then show ?thesis using canonical_not_bracket [of E v "93 # s" t] 8 by simp
  next
    case (Cons w ws')
    have r: "write_canonical E v @ 93 # s = write_canonical E w @ tail_elements E ws' t"
      using 8(4) Cons elements_head [of E w ws' t] by simp
    have "v = w \<and> 93 # s = tail_elements E ws' t"
      by (rule 8(1)) (use 8(2,3,5) Cons r in simp_all)
    then show ?thesis using Cons by (auto simp: tail_elements_def split: if_splits)
  qed
next
  case (9 E v v2 vs)
  show ?case
  proof (cases ws)
    case Nil
    then show ?thesis
      using canonical_not_bracket [of E v "44 # write_elements E (v2 # vs) @ 93 # s" t] 9 by simp
  next
    case (Cons w ws')
    have r: "write_canonical E v @ 44 # write_elements E (v2 # vs) @ 93 # s
        = write_canonical E w @ tail_elements E ws' t"
      using 9(5) Cons elements_head [of E w ws' t] by simp
    have *: "v = w \<and> 44 # write_elements E (v2 # vs) @ 93 # s = tail_elements E ws' t"
      by (rule 9(1)) (use 9(3,4,6) Cons r in simp_all)
    then have "ws' \<noteq> []" "write_elements E (v2 # vs) @ 93 # s = write_elements E ws' @ 93 # t"
      by (auto simp: tail_elements_def split: if_splits)
    then have "v2 # vs = ws' \<and> s = t"
      by (intro 9(2)) (use 9(3,4,6) Cons in simp_all)
    then show ?thesis using Cons * by simp
  qed
next
  case (10 E)
  show ?case
  proof (cases kws)
    case (Cons kw kws')
    obtain k w where kw: "kw = (k, w)" by (cases kw)
    obtain q where q: "pe_quote E k = 34 # q" using quote_head [of E k] 10 by blast
    show ?thesis using 10(3) Cons kw fields_head [of E k w kws' t] q by simp
  qed (use 10 in simp)
next
  case (11 E k v)
  obtain q where q: "pe_quote E k = 34 # q" using quote_head [of E k] 11 by blast
  show ?case
  proof (cases kws)
    case Nil
    then show ?thesis using 11(4) q by simp
  next
    case (Cons kw kws')
    obtain k' w where kw: "kw = (k', w)" by (cases kw)
    have "pe_quote E k @ 58 # write_canonical E v @ 125 # s
        = pe_quote E k' @ 58 # write_canonical E w @ tail_fields E kws' t"
      using 11(4) Cons kw fields_head [of E k' w kws' t] by simp
    then have k: "k = k'" and r: "write_canonical E v @ 125 # s
        = write_canonical E w @ tail_fields E kws' t"
      using quote_cancel [of E k _ k'] 11 by blast+
    have "v = w \<and> 125 # s = tail_fields E kws' t"
      by (rule 11(1)) (use 11(2,3,5) Cons kw r in simp_all)
    then show ?thesis using Cons kw k by (auto simp: tail_fields_def split: if_splits)
  qed
next
  case (12 E k v kv kvs)
  obtain q where q: "pe_quote E k = 34 # q" using quote_head [of E k] 12 by blast
  let ?r = "44 # write_fields E (kv # kvs) @ 125 # s"
  show ?case
  proof (cases kws)
    case Nil
    then show ?thesis using 12(5) q by simp
  next
    case (Cons kw kws')
    obtain k' w where kw: "kw = (k', w)" by (cases kw)
    have "pe_quote E k @ 58 # write_canonical E v @ ?r
        = pe_quote E k' @ 58 # write_canonical E w @ tail_fields E kws' t"
      using 12(5) Cons kw fields_head [of E k' w kws' t] by simp
    then have k: "k = k'" and r: "write_canonical E v @ ?r
        = write_canonical E w @ tail_fields E kws' t"
      using quote_cancel [of E k _ k'] 12 by blast+
    have *: "v = w \<and> ?r = tail_fields E kws' t"
      by (rule 12(1)) (use 12(3,4,6) Cons kw r in simp_all)
    then have "kws' \<noteq> []" "write_fields E (kv # kvs) @ 125 # s = write_fields E kws' @ 125 # t"
      by (auto simp: tail_fields_def split: if_splits)
    then have "kv # kvs = kws' \<and> s = t"
      by (intro 12(2)) (use 12(3,4,6) Cons kw in simp_all)
    then show ?thesis using Cons kw k * by simp
  qed
qed


section \<open>Canonical text determines the value\<close>

text \<open>A concrete environment for the applications: quotation with a backslash before the quotation
  mark and the backslash, dates as one digit string, the identity as digest.\<close>

definition sample_escape :: "nat \<Rightarrow> str" where
  "sample_escape c = (if c = 34 \<or> c = 92 then [92, c] else [c])"

definition sample_quote :: "str \<Rightarrow> str" where
  "sample_quote s = 34 # concat (map sample_escape s) @ [34]"

definition sample_env :: penv where
  "sample_env = \<lparr>pe_quote = sample_quote, pe_float = (\<lambda>_. FInfinite),
     pe_in_unit = (\<lambda>n. n = lit ''0'' \<or> n = lit ''1''), pe_fadd = (+),
     pe_f64_value = (\<lambda>x. jnat (unat x)), pe_ratio = (\<lambda>a b. of_nat a), pe_digest = (\<lambda>s. s),
     pe_value_string = (\<lambda>_. []), pe_parse_json = (\<lambda>_. Inl []), pe_debug = sample_quote,
     pe_lower = map ascii_lower, pe_rfc3339 = (\<lambda>s. map_option int (digits s)),
     pe_offset_time = (\<lambda>_ _. None), pe_naive_time = (\<lambda>_ _. None),
     pe_naive_date = (\<lambda>_ _. None)\<rparr>"

lemma sample_escape_cancel:
  "concat (map sample_escape a) @ 34 # s = concat (map sample_escape b) @ 34 # t
   \<Longrightarrow> a = b \<and> s = t"
proof (induction a arbitrary: b)
  case Nil
  then show ?case by (cases b) (auto simp: sample_escape_def split: if_splits)
next
  case (Cons c a)
  then show ?case by (cases b) (auto simp: sample_escape_def split: if_splits)
qed

lemma sample_self_delimiting: "self_delimiting sample_env"
  unfolding self_delimiting_def
  by (auto simp: sample_env_def sample_quote_def dest: sample_escape_cancel)

text \<open>C18: Two values in key order whose numbers are integers have the same canonical JSON exactly
  when they are equal, so the content hashes, cache keys and the aggregation key built on it
  separate different contents up to collisions of the digest. The quotation of strings enters as
  documented by JSON: a string literal starts with the quotation mark and ends at its own.\<close>

theorem canonical_json_injective:
  assumes "self_delimiting E" "integer_json v" "integer_json w"
  shows "canonical_json E v = canonical_json E w \<longleftrightarrow> v = w"
  using unique_reading(1) [OF assms, of "[]" "[]"] by (auto simp: canonical_json_def)

theorem canonical_json_injective_witness:
  "canonical_json sample_env (JArray [JString (lit ''a,b'')])
     \<noteq> canonical_json sample_env (JArray [JString (lit ''a''), JString (lit ''b'')])"
  by (subst canonical_json_injective [OF sample_self_delimiting]) simp_all

end
