(* ===== verification/PipeClient.thy ===== *)
theory PipeClient
  imports PipeCanonicalProps
begin

text \<open>
  The chat client (\<open>client.rs\<close>). The HTTP provider is the parameter \<open>http\<close>: the outcome of the n-th
  request for a payload, which covers whatever a server answers. The client's state counts the
  requests sent and records the waits between them, in seconds.
\<close>

section \<open>Options\<close>

datatype OutputTokenParameter = MaxTokens | MaxCompletionTokens

datatype StructuredOutputMode = PromptOnly | JsonObjectMode | JsonSchemaMode

record ChatCompatibilityOptions =
  co_reasoning_effort :: "str option"
  co_enable_thinking :: "bool option"
  co_send_temperature :: bool
  co_temperature :: f64
  co_output_token_parameter :: OutputTokenParameter
  co_structured_output :: StructuredOutputMode
  co_reasoning_only_retry :: bool
  co_json_repair_attempts :: nat

definition default_compatibility :: ChatCompatibilityOptions where
  "default_compatibility = \<lparr>co_reasoning_effort = None, co_enable_thinking = None,
     co_send_temperature = True, co_temperature = 0, co_output_token_parameter = MaxTokens,
     co_structured_output = PromptOnly, co_reasoning_only_retry = False,
     co_json_repair_attempts = 0\<rparr>"

fun token_parameter_name :: "OutputTokenParameter \<Rightarrow> str" where
  "token_parameter_name MaxTokens = lit ''max_tokens''"
| "token_parameter_name MaxCompletionTokens = lit ''max_completion_tokens''"

fun output_mode_name :: "StructuredOutputMode \<Rightarrow> str" where
  "output_mode_name PromptOnly = lit ''prompt_only''"
| "output_mode_name JsonObjectMode = lit ''json_object''"
| "output_mode_name JsonSchemaMode = lit ''json_schema''"

definition compatibility_value :: "penv \<Rightarrow> ChatCompatibilityOptions \<Rightarrow> json" where
  "compatibility_value E o' = jobject
     [(lit ''reasoning_effort'', jopt (map_option JString (co_reasoning_effort o'))),
      (lit ''enable_thinking'', jopt (map_option JBool (co_enable_thinking o'))),
      (lit ''send_temperature'', JBool (co_send_temperature o')),
      (lit ''temperature'', pe_f64_value E (co_temperature o')),
      (lit ''output_token_parameter'', JString (token_parameter_name (co_output_token_parameter o'))),
      (lit ''structured_output'', JString (output_mode_name (co_structured_output o'))),
      (lit ''reasoning_only_retry'', JBool (co_reasoning_only_retry o')),
      (lit ''json_repair_attempts'', jnat (co_json_repair_attempts o'))]"

record StructuredOutputSpec =
  so_name :: str
  so_strict :: bool
  so_schema :: json

record ModelUsage =
  mu_latency_ms :: f64
  mu_prompt_tokens :: int
  mu_completion_tokens :: int
  mu_total_tokens :: int

definition default_usage :: ModelUsage where
  "default_usage = \<lparr>mu_latency_ms = 0, mu_prompt_tokens = 0, mu_completion_tokens = 0,
     mu_total_tokens = 0\<rparr>"

text \<open>Sums of \<open>i64\<close> wrap around, as they do in a build with the release profile.\<close>

definition i64_add :: "int \<Rightarrow> int \<Rightarrow> int" where
  "i64_add a b = sint (word_of_int (a + b) :: 64 word)"

definition combine_usage :: "penv \<Rightarrow> ModelUsage \<Rightarrow> ModelUsage \<Rightarrow> ModelUsage" where
  "combine_usage E acc added =
     \<lparr>mu_latency_ms = pe_fadd E (mu_latency_ms acc) (mu_latency_ms added),
      mu_prompt_tokens = i64_add (mu_prompt_tokens acc) (mu_prompt_tokens added),
      mu_completion_tokens = i64_add (mu_completion_tokens acc) (mu_completion_tokens added),
      mu_total_tokens = i64_add (mu_total_tokens acc) (mu_total_tokens added)\<rparr>"

record OpenAiClient =
  cl_api_key :: str
  cl_base_url :: str
  cl_max_retries :: nat
  cl_compat :: ChatCompatibilityOptions

text \<open>The HTTP library's builder either fails with a message or yields its client.\<close>

definition new_client :: "(unit + str) \<Rightarrow> str \<Rightarrow> str \<Rightarrow> nat \<Rightarrow> OpenAiClient presult" where
  "new_client build api_key base_url max_retries =
     (if trim api_key = [] then Inl (InvalidInput (lit ''API key must not be empty''))
      else (case build of
         Inr e \<Rightarrow> Inl (Protocol (lit ''cannot build HTTP client: '' @ e))
       | Inl _ \<Rightarrow> Inr \<lparr>cl_api_key = api_key,
            cl_base_url = rev (dropWhile (\<lambda>c. c = 47) (rev base_url)),
            cl_max_retries = max_retries, cl_compat = default_compatibility\<rparr>))"

definition with_reasoning_effort :: "OpenAiClient \<Rightarrow> str option \<Rightarrow> OpenAiClient" where
  "with_reasoning_effort cl effort = cl\<lparr>cl_compat := (cl_compat cl)\<lparr>co_reasoning_effort :=
     (case effort of None \<Rightarrow> None | Some v \<Rightarrow> if trim v = [] then None else Some (trim v))\<rparr>\<rparr>"

definition validate_context_budget ::
    "penv \<Rightarrow> json list \<Rightarrow> nat \<Rightarrow> nat option \<Rightarrow> nat \<Rightarrow> unit presult" where
  "validate_context_budget E msgs max_output context_window reserve = (case context_window of
     None \<Rightarrow> Inr ()
   | Some window \<Rightarrow>
      (let prompt = estimate_tokens (pe_value_string E (JArray msgs));
           needed = min (min (prompt + max_output) (2 ^ 64 - 1) + reserve) (2 ^ 64 - 1)
       in if needed > window
          then Inl (InvalidInput
            (lit ''context_budget_exceeded: estimated request requires '' @ dec_str needed
             @ lit '' tokens but model window is '' @ dec_str window))
          else Inr ()))"


section \<open>Payload\<close>

definition build_payload ::
    "penv \<Rightarrow> OpenAiClient \<Rightarrow> str \<Rightarrow> json list \<Rightarrow> nat \<Rightarrow> StructuredOutputSpec option \<Rightarrow> bool \<Rightarrow> json presult" where
  "build_payload E cl model msgs max_tokens spec correction =
     (let c = cl_compat cl;
          base = [(lit ''model'', JString model), (lit ''messages'', JArray msgs)]
            @ (if co_send_temperature c then [(lit ''temperature'', pe_f64_value E (co_temperature c))] else [])
            @ [(token_parameter_name (co_output_token_parameter c), jnat max_tokens)]
            @ (case co_reasoning_effort c of None \<Rightarrow> []
               | Some effort \<Rightarrow> [(lit ''reasoning_effort'', JString (if correction then lit ''none'' else effort))])
            @ (case co_enable_thinking c of None \<Rightarrow> []
               | Some b \<Rightarrow> [(lit ''enable_thinking'', JBool (if correction then False else b))])
      in (case co_structured_output c of
            PromptOnly \<Rightarrow> Inr (jobject base)
          | JsonObjectMode \<Rightarrow> Inr (jobject (base
              @ [(lit ''response_format'', jobject [(lit ''type'', JString (lit ''json_object''))])]))
          | JsonSchemaMode \<Rightarrow> (case spec of
              None \<Rightarrow> Inl (InvalidInput (lit ''json_schema structured output requires a schema''))
            | Some sp \<Rightarrow> Inr (jobject (base
                @ [(lit ''response_format'', jobject
                     [(lit ''type'', JString (lit ''json_schema'')),
                      (lit ''json_schema'', jobject
                        [(lit ''name'', JString (so_name sp)), (lit ''strict'', JBool (so_strict sp)),
                         (lit ''schema'', so_schema sp)])])])))))"


section \<open>Reasoning in the content\<close>

text \<open>\<open>str::find\<close>: what precedes the first occurrence and what follows it.\<close>

fun split_once :: "'a list \<Rightarrow> 'a list \<Rightarrow> ('a list \<times> 'a list) option" where
  "split_once [] p = (if p = [] then Some ([], []) else None)"
| "split_once (c # s) p =
     (if starts_with (c # s) p then Some ([], drop (length p) (c # s))
      else map_option (\<lambda>(a, b). (c # a, b)) (split_once s p))"

lemma split_once_Some:
  "split_once s p = Some (a, b) \<Longrightarrow> s = a @ p @ b"
proof (induction s arbitrary: a)
  case (Cons c s)
  show ?case
  proof (cases "starts_with (c # s) p")
    case True
    then show ?thesis using Cons.prems by (auto simp: starts_with_iff)
  next
    case False
    then obtain a' where "split_once s p = Some (a', b)" "a = c # a'" using Cons.prems by auto
    with Cons.IH show ?thesis by simp
  qed
qed (auto split: if_splits)

lemma split_once_None: "split_once s p = None \<longleftrightarrow> \<not> str_contains s p"
  by (induction s) auto

lemma split_once_len: "split_once s p = Some (a, b) \<Longrightarrow> length s = length a + length p + length b"
  by (auto dest: split_once_Some)

definition think_open :: str where "think_open = lit ''<think>''"
definition think_close :: str where "think_close = lit ''</think>''"

function think_loop :: "str \<Rightarrow> bool \<Rightarrow> str \<Rightarrow> str \<times> bool" where
  "think_loop cleaned thinking rest = (case split_once rest think_open of
     None \<Rightarrow> (trim (cleaned @ rest), thinking)
   | Some (before, inner) \<Rightarrow>
      (case split_once inner think_close of
         None \<Rightarrow> (trim_end (cleaned @ before), True)
       | Some (_, after) \<Rightarrow> think_loop (cleaned @ before) True after))"
  by pat_completeness auto

termination
  by (relation "measure (\<lambda>(cleaned, thinking, rest). length rest)")
     (auto dest!: split_once_len simp: think_open_def)

declare think_loop.simps [simp del]

definition split_think_tags :: "str \<Rightarrow> str \<times> bool" where
  "split_think_tags content =
     (if \<not> str_contains content think_open then (trim content, False)
      else think_loop [] False content)"


section \<open>Requests\<close>

datatype http_outcome =
    SendError str
  | HttpStatus nat str
  | BodyError str
  | HttpBody str f64

record ParsedResponse =
  pr_content :: str
  pr_has_reasoning :: bool
  pr_finish_reason :: "str option"
  pr_usage :: ModelUsage

record ChatResult =
  cr_content :: str
  cr_usage :: ModelUsage

definition retryable :: "nat \<Rightarrow> bool" where
  "retryable code \<longleftrightarrow> code \<in> {408, 425, 429, 500, 502, 503, 504}"

text \<open>A JSON pointer; an array takes a decimal index without leading zeros.\<close>

definition pointer_index :: "str \<Rightarrow> nat option" where
  "pointer_index k = (if k = [] \<or> hd k = 43 \<or> (hd k = 48 \<and> length k \<noteq> 1) then None else parse_u64 k)"

fun json_pointer :: "json \<Rightarrow> str list \<Rightarrow> json option" where
  "json_pointer v [] = Some v"
| "json_pointer (JObject m) (k # ks) = (case map_of m k of None \<Rightarrow> None | Some v \<Rightarrow> json_pointer v ks)"
| "json_pointer (JArray xs) (k # ks) = (case pointer_index k of
     None \<Rightarrow> None | Some i \<Rightarrow> if i < length xs then json_pointer (xs ! i) ks else None)"
| "json_pointer _ (k # ks) = None"

definition estimate_text_tokens :: "str \<Rightarrow> int" where
  "estimate_text_tokens s = int (max (length s div 4) 1)"

definition estimate_value_tokens :: "penv \<Rightarrow> json \<Rightarrow> int" where
  "estimate_value_tokens E v = estimate_text_tokens (pe_value_string E v)"

definition usage_or :: "int option \<Rightarrow> int \<Rightarrow> int" where
  "usage_or v d = (case v of Some i \<Rightarrow> i | None \<Rightarrow> d)"

definition message_path :: "string \<Rightarrow> str list" where
  "message_path f = [lit ''choices'', lit ''0'', lit ''message'', lit f]"

definition parse_response :: "penv \<Rightarrow> json \<Rightarrow> json \<Rightarrow> f64 \<Rightarrow> ParsedResponse" where
  "parse_response E payload raw elapsed =
     (let text = trim (case Option.bind (json_pointer raw (message_path ''content'')) as_str of
            Some s \<Rightarrow> s | None \<Rightarrow> []);
          (content, thinking) = split_think_tags text;
          reasoning = (case Option.bind (json_pointer raw (message_path ''reasoning_content'')) as_str of
            Some s \<Rightarrow> trim s \<noteq> [] | None \<Rightarrow> False);
          prompt = usage_or (Option.bind (json_pointer raw [lit ''usage'', lit ''prompt_tokens'']) as_i64)
            (estimate_value_tokens E (json_index payload (lit ''messages'')));
          completion = usage_or (Option.bind (json_pointer raw [lit ''usage'', lit ''completion_tokens'']) as_i64)
            (estimate_text_tokens content);
          all_tokens = usage_or (Option.bind (json_pointer raw [lit ''usage'', lit ''total_tokens'']) as_i64)
            (i64_add prompt completion)
      in \<lparr>pr_content = content, pr_has_reasoning = reasoning \<or> thinking,
          pr_finish_reason = Option.bind (json_pointer raw
            [lit ''choices'', lit ''0'', lit ''finish_reason'']) as_str,
          pr_usage = \<lparr>mu_latency_ms = elapsed, mu_prompt_tokens = prompt,
            mu_completion_tokens = completion, mu_total_tokens = all_tokens\<rparr>\<rparr>)"

text \<open>One attempt: a response, an error worth another attempt, or one that is not.\<close>

datatype attempt = Answered ParsedResponse | RetryAfter str | GiveUp str

definition attempt_result :: "penv \<Rightarrow> json \<Rightarrow> http_outcome \<Rightarrow> attempt" where
  "attempt_result E payload out = (case out of
     SendError e \<Rightarrow> RetryAfter e
   | HttpStatus code status_text \<Rightarrow>
       if retryable code then RetryAfter (lit ''HTTP '' @ status_text) else GiveUp (lit ''HTTP '' @ status_text)
   | BodyError e \<Rightarrow> RetryAfter (lit ''chat completion body read failed: '' @ e)
   | HttpBody body_text elapsed \<Rightarrow>
      (case pe_parse_json E body_text of
         Inl e \<Rightarrow> RetryAfter (lit ''chat completion returned invalid JSON: '' @ e)
       | Inr raw \<Rightarrow> Answered (parse_response E payload raw elapsed)))"

definition backoff :: "nat \<Rightarrow> nat" where
  "backoff n = min (2 ^ min n 6) 64"

record client_state =
  cs_requests :: nat
  cs_waits :: "nat list"

type_synonym provider = "nat \<Rightarrow> json \<Rightarrow> http_outcome"

definition chat_site :: "nat \<Rightarrow> str \<Rightarrow> PipelineError" where
  "chat_site line m = at_site (lit ''crates/memory-pipeline/src/client.rs'', line)
     (lit ''memory_pipeline.provider.chat_completion'') (Protocol m)"

text \<open>\<open>k\<close> attempts are left, \<open>n\<close> have been made.\<close>

fun send_loop ::
    "penv \<Rightarrow> provider \<Rightarrow> json \<Rightarrow> nat \<Rightarrow> nat \<Rightarrow> client_state \<Rightarrow> str \<Rightarrow> client_state \<times> ParsedResponse presult" where
  "send_loop E http payload n 0 cs err =
     (cs, Inl (chat_site 421 (lit ''chat completion failed after retries: '' @ err)))"
| "send_loop E http payload n (Suc k) cs err =
     (let cs' = cs\<lparr>cs_requests := cs_requests cs + 1\<rparr>
      in (case attempt_result E payload (http (cs_requests cs) payload) of
            Answered r \<Rightarrow> (cs', Inr r)
          | GiveUp e \<Rightarrow>
              (cs', Inl (chat_site 421 (lit ''chat completion failed after retries: '' @ e)))
          | RetryAfter e \<Rightarrow>
              send_loop E http payload (n + 1) k
                (if k > 0 then cs'\<lparr>cs_waits := cs_waits cs @ [backoff n]\<rparr> else cs') e))"

definition send_with_retries ::
    "penv \<Rightarrow> provider \<Rightarrow> OpenAiClient \<Rightarrow> json \<Rightarrow> client_state \<Rightarrow> client_state \<times> ParsedResponse presult" where
  "send_with_retries E http cl payload cs = send_loop E http payload 0 (max (cl_max_retries cl) 1) cs []"

definition correction_message :: json where
  "correction_message = jobject [(lit ''role'', JString (lit ''system'')), (lit ''content'', JString
     (lit ''Return the final answer in message.content now. Do not return reasoning without final content.''))]"

text \<open>\<open>k\<close> semantic attempts are left; the loop is entered with one or two, so the first equation, the
  \<open>unreachable!\<close> of the source, is never the result.\<close>

fun semantic_loop ::
    "penv \<Rightarrow> provider \<Rightarrow> OpenAiClient \<Rightarrow> str \<Rightarrow> json list \<Rightarrow> nat \<Rightarrow> StructuredOutputSpec option
     \<Rightarrow> bool \<Rightarrow> nat \<Rightarrow> ModelUsage \<Rightarrow> client_state \<Rightarrow> client_state \<times> ChatResult presult" where
  "semantic_loop E http cl model msgs max_tokens spec correction 0 usage cs =
     (cs, Inl (chat_site 239 (lit ''chat completion returned reasoning content without final content'')))"
| "semantic_loop E http cl model msgs max_tokens spec correction (Suc k) usage cs =
     (case build_payload E cl model (if correction then correction_message # msgs else msgs) max_tokens
             spec correction of
        Inl e \<Rightarrow> (cs, Inl e)
      | Inr payload \<Rightarrow>
         (case send_with_retries E http cl payload cs of
            (cs', Inl e) \<Rightarrow> (cs', Inl e)
          | (cs', Inr r) \<Rightarrow>
             (let usage' = combine_usage E usage (pr_usage r)
              in if pr_content r \<noteq> [] then (cs', Inr \<lparr>cr_content = pr_content r, cr_usage = usage'\<rparr>)
                 else if pr_has_reasoning r
                 then (if k > 0
                       then semantic_loop E http cl model msgs max_tokens spec True k usage' cs'
                       else (cs', Inl (chat_site 239
                         (lit ''chat completion returned reasoning content without final content''))))
                 else (cs', Inl (chat_site 243 (lit ''chat completion returned empty content''))))))"

definition chat_with_schema ::
    "penv \<Rightarrow> provider \<Rightarrow> OpenAiClient \<Rightarrow> str \<Rightarrow> json list \<Rightarrow> nat \<Rightarrow> StructuredOutputSpec option
     \<Rightarrow> client_state \<Rightarrow> client_state \<times> ChatResult presult" where
  "chat_with_schema E http cl model msgs max_tokens spec cs =
     semantic_loop E http cl model msgs max_tokens spec False
       (if co_reasoning_only_retry (cl_compat cl) then 2 else 1) default_usage cs"

definition ascii_lower_str :: "str \<Rightarrow> str" where
  "ascii_lower_str s = map ascii_lower s"

definition llm_error_kind :: "str \<Rightarrow> str" where
  "llm_error_kind m =
     (let l = ascii_lower_str m
      in if str_contains l (lit ''reasoning content without final content'') then lit ''reasoning_only''
         else if str_contains l (lit ''empty content'') then lit ''empty_content''
         else if str_contains l (lit ''429'') then lit ''http_429''
         else if str_contains l (lit ''503'') then lit ''http_503''
         else if str_contains l (lit ''invalid json'') then lit ''invalid_json''
         else if str_contains l (lit ''body read'') then lit ''response_read''
         else if str_contains l (lit ''timed out'') then lit ''timeout''
         else if str_contains l (lit ''http '') then lit ''http_status''
         else if str_contains l (lit ''connect'') then lit ''connect''
         else lit ''request'')"


section \<open>Bounds\<close>

lemma backoff_bound: "1 \<le> backoff n \<and> backoff n \<le> 64"
  by (simp add: backoff_def)

text \<open>At most \<open>k\<close> waits were added, each of one to 64 seconds.\<close>

definition waited :: "nat \<Rightarrow> client_state \<Rightarrow> client_state \<Rightarrow> bool" where
  "waited k cs cs' \<longleftrightarrow> (\<exists>ws. cs_waits cs' = cs_waits cs @ ws \<and> length ws \<le> k
     \<and> (\<forall>w \<in> set ws. 1 \<le> w \<and> w \<le> 64))"

lemma waited_none: "cs_waits cs' = cs_waits cs \<Longrightarrow> waited k cs cs'"
  by (simp add: waited_def)

lemma waited_trans: "waited j a b \<Longrightarrow> waited k b c \<Longrightarrow> j + k \<le> n \<Longrightarrow> waited n a c"
  unfolding waited_def by (elim exE conjE, rule exI [of _ "x @ y" for x y]) auto

lemma waited_once: "waited 1 cs (cs\<lparr>cs_requests := n, cs_waits := cs_waits cs @ [backoff k]\<rparr>)"
  using backoff_bound [of k] by (simp add: waited_def)

lemma waited_more: "waited j a b \<Longrightarrow> j \<le> k \<Longrightarrow> waited k a b"
  unfolding waited_def by (meson le_trans)

lemma send_loop_bounds:
  assumes "send_loop E http payload n k cs err = (cs', r)"
  shows "cs_requests cs \<le> cs_requests cs' \<and> cs_requests cs' \<le> cs_requests cs + k
     \<and> (0 < k \<longrightarrow> cs_requests cs < cs_requests cs') \<and> waited (k - 1) cs cs'"
  using assms
proof (induction k arbitrary: n cs err)
  case (Suc k)
  let ?cs = "cs\<lparr>cs_requests := cs_requests cs + 1\<rparr>"
  show ?case
  proof (cases "attempt_result E payload (http (cs_requests cs) payload)")
    case (RetryAfter e)
    then have s: "send_loop E http payload (n + 1) k
        (if k > 0 then ?cs\<lparr>cs_waits := cs_waits cs @ [backoff n]\<rparr> else ?cs) e = (cs', r)"
      using Suc.prems RetryAfter
      by (simp only: send_loop.simps(2) [of E http payload n k cs err] Let_def attempt.case)
    show ?thesis
    proof (cases "k > 0")
      case True
      let ?w = "?cs\<lparr>cs_waits := cs_waits cs @ [backoff n]\<rparr>"
      have "waited 1 cs ?w" using waited_once [of cs n "cs_requests cs + 1"] by simp
      moreover have "waited (k - 1) ?w cs'" using Suc.IH [OF s] True by simp
      ultimately have "waited k cs cs'" using True by (auto intro: waited_trans)
      then show ?thesis using Suc.IH [OF s] True by simp
    qed (use s in \<open>auto intro: waited_none\<close>)
  qed (use Suc.prems in \<open>auto intro: waited_none\<close>)
qed (simp add: waited_none)

lemma semantic_loop_bounds:
  assumes "semantic_loop E http cl model msgs max_tokens spec correction k usage cs = (cs', r)"
  shows "cs_requests cs \<le> cs_requests cs' \<and> cs_requests cs' \<le> cs_requests cs + k * max (cl_max_retries cl) 1
     \<and> waited (k * (max (cl_max_retries cl) 1 - 1)) cs cs'
     \<and> (\<forall>res. r = Inr res \<longrightarrow> cr_content res \<noteq> [])"
  using assms
proof (induction k arbitrary: correction usage cs)
  case (Suc k)
  obtain p where p: "build_payload E cl model (if correction then correction_message # msgs else msgs)
      max_tokens spec correction = p" by blast
  show ?case
  proof (cases p)
    case (Inl e)
    then show ?thesis using Suc.prems p by (auto intro: waited_none)
  next
    case (Inr payload)
    obtain cs1 r1 where s: "send_with_retries E http cl payload cs = (cs1, r1)"
      by (cases "send_with_retries E http cl payload cs")
    obtain M where M: "max (cl_max_retries cl) 1 = Suc M"
      by (metis Suc_pred' less_le_trans max.cobounded2 zero_less_one)
    note B = send_loop_bounds [OF s [unfolded send_with_retries_def], unfolded M]
    show ?thesis
    proof (cases "\<exists>res. r1 = Inr res \<and> pr_content res = [] \<and> pr_has_reasoning res \<and> k > 0")
      case True
      then obtain res where "r1 = Inr res" "pr_content res = []" "pr_has_reasoning res" "k > 0" by blast
      then have "semantic_loop E http cl model msgs max_tokens spec True k
          (combine_usage E usage (pr_usage res)) cs1 = (cs', r)"
        using Suc.prems p Inr s by (simp add: Let_def)
      from Suc.IH [OF this] show ?thesis using B unfolding M by (auto simp: algebra_simps elim: waited_trans)
    next
      case False
      then have "cs' = cs1 \<and> (\<forall>res. r = Inr res \<longrightarrow> cr_content res \<noteq> [])"
        using Suc.prems p Inr s by (auto simp: Let_def split: sum.splits if_splits)
      then show ?thesis using B unfolding M by (auto simp: algebra_simps elim: waited_more)
    qed
  qed
qed (auto intro: waited_none)

text \<open>One semantic attempt, or two where an answer of reasoning alone is retried.\<close>

definition semantic_attempts :: "OpenAiClient \<Rightarrow> nat" where
  "semantic_attempts cl = (if co_reasoning_only_retry (cl_compat cl) then 2 else 1)"

lemma chat_bounds:
  assumes "chat_with_schema E http cl model msgs max_tokens spec cs = (cs', r)"
  shows "cs_requests cs \<le> cs_requests cs'
     \<and> cs_requests cs' \<le> cs_requests cs + semantic_attempts cl * max (cl_max_retries cl) 1
     \<and> waited (semantic_attempts cl * (max (cl_max_retries cl) 1 - 1)) cs cs'
     \<and> (\<forall>res. r = Inr res \<longrightarrow> cr_content res \<noteq> [])"
  using semantic_loop_bounds [OF assms [unfolded chat_with_schema_def, folded semantic_attempts_def]] by blast

lemma chat_requests:
  assumes "chat_with_schema E http cl model msgs max_tokens spec cs = (cs', r)"
  shows "cs_requests cs' \<le> cs_requests cs + 2 * max (cl_max_retries cl) 1"
proof -
  have "semantic_attempts cl * max (cl_max_retries cl) 1 \<le> 2 * max (cl_max_retries cl) 1"
    by (simp add: semantic_attempts_def)
  with chat_bounds [OF assms] show ?thesis by linarith
qed


section \<open>Statements\<close>

definition sample_client :: OpenAiClient where
  "sample_client = \<lparr>cl_api_key = lit ''key'', cl_base_url = lit ''http://localhost'', cl_max_retries = 3,
     cl_compat = default_compatibility\<lparr>co_reasoning_only_retry := True\<rparr>\<rparr>"

text \<open>C19: A chat request always comes to an end, whatever the server answers. Every sending of a payload makes
  between one and \<open>max_retries\<close> requests (one where \<open>max_retries\<close> is zero) with at most as many waits less one;
  the whole request sends one payload, or at most two where an answer of reasoning alone is
  retried. Every wait lasts between one and 64 seconds, and a success has content.\<close>

theorem chat_is_bounded:
  assumes "chat_with_schema E http cl model msgs max_tokens spec cs = (cs', r)"
    and "send_with_retries E http cl payload cs1 = (cs2, r2)"
  shows "(let tries = max (cl_max_retries cl) 1; attempts = (if co_reasoning_only_retry (cl_compat cl) then 2 else 1)
     in cs_requests cs \<le> cs_requests cs' \<and> cs_requests cs' \<le> cs_requests cs + attempts * tries
      \<and> (\<exists>waits. cs_waits cs' = cs_waits cs @ waits \<and> length waits \<le> attempts * (tries - 1)
           \<and> (\<forall>w \<in> set waits. 1 \<le> w \<and> w \<le> 64))
      \<and> cs_requests cs1 < cs_requests cs2 \<and> cs_requests cs2 \<le> cs_requests cs1 + tries
      \<and> (\<exists>waits. cs_waits cs2 = cs_waits cs1 @ waits \<and> length waits \<le> tries - 1
           \<and> (\<forall>w \<in> set waits. 1 \<le> w \<and> w \<le> 64))
      \<and> (\<forall>res. r = Inr res \<longrightarrow> cr_content res \<noteq> []))"
  using chat_bounds [OF assms(1)] send_loop_bounds [OF assms(2) [unfolded send_with_retries_def]]
  unfolding waited_def semantic_attempts_def Let_def by auto

theorem chat_is_bounded_witness:
  "cs_requests (fst (chat_with_schema sample_env (\<lambda>n p. SendError (lit ''connect'')) sample_client
      (lit ''m'') [] 64 None \<lparr>cs_requests = 0, cs_waits = []\<rparr>)) \<le> 6
   \<and> list_all (\<lambda>w. w \<le> 64) (cs_waits (fst (chat_with_schema sample_env (\<lambda>n p. SendError (lit ''connect''))
      sample_client (lit ''m'') [] 64 None \<lparr>cs_requests = 0, cs_waits = []\<rparr>)))"
  using chat_is_bounded [OF surjective_pairing [of "chat_with_schema sample_env
      (\<lambda>n p. SendError (lit ''connect'')) sample_client (lit ''m'') [] 64 None \<lparr>cs_requests = 0, cs_waits = []\<rparr>"]
      surjective_pairing [of "send_with_retries sample_env (\<lambda>n p. SendError (lit ''connect'')) sample_client JNull
      \<lparr>cs_requests = 0, cs_waits = []\<rparr>"]]
  by (auto simp: sample_client_def Let_def list_all_iff)

text \<open>A status that the client itself refuses to retry (a wrong key, a bad request) ends as an
  error that \<open>is_retriable\<close> reports as worth a retry of the same request: the classification sees
  only the text of the error.\<close>

theorem refused_status_reported_retriable:
  assumes "\<not> retryable code" "\<forall>n. http n payload = HttpStatus code status_text"
    and "list_all (\<lambda>p. \<not> str_contains (lit ''chat completion failed after retries: HTTP '' @ status_text) p)
      (map lit [''reasoning content without final content'', ''empty content'', ''valid JSON'',
        ''invalid grounding JSON'', ''schema_version'', ''must be a list'', ''must be an object'',
        ''fields are invalid'', ''duplicate'', ''omitted memory''])"
  shows "\<exists>e. send_with_retries E http cl payload cs = (cs\<lparr>cs_requests := cs_requests cs + 1\<rparr>, Inl e)
     \<and> is_retriable e"
proof -
  obtain k where k: "max (cl_max_retries cl) 1 = Suc k"
    by (metis Suc_pred' less_le_trans max.cobounded2 zero_less_one)
  let ?m = "lit ''chat completion failed after retries: HTTP '' @ status_text"
  have m: "lit ''chat completion failed after retries: '' @ lit ''HTTP '' @ status_text = ?m"
    by (simp add: lit_append [symmetric])
  have "protocol_kind ?m \<in> {lit ''timeout'', lit ''http_status'', lit ''protocol''}"
    using assms(3) by (simp add: protocol_kind_def)
  then have "is_retriable (chat_site 421 ?m)"
    by (auto simp: is_retriable_def chat_site_def source_error_kind_def)
  then show ?thesis
    using assms(1,2) unfolding send_with_retries_def k
    by (simp add: attempt_result_def m)
qed

theorem refused_status_reported_retriable_witness:
  "\<exists>e. send_with_retries sample_env (\<lambda>n p. HttpStatus 401 (lit ''401 Unauthorized'')) sample_client JNull
       \<lparr>cs_requests = 0, cs_waits = []\<rparr> = (\<lparr>cs_requests = 1, cs_waits = []\<rparr>, Inl e) \<and> is_retriable e"
  using refused_status_reported_retriable [of 401 "\<lambda>n p. HttpStatus 401 (lit ''401 Unauthorized'')"
      JNull "lit ''401 Unauthorized''" sample_env sample_client "\<lparr>cs_requests = 0, cs_waits = []\<rparr>"]
  by (simp add: retryable_def lit_def)

end
