(* ===== verification/PipeNormalize.thy ===== *)
theory PipeNormalize
  imports PipeCanonicalProps
begin

text \<open>
  The first stage (\<open>normalize.rs\<close>): the prepared document is read record by record into normalized
  messages; a record that cannot be used becomes an issue, a repeated id stops the run.
\<close>

section \<open>Reading a record\<close>

definition value_text :: "penv \<Rightarrow> json option \<Rightarrow> str" where
  "value_text E v = (case v of
     None \<Rightarrow> []
   | Some JNull \<Rightarrow> []
   | Some (JString s) \<Rightarrow> s
   | Some x \<Rightarrow> pe_value_string E x)"

definition optional_int :: "json \<Rightarrow> int option" where
  "optional_int v = (case as_i64 v of
     Some i \<Rightarrow> Some i
   | None \<Rightarrow> (case as_str v of None \<Rightarrow> None | Some s \<Rightarrow> parse_i64 s))"

fun first_text :: "penv \<Rightarrow> jmap \<Rightarrow> str list \<Rightarrow> str" where
  "first_text E md [] = []"
| "first_text E md (k # ks) = (case map_of md k of
     None \<Rightarrow> first_text E md ks
   | Some v \<Rightarrow> if v = JNull \<or> as_str v = Some [] then first_text E md ks
              else trim (value_text E (Some v)))"

definition normalize_issue :: "string \<Rightarrow> string \<Rightarrow> str \<Rightarrow> str \<Rightarrow> PipelineIssue" where
  "normalize_issue code msg source_id scope_id =
     default_issue\<lparr>pi_stage := lit ''normalize'', pi_code := lit code, pi_message := lit msg,
       pi_source_id := source_id, pi_scope_id := scope_id\<rparr>"

definition source_metadata :: "jmap \<Rightarrow> jmap option" where
  "source_metadata rec = (case map_of rec (lit ''metadata'') of
     None \<Rightarrow> Some []
   | Some JNull \<Rightarrow> Some []
   | Some (JObject md) \<Rightarrow> Some md
   | Some _ \<Rightarrow> None)"

definition make_message :: "penv \<Rightarrow> nat \<Rightarrow> str \<Rightarrow> str \<Rightarrow> str \<Rightarrow> jmap \<Rightarrow> NormalizedMessage" where
  "make_message E idx source_id scope_id bodytext md =
     \<lparr>nm_id = source_id, nm_scope_id = scope_id, nm_text = bodytext,
      nm_candidate_eligible =
        (case Option.bind (map_of md (lit ''memory_candidate'')) as_bool of
           None \<Rightarrow> True | Some b \<Rightarrow> b),
      nm_role = (let r = trim (value_text E (map_of md (lit ''role'')))
                 in if r = [] then lit ''other'' else r),
      nm_speaker = trim (value_text E (map_of md (lit ''speaker''))),
      nm_timestamp = first_text E md
        [lit ''timestamp'', lit ''created_at'', lit ''session_date''],
      nm_session_id = trim (value_text E (map_of md (lit ''session_id''))),
      nm_turn_index = Option.bind
        (case map_of md (lit ''turn_index'') of
           Some v \<Rightarrow> Some v | None \<Rightarrow> map_of md (lit ''turn_idx'')) optional_int,
      nm_source_index = idx,
      nm_metadata = md\<rparr>"

text \<open>One turn of the loop: the ids seen so far, and an issue or a message.\<close>

definition normalize_record ::
    "penv \<Rightarrow> str list \<Rightarrow> nat \<Rightarrow> json \<Rightarrow> (str list \<times> (PipelineIssue + NormalizedMessage)) presult" where
  "normalize_record E seen idx v = (case as_object v of
     None \<Rightarrow> Inr (seen, Inl (normalize_issue ''invalid_source_record''
               ''source memory must be an object'' [] []))
   | Some rec \<Rightarrow>
      (let source_id = trim (value_text E (map_of rec (lit ''id'')))
       in if source_id = []
          then Inr (seen, Inl (normalize_issue ''missing_source_id''
                 ''source memory is missing id'' [] []))
          else if source_id \<in> set seen
          then Inl (InvalidInput (lit ''duplicate source message id: '' @ source_id))
          else
            (case source_metadata rec of
               None \<Rightarrow> Inr (source_id # seen, Inl (normalize_issue ''invalid_source_metadata''
                        ''source memory metadata must be an object'' source_id []))
             | Some md \<Rightarrow>
                (let scope_id = trim (value_text E (map_of md (lit ''scope_id'')))
                 in if scope_id = []
                    then Inr (source_id # seen, Inl (normalize_issue ''missing_scope_id''
                           ''source memory is missing metadata.scope_id'' source_id []))
                    else
                      (let bodytext = value_text E (map_of rec (lit ''text''))
                       in if trim bodytext = []
                          then Inr (source_id # seen, Inl (normalize_issue ''blank_source_message''
                                 ''source memory text is blank'' source_id scope_id))
                          else Inr (source_id # seen,
                                 Inr (make_message E idx source_id scope_id bodytext md)))))))"

fun normalize_records ::
    "penv \<Rightarrow> str list \<Rightarrow> nat \<Rightarrow> json list \<Rightarrow> (NormalizedMessage list \<times> PipelineIssue list) presult" where
  "normalize_records E seen idx [] = Inr ([], [])"
| "normalize_records E seen idx (v # vs) = (case normalize_record E seen idx v of
     Inl e \<Rightarrow> Inl e
   | Inr (seen', out) \<Rightarrow>
      (case normalize_records E seen' (Suc idx) vs of
         Inl e \<Rightarrow> Inl e
       | Inr (ms, iss) \<Rightarrow>
          (case out of Inl i \<Rightarrow> Inr (ms, i # iss) | Inr m \<Rightarrow> Inr (m # ms, iss))))"

definition prepared_schema :: "json \<Rightarrow> bool" where
  "prepared_schema v \<longleftrightarrow>
     Option.bind (json_get v (lit ''schema_version'')) as_str = Some (lit ''benchmark-prepared-v1'')"

definition source_records :: "json \<Rightarrow> json list presult" where
  "source_records v = (case json_get v (lit ''memories'') of
     None \<Rightarrow> Inr []
   | Some x \<Rightarrow> (case as_array x of
       None \<Rightarrow> Inl (InvalidInput (lit ''prepared memories must be a list''))
     | Some vs \<Rightarrow> Inr vs))"

definition normalize_prepared_memories ::
    "penv \<Rightarrow> json \<Rightarrow> (NormalizedMessage list \<times> PipelineIssue list) presult" where
  "normalize_prepared_memories E prepared =
     (if \<not> prepared_schema prepared
      then Inl (InvalidInput (lit ''prepared input must use benchmark-prepared-v1''))
      else (case source_records prepared of
              Inl e \<Rightarrow> Inl e
            | Inr vs \<Rightarrow> normalize_records E [] 0 vs))"


section \<open>What a run of the loop returns\<close>

text \<open>A message is well formed and copies its record.\<close>

definition message_of_record :: "penv \<Rightarrow> NormalizedMessage \<Rightarrow> json \<Rightarrow> bool" where
  "message_of_record E m v \<longleftrightarrow>
     nm_id m \<noteq> [] \<and> nm_scope_id m \<noteq> [] \<and> nm_role m \<noteq> [] \<and> trim (nm_text m) \<noteq> []
     \<and> (\<exists>rec. as_object v = Some rec
          \<and> nm_id m = trim (value_text E (map_of rec (lit ''id'')))
          \<and> nm_text m = value_text E (map_of rec (lit ''text''))
          \<and> source_metadata rec = Some (nm_metadata m)
          \<and> nm_scope_id m = trim (value_text E (map_of (nm_metadata m) (lit ''scope_id''))))"

lemma normalize_record_seen:
  assumes "normalize_record E seen idx v = Inr (seen', out)"
  shows "set seen \<subseteq> set seen'"
  using assms
  by (auto simp: normalize_record_def Let_def split: option.splits if_splits)

lemma normalize_record_accepts:
  assumes "normalize_record E seen idx v = Inr (seen', Inr m)"
  obtains rec md where "as_object v = Some rec" "source_metadata rec = Some md"
    "trim (value_text E (map_of rec (lit ''id''))) \<notin> set seen"
    "trim (value_text E (map_of rec (lit ''id''))) \<noteq> []"
    "trim (value_text E (map_of md (lit ''scope_id''))) \<noteq> []"
    "trim (value_text E (map_of rec (lit ''text''))) \<noteq> []"
    "seen' = trim (value_text E (map_of rec (lit ''id''))) # seen"
    "m = make_message E idx (trim (value_text E (map_of rec (lit ''id''))))
       (trim (value_text E (map_of md (lit ''scope_id'')))) (value_text E (map_of rec (lit ''text''))) md"
  using assms
  by (simp add: normalize_record_def Let_def split: option.split_asm if_split_asm)

lemma make_message_fields [simp]:
  "nm_id (make_message E idx i sc t md) = i" "nm_scope_id (make_message E idx i sc t md) = sc"
  "nm_text (make_message E idx i sc t md) = t" "nm_metadata (make_message E idx i sc t md) = md"
  "nm_source_index (make_message E idx i sc t md) = idx"
  "nm_role (make_message E idx i sc t md) \<noteq> []"
  by (simp_all add: make_message_def Let_def)

lemma normalize_record_message:
  assumes "normalize_record E seen idx v = Inr (seen', Inr m)"
  shows "nm_id m \<notin> set seen \<and> nm_id m \<in> set seen' \<and> nm_source_index m = idx \<and> message_of_record E m v"
  using assms by (rule normalize_record_accepts) (simp add: message_of_record_def)

lemma normalize_records_Cons:
  assumes "normalize_records E seen idx (v # vs) = Inr (ms, iss)"
  obtains (message) seen' m ms' where "normalize_record E seen idx v = Inr (seen', Inr m)"
      "normalize_records E seen' (Suc idx) vs = Inr (ms', iss)" "ms = m # ms'"
  | (problem) seen' i iss' where "normalize_record E seen idx v = Inr (seen', Inl i)"
      "normalize_records E seen' (Suc idx) vs = Inr (ms, iss')" "iss = i # iss'"
  using assms by (auto split: sum.splits prod.splits)

lemma normalize_records_result:
  assumes "normalize_records E seen idx vs = Inr (ms, iss)"
  shows "length ms + length iss = length vs
     \<and> distinct (map nm_id ms) \<and> nm_id ` set ms \<inter> set seen = {}
     \<and> sorted_wrt (<) (map nm_source_index ms)
     \<and> (\<forall>m \<in> set ms. idx \<le> nm_source_index m \<and> nm_source_index m < idx + length vs
          \<and> message_of_record E m (vs ! (nm_source_index m - idx)))"
  using assms
proof (induction vs arbitrary: seen idx ms iss)
  case (Cons v vs)
  have shift: "(v # vs) ! (j - idx) = vs ! (j - Suc idx)" if "Suc idx \<le> j" for j
    using that by (simp add: nth_Cons')
  from Cons.prems show ?case
  proof (cases rule: normalize_records_Cons)
    case (message seen' m ms')
    note IH = Cons.IH [OF message(2)]
    note M = normalize_record_message [OF message(1)]
    have "nm_id ` set ms' \<inter> set seen = {}"
      using IH normalize_record_seen [OF message(1)] by blast
    moreover have "nm_id m \<notin> nm_id ` set ms'" using IH M by blast
    moreover have "\<forall>m' \<in> set ms'. idx < nm_source_index m'" using IH by auto
    ultimately show ?thesis using IH M message(3) shift by fastforce
  next
    case (problem seen' i iss')
    note IH = Cons.IH [OF problem(2)]
    have "nm_id ` set ms \<inter> set seen = {}"
      using IH normalize_record_seen [OF problem(1)] by blast
    then show ?thesis using IH problem(3) shift by fastforce
  qed
qed simp

section \<open>A document\<close>

text \<open>Two records: a message of one scope, and a value that is no object.\<close>

definition sample_metadata :: jmap where
  "sample_metadata = [(lit ''scope_id'', JString (lit ''s'')), (lit ''timestamp'', JString (lit ''9''))]"

definition sample_message :: NormalizedMessage where
  "sample_message = \<lparr>nm_id = lit ''m1'', nm_scope_id = lit ''s'', nm_text = lit ''I like tea.'',
     nm_candidate_eligible = True, nm_role = lit ''other'', nm_speaker = [],
     nm_timestamp = lit ''9'', nm_session_id = [], nm_turn_index = None, nm_source_index = 0,
     nm_metadata = sample_metadata\<rparr>"

definition sample_records :: "json list" where
  "sample_records =
     [JObject [(lit ''id'', JString (lit ''m1'')), (lit ''metadata'', JObject sample_metadata),
               (lit ''text'', JString (lit ''I like tea.''))],
      JNull]"

definition sample_document :: json where
  "sample_document = JObject [(lit ''memories'', JArray sample_records),
     (lit ''schema_version'', JString (lit ''benchmark-prepared-v1''))]"

lemma trim_lit [simp]:
  "c \<noteq> CHR '' '' \<Longrightarrow> \<not> is_ws (of_char c) \<Longrightarrow> trim (lit [c]) = lit [c]"
  by (simp add: trim_def trim_start_def trim_end_def lit_def)

lemma sample_trims [simp]:
  "trim (lit ''m1'') = lit ''m1''" "trim (lit ''s'') = lit ''s''" "trim (lit ''9'') = lit ''9''"
  "trim (lit ''I like tea.'') = lit ''I like tea.''"
  by (simp_all add: trim_def trim_start_def trim_end_def lit_def is_ws_def)

lemma sample_normalized:
  "normalize_prepared_memories sample_env sample_document
     = Inr ([sample_message], [normalize_issue ''invalid_source_record''
               ''source memory must be an object'' [] []])"
  by (simp add: normalize_prepared_memories_def sample_document_def prepared_schema_def
      source_records_def sample_records_def normalize_record_def Let_def value_text_def
      source_metadata_def sample_metadata_def make_message_def sample_message_def)

text \<open>Nothing is lost or invented in normalization: every record of the document becomes exactly
  one message or one issue; the messages have different ids and appear in the order of the
  document; each one has an id, a scope and a text that is not blank, and carries the id, the
  text and the metadata of the record its source index names.\<close>

theorem normalize_conserves:
  assumes "normalize_prepared_memories E prepared = Inr (ms, iss)"
    and "source_records prepared = Inr vs"
  shows "length ms + length iss = length vs
     \<and> distinct (map nm_id ms) \<and> sorted_wrt (<) (map nm_source_index ms)
     \<and> (\<forall>m \<in> set ms. nm_source_index m < length vs
          \<and> message_of_record E m (vs ! nm_source_index m))"
proof -
  have "normalize_records E [] 0 vs = Inr (ms, iss)"
    using assms by (simp add: normalize_prepared_memories_def split: if_splits)
  from normalize_records_result [OF this] show ?thesis by simp
qed

theorem normalize_conserves_witness:
  "length [sample_message] + length [normalize_issue ''invalid_source_record''
       ''source memory must be an object'' [] []] = length sample_records
   \<and> message_of_record sample_env sample_message (sample_records ! 0)"
proof -
  have r: "source_records sample_document = Inr sample_records"
    by (simp add: source_records_def sample_document_def)
  show ?thesis using normalize_conserves [OF sample_normalized r] by (simp add: sample_message_def)
qed

end
