(* ===== verification/PipeEpisode.thy ===== *)
theory PipeEpisode
  imports PipeNormalize
begin

text \<open>
  The second stage (\<open>episode.rs\<close>): consecutive messages are grouped into episodes; a change of
  scope, session or a configured metadata field, or too long a silence, starts a new one.
\<close>

section \<open>Times\<close>

definition or_else :: "'a option \<Rightarrow> 'a option \<Rightarrow> 'a option" where
  "or_else x y = (case x of Some v \<Rightarrow> Some v | None \<Rightarrow> y)"

text \<open>Nanoseconds since the epoch; the formats are tried in the order of the source.\<close>

definition parse_time :: "penv \<Rightarrow> str \<Rightarrow> int option" where
  "parse_time E v =
     (if v = [] then None
      else or_else (pe_rfc3339 E v)
          (or_else (pe_offset_time E v (lit ''%Y-%m-%d %H:%M:%S%.f%:z''))
          (or_else (pe_naive_time E v (lit ''%Y-%m-%dT%H:%M:%S%.f''))
          (or_else (pe_naive_time E v (lit ''%Y-%m-%d %H:%M:%S%.f''))
                   (pe_naive_date E v (lit ''%Y-%m-%d''))))))"

text \<open>\<open>num_seconds\<close> truncates towards zero.\<close>

definition num_seconds :: "int \<Rightarrow> int" where
  "num_seconds d = (if 0 \<le> d then d div 1000000000 else - ((- d) div 1000000000))"


section \<open>Boundaries\<close>

record EpisodeConfig =
  ec_max_gap_minutes :: "int option"
  ec_boundary_fields :: "str list"
  ec_version :: str

definition default_episode_config :: EpisodeConfig where
  "default_episode_config =
     \<lparr>ec_max_gap_minutes = None, ec_boundary_fields = [], ec_version = lit ''episode_v1''\<rparr>"

definition metadata_field :: "NormalizedMessage \<Rightarrow> str \<Rightarrow> json option" where
  "metadata_field m f = (case map_of (nm_metadata m) f of
     Some v \<Rightarrow> if v = JNull then None else Some v | None \<Rightarrow> None)"

fun changed_field :: "NormalizedMessage \<Rightarrow> NormalizedMessage \<Rightarrow> str list \<Rightarrow> str option" where
  "changed_field p c [] = None"
| "changed_field p c (f # fs) =
     (if metadata_field p f \<noteq> metadata_field c f then Some f else changed_field p c fs)"

text \<open>
  The source compares \<open>seconds as f64 / 60.0 > limit as f64\<close>. Chrono's times span less than
  \<open>2 ^ 44\<close> seconds, so the quotient is below \<open>2 ^ 39\<close> where neighbouring floats are closer than
  \<open>1 / 60\<close>, and rounding, which is monotone, cannot close the gap between an integer limit and a
  larger multiple of \<open>1 / 60\<close>: the comparison is the one of integers.
\<close>

definition boundary_reason ::
    "penv \<Rightarrow> NormalizedMessage \<Rightarrow> NormalizedMessage \<Rightarrow> EpisodeConfig \<Rightarrow> str option" where
  "boundary_reason E p c cfg =
     (if nm_scope_id p \<noteq> nm_scope_id c then Some (lit ''scope_change'')
      else if nm_session_id p \<noteq> nm_session_id c then Some (lit ''session_change'')
      else (case changed_field p c (ec_boundary_fields cfg) of
         Some f \<Rightarrow> Some (lit ''metadata_change:'' @ f)
       | None \<Rightarrow>
          (case (ec_max_gap_minutes cfg, parse_time E (nm_timestamp p), parse_time E (nm_timestamp c)) of
             (Some limit, Some tp, Some tc) \<Rightarrow>
               if num_seconds (tc - tp) > 60 * limit then Some (lit ''time_gap'') else None
           | _ \<Rightarrow> None)))"


section \<open>Episodes\<close>

definition episode_refs :: "penv \<Rightarrow> NormalizedMessage list \<Rightarrow> json" where
  "episode_refs E ms = JArray (map (\<lambda>m. jobject
     [(lit ''message_id'', JString (nm_id m)),
      (lit ''text_hash'', JString (stable_hash E [JString (nm_text m)]))]) ms)"

definition make_episode ::
    "penv \<Rightarrow> NormalizedMessage list \<Rightarrow> str \<Rightarrow> EpisodeConfig \<Rightarrow> ConversationEpisode" where
  "make_episode E ms reason cfg =
     \<lparr>ep_id = lit ''episode-'' @ stable_hash E
        [JString (nm_scope_id (hd ms)), JString (nm_session_id (hd ms)), episode_refs E ms,
         jobject [(lit ''max_time_gap_minutes'', jopt (map_option jint (ec_max_gap_minutes cfg))),
                  (lit ''metadata_boundary_fields'', JArray (map JString (ec_boundary_fields cfg))),
                  (lit ''version'', JString (ec_version cfg))]],
      ep_scope_id = nm_scope_id (hd ms),
      ep_session_id = nm_session_id (hd ms),
      ep_message_ids = map nm_id ms,
      ep_start_time = nm_timestamp (hd ms),
      ep_end_time = nm_timestamp (last ms),
      ep_boundary_reason = reason,
      ep_version = ec_version cfg\<rparr>"

fun episode_loop ::
    "penv \<Rightarrow> EpisodeConfig \<Rightarrow> NormalizedMessage list \<Rightarrow> str \<Rightarrow> NormalizedMessage list
     \<Rightarrow> ConversationEpisode list" where
  "episode_loop E cfg current reason [] = [make_episode E current reason cfg]"
| "episode_loop E cfg current reason (m # ms) =
     (case (if current = [] then None else boundary_reason E (last current) m cfg) of
        Some r \<Rightarrow> make_episode E current reason cfg # episode_loop E cfg [m] r ms
      | None \<Rightarrow> episode_loop E cfg (current @ [m]) reason ms)"

definition build_episodes ::
    "penv \<Rightarrow> NormalizedMessage list \<Rightarrow> EpisodeConfig \<Rightarrow> ConversationEpisode list presult" where
  "build_episodes E ms cfg =
     (if (case ec_max_gap_minutes cfg of Some l \<Rightarrow> l < 0 | None \<Rightarrow> False)
      then Inl (InvalidInput (lit ''max_time_gap_minutes must be non-negative''))
      else if ms = [] then Inr []
      else Inr (episode_loop E cfg [] (lit ''start'') ms))"


section \<open>The partition\<close>

definition no_boundary :: "penv \<Rightarrow> EpisodeConfig \<Rightarrow> NormalizedMessage list \<Rightarrow> bool" where
  "no_boundary E cfg g \<longleftrightarrow>
     (\<forall>i. Suc i < length g \<longrightarrow> boundary_reason E (g ! i) (g ! Suc i) cfg = None)"

definition episode_of :: "penv \<Rightarrow> EpisodeConfig \<Rightarrow> NormalizedMessage list \<Rightarrow> ConversationEpisode \<Rightarrow> bool" where
  "episode_of E cfg g e \<longleftrightarrow>
     g \<noteq> [] \<and> no_boundary E cfg g \<and> e = make_episode E g (ep_boundary_reason e) cfg"

text \<open>Between two neighbours there is a boundary, and the later one's reason names it.\<close>

fun boundaries :: "penv \<Rightarrow> EpisodeConfig \<Rightarrow> NormalizedMessage list list \<Rightarrow> ConversationEpisode list \<Rightarrow> bool" where
  "boundaries E cfg (g # h # gs) (e # f # es) =
     (boundary_reason E (last g) (hd h) cfg = Some (ep_boundary_reason f)
      \<and> boundaries E cfg (h # gs) (f # es))"
| "boundaries E cfg _ _ = True"

lemma no_boundary_snoc:
  assumes "no_boundary E cfg g" "g = [] \<or> boundary_reason E (last g) m cfg = None"
  shows "no_boundary E cfg (g @ [m])"
proof -
  have "boundary_reason E (g ! i) m cfg = None" if "Suc i = length g" for i
  proof -
    have "g \<noteq> []" "length g - 1 = i" using that by auto
    then show ?thesis using assms(2) by (simp add: last_conv_nth)
  qed
  then show ?thesis using assms(1) by (auto simp: no_boundary_def nth_append less_Suc_eq)
qed

lemma make_episode_reason [simp]: "ep_boundary_reason (make_episode E ms r cfg) = r"
  by (simp add: make_episode_def)

lemma no_boundary_scope:
  assumes "no_boundary E cfg g" "m \<in> set g"
  shows "nm_scope_id m = nm_scope_id (hd g) \<and> nm_session_id m = nm_session_id (hd g)"
proof -
  have "nm_scope_id (g ! i) = nm_scope_id (hd g) \<and> nm_session_id (g ! i) = nm_session_id (hd g)"
    if "i < length g" for i
    using that
  proof (induction i)
    case 0
    then show ?case by (simp add: hd_conv_nth)
  next
    case (Suc i)
    then have "boundary_reason E (g ! i) (g ! Suc i) cfg = None"
      using assms(1) by (simp add: no_boundary_def)
    with Suc show ?case by (auto simp: boundary_reason_def split: if_splits)
  qed
  then show ?thesis using assms(2) by (auto simp: in_set_conv_nth)
qed

lemma episode_loop_groups:
  assumes "no_boundary E cfg current" "current \<noteq> [] \<or> ms \<noteq> []"
  shows "\<exists>g gs e es. episode_loop E cfg current reason ms = e # es
     \<and> concat (g # gs) = current @ ms \<and> list_all2 (episode_of E cfg) (g # gs) (e # es)
     \<and> boundaries E cfg (g # gs) (e # es) \<and> ep_boundary_reason e = reason
     \<and> (current \<noteq> [] \<longrightarrow> hd g = hd current)"
  using assms
proof (induction ms arbitrary: current reason)
  case Nil
  then have "episode_of E cfg current (make_episode E current reason cfg)"
    by (simp add: episode_of_def)
  then show ?case
    by (intro exI [of _ current] exI [of _ "[]"] exI [of _ "make_episode E current reason cfg"]) simp
next
  case (Cons m ms)
  show ?case
  proof (cases "current = [] \<or> boundary_reason E (last current) m cfg = None")
    case True
    then have step: "episode_loop E cfg current reason (m # ms)
        = episode_loop E cfg (current @ [m]) reason ms" by auto
    have "no_boundary E cfg (current @ [m])"
      using no_boundary_snoc [OF Cons.prems(1)] True by blast
    from Cons.IH [OF this, of reason] obtain g gs e es where
      "episode_loop E cfg (current @ [m]) reason ms = e # es"
      "concat (g # gs) = (current @ [m]) @ ms" "list_all2 (episode_of E cfg) (g # gs) (e # es)"
      "boundaries E cfg (g # gs) (e # es)" "ep_boundary_reason e = reason"
      "hd g = hd (current @ [m])" by blast
    then show ?thesis unfolding step
      by (intro exI [of _ g] exI [of _ gs] exI [of _ e] exI [of _ es]) simp
  next
    case False
    then obtain r where r: "boundary_reason E (last current) m cfg = Some r" and ne: "current \<noteq> []"
      by auto
    have "no_boundary E cfg [m]" by (simp add: no_boundary_def)
    from Cons.IH [OF this, of r] obtain g gs e es where
      IH: "episode_loop E cfg [m] r ms = e # es" "concat (g # gs) = m # ms"
        "list_all2 (episode_of E cfg) (g # gs) (e # es)" "boundaries E cfg (g # gs) (e # es)"
        "ep_boundary_reason e = r" "hd g = m" by auto
    have "episode_of E cfg current (make_episode E current reason cfg)"
      using Cons.prems(1) ne by (simp add: episode_of_def)
    then show ?thesis
      using IH r ne
      by (intro exI [of _ current] exI [of _ "g # gs"]
          exI [of _ "make_episode E current reason cfg"] exI [of _ "e # es"]) simp
  qed
qed

lemma episode_of_ids: "episode_of E cfg g e \<Longrightarrow> ep_message_ids e = map nm_id g"
proof -
  assume "episode_of E cfg g e"
  then have e: "e = make_episode E g (ep_boundary_reason e) cfg" by (simp add: episode_of_def)
  show ?thesis by (subst e) (simp add: make_episode_def)
qed

lemma build_episodes_result:
  assumes "build_episodes E ms cfg = Inr es"
  shows "\<exists>gs. concat gs = ms \<and> list_all2 (episode_of E cfg) gs es \<and> boundaries E cfg gs es
     \<and> concat (map ep_message_ids es) = map nm_id ms
     \<and> list_all2 (\<lambda>g e. \<forall>m \<in> set g. nm_scope_id m = ep_scope_id e
          \<and> nm_session_id m = ep_session_id e) gs es"
proof -
  have "\<exists>gs. concat gs = ms \<and> list_all2 (episode_of E cfg) gs es \<and> boundaries E cfg gs es"
  proof (cases "ms = []")
    case True
    with assms have "es = []" by (simp add: build_episodes_def split: if_splits)
    with True show ?thesis by (intro exI [of _ "[]"]) simp
  next
    case False
    with assms have "es = episode_loop E cfg [] (lit ''start'') ms"
      by (simp add: build_episodes_def split: if_splits)
    moreover have "no_boundary E cfg []" by (simp add: no_boundary_def)
    from episode_loop_groups [OF this, of ms "lit ''start''"] False
    obtain g gs e es' where "episode_loop E cfg [] (lit ''start'') ms = e # es'"
      "concat (g # gs) = ms" "list_all2 (episode_of E cfg) (g # gs) (e # es')"
      "boundaries E cfg (g # gs) (e # es')" by auto
    ultimately show ?thesis by (metis (no_types))
  qed
  then obtain gs where gs: "concat gs = ms" "list_all2 (episode_of E cfg) gs es" "boundaries E cfg gs es"
    by blast
  have ids: "concat (map ep_message_ids es) = map nm_id (concat gs)"
    using gs(2)
  proof (induction rule: list_all2_induct)
    case (Cons g gs e es)
    then have "ep_message_ids e = map nm_id g" by (simp add: episode_of_ids)
    with Cons show ?case by simp
  qed simp
  have "list_all2 (\<lambda>g e. \<forall>m \<in> set g. nm_scope_id m = ep_scope_id e
          \<and> nm_session_id m = ep_session_id e) gs es"
    using gs(2)
  proof (rule list_all2_mono)
    fix g e assume "episode_of E cfg g e"
    then have nb: "no_boundary E cfg g" and e: "e = make_episode E g (ep_boundary_reason e) cfg"
      by (simp_all add: episode_of_def)
    have "ep_scope_id e = nm_scope_id (hd g)" "ep_session_id e = nm_session_id (hd g)"
      by (subst e, simp add: make_episode_def)+
    then show "\<forall>m \<in> set g. nm_scope_id m = ep_scope_id e \<and> nm_session_id m = ep_session_id e"
      using no_boundary_scope [OF nb] by simp
  qed
  with gs ids show ?thesis by blast
qed

text \<open>The episodes cut the messages into consecutive, non-empty groups, in order and without
  losing one. Inside a group no two neighbours are separated by a boundary, so all its messages
  have the episode's scope and session; between two groups there is a boundary, and it is the
  reason the later episode records, so the groups are as long as they can be.\<close>

theorem episodes_partition:
  assumes "build_episodes E ms cfg = Inr es"
  shows "\<exists>gs. concat gs = ms \<and> list_all2 (episode_of E cfg) gs es \<and> boundaries E cfg gs es
     \<and> concat (map ep_message_ids es) = map nm_id ms
     \<and> list_all2 (\<lambda>g e. \<forall>m \<in> set g. nm_scope_id m = ep_scope_id e
          \<and> nm_session_id m = ep_session_id e) gs es"
  using assms by (rule build_episodes_result)

theorem episodes_partition_witness:
  "concat (map ep_message_ids (episode_loop sample_env default_episode_config [] (lit ''start'')
     [sample_message, sample_message\<lparr>nm_id := lit ''m2'', nm_session_id := lit ''x''\<rparr>]))
   = [lit ''m1'', lit ''m2'']"
proof -
  let ?ms = "[sample_message, sample_message\<lparr>nm_id := lit ''m2'', nm_session_id := lit ''x''\<rparr>]"
  have "build_episodes sample_env ?ms default_episode_config
      = Inr (episode_loop sample_env default_episode_config [] (lit ''start'') ?ms)"
    by (simp add: build_episodes_def default_episode_config_def del: episode_loop.simps)
  from episodes_partition [OF this] show ?thesis by (auto simp: sample_message_def)
qed

end
