(* ===== verification/PipeWindow.thy ===== *)
theory PipeWindow
  imports PipeEpisode
begin

text \<open>
  The third stage (\<open>window.rs\<close>): the messages of an episode are sliced into references of at most
  \<open>max_candidate_tokens\<close>, packed into windows, and given context from their neighbourhood until the
  window is full. Characters are addressed by their index in the message, as \<open>chars()\<close> does.
\<close>

section \<open>Slicing a message\<close>

record WindowConfig =
  wc_max_candidate :: nat
  wc_max_window :: nat
  wc_before :: nat
  wc_after :: nat
  wc_tokenizer_name :: str
  wc_tokenizer_version :: str
  wc_version :: str

definition default_window_config :: WindowConfig where
  "default_window_config = \<lparr>wc_max_candidate = 320, wc_max_window = 640, wc_before = 2,
     wc_after = 0, wc_tokenizer_name = lit ''heuristic'',
     wc_tokenizer_version = lit ''heuristic_v1'', wc_version = lit ''window_v1''\<rparr>"

definition char_slice :: "str \<Rightarrow> nat \<Rightarrow> nat \<Rightarrow> str" where
  "char_slice s a b = take (b - a) (drop a s)"

definition message_ref :: "NormalizedMessage \<Rightarrow> nat \<Rightarrow> nat \<Rightarrow> MessageRef" where
  "message_ref m a b = \<lparr>mr_message_id = nm_id m, mr_start = a, mr_end = b,
     mr_text = char_slice (nm_text m) a b\<rparr>"

text \<open>The end of the sentence that stops at a character, if one does: a full-width or ASCII mark, a
  dot before white space or the end, a run of line breaks.\<close>

definition sentence_marks :: "nat list" where
  "sentence_marks = [12290, 65281, 65311, 33, 63, 65307, 59]"

definition sentence_end :: "str \<Rightarrow> nat \<Rightarrow> nat option" where
  "sentence_end cs i =
     (if cs ! i \<in> set sentence_marks then Some (i + 1)
      else if cs ! i = 46 \<and> (i + 1 = length cs \<or> is_ws (cs ! (i + 1)))
        then Some (if i + 1 < length cs then i + 2 else i + 1)
      else if cs ! i = 10
        then Some (i + 1 + length (takeWhile (\<lambda>c. c = 10) (drop (i + 1) cs)))
      else None)"

lemma sentence_end_bounds:
  assumes "sentence_end cs i = Some e" "i < length cs"
  shows "i < e \<and> e \<le> length cs"
proof -
  have "length (takeWhile (\<lambda>c. c = 10) (drop (i + 1) cs)) \<le> length cs - (i + 1)"
    by (metis length_drop length_takeWhile_le)
  then show ?thesis using assms by (auto simp: sentence_end_def split: if_splits)
qed

function sentence_loop :: "str \<Rightarrow> nat \<Rightarrow> nat \<Rightarrow> (nat \<times> nat) list" where
  "sentence_loop cs start i =
     (if i < length cs
      then (case sentence_end cs i of
              Some e \<Rightarrow> (if e > start then [(start, e)] else []) @ sentence_loop cs e e
            | None \<Rightarrow> sentence_loop cs start (i + 1))
      else if start < length cs then [(start, length cs)] else [])"
  by pat_completeness auto

termination
  by (relation "measure (\<lambda>(cs, start, i). length cs - i)") (auto dest: sentence_end_bounds)

declare sentence_loop.simps [simp del]

definition sentence_spans :: "str \<Rightarrow> (nat \<times> nat) list" where
  "sentence_spans s = sentence_loop s 0 0"

function split_loop :: "NormalizedMessage \<Rightarrow> nat \<Rightarrow> nat \<Rightarrow> nat \<Rightarrow> nat \<Rightarrow> MessageRef list" where
  "split_loop m limit piece cursor e =
     (if cursor < e
      then (if cursor > piece
               \<and> estimate_tokens (char_slice (nm_text m) piece (cursor + 1)) > limit
            then message_ref m piece cursor # split_loop m limit cursor (cursor + 1) e
            else split_loop m limit piece (cursor + 1) e)
      else if piece < e then [message_ref m piece e] else [])"
  by pat_completeness auto

termination by (relation "measure (\<lambda>(m, limit, piece, cursor, e). e - cursor)") auto

declare split_loop.simps [simp del]

definition split_span :: "NormalizedMessage \<Rightarrow> nat \<Rightarrow> nat \<Rightarrow> nat \<Rightarrow> MessageRef list" where
  "split_span m a b limit =
     (if estimate_tokens (char_slice (nm_text m) a b) \<le> limit then [message_ref m a b]
      else split_loop m limit a a b)"

definition slice_message :: "NormalizedMessage \<Rightarrow> nat \<Rightarrow> MessageRef list" where
  "slice_message m limit =
     (if estimate_tokens (nm_text m) \<le> limit then [message_ref m 0 (length (nm_text m))]
      else concat (map (\<lambda>(a, b). split_span m a b limit) (sentence_spans (nm_text m))))"


section \<open>Packing and context\<close>

fun pack_loop :: "nat \<Rightarrow> nat \<Rightarrow> nat \<Rightarrow> nat \<Rightarrow> MessageRef list \<Rightarrow> (nat \<times> nat) list" where
  "pack_loop limit start tokens i [] = (if start < i then [(start, i)] else [])"
| "pack_loop limit start tokens i (r # rs) =
     (let next = estimate_tokens (mr_text r)
      in if i > start \<and> tokens + next > limit
         then (start, i) # pack_loop limit i next (i + 1) rs
         else pack_loop limit start (tokens + next) (i + 1) rs)"

definition pack_ranges :: "MessageRef list \<Rightarrow> nat \<Rightarrow> (nat \<times> nat) list" where
  "pack_ranges refs limit = pack_loop limit 0 0 0 refs"

text \<open>References until a message beyond the limit of distinct messages starts.\<close>

fun select_refs :: "nat \<Rightarrow> str list \<Rightarrow> MessageRef list \<Rightarrow> MessageRef list" where
  "select_refs limit seen [] = []"
| "select_refs limit seen (r # rs) =
     (if mr_message_id r \<in> set seen then r # select_refs limit seen rs
      else if length seen \<ge> limit then []
      else r # select_refs limit (seen @ [mr_message_id r]) rs)"

definition select_before :: "MessageRef list \<Rightarrow> nat \<Rightarrow> MessageRef list" where
  "select_before refs limit = (if limit = 0 then [] else rev (select_refs limit [] (rev refs)))"

definition select_after :: "MessageRef list \<Rightarrow> nat \<Rightarrow> MessageRef list" where
  "select_after refs limit = (if limit = 0 then [] else select_refs limit [] refs)"

definition refs_tokens :: "MessageRef list \<Rightarrow> nat" where
  "refs_tokens refs = sum_list (map (\<lambda>r. estimate_tokens (mr_text r)) refs)"

function trim_context ::
    "MessageRef list \<Rightarrow> MessageRef list \<Rightarrow> MessageRef list \<Rightarrow> nat
     \<Rightarrow> MessageRef list \<times> MessageRef list" where
  "trim_context before cand after limit =
     (if refs_tokens (before @ cand @ after) > limit
      then (if before \<noteq> [] then trim_context (tl before) cand after limit
            else if after \<noteq> [] then trim_context before cand (butlast after) limit
            else (before, after))
      else (before, after))"
  by pat_completeness auto

termination
  by (relation "measure (\<lambda>(before, cand, after, limit). length before + length after)") auto

declare trim_context.simps [simp del]


section \<open>Windows\<close>

definition window_config_value :: "WindowConfig \<Rightarrow> json" where
  "window_config_value c = jobject
     [(lit ''max_candidate_tokens'', jnat (wc_max_candidate c)),
      (lit ''max_window_tokens'', jnat (wc_max_window c)),
      (lit ''context_before_messages'', jnat (wc_before c)),
      (lit ''context_after_messages'', jnat (wc_after c)),
      (lit ''tokenizer_name'', JString (wc_tokenizer_name c)),
      (lit ''tokenizer_version'', JString (wc_tokenizer_version c)),
      (lit ''version'', JString (wc_version c))]"

definition make_window ::
    "penv \<Rightarrow> ConversationEpisode \<Rightarrow> MessageRef list \<Rightarrow> MessageRef list \<Rightarrow> MessageRef list
     \<Rightarrow> WindowConfig \<Rightarrow> ExtractionWindow" where
  "make_window E ep cand before after cfg =
     \<lparr>wi_id = lit ''window-'' @ stable_hash E
        [JString (ep_scope_id ep), JString (ep_session_id ep),
         JArray (map message_ref_value cand), JArray (map message_ref_value before),
         JArray (map message_ref_value after), window_config_value cfg],
      wi_scope_id = ep_scope_id ep,
      wi_session_id = ep_session_id ep,
      wi_episode_id = ep_id ep,
      wi_candidate_refs = cand,
      wi_before_refs = before,
      wi_after_refs = after,
      wi_candidate_message_ids = unique_from {} (map mr_message_id cand),
      wi_candidate_tokens = refs_tokens cand,
      wi_total_tokens = refs_tokens (before @ cand @ after),
      wi_version = wc_version cfg\<rparr>"

definition validate_window_config :: "WindowConfig \<Rightarrow> unit presult" where
  "validate_window_config c =
     (if wc_max_candidate c = 0
      then Inl (InvalidInput (lit ''max_candidate_tokens must be positive''))
      else if wc_max_window c < wc_max_candidate c
      then Inl (InvalidInput (lit ''max_window_tokens must be >= max_candidate_tokens''))
      else Inr ())"

text \<open>The references of an episode, each with the eligibility of its message.\<close>

fun episode_references ::
    "messages_by_id \<Rightarrow> nat \<Rightarrow> str list \<Rightarrow> (bool \<times> MessageRef) list presult" where
  "episode_references lookup limit [] = Inr []"
| "episode_references lookup limit (i # is) = (case lookup i of
     None \<Rightarrow> Inl (InvalidInput (lit ''episode references unknown message: '' @ i))
   | Some m \<Rightarrow>
      (case episode_references lookup limit is of
         Inl e \<Rightarrow> Inl e
       | Inr rs \<Rightarrow> Inr (map (Pair (nm_candidate_eligible m)) (slice_message m limit) @ rs)))"

definition eligible_indices :: "(bool \<times> MessageRef) list \<Rightarrow> nat list" where
  "eligible_indices rs = filter (\<lambda>i. fst (rs ! i)) [0..<length rs]"

text \<open>\<open>binary_search\<close> on the ascending indices decides membership.\<close>

definition range_window ::
    "penv \<Rightarrow> ConversationEpisode \<Rightarrow> WindowConfig \<Rightarrow> MessageRef list \<Rightarrow> nat list \<Rightarrow> nat \<times> nat
     \<Rightarrow> ExtractionWindow" where
  "range_window E ep cfg refs idx rg =
     (let (s, e) = rg;
          cand_idx = take (e - s) (drop s idx);
          cand = map (\<lambda>i. refs ! i) cand_idx;
          all_start = idx ! s;
          all_end = idx ! (e - 1) + 1;
          before = select_before (take all_start refs) (wc_before cfg)
                   @ map (\<lambda>i. refs ! i) (filter (\<lambda>i. i \<notin> set cand_idx) [all_start..<all_end]);
          after = select_after (drop all_end refs) (wc_after cfg);
          (before', after') = trim_context before cand after (wc_max_window cfg)
      in make_window E ep cand before' after' cfg)"

definition episode_windows ::
    "penv \<Rightarrow> messages_by_id \<Rightarrow> WindowConfig \<Rightarrow> ConversationEpisode \<Rightarrow> ExtractionWindow list presult" where
  "episode_windows E lookup cfg ep =
     (case episode_references lookup (wc_max_candidate cfg) (ep_message_ids ep) of
        Inl e \<Rightarrow> Inl e
      | Inr rs \<Rightarrow>
         (let refs = map snd rs;
              idx = eligible_indices rs
          in Inr (map (range_window E ep cfg refs idx)
               (pack_ranges (map (\<lambda>i. refs ! i) idx) (wc_max_candidate cfg)))))"

fun windows_of ::
    "penv \<Rightarrow> messages_by_id \<Rightarrow> WindowConfig \<Rightarrow> ConversationEpisode list \<Rightarrow> ExtractionWindow list presult" where
  "windows_of E lookup cfg [] = Inr []"
| "windows_of E lookup cfg (ep # eps) = (case episode_windows E lookup cfg ep of
     Inl e \<Rightarrow> Inl e
   | Inr ws \<Rightarrow> (case windows_of E lookup cfg eps of Inl e \<Rightarrow> Inl e | Inr ws' \<Rightarrow> Inr (ws @ ws')))"

definition build_windows ::
    "penv \<Rightarrow> ConversationEpisode list \<Rightarrow> messages_by_id \<Rightarrow> WindowConfig \<Rightarrow> ExtractionWindow list presult" where
  "build_windows E eps lookup cfg = (case validate_window_config cfg of
     Inl e \<Rightarrow> Inl e
   | Inr _ \<Rightarrow> windows_of E lookup cfg eps)"


section \<open>Rendering\<close>

definition dash_if_empty :: "str \<Rightarrow> str" where
  "dash_if_empty s = (if s = [] then lit ''-'' else s)"

definition render_ref :: "messages_by_id \<Rightarrow> MessageRef \<Rightarrow> str presult" where
  "render_ref lookup r = (case lookup (mr_message_id r) of
     None \<Rightarrow> Inl (InvalidInput (lit ''window references unknown message: '' @ mr_message_id r))
   | Some m \<Rightarrow> Inr (lit ''[message_id='' @ nm_id m @ lit '' role='' @ nm_role m
       @ lit '' speaker='' @ dash_if_empty (nm_speaker m) @ lit '' time=''
       @ dash_if_empty (nm_timestamp m) @ lit '' span='' @ dec_str (mr_start r) @ lit '':''
       @ dec_str (mr_end r) @ lit '']'' @ [10] @ mr_text r))"

fun collect :: "('a \<Rightarrow> 'b presult) \<Rightarrow> 'a list \<Rightarrow> 'b list presult" where
  "collect f [] = Inr []"
| "collect f (x # xs) = (case f x of Inl e \<Rightarrow> Inl e
     | Inr y \<Rightarrow> (case collect f xs of Inl e \<Rightarrow> Inl e | Inr ys \<Rightarrow> Inr (y # ys)))"

fun join_lines :: "str list \<Rightarrow> str" where
  "join_lines [] = []"
| "join_lines [l] = l"
| "join_lines (l # ls) = l @ [10] @ join_lines ls"

definition render_window :: "ExtractionWindow \<Rightarrow> messages_by_id \<Rightarrow> str presult" where
  "render_window w lookup = (case collect (render_ref lookup) (wi_before_refs w @ wi_after_refs w) of
     Inl e \<Rightarrow> Inl e
   | Inr context_lines \<Rightarrow>
      (case collect (render_ref lookup) (wi_candidate_refs w) of
         Inl e \<Rightarrow> Inl e
       | Inr cand_lines \<Rightarrow> Inr (join_lines
           ([lit ''<context>''] @ context_lines @ [lit ''</context>'', [], lit ''<candidate>'']
            @ cand_lines @ [lit ''</candidate>'']))))"

end
