(* ===== verification/PipeExtraction.thy ===== *)
theory PipeExtraction
  imports PipeClient PipeWindow
begin

text \<open>
  The extraction stage (\<open>extraction.rs\<close>): the prompt for a window, the reading of the model's answer,
  the repair of an answer that is not valid, and the two extractors of the crate. An extractor is a
  record of its identity and its function, over a state of its own; the chat extractor's state is the
  client's.
\<close>

section \<open>Batches\<close>

definition SCHEMA_VERSION :: str where
  "SCHEMA_VERSION = lit ''atomic_memory_v1''"

record ExtractionBatch =
  eb_window_id :: str
  eb_schema_version :: str
  eb_raw_memories :: "json list"
  eb_usage :: ModelUsage
  eb_raw_response :: str

definition strip_outer_code_fence :: "str \<Rightarrow> str option" where
  "strip_outer_code_fence text =
     (if \<not> starts_with text [96, 96, 96] \<or> \<not> ends_with text [96, 96, 96] \<or> byte_len text < 6 then None
      else let inner = trim (take (length text - 6) (drop 3 text))
           in if map ascii_lower (take 4 inner) = lit ''json''
                 \<and> (drop 4 inner = [] \<or> is_ws (hd (drop 4 inner)) \<or> hd (drop 4 inner) = 123)
              then Some (trim (trim_start (drop 4 inner)))
              else Some (trim inner))"

definition parse_extraction_json :: "penv \<Rightarrow> str \<Rightarrow> json presult" where
  "parse_extraction_json E content =
     (let trimmed = trim content;
          text = (case strip_outer_code_fence trimmed of Some t \<Rightarrow> t | None \<Rightarrow> trimmed)
      in (case pe_parse_json E text of
            Inl e \<Rightarrow> Inl (Protocol (lit ''extractor did not return valid JSON: '' @ e))
          | Inr v \<Rightarrow> if is_object v then Inr v
                     else Inl (Protocol (lit ''extractor response must be a JSON object''))))"

definition debug_option :: "penv \<Rightarrow> str option \<Rightarrow> str" where
  "debug_option E v = (case v of None \<Rightarrow> lit ''None'' | Some s \<Rightarrow> lit ''Some('' @ pe_debug E s @ lit '')'')"

definition batch_from_payload :: "penv \<Rightarrow> str \<Rightarrow> json \<Rightarrow> str \<Rightarrow> ExtractionBatch presult" where
  "batch_from_payload E window_id payload raw_response =
     (let schema = Option.bind (json_get payload (lit ''schema_version'')) as_str
      in if schema \<noteq> Some SCHEMA_VERSION
         then Inl (Protocol (lit ''unexpected extraction schema_version: '' @ debug_option E schema))
         else (case Option.bind (json_get payload (lit ''memories'')) as_array of
            None \<Rightarrow> Inl (Protocol (lit ''extraction memories must be a list''))
          | Some memories \<Rightarrow>
              if list_ex (\<lambda>m. \<not> is_object m) memories
              then Inl (Protocol (lit ''each extracted memory must be an object''))
              else Inr \<lparr>eb_window_id = window_id, eb_schema_version = SCHEMA_VERSION,
                        eb_raw_memories = memories, eb_usage = default_usage,
                        eb_raw_response = raw_response\<rparr>))"


section \<open>The prompt\<close>

definition empty_response :: str where
  \<open>empty_response = lit ''{"schema_version": "atomic_memory_v1", "memories": []}''\<close>

definition response_template :: str where
  \<open>response_template = lit ''{"schema_version": "atomic_memory_v1", "memories": [{"text": "...", "memory_type": "fact", "subject": {"name": "...", "source_speaker": "..."}, "predicate": "...", "object": {"name": "...", "type": "..."}, "modality": "asserted", "event_time": {"raw": "...", "normalized": "...", "precision": "..."}, "attributes": {}, "evidence": [{"message_id": "copy an exact message_id from the window", "quote": "copy an exact substring from that message span", "evidence_role": "primary"}], "model_confidence": 0.95}]}''\<close>

definition rules_before_empty :: str where
  \<open>rules_before_empty = join_lines
     [lit ''Extract durable atomic memories from the candidate messages.'',
      [],
      lit ''Rules:'',
      lit ''- Only candidate messages may create new memories. Context is for resolving references only.'',
      lit ''- Each memory must express one self-contained fact, preference, relationship, event, state, or procedure.'',
      lit ''- Preserve negation, plans, possibilities, conditions, names, numbers, and dates.'',
      lit ''- Do not add facts from world knowledge or from context alone.'',
      lit ''- Each memory needs at least one primary evidence item from a candidate message.'',
      lit ''- Evidence quote must be an exact quote from the referenced source message.'',
      lit ''- Return '']\<close>

definition rules_before_template :: str where
  \<open>rules_before_template = join_lines
     [lit '' when nothing is durable.'',
      lit ''- Return one JSON object and no commentary.'',
      lit ''- Replace every "..." placeholder in the template below with source-grounded data.'',
      lit ''- subject MUST be an object, never a string.'',
      lit ''- object MUST be an object, string, or null.'',
      lit ''- event_time MUST be an object or null, never a string.'',
      lit ''- evidence MUST be a non-empty array of objects. message_id must be copied exactly'',
      lit ''  from a window header; quote must be an exact substring of that message span;'',
      lit ''  evidence_role must be primary or supporting. At least one primary item must cite'',
      lit ''  a candidate message, not context-only text.'',
      lit ''- model_confidence MUST be a number from 0.0 to 1.0, never words such as "high".'',
      lit ''- memory_type MUST be one of: fact, preference, relationship, event, state,'',
      lit ''  procedure, other. It cannot be "planned"; planned belongs in modality.'',
      lit ''- modality MUST be one of: asserted, negated, possible, planned, conditional, reported.'',
      [],
      lit ''Required JSON shape:'',
      []]\<close>

definition build_extraction_prompt :: "ExtractionWindow \<Rightarrow> messages_by_id \<Rightarrow> str \<Rightarrow> str presult" where
  "build_extraction_prompt w lookup observed = (case render_window w lookup of
     Inl e \<Rightarrow> Inl e
   | Inr rendered \<Rightarrow> Inr (rules_before_empty @ empty_response @ rules_before_template @ response_template
       @ [10, 10] @ lit ''Host observation time: '' @ (if observed = [] then lit ''unknown'' else observed)
       @ [10, 10] @ rendered @ [10]))"

definition chat_message :: "string \<Rightarrow> str \<Rightarrow> json" where
  "chat_message role content = jobject [(lit ''role'', JString (lit role)), (lit ''content'', JString content)]"

definition extraction_prompt_messages :: "str \<Rightarrow> json list" where
  "extraction_prompt_messages prompt =
     [chat_message ''system'' (lit ''You are a source-faithful long-term-memory extractor. Output only the requested JSON object. Never invent evidence identifiers.''),
      chat_message ''user'' prompt]"


section \<open>The output schema\<close>

definition of_type :: "string \<Rightarrow> (str \<times> json) list \<Rightarrow> json" where
  "of_type t rest = jobject ((lit ''type'', JString (lit t)) # rest)"

definition properties :: "(string \<times> json) list \<Rightarrow> str \<times> json" where
  "properties ps = (lit ''properties'', jobject (map (\<lambda>(k, v). (lit k, v)) ps))"

definition required_fields :: "string list \<Rightarrow> str \<times> json" where
  "required_fields ks = (lit ''required'', JArray (map (\<lambda>k. JString (lit k)) ks))"

definition additional :: "bool \<Rightarrow> str \<times> json" where
  "additional b = (lit ''additionalProperties'', JBool b)"

definition any_of :: "json list \<Rightarrow> json" where
  "any_of vs = jobject [(lit ''anyOf'', JArray vs)]"

definition memory_item_schema :: json where
  "memory_item_schema = of_type ''object''
     [properties
       [(''text'', of_type ''string'' []), (''memory_type'', of_type ''string'' []),
        (''subject'', of_type ''object''
           [properties [(''name'', of_type ''string'' []), (''source_speaker'', of_type ''string'' [])],
            required_fields [''name''], additional True]),
        (''predicate'', of_type ''string'' []),
        (''object'', any_of
           [of_type ''object''
              [properties [(''name'', of_type ''string'' []), (''type'', of_type ''string'' [])],
               required_fields [''name''], additional True],
            of_type ''string'' [], of_type ''null'' []]),
        (''modality'', of_type ''string'' []),
        (''event_time'', any_of
           [of_type ''object''
              [properties [(''raw'', of_type ''string'' []), (''normalized'', of_type ''string'' []),
                 (''precision'', of_type ''string'' [])],
               additional True],
            of_type ''null'' []]),
        (''attributes'', of_type ''object'' [additional True]),
        (''evidence'', of_type ''array''
           [(lit ''items'', of_type ''object''
              [properties [(''message_id'', of_type ''string'' []), (''quote'', of_type ''string'' []),
                 (''evidence_role'', of_type ''string'' [])],
               required_fields [''message_id'', ''quote'', ''evidence_role''], additional False])]),
        (''model_confidence'', of_type ''number'' [])],
      required_fields [''text'', ''memory_type'', ''subject'', ''predicate'', ''modality'', ''evidence'',
        ''model_confidence''],
      additional True]"

definition extraction_output_spec :: StructuredOutputSpec where
  "extraction_output_spec = \<lparr>so_name = lit ''atomic_memory_extraction'', so_strict = False,
     so_schema = of_type ''object''
       [properties
         [(''schema_version'', of_type ''string'' [(lit ''const'', JString SCHEMA_VERSION)]),
          (''memories'', of_type ''array'' [(lit ''items'', memory_item_schema)])],
        required_fields [''schema_version'', ''memories''], additional False]\<rparr>"

definition repair_messages :: "penv \<Rightarrow> str \<Rightarrow> json \<Rightarrow> json list" where
  "repair_messages E invalid_content schema =
     [chat_message ''system'' (lit ''Repair the supplied model output into valid JSON matching the schema. Preserve its facts exactly; do not add, infer, or remove facts. Return only the repaired JSON object.''),
      chat_message ''user'' (lit ''Schema:'' @ [10] @ pe_value_string E schema @ [10, 10]
        @ lit ''Invalid output:'' @ [10] @ take 16000 invalid_content)]"


section \<open>Extractors\<close>

record 's MemoryExtractor =
  ex_model :: str
  ex_prompt_version :: str
  ex_implementation :: str
  ex_max_output :: "nat option"
  ex_compatibility :: "json option"
  ex_extract :: "ExtractionWindow \<Rightarrow> messages_by_id \<Rightarrow> 's \<Rightarrow> 's \<times> ExtractionBatch presult"

definition component_identity :: "'s MemoryExtractor \<Rightarrow> jmap" where
  "component_identity c = obj_of
     ([(lit ''implementation'', JString (ex_implementation c)), (lit ''model'', JString (ex_model c)),
       (lit ''prompt_version'', JString (ex_prompt_version c))]
      @ (case ex_max_output c of None \<Rightarrow> [] | Some n \<Rightarrow> [(lit ''max_output_tokens'', jnat n)])
      @ (case ex_compatibility c of None \<Rightarrow> [] | Some v \<Rightarrow> [(lit ''compatibility'', v)]))"

definition static_extract ::
    "penv \<Rightarrow> (str \<rightharpoonup> json) \<Rightarrow> ExtractionWindow \<Rightarrow> messages_by_id \<Rightarrow> 's \<Rightarrow> 's \<times> ExtractionBatch presult" where
  "static_extract E responses w lookup s = (s, case responses (wi_id w) of
     None \<Rightarrow> Inl (Protocol (lit ''missing static extraction for window '' @ wi_id w))
   | Some payload \<Rightarrow> batch_from_payload E (wi_id w) payload [])"

definition static_extractor :: "penv \<Rightarrow> (str \<rightharpoonup> json) \<Rightarrow> 's MemoryExtractor" where
  "static_extractor E responses = \<lparr>ex_model = lit ''static'', ex_prompt_version = lit ''static_v1'',
     ex_implementation = lit ''StaticMemoryExtractor'', ex_max_output = None, ex_compatibility = None,
     ex_extract = static_extract E responses\<rparr>"

record LlmSettings =
  ls_client :: OpenAiClient
  ls_model :: str
  ls_prompt_version :: str
  ls_max_output :: nat
  ls_context_window :: "nat option"
  ls_reserve :: nat

definition new_llm_extractor :: "OpenAiClient \<Rightarrow> str \<Rightarrow> LlmSettings" where
  "new_llm_extractor cl model = \<lparr>ls_client = cl, ls_model = model, ls_prompt_version = lit ''extract_v3'',
     ls_max_output = 1600, ls_context_window = None, ls_reserve = 0\<rparr>"

definition with_token_budget :: "nat \<Rightarrow> nat option \<Rightarrow> nat \<Rightarrow> LlmSettings \<Rightarrow> LlmSettings" where
  "with_token_budget max_output context_window reserve ls =
     ls\<lparr>ls_max_output := max_output, ls_context_window := context_window, ls_reserve := reserve\<rparr>"

definition check_budget :: "penv \<Rightarrow> LlmSettings \<Rightarrow> json list \<Rightarrow> unit presult" where
  "check_budget E ls msgs = validate_context_budget E msgs (ls_max_output ls) (ls_context_window ls) (ls_reserve ls)"

text \<open>The context is dropped from its far ends, the later part first, until the request fits.\<close>

definition drop_context :: "ExtractionWindow \<Rightarrow> ExtractionWindow" where
  "drop_context w =
     (let w' = (if wi_after_refs w \<noteq> [] then w\<lparr>wi_after_refs := butlast (wi_after_refs w)\<rparr>
                else w\<lparr>wi_before_refs := tl (wi_before_refs w)\<rparr>)
      in w'\<lparr>wi_total_tokens := min (wi_candidate_tokens w'
              + refs_tokens (wi_before_refs w' @ wi_after_refs w')) (2 ^ 64 - 1)\<rparr>)"

function messages_within_budget ::
    "penv \<Rightarrow> LlmSettings \<Rightarrow> messages_by_id \<Rightarrow> str \<Rightarrow> ExtractionWindow \<Rightarrow> json list presult" where
  "messages_within_budget E ls lookup observed w = (case build_extraction_prompt w lookup observed of
     Inl e \<Rightarrow> Inl e
   | Inr prompt \<Rightarrow>
      (case check_budget E ls (extraction_prompt_messages prompt) of
         Inr _ \<Rightarrow> Inr (extraction_prompt_messages prompt)
       | Inl e \<Rightarrow>
          if wi_after_refs w \<noteq> [] \<or> wi_before_refs w \<noteq> []
          then messages_within_budget E ls lookup observed (drop_context w)
          else Inl e))"
  by pat_completeness auto

termination
  by (relation "measure (\<lambda>(E, ls, lookup, observed, w). length (wi_before_refs w) + length (wi_after_refs w))")
     (auto simp: drop_context_def Let_def)

declare messages_within_budget.simps [simp del]

definition read_batch :: "penv \<Rightarrow> ExtractionWindow \<Rightarrow> str \<Rightarrow> ExtractionBatch presult" where
  "read_batch E w content = (case parse_extraction_json E content of
     Inl e \<Rightarrow> Inl e | Inr payload \<Rightarrow> batch_from_payload E (wi_id w) payload content)"

definition repair_json ::
    "penv \<Rightarrow> provider \<Rightarrow> LlmSettings \<Rightarrow> StructuredOutputSpec \<Rightarrow> str \<Rightarrow> client_state
     \<Rightarrow> client_state \<times> ChatResult presult" where
  "repair_json E http ls spec content cs =
     (let msgs = repair_messages E content (so_schema spec)
      in (case check_budget E ls msgs of
            Inl e \<Rightarrow> (cs, Inl e)
          | Inr _ \<Rightarrow> chat_with_schema E http (ls_client ls) (ls_model ls) msgs (ls_max_output ls) (Some spec) cs))"

text \<open>Reading with repair, shared by the extractor and the verifier: \<open>k\<close> repairs are left.\<close>

fun repair_loop ::
    "penv \<Rightarrow> provider \<Rightarrow> LlmSettings \<Rightarrow> StructuredOutputSpec \<Rightarrow> (str \<Rightarrow> 'a presult) \<Rightarrow> nat \<Rightarrow> ChatResult
     \<Rightarrow> client_state \<Rightarrow> client_state \<times> (ChatResult \<times> 'a presult) presult" where
  "repair_loop E http ls spec read 0 res cs = (cs, Inr (res, read (cr_content res)))"
| "repair_loop E http ls spec read (Suc k) res cs = (case read (cr_content res) of
     Inr v \<Rightarrow> (cs, Inr (res, Inr v))
   | Inl _ \<Rightarrow>
      (case repair_json E http ls spec (cr_content res) cs of
         (cs', Inl e) \<Rightarrow> (cs', Inl e)
       | (cs', Inr fixed) \<Rightarrow> repair_loop E http ls spec read k
           \<lparr>cr_content = cr_content fixed, cr_usage = combine_usage E (cr_usage res) (cr_usage fixed)\<rparr> cs'))"

fun last_candidate_time :: "messages_by_id \<Rightarrow> MessageRef list \<Rightarrow> str" where
  "last_candidate_time lookup [] = []"
| "last_candidate_time lookup (r # rs) =
     (let later = last_candidate_time lookup rs
      in if later \<noteq> [] then later
         else (case lookup (mr_message_id r) of None \<Rightarrow> [] | Some m \<Rightarrow> nm_timestamp m))"

definition llm_extract ::
    "penv \<Rightarrow> provider \<Rightarrow> LlmSettings \<Rightarrow> ExtractionWindow \<Rightarrow> messages_by_id \<Rightarrow> client_state
     \<Rightarrow> client_state \<times> ExtractionBatch presult" where
  "llm_extract E http ls w lookup cs =
     (case messages_within_budget E ls lookup (last_candidate_time lookup (wi_candidate_refs w)) w of
        Inl e \<Rightarrow> (cs, Inl e)
      | Inr msgs \<Rightarrow>
         (case chat_with_schema E http (ls_client ls) (ls_model ls) msgs (ls_max_output ls)
                 (Some extraction_output_spec) cs of
            (cs', Inl e) \<Rightarrow> (cs', Inl e)
          | (cs', Inr res) \<Rightarrow>
             (case repair_loop E http ls extraction_output_spec (read_batch E w)
                     (co_json_repair_attempts (cl_compat (ls_client ls))) res cs' of
                (cs2, Inl e) \<Rightarrow> (cs2, Inl e)
              | (cs2, Inr (res', Inl e)) \<Rightarrow> (cs2, Inl (at_site
                    (lit ''crates/memory-pipeline/src/extraction.rs'', 161)
                    (lit ''memory_pipeline.extract.parse_response'') e))
              | (cs2, Inr (res', Inr b)) \<Rightarrow> (cs2, Inr (b\<lparr>eb_usage := cr_usage res'\<rparr>)))))"

definition llm_extractor :: "penv \<Rightarrow> provider \<Rightarrow> LlmSettings \<Rightarrow> client_state MemoryExtractor" where
  "llm_extractor E http ls = \<lparr>ex_model = ls_model ls, ex_prompt_version = ls_prompt_version ls,
     ex_implementation = lit ''LLMMemoryExtractor'', ex_max_output = Some (ls_max_output ls),
     ex_compatibility = Some (compatibility_value E (cl_compat (ls_client ls))),
     ex_extract = llm_extract E http ls\<rparr>"

end
