(* ===== verification/PipeWindowProps.thy ===== *)
theory PipeWindowProps
  imports PipeWindow
begin

text \<open>
  The windows of \<open>window.rs\<close>: the slices of a message tile its text, the packed ranges tile the
  eligible references, and no window exceeds its token budgets.
\<close>

section \<open>Tilings\<close>

fun tiles :: "nat \<Rightarrow> nat \<Rightarrow> (nat \<times> nat) list \<Rightarrow> bool" where
  "tiles a b [] = (a = b)"
| "tiles a b ((s, e) # sp) = (s = a \<and> s < e \<and> tiles e b sp)"

lemma tiles_le: "tiles a b sp \<Longrightarrow> a \<le> b"
  by (induction a b sp rule: tiles.induct) auto

lemma tiles_append: "tiles a b xs \<Longrightarrow> tiles b c ys \<Longrightarrow> tiles a c (xs @ ys)"
  by (induction a b xs rule: tiles.induct) auto

lemma tiles_member: "tiles a b sp \<Longrightarrow> (s, e) \<in> set sp \<Longrightarrow> a \<le> s \<and> s < e \<and> e \<le> b"
  by (induction a b sp rule: tiles.induct) (auto dest: tiles_le)

lemma slice_join:
  "a \<le> b \<Longrightarrow> b \<le> c \<Longrightarrow> take (b - a) (drop a xs) @ take (c - b) (drop b xs) = take (c - a) (drop a xs)"
  using take_add [of "b - a" "c - b" "drop a xs"] by (simp add: add.commute)

lemma concat_tiles:
  "tiles a b sp \<Longrightarrow> concat (map (\<lambda>(s, e). take (e - s) (drop s xs)) sp) = take (b - a) (drop a xs)"
proof (induction a b sp rule: tiles.induct)
  case (2 a b s e sp)
  then show ?case using slice_join [of s e b xs] tiles_le [of e b sp] by auto
qed simp


section \<open>Slices of a message\<close>

definition ref_span :: "MessageRef \<Rightarrow> nat \<times> nat" where
  "ref_span r = (mr_start r, mr_end r)"

text \<open>References into a message that tile \<open>a..b\<close>, each within the limit.\<close>

definition slices :: "NormalizedMessage \<Rightarrow> nat \<Rightarrow> nat \<Rightarrow> nat \<Rightarrow> MessageRef list \<Rightarrow> bool" where
  "slices m limit a b rs \<longleftrightarrow> tiles a b (map ref_span rs)
     \<and> (\<forall>r \<in> set rs. r = message_ref m (mr_start r) (mr_end r) \<and> estimate_tokens (mr_text r) \<le> limit)"

lemma message_ref_simps [simp]:
  "mr_message_id (message_ref m a b) = nm_id m" "mr_start (message_ref m a b) = a"
  "mr_end (message_ref m a b) = b" "mr_text (message_ref m a b) = char_slice (nm_text m) a b"
  "ref_span (message_ref m a b) = (a, b)"
  by (simp_all add: message_ref_def ref_span_def)

lemma slices_append: "slices m limit a b rs \<Longrightarrow> slices m limit b c rs' \<Longrightarrow> slices m limit a c (rs @ rs')"
  by (auto simp: slices_def intro: tiles_append)

lemma slices_Cons:
  "a < b \<Longrightarrow> estimate_tokens (char_slice (nm_text m) a b) \<le> limit \<Longrightarrow> slices m limit b c rs
   \<Longrightarrow> slices m limit a c (message_ref m a b # rs)"
  by (auto simp: slices_def)

lemma slices_Nil: "slices m limit a a []"
  by (simp add: slices_def)

lemma sentence_loop_tiles:
  "start \<le> i \<Longrightarrow> i \<le> length cs \<Longrightarrow> tiles start (length cs) (sentence_loop cs start i)"
proof (induction cs start i rule: sentence_loop.induct)
  case (1 cs start i)
  show ?case
  proof (cases "i < length cs")
    case True
    show ?thesis
    proof (cases "sentence_end cs i")
      case None
      then show ?thesis using 1 True by (subst sentence_loop.simps) simp
    next
      case (Some e)
      note b = sentence_end_bounds [OF Some True]
      then have "tiles e (length cs) (sentence_loop cs e e)" using 1(2) [OF True Some] by simp
      then show ?thesis using 1 True Some b by (subst sentence_loop.simps) simp
    qed
  next
    case False
    then show ?thesis using 1 by (subst sentence_loop.simps) auto
  qed
qed

lemma char_slice_single: "estimate_tokens (char_slice s a (a + 1)) \<le> 1"
  using count_tokens_length [of False "char_slice s a (a + 1)"]
  by (simp add: estimate_tokens_def char_slice_def)

lemma split_loop_slices:
  assumes "1 \<le> limit" "piece \<le> cursor" "cursor \<le> e"
    and "piece < cursor \<Longrightarrow> estimate_tokens (char_slice (nm_text m) piece cursor) \<le> limit"
  shows "slices m limit piece e (split_loop m limit piece cursor e)"
  using assms
proof (induction m limit piece cursor e rule: split_loop.induct)
  case (1 m limit piece cursor e)
  show ?case
  proof (cases "cursor < e")
    case True
    show ?thesis
    proof (cases "cursor > piece \<and> estimate_tokens (char_slice (nm_text m) piece (cursor + 1)) > limit")
      case cut: True
      have "slices m limit cursor e (split_loop m limit cursor (cursor + 1) e)"
        using 1(1) [OF True cut] 1(3) True char_slice_single [of "nm_text m" cursor] by simp
      then show ?thesis
        using cut 1(6) True by (subst split_loop.simps) (simp add: slices_Cons)
    next
      case keep: False
      have "estimate_tokens (char_slice (nm_text m) piece (cursor + 1)) \<le> limit"
        using keep 1(3,4) char_slice_single [of "nm_text m" piece] by (cases "cursor = piece") auto
      then have "slices m limit piece e (split_loop m limit piece (cursor + 1) e)"
        using 1(2) [OF True keep] 1(3,4) True by simp
      then show ?thesis using keep True by (subst split_loop.simps) auto
    qed
  next
    case False
    then have "cursor = e" using 1(5) by simp
    then show ?thesis
      using 1(4,6) by (subst split_loop.simps) (auto intro: slices_Cons slices_Nil)
  qed
qed

lemma split_span_slices:
  assumes "1 \<le> limit" "a < b"
  shows "slices m limit a b (split_span m a b limit)"
  using assms split_loop_slices [of limit a a b m]
  by (auto simp: split_span_def intro: slices_Cons slices_Nil)

lemma slices_concat:
  assumes "1 \<le> limit" "tiles a b sp"
  shows "slices m limit a b (concat (map (\<lambda>(a, b). split_span m a b limit) sp))"
  using assms(2)
proof (induction a b sp rule: tiles.induct)
  case (2 a b s e sp)
  then show ?case using split_span_slices [OF assms(1), of s e m] by (auto intro: slices_append)
qed (simp add: slices_Nil)

lemma slice_message_slices:
  assumes "1 \<le> limit" "nm_text m \<noteq> []"
  shows "slices m limit 0 (length (nm_text m)) (slice_message m limit)"
proof (cases "estimate_tokens (nm_text m) \<le> limit")
  case True
  then show ?thesis
    using assms(2) by (auto simp: slice_message_def char_slice_def intro!: slices_Cons slices_Nil)
next
  case False
  have "tiles 0 (length (nm_text m)) (sentence_spans (nm_text m))"
    by (simp add: sentence_spans_def sentence_loop_tiles)
  from slices_concat [OF assms(1) this] False show ?thesis by (simp add: slice_message_def)
qed

lemma slices_text:
  assumes "slices m limit a b rs"
  shows "concat (map mr_text rs) = char_slice (nm_text m) a b"
proof -
  have "map mr_text rs = map (\<lambda>(s, e). take (e - s) (drop s (nm_text m))) (map ref_span rs)"
    using assms by (auto simp: slices_def ref_span_def) (metis char_slice_def message_ref_simps(4))
  then have "concat (map mr_text rs)
      = concat (map (\<lambda>(s, e). take (e - s) (drop s (nm_text m))) (map ref_span rs))"
    by (rule arg_cong)
  also have "\<dots> = take (b - a) (drop a (nm_text m))"
    by (rule concat_tiles) (use assms in \<open>simp add: slices_def\<close>)
  finally show ?thesis by (simp add: char_slice_def)
qed

lemma slice_message_limit:
  assumes "1 \<le> limit" "r \<in> set (slice_message m limit)"
  shows "estimate_tokens (mr_text r) \<le> limit \<and> (\<exists>a b. r = message_ref m a b)"
proof (cases "nm_text m = []")
  case True
  then show ?thesis using assms by (auto simp: slice_message_def char_slice_def estimate_tokens_def)
next
  case False
  then show ?thesis using slice_message_slices [OF assms(1) False] assms(2)
    unfolding slices_def by blast
qed

text \<open>Slicing loses no character of a message: the references, in order, tile the message from its
  first to its last character, their texts concatenate to its text, and each of them fits the
  token limit - so a message of any length can be windowed.\<close>

theorem slices_tile_message:
  assumes "1 \<le> limit" "nm_text m \<noteq> []"
  shows "tiles 0 (length (nm_text m)) (map ref_span (slice_message m limit))
     \<and> concat (map mr_text (slice_message m limit)) = nm_text m
     \<and> (\<forall>r \<in> set (slice_message m limit). mr_message_id r = nm_id m
          \<and> mr_text r = char_slice (nm_text m) (mr_start r) (mr_end r)
          \<and> estimate_tokens (mr_text r) \<le> limit)"
proof -
  note S = slice_message_slices [OF assms]
  have "\<forall>r \<in> set (slice_message m limit). mr_message_id r = nm_id m
          \<and> mr_text r = char_slice (nm_text m) (mr_start r) (mr_end r)
          \<and> estimate_tokens (mr_text r) \<le> limit"
    using S unfolding slices_def by (metis message_ref_simps(1,4))
  then show ?thesis using S slices_text [OF S] by (simp add: slices_def char_slice_def)
qed

theorem slices_tile_message_witness:
  "concat (map mr_text (slice_message (sample_message\<lparr>nm_text := lit ''One two three. Four''\<rparr>) 2))
     = lit ''One two three. Four''"
  using slices_tile_message [of 2 "sample_message\<lparr>nm_text := lit ''One two three. Four''\<rparr>"] by simp


section \<open>Packing\<close>

lemma pack_loop_tiles:
  "start \<le> i \<Longrightarrow> tiles start (i + length rs) (pack_loop limit start tokens i rs)"
proof (induction rs arbitrary: start tokens i)
  case (Cons r rs)
  have "tiles start (Suc i + length rs) (pack_loop limit start t (Suc i) rs)" for t
    using Cons.IH [of start "Suc i" t] Cons.prems by simp
  moreover have "tiles i (Suc i + length rs) (pack_loop limit i t (Suc i) rs)" for t
    using Cons.IH [of i "Suc i" t] by simp
  ultimately show ?case using Cons.prems by (simp add: Let_def)
qed auto

lemma refs_tokens_simps [simp]:
  "refs_tokens [] = 0" "refs_tokens (r # rs) = estimate_tokens (mr_text r) + refs_tokens rs"
  "refs_tokens (rs @ rs') = refs_tokens rs + refs_tokens rs'"
  by (simp_all add: refs_tokens_def)

lemma pack_loop_limit:
  assumes "\<forall>r \<in> set rs. estimate_tokens (mr_text r) \<le> limit" "length pre = i" "start \<le> i"
    and "tokens = refs_tokens (drop start pre)" "tokens \<le> limit"
    and "(s, e) \<in> set (pack_loop limit start tokens i rs)"
  shows "refs_tokens (take (e - s) (drop s (pre @ rs))) \<le> limit"
  using assms
proof (induction rs arbitrary: pre start tokens i)
  case Nil
  then show ?case by (auto split: if_splits)
next
  case (Cons r rs)
  let ?n = "estimate_tokens (mr_text r)"
  show ?case
  proof (cases "i > start \<and> tokens + ?n > limit")
    case True
    then have "(s, e) = (start, i) \<or> (s, e) \<in> set (pack_loop limit i ?n (i + 1) rs)"
      using Cons.prems(6) by (simp add: Let_def)
    then show ?thesis
    proof
      assume "(s, e) = (start, i)"
      then show ?thesis using Cons.prems by simp
    next
      assume "(s, e) \<in> set (pack_loop limit i ?n (i + 1) rs)"
      then show ?thesis
        using Cons.IH [of "pre @ [r]" "i + 1" i ?n] Cons.prems by simp
    qed
  next
    case False
    then have "(s, e) \<in> set (pack_loop limit start (tokens + ?n) (i + 1) rs)"
      using Cons.prems(6) by (auto simp: Let_def)
    moreover have "tokens + ?n \<le> limit"
    proof (cases "i = start")
      case True
      then show ?thesis using Cons.prems by simp
    qed (use False Cons.prems in auto)
    ultimately show ?thesis
      using Cons.IH [of "pre @ [r]" "i + 1" start "tokens + ?n"] Cons.prems by simp
  qed
qed

lemma pack_ranges_tiles: "tiles 0 (length rs) (pack_ranges rs limit)"
  using pack_loop_tiles [of 0 0 rs limit 0] by (simp add: pack_ranges_def)

lemma pack_ranges_limit:
  assumes "\<forall>r \<in> set rs. estimate_tokens (mr_text r) \<le> limit" "(s, e) \<in> set (pack_ranges rs limit)"
  shows "refs_tokens (take (e - s) (drop s rs)) \<le> limit"
  using pack_loop_limit [of rs limit "[]" 0 0 0 s e] assms by (simp add: pack_ranges_def)


section \<open>Context\<close>

lemma trim_context_bound:
  assumes "trim_context before cand after limit = (before', after')" "refs_tokens cand \<le> limit"
  shows "refs_tokens (before' @ cand @ after') \<le> limit"
  using assms
proof (induction before cand after limit rule: trim_context.induct)
  case (1 before cand after limit)
  show ?case
    using 1 by (subst (asm) (3) trim_context.simps)
      (auto split: if_splits)
qed

section \<open>The windows of an episode\<close>

lemma eligible_refs:
  "map (\<lambda>i. map snd rs ! i) (eligible_indices rs) = map snd (filter fst rs)"
proof -
  have "map (\<lambda>i. map snd rs ! i) (eligible_indices rs) = map (\<lambda>i. snd (rs ! i)) (eligible_indices rs)"
    by (rule map_cong) (auto simp: eligible_indices_def)
  also have "\<dots> = map snd (map (nth rs) (filter (fst \<circ> nth rs) [0..<length rs]))"
    by (simp add: eligible_indices_def comp_def)
  also have "map (nth rs) (filter (fst \<circ> nth rs) [0..<length rs]) = filter fst (map (nth rs) [0..<length rs])"
    by (simp only: filter_map)
  finally show ?thesis by (simp add: map_nth)
qed

text \<open>\<open>binary_search\<close> is membership: the indices ascend.\<close>

lemma eligible_indices_sorted: "sorted_wrt (<) (eligible_indices rs)"
  by (simp add: eligible_indices_def sorted_wrt_filter)

definition episode_slices :: "messages_by_id \<Rightarrow> nat \<Rightarrow> str list \<Rightarrow> MessageRef list" where
  "episode_slices lookup limit is = concat (map (\<lambda>i. case lookup i of
     Some m \<Rightarrow> if nm_candidate_eligible m then slice_message m limit else [] | None \<Rightarrow> []) is)"

lemma episode_references_result:
  assumes "episode_references lookup limit is = Inr rs"
  shows "map snd (filter fst rs) = episode_slices lookup limit is
     \<and> (\<forall>r \<in> set rs. \<exists>i m. i \<in> set is \<and> lookup i = Some m \<and> snd r \<in> set (slice_message m limit))
     \<and> (\<forall>i \<in> set is. lookup i \<noteq> None)"
  using assms
proof (induction "is" arbitrary: rs)
  case (Cons i "is")
  then obtain m rs' where m: "lookup i = Some m" "episode_references lookup limit is = Inr rs'"
    "rs = map (Pair (nm_candidate_eligible m)) (slice_message m limit) @ rs'"
    by (auto split: option.splits sum.splits)
  have "map snd (filter fst (map (Pair b) xs)) = (if b then xs else [])" for b and xs :: "MessageRef list"
    by (induction xs) auto
  then show ?case using Cons.IH [OF m(2)] m by (fastforce simp: episode_slices_def)
qed (simp add: episode_slices_def)

lemma trim_context_parts:
  assumes "trim_context before cand after limit = (before', after')"
  shows "set before' \<subseteq> set before \<and> set after' \<subseteq> set after"
  using assms
proof (induction before cand after limit rule: trim_context.induct)
  case (1 before cand after limit)
  show ?case
    using 1 by (subst (asm) (3) trim_context.simps)
      (auto split: if_splits dest: in_set_butlastD list.set_sel(2))
qed

lemma set_select_refs: "set (select_refs limit seen rs) \<subseteq> set rs"
  by (induction limit seen rs rule: select_refs.induct) auto

lemma set_select_before: "set (select_before (take n rs) limit) \<subseteq> set rs"
  using set_select_refs [of limit "[]" "rev (take n rs)"]
  by (auto simp: select_before_def dest: in_set_takeD)

lemma set_select_after: "set (select_after (drop n rs) limit) \<subseteq> set rs"
  using set_select_refs [of limit "[]" "drop n rs"]
  by (auto simp: select_after_def dest: in_set_dropD)

lemma make_window_simps [simp]:
  "wi_candidate_refs (make_window E ep cand before after cfg) = cand"
  "wi_before_refs (make_window E ep cand before after cfg) = before"
  "wi_after_refs (make_window E ep cand before after cfg) = after"
  "wi_candidate_tokens (make_window E ep cand before after cfg) = refs_tokens cand"
  "wi_total_tokens (make_window E ep cand before after cfg) = refs_tokens (before @ cand @ after)"
  "wi_scope_id (make_window E ep cand before after cfg) = ep_scope_id ep"
  "wi_episode_id (make_window E ep cand before after cfg) = ep_id ep"
  by (simp_all add: make_window_def)

text \<open>A window built from a range of the eligible references.\<close>

lemma range_window_shape:
  assumes "range_window E ep cfg refs idx (s, e) = w"
  obtains before after before' after' where
    "wi_candidate_refs w = take (e - s) (drop s (map (\<lambda>i. refs ! i) idx))"
    "trim_context before (wi_candidate_refs w) after (wc_max_window cfg) = (before', after')"
    "w = make_window E ep (wi_candidate_refs w) before' after' cfg"
    "s < e \<Longrightarrow> e \<le> length idx \<Longrightarrow> \<forall>i \<in> set idx. i < length refs \<Longrightarrow> set before \<subseteq> set refs \<and> set after \<subseteq> set refs"
proof -
  let ?ci = "take (e - s) (drop s idx)"
  let ?cand = "map (\<lambda>i. refs ! i) ?ci"
  let ?before = "select_before (take (idx ! s) refs) (wc_before cfg)
     @ map (\<lambda>i. refs ! i) (filter (\<lambda>i. i \<notin> set ?ci) [idx ! s..<idx ! (e - 1) + 1])"
  let ?after = "select_after (drop (idx ! (e - 1) + 1) refs) (wc_after cfg)"
  obtain b' a' where t: "trim_context ?before ?cand ?after (wc_max_window cfg) = (b', a')"
    by (cases "trim_context ?before ?cand ?after (wc_max_window cfg)")
  have w: "w = make_window E ep ?cand b' a' cfg"
    using assms t by (simp add: range_window_def Let_def)
  have c: "wi_candidate_refs w = ?cand" by (simp add: w)
  have "set ?before \<subseteq> set refs \<and> set ?after \<subseteq> set refs"
    if "s < e" "e \<le> length idx" "\<forall>i \<in> set idx. i < length refs"
  proof -
    have "idx ! (e - 1) \<in> set idx" using that by simp
    then have "idx ! (e - 1) < length refs" using that by blast
    then have m: "refs ! i \<in> set refs" if "i \<in> set [idx ! s..<idx ! (e - 1) + 1]" for i
      using that by (auto intro!: nth_mem)
    have "set (map (\<lambda>i. refs ! i) (filter (\<lambda>i. i \<notin> set ?ci) [idx ! s..<idx ! (e - 1) + 1])) \<subseteq> set refs"
      using m by auto
    then have "set ?before \<subseteq> set refs"
      using set_select_before [of "idx ! s" refs "wc_before cfg"] unfolding set_append by blast
    moreover have "set ?after \<subseteq> set refs" by (rule set_select_after)
    ultimately show ?thesis ..
  qed
  with t w c show thesis
    by (intro that [of ?before ?after b' a']) (simp_all add: drop_map take_map)
qed

text \<open>A window of an episode has its scope and refers only to its messages.\<close>

definition window_of :: "messages_by_id \<Rightarrow> ConversationEpisode \<Rightarrow> ExtractionWindow \<Rightarrow> bool" where
  "window_of lookup ep w \<longleftrightarrow> wi_scope_id w = ep_scope_id ep
     \<and> (\<forall>r \<in> set (wi_before_refs w @ wi_candidate_refs w @ wi_after_refs w).
          \<exists>i m. i \<in> set (ep_message_ids ep) \<and> lookup i = Some m \<and> mr_message_id r = nm_id m)"

lemma range_window_refs:
  assumes rg: "(s, e) \<in> set (pack_ranges (map (\<lambda>i. map snd rs ! i) (eligible_indices rs)) limit)"
    and w: "w = range_window E ep cfg (map snd rs) (eligible_indices rs) (s, e)"
  shows "set (wi_before_refs w @ wi_candidate_refs w @ wi_after_refs w) \<subseteq> set (map snd rs)
     \<and> wi_scope_id w = ep_scope_id ep"
proof -
  let ?el = "map (\<lambda>i. map snd rs ! i) (eligible_indices rs)"
  have bounds: "s < e" "e \<le> length ?el"
    using tiles_member [OF pack_ranges_tiles rg] by simp_all
  have idx: "\<forall>i \<in> set (eligible_indices rs). i < length (map snd rs)"
    by (simp add: eligible_indices_def)
  obtain before after before' after' where v:
    "wi_candidate_refs w = take (e - s) (drop s ?el)"
    "trim_context before (wi_candidate_refs w) after (wc_max_window cfg) = (before', after')"
    "w = make_window E ep (wi_candidate_refs w) before' after' cfg"
    "set before \<subseteq> set (map snd rs) \<and> set after \<subseteq> set (map snd rs)"
    using range_window_shape [OF w [symmetric]] bounds idx by (metis length_map)
  have parts: "wi_before_refs w = before'" "wi_after_refs w = after'" "wi_scope_id w = ep_scope_id ep"
    by (subst v(3), simp)+
  have el: "set ?el \<subseteq> set (map snd rs)" by (auto simp: eligible_refs)
  have "set (wi_candidate_refs w) \<subseteq> set (map snd rs)"
    using el unfolding v(1) by (auto dest!: in_set_takeD in_set_dropD)
  then show ?thesis
    using trim_context_parts [OF v(2)] v(4) unfolding set_append parts by blast
qed

lemma episode_windows_of:
  assumes cfg: "1 \<le> wc_max_candidate cfg" and ws: "episode_windows E lookup cfg ep = Inr ws"
  shows "\<forall>w \<in> set ws. window_of lookup ep w"
proof
  fix w assume "w \<in> set ws"
  obtain rs where rs: "episode_references lookup (wc_max_candidate cfg) (ep_message_ids ep) = Inr rs"
    and w: "ws = map (range_window E ep cfg (map snd rs) (eligible_indices rs))
      (pack_ranges (map (\<lambda>i. map snd rs ! i) (eligible_indices rs)) (wc_max_candidate cfg))"
    using ws by (auto simp: episode_windows_def Let_def split: sum.splits)
  obtain s e where se: "(s, e) \<in> set (pack_ranges (map (\<lambda>i. map snd rs ! i) (eligible_indices rs)) (wc_max_candidate cfg))"
    "w = range_window E ep cfg (map snd rs) (eligible_indices rs) (s, e)"
    using \<open>w \<in> set ws\<close> unfolding w by auto
  have src: "\<exists>i m. i \<in> set (ep_message_ids ep) \<and> lookup i = Some m \<and> mr_message_id r = nm_id m"
    if "r \<in> set (map snd rs)" for r
  proof -
    obtain i m where m: "i \<in> set (ep_message_ids ep)" "lookup i = Some m" "r \<in> set (slice_message m (wc_max_candidate cfg))"
      using episode_references_result [OF rs] \<open>r \<in> set (map snd rs)\<close> by auto
    then show ?thesis using slice_message_limit [OF cfg m(3)] by fastforce
  qed
  show "window_of lookup ep w"
    using range_window_refs [OF se] src unfolding window_of_def by blast
qed

lemma windows_of_episodes:
  assumes cfg: "1 \<le> wc_max_candidate cfg" and ws: "windows_of E lookup cfg eps = Inr ws"
  shows "\<forall>w \<in> set ws. \<exists>ep \<in> set eps. window_of lookup ep w"
  using ws
proof (induction eps arbitrary: ws)
  case (Cons ep eps)
  then obtain ws1 ws2 where w: "episode_windows E lookup cfg ep = Inr ws1"
    "windows_of E lookup cfg eps = Inr ws2" "ws = ws1 @ ws2"
    by (auto split: sum.splits)
  show ?case
    using Cons.IH [OF w(2)] episode_windows_of [OF cfg w(1)] w(3) by auto
qed simp

text \<open>What is known of every window, from the code that built it.\<close>

definition window_ok :: "messages_by_id \<Rightarrow> WindowConfig \<Rightarrow> ExtractionWindow \<Rightarrow> bool" where
  "window_ok lookup cfg w \<longleftrightarrow>
     wi_candidate_refs w \<noteq> []
     \<and> wi_candidate_tokens w = refs_tokens (wi_candidate_refs w)
     \<and> wi_candidate_tokens w \<le> wc_max_candidate cfg
     \<and> wi_total_tokens w = refs_tokens (wi_before_refs w @ wi_candidate_refs w @ wi_after_refs w)
     \<and> wi_total_tokens w \<le> wc_max_window cfg
     \<and> (\<forall>r \<in> set (wi_before_refs w @ wi_candidate_refs w @ wi_after_refs w).
          \<exists>i m. lookup i = Some m \<and> r = message_ref m (mr_start r) (mr_end r))"

lemma range_window_ok:
  assumes cfg: "1 \<le> wc_max_candidate cfg" "wc_max_candidate cfg \<le> wc_max_window cfg"
    and refs: "episode_references lookup (wc_max_candidate cfg) is = Inr rs"
    and rg: "(s, e) \<in> set (pack_ranges (map (\<lambda>i. map snd rs ! i) (eligible_indices rs)) (wc_max_candidate cfg))"
  shows "window_ok lookup cfg (range_window E ep cfg (map snd rs) (eligible_indices rs) (s, e))"
    (is "window_ok _ _ ?w")
proof -
  let ?el = "map (\<lambda>i. map snd rs ! i) (eligible_indices rs)"
  have src: "(\<exists>i m. lookup i = Some m \<and> r = message_ref m (mr_start r) (mr_end r))
      \<and> estimate_tokens (mr_text r) \<le> wc_max_candidate cfg" if "r \<in> set (map snd rs)" for r
  proof -
    obtain i m where m: "lookup i = Some m" "r \<in> set (slice_message m (wc_max_candidate cfg))"
      using episode_references_result [OF refs] \<open>r \<in> set (map snd rs)\<close> by auto
    from slice_message_limit [OF cfg(1) m(2)] obtain a b where "r = message_ref m a b"
      "estimate_tokens (mr_text r) \<le> wc_max_candidate cfg" by blast
    then show ?thesis using m(1) by (metis message_ref_simps(2,3))
  qed
  have el: "set ?el \<subseteq> set (map snd rs)" by (auto simp: eligible_refs)
  have bounds: "s < e" "e \<le> length ?el"
    using tiles_member [OF pack_ranges_tiles rg] by simp_all
  have idx: "\<forall>i \<in> set (eligible_indices rs). i < length (map snd rs)"
    by (simp add: eligible_indices_def)
  obtain before after before' after' where w:
    "wi_candidate_refs ?w = take (e - s) (drop s ?el)"
    "trim_context before (wi_candidate_refs ?w) after (wc_max_window cfg) = (before', after')"
    "?w = make_window E ep (wi_candidate_refs ?w) before' after' cfg"
    "set before \<subseteq> set (map snd rs) \<and> set after \<subseteq> set (map snd rs)"
    using range_window_shape [OF refl, of E ep cfg "map snd rs" "eligible_indices rs" s e] bounds idx
    by (metis length_map)
  have cand: "refs_tokens (wi_candidate_refs ?w) \<le> wc_max_candidate cfg"
    unfolding w(1) by (rule pack_ranges_limit [OF _ rg]) (use el src in blast)
  have sub: "set (before' @ wi_candidate_refs ?w @ after') \<subseteq> set (map snd rs)"
    using trim_context_parts [OF w(2)] w(4) w(1) el by (auto dest!: in_set_takeD in_set_dropD)
  have parts: "wi_before_refs ?w = before'" "wi_after_refs ?w = after'"
    "wi_candidate_tokens ?w = refs_tokens (wi_candidate_refs ?w)"
    "wi_total_tokens ?w = refs_tokens (before' @ wi_candidate_refs ?w @ after')"
    by (subst w(3), simp)+
  have "wi_candidate_refs ?w \<noteq> []" using bounds by (simp add: w(1))
  moreover have "refs_tokens (before' @ wi_candidate_refs ?w @ after') \<le> wc_max_window cfg"
    using trim_context_bound [OF w(2)] cand cfg(2) by simp
  moreover have "\<forall>r \<in> set (before' @ wi_candidate_refs ?w @ after').
      \<exists>i m. lookup i = Some m \<and> r = message_ref m (mr_start r) (mr_end r)"
    using sub src by blast
  ultimately show ?thesis using cand unfolding window_ok_def parts by blast
qed

lemma episode_windows_result:
  assumes cfg: "1 \<le> wc_max_candidate cfg" "wc_max_candidate cfg \<le> wc_max_window cfg"
    and ws: "episode_windows E lookup cfg ep = Inr ws"
  shows "(\<forall>w \<in> set ws. window_ok lookup cfg w)
     \<and> concat (map wi_candidate_refs ws) = episode_slices lookup (wc_max_candidate cfg) (ep_message_ids ep)"
proof -
  obtain rs where rs: "episode_references lookup (wc_max_candidate cfg) (ep_message_ids ep) = Inr rs"
    and w: "ws = map (range_window E ep cfg (map snd rs) (eligible_indices rs))
      (pack_ranges (map (\<lambda>i. map snd rs ! i) (eligible_indices rs)) (wc_max_candidate cfg))"
    using ws by (auto simp: episode_windows_def Let_def split: sum.splits)
  let ?el = "map (\<lambda>i. map snd rs ! i) (eligible_indices rs)"
  let ?rg = "pack_ranges ?el (wc_max_candidate cfg)"
  have "wi_candidate_refs (range_window E ep cfg (map snd rs) (eligible_indices rs) (s, e))
      = take (e - s) (drop s ?el)" for s e
    by (rule range_window_shape [OF refl])
  then have "concat (map wi_candidate_refs ws) = concat (map (\<lambda>(s, e). take (e - s) (drop s ?el)) ?rg)"
    unfolding w map_map by (intro arg_cong [where f = concat] map_cong) auto
  also have "\<dots> = ?el" using concat_tiles [OF pack_ranges_tiles [of ?el "wc_max_candidate cfg"], of ?el] by simp
  finally have "concat (map wi_candidate_refs ws)
      = episode_slices lookup (wc_max_candidate cfg) (ep_message_ids ep)"
    using episode_references_result [OF rs] eligible_refs [of rs] by simp
  moreover have "\<forall>w \<in> set ws. window_ok lookup cfg w"
    unfolding w using range_window_ok [OF cfg rs] by auto
  ultimately show ?thesis by blast
qed

lemma episode_slices_append:
  "episode_slices lookup limit (is @ js) = episode_slices lookup limit is @ episode_slices lookup limit js"
  by (simp add: episode_slices_def)

lemma windows_of_result:
  assumes cfg: "1 \<le> wc_max_candidate cfg" "wc_max_candidate cfg \<le> wc_max_window cfg"
    and ws: "windows_of E lookup cfg eps = Inr ws"
  shows "(\<forall>w \<in> set ws. window_ok lookup cfg w)
     \<and> concat (map wi_candidate_refs ws)
       = episode_slices lookup (wc_max_candidate cfg) (concat (map ep_message_ids eps))"
  using ws
proof (induction eps arbitrary: ws)
  case (Cons ep eps)
  then obtain ws1 ws2 where w: "episode_windows E lookup cfg ep = Inr ws1"
    "windows_of E lookup cfg eps = Inr ws2" "ws = ws1 @ ws2"
    by (auto split: sum.splits)
  show ?case
    using Cons.IH [OF w(2)] episode_windows_result [OF cfg w(1)] w(3)
    by (auto simp: episode_slices_append)
qed (simp add: episode_slices_def)

lemma build_windows_config:
  assumes "build_windows E eps lookup cfg = Inr ws"
  shows "1 \<le> wc_max_candidate cfg" "wc_max_candidate cfg \<le> wc_max_window cfg"
    "windows_of E lookup cfg eps = Inr ws"
  using assms by (auto simp: build_windows_def validate_window_config_def split: if_splits)

lemma build_windows_result:
  assumes "build_windows E eps lookup cfg = Inr ws"
  shows "(\<forall>w \<in> set ws. window_ok lookup cfg w)
     \<and> concat (map wi_candidate_refs ws)
       = episode_slices lookup (wc_max_candidate cfg) (concat (map ep_message_ids eps))"
  using windows_of_result [OF build_windows_config [OF assms]] .

section \<open>Budgets and coverage\<close>

text \<open>The map from ids to messages that the later stages read, collected from the messages.\<close>

definition message_lookup :: "NormalizedMessage list \<Rightarrow> messages_by_id" where
  "message_lookup ms = map_of (rev (map (\<lambda>m. (nm_id m, m)) ms))"

lemma message_lookup_Some:
  assumes "distinct (map nm_id ms)"
  shows "message_lookup ms i = Some m \<longleftrightarrow> m \<in> set ms \<and> nm_id m = i"
proof -
  have "distinct (map fst (rev (map (\<lambda>m. (nm_id m, m)) ms)))"
    using assms by (simp add: comp_def rev_map [symmetric])
  then show ?thesis
    by (auto simp: message_lookup_def map_of_eq_Some_iff)
qed

text \<open>One message, one episode, one window.\<close>

definition sample_episode :: ConversationEpisode where
  "sample_episode = make_episode sample_env [sample_message] (lit ''start'') default_episode_config"

definition sample_lookup :: messages_by_id where
  "sample_lookup = [lit ''m1'' \<mapsto> sample_message]"

definition sample_window :: ExtractionWindow where
  "sample_window = make_window sample_env sample_episode [message_ref sample_message 0 11] [] []
     default_window_config"

lemma sample_window_built:
  "build_windows sample_env [sample_episode] sample_lookup default_window_config = Inr [sample_window]"
proof -
  have t: "estimate_tokens (lit ''I like tea.'') = 4"
    by (simp add: estimate_tokens_def lit_def is_ascii_alnum_def is_ascii_digit_def is_ascii_alpha_def
        is_ws_def)
  have cs: "char_slice (lit ''I like tea.'') 0 11 = lit ''I like tea.''"
    by (simp add: char_slice_def)
  have ids: "ep_message_ids sample_episode = [lit ''m1'']"
    by (simp add: sample_episode_def make_episode_def sample_message_def)
  have r: "episode_references sample_lookup 320 [lit ''m1''] = Inr [(True, message_ref sample_message 0 11)]"
    using t by (simp add: sample_lookup_def slice_message_def sample_message_def numeral_eq_Suc)
  have e: "eligible_indices [(True, message_ref sample_message 0 11)] = [0]"
    by (simp add: eligible_indices_def)
  have p: "pack_ranges [message_ref sample_message 0 11] 320 = [(0, 1)]"
    by (simp add: pack_ranges_def)
  have g: "range_window sample_env sample_episode default_window_config [message_ref sample_message 0 11] [0] (0, 1)
      = sample_window"
    using t cs
    by (simp add: range_window_def sample_window_def trim_context.simps default_window_config_def
        select_before_def select_after_def) (simp add: sample_message_def)
  show ?thesis
    using r e p g ids
    by (simp add: build_windows_def validate_window_config_def episode_windows_def Let_def
        default_window_config_def)
qed

text \<open>C15: A window never exceeds its budgets: it has at least one candidate reference, its candidate
  references cost at most \<open>max_candidate_tokens\<close> and the whole window, context included, at most
  \<open>max_window_tokens\<close>; the two counts it records are these costs; and every reference quotes a
  message of the lookup verbatim at its offsets.\<close>

theorem windows_within_budget:
  assumes "build_windows E eps lookup cfg = Inr ws" "w \<in> set ws"
  shows "wi_candidate_refs w \<noteq> []
     \<and> wi_candidate_tokens w = refs_tokens (wi_candidate_refs w)
     \<and> wi_candidate_tokens w \<le> wc_max_candidate cfg
     \<and> wi_total_tokens w = refs_tokens (wi_before_refs w @ wi_candidate_refs w @ wi_after_refs w)
     \<and> wi_total_tokens w \<le> wc_max_window cfg
     \<and> (\<forall>r \<in> set (wi_before_refs w @ wi_candidate_refs w @ wi_after_refs w).
          \<exists>i m. lookup i = Some m \<and> r = message_ref m (mr_start r) (mr_end r))"
  using build_windows_result [OF assms(1)] assms(2) unfolding window_ok_def by blast

theorem windows_within_budget_witness:
  "wi_candidate_tokens sample_window \<le> 320 \<and> wi_total_tokens sample_window \<le> 640"
  using windows_within_budget [OF sample_window_built, of sample_window]
  by (simp add: default_window_config_def)

lemma episode_slices_messages:
  assumes "distinct (map nm_id all)" "set ms \<subseteq> set all" "1 \<le> limit" "\<forall>m \<in> set ms. nm_text m \<noteq> []"
  shows "concat (map mr_text (episode_slices (message_lookup all) limit (map nm_id ms)))
     = concat (map nm_text (filter nm_candidate_eligible ms))"
  using assms(2,4)
proof (induction ms)
  case (Cons m ms)
  have "message_lookup all (nm_id m) = Some m"
    using message_lookup_Some [OF assms(1)] Cons.prems by auto
  moreover have "concat (map mr_text (slice_message m limit)) = nm_text m"
    using slices_text [OF slice_message_slices [OF assms(3)], of m] Cons.prems by (simp add: char_slice_def)
  ultimately show ?case using Cons by (simp add: episode_slices_def)
qed (simp add: episode_slices_def)

text \<open>C16: From the document to the windows no eligible character is lost or repeated: after
  normalization, episodes and windowing, the texts of the candidate references of all windows, in
  order, are exactly the texts of the eligible messages, in order.\<close>

theorem candidates_cover_document:
  assumes "normalize_prepared_memories E prepared = Inr (ms, iss)"
    and "build_episodes E ms ecfg = Inr eps"
    and "build_windows E eps (message_lookup ms) wcfg = Inr ws"
  shows "concat (map mr_text (concat (map wi_candidate_refs ws)))
     = concat (map nm_text (filter nm_candidate_eligible ms))"
proof -
  obtain vs where "normalize_records E [] 0 vs = Inr (ms, iss)"
    using assms(1) by (auto simp: normalize_prepared_memories_def split: if_splits sum.splits)
  note N = normalize_records_result [OF this]
  have "\<forall>m \<in> set ms. nm_text m \<noteq> []"
    using N unfolding message_of_record_def by (metis trim_Nil)
  moreover have "concat (map ep_message_ids eps) = map nm_id ms"
    using build_episodes_result [OF assms(2)] by blast
  ultimately show ?thesis
    using build_windows_result [OF assms(3)] build_windows_config(1) [OF assms(3)] N
    by (simp add: episode_slices_messages)
qed

theorem candidates_cover_document_witness:
  "concat (map mr_text (concat (map wi_candidate_refs [sample_window]))) = lit ''I like tea.''"
proof -
  have e: "build_episodes sample_env [sample_message] default_episode_config = Inr [sample_episode]"
    by (simp add: build_episodes_def default_episode_config_def sample_episode_def)
  have l: "message_lookup [sample_message] = sample_lookup"
    by (simp add: message_lookup_def sample_lookup_def sample_message_def)
  show ?thesis
    using candidates_cover_document [OF sample_normalized e sample_window_built [folded l]]
    by (simp add: sample_message_def)
qed

end
