(* ===== verification/PipeExtractionProps.thy ===== *)
theory PipeExtractionProps
  imports PipeExtraction PipeWindowProps
begin

text \<open>
  The contract of an extractor as a locale, discharged for both extractors of the crate; the bounds of
  the chat extractor and of the context it drops.
\<close>

section \<open>The contract\<close>

definition batch_shape :: "ExtractionWindow \<Rightarrow> ExtractionBatch \<Rightarrow> bool" where
  "batch_shape w b \<longleftrightarrow> eb_window_id b = wi_id w \<and> eb_schema_version b = SCHEMA_VERSION
     \<and> list_all is_object (eb_raw_memories b)"

locale extraction_contract =
  fixes extract_window :: "ExtractionWindow \<Rightarrow> messages_by_id \<Rightarrow> 's \<Rightarrow> 's \<times> ExtractionBatch presult"
  assumes shape: "extract_window w lookup s = (s', Inr b) \<Longrightarrow> batch_shape w b"
begin

text \<open>A client may read every raw memory of a batch as an object.\<close>

lemma raw_is_object:
  assumes "extract_window w lookup s = (s', Inr b)" "v \<in> set (eb_raw_memories b)"
  obtains ob where "v = JObject ob"
proof -
  have "is_object v" using shape [OF assms(1)] assms(2) by (auto simp: batch_shape_def list_all_iff)
  then show thesis using that by (cases v) auto
qed

lemma batch_of_window:
  "extract_window w lookup s = (s', Inr b) \<Longrightarrow> eb_window_id b = wi_id w"
  using shape by (simp add: batch_shape_def)

end

lemma batch_from_payload_shape:
  assumes "batch_from_payload E (wi_id w) payload raw = Inr b"
  shows "batch_shape w b"
  using assms
  by (auto simp: batch_from_payload_def batch_shape_def Let_def list_all_iff list_ex_iff
      split: if_splits option.splits)

lemma read_batch_shape: "read_batch E w content = Inr b \<Longrightarrow> batch_shape w b"
  by (auto simp: read_batch_def dest: batch_from_payload_shape split: sum.splits)

lemma batch_shape_usage [simp]: "batch_shape w (b\<lparr>eb_usage := u\<rparr>) = batch_shape w b"
  by (simp add: batch_shape_def)

lemma repair_loop_read:
  assumes "repair_loop E http ls spec read k res cs = (cs', Inr (res', Inr v))"
  shows "read (cr_content res') = Inr v"
  using assms
proof (induction k arbitrary: res cs)
  case (Suc k)
  show ?case
  proof (cases "read (cr_content res)")
    case (Inl e)
    obtain cs1 r1 where "repair_json E http ls spec (cr_content res) cs = (cs1, r1)"
      by (cases "repair_json E http ls spec (cr_content res) cs")
    with Suc Inl show ?thesis by (auto split: sum.splits)
  qed (use Suc.prems in auto)
qed simp

lemma llm_extract_shape:
  assumes "llm_extract E http ls w lookup cs = (cs', Inr b)"
  shows "batch_shape w b"
  using assms
  by (auto simp: llm_extract_def dest!: repair_loop_read intro: read_batch_shape
      split: sum.splits prod.splits)

interpretation static_ex: extraction_contract "static_extract E responses"
  by unfold_locales
     (auto simp: static_extract_def dest: batch_from_payload_shape split: option.splits)

interpretation llm_ex: extraction_contract "llm_extract E http ls"
  by unfold_locales (rule llm_extract_shape)


section \<open>Requests\<close>

lemma repair_loop_bounds:
  assumes "repair_loop E http ls spec read k res cs = (cs', r)"
  shows "cs_requests cs' \<le> cs_requests cs + k * (2 * max (cl_max_retries (ls_client ls)) 1)"
  using assms
proof (induction k arbitrary: res cs)
  case (Suc k)
  let ?B = "2 * max (cl_max_retries (ls_client ls)) 1"
  show ?case
  proof (cases "read (cr_content res)")
    case (Inl e)
    obtain cs1 r1 where j: "repair_json E http ls spec (cr_content res) cs = (cs1, r1)"
      by (cases "repair_json E http ls spec (cr_content res) cs")
    have b: "cs_requests cs1 \<le> cs_requests cs + ?B"
      using j by (auto simp: repair_json_def Let_def split: sum.splits dest: chat_requests)
    show ?thesis
    proof (cases r1)
      case (Inl e')
      then show ?thesis using Suc.prems \<open>read _ = _\<close> j b by simp
    next
      case (Inr fixed)
      then have "repair_loop E http ls spec read k \<lparr>cr_content = cr_content fixed,
          cr_usage = combine_usage E (cr_usage res) (cr_usage fixed)\<rparr> cs1 = (cs', r)"
        using Suc.prems \<open>read _ = _\<close> j by simp
      from Suc.IH [OF this] show ?thesis using b by simp
    qed
  qed (use Suc.prems in simp)
qed simp

lemma llm_extract_requests:
  assumes "llm_extract E http ls w lookup cs = (cs', r)"
  shows "cs_requests cs' \<le> cs_requests cs
     + (co_json_repair_attempts (cl_compat (ls_client ls)) + 1) * (2 * max (cl_max_retries (ls_client ls)) 1)"
proof -
  let ?B = "2 * max (cl_max_retries (ls_client ls)) 1"
  let ?m = "messages_within_budget E ls lookup (last_candidate_time lookup (wi_candidate_refs w)) w"
  show ?thesis
  proof (cases ?m)
    case (Inl e)
    then show ?thesis using assms by (simp add: llm_extract_def)
  next
    case (Inr msgs)
    obtain cs1 r1 where c: "chat_with_schema E http (ls_client ls) (ls_model ls) msgs (ls_max_output ls)
        (Some extraction_output_spec) cs = (cs1, r1)"
      by (cases "chat_with_schema E http (ls_client ls) (ls_model ls) msgs (ls_max_output ls)
        (Some extraction_output_spec) cs")
    note b = chat_requests [OF c]
    show ?thesis
    proof (cases r1)
      case (Inl e)
      then show ?thesis using assms Inr c b by (simp add: llm_extract_def)
    next
      case r1: (Inr res)
      obtain cs2 r2 where l: "repair_loop E http ls extraction_output_spec (read_batch E w)
          (co_json_repair_attempts (cl_compat (ls_client ls))) res cs1 = (cs2, r2)"
        by (cases "repair_loop E http ls extraction_output_spec (read_batch E w)
          (co_json_repair_attempts (cl_compat (ls_client ls))) res cs1")
      have "cs' = cs2" using assms Inr c r1 l
        by (auto simp: llm_extract_def split: sum.splits prod.splits)
      then show ?thesis using b repair_loop_bounds [OF l] by simp
    qed
  qed
qed


section \<open>The budget of the prompt\<close>

text \<open>A window with some of its context dropped: the rest of the context is a stretch of the old.\<close>

definition trimmed :: "ExtractionWindow \<Rightarrow> ExtractionWindow \<Rightarrow> bool" where
  "trimmed w' w \<longleftrightarrow> wi_candidate_refs w' = wi_candidate_refs w
     \<and> (\<exists>n. wi_before_refs w' = drop n (wi_before_refs w))
     \<and> (\<exists>n. wi_after_refs w' = take n (wi_after_refs w))"

lemma trimmed_refl: "trimmed w w"
  unfolding trimmed_def by (metis drop0 order_refl take_all)

lemma trimmed_drop: "trimmed w' (drop_context w) \<Longrightarrow> trimmed w' w"
  by (auto simp: trimmed_def drop_context_def Let_def butlast_conv_take tl_drop drop_Suc
      split: if_splits) (metis drop_Suc take_take)+

lemma messages_within_budget_result:
  "case messages_within_budget E ls lookup observed w of
     Inr msgs \<Rightarrow> check_budget E ls msgs = Inr ()
       \<and> (\<exists>w' prompt. trimmed w' w \<and> build_extraction_prompt w' lookup observed = Inr prompt
            \<and> msgs = extraction_prompt_messages prompt)
   | Inl e \<Rightarrow> (\<exists>w'. trimmed w' w \<and> build_extraction_prompt w' lookup observed = Inl e)
       \<or> (\<exists>w' prompt. trimmed w' w \<and> wi_before_refs w' = [] \<and> wi_after_refs w' = []
            \<and> build_extraction_prompt w' lookup observed = Inr prompt
            \<and> check_budget E ls (extraction_prompt_messages prompt) = Inl e)"
proof (induction E ls lookup observed w rule: messages_within_budget.induct)
  case (1 E ls lookup observed w)
  show ?case
  proof (cases "build_extraction_prompt w lookup observed")
    case (Inl e)
    then show ?thesis using trimmed_refl [of w] by (subst messages_within_budget.simps) auto
  next
    case prompt: (Inr prompt)
    show ?thesis
    proof (cases "check_budget E ls (extraction_prompt_messages prompt)")
      case (Inr u)
      then show ?thesis using prompt trimmed_refl [of w] by (subst messages_within_budget.simps) auto
    next
      case over: (Inl e)
      show ?thesis
      proof (cases "wi_after_refs w \<noteq> [] \<or> wi_before_refs w \<noteq> []")
        case True
        then have "messages_within_budget E ls lookup observed w
            = messages_within_budget E ls lookup observed (drop_context w)"
          using prompt over by (subst messages_within_budget.simps) simp
        then show ?thesis
          using 1 [OF prompt over True] trimmed_drop [of _ w]
          by (auto split: sum.splits)
      next
        case False
        then show ?thesis using prompt over trimmed_refl [of w]
          by (subst messages_within_budget.simps) auto
      qed
    qed
  qed
qed

end
