(* ===== verification/PipeValidation.thy ===== *)
theory PipeValidation
  imports PipeWindowProps "HOL-Library.Product_Lexorder"
begin

text \<open>
  The stage that decides which raw memories of the model are kept (\<open>validation.rs\<close>): the schema, the
  enumerations, the evidence quotes against the window and the messages, the modality. Every raw
  memory ends as a valid memory, a rejected or a quarantined issue.
\<close>

section \<open>Constants and results\<close>

definition MEMORY_TYPES :: "str list" where
  "MEMORY_TYPES = map lit [''fact'', ''preference'', ''relationship'', ''event'', ''state'',
     ''procedure'', ''other'']"

definition MODALITIES :: "str list" where
  "MODALITIES = map lit [''asserted'', ''negated'', ''possible'', ''planned'', ''conditional'',
     ''reported'']"

definition EVIDENCE_ROLES :: "str list" where
  "EVIDENCE_ROLES = map lit [''primary'', ''supporting'']"

record ValidationBatch =
  vb_valid :: "AtomicMemory list"
  vb_rejected :: "PipelineIssue list"
  vb_quarantined :: "PipelineIssue list"

definition validation_issue :: "ExtractionWindow \<Rightarrow> nat \<Rightarrow> string \<Rightarrow> str \<Rightarrow> PipelineIssue" where
  "validation_issue w idx code msg =
     default_issue\<lparr>pi_stage := lit ''validation'', pi_code := lit code, pi_message := msg,
       pi_scope_id := wi_scope_id w, pi_episode_id := wi_episode_id w, pi_window_id := wi_id w,
       pi_details := [(lit ''memory_index'', jnat idx)]\<rparr>"


section \<open>Schema\<close>

definition optional_object_ok :: "json \<Rightarrow> bool" where
  "optional_object_ok v \<longleftrightarrow> v = JNull \<or> is_string v \<or> is_object v"

definition confidence_ok :: "penv \<Rightarrow> json option \<Rightarrow> bool" where
  "confidence_ok E v = (case v of
     None \<Rightarrow> True
   | Some (JNumber n) \<Rightarrow> pe_in_unit E n
   | Some _ \<Rightarrow> False)"

definition str_field :: "jmap \<Rightarrow> string \<Rightarrow> str option" where
  "str_field ob k = Option.bind (map_of ob (lit k)) as_str"

definition valid_schema :: "penv \<Rightarrow> json \<Rightarrow> jmap option" where
  "valid_schema E raw =
     Option.bind (as_object raw) (\<lambda>ob.
     Option.bind (str_field ob ''text'') (\<lambda>t.
     Option.bind (str_field ob ''predicate'') (\<lambda>p.
       if trim t = [] \<or> trim p = [] then None
       else Option.bind (map_of ob (lit ''subject'')) (\<lambda>subj.
         if \<not> is_object subj then None
         else if \<not> optional_object_ok (jopt (map_of ob (lit ''object''))) then None
         else Option.bind (map_of ob (lit ''evidence'')) (\<lambda>ev.
           if (case as_array ev of None \<Rightarrow> True | Some items \<Rightarrow> items = []) then None
           else if (case map_of ob (lit ''attributes'') of
                      None \<Rightarrow> False | Some v \<Rightarrow> \<not> is_object v) then None
           else if (case map_of ob (lit ''event_time'') of
                      None \<Rightarrow> False | Some v \<Rightarrow> \<not> (v = JNull \<or> is_object v)) then None
           else if \<not> confidence_ok E (map_of ob (lit ''model_confidence'')) then None
           else Option.bind (str_field ob ''memory_type'') (\<lambda>_.
                Option.bind (str_field ob ''modality'') (\<lambda>_. Some ob)))))))"


section \<open>Evidence\<close>

text \<open>The walk over the sorted spans of a message: \<open>cursor\<close> is the first character not yet covered.\<close>

fun cover_loop :: "nat \<Rightarrow> nat \<Rightarrow> (nat \<times> nat) list \<Rightarrow> bool" where
  "cover_loop cursor e [] = False"
| "cover_loop cursor e ((s, t) # sp) =
     (if t \<le> cursor then cover_loop cursor e sp
      else if s > cursor then False
      else if max cursor t \<ge> e then True
      else cover_loop (max cursor t) e sp)"

definition span_is_covered :: "str \<Rightarrow> nat \<Rightarrow> nat \<Rightarrow> MessageRef list \<Rightarrow> bool" where
  "span_is_covered i s e refs =
     cover_loop s e (sort (map ref_span (filter (\<lambda>r. mr_message_id r = i) refs)))"

definition is_candidate :: "EvidenceRef \<Rightarrow> MessageRef list \<Rightarrow> bool" where
  "is_candidate ev refs = span_is_covered (ev_message_id ev) (ev_start ev) (ev_end ev) refs"

definition quote_matches :: "str \<Rightarrow> str \<Rightarrow> str \<Rightarrow> MessageRef list \<Rightarrow> nat list" where
  "quote_matches i source needle refs =
     (if length needle \<le> length source
      then filter (\<lambda>s. span_is_covered i s (s + length needle) refs)
             (filter (\<lambda>s. take (length needle) (drop s source) = needle)
                [0..<length source - length needle + 1])
      else [])"

definition window_refs :: "ExtractionWindow \<Rightarrow> MessageRef list" where
  "window_refs w = wi_before_refs w @ wi_candidate_refs w @ wi_after_refs w"

text \<open>One item of the evidence: on the left the issue, with \<open>True\<close> where the memory is rejected and
  \<open>False\<close> where it is quarantined.\<close>

definition validate_evidence_item ::
    "penv \<Rightarrow> ExtractionWindow \<Rightarrow> messages_by_id \<Rightarrow> nat \<Rightarrow> json \<Rightarrow> (PipelineIssue \<times> bool) + EvidenceRef" where
  "validate_evidence_item E w lookup idx v = (case as_object v of
     None \<Rightarrow> Inl (validation_issue w idx ''malformed_schema'' (lit ''evidence must be an object''), True)
   | Some ob \<Rightarrow>
      (case (str_field ob ''message_id'', str_field ob ''quote'', str_field ob ''evidence_role'') of
         (Some i, Some qt, Some rl) \<Rightarrow>
           (if qt = [] \<or> rl \<notin> set EVIDENCE_ROLES
            then Inl (validation_issue w idx ''malformed_schema'' (lit ''evidence fields are invalid''), True)
            else let matching = filter (\<lambda>r. mr_message_id r = i) (window_refs w) in
              (case (if matching = [] then None else lookup i) of
                 None \<Rightarrow> Inl (validation_issue w idx ''unknown_evidence_message''
                   (lit ''evidence message '' @ pe_debug E i @ lit '' is not in the window''), True)
               | Some m \<Rightarrow>
                  (case quote_matches i (nm_text m) qt matching of
                     [] \<Rightarrow> Inl (validation_issue w idx ''evidence_quote_not_found''
                       (lit ''evidence quote is not an exact substring of the referenced window span''),
                       False)
                   | [s] \<Rightarrow> Inr \<lparr>ev_message_id = i, ev_quote = qt, ev_start = s,
                                ev_end = s + length qt, ev_role = rl\<rparr>
                   | _ # _ # _ \<Rightarrow> Inl (validation_issue w idx ''ambiguous_evidence_quote''
                       (lit ''evidence quote occurs more than once in the referenced window spans''),
                       False))))
       | _ \<Rightarrow> Inl (validation_issue w idx ''malformed_schema'' (lit ''evidence fields are invalid''),
                True)))"

fun validate_evidence ::
    "penv \<Rightarrow> ExtractionWindow \<Rightarrow> messages_by_id \<Rightarrow> nat \<Rightarrow> json list
     \<Rightarrow> (PipelineIssue \<times> bool) + EvidenceRef list" where
  "validate_evidence E w lookup idx [] = Inr []"
| "validate_evidence E w lookup idx (v # vs) = (case validate_evidence_item E w lookup idx v of
     Inl p \<Rightarrow> Inl p
   | Inr ev \<Rightarrow> (case validate_evidence E w lookup idx vs of Inl p \<Rightarrow> Inl p | Inr evs \<Rightarrow> Inr (ev # evs)))"


section \<open>Modality and time\<close>

definition modality_markers :: "str list" where
  "modality_markers =
     [lit '' plan '', lit ''plan to'', lit ''intend to'', [25171, 31639], [35745, 21010],
      [20934, 22791], lit ''might'', lit ''maybe'', lit ''possibly'', [21487, 33021],
      [20063, 35768], [25110, 35768], [32, 100, 111, 110, 39, 116, 32], lit '' not '',
      lit ''never'', [19981], [27809], [20174, 19981]]"

fun join_spaces :: "str list \<Rightarrow> str" where
  "join_spaces [] = []"
| "join_spaces [l] = l"
| "join_spaces (l # ls) = l @ [32] @ join_spaces ls"

definition suspicious_modality :: "penv \<Rightarrow> str \<Rightarrow> EvidenceRef list \<Rightarrow> bool" where
  "suspicious_modality E modality evs \<longleftrightarrow>
     modality = lit ''asserted''
     \<and> list_ex (str_contains ([32] @ pe_lower E (join_spaces (map ev_quote evs)) @ [32])) modality_markers"

fun last_timestamp :: "messages_by_id \<Rightarrow> str list \<Rightarrow> str option" where
  "last_timestamp lookup [] = None"
| "last_timestamp lookup (i # is) = (case last_timestamp lookup is of
     Some t \<Rightarrow> Some t
   | None \<Rightarrow> (case lookup i of
       None \<Rightarrow> None
     | Some m \<Rightarrow> if nm_timestamp m = [] then None else Some (nm_timestamp m)))"

definition observed_at :: "EvidenceRef list \<Rightarrow> messages_by_id \<Rightarrow> ExtractionWindow \<Rightarrow> str" where
  "observed_at evs lookup w = (case last_timestamp lookup (map ev_message_id evs) of
     Some t \<Rightarrow> t
   | None \<Rightarrow> (case last_timestamp lookup (map mr_message_id (wi_candidate_refs w)) of
       Some t \<Rightarrow> t | None \<Rightarrow> []))"


section \<open>A raw memory\<close>

datatype verdict = Valid AtomicMemory | Rejected PipelineIssue | Quarantined PipelineIssue

definition some_str :: "str option \<Rightarrow> str" where
  "some_str v = (case v of Some s \<Rightarrow> s | None \<Rightarrow> [])"

definition some_object :: "json option \<Rightarrow> jmap" where
  "some_object v = (case Option.bind v as_object of Some m \<Rightarrow> m | None \<Rightarrow> [])"

definition make_memory ::
    "penv \<Rightarrow> ExtractionWindow \<Rightarrow> messages_by_id \<Rightarrow> jmap \<Rightarrow> EvidenceRef list \<Rightarrow> AtomicMemory" where
  "make_memory E w lookup ob evs =
     (let memory_type = some_str (str_field ob ''memory_type'');
          memory_text = trim (some_str (str_field ob ''text''));
          subject = some_object (map_of ob (lit ''subject''));
          predicate = trim (some_str (str_field ob ''predicate''));
          modality = some_str (str_field ob ''modality'');
          event_time = (case Option.bind (map_of ob (lit ''event_time'')) as_object of
             Some [] \<Rightarrow> None | other \<Rightarrow> other);
          attributes = some_object (map_of ob (lit ''attributes''));
          canonical = jobject
            [(lit ''memory_type'', JString memory_type), (lit ''text'', JString memory_text),
             (lit ''subject'', JObject subject), (lit ''predicate'', JString predicate),
             (lit ''object'', jopt (map_of ob (lit ''object''))), (lit ''modality'', JString modality),
             (lit ''event_time'', jopt (map_option JObject event_time)),
             (lit ''attributes'', JObject attributes)]
      in \<lparr>am_id = lit ''candidate-'' @ stable_hash E [JString (wi_scope_id w), canonical],
          am_scope_id = wi_scope_id w,
          am_text = memory_text,
          am_memory_type = memory_type,
          am_subject = subject,
          am_predicate = predicate,
          am_object = (case map_of ob (lit ''object'') of Some JNull \<Rightarrow> None | other \<Rightarrow> other),
          am_modality = modality,
          am_evidence = evs,
          am_event_time = event_time,
          am_attributes = attributes,
          am_model_confidence = map_of ob (lit ''model_confidence''),
          am_observed_at = observed_at evs lookup w,
          am_source_episode_id = wi_episode_id w,
          am_source_window_id = wi_id w,
          am_observation_refs = []\<rparr>)"

definition too_long_message :: "nat \<Rightarrow> str" where
  "too_long_message n = lit ''memory text exceeds '' @ dec_str n @ lit '' characters''"

definition validate_memory ::
    "penv \<Rightarrow> ExtractionWindow \<Rightarrow> messages_by_id \<Rightarrow> nat \<Rightarrow> nat \<Rightarrow> json \<Rightarrow> verdict" where
  "validate_memory E w lookup max_chars idx raw = (case valid_schema E raw of
     None \<Rightarrow> Rejected (validation_issue w idx ''malformed_schema''
               (lit ''memory fields do not match atomic_memory_v1''))
   | Some ob \<Rightarrow>
      (if some_str (str_field ob ''memory_type'') \<notin> set MEMORY_TYPES
          \<or> some_str (str_field ob ''modality'') \<notin> set MODALITIES
       then Rejected (validation_issue w idx ''unknown_enum''
               (lit ''memory_type or modality is not allowed''))
       else (case validate_evidence E w lookup idx
                    (case Option.bind (map_of ob (lit ''evidence'')) as_array of
                       Some items \<Rightarrow> items | None \<Rightarrow> []) of
           Inl (problem, rejected) \<Rightarrow> if rejected then Rejected problem else Quarantined problem
         | Inr evs \<Rightarrow>
            (if \<not> (\<exists>ev \<in> set evs. ev_role ev = lit ''primary'' \<and> is_candidate ev (wi_candidate_refs w))
             then Rejected (validation_issue w idx ''missing_candidate_evidence''
                    (lit ''memory requires primary evidence from a candidate span''))
             else if length (trim (some_str (str_field ob ''text''))) > max_chars
             then Quarantined (validation_issue w idx ''memory_text_too_long'' (too_long_message max_chars))
             else if suspicious_modality E (some_str (str_field ob ''modality'')) evs
             then Quarantined (validation_issue w idx ''suspicious_modality''
                    (lit ''memory modality is inconsistent with its evidence''))
             else Valid (make_memory E w lookup ob evs)))))"

fun push_verdict :: "verdict \<Rightarrow> ValidationBatch \<Rightarrow> ValidationBatch" where
  "push_verdict (Valid m) b = b\<lparr>vb_valid := vb_valid b @ [m]\<rparr>"
| "push_verdict (Rejected p) b = b\<lparr>vb_rejected := vb_rejected b @ [p]\<rparr>"
| "push_verdict (Quarantined p) b = b\<lparr>vb_quarantined := vb_quarantined b @ [p]\<rparr>"

definition validate_extraction ::
    "penv \<Rightarrow> json list \<Rightarrow> ExtractionWindow \<Rightarrow> messages_by_id \<Rightarrow> nat \<Rightarrow> ValidationBatch" where
  "validate_extraction E raws w lookup max_chars =
     fold (\<lambda>(idx, raw). push_verdict (validate_memory E w lookup max_chars idx raw))
       (List.enumerate 0 raws) \<lparr>vb_valid = [], vb_rejected = [], vb_quarantined = []\<rparr>"

end
