(* ===== verification/PipeValidationProps.thy ===== *)
theory PipeValidationProps
  imports PipeValidation
begin

text \<open>
  What validation guarantees: the walk over the spans decides set inclusion, the evidence of a valid
  memory is a unique verbatim quotation inside the window, and no raw memory disappears.
\<close>

section \<open>Span coverage\<close>

definition spans_set :: "(nat \<times> nat) list \<Rightarrow> nat set" where
  "spans_set sp = (\<Union>(s, t) \<in> set sp. {s..<t})"

lemma spans_set_simps [simp]:
  "spans_set [] = {}" "spans_set ((s, t) # sp) = {s..<t} \<union> spans_set sp"
  "spans_set (xs @ ys) = spans_set xs \<union> spans_set ys"
  by (auto simp: spans_set_def)

lemma spans_set_set: "set xs = set ys \<Longrightarrow> spans_set xs = spans_set ys"
  by (simp add: spans_set_def)

lemma cover_loop_iff:
  assumes "sorted (map fst sp)" "cursor < e"
  shows "cover_loop cursor e sp \<longleftrightarrow> {cursor..<e} \<subseteq> spans_set sp"
  using assms
proof (induction cursor e sp rule: cover_loop.induct)
  case (1 cursor e)
  then show ?case by auto
next
  case (2 cursor e s t sp)
  have srt: "sorted (map fst sp)" "\<forall>p \<in> set sp. s \<le> fst p" using 2(3) by auto
  consider "t \<le> cursor" | "\<not> t \<le> cursor" "s > cursor" | "\<not> t \<le> cursor" "\<not> s > cursor" "t \<ge> e"
    | "\<not> t \<le> cursor" "\<not> s > cursor" "\<not> t \<ge> e" by blast
  then show ?case
  proof cases
    case 1
    then have "{cursor..<e} \<inter> {s..<t} = {}" by auto
    then show ?thesis using 2(1) [OF 1 srt(1) 2(4)] 1 by auto
  next
    case a: 2
    have "cursor \<notin> spans_set ((s, t) # sp)"
      using a srt(2) by (auto simp: spans_set_def)
    then show ?thesis using a 2(4) by auto
  next
    case 3
    then have "max cursor t \<ge> e" "{cursor..<e} \<subseteq> {s..<t}" by auto
    then show ?thesis using 3 by auto
  next
    case 4
    then have m: "max cursor t = t" by simp
    have "cover_loop t e sp \<longleftrightarrow> {t..<e} \<subseteq> spans_set sp"
      using 2(2) [of ] 4 srt(1) m by simp
    moreover have "{cursor..<e} = {cursor..<t} \<union> {t..<e}" "{cursor..<t} \<subseteq> {s..<t}"
        "{t..<e} \<inter> {s..<t} = {}" using 4 by auto
    then have "{cursor..<e} \<subseteq> {s..<t} \<union> spans_set sp \<longleftrightarrow> {t..<e} \<subseteq> spans_set sp" by blast
    ultimately show ?thesis using 4 m by simp
  qed
qed

definition message_spans :: "str \<Rightarrow> MessageRef list \<Rightarrow> (nat \<times> nat) list" where
  "message_spans i refs = map ref_span (filter (\<lambda>r. mr_message_id r = i) refs)"

lemma spans_set_message:
  "c \<in> spans_set (message_spans i refs)
     \<longleftrightarrow> (\<exists>r \<in> set refs. mr_message_id r = i \<and> mr_start r \<le> c \<and> c < mr_end r)"
  by (auto simp: spans_set_def message_spans_def ref_span_def)

lemma span_is_covered_iff:
  assumes "s < e"
  shows "span_is_covered i s e refs \<longleftrightarrow> {s..<e} \<subseteq> spans_set (message_spans i refs)"
proof -
  have "sorted (map fst (sort (message_spans i refs)))"
    unfolding sorted_map
    by (rule sorted_wrt_mono_rel [OF _ sorted_sort]) (auto simp: less_eq_prod_def)
  from cover_loop_iff [OF this assms] show ?thesis
    using spans_set_set [of "sort (message_spans i refs)" "message_spans i refs"]
    by (simp add: span_is_covered_def message_spans_def)
qed

text \<open>The walk over the sorted spans decides coverage: a non-empty stretch of a message counts as
  covered exactly when every one of its characters lies in some reference to that message,
  whether one reference holds it or several adjacent or overlapping ones do.\<close>

theorem span_coverage_reference:
  assumes "s < e"
  shows "span_is_covered i s e refs
     \<longleftrightarrow> (\<forall>c. s \<le> c \<and> c < e \<longrightarrow> (\<exists>r \<in> set refs. mr_message_id r = i \<and> mr_start r \<le> c \<and> c < mr_end r))"
  unfolding span_is_covered_iff [OF assms] by (auto simp: spans_set_message [symmetric])

theorem span_coverage_reference_witness:
  "span_is_covered (lit ''m1'') 2 6 [message_ref sample_message 4 9, message_ref sample_message 0 4]
   \<and> \<not> span_is_covered (lit ''m1'') 2 6 [message_ref sample_message 5 9, message_ref sample_message 0 4]"
proof -
  have i: "nm_id sample_message = lit ''m1''" by (simp add: sample_message_def)
  show ?thesis
    using span_coverage_reference [of 2 6 "lit ''m1''" "[message_ref sample_message 4 9, message_ref sample_message 0 4]"]
      span_coverage_reference [of 2 6 "lit ''m1''" "[message_ref sample_message 5 9, message_ref sample_message 0 4]"] i
    by (auto intro!: exI [of _ "4::nat"])
qed

section \<open>Evidence\<close>

text \<open>A stretch of a message that the window shows.\<close>

definition shown :: "ExtractionWindow \<Rightarrow> str \<Rightarrow> nat \<Rightarrow> nat \<Rightarrow> bool" where
  "shown w i s e \<longleftrightarrow> {s..<e} \<subseteq> spans_set (message_spans i (window_refs w))"

definition evidence_sound :: "ExtractionWindow \<Rightarrow> messages_by_id \<Rightarrow> EvidenceRef \<Rightarrow> bool" where
  "evidence_sound w lookup ev \<longleftrightarrow>
     (\<exists>m. lookup (ev_message_id ev) = Some m
        \<and> ev_start ev < ev_end ev \<and> ev_end ev \<le> length (nm_text m)
        \<and> char_slice (nm_text m) (ev_start ev) (ev_end ev) = ev_quote ev
        \<and> shown w (ev_message_id ev) (ev_start ev) (ev_end ev)
        \<and> (\<forall>s. s + length (ev_quote ev) \<le> length (nm_text m)
              \<and> char_slice (nm_text m) s (s + length (ev_quote ev)) = ev_quote ev
              \<and> shown w (ev_message_id ev) s (s + length (ev_quote ev)) \<longrightarrow> s = ev_start ev))"

lemma quote_matches_iff:
  assumes "needle \<noteq> []"
  shows "s \<in> set (quote_matches i source needle refs) \<longleftrightarrow>
     s + length needle \<le> length source \<and> char_slice source s (s + length needle) = needle
     \<and> {s..<s + length needle} \<subseteq> spans_set (message_spans i refs)"
proof -
  have c: "span_is_covered i s (s + length needle) refs
      \<longleftrightarrow> {s..<s + length needle} \<subseteq> spans_set (message_spans i refs)"
    by (rule span_is_covered_iff) (use assms in simp)
  have u: "s \<in> set [0..<length source - length needle + 1] \<longleftrightarrow> s + length needle \<le> length source"
    if "length needle \<le> length source" using that by auto
  show ?thesis
  proof (cases "length needle \<le> length source")
    case True
    then show ?thesis using u [OF True]
      unfolding quote_matches_def char_slice_def by (auto simp: c simp del: upt_Suc set_upt)
  qed (simp add: quote_matches_def)
qed

lemma message_spans_matching:
  "message_spans i (filter (\<lambda>r. mr_message_id r = i) refs) = message_spans i refs"
  by (simp add: message_spans_def)

lemma validate_evidence_item_accepts:
  assumes "validate_evidence_item E w lookup idx v = Inr ev"
  obtains m where "lookup (ev_message_id ev) = Some m" "ev_quote ev \<noteq> []"
    "ev_end ev = ev_start ev + length (ev_quote ev)"
    "quote_matches (ev_message_id ev) (nm_text m) (ev_quote ev)
       (filter (\<lambda>r. mr_message_id r = ev_message_id ev) (window_refs w)) = [ev_start ev]"
    "ev_role ev \<in> set EVIDENCE_ROLES"
  using assms
  by (auto simp: validate_evidence_item_def Let_def
      split: option.split_asm prod.split_asm if_split_asm list.split_asm)

lemma validate_evidence_item_sound:
  assumes "validate_evidence_item E w lookup idx v = Inr ev"
  shows "evidence_sound w lookup ev \<and> ev_role ev \<in> set EVIDENCE_ROLES"
  using assms
proof (rule validate_evidence_item_accepts)
  fix m
  assume m: "lookup (ev_message_id ev) = Some m" "ev_quote ev \<noteq> []"
    "ev_end ev = ev_start ev + length (ev_quote ev)"
    "quote_matches (ev_message_id ev) (nm_text m) (ev_quote ev)
       (filter (\<lambda>r. mr_message_id r = ev_message_id ev) (window_refs w)) = [ev_start ev]"
    "ev_role ev \<in> set EVIDENCE_ROLES"
  have iff: "s + length (ev_quote ev) \<le> length (nm_text m)
      \<and> char_slice (nm_text m) s (s + length (ev_quote ev)) = ev_quote ev
      \<and> shown w (ev_message_id ev) s (s + length (ev_quote ev)) \<longleftrightarrow> s = ev_start ev" for s
    using quote_matches_iff [OF m(2), of s "ev_message_id ev" "nm_text m"
        "filter (\<lambda>r. mr_message_id r = ev_message_id ev) (window_refs w)"] m(4)
    unfolding shown_def message_spans_matching by simp
  have "ev_start ev < ev_end ev" using m(2,3) by simp
  then show ?thesis
    unfolding evidence_sound_def m(3) using m(1,5) iff by blast
qed

lemma validate_evidence_sound:
  assumes "validate_evidence E w lookup idx vs = Inr evs"
  shows "length evs = length vs \<and> (\<forall>ev \<in> set evs. evidence_sound w lookup ev \<and> ev_role ev \<in> set EVIDENCE_ROLES)"
  using assms
proof (induction vs arbitrary: evs)
  case (Cons v vs)
  then show ?case using validate_evidence_item_sound [of E w lookup idx v]
    by (auto split: sum.splits)
qed simp


section \<open>Memories and batches\<close>

definition memory_sound ::
    "penv \<Rightarrow> ExtractionWindow \<Rightarrow> messages_by_id \<Rightarrow> nat \<Rightarrow> AtomicMemory \<Rightarrow> bool" where
  "memory_sound E w lookup max_chars m \<longleftrightarrow>
     am_memory_type m \<in> set MEMORY_TYPES \<and> am_modality m \<in> set MODALITIES
     \<and> am_text m \<noteq> [] \<and> length (am_text m) \<le> max_chars \<and> am_predicate m \<noteq> []
     \<and> am_evidence m \<noteq> []
     \<and> (\<forall>ev \<in> set (am_evidence m). evidence_sound w lookup ev)
     \<and> (\<exists>ev \<in> set (am_evidence m). ev_role ev = lit ''primary''
          \<and> {ev_start ev..<ev_end ev} \<subseteq> spans_set (message_spans (ev_message_id ev) (wi_candidate_refs w)))
     \<and> \<not> suspicious_modality E (am_modality m) (am_evidence m)
     \<and> am_scope_id m = wi_scope_id w \<and> am_source_episode_id m = wi_episode_id w
     \<and> am_source_window_id m = wi_id w \<and> am_observation_refs m = []
     \<and> am_id m = lit ''candidate-'' @ stable_hash E [JString (am_scope_id m), canonical_content m]"

lemma valid_schema_result:
  assumes "valid_schema E raw = Some ob"
  shows "as_object raw = Some ob \<and> trim (some_str (str_field ob ''text'')) \<noteq> []
     \<and> trim (some_str (str_field ob ''predicate'')) \<noteq> []
     \<and> (\<exists>items. Option.bind (map_of ob (lit ''evidence'')) as_array = Some items \<and> items \<noteq> [])
     \<and> (\<exists>subj. Option.bind (map_of ob (lit ''subject'')) as_object = Some subj)"
proof -
  have "is_object v \<Longrightarrow> \<exists>m. as_object v = Some m" for v by (cases v) auto
  then show ?thesis using assms
    by (auto simp: valid_schema_def some_str_def bind_eq_Some_conv split: if_splits option.splits)
qed

lemma make_memory_fields [simp]:
  "am_evidence (make_memory E w lookup ob evs) = evs"
  "am_text (make_memory E w lookup ob evs) = trim (some_str (str_field ob ''text''))"
  "am_predicate (make_memory E w lookup ob evs) = trim (some_str (str_field ob ''predicate''))"
  "am_memory_type (make_memory E w lookup ob evs) = some_str (str_field ob ''memory_type'')"
  "am_modality (make_memory E w lookup ob evs) = some_str (str_field ob ''modality'')"
  "am_scope_id (make_memory E w lookup ob evs) = wi_scope_id w"
  "am_source_episode_id (make_memory E w lookup ob evs) = wi_episode_id w"
  "am_source_window_id (make_memory E w lookup ob evs) = wi_id w"
  "am_observation_refs (make_memory E w lookup ob evs) = []"
  by (simp_all add: make_memory_def Let_def)

lemma jopt_object: "jopt (case v of Some JNull \<Rightarrow> None | other \<Rightarrow> other) = jopt v"
  by (auto simp: jopt_def split: option.splits json.splits)

lemma make_memory_id:
  "am_id (make_memory E w lookup ob evs)
     = lit ''candidate-'' @ stable_hash E [JString (wi_scope_id w), canonical_content (make_memory E w lookup ob evs)]"
  by (simp add: make_memory_def canonical_content_def Let_def jopt_object)

lemma validate_memory_valid:
  assumes "validate_memory E w lookup max_chars idx raw = Valid m"
  obtains ob evs items where "valid_schema E raw = Some ob"
    "m = make_memory E w lookup ob evs"
    "Option.bind (map_of ob (lit ''evidence'')) as_array = Some items"
    "validate_evidence E w lookup idx items = Inr evs"
    "some_str (str_field ob ''memory_type'') \<in> set MEMORY_TYPES"
    "some_str (str_field ob ''modality'') \<in> set MODALITIES"
    "\<exists>ev \<in> set evs. ev_role ev = lit ''primary'' \<and> is_candidate ev (wi_candidate_refs w)"
    "length (trim (some_str (str_field ob ''text''))) \<le> max_chars"
    "\<not> suspicious_modality E (some_str (str_field ob ''modality'')) evs"
proof -
  obtain ob where ob: "valid_schema E raw = Some ob"
    using assms by (auto simp: validate_memory_def split: option.split_asm)
  obtain items where items: "Option.bind (map_of ob (lit ''evidence'')) as_array = Some items"
    using valid_schema_result [OF ob] by blast
  show thesis
    using assms that [OF ob _ items]
    by (auto simp: validate_memory_def ob items not_less split: if_split_asm sum.split_asm prod.split_asm)
qed

lemma validate_memory_sound:
  assumes "validate_memory E w lookup max_chars idx raw = Valid m"
  shows "memory_sound E w lookup max_chars m"
proof -
  obtain ob evs items where v: "valid_schema E raw = Some ob" "m = make_memory E w lookup ob evs"
    "Option.bind (map_of ob (lit ''evidence'')) as_array = Some items"
    "validate_evidence E w lookup idx items = Inr evs"
    "some_str (str_field ob ''memory_type'') \<in> set MEMORY_TYPES"
    "some_str (str_field ob ''modality'') \<in> set MODALITIES"
    "\<exists>ev \<in> set evs. ev_role ev = lit ''primary'' \<and> is_candidate ev (wi_candidate_refs w)"
    "length (trim (some_str (str_field ob ''text''))) \<le> max_chars"
    "\<not> suspicious_modality E (some_str (str_field ob ''modality'')) evs"
    using assms by (rule validate_memory_valid)
  note S = valid_schema_result [OF v(1)] and Ev = validate_evidence_sound [OF v(4)]
  have prim: "\<exists>ev \<in> set evs. ev_role ev = lit ''primary''
      \<and> {ev_start ev..<ev_end ev} \<subseteq> spans_set (message_spans (ev_message_id ev) (wi_candidate_refs w))"
    using v(7) Ev unfolding is_candidate_def evidence_sound_def by (metis span_is_covered_iff)
  have "evs \<noteq> []" using v(7) by auto
  moreover have "am_id m = lit ''candidate-'' @ stable_hash E [JString (am_scope_id m), canonical_content m]"
    by (simp add: v(2) make_memory_id)
  ultimately show ?thesis
    using v(5,6,8,9) S Ev prim unfolding memory_sound_def v(2) by simp
qed

lemma fold_push_verdict:
  "fold (\<lambda>(idx, raw). push_verdict (f idx raw)) xs b =
     \<lparr>vb_valid = vb_valid b @ concat (map (\<lambda>(idx, raw). case f idx raw of Valid m \<Rightarrow> [m] | _ \<Rightarrow> []) xs),
      vb_rejected = vb_rejected b @ concat (map (\<lambda>(idx, raw). case f idx raw of Rejected p \<Rightarrow> [p] | _ \<Rightarrow> []) xs),
      vb_quarantined = vb_quarantined b @ concat (map (\<lambda>(idx, raw). case f idx raw of Quarantined p \<Rightarrow> [p] | _ \<Rightarrow> []) xs)\<rparr>"
proof (induction xs arbitrary: b)
  case (Cons x xs)
  obtain idx raw where x: "x = (idx, raw)" by (cases x)
  show ?case by (cases "f idx raw") (simp_all add: Cons x)
qed simp

lemma verdict_lengths:
  "length (concat (map (\<lambda>(idx, raw). case f idx raw of Valid m \<Rightarrow> [m] | _ \<Rightarrow> []) xs))
   + length (concat (map (\<lambda>(idx, raw). case f idx raw of Rejected p \<Rightarrow> [p] | _ \<Rightarrow> []) xs))
   + length (concat (map (\<lambda>(idx, raw). case f idx raw of Quarantined p \<Rightarrow> [p] | _ \<Rightarrow> []) xs)) = length xs"
  by (induction xs) (auto split: verdict.split)

lemma validate_extraction_valid:
  assumes "m \<in> set (vb_valid (validate_extraction E raws w lookup max_chars))"
  shows "\<exists>idx raw. raw \<in> set raws \<and> validate_memory E w lookup max_chars idx raw = Valid m"
  using assms
  by (fastforce simp: validate_extraction_def fold_push_verdict in_set_enumerate_eq
      split: verdict.splits intro: nth_mem)

lemma validate_extraction_sound:
  assumes "m \<in> set (vb_valid (validate_extraction E raws w lookup max_chars))"
  shows "memory_sound E w lookup max_chars m"
  using validate_extraction_valid [OF assms] validate_memory_sound by blast

lemma validate_extraction_count:
  "length (vb_valid (validate_extraction E raws w lookup max_chars))
   + length (vb_rejected (validate_extraction E raws w lookup max_chars))
   + length (vb_quarantined (validate_extraction E raws w lookup max_chars)) = length raws"
  using verdict_lengths [of "validate_memory E w lookup max_chars" "List.enumerate 0 raws"]
  by (simp add: validate_extraction_def fold_push_verdict)

section \<open>A memory of the sample window\<close>

definition sample_evidence :: EvidenceRef where
  "sample_evidence = \<lparr>ev_message_id = lit ''m1'', ev_quote = lit ''like tea'', ev_start = 2,
     ev_end = 10, ev_role = lit ''primary''\<rparr>"

definition sample_object :: jmap where
  "sample_object =
     [(lit ''evidence'', JArray [JObject
         [(lit ''evidence_role'', JString (lit ''primary'')), (lit ''message_id'', JString (lit ''m1'')),
          (lit ''quote'', JString (lit ''like tea''))]]),
      (lit ''memory_type'', JString (lit ''preference'')),
      (lit ''modality'', JString (lit ''asserted'')), (lit ''predicate'', JString (lit ''s'')),
      (lit ''subject'', JObject []), (lit ''text'', JString (lit ''I like tea.''))]"

definition sample_memory :: AtomicMemory where
  "sample_memory = make_memory sample_env sample_window sample_lookup sample_object [sample_evidence]"

lemma sample_window_refs: "window_refs sample_window = [message_ref sample_message 0 11]"
  "wi_candidate_refs sample_window = [message_ref sample_message 0 11]"
  by (simp_all add: window_refs_def sample_window_def)

lemma sample_quote_matches:
  "quote_matches (lit ''m1'') (lit ''I like tea.'') (lit ''like tea'') [message_ref sample_message 0 11] = [2]"
  by (simp add: quote_matches_def span_is_covered_def upt_rec numeral_eq_Suc lit_def sample_message_def)

lemma sample_evidence_valid:
  "validate_evidence sample_env sample_window sample_lookup idx
     [JObject [(lit ''evidence_role'', JString (lit ''primary'')),
        (lit ''message_id'', JString (lit ''m1'')), (lit ''quote'', JString (lit ''like tea''))]]
   = Inr [sample_evidence]"
proof -
  have i: "nm_id sample_message = lit ''m1''" "nm_text sample_message = lit ''I like tea.''"
    by (simp_all add: sample_message_def)
  show ?thesis
    by (simp add: validate_evidence_item_def str_field_def EVIDENCE_ROLES_def sample_window_refs i
        sample_lookup_def sample_quote_matches sample_evidence_def)
qed

lemma sample_memory_valid:
  "validate_memory sample_env sample_window sample_lookup 500 idx (JObject sample_object) = Valid sample_memory"
proof -
  have sch: "valid_schema sample_env (JObject sample_object) = Some sample_object"
    by (simp add: valid_schema_def str_field_def sample_object_def optional_object_ok_def jopt_def
        confidence_ok_def)
  have ev: "Option.bind (map_of sample_object (lit ''evidence'')) as_array = Some
     [JObject [(lit ''evidence_role'', JString (lit ''primary'')),
        (lit ''message_id'', JString (lit ''m1'')), (lit ''quote'', JString (lit ''like tea''))]]"
    by (simp add: sample_object_def)
  have f: "some_str (str_field sample_object ''memory_type'') = lit ''preference''"
    "some_str (str_field sample_object ''modality'') = lit ''asserted''"
    "some_str (str_field sample_object ''text'') = lit ''I like tea.''"
    by (simp_all add: sample_object_def some_str_def str_field_def)
  have c: "is_candidate sample_evidence (wi_candidate_refs sample_window)"
    by (simp add: is_candidate_def sample_evidence_def sample_window_refs span_is_covered_def)
       (simp add: sample_message_def)
  have sus: "\<not> suspicious_modality sample_env (lit ''asserted'') [sample_evidence]"
    by (simp add: suspicious_modality_def sample_evidence_def sample_env_def modality_markers_def lit_def
        ascii_lower_def)
  have r: "ev_role sample_evidence = lit ''primary''" by (simp add: sample_evidence_def)
  show ?thesis
    using c sus by (simp add: validate_memory_def sch ev f r sample_evidence_valid MEMORY_TYPES_def
        MODALITIES_def sample_memory_def del: validate_evidence.simps)
qed

lemma sample_validated:
  "validate_extraction sample_env [JObject sample_object, JNull] sample_window sample_lookup 500
   = \<lparr>vb_valid = [sample_memory],
      vb_rejected = [validation_issue sample_window 1 ''malformed_schema''
        (lit ''memory fields do not match atomic_memory_v1'')],
      vb_quarantined = []\<rparr>"
proof -
  have "validate_memory sample_env sample_window sample_lookup 500 1 JNull
      = Rejected (validation_issue sample_window 1 ''malformed_schema''
        (lit ''memory fields do not match atomic_memory_v1''))"
    by (simp add: validate_memory_def valid_schema_def)
  then show ?thesis by (simp add: validate_extraction_def sample_memory_valid)
qed

text \<open>C17: Every memory that validation keeps is grounded in the window: it has evidence, each item
  quotes a known message verbatim at its offsets, inside what the window shows of that message,
  and at the only place where the window shows that quotation; and some item marked primary lies
  entirely in the candidate references. The memory's id is the hash of its scope and content.\<close>

theorem validated_evidence_sound:
  assumes "m \<in> set (vb_valid (validate_extraction E raws w lookup max_chars))"
  shows "am_evidence m \<noteq> [] \<and> (\<forall>ev \<in> set (am_evidence m). evidence_sound w lookup ev)
     \<and> (\<exists>ev \<in> set (am_evidence m). ev_role ev = lit ''primary''
          \<and> (\<forall>c. ev_start ev \<le> c \<and> c < ev_end ev \<longrightarrow>
               (\<exists>r \<in> set (wi_candidate_refs w). mr_message_id r = ev_message_id ev
                  \<and> mr_start r \<le> c \<and> c < mr_end r)))
     \<and> am_id m = lit ''candidate-'' @ stable_hash E [JString (am_scope_id m), canonical_content m]"
proof -
  note S = validate_extraction_sound [OF assms, unfolded memory_sound_def]
  from S obtain ev where "ev \<in> set (am_evidence m)" "ev_role ev = lit ''primary''"
    "\<forall>c. ev_start ev \<le> c \<and> c < ev_end ev \<longrightarrow>
       c \<in> spans_set (message_spans (ev_message_id ev) (wi_candidate_refs w))"
    by (metis atLeastLessThan_iff subsetD)
  with S show ?thesis unfolding spans_set_message by blast
qed

theorem validated_evidence_sound_witness:
  "\<exists>ev \<in> set (am_evidence sample_memory). ev_role ev = lit ''primary''
     \<and> (\<exists>r \<in> set (wi_candidate_refs sample_window). mr_message_id r = ev_message_id ev)"
proof -
  have "sample_memory \<in> set (vb_valid (validate_extraction sample_env [JObject sample_object, JNull]
      sample_window sample_lookup 500))"
    by (simp add: sample_validated)
  from validated_evidence_sound [OF this] show ?thesis
    unfolding evidence_sound_def by (metis order_refl)
qed

text \<open>No raw memory of the model disappears: each one becomes a valid memory, a rejected or a
  quarantined issue, exactly one of them; and what is valid has an allowed type and modality, a
  text that is neither blank nor too long, a predicate, and the scope, episode and window it came
  from.\<close>

theorem validation_conserves:
  "length (vb_valid (validate_extraction E raws w lookup max_chars))
     + length (vb_rejected (validate_extraction E raws w lookup max_chars))
     + length (vb_quarantined (validate_extraction E raws w lookup max_chars)) = length raws
   \<and> list_all (\<lambda>m. am_memory_type m \<in> set MEMORY_TYPES \<and> am_modality m \<in> set MODALITIES
        \<and> am_text m \<noteq> [] \<and> length (am_text m) \<le> max_chars \<and> am_predicate m \<noteq> []
        \<and> \<not> suspicious_modality E (am_modality m) (am_evidence m)
        \<and> am_scope_id m = wi_scope_id w \<and> am_source_episode_id m = wi_episode_id w
        \<and> am_source_window_id m = wi_id w) (vb_valid (validate_extraction E raws w lookup max_chars))"
  using validate_extraction_sound [of _ E raws w lookup max_chars]
  by (simp add: validate_extraction_count list_all_iff memory_sound_def)

end
