(* ===== verification/PipeGrounding.thy ===== *)
theory PipeGrounding
  imports PipeExtractionProps PipeValidationProps
begin

text \<open>
  The grounding stage (\<open>grounding.rs\<close>): the valid memories of a window are sent to a verifier that gives
  each a status. The reading of its answer accepts exactly one result for each memory.
\<close>

section \<open>Results\<close>

definition STATUSES :: "str list" where
  "STATUSES = map lit [''SUPPORTED'', ''PARTIALLY_SUPPORTED'', ''UNSUPPORTED'', ''UNCERTAIN'']"

record GroundingResult =
  gr_memory_id :: str
  gr_status :: str
  gr_reason :: str

record GroundingBatch =
  gb_window_id :: str
  gb_results :: "GroundingResult list"
  gb_usage :: ModelUsage
  gb_raw_response :: str

definition validate_status :: "penv \<Rightarrow> str \<Rightarrow> unit presult" where
  "validate_status E status =
     (if status \<notin> set STATUSES then Inl (Protocol (lit ''unknown grounding status: '' @ pe_debug E status))
      else Inr ())"

definition str_or_empty :: "jmap \<Rightarrow> string \<Rightarrow> str" where
  "str_or_empty ob k = (case Option.bind (map_of ob (lit k)) as_str of Some s \<Rightarrow> s | None \<Rightarrow> [])"

fun first_duplicate :: "str list \<Rightarrow> str list \<Rightarrow> str option" where
  "first_duplicate seen [] = None"
| "first_duplicate seen (i # is) = (if i \<in> set seen then Some i else first_duplicate (i # seen) is)"

definition parse_result :: "penv \<Rightarrow> str list \<Rightarrow> (str \<times> GroundingResult) list \<Rightarrow> json \<Rightarrow> GroundingResult presult" where
  "parse_result E expected by_id v = (case as_object v of
     None \<Rightarrow> Inl (Protocol (lit ''each grounding result must be an object''))
   | Some ob \<Rightarrow>
      (case (str_field ob ''memory_id'', str_field ob ''status'') of
         (Some i, Some status) \<Rightarrow>
           (if map_of by_id i \<noteq> None then Inl (Protocol (lit ''duplicate grounding result for '' @ i))
            else if i \<notin> set expected then Inl (Protocol (lit ''unexpected grounding result for '' @ i))
            else (case validate_status E status of
                Inl e \<Rightarrow> Inl e
              | Inr _ \<Rightarrow> Inr \<lparr>gr_memory_id = i, gr_status = status, gr_reason = str_or_empty ob ''reason''\<rparr>))
       | _ \<Rightarrow> Inl (Protocol (lit ''grounding result fields are invalid''))))"

fun parse_results ::
    "penv \<Rightarrow> str list \<Rightarrow> (str \<times> GroundingResult) list \<Rightarrow> json list \<Rightarrow> (str \<times> GroundingResult) list presult" where
  "parse_results E expected by_id [] = Inr by_id"
| "parse_results E expected by_id (v # vs) = (case parse_result E expected by_id v of
     Inl e \<Rightarrow> Inl e
   | Inr r \<Rightarrow> parse_results E expected (AList.update (gr_memory_id r) r by_id) vs)"

definition parse_grounding_results :: "penv \<Rightarrow> json \<Rightarrow> AtomicMemory list \<Rightarrow> GroundingResult list presult" where
  "parse_grounding_results E payload memories =
     (case Option.bind (json_get payload (lit ''results'')) as_array of
        None \<Rightarrow> Inl (Protocol (lit ''grounding results must be a list''))
      | Some raw \<Rightarrow>
         (case first_duplicate [] (map am_id memories) of
            Some i \<Rightarrow> Inl (Protocol (lit ''duplicate memory id in grounding input: '' @ i))
          | None \<Rightarrow>
             (case parse_results E (map am_id memories) [] raw of
                Inl e \<Rightarrow> Inl e
              | Inr by_id \<Rightarrow>
                 (case find (\<lambda>i. map_of by_id i = None) (map am_id memories) of
                    Some i \<Rightarrow> Inl (Protocol (lit ''grounding response omitted memory '' @ i))
                  | None \<Rightarrow> Inr (map (\<lambda>m. the (map_of by_id (am_id m))) memories)))))"


section \<open>The prompt\<close>

definition evidence_prompt_value :: "NormalizedMessage \<Rightarrow> EvidenceRef \<Rightarrow> json" where
  "evidence_prompt_value source ev = jobject
     [(lit ''message_id'', JString (ev_message_id ev)), (lit ''quote'', JString (ev_quote ev)),
      (lit ''start_char'', jnat (ev_start ev)), (lit ''end_char'', jnat (ev_end ev)),
      (lit ''evidence_role'', JString (ev_role ev)), (lit ''source_role'', JString (nm_role source)),
      (lit ''source_speaker'', JString (nm_speaker source)),
      (lit ''source_timestamp'', JString (nm_timestamp source))]"

definition evidence_item :: "messages_by_id \<Rightarrow> EvidenceRef \<Rightarrow> json presult" where
  "evidence_item lookup ev = (case lookup (ev_message_id ev) of
     None \<Rightarrow> Inl (InvalidInput (lit ''grounding evidence references unknown message: '' @ ev_message_id ev))
   | Some source \<Rightarrow> Inr (evidence_prompt_value source ev))"

definition candidate_value :: "messages_by_id \<Rightarrow> AtomicMemory \<Rightarrow> json presult" where
  "candidate_value lookup m = (case collect (evidence_item lookup) (am_evidence m) of
     Inl e \<Rightarrow> Inl e
   | Inr evs \<Rightarrow> Inr (jobject
       [(lit ''memory_id'', JString (am_id m)), (lit ''claim'', canonical_content m),
        (lit ''observation_time'', JString (am_observed_at m)), (lit ''evidence'', JArray evs)]))"

text \<open>\<open>pe_value_string\<close> prints a value as \<open>serde_json::to_string\<close> does.\<close>

definition build_grounding_prompt :: "penv \<Rightarrow> AtomicMemory list \<Rightarrow> messages_by_id \<Rightarrow> str presult" where
  \<open>build_grounding_prompt E memories lookup = (case collect (candidate_value lookup) memories of
     Inl e \<Rightarrow> Inl e
   | Inr cands \<Rightarrow> Inr
      (lit ''Classify every memory as SUPPORTED, PARTIALLY_SUPPORTED, UNSUPPORTED, or UNCERTAIN. SUPPORTED means every material part of the claim follows from the quoted evidence. Return one result per memory_id.''
       @ [10, 10] @ pe_value_string E (jobject [(lit ''memories'', JArray cands)]) @ [10, 10]
       @ lit ''Output: {"results":[{"memory_id":"...","status":"SUPPORTED","reason":"..."}]}''))\<close>

definition grounding_output_spec :: StructuredOutputSpec where
  "grounding_output_spec = \<lparr>so_name = lit ''memory_grounding'', so_strict = True,
     so_schema = of_type ''object''
       [properties
         [(''results'', of_type ''array''
            [(lit ''items'', of_type ''object''
               [properties
                  [(''memory_id'', of_type ''string'' []),
                   (''status'', of_type ''string'' [(lit ''enum'', JArray (map JString STATUSES))]),
                   (''reason'', of_type ''string'' [])],
                required_fields [''memory_id'', ''status'', ''reason''], additional False])])],
        required_fields [''results''], additional False]\<rparr>"


section \<open>Verifiers\<close>

record 's GroundingVerifier =
  gv_model :: str
  gv_prompt_version :: str
  gv_implementation :: str
  gv_max_output :: "nat option"
  gv_compatibility :: "json option"
  gv_verify :: "ExtractionWindow \<Rightarrow> AtomicMemory list \<Rightarrow> messages_by_id \<Rightarrow> 's \<Rightarrow> 's \<times> GroundingBatch presult"

definition static_result :: "penv \<Rightarrow> (str \<rightharpoonup> json) \<Rightarrow> AtomicMemory \<Rightarrow> GroundingResult presult" where
  "static_result E responses m = (case responses (am_id m) of
     None \<Rightarrow> Inl (Protocol (lit ''missing static grounding for memory '' @ am_id m))
   | Some response \<Rightarrow>
      (case (case as_str response of
               Some status \<Rightarrow> Inr (status, [])
             | None \<Rightarrow> (case as_object response of
                 None \<Rightarrow> Inl (Protocol (lit ''static grounding response must be a string or object''))
               | Some ob \<Rightarrow> Inr (str_or_empty ob ''status'', str_or_empty ob ''reason''))) of
         Inl e \<Rightarrow> Inl e
       | Inr (status, reason) \<Rightarrow> (case validate_status E status of
            Inl e \<Rightarrow> Inl e
          | Inr _ \<Rightarrow> Inr \<lparr>gr_memory_id = am_id m, gr_status = status, gr_reason = reason\<rparr>)))"

definition static_verify ::
    "penv \<Rightarrow> (str \<rightharpoonup> json) \<Rightarrow> ExtractionWindow \<Rightarrow> AtomicMemory list \<Rightarrow> messages_by_id \<Rightarrow> 's
     \<Rightarrow> 's \<times> GroundingBatch presult" where
  "static_verify E responses w memories lookup s = (s, case collect (static_result E responses) memories of
     Inl e \<Rightarrow> Inl e
   | Inr rs \<Rightarrow> Inr \<lparr>gb_window_id = wi_id w, gb_results = rs, gb_usage = default_usage, gb_raw_response = []\<rparr>)"

definition static_verifier :: "penv \<Rightarrow> (str \<rightharpoonup> json) \<Rightarrow> 's GroundingVerifier" where
  "static_verifier E responses = \<lparr>gv_model = lit ''static'', gv_prompt_version = lit ''static_v1'',
     gv_implementation = lit ''StaticGroundingVerifier'', gv_max_output = None, gv_compatibility = None,
     gv_verify = static_verify E responses\<rparr>"

definition new_llm_verifier :: "OpenAiClient \<Rightarrow> str \<Rightarrow> LlmSettings" where
  "new_llm_verifier cl model = \<lparr>ls_client = cl, ls_model = model, ls_prompt_version = lit ''ground_v2'',
     ls_max_output = 1000, ls_context_window = None, ls_reserve = 0\<rparr>"

definition grounding_messages :: "str \<Rightarrow> json list" where
  "grounding_messages prompt =
     [chat_message ''system'' (lit ''You verify whether each candidate memory is fully supported by its quoted source evidence. Return only JSON.''),
      chat_message ''user'' prompt]"

definition read_results :: "penv \<Rightarrow> AtomicMemory list \<Rightarrow> str \<Rightarrow> GroundingResult list presult" where
  "read_results E memories content = (case parse_extraction_json E content of
     Inl e \<Rightarrow> Inl e | Inr payload \<Rightarrow> parse_grounding_results E payload memories)"

definition llm_verify ::
    "penv \<Rightarrow> provider \<Rightarrow> LlmSettings \<Rightarrow> ExtractionWindow \<Rightarrow> AtomicMemory list \<Rightarrow> messages_by_id
     \<Rightarrow> client_state \<Rightarrow> client_state \<times> GroundingBatch presult" where
  "llm_verify E http ls w memories lookup cs =
     (if memories = [] then (cs, Inr \<lparr>gb_window_id = wi_id w, gb_results = [], gb_usage = default_usage,
                                     gb_raw_response = []\<rparr>)
      else (case build_grounding_prompt E memories lookup of
         Inl e \<Rightarrow> (cs, Inl e)
       | Inr prompt \<Rightarrow>
          (case check_budget E ls (grounding_messages prompt) of
             Inl e \<Rightarrow> (cs, Inl e)
           | Inr _ \<Rightarrow>
              (case chat_with_schema E http (ls_client ls) (ls_model ls) (grounding_messages prompt)
                      (ls_max_output ls) (Some grounding_output_spec) cs of
                 (cs', Inl e) \<Rightarrow> (cs', Inl e)
               | (cs', Inr res) \<Rightarrow>
                  (case repair_loop E http ls grounding_output_spec (read_results E memories)
                          (co_json_repair_attempts (cl_compat (ls_client ls))) res cs' of
                     (cs2, Inl e) \<Rightarrow> (cs2, Inl e)
                   | (cs2, Inr (res', Inl e)) \<Rightarrow> (cs2, Inl (at_site
                         (lit ''crates/memory-pipeline/src/grounding.rs'', 198)
                         (lit ''memory_pipeline.ground.parse_response'')
                         (Protocol (lit ''invalid grounding JSON: '' @ error_string e))))
                   | (cs2, Inr (res', Inr rs)) \<Rightarrow> (cs2, Inr \<lparr>gb_window_id = wi_id w, gb_results = rs,
                         gb_usage = cr_usage res', gb_raw_response = cr_content res'\<rparr>))))))"

definition llm_verifier :: "penv \<Rightarrow> provider \<Rightarrow> LlmSettings \<Rightarrow> client_state GroundingVerifier" where
  "llm_verifier E http ls = \<lparr>gv_model = ls_model ls, gv_prompt_version = ls_prompt_version ls,
     gv_implementation = lit ''LLMGroundingVerifier'', gv_max_output = Some (ls_max_output ls),
     gv_compatibility = Some (compatibility_value E (cl_compat (ls_client ls))),
     gv_verify = llm_verify E http ls\<rparr>"

definition verifier_identity :: "'s GroundingVerifier \<Rightarrow> jmap" where
  "verifier_identity c = obj_of
     ([(lit ''implementation'', JString (gv_implementation c)), (lit ''model'', JString (gv_model c)),
       (lit ''prompt_version'', JString (gv_prompt_version c))]
      @ (case gv_max_output c of None \<Rightarrow> [] | Some n \<Rightarrow> [(lit ''max_output_tokens'', jnat n)])
      @ (case gv_compatibility c of None \<Rightarrow> [] | Some v \<Rightarrow> [(lit ''compatibility'', v)]))"


section \<open>One result for each memory\<close>

definition results_for :: "AtomicMemory list \<Rightarrow> GroundingResult list \<Rightarrow> bool" where
  "results_for memories rs \<longleftrightarrow>
     map gr_memory_id rs = map am_id memories \<and> (\<forall>r \<in> set rs. gr_status r \<in> set STATUSES)"

lemma first_duplicate_None: "first_duplicate seen is = None \<longleftrightarrow> distinct is \<and> set is \<inter> set seen = {}"
  by (induction seen "is" rule: first_duplicate.induct) auto

lemma parse_result_accepts:
  assumes "parse_result E expected by_id v = Inr r"
  shows "map_of by_id (gr_memory_id r) = None \<and> gr_memory_id r \<in> set expected \<and> gr_status r \<in> set STATUSES"
  using assms
  by (auto simp: parse_result_def validate_status_def split: option.split_asm prod.split_asm if_split_asm sum.split_asm)

lemma parse_results_sound:
  assumes "parse_results E expected by_id vs = Inr by_id'"
    and "\<forall>i r. map_of by_id i = Some r \<longrightarrow> gr_memory_id r = i \<and> gr_status r \<in> set STATUSES"
  shows "\<forall>i r. map_of by_id' i = Some r \<longrightarrow> gr_memory_id r = i \<and> gr_status r \<in> set STATUSES"
  using assms
proof (induction vs arbitrary: by_id)
  case (Cons v vs)
  obtain r where r: "parse_result E expected by_id v = Inr r"
    "parse_results E expected (AList.update (gr_memory_id r) r by_id) vs = Inr by_id'"
    using Cons.prems(1) by (auto split: sum.split_asm)
  show ?case
  proof (rule Cons.IH [OF r(2)], intro allI impI)
    fix i r' assume "map_of (AList.update (gr_memory_id r) r by_id) i = Some r'"
    then have "r' = r \<and> i = gr_memory_id r \<or> map_of by_id i = Some r'"
      unfolding map_of_update by (metis option.inject)
    then show "gr_memory_id r' = i \<and> gr_status r' \<in> set STATUSES"
      using Cons.prems(2) parse_result_accepts [OF r(1)] by blast
  qed
qed simp

lemma parse_grounding_results_sound:
  assumes "parse_grounding_results E payload memories = Inr rs"
  shows "results_for memories rs \<and> distinct (map am_id memories)"
proof -
  obtain raw by_id where p: "first_duplicate [] (map am_id memories) = None"
    "parse_results E (map am_id memories) [] raw = Inr by_id"
    "find (\<lambda>i. map_of by_id i = None) (map am_id memories) = None"
    "rs = map (\<lambda>m. the (map_of by_id (am_id m))) memories"
    using assms by (auto simp: parse_grounding_results_def split: option.splits sum.splits)
  have S: "\<forall>i r. map_of by_id i = Some r \<longrightarrow> gr_memory_id r = i \<and> gr_status r \<in> set STATUSES"
    by (rule parse_results_sound [OF p(2)]) simp
  have "map_of by_id (am_id m) \<noteq> None" if "m \<in> set memories" for m
    using p(3) that by (auto simp: find_None_iff)
  then have "gr_memory_id (the (map_of by_id (am_id m))) = am_id m
      \<and> gr_status (the (map_of by_id (am_id m))) \<in> set STATUSES" if "m \<in> set memories" for m
    using S that by fastforce
  then show ?thesis using p(1) by (auto simp: results_for_def p(4) first_duplicate_None)
qed

lemma collect_Inr: "collect f xs = Inr ys \<Longrightarrow> list_all2 (\<lambda>x y. f x = Inr y) xs ys"
  by (induction xs arbitrary: ys) (auto split: sum.splits)

locale verification_contract =
  fixes verify_window :: "ExtractionWindow \<Rightarrow> AtomicMemory list \<Rightarrow> messages_by_id \<Rightarrow> 's \<Rightarrow> 's \<times> GroundingBatch presult"
  assumes complete: "verify_window w memories lookup s = (s', Inr b) \<Longrightarrow> results_for memories (gb_results b)"
begin

text \<open>A client that looks a memory up in the results always finds a status.\<close>

lemma no_omission:
  assumes "verify_window w memories lookup s = (s', Inr b)" "m \<in> set memories"
  obtains r where "r \<in> set (gb_results b)" "gr_memory_id r = am_id m" "gr_status r \<in> set STATUSES"
proof -
  have R: "results_for memories (gb_results b)" using complete [OF assms(1)] .
  then have "am_id m \<in> set (map gr_memory_id (gb_results b))" using assms(2) by (auto simp: results_for_def)
  then obtain r where "r \<in> set (gb_results b)" "gr_memory_id r = am_id m" by auto
  with R that show thesis by (auto simp: results_for_def)
qed

end

lemma static_result_accepts:
  "static_result E responses m = Inr r \<Longrightarrow> gr_memory_id r = am_id m \<and> gr_status r \<in> set STATUSES"
  by (auto simp: static_result_def validate_status_def split: option.splits sum.splits if_splits prod.splits)

lemma static_verify_complete:
  assumes "static_verify E responses w memories lookup s = (s', Inr b)"
  shows "results_for memories (gb_results b)"
proof -
  have c: "collect (static_result E responses) memories = Inr (gb_results b)"
    using assms by (auto simp: static_verify_def split: sum.splits)
  then have "list_all2 (\<lambda>m r. gr_memory_id r = am_id m \<and> gr_status r \<in> set STATUSES) memories (gb_results b)"
    by (rule list_all2_mono [OF collect_Inr]) (rule static_result_accepts)
  then show ?thesis unfolding results_for_def by (induction rule: list_all2_induct) auto
qed

lemma llm_verify_complete:
  assumes "llm_verify E http ls w memories lookup cs = (cs', Inr b)"
  shows "results_for memories (gb_results b)"
proof (cases "memories = []")
  case True
  then show ?thesis using assms by (auto simp: llm_verify_def results_for_def)
next
  case False
  then obtain k res cs1 cs2 res' where
    "repair_loop E http ls grounding_output_spec (read_results E memories) k res cs1
       = (cs2, Inr (res', Inr (gb_results b)))"
    using assms by (auto simp: llm_verify_def split: sum.splits prod.splits)
  then have "read_results E memories (cr_content res') = Inr (gb_results b)" by (rule repair_loop_read)
  then show ?thesis
    using parse_grounding_results_sound by (auto simp: read_results_def split: sum.splits)
qed

interpretation static_ver: verification_contract "static_verify E responses"
  by unfold_locales (rule static_verify_complete)

interpretation llm_ver: verification_contract "llm_verify E http ls"
  by unfold_locales (rule llm_verify_complete)

end
