(* ===== verification/PipeWriter.thy ===== *)
theory PipeWriter
  imports PipeGrounding
begin

text \<open>
  The last stage (\<open>writer.rs\<close>): the accepted memories get an observation for every message they quote,
  memories with the same scope and content are merged, and the result is written as a prepared
  document.
\<close>

section \<open>Observations\<close>

definition observation_with_evidence :: "AtomicMemory \<Rightarrow> EvidenceRef list \<Rightarrow> jmap" where
  "observation_with_evidence m evs = obj_of
     [(lit ''source_episode_id'', JString (am_source_episode_id m)),
      (lit ''source_window_id'', JString (am_source_window_id m)),
      (lit ''observed_at'', JString (am_observed_at m)),
      (lit ''evidence_refs'', JArray (map evidence_value evs))]"

definition observation :: "AtomicMemory \<Rightarrow> jmap" where
  "observation m = observation_with_evidence m (am_evidence m)"

text \<open>Evidence by message, in the order the messages first occur.\<close>

fun group_add :: "EvidenceRef \<Rightarrow> (str \<times> EvidenceRef list) list \<Rightarrow> (str \<times> EvidenceRef list) list" where
  "group_add ev [] = [(ev_message_id ev, [ev])]"
| "group_add ev ((i, evs) # gs) =
     (if i = ev_message_id ev then (i, evs @ [ev]) # gs else (i, evs) # group_add ev gs)"

definition evidence_groups :: "EvidenceRef list \<Rightarrow> (str \<times> EvidenceRef list) list" where
  "evidence_groups evs = fold group_add evs []"

definition nonempty :: "str \<Rightarrow> str option" where
  "nonempty s = (if s = [] then None else Some s)"

definition source_speaker :: "AtomicMemory \<Rightarrow> NormalizedMessage option \<Rightarrow> str option" where
  "source_speaker m msg = or_else
     (Option.bind msg (\<lambda>x. nonempty (trim (nm_speaker x))))
     (Option.bind (Option.bind (map_of (am_subject m) (lit ''source_speaker'')) as_str)
        (\<lambda>s. nonempty (trim s)))"

definition insert_opt :: "string \<Rightarrow> json option \<Rightarrow> jmap \<Rightarrow> jmap" where
  "insert_opt k v ob = (case v of None \<Rightarrow> ob | Some x \<Rightarrow> obj_insert (lit k) x ob)"

definition source_observation :: "AtomicMemory \<Rightarrow> NormalizedMessage \<Rightarrow> EvidenceRef list \<Rightarrow> jmap" where
  "source_observation m msg evs =
     insert_opt ''turn_index'' (map_option jint (nm_turn_index msg))
       (insert_opt ''session_id'' (map_option JString (nonempty (nm_session_id msg)))
         (insert_opt ''speaker'' (map_option JString (source_speaker m (Some msg)))
           (insert_opt ''observed_at'' (map_option JString (nonempty (nm_timestamp msg)))
             (observation_with_evidence m evs))))"

text \<open>Append what has a key not seen yet.\<close>

fun extend_unique :: "('a \<Rightarrow> 'k) \<Rightarrow> 'a list \<Rightarrow> 'a list \<Rightarrow> 'a list" where
  "extend_unique key target [] = target"
| "extend_unique key target (x # xs) =
     extend_unique key (if key x \<in> key ` set target then target else target @ [x]) xs"

definition evidence_key :: "EvidenceRef \<Rightarrow> str \<times> nat \<times> nat \<times> str" where
  "evidence_key ev = (ev_message_id ev, ev_start ev, ev_end ev, ev_role ev)"

definition observation_key :: "penv \<Rightarrow> jmap \<Rightarrow> str" where
  "observation_key E ob = canonical_json E (JObject ob)"

definition source_observations :: "AtomicMemory \<Rightarrow> messages_by_id \<Rightarrow> jmap list" where
  "source_observations m lookup =
     (let found = List.map_filter (\<lambda>(i, evs). map_option (\<lambda>msg. source_observation m msg evs) (lookup i))
            (evidence_groups (am_evidence m))
      in if found = [] then [insert_opt ''speaker'' (map_option JString (source_speaker m None)) (observation m)]
         else found)"

definition attach_source_observations :: "penv \<Rightarrow> AtomicMemory list \<Rightarrow> messages_by_id \<Rightarrow> AtomicMemory list" where
  "attach_source_observations E ms lookup = map (\<lambda>m. m\<lparr>am_observation_refs :=
     extend_unique (observation_key E) (am_observation_refs m) (source_observations m lookup)\<rparr>) ms"


section \<open>Which observation is the latest\<close>

datatype ordering = Less | Equal | Greater

definition str_cmp :: "str \<Rightarrow> str \<Rightarrow> ordering" where
  "str_cmp a b = (if a = b then Equal else if str_less a b then Less else Greater)"

definition compare_observed_at :: "penv \<Rightarrow> str \<Rightarrow> str \<Rightarrow> ordering" where
  "compare_observed_at E a b = (case (parse_time E a, parse_time E b) of
     (Some s, Some t) \<Rightarrow> if s < t then Less else if s > t then Greater else str_cmp a b
   | (Some _, None) \<Rightarrow> Greater
   | (None, Some _) \<Rightarrow> Less
   | (None, None) \<Rightarrow> str_cmp a b)"

definition observation_text :: "jmap \<Rightarrow> string \<Rightarrow> str" where
  "observation_text ob k = str_or_empty ob k"

definition observation_time :: "jmap \<Rightarrow> str" where
  "observation_time ob = str_or_empty ob ''observed_at''"

text \<open>\<open>max_by\<close> keeps the last of several greatest elements.\<close>

fun max_by :: "('a \<Rightarrow> 'a \<Rightarrow> ordering) \<Rightarrow> 'a \<Rightarrow> 'a list \<Rightarrow> 'a" where
  "max_by cmp x [] = x"
| "max_by cmp x (y # ys) = max_by cmp (if cmp x y = Greater then x else y) ys"

definition latest_observation :: "penv \<Rightarrow> jmap list \<Rightarrow> jmap option" where
  "latest_observation E obs = (case obs of [] \<Rightarrow> None
     | ob # rest \<Rightarrow> Some (max_by (\<lambda>a b. compare_observed_at E (observation_time a) (observation_time b)) ob rest))"


section \<open>Merging\<close>

definition content_key :: "penv \<Rightarrow> AtomicMemory \<Rightarrow> str" where
  "content_key E m = canonical_json E (jobject
     [(lit ''scope_id'', JString (am_scope_id m)), (lit ''content'', canonical_content m)])"

definition merge_memory :: "penv \<Rightarrow> AtomicMemory \<Rightarrow> AtomicMemory \<Rightarrow> AtomicMemory" where
  "merge_memory E m v =
     v\<lparr>am_evidence := extend_unique evidence_key (am_evidence v) (am_evidence m),
       am_observation_refs := extend_unique (observation_key E) (am_observation_refs v)
         (if am_observation_refs m = [] then [observation m] else am_observation_refs m)\<rparr>"

text \<open>The output vector with the key of each entry, in place of the index map.\<close>

fun merge_into :: "penv \<Rightarrow> AtomicMemory \<Rightarrow> (str \<times> AtomicMemory) list \<Rightarrow> (str \<times> AtomicMemory) list" where
  "merge_into E m [] =
     [(content_key E m, merge_memory E m (m\<lparr>am_evidence := [], am_observation_refs := []\<rparr>))]"
| "merge_into E m ((k, v) # out) =
     (if k = content_key E m then (k, merge_memory E m v) # out else (k, v) # merge_into E m out)"

definition finish_memory :: "penv \<Rightarrow> AtomicMemory \<Rightarrow> AtomicMemory" where
  "finish_memory E m =
     (let m' = m\<lparr>am_id := lit ''mem-'' @ stable_hash E [JString (am_scope_id m), canonical_content m]\<rparr>
      in (case latest_observation E (am_observation_refs m) of
            None \<Rightarrow> m'
          | Some ob \<Rightarrow> m'\<lparr>am_observed_at := observation_time ob,
              am_source_episode_id := observation_text ob ''source_episode_id'',
              am_source_window_id := observation_text ob ''source_window_id''\<rparr>))"

definition aggregate_exact_memories :: "penv \<Rightarrow> AtomicMemory list \<Rightarrow> AtomicMemory list" where
  "aggregate_exact_memories E ms = map (finish_memory E \<circ> snd) (fold (merge_into E) ms [])"


section \<open>The prepared document\<close>

definition copy_field :: "jmap \<Rightarrow> string \<Rightarrow> jmap \<Rightarrow> jmap" where
  "copy_field ob k md = insert_opt k (map_of ob (lit k)) md"

definition memory_metadata :: "penv \<Rightarrow> AtomicMemory \<Rightarrow> jmap" where
  "memory_metadata E m =
     (let base = obj_of
            [(lit ''schema_version'', JString (lit ''atomic_memory_v1'')),
             (lit ''memory_kind'', JString (lit ''extracted_memory'')),
             (lit ''memory_type'', JString (am_memory_type m)),
             (lit ''scope_id'', JString (am_scope_id m)),
             (lit ''subject'', JObject (am_subject m)),
             (lit ''predicate'', JString (am_predicate m)),
             (lit ''object'', jopt (am_object m)),
             (lit ''modality'', JString (am_modality m)),
             (lit ''event_time'', jopt (map_option JObject (am_event_time m))),
             (lit ''attributes'', JObject (am_attributes m)),
             (lit ''observed_at'', JString (am_observed_at m)),
             (lit ''source_episode_id'', JString (am_source_episode_id m)),
             (lit ''source_window_id'', JString (am_source_window_id m)),
             (lit ''evidence_refs'', JArray (map evidence_value (am_evidence m))),
             (lit ''observation_refs'', JArray (map JObject (am_observation_refs m)))];
          base = insert_opt ''model_confidence'' (am_model_confidence m) base;
          base = (case latest_observation E (am_observation_refs m) of
             None \<Rightarrow> base
           | Some ob \<Rightarrow> copy_field ob ''turn_index'' (copy_field ob ''session_id'' (copy_field ob ''speaker'' base)))
      in (case parse_time E (am_observed_at m) of
            None \<Rightarrow> base
          | Some ns \<Rightarrow> if ns div 1000000 \<ge> 0
              then obj_insert (lit ''observed_at_ms'') (jnat (nat (ns div 1000000))) base else base))"

definition memory_record :: "penv \<Rightarrow> AtomicMemory \<Rightarrow> json" where
  "memory_record E m = jobject [(lit ''id'', JString (am_id m)), (lit ''text'', JString (am_text m)),
     (lit ''metadata'', JObject (memory_metadata E m))]"

definition get_or :: "json \<Rightarrow> string \<Rightarrow> json \<Rightarrow> json" where
  "get_or v k d = (case json_get v (lit k) of Some x \<Rightarrow> x | None \<Rightarrow> d)"

definition make_prepared_output :: "penv \<Rightarrow> json \<Rightarrow> AtomicMemory list \<Rightarrow> json \<Rightarrow> json presult" where
  "make_prepared_output E source memories run_metadata =
     (if \<not> prepared_schema source
      then Inl (InvalidInput (lit ''source prepared input must use benchmark-prepared-v1''))
      else Inr (jobject
        [(lit ''schema_version'', JString (lit ''benchmark-prepared-v1'')),
         (lit ''dataset'', get_or source ''dataset'' (JObject [])),
         (lit ''memory_pipeline'', run_metadata),
         (lit ''memories'', JArray (map (memory_record E) memories)),
         (lit ''queries'', get_or source ''queries'' (JArray []))]))"


section \<open>Unique extension\<close>

lemma extend_unique_keys:
  "key ` set (extend_unique key t xs) = key ` set t \<union> key ` set xs"
  by (induction key t xs rule: extend_unique.induct) auto

lemma extend_unique_set: "set t \<subseteq> set (extend_unique key t xs) \<and> set (extend_unique key t xs) \<subseteq> set t \<union> set xs"
  by (induction key t xs rule: extend_unique.induct) auto

lemma extend_unique_distinct:
  "distinct (map key t) \<Longrightarrow> distinct (map key (extend_unique key t xs))"
  by (induction key t xs rule: extend_unique.induct) auto


section \<open>The order of observations\<close>

lemma str_less_irrefl [simp]: "\<not> str_less a a"
  by (induction a) auto

lemma str_less_trans: "str_less a b \<Longrightarrow> str_less b c \<Longrightarrow> str_less a c"
proof (induction a b arbitrary: c rule: str_less.induct)
  case (3 x s y t)
  then show ?case by (cases c) auto
next
  case (2 y t)
  then show ?case by (cases c) auto
qed simp

lemma str_less_total: "a \<noteq> b \<Longrightarrow> str_less a b \<or> str_less b a"
proof (induction a b rule: str_less.induct)
  case (1 s)
  then show ?case by (cases s) auto
qed auto

lemma str_less_asym: "str_less a b \<Longrightarrow> \<not> str_less b a"
  using str_less_trans str_less_irrefl by blast

text \<open>\<open>a\<close> is not later than \<open>b\<close>.\<close>

definition not_later :: "penv \<Rightarrow> str \<Rightarrow> str \<Rightarrow> bool" where
  "not_later E a b \<longleftrightarrow> compare_observed_at E a b \<noteq> Greater"

lemma not_later_total: "not_later E a b \<or> not_later E b a"
  by (auto simp: not_later_def compare_observed_at_def str_cmp_def dest: str_less_asym str_less_total
      split: option.splits)

lemma not_later_trans:
  assumes "not_later E a b" "not_later E b c"
  shows "not_later E a c"
proof -
  have s: "str_cmp a b \<noteq> Greater \<Longrightarrow> str_cmp b c \<noteq> Greater \<Longrightarrow> str_cmp a c \<noteq> Greater"
    by (auto simp: str_cmp_def split: if_splits dest: str_less_trans)
  show ?thesis
    using assms s unfolding not_later_def compare_observed_at_def
    by (cases "parse_time E a"; cases "parse_time E b"; cases "parse_time E c")
       (auto split: if_splits)
qed

lemma max_by_greatest:
  assumes total: "\<And>x y. cmp x y \<noteq> Greater \<or> cmp y x \<noteq> Greater"
    and trans: "\<And>x y z. cmp x y \<noteq> Greater \<Longrightarrow> cmp y z \<noteq> Greater \<Longrightarrow> cmp x z \<noteq> Greater"
  shows "max_by cmp x ys \<in> set (x # ys) \<and> (\<forall>y \<in> set (x # ys). cmp y (max_by cmp x ys) \<noteq> Greater)"
proof (induction ys arbitrary: x)
  case Nil
  then show ?case using total [of x x] by simp
next
  case (Cons y ys)
  let ?z = "if cmp x y = Greater then x else y"
  have IH: "max_by cmp ?z ys \<in> set (?z # ys)" "\<forall>w \<in> set (?z # ys). cmp w (max_by cmp ?z ys) \<noteq> Greater"
    using Cons.IH [of ?z] by blast+
  have "cmp x ?z \<noteq> Greater" "cmp y ?z \<noteq> Greater" using total [of x y] total [of x x] total [of y y] by auto
  then have "cmp x (max_by cmp ?z ys) \<noteq> Greater" "cmp y (max_by cmp ?z ys) \<noteq> Greater"
    using IH(2) trans by (meson list.set_intros(1))+
  then show ?case using IH by auto
qed

lemma latest_observation_greatest:
  assumes "latest_observation E obs = Some ob"
  shows "ob \<in> set obs \<and> (\<forall>o' \<in> set obs. not_later E (observation_time o') (observation_time ob))"
proof -
  obtain o1 rest where o1: "obs = o1 # rest"
      "ob = max_by (\<lambda>a b. compare_observed_at E (observation_time a) (observation_time b)) o1 rest"
    using assms by (auto simp: latest_observation_def split: list.splits)
  show ?thesis unfolding o1 not_later_def
    by (rule max_by_greatest [of "\<lambda>a b. compare_observed_at E (observation_time a) (observation_time b)"])
       (use not_later_total not_later_trans in \<open>unfold not_later_def, blast+\<close>)
qed

end
