(* ===== verification/PipeWriterProps.thy ===== *)
theory PipeWriterProps
  imports PipeWriter
begin

text \<open>
  The merge of accepted memories: one memory for each content, with all the evidence of the memories
  that state it.
\<close>

section \<open>The merge\<close>

lemma content_key_simps [simp]:
  "content_key E (merge_memory E' m v) = content_key E v"
  "content_key E (finish_memory E' m) = content_key E m"
  "content_key E (m\<lparr>am_evidence := evs, am_observation_refs := obs\<rparr>) = content_key E m"
  by (simp_all add: content_key_def merge_memory_def canonical_content_def finish_memory_def Let_def
      split: option.split)

lemma merge_into_keys:
  "map fst (merge_into E m out)
     = (if content_key E m \<in> fst ` set out then map fst out else map fst out @ [content_key E m])"
  by (induction E m out rule: merge_into.induct) auto

lemma map_of_merge_into:
  "map_of (merge_into E m out) k =
     (if k = content_key E m
      then Some (merge_memory E m (case map_of out k of Some v \<Rightarrow> v
                | None \<Rightarrow> m\<lparr>am_evidence := [], am_observation_refs := []\<rparr>))
      else map_of out k)"
  by (induction E m out rule: merge_into.induct) auto

lemma unique_from_snoc:
  "unique_from seen (xs @ [x]) = unique_from seen xs @ (if x \<in> seen \<or> x \<in> set xs then [] else [x])"
  by (induction seen xs rule: unique_from.induct) auto

text \<open>The observations a memory brings into a merge.\<close>

definition observations_of :: "AtomicMemory \<Rightarrow> jmap list" where
  "observations_of m = (if am_observation_refs m = [] then [observation m] else am_observation_refs m)"

text \<open>What an entry of the output has collected from the memories before it.\<close>

definition entry_ok :: "penv \<Rightarrow> AtomicMemory list \<Rightarrow> str \<Rightarrow> AtomicMemory \<Rightarrow> bool" where
  "entry_ok E ms k v \<longleftrightarrow> content_key E v = k
     \<and> distinct (map evidence_key (am_evidence v))
     \<and> evidence_key ` set (am_evidence v)
         = evidence_key ` (\<Union>m \<in> {m \<in> set ms. content_key E m = k}. set (am_evidence m))
     \<and> set (am_evidence v) \<subseteq> (\<Union>m \<in> {m \<in> set ms. content_key E m = k}. set (am_evidence m))
     \<and> distinct (map (observation_key E) (am_observation_refs v))
     \<and> observation_key E ` set (am_observation_refs v)
         = observation_key E ` (\<Union>m \<in> {m \<in> set ms. content_key E m = k}. set (observations_of m))
     \<and> set (am_observation_refs v) \<subseteq> (\<Union>m \<in> {m \<in> set ms. content_key E m = k}. set (observations_of m))"

lemma entry_ok_merge:
  assumes "entry_ok E ms (content_key E m) v"
  shows "entry_ok E (ms @ [m]) (content_key E m) (merge_memory E m v)"
proof -
  have "am_evidence (merge_memory E m v) = extend_unique evidence_key (am_evidence v) (am_evidence m)"
    by (simp add: merge_memory_def)
  moreover have "am_observation_refs (merge_memory E m v)
      = extend_unique (observation_key E) (am_observation_refs v) (observations_of m)"
    by (simp add: merge_memory_def observations_of_def)
  moreover have "{x \<in> set (ms @ [m]). content_key E x = content_key E m}
      = insert m {x \<in> set ms. content_key E x = content_key E m}" by auto
  ultimately show ?thesis
    using assms extend_unique_set [of "am_evidence v" evidence_key "am_evidence m"]
      extend_unique_set [of "am_observation_refs v" "observation_key E" "observations_of m"]
    unfolding entry_ok_def
    by (simp add: extend_unique_keys extend_unique_distinct image_Un Un_commute) blast
qed

lemma entry_ok_other:
  "entry_ok E ms k v \<Longrightarrow> content_key E m \<noteq> k \<Longrightarrow> entry_ok E (ms @ [m]) k v"
proof -
  assume a: "entry_ok E ms k v" "content_key E m \<noteq> k"
  then have "{x \<in> set (ms @ [m]). content_key E x = k} = {x \<in> set ms. content_key E x = k}" by auto
  with a show ?thesis unfolding entry_ok_def by simp
qed

lemma entry_ok_new:
  assumes "content_key E m \<notin> content_key E ` set ms"
  shows "entry_ok E (ms @ [m]) (content_key E m)
     (merge_memory E m (m\<lparr>am_evidence := [], am_observation_refs := []\<rparr>))"
proof (rule entry_ok_merge)
  show "entry_ok E ms (content_key E m) (m\<lparr>am_evidence := [], am_observation_refs := []\<rparr>)"
  proof -
    have e: "{x \<in> set ms. content_key E x = content_key E m} = {}"
      using assms by (metis (mono_tags, lifting) Collect_empty_eq imageI)
    show ?thesis unfolding entry_ok_def content_key_simps e by simp
  qed
qed

lemma fold_merge_into:
  "map fst (fold (merge_into E) ms []) = unique_from {} (map (content_key E) ms)
   \<and> (\<forall>k v. map_of (fold (merge_into E) ms []) k = Some v \<longrightarrow> entry_ok E ms k v)"
proof (induction ms rule: rev_induct)
  case (snoc m ms)
  let ?out = "fold (merge_into E) ms []"
  have keys: "fst ` set ?out = content_key E ` set ms"
    using snoc by (metis image_set set_unique_from Diff_empty)
  have "map fst (fold (merge_into E) (ms @ [m]) []) = unique_from {} (map (content_key E) (ms @ [m]))"
    using snoc keys by (auto simp: merge_into_keys unique_from_snoc)
  moreover have "entry_ok E (ms @ [m]) k v"
    if kv: "map_of (fold (merge_into E) (ms @ [m]) []) k = Some v" for k v
  proof (cases "k = content_key E m")
    case True
    show ?thesis
    proof (cases "map_of ?out k")
      case None
      then have "content_key E m \<notin> content_key E ` set ms"
        using True keys by (metis map_of_eq_None_iff)
      from entry_ok_new [OF this] show ?thesis using kv True None by (simp add: map_of_merge_into)
    next
      case (Some w)
      then have "entry_ok E ms k w" using snoc by blast
      then show ?thesis using kv True Some by (auto simp: map_of_merge_into intro: entry_ok_merge)
    qed
  next
    case False
    then have "map_of ?out k = Some v" using kv by (simp add: map_of_merge_into)
    then have "entry_ok E ms k v" using snoc by blast
    then show ?thesis using False by (metis entry_ok_other)
  qed
  ultimately show ?case by blast
qed simp

lemma finish_memory_simps [simp]:
  "am_evidence (finish_memory E m) = am_evidence m"
  "am_scope_id (finish_memory E m) = am_scope_id m"
  "am_observation_refs (finish_memory E m) = am_observation_refs m"
  "canonical_content (finish_memory E m) = canonical_content m"
  "am_id (finish_memory E m) = lit ''mem-'' @ stable_hash E [JString (am_scope_id m), canonical_content m]"
  by (simp_all add: finish_memory_def canonical_content_def Let_def split: option.split)

lemma entry_ok_finish [simp]: "entry_ok E ms k (finish_memory E v) = entry_ok E ms k v"
  by (simp add: entry_ok_def)

lemma aggregate_result:
  "map (content_key E) (aggregate_exact_memories E ms) = unique_from {} (map (content_key E) ms)
   \<and> list_all (\<lambda>v. entry_ok E ms (content_key E v) v) (aggregate_exact_memories E ms)"
proof -
  let ?out = "fold (merge_into E) ms []"
  note F = fold_merge_into [of E ms]
  have d: "distinct (map fst ?out)" using F by simp
  have ok: "entry_ok E ms k v" if "(k, v) \<in> set ?out" for k v
    using F d that by (metis map_of_is_SomeI)
  then have ck: "content_key E v = k" if "(k, v) \<in> set ?out" for k v using that by (simp add: entry_ok_def)
  then have "map (content_key E) (aggregate_exact_memories E ms) = map fst ?out"
    by (auto simp: aggregate_exact_memories_def)
  moreover have "list_all (\<lambda>v. entry_ok E ms (content_key E v) v) (aggregate_exact_memories E ms)"
    using ok ck by (fastforce simp: aggregate_exact_memories_def list_all_iff)
  ultimately show ?thesis using F by simp
qed

text \<open>A merged memory has the scope of the first of its copies.\<close>

lemma merge_scope:
  "map_of (fold (merge_into E) ms []) k = Some v
   \<Longrightarrow> \<exists>x \<in> set ms. content_key E x = k \<and> am_scope_id x = am_scope_id v"
proof (induction ms arbitrary: v rule: rev_induct)
  case (snoc m ms)
  show ?case
  proof (cases "k = content_key E m \<and> map_of (fold (merge_into E) ms []) k = None")
    case True
    then show ?thesis using snoc.prems by (auto simp: map_of_merge_into merge_memory_def)
  next
    case False
    then obtain w where w: "map_of (fold (merge_into E) ms []) k = Some w" "am_scope_id w = am_scope_id v"
      using snoc.prems by (auto simp: map_of_merge_into merge_memory_def split: if_splits option.splits)
    then show ?thesis using snoc.IH [OF w(1)] by auto
  qed
qed simp

lemma aggregate_scope:
  assumes "v \<in> set (aggregate_exact_memories E ms)"
  shows "\<exists>x \<in> set ms. content_key E x = content_key E v \<and> am_scope_id x = am_scope_id v"
proof -
  let ?out = "fold (merge_into E) ms []"
  obtain k m where m: "(k, m) \<in> set ?out" "v = finish_memory E m"
    using assms by (auto simp: aggregate_exact_memories_def)
  note F = fold_merge_into [of E ms]
  have "map_of ?out k = Some m" using F m(1) by simp
  moreover from this F have "entry_ok E ms k m" by blast
  ultimately show ?thesis using merge_scope [of E ms k m] m(2) by (simp add: entry_ok_def)
qed

text \<open>The observation a merged memory reports as its time, episode and window is the latest one.\<close>

lemma finished_is_latest:
  assumes "latest_observation E (am_observation_refs m) = Some ob"
  shows "am_observed_at (finish_memory E m) = observation_time ob
     \<and> (\<forall>o' \<in> set (am_observation_refs m). not_later E (observation_time o') (am_observed_at (finish_memory E m)))"
  using latest_observation_greatest [OF assms] assms by (simp add: finish_memory_def Let_def)

lemma aggregate_latest:
  assumes "v \<in> set (aggregate_exact_memories E ms)"
  shows "\<exists>ob \<in> set (am_observation_refs v). am_observed_at v = observation_time ob
     \<and> (\<forall>o' \<in> set (am_observation_refs v). not_later E (observation_time o') (am_observed_at v))"
proof -
  obtain m where m: "v = finish_memory E m" using assms by (auto simp: aggregate_exact_memories_def)
  have ok: "entry_ok E ms (content_key E v) v" using aggregate_result [of E ms] assms by (simp add: list_all_iff)
  have "content_key E v \<in> set (map (content_key E) (aggregate_exact_memories E ms))" using assms by simp
  then have "content_key E v \<in> content_key E ` set ms" using aggregate_result [of E ms] by simp
  then obtain x where "x \<in> set ms" "content_key E x = content_key E v" by auto
  moreover have "observations_of x \<noteq> []" by (simp add: observations_of_def)
  ultimately have "(\<Union>m \<in> {m \<in> set ms. content_key E m = content_key E v}. set (observations_of m)) \<noteq> {}" by auto
  then have "am_observation_refs v \<noteq> []" using ok unfolding entry_ok_def by auto
  then obtain ob where ob: "latest_observation E (am_observation_refs m) = Some ob"
    unfolding m by (cases "am_observation_refs m") (simp_all add: latest_observation_def)
  from finished_is_latest [OF ob] latest_observation_greatest [OF ob] show ?thesis unfolding m by auto
qed

text \<open>C20: The output states every content once: the merged memories are, in first-seen order, one for
  each scope and canonical content among the supported ones. Each carries the evidence and the observations of
  all the memories with its content, every stretch of a message and every observation once, and
  nothing else, and its observation time is that of one of its observations than which none is later.\<close>

theorem aggregate_merges_exactly:
  "map (content_key E) (aggregate_exact_memories E ms) = unique_from {} (map (content_key E) ms)
   \<and> list_all (\<lambda>v. let copies = {m \<in> set ms. content_key E m = content_key E v}
        in distinct (map evidence_key (am_evidence v))
         \<and> evidence_key ` set (am_evidence v) = evidence_key ` (\<Union>m \<in> copies. set (am_evidence m))
         \<and> set (am_evidence v) \<subseteq> (\<Union>m \<in> copies. set (am_evidence m))
         \<and> distinct (map (observation_key E) (am_observation_refs v))
         \<and> observation_key E ` set (am_observation_refs v)
             = observation_key E ` (\<Union>m \<in> copies. set (observations_of m))
         \<and> set (am_observation_refs v) \<subseteq> (\<Union>m \<in> copies. set (observations_of m))
         \<and> (\<exists>ob \<in> set (am_observation_refs v). am_observed_at v = observation_time ob
              \<and> list_all (\<lambda>o'. not_later E (observation_time o') (am_observed_at v)) (am_observation_refs v)))
      (aggregate_exact_memories E ms)"
proof (rule conjI)
  show "map (content_key E) (aggregate_exact_memories E ms) = unique_from {} (map (content_key E) ms)"
    using aggregate_result [of E ms] by simp
next
  have "entry_ok E ms (content_key E v) v" if "v \<in> set (aggregate_exact_memories E ms)" for v
    using aggregate_result [of E ms] that by (simp add: list_all_iff)
  note entry = this [unfolded entry_ok_def] and latest = aggregate_latest [of _ E ms]
  show "list_all (\<lambda>v. let copies = {m \<in> set ms. content_key E m = content_key E v}
        in distinct (map evidence_key (am_evidence v))
         \<and> evidence_key ` set (am_evidence v) = evidence_key ` (\<Union>m \<in> copies. set (am_evidence m))
         \<and> set (am_evidence v) \<subseteq> (\<Union>m \<in> copies. set (am_evidence m))
         \<and> distinct (map (observation_key E) (am_observation_refs v))
         \<and> observation_key E ` set (am_observation_refs v)
             = observation_key E ` (\<Union>m \<in> copies. set (observations_of m))
         \<and> set (am_observation_refs v) \<subseteq> (\<Union>m \<in> copies. set (observations_of m))
         \<and> (\<exists>ob \<in> set (am_observation_refs v). am_observed_at v = observation_time ob
              \<and> list_all (\<lambda>o'. not_later E (observation_time o') (am_observed_at v)) (am_observation_refs v)))
      (aggregate_exact_memories E ms)"
    unfolding list_all_iff Let_def
    by (intro ballI conjI; (rule latest, assumption | drule entry, elim conjE, assumption))
qed

end
