(* ===== verification/PipeCache.thy ===== *)
theory PipeCache
  imports PipeGrounding
begin

text \<open>
  The files of the pipeline: the atomic write (\<open>atomic_file.rs\<close>) as the sequence of file-system steps it
  makes, any of which may fail, and the JSON cache on top of it (\<open>cache.rs\<close>). The file system is a map
  from paths, a directory and a name, to contents.
\<close>

section \<open>The atomic write\<close>

type_synonym fpath = "str \<times> str"
type_synonym files = "fpath \<rightharpoonup> str"

datatype fs_step =
    MakeDirs str
  | CreateNew fpath
  | WriteAll fpath str
  | SyncAll fpath
  | Rename fpath fpath
  | Remove fpath
  | ReadAll fpath

text \<open>Which steps fail, with the error's text, and how much of a failing write reaches the file.\<close>

record io_env =
  io_error :: "fs_step \<Rightarrow> str option"
  io_written :: "fs_step \<Rightarrow> nat"
  io_pid :: nat

fun apply_step :: "fs_step \<Rightarrow> files \<Rightarrow> files" where
  "apply_step (MakeDirs d) fs = fs"
| "apply_step (CreateNew p) fs = fs(p \<mapsto> [])"
| "apply_step (WriteAll p content) fs = fs(p \<mapsto> content)"
| "apply_step (SyncAll p) fs = fs"
| "apply_step (Rename p q) fs = (fs(q := fs p))(p := (if p = q then fs p else None))"
| "apply_step (Remove p) fs = fs(p := None)"
| "apply_step (ReadAll p) fs = fs"

fun failed_step :: "io_env \<Rightarrow> fs_step \<Rightarrow> files \<Rightarrow> files" where
  "failed_step io (WriteAll p content) fs = fs(p \<mapsto> take (io_written io (WriteAll p content)) content)"
| "failed_step io _ fs = fs"

text \<open>\<open>create_new\<close> also fails on a file that exists.\<close>

definition step_error :: "io_env \<Rightarrow> fs_step \<Rightarrow> files \<Rightarrow> str option" where
  "step_error io st fs = (case st of
     CreateNew p \<Rightarrow> (case io_error io st of Some e \<Rightarrow> Some e
        | None \<Rightarrow> if fs p \<noteq> None then Some (lit ''File exists (os error 17)'') else None)
   | _ \<Rightarrow> io_error io st)"

text \<open>The steps up to the first failure: the file systems passed through, the last one, the error.\<close>

fun run_steps :: "io_env \<Rightarrow> fs_step list \<Rightarrow> files \<Rightarrow> files list \<times> files \<times> str option" where
  "run_steps io [] fs = ([fs], fs, None)"
| "run_steps io (st # sts) fs = (case step_error io st fs of
     Some e \<Rightarrow> (let fs' = failed_step io st fs in ([fs, fs'], fs', Some e))
   | None \<Rightarrow> (let (seen, fs', e) = run_steps io sts (apply_step st fs) in (fs # seen, fs', e)))"

definition temporary_path :: "io_env \<Rightarrow> nat \<Rightarrow> fpath \<Rightarrow> fpath" where
  "temporary_path io next_id p = (let (d, name) = p in
     (d, lit ''.'' @ (if name = [] then lit ''artifact'' else name) @ lit ''.'' @ dec_str (io_pid io)
         @ lit ''.'' @ dec_str next_id @ lit ''.tmp''))"

definition write_steps :: "fpath \<Rightarrow> fpath \<Rightarrow> str \<Rightarrow> fs_step list" where
  "write_steps tmp p content = [CreateNew tmp, WriteAll tmp content, SyncAll tmp, Rename tmp p]"

text \<open>The state carries the counter of temporary names. The list is what a crash, or another reader,
  could find.\<close>

definition atomic_write ::
    "io_env \<Rightarrow> fpath \<Rightarrow> str \<Rightarrow> files \<times> nat \<Rightarrow> files list \<times> (files \<times> nat) \<times> unit presult" where
  "atomic_write io p content s = (let (fs, next_id) = s in
     (case io_error io (MakeDirs (fst p)) of
        Some e \<Rightarrow> ([fs], s, Inl (Io e))
      | None \<Rightarrow>
         (let tmp = temporary_path io next_id p;
              (seen, fs', e) = run_steps io (write_steps tmp p content) fs
          in (case e of
                None \<Rightarrow> (seen, (fs', next_id + 1), Inr ())
              | Some e \<Rightarrow>
                  (let fs2 = (if io_error io (Remove tmp) = None then fs'(tmp := None) else fs')
                   in (seen @ [fs2], (fs2, next_id + 1), Inl (Io e)))))))"

lemma temporary_not_target: "temporary_path io n p \<noteq> p"
proof (cases p)
  case (Pair d name)
  have "length (lit ''.'' @ (if name = [] then lit ''artifact'' else name) @ lit ''.'' @ dec_str (io_pid io)
         @ lit ''.'' @ dec_str n @ lit ''.tmp'') > length name" by simp
  then show ?thesis using Pair by (auto simp: temporary_path_def dest: arg_cong [where f = length])
qed

lemma write_steps_states:
  assumes "run_steps io (write_steps tmp p content) fs = (seen, fs', e)" "tmp \<noteq> p"
  shows "(\<forall>s \<in> set seen. s p = fs p \<or> s p = Some content)
     \<and> (\<forall>s \<in> set seen. \<forall>q. q \<noteq> p \<and> q \<noteq> tmp \<longrightarrow> s q = fs q) \<and> fs' \<in> set seen
     \<and> (e = None \<longrightarrow> fs' p = Some content \<and> fs' tmp = None)
     \<and> (e \<noteq> None \<longrightarrow> fs' p = fs p)"
  using assms
  by (auto simp: write_steps_def step_error_def Let_def split: option.splits if_splits)

lemma atomic_write_states:
  assumes "atomic_write io p content (fs, n) = (seen, (fs', n'), r)"
  shows "(\<forall>s \<in> set seen. s p = fs p \<or> s p = Some content)
     \<and> (\<forall>s \<in> set seen. \<forall>q. q \<noteq> p \<and> q \<noteq> temporary_path io n p \<longrightarrow> s q = fs q) \<and> fs' \<in> set seen
     \<and> (case r of Inr _ \<Rightarrow> fs' p = Some content | Inl _ \<Rightarrow> fs' p = fs p)"
proof (cases "io_error io (MakeDirs (fst p))")
  case (Some e)
  then show ?thesis using assms by (auto simp: atomic_write_def)
next
  case None
  let ?tmp = "temporary_path io n p"
  obtain seen1 fs1 e where w: "run_steps io (write_steps ?tmp p content) fs = (seen1, fs1, e)"
    by (cases "run_steps io (write_steps ?tmp p content) fs") auto
  note W = write_steps_states [OF w temporary_not_target]
  show ?thesis
  proof (cases e)
    case None
    then show ?thesis using assms \<open>io_error io _ = None\<close> w W by (auto simp: atomic_write_def Let_def)
  next
    case (Some x)
    let ?fs2 = "if io_error io (Remove ?tmp) = None then fs1(?tmp := None) else fs1"
    have r: "seen = seen1 @ [?fs2]" "fs' = ?fs2" "r = Inl (Io x)"
      using assms \<open>io_error io (MakeDirs _) = None\<close> w Some by (auto simp: atomic_write_def Let_def)
    have "?fs2 p = fs1 p" "\<forall>q. q \<noteq> ?tmp \<longrightarrow> ?fs2 q = fs1 q"
      using temporary_not_target [of io n p] by auto
    then show ?thesis using W Some unfolding r by auto
  qed
qed


section \<open>The cache\<close>

record JsonCache =
  jc_root :: str
  jc_version :: str

definition namespace_safe :: "str \<Rightarrow> bool" where
  "namespace_safe ns \<longleftrightarrow> ns \<noteq> [] \<and> (\<forall>c \<in> set ns. is_ascii_alnum c \<or> c \<in> {95, 46, 45})"

definition cache_path :: "penv \<Rightarrow> JsonCache \<Rightarrow> str \<Rightarrow> json list \<Rightarrow> fpath presult" where
  "cache_path E c ns key =
     (if \<not> namespace_safe ns then Inl (InvalidInput (lit ''unsafe cache namespace: '' @ pe_debug E ns))
      else Inr (jc_root c @ [47] @ ns,
                stable_hash E [JString (jc_version c), JArray key] @ lit ''.json''))"

definition path_display :: "fpath \<Rightarrow> str" where
  "path_display p = fst p @ [47] @ snd p"

definition cache_get :: "penv \<Rightarrow> io_env \<Rightarrow> JsonCache \<Rightarrow> str \<Rightarrow> json list \<Rightarrow> files \<Rightarrow> json option presult" where
  "cache_get E io c ns key fs = (case cache_path E c ns key of
     Inl e \<Rightarrow> Inl e
   | Inr p \<Rightarrow>
      (case fs p of
         None \<Rightarrow> Inr None
       | Some content \<Rightarrow>
          (case io_error io (ReadAll p) of
             Some e \<Rightarrow> Inl (Io e)
           | None \<Rightarrow>
              (case pe_parse_json E content of
                 Inl _ \<Rightarrow> Inl (Protocol (lit ''corrupt cache entry: '' @ path_display p))
               | Inr v \<Rightarrow> Inr (Some v)))))"

definition cache_put ::
    "penv \<Rightarrow> io_env \<Rightarrow> JsonCache \<Rightarrow> str \<Rightarrow> json list \<Rightarrow> json \<Rightarrow> files \<times> nat \<Rightarrow> (files \<times> nat) \<times> fpath presult" where
  "cache_put E io c ns key v s = (case cache_path E c ns key of
     Inl e \<Rightarrow> (s, Inl e)
   | Inr p \<Rightarrow>
      (case io_error io (MakeDirs (fst p)) of
         Some e \<Rightarrow> (s, Inl (Io e))
       | None \<Rightarrow>
          (case atomic_write io p (canonical_json E v) s of
             (_, s', Inl e) \<Rightarrow> (s', Inl e)
           | (_, s', Inr _) \<Rightarrow> (s', Inr p))))"

lemma cache_put_get:
  assumes "cache_put E io c ns key v s = (s', Inr p)" "io_error io (ReadAll p) = None"
    and "pe_parse_json E (canonical_json E v) = Inr v'"
  shows "cache_path E c ns key = Inr p \<and> cache_get E io c ns key (fst s') = Inr (Some v')"
proof -
  obtain fs n where s: "s = (fs, n)" by (cases s)
  obtain p' where p': "cache_path E c ns key = Inr p'"
    using assms(1) by (auto simp: cache_put_def split: sum.splits)
  obtain seen fs' n' r where w: "atomic_write io p' (canonical_json E v) (fs, n) = (seen, (fs', n'), r)"
    by (cases "atomic_write io p' (canonical_json E v) (fs, n)") auto
  have "r = Inr () \<and> s' = (fs', n') \<and> p' = p"
    using assms(1) p' w s by (auto simp: cache_put_def split: sum.splits option.splits)
  then show ?thesis
    using atomic_write_states [OF w] p' assms(2,3) by (auto simp: cache_get_def)
qed

text \<open>C21: A write is all or nothing: in every state of the file system that a crash or another reader could
  meet while it runs, the file holds either what it held before or the whole new content, no
  other file but the temporary one is touched, and at the end the result says which of the two it
  is - whichever step fails.\<close>

theorem atomic_write_is_atomic:
  assumes "atomic_write io p content (fs, n) = (seen, (fs', n'), r)"
  shows "(\<forall>s \<in> set seen. s p = fs p \<or> s p = Some content)
     \<and> (\<forall>s \<in> set seen. \<forall>q. q \<noteq> p \<and> q \<noteq> temporary_path io n p \<longrightarrow> s q = fs q)
     \<and> fs' \<in> set seen
     \<and> (case r of Inr _ \<Rightarrow> fs' p = Some content | Inl _ \<Rightarrow> fs' p = fs p)"
  using atomic_write_states [OF assms] .

definition failing_rename :: io_env where
  "failing_rename = \<lparr>io_error = (\<lambda>st. case st of Rename p q \<Rightarrow> Some (lit ''full'') | _ \<Rightarrow> None),
     io_written = (\<lambda>_. 0), io_pid = 7\<rparr>"

theorem atomic_write_is_atomic_witness:
  "(fst (fst (snd (atomic_write failing_rename (lit ''d'', lit ''f'') (lit ''new'')
       ([(lit ''d'', lit ''f'') \<mapsto> lit ''old''], 0))))) (lit ''d'', lit ''f'') = Some (lit ''old'')"
proof -
  obtain seen fs' n' r where w: "atomic_write failing_rename (lit ''d'', lit ''f'') (lit ''new'')
      ([(lit ''d'', lit ''f'') \<mapsto> lit ''old''], 0) = (seen, (fs', n'), r)"
    by (metis prod.exhaust)
  have "r = Inl (Io (lit ''full''))"
    using w by (auto simp: atomic_write_def failing_rename_def write_steps_def step_error_def Let_def
        temporary_path_def split: if_splits dest: arg_cong [where f = length])
  then show ?thesis using atomic_write_is_atomic [OF w] w by simp
qed

end
