(* ===== verification/PipeRun.thy ===== *)
theory PipeRun
  imports PipeWriterProps PipeCache
begin

text \<open>
  The pipeline itself (\<open>pipeline.rs\<close>): its stages in order, the loop over the windows with the two
  cached model calls, the accounting of what is accepted, rejected and quarantined, and the artifacts.
  The derived deserialisation of cached batches is the parameter \<open>codec\<close>; its texts of error too.
\<close>

section \<open>Configuration and state\<close>

definition NORMALIZER_VERSION :: str where
  "NORMALIZER_VERSION = lit ''normalize_v1''"

record PipelineConfig =
  pc_episode :: EpisodeConfig
  pc_window :: WindowConfig
  pc_max_memory_chars :: nat
  pc_version :: str
  pc_fail_fast :: bool

definition default_pipeline_config :: PipelineConfig where
  "default_pipeline_config = \<lparr>pc_episode = default_episode_config, pc_window = default_window_config,
     pc_max_memory_chars = 500, pc_version = lit ''memory_pipeline_v1'', pc_fail_fast = True\<rparr>"

record codec =
  cd_batch :: "json \<Rightarrow> str + ExtractionBatch"
  cd_grounding :: "json \<Rightarrow> str + GroundingBatch"

definition usage_value :: "penv \<Rightarrow> ModelUsage \<Rightarrow> json" where
  "usage_value E u = jobject
     [(lit ''latency_ms'', pe_f64_value E (mu_latency_ms u)), (lit ''prompt_tokens'', jint (mu_prompt_tokens u)),
      (lit ''completion_tokens'', jint (mu_completion_tokens u)), (lit ''total_tokens'', jint (mu_total_tokens u))]"

definition batch_value :: "penv \<Rightarrow> ExtractionBatch \<Rightarrow> json" where
  "batch_value E b = jobject
     [(lit ''window_id'', JString (eb_window_id b)), (lit ''schema_version'', JString (eb_schema_version b)),
      (lit ''raw_memories'', JArray (eb_raw_memories b)), (lit ''usage'', usage_value E (eb_usage b)),
      (lit ''raw_response'', JString (eb_raw_response b))]"

definition result_value :: "GroundingResult \<Rightarrow> json" where
  "result_value r = jobject [(lit ''memory_id'', JString (gr_memory_id r)), (lit ''status'', JString (gr_status r)),
     (lit ''reason'', JString (gr_reason r))]"

definition grounding_value :: "penv \<Rightarrow> GroundingBatch \<Rightarrow> json" where
  "grounding_value E b = jobject
     [(lit ''window_id'', JString (gb_window_id b)), (lit ''results'', JArray (map result_value (gb_results b))),
      (lit ''usage'', usage_value E (gb_usage b)), (lit ''raw_response'', JString (gb_raw_response b))]"

text \<open>What the run changes besides its own variables: the files, the counter of temporary names, the
  states of the extractor and the verifier.\<close>

record ('s, 't) run_state =
  rs_files :: "files \<times> nat"
  rs_ext :: 's
  rs_ver :: 't


section \<open>The cached calls\<close>

fun first_refs :: "str set \<Rightarrow> messages_by_id \<Rightarrow> str list \<Rightarrow> NormalizedMessage list" where
  "first_refs seen lookup [] = []"
| "first_refs seen lookup (i # is) =
     (if i \<in> seen then first_refs seen lookup is
      else (case lookup i of None \<Rightarrow> first_refs (insert i seen) lookup is
            | Some m \<Rightarrow> m # first_refs (insert i seen) lookup is))"

definition window_messages :: "ExtractionWindow \<Rightarrow> messages_by_id \<Rightarrow> NormalizedMessage list" where
  "window_messages w lookup = first_refs {} lookup (map mr_message_id (window_refs w))"

definition evidence_messages :: "AtomicMemory list \<Rightarrow> messages_by_id \<Rightarrow> NormalizedMessage list" where
  "evidence_messages ms lookup = first_refs {} lookup (map ev_message_id (concat (map am_evidence ms)))"

definition extraction_key :: "'s MemoryExtractor \<Rightarrow> ExtractionWindow \<Rightarrow> messages_by_id \<Rightarrow> json list" where
  "extraction_key ext w lookup =
     [window_value w, JArray (map message_value (window_messages w lookup)),
      JObject (component_identity ext), JString SCHEMA_VERSION]"

definition grounding_key ::
    "'t GroundingVerifier \<Rightarrow> ExtractionWindow \<Rightarrow> AtomicMemory list \<Rightarrow> messages_by_id \<Rightarrow> json list" where
  "grounding_key ver w ms lookup =
     [JString (wi_id w), JArray (map memory_value ms),
      JArray (map message_value (evidence_messages ms lookup)), JObject (verifier_identity ver)]"

definition lookup_cached ::
    "penv \<Rightarrow> io_env \<Rightarrow> JsonCache option \<Rightarrow> str \<Rightarrow> json list \<Rightarrow> (json \<Rightarrow> str + 'b) \<Rightarrow> files \<times> nat \<Rightarrow> 'b option presult" where
  "lookup_cached E io cache ns key decode fs = (case cache of
     None \<Rightarrow> Inr None
   | Some c \<Rightarrow>
      (case cache_get E io c ns key (fst fs) of
         Inl e \<Rightarrow> Inl e
       | Inr None \<Rightarrow> Inr None
       | Inr (Some v) \<Rightarrow> (case decode v of Inl e \<Rightarrow> Inl (Json e) | Inr b \<Rightarrow> Inr (Some b))))"

definition store_cached ::
    "penv \<Rightarrow> io_env \<Rightarrow> JsonCache option \<Rightarrow> str \<Rightarrow> json list \<Rightarrow> json \<Rightarrow> files \<times> nat \<Rightarrow> (files \<times> nat) \<times> unit presult" where
  "store_cached E io cache ns key v fs = (case cache of
     None \<Rightarrow> (fs, Inr ())
   | Some c \<Rightarrow> (case cache_put E io c ns key v fs of (fs', Inl e) \<Rightarrow> (fs', Inl e) | (fs', Inr _) \<Rightarrow> (fs', Inr ())))"

definition extract_cached ::
    "penv \<Rightarrow> io_env \<Rightarrow> codec \<Rightarrow> JsonCache option \<Rightarrow> 's MemoryExtractor \<Rightarrow> ExtractionWindow \<Rightarrow> messages_by_id
     \<Rightarrow> ('s, 't) run_state \<Rightarrow> ('s, 't) run_state \<times> (ExtractionBatch \<times> bool) presult" where
  "extract_cached E io cd cache ext w lookup st =
     (let key = extraction_key ext w lookup
      in (case lookup_cached E io cache (lit ''extraction'') key (cd_batch cd) (rs_files st) of
            Inl e \<Rightarrow> (st, Inl e)
          | Inr (Some b) \<Rightarrow> (st, Inr (b, True))
          | Inr None \<Rightarrow>
             (case ex_extract ext w lookup (rs_ext st) of
                (s', Inl e) \<Rightarrow> (st\<lparr>rs_ext := s'\<rparr>, Inl e)
              | (s', Inr b) \<Rightarrow>
                 (case store_cached E io cache (lit ''extraction'') key (batch_value E b) (rs_files st) of
                    (fs', Inl e) \<Rightarrow> (st\<lparr>rs_ext := s', rs_files := fs'\<rparr>, Inl e)
                  | (fs', Inr _) \<Rightarrow> (st\<lparr>rs_ext := s', rs_files := fs'\<rparr>, Inr (b, False))))))"

definition verify_cached ::
    "penv \<Rightarrow> io_env \<Rightarrow> codec \<Rightarrow> JsonCache option \<Rightarrow> 't GroundingVerifier \<Rightarrow> ExtractionWindow \<Rightarrow> AtomicMemory list
     \<Rightarrow> messages_by_id \<Rightarrow> ('s, 't) run_state \<Rightarrow> ('s, 't) run_state \<times> (GroundingBatch \<times> bool) presult" where
  "verify_cached E io cd cache ver w ms lookup st =
     (let key = grounding_key ver w ms lookup
      in (case lookup_cached E io cache (lit ''grounding'') key (cd_grounding cd) (rs_files st) of
            Inl e \<Rightarrow> (st, Inl e)
          | Inr (Some b) \<Rightarrow> (st, Inr (b, True))
          | Inr None \<Rightarrow>
             (case gv_verify ver w ms lookup (rs_ver st) of
                (t', Inl e) \<Rightarrow> (st\<lparr>rs_ver := t'\<rparr>, Inl e)
              | (t', Inr b) \<Rightarrow>
                 (case store_cached E io cache (lit ''grounding'') key (grounding_value E b) (rs_files st) of
                    (fs', Inl e) \<Rightarrow> (st\<lparr>rs_ver := t', rs_files := fs'\<rparr>, Inl e)
                  | (fs', Inr _) \<Rightarrow> (st\<lparr>rs_ver := t', rs_files := fs'\<rparr>, Inr (b, False))))))"


section \<open>The loop over the windows\<close>

record run_acc =
  ra_extracted :: "ExtractionBatch list"
  ra_supported :: "AtomicMemory list"
  ra_rejected :: "PipelineIssue list"
  ra_quarantined :: "PipelineIssue list"
  ra_empty_windows :: nat
  ra_extraction_calls :: nat
  ra_verification_calls :: nat
  ra_extraction_hits :: nat
  ra_verification_hits :: nat
  ra_extraction_tokens :: int
  ra_verification_tokens :: int
  ra_extraction_latency :: f64
  ra_verification_latency :: f64
  ra_counts :: "(str \<times> nat) list"

definition initial_acc :: "PipelineIssue list \<Rightarrow> run_acc" where
  "initial_acc issues = \<lparr>ra_extracted = [], ra_supported = [], ra_rejected = issues, ra_quarantined = [],
     ra_empty_windows = 0, ra_extraction_calls = 0, ra_verification_calls = 0, ra_extraction_hits = 0,
     ra_verification_hits = 0, ra_extraction_tokens = 0, ra_verification_tokens = 0,
     ra_extraction_latency = 0, ra_verification_latency = 0, ra_counts = []\<rparr>"

definition pipeline_loc :: "nat \<Rightarrow> caller" where
  "pipeline_loc n = (lit ''crates/memory-pipeline/src/pipeline.rs'', n)"

definition runtime_issue :: "string \<Rightarrow> ExtractionWindow \<Rightarrow> PipelineError \<Rightarrow> str \<Rightarrow> PipelineIssue" where
  "runtime_issue stage w e source_id =
     \<lparr>pi_stage = lit stage, pi_code = lit stage @ lit ''_runtime_error'', pi_message = error_string e,
      pi_source_id = source_id, pi_scope_id = wi_scope_id w, pi_episode_id = wi_episode_id w,
      pi_window_id = wi_id w, pi_details = [(lit ''error_type'', JString (lit ''PipelineError''))]\<rparr>"

definition grounding_issue :: "penv \<Rightarrow> GroundingResult \<Rightarrow> AtomicMemory \<Rightarrow> PipelineIssue" where
  "grounding_issue E r m =
     \<lparr>pi_stage = lit ''grounding'', pi_code = lit ''grounding_'' @ pe_lower E (gr_status r),
      pi_message = (if gr_reason r = [] then lit ''grounding status is '' @ gr_status r else gr_reason r),
      pi_source_id = am_id m, pi_scope_id = am_scope_id m, pi_episode_id = am_source_episode_id m,
      pi_window_id = am_source_window_id m, pi_details = [(lit ''status'', JString (gr_status r))]\<rparr>"

definition count_status :: "str \<Rightarrow> (str \<times> nat) list \<Rightarrow> (str \<times> nat) list" where
  "count_status s counts = obj_insert s ((case map_of counts s of Some n \<Rightarrow> n | None \<Rightarrow> 0) + 1) counts"

text \<open>The verdicts of a window; a later result for the same memory wins in the collected map.\<close>

definition results_map :: "GroundingResult list \<Rightarrow> str \<rightharpoonup> GroundingResult" where
  "results_map rs = map_of (rev (map (\<lambda>r. (gr_memory_id r, r)) rs))"

fun ground_memories ::
    "penv \<Rightarrow> (str \<rightharpoonup> GroundingResult) \<Rightarrow> AtomicMemory list \<Rightarrow> run_acc \<Rightarrow> run_acc presult" where
  "ground_memories E results [] acc = Inr acc"
| "ground_memories E results (m # ms) acc = (case results (am_id m) of
     None \<Rightarrow> Inl (at_stage (pipeline_loc 330) Ground (Protocol (lit ''verifier omitted memory '' @ am_id m)))
   | Some r \<Rightarrow>
      (let acc = acc\<lparr>ra_counts := count_status (gr_status r) (ra_counts acc)\<rparr>
       in ground_memories E results ms
            (if gr_status r = lit ''SUPPORTED'' then acc\<lparr>ra_supported := ra_supported acc @ [m]\<rparr>
             else acc\<lparr>ra_quarantined := ra_quarantined acc @ [grounding_issue E r m]\<rparr>)))"

definition count_extraction :: "penv \<Rightarrow> ExtractionBatch \<Rightarrow> bool \<Rightarrow> run_acc \<Rightarrow> run_acc" where
  "count_extraction E b cached acc =
     (if cached then acc\<lparr>ra_extraction_hits := ra_extraction_hits acc + 1\<rparr>
      else acc\<lparr>ra_extraction_calls := ra_extraction_calls acc + 1,
               ra_extraction_tokens := i64_add (ra_extraction_tokens acc) (mu_total_tokens (eb_usage b)),
               ra_extraction_latency := pe_fadd E (ra_extraction_latency acc) (mu_latency_ms (eb_usage b))\<rparr>)"

definition count_verification :: "penv \<Rightarrow> GroundingBatch \<Rightarrow> bool \<Rightarrow> run_acc \<Rightarrow> run_acc" where
  "count_verification E b cached acc =
     (if cached then acc\<lparr>ra_verification_hits := ra_verification_hits acc + 1\<rparr>
      else acc\<lparr>ra_verification_calls := ra_verification_calls acc + 1,
               ra_verification_tokens := i64_add (ra_verification_tokens acc) (mu_total_tokens (gb_usage b)),
               ra_verification_latency := pe_fadd E (ra_verification_latency acc) (mu_latency_ms (gb_usage b))\<rparr>)"

definition ground_window ::
    "penv \<Rightarrow> io_env \<Rightarrow> codec \<Rightarrow> PipelineConfig \<Rightarrow> JsonCache option \<Rightarrow> 't GroundingVerifier \<Rightarrow> messages_by_id
     \<Rightarrow> ExtractionWindow \<Rightarrow> AtomicMemory list \<Rightarrow> run_acc \<Rightarrow> ('s, 't) run_state
     \<Rightarrow> ('s, 't) run_state \<times> run_acc presult" where
  "ground_window E io cd cfg cache ver lookup w valid acc st =
     (case verify_cached E io cd cache ver w valid lookup st of
        (st', Inl e) \<Rightarrow>
          (st', if pc_fail_fast cfg then Inl (at_stage (pipeline_loc 282) Ground e)
                else Inr (acc\<lparr>ra_quarantined := ra_quarantined acc
                       @ map (\<lambda>m. runtime_issue ''grounding'' w e (am_id m)) valid\<rparr>))
      | (st', Inr (b, cached)) \<Rightarrow>
          (st', ground_memories E (results_map (gb_results b)) valid (count_verification E b cached acc)))"

definition run_window ::
    "penv \<Rightarrow> io_env \<Rightarrow> codec \<Rightarrow> PipelineConfig \<Rightarrow> JsonCache option \<Rightarrow> 's MemoryExtractor \<Rightarrow> 't GroundingVerifier
     \<Rightarrow> messages_by_id \<Rightarrow> ExtractionWindow \<Rightarrow> run_acc \<Rightarrow> ('s, 't) run_state
     \<Rightarrow> ('s, 't) run_state \<times> run_acc presult" where
  "run_window E io cd cfg cache ext ver lookup w acc st =
     (case extract_cached E io cd cache ext w lookup st of
        (st', Inl e) \<Rightarrow>
          (st', if pc_fail_fast cfg then Inl (at_stage (pipeline_loc 199) Extract e)
                else Inr (acc\<lparr>ra_rejected := ra_rejected acc @ [runtime_issue ''extract'' w e []]\<rparr>))
      | (st', Inr (b, cached)) \<Rightarrow>
          (let acc = count_extraction E b cached acc;
               acc = acc\<lparr>ra_extracted := ra_extracted acc @ [b]\<rparr>
           in if eb_raw_memories b = []
              then (st', Inr (acc\<lparr>ra_empty_windows := ra_empty_windows acc + 1\<rparr>))
              else
                (let v = validate_extraction E (eb_raw_memories b) w lookup (pc_max_memory_chars cfg);
                     acc = acc\<lparr>ra_rejected := ra_rejected acc @ vb_rejected v,
                               ra_quarantined := ra_quarantined acc @ vb_quarantined v\<rparr>
                 in if vb_valid v = [] then (st', Inr acc)
                    else ground_window E io cd cfg cache ver lookup w (vb_valid v) acc st')))"

fun run_windows ::
    "penv \<Rightarrow> io_env \<Rightarrow> codec \<Rightarrow> PipelineConfig \<Rightarrow> JsonCache option \<Rightarrow> 's MemoryExtractor \<Rightarrow> 't GroundingVerifier
     \<Rightarrow> messages_by_id \<Rightarrow> ExtractionWindow list \<Rightarrow> run_acc \<Rightarrow> ('s, 't) run_state
     \<Rightarrow> ('s, 't) run_state \<times> run_acc presult" where
  "run_windows E io cd cfg cache ext ver lookup [] acc st = (st, Inr acc)"
| "run_windows E io cd cfg cache ext ver lookup (w # ws) acc st =
     (case run_window E io cd cfg cache ext ver lookup w acc st of
        (st', Inl e) \<Rightarrow> (st', Inl e)
      | (st', Inr acc') \<Rightarrow> run_windows E io cd cfg cache ext ver lookup ws acc' st')"


section \<open>Metrics\<close>

fun union_loop :: "nat \<Rightarrow> nat \<Rightarrow> nat \<Rightarrow> (nat \<times> nat) list \<Rightarrow> nat" where
  "union_loop s e acc [] = acc + (e - s)"
| "union_loop s e acc ((ns, ne) # sp) =
     (if ns \<le> e then union_loop s (max e ne) acc sp else union_loop ns ne (acc + (e - s)) sp)"

definition union_length :: "(nat \<times> nat) list \<Rightarrow> nat" where
  "union_length sp = (case sort sp of [] \<Rightarrow> 0 | (s, e) # rest \<Rightarrow> union_loop s e 0 rest)"

text \<open>Covered and total characters of the eligible messages, and the characters covered repeatedly.\<close>

definition eligible_spans :: "NormalizedMessage list \<Rightarrow> ExtractionWindow list \<Rightarrow> (str \<times> (nat \<times> nat) list) list" where
  "eligible_spans ms ws = map (\<lambda>m. (nm_id m, message_spans (nm_id m) (concat (map wi_candidate_refs ws))))
     (filter nm_candidate_eligible ms)"

definition candidate_span_metrics :: "NormalizedMessage list \<Rightarrow> ExtractionWindow list \<Rightarrow> nat \<times> nat \<times> nat" where
  "candidate_span_metrics ms ws =
     (let spans = eligible_spans ms ws;
          total = sum_list (map (\<lambda>m. length (nm_text m)) (filter nm_candidate_eligible ms));
          raw = sum_list (map (\<lambda>(i, sp). sum_list (map (\<lambda>(s, e). e - s) sp)) spans);
          covered = sum_list (map (\<lambda>(i, sp). union_length sp) spans)
      in (covered, total, raw - covered))"

definition coverage_value :: "penv \<Rightarrow> nat \<times> nat \<times> nat \<Rightarrow> json" where
  "coverage_value E m = (let (covered, total, dup) = m in
     pe_f64_value E (if total = 0 then pe_ratio E 1 1 else pe_ratio E covered total))"

definition source_counts :: "str list \<Rightarrow> AtomicMemory list \<Rightarrow> bool \<Rightarrow> (str \<times> nat) list" where
  "source_counts ids memories unique_memory =
     fold count_status
       (concat (map (\<lambda>m. if unique_memory then unique_from {} (map ev_message_id (am_evidence m))
                         else map ev_message_id (am_evidence m)) memories))
       (obj_of (map (\<lambda>i. (i, 0)) ids))"


section \<open>The run\<close>

record PipelineRun =
  pn_prepared :: json
  pn_messages :: "NormalizedMessage list"
  pn_episodes :: "ConversationEpisode list"
  pn_windows :: "ExtractionWindow list"
  pn_extracted :: "ExtractionBatch list"
  pn_accepted :: "AtomicMemory list"
  pn_rejected :: "PipelineIssue list"
  pn_quarantined :: "PipelineIssue list"
  pn_stats :: json
  pn_metadata :: json

definition episode_config_value :: "EpisodeConfig \<Rightarrow> json" where
  "episode_config_value c = jobject
     [(lit ''max_time_gap_minutes'', jopt (map_option jint (ec_max_gap_minutes c))),
      (lit ''metadata_boundary_fields'', JArray (map JString (ec_boundary_fields c))),
      (lit ''version'', JString (ec_version c))]"

definition pipeline_config_value :: "PipelineConfig \<Rightarrow> json" where
  "pipeline_config_value c = jobject
     [(lit ''episode'', episode_config_value (pc_episode c)), (lit ''window'', window_config_value (pc_window c)),
      (lit ''validation'', jobject [(lit ''max_memory_chars'', jnat (pc_max_memory_chars c))]),
      (lit ''pipeline_version'', JString (pc_version c)), (lit ''fail_fast'', JBool (pc_fail_fast c))]"

definition counts_value :: "(str \<times> nat) list \<Rightarrow> json" where
  "counts_value counts = JObject (map (\<lambda>(k, n). (k, jnat n)) counts)"

definition run_metadata ::
    "penv \<Rightarrow> json \<Rightarrow> PipelineConfig \<Rightarrow> JsonCache option \<Rightarrow> 's MemoryExtractor \<Rightarrow> 't GroundingVerifier \<Rightarrow> json" where
  "run_metadata E prepared cfg cache ext ver = jobject
     [(lit ''pipeline_version'', JString (pc_version cfg)),
      (lit ''dataset'', get_or prepared ''dataset'' (JObject [])),
      (lit ''source_hash'', JString (stable_hash E [prepared])),
      (lit ''normalizer_version'', JString NORMALIZER_VERSION),
      (lit ''config'', pipeline_config_value cfg),
      (lit ''extractor'', JObject (obj_insert (lit ''schema_version'') (JString SCHEMA_VERSION) (component_identity ext))),
      (lit ''verifier'', JObject (verifier_identity ver)),
      (lit ''cache_version'', jopt (map_option (\<lambda>c. JString (jc_version c)) cache))]"

definition run_stats ::
    "penv \<Rightarrow> NormalizedMessage list \<Rightarrow> ConversationEpisode list \<Rightarrow> ExtractionWindow list \<Rightarrow> AtomicMemory list
     \<Rightarrow> run_acc \<Rightarrow> json" where
  "run_stats E ms eps ws accepted acc =
     (let m = candidate_span_metrics ms ws; ids = map nm_id ms
      in jobject
       [(lit ''normalized_message_count'', jnat (length ms)), (lit ''episode_count'', jnat (length eps)),
        (lit ''window_count'', jnat (length ws)),
        (lit ''empty_extraction_windows'', jnat (ra_empty_windows acc)),
        (lit ''raw_candidate_count'', jnat (sum_list (map (\<lambda>b. length (eb_raw_memories b)) (ra_extracted acc)))),
        (lit ''accepted_memory_count'', jnat (length accepted)),
        (lit ''rejected_count'', jnat (length (ra_rejected acc))),
        (lit ''quarantined_count'', jnat (length (ra_quarantined acc))),
        (lit ''candidate_source_coverage'', coverage_value E m),
        (lit ''candidate_source_duplication'', jnat (snd (snd m))),
        (lit ''extraction_total_tokens'', jint (ra_extraction_tokens acc)),
        (lit ''verification_total_tokens'', jint (ra_verification_tokens acc)),
        (lit ''extraction_cache_hits'', jnat (ra_extraction_hits acc)),
        (lit ''verification_cache_hits'', jnat (ra_verification_hits acc)),
        (lit ''extraction_call_count'', jnat (ra_extraction_calls acc)),
        (lit ''verification_call_count'', jnat (ra_verification_calls acc)),
        (lit ''extraction_latency_ms'', pe_f64_value E (ra_extraction_latency acc)),
        (lit ''verification_latency_ms'', pe_f64_value E (ra_verification_latency acc)),
        (lit ''grounding_status_counts'', counts_value (ra_counts acc)),
        (lit ''source_turn_memory_counts'', counts_value (source_counts ids accepted True)),
        (lit ''source_turn_evidence_ref_counts'', counts_value (source_counts ids accepted False))])"

definition prepare_windows ::
    "penv \<Rightarrow> json \<Rightarrow> PipelineConfig
     \<Rightarrow> (NormalizedMessage list \<times> PipelineIssue list \<times> ConversationEpisode list \<times> ExtractionWindow list) presult" where
  "prepare_windows E prepared cfg = (case normalize_prepared_memories E prepared of
     Inl e \<Rightarrow> Inl (at_stage (pipeline_loc 95) Normalize e)
   | Inr (ms, issues) \<Rightarrow>
      (case build_episodes E ms (pc_episode cfg) of
         Inl e \<Rightarrow> Inl (at_stage (pipeline_loc 124) Episode e)
       | Inr eps \<Rightarrow>
          (case build_windows E eps (message_lookup ms) (pc_window cfg) of
             Inl e \<Rightarrow> Inl (at_stage (pipeline_loc 147) Window e)
           | Inr ws \<Rightarrow> Inr (ms, issues, eps, ws))))"

definition accepted_memories :: "penv \<Rightarrow> messages_by_id \<Rightarrow> AtomicMemory list \<Rightarrow> AtomicMemory list" where
  "accepted_memories E lookup supported =
     aggregate_exact_memories E (attach_source_observations E supported lookup)"

definition run_memory_pipeline ::
    "penv \<Rightarrow> io_env \<Rightarrow> codec \<Rightarrow> json \<Rightarrow> PipelineConfig \<Rightarrow> 's MemoryExtractor \<Rightarrow> 't GroundingVerifier
     \<Rightarrow> JsonCache option \<Rightarrow> ('s, 't) run_state \<Rightarrow> ('s, 't) run_state \<times> PipelineRun presult" where
  "run_memory_pipeline E io cd prepared cfg ext ver cache st =
     (if pc_max_memory_chars cfg = 0
      then (st, Inl (at_stage (pipeline_loc 86) Validate (InvalidInput (lit ''max_memory_chars must be positive''))))
      else (case prepare_windows E prepared cfg of
         Inl e \<Rightarrow> (st, Inl e)
       | Inr (ms, issues, eps, ws) \<Rightarrow>
          (case run_windows E io cd cfg cache ext ver (message_lookup ms) ws (initial_acc issues) st of
             (st', Inl e) \<Rightarrow> (st', Inl e)
           | (st', Inr acc) \<Rightarrow>
              (let accepted = accepted_memories E (message_lookup ms) (ra_supported acc);
                   metadata = run_metadata E prepared cfg cache ext ver
               in (case make_prepared_output E prepared accepted metadata of
                     Inl e \<Rightarrow> (st', Inl (at_stage (pipeline_loc 391) Aggregate e))
                   | Inr doc \<Rightarrow> (st', Inr \<lparr>pn_prepared = doc, pn_messages = ms, pn_episodes = eps,
                        pn_windows = ws, pn_extracted = ra_extracted acc, pn_accepted = accepted,
                        pn_rejected = ra_rejected acc, pn_quarantined = ra_quarantined acc,
                        pn_stats = run_stats E ms eps ws accepted acc, pn_metadata = metadata\<rparr>))))))"

end
