(* ===== verification/PipeRunProps.thy ===== *)
theory PipeRunProps
  imports PipeRun
begin

text \<open>
  What a run guarantees: nothing the model returns is lost on the way to the three output lists, only
  what the verifier supports is accepted, every accepted memory quotes the document, and a cached
  call is not repeated.
\<close>

section \<open>The length of a union\<close>

lemma spans_set_finite [simp]: "finite (spans_set sp)"
  by (auto simp: spans_set_def)

lemma union_loop_card:
  assumes "sorted (map fst sp)" "\<forall>p \<in> set sp. s \<le> fst p \<and> fst p \<le> snd p" "s \<le> e"
  shows "union_loop s e acc sp = acc + card ({s..<e} \<union> spans_set sp)"
  using assms
proof (induction s e acc sp rule: union_loop.induct)
  case (2 s e acc ns ne sp)
  have b: "s \<le> ns" "ns \<le> ne" "\<forall>p \<in> set sp. ns \<le> fst p \<and> fst p \<le> snd p" "sorted (map fst sp)"
    using 2(3,4) by auto
  show ?case
  proof (cases "ns \<le> e")
    case True
    have "{s..<max e ne} = {s..<e} \<union> {ns..<ne}" using True b 2(5) by auto
    then have eq: "{s..<max e ne} \<union> spans_set sp = {s..<e} \<union> spans_set ((ns, ne) # sp)" by auto
    have "union_loop s (max e ne) acc sp = acc + card ({s..<max e ne} \<union> spans_set sp)"
      by (rule 2(1) [OF True b(4)]) (use b 2(5) in auto)
    then show ?thesis using True by (simp only: union_loop.simps if_True eq)
  next
    case False
    have d: "{s..<e} \<inter> ({ns..<ne} \<union> spans_set sp) = {}"
      using False b(3) by (auto simp: spans_set_def)
    have "union_loop ns ne (acc + (e - s)) sp = acc + (e - s) + card ({ns..<ne} \<union> spans_set sp)"
      by (rule 2(2) [OF False b(4) b(3) b(2)])
    moreover have "card ({s..<e} \<union> ({ns..<ne} \<union> spans_set sp)) = (e - s) + card ({ns..<ne} \<union> spans_set sp)"
      using d by (subst card_Un_disjoint) auto
    ultimately show ?thesis using False by (simp add: Un_assoc)
  qed
qed simp

lemma sorted_fst: "sorted (xs :: (nat \<times> nat) list) \<Longrightarrow> sorted (map fst xs)"
  unfolding sorted_map by (rule sorted_wrt_mono_rel) (auto simp: less_eq_prod_def)

lemma union_length_card:
  assumes "\<forall>p \<in> set sp. fst p \<le> snd p"
  shows "union_length sp = card (spans_set sp)"
proof (cases "sort sp")
  case Nil
  then have "sp = []" by (metis length_0_conv length_sort)
  then show ?thesis by (simp add: union_length_def)
next
  case (Cons p rest)
  obtain s e where p: "p = (s, e)" by (cases p)
  have set: "set sp = insert (s, e) (set rest)" using Cons p by (metis list.simps(15) set_sort)
  have srt: "sorted (map fst ((s, e) # rest))"
    using sorted_fst [OF sorted_sort [of sp]] unfolding Cons p .
  have "union_loop s e 0 rest = 0 + card ({s..<e} \<union> spans_set rest)"
    by (rule union_loop_card) (use srt assms set in auto)
  moreover have "spans_set sp = {s..<e} \<union> spans_set rest"
    using set by (auto simp: spans_set_def)
  ultimately show ?thesis using Cons p by (simp add: union_length_def)
qed


section \<open>Accounting\<close>

definition verdict_of :: "(str \<rightharpoonup> GroundingResult) \<Rightarrow> AtomicMemory \<Rightarrow> bool" where
  "verdict_of results m \<longleftrightarrow> (\<exists>r. results (am_id m) = Some r \<and> gr_status r = lit ''SUPPORTED'')"

text \<open>The verdicts on the raw memories of a batch, one for each, in order.\<close>

definition verdicts ::
    "penv \<Rightarrow> PipelineConfig \<Rightarrow> messages_by_id \<Rightarrow> ExtractionWindow \<Rightarrow> ExtractionBatch \<Rightarrow> verdict list" where
  "verdicts E cfg lookup w b =
     map (\<lambda>(idx, raw). validate_memory E w lookup (pc_max_memory_chars cfg) idx raw)
       (List.enumerate 0 (eb_raw_memories b))"

text \<open>What a window adds to the run: the batch, unless it was skipped, and its share of the three lists.\<close>

record window_part =
  wp_batch :: "ExtractionBatch option"
  wp_supported :: "AtomicMemory list"
  wp_rejected :: "PipelineIssue list"
  wp_quarantined :: "PipelineIssue list"

text \<open>The valid memories \<open>ms\<close> of a window after grounding: judged one by one, or all quarantined because
  the verifier failed.\<close>

definition grounded :: "penv \<Rightarrow> ExtractionWindow \<Rightarrow> AtomicMemory list \<Rightarrow> AtomicMemory list \<Rightarrow> PipelineIssue list \<Rightarrow> bool" where
  "grounded E w ms good issues \<longleftrightarrow>
     (\<exists>results. (\<forall>m \<in> set ms. results (am_id m) \<noteq> None)
        \<and> good = filter (verdict_of results) ms
        \<and> issues = map (\<lambda>m. grounding_issue E (the (results (am_id m))) m)
            (filter (\<lambda>m. \<not> verdict_of results m) ms))
     \<or> (\<exists>e. good = [] \<and> issues = map (\<lambda>m. runtime_issue ''grounding'' w e (am_id m)) ms)"

definition window_accounted ::
    "penv \<Rightarrow> PipelineConfig \<Rightarrow> messages_by_id \<Rightarrow> ExtractionWindow \<Rightarrow> window_part \<Rightarrow> bool" where
  "window_accounted E cfg lookup w p \<longleftrightarrow> (case wp_batch p of
     None \<Rightarrow> wp_supported p = [] \<and> wp_quarantined p = []
        \<and> (\<exists>e. wp_rejected p = [runtime_issue ''extract'' w e []])
   | Some b \<Rightarrow> wp_rejected p = [i. Rejected i \<leftarrow> verdicts E cfg lookup w b]
        \<and> (\<exists>issues. wp_quarantined p = [i. Quarantined i \<leftarrow> verdicts E cfg lookup w b] @ issues
             \<and> grounded E w [m. Valid m \<leftarrow> verdicts E cfg lookup w b] (wp_supported p) issues))"

lemma validate_extraction_verdicts:
  "validate_extraction E (eb_raw_memories b) w lookup (pc_max_memory_chars cfg) =
     \<lparr>vb_valid = [m. Valid m \<leftarrow> verdicts E cfg lookup w b],
      vb_rejected = [i. Rejected i \<leftarrow> verdicts E cfg lookup w b],
      vb_quarantined = [i. Quarantined i \<leftarrow> verdicts E cfg lookup w b]\<rparr>"
  unfolding validate_extraction_def fold_push_verdict by (simp add: verdicts_def comp_def split_def)

lemma verdicts_split:
  "length [m. Valid m \<leftarrow> vs] + length [i. Rejected i \<leftarrow> vs] + length [i. Quarantined i \<leftarrow> vs] = length vs"
  by (induction vs) (auto split: verdict.split)

text \<open>The accumulator after a window, from the one before it.\<close>

definition add_part :: "window_part \<Rightarrow> run_acc \<Rightarrow> run_acc \<Rightarrow> bool" where
  "add_part p acc acc' \<longleftrightarrow>
     ra_extracted acc' = ra_extracted acc @ (case wp_batch p of None \<Rightarrow> [] | Some b \<Rightarrow> [b])
     \<and> ra_supported acc' = ra_supported acc @ wp_supported p
     \<and> ra_rejected acc' = ra_rejected acc @ wp_rejected p
     \<and> ra_quarantined acc' = ra_quarantined acc @ wp_quarantined p"

lemma grounded_length: "grounded E w ms good issues \<Longrightarrow> length good + length issues = length ms"
  by (auto simp: grounded_def sum_length_filter_compl)

lemma grounded_subset: "grounded E w ms good issues \<Longrightarrow> set good \<subseteq> set ms"
  by (auto simp: grounded_def)

lemma ground_memories_result:
  assumes "ground_memories E results ms acc = Inr acc'"
  shows "(\<forall>m \<in> set ms. results (am_id m) \<noteq> None)
     \<and> ra_supported acc' = ra_supported acc @ filter (verdict_of results) ms
     \<and> ra_quarantined acc' = ra_quarantined acc @ map (\<lambda>m. grounding_issue E (the (results (am_id m))) m)
            (filter (\<lambda>m. \<not> verdict_of results m) ms)
     \<and> ra_rejected acc' = ra_rejected acc \<and> ra_extracted acc' = ra_extracted acc"
  using assms
proof (induction ms arbitrary: acc)
  case (Cons m ms)
  obtain r where r: "results (am_id m) = Some r" using Cons.prems by (auto split: option.splits)
  let ?acc = "acc\<lparr>ra_counts := count_status (gr_status r) (ra_counts acc)\<rparr>"
  show ?case
  proof (cases "gr_status r = lit ''SUPPORTED''")
    case True
    then have "ground_memories E results ms (?acc\<lparr>ra_supported := ra_supported acc @ [m]\<rparr>) = Inr acc'"
      using Cons.prems r by (simp add: Let_def)
    from Cons.IH [OF this] show ?thesis using r True by (simp add: verdict_of_def)
  next
    case False
    then have "ground_memories E results ms (?acc\<lparr>ra_quarantined := ra_quarantined acc @ [grounding_issue E r m]\<rparr>) = Inr acc'"
      using Cons.prems r by (simp add: Let_def)
    from Cons.IH [OF this] show ?thesis using r False by (simp add: verdict_of_def)
  qed
qed simp

lemma count_simps [simp]:
  "ra_supported (count_extraction E b c acc) = ra_supported acc"
  "ra_rejected (count_extraction E b c acc) = ra_rejected acc"
  "ra_quarantined (count_extraction E b c acc) = ra_quarantined acc"
  "ra_extracted (count_extraction E b c acc) = ra_extracted acc"
  "ra_supported (count_verification E g c acc) = ra_supported acc"
  "ra_rejected (count_verification E g c acc) = ra_rejected acc"
  "ra_quarantined (count_verification E g c acc) = ra_quarantined acc"
  "ra_extracted (count_verification E g c acc) = ra_extracted acc"
  by (simp_all add: count_extraction_def count_verification_def)

lemma ground_window_result:
  assumes "ground_window E io cd cfg cache ver lookup w valid acc st = (st', Inr acc')"
  shows "\<exists>good issues. grounded E w valid good issues
     \<and> ra_supported acc' = ra_supported acc @ good \<and> ra_quarantined acc' = ra_quarantined acc @ issues
     \<and> ra_rejected acc' = ra_rejected acc \<and> ra_extracted acc' = ra_extracted acc"
proof -
  obtain st1 r where v: "verify_cached E io cd cache ver w valid lookup st = (st1, r)"
    by (cases "verify_cached E io cd cache ver w valid lookup st")
  show ?thesis
  proof (cases r)
    case (Inl e)
    then have "acc' = acc\<lparr>ra_quarantined := ra_quarantined acc @ map (\<lambda>m. runtime_issue ''grounding'' w e (am_id m)) valid\<rparr>"
      using assms v by (auto simp: ground_window_def split: if_splits)
    moreover have "grounded E w valid [] (map (\<lambda>m. runtime_issue ''grounding'' w e (am_id m)) valid)"
      unfolding grounded_def by blast
    ultimately show ?thesis by (intro exI conjI) auto
  next
    case (Inr bc)
    obtain b cached where bc: "bc = (b, cached)" by (cases bc)
    then have "ground_memories E (results_map (gb_results b)) valid (count_verification E b cached acc) = Inr acc'"
      using assms v Inr by (auto simp: ground_window_def)
    from ground_memories_result [OF this] show ?thesis
      by (intro exI conjI) (auto simp: grounded_def)
  qed
qed

text \<open>The window either was skipped with one issue, or its batch is recorded and each of its raw memories
  is accounted for.\<close>

lemma run_window_result:
  assumes "run_window E io cd cfg cache ext ver lookup w acc st = (st', Inr acc')"
  shows "\<exists>p. window_accounted E cfg lookup w p \<and> add_part p acc acc'"
proof -
  obtain st1 r where x: "extract_cached E io cd cache ext w lookup st = (st1, r)"
    by (cases "extract_cached E io cd cache ext w lookup st")
  show ?thesis
  proof (cases r)
    case (Inl e)
    let ?p = "\<lparr>wp_batch = None, wp_supported = [], wp_rejected = [runtime_issue ''extract'' w e []], wp_quarantined = []\<rparr>"
    have "acc' = acc\<lparr>ra_rejected := ra_rejected acc @ [runtime_issue ''extract'' w e []]\<rparr>"
      using assms x Inl by (auto simp: run_window_def split: if_splits)
    then show ?thesis by (intro exI [of _ ?p]) (auto simp: window_accounted_def add_part_def)
  next
    case (Inr bc)
    obtain b cached where bc: "bc = (b, cached)" by (cases bc)
    let ?acc = "(count_extraction E b cached acc)\<lparr>ra_extracted := ra_extracted acc @ [b]\<rparr>"
    let ?v = "validate_extraction E (eb_raw_memories b) w lookup (pc_max_memory_chars cfg)"
    let ?acc2 = "?acc\<lparr>ra_rejected := ra_rejected acc @ vb_rejected ?v,
        ra_quarantined := ra_quarantined acc @ vb_quarantined ?v\<rparr>"
    have ex: "\<exists>p. window_accounted E cfg lookup w p \<and> add_part p acc acc'"
      if "grounded E w (vb_valid ?v) good issues" "ra_extracted acc' = ra_extracted acc @ [b]"
        "ra_supported acc' = ra_supported acc @ good" "ra_rejected acc' = ra_rejected acc @ vb_rejected ?v"
        "ra_quarantined acc' = ra_quarantined acc @ vb_quarantined ?v @ issues" for good issues
      by (rule exI [of _ "\<lparr>wp_batch = Some b, wp_supported = good, wp_rejected = vb_rejected ?v,
            wp_quarantined = vb_quarantined ?v @ issues\<rparr>"])
         (use that in \<open>simp add: window_accounted_def add_part_def validate_extraction_verdicts\<close>)
    have none: "grounded E w [] [] []" by (simp add: grounded_def)
    consider "eb_raw_memories b = []" | "eb_raw_memories b \<noteq> []" "vb_valid ?v = []"
      | "eb_raw_memories b \<noteq> []" "vb_valid ?v \<noteq> []" by blast
    then show ?thesis
    proof cases
      case 1
      then have "acc' = ?acc\<lparr>ra_empty_windows := ra_empty_windows ?acc + 1\<rparr>"
        using assms x Inr bc by (simp add: run_window_def Let_def)
      then show ?thesis using ex [of "[]" "[]"] none 1 by (simp add: validate_extraction_def)
    next
      case 2
      then have "acc' = ?acc2" using assms x Inr bc by (simp add: run_window_def Let_def)
      then show ?thesis using ex [of "[]" "[]"] none 2(2) by simp
    next
      case 3
      then have g: "ground_window E io cd cfg cache ver lookup w (vb_valid ?v) ?acc2 st1 = (st', Inr acc')"
        using assms x Inr bc by (simp add: run_window_def Let_def)
      from ground_window_result [OF g] obtain good issues where
        "grounded E w (vb_valid ?v) good issues" "ra_supported acc' = ra_supported ?acc2 @ good"
        "ra_quarantined acc' = ra_quarantined ?acc2 @ issues" "ra_rejected acc' = ra_rejected ?acc2"
        "ra_extracted acc' = ra_extracted ?acc2" by blast
      then show ?thesis by (intro ex) simp_all
    qed
  qed
qed

text \<open>The parts of a run, one for each window.\<close>

definition batches :: "window_part list \<Rightarrow> ExtractionBatch list" where
  "batches ps = concat (map (\<lambda>p. case wp_batch p of None \<Rightarrow> [] | Some b \<Rightarrow> [b]) ps)"

lemma run_windows_result:
  assumes "run_windows E io cd cfg cache ext ver lookup ws acc st = (st', Inr acc')"
  shows "\<exists>ps. list_all2 (window_accounted E cfg lookup) ws ps
     \<and> ra_extracted acc' = ra_extracted acc @ batches ps
     \<and> ra_supported acc' = ra_supported acc @ concat (map wp_supported ps)
     \<and> ra_rejected acc' = ra_rejected acc @ concat (map wp_rejected ps)
     \<and> ra_quarantined acc' = ra_quarantined acc @ concat (map wp_quarantined ps)"
  using assms
proof (induction ws arbitrary: acc st)
  case (Cons w ws)
  obtain st1 r where w: "run_window E io cd cfg cache ext ver lookup w acc st = (st1, r)"
    by (cases "run_window E io cd cfg cache ext ver lookup w acc st")
  then obtain acc1 where r: "r = Inr acc1" using Cons.prems(1) by (cases r) auto
  have rest: "run_windows E io cd cfg cache ext ver lookup ws acc1 st1 = (st', Inr acc')"
    using Cons.prems(1) w r by simp
  obtain p where p: "window_accounted E cfg lookup w p" "add_part p acc acc1"
    using run_window_result [OF w [unfolded r]] by blast
  from Cons.IH [OF rest] obtain ps where "list_all2 (window_accounted E cfg lookup) ws ps"
    "ra_extracted acc' = ra_extracted acc1 @ batches ps"
    "ra_supported acc' = ra_supported acc1 @ concat (map wp_supported ps)"
    "ra_rejected acc' = ra_rejected acc1 @ concat (map wp_rejected ps)"
    "ra_quarantined acc' = ra_quarantined acc1 @ concat (map wp_quarantined ps)" by blast
  with p show ?case
    by (intro exI [of _ "p # ps"]) (simp add: add_part_def batches_def)
qed (simp add: batches_def)

lemma accounted_sound:
  assumes "list_all2 (window_accounted E cfg lookup) ws ps" "m \<in> set (concat (map wp_supported ps))"
  shows "\<exists>w \<in> set ws. memory_sound E w lookup (pc_max_memory_chars cfg) m"
  using assms
proof (induction rule: list_all2_induct)
  case (Cons w ws p ps)
  have "memory_sound E w lookup (pc_max_memory_chars cfg) m" if m: "m \<in> set (wp_supported p)"
  proof -
    obtain b issues where b: "wp_batch p = Some b"
      "grounded E w [m. Valid m \<leftarrow> verdicts E cfg lookup w b] (wp_supported p) issues"
      using Cons(1) m by (cases "wp_batch p") (auto simp: window_accounted_def)
    have "m \<in> set (vb_valid (validate_extraction E (eb_raw_memories b) w lookup (pc_max_memory_chars cfg)))"
      using grounded_subset [OF b(2)] m unfolding validate_extraction_verdicts ValidationBatch.simps by (rule subsetD)
    then show ?thesis by (rule validate_extraction_sound)
  qed
  then show ?case using Cons by auto
qed simp

lemma accounted_window_count:
  assumes "window_accounted E cfg lookup w p"
  shows "length (wp_supported p) + length (wp_rejected p) + length (wp_quarantined p)
     = (case wp_batch p of None \<Rightarrow> 1 | Some b \<Rightarrow> length (eb_raw_memories b))"
proof (cases "wp_batch p")
  case (Some b)
  then obtain issues where g: "wp_rejected p = [i. Rejected i \<leftarrow> verdicts E cfg lookup w b]"
    "wp_quarantined p = [i. Quarantined i \<leftarrow> verdicts E cfg lookup w b] @ issues"
    "grounded E w [m. Valid m \<leftarrow> verdicts E cfg lookup w b] (wp_supported p) issues"
    using assms by (auto simp: window_accounted_def)
  have "length (verdicts E cfg lookup w b) = length (eb_raw_memories b)" by (simp add: verdicts_def)
  then show ?thesis
    using Some grounded_length [OF g(3)] verdicts_split [of "verdicts E cfg lookup w b"] unfolding g(1,2) by simp
qed (use assms in \<open>auto simp: window_accounted_def\<close>)

lemma accounted_count:
  assumes "list_all2 (window_accounted E cfg lookup) ws ps"
  shows "length (concat (map wp_supported ps)) + length (concat (map wp_rejected ps))
       + length (concat (map wp_quarantined ps)) + length (batches ps)
     = sum_list (map (\<lambda>b. length (eb_raw_memories b)) (batches ps)) + length ws
     \<and> length (batches ps) \<le> length ws"
  using assms
proof (induction rule: list_all2_induct)
  case (Cons w ws p ps)
  then show ?case using accounted_window_count [OF Cons(1)]
    by (cases "wp_batch p") (simp_all add: batches_def)
qed (simp add: batches_def)


section \<open>The run taken apart\<close>

lemma run_success:
  assumes "run_memory_pipeline E io cd prepared cfg ext ver cache st = (st', Inr run)"
  obtains ms issues eps ws acc where
    "normalize_prepared_memories E prepared = Inr (ms, issues)"
    "build_episodes E ms (pc_episode cfg) = Inr eps"
    "build_windows E eps (message_lookup ms) (pc_window cfg) = Inr ws"
    "run_windows E io cd cfg cache ext ver (message_lookup ms) ws (initial_acc issues) st = (st', Inr acc)"
    "pn_messages run = ms" "pn_windows run = ws" "pn_extracted run = ra_extracted acc"
    "pn_accepted run = accepted_memories E (message_lookup ms) (ra_supported acc)"
    "pn_rejected run = ra_rejected acc" "pn_quarantined run = ra_quarantined acc"
proof -
  obtain ms issues eps ws where p: "prepare_windows E prepared cfg = Inr (ms, issues, eps, ws)"
    using assms by (auto simp: run_memory_pipeline_def split: if_splits sum.splits)
  obtain st1 r where w: "run_windows E io cd cfg cache ext ver (message_lookup ms) ws (initial_acc issues) st = (st1, r)"
    by (cases "run_windows E io cd cfg cache ext ver (message_lookup ms) ws (initial_acc issues) st")
  then obtain acc where r: "r = Inr acc"
    using assms p by (cases r) (auto simp: run_memory_pipeline_def split: if_splits)
  have parts: "normalize_prepared_memories E prepared = Inr (ms, issues)"
    "build_episodes E ms (pc_episode cfg) = Inr eps"
    "build_windows E eps (message_lookup ms) (pc_window cfg) = Inr ws"
    using p by (auto simp: prepare_windows_def split: sum.splits)
  show thesis
    using assms p w r by (intro that [OF parts, of acc])
      (auto simp: run_memory_pipeline_def Let_def split: if_splits sum.splits)
qed

lemma initial_simps [simp]:
  "ra_extracted (initial_acc issues) = []" "ra_supported (initial_acc issues) = []"
  "ra_rejected (initial_acc issues) = issues" "ra_quarantined (initial_acc issues) = []"
  by (simp_all add: initial_acc_def)

lemma run_parts:
  assumes "run_memory_pipeline E io cd prepared cfg ext ver cache st = (st', Inr run)"
  obtains vs ms issues eps ps where
    "normalize_prepared_memories E prepared = Inr (ms, issues)"
    "source_records prepared = Inr vs" "normalize_records E [] 0 vs = Inr (ms, issues)"
    "build_episodes E ms (pc_episode cfg) = Inr eps"
    "build_windows E eps (message_lookup ms) (pc_window cfg) = Inr (pn_windows run)"
    "pn_messages run = ms"
    "list_all2 (window_accounted E cfg (message_lookup ms)) (pn_windows run) ps"
    "pn_extracted run = batches ps"
    "pn_accepted run = accepted_memories E (message_lookup ms) (concat (map wp_supported ps))"
    "pn_rejected run = issues @ concat (map wp_rejected ps)"
    "pn_quarantined run = concat (map wp_quarantined ps)"
  using assms
proof (rule run_success)
  fix ms issues eps ws acc
  assume r: "normalize_prepared_memories E prepared = Inr (ms, issues)"
    "build_episodes E ms (pc_episode cfg) = Inr eps"
    "build_windows E eps (message_lookup ms) (pc_window cfg) = Inr ws"
    "run_windows E io cd cfg cache ext ver (message_lookup ms) ws (initial_acc issues) st = (st', Inr acc)"
    "pn_messages run = ms" "pn_windows run = ws" "pn_extracted run = ra_extracted acc"
    "pn_accepted run = accepted_memories E (message_lookup ms) (ra_supported acc)"
    "pn_rejected run = ra_rejected acc" "pn_quarantined run = ra_quarantined acc"
  obtain vs where vs: "source_records prepared = Inr vs" "normalize_records E [] 0 vs = Inr (ms, issues)"
    using r(1) by (auto simp: normalize_prepared_memories_def split: if_splits sum.splits)
  obtain ps where ps: "list_all2 (window_accounted E cfg (message_lookup ms)) ws ps"
    "ra_extracted acc = batches ps" "ra_supported acc = concat (map wp_supported ps)"
    "ra_rejected acc = issues @ concat (map wp_rejected ps)"
    "ra_quarantined acc = concat (map wp_quarantined ps)"
    using run_windows_result [OF r(4)] by auto
  show thesis
    by (rule that [OF r(1) vs r(2) r(3) [folded r(6)] r(5) ps(1) [folded r(6)] r(7) [unfolded ps(2)]
          r(8) [unfolded ps(3)] r(9) [unfolded ps(4)] r(10) [unfolded ps(5)]])
qed


section \<open>Evidence of the accepted memories\<close>

lemma attach_evidence: "map am_evidence (attach_source_observations E ms lookup) = map am_evidence ms"
  by (simp add: attach_source_observations_def)

lemma attach_simps [simp]:
  "content_key E (m\<lparr>am_observation_refs := obs\<rparr>) = content_key E m"
  by (simp add: content_key_def canonical_content_def)

lemma attached:
  "m \<in> set (attach_source_observations E ms lookup)
   \<longleftrightarrow> (\<exists>u \<in> set ms. m = u\<lparr>am_observation_refs :=
          extend_unique (observation_key E) (am_observation_refs u) (source_observations u lookup)\<rparr>)"
  by (auto simp: attach_source_observations_def)

text \<open>Each item of the evidence of an accepted memory comes from a supported memory with its content key,
  and one supported memory with its scope brings all its own evidence along.\<close>

lemma accepted_evidence:
  assumes "v \<in> set (accepted_memories E lookup supported)"
  shows "\<exists>u \<in> set supported. am_scope_id u = am_scope_id v
      \<and> evidence_key ` set (am_evidence u) \<subseteq> evidence_key ` set (am_evidence v)"
    and "ev \<in> set (am_evidence v)
      \<Longrightarrow> \<exists>u \<in> set supported. content_key E u = content_key E v \<and> ev \<in> set (am_evidence u)"
proof -
  let ?at = "attach_source_observations E supported lookup"
  let ?copies = "{m \<in> set ?at. content_key E m = content_key E v}"
  have v: "v \<in> set (aggregate_exact_memories E ?at)" using assms by (simp add: accepted_memories_def)
  have ok: "entry_ok E ?at (content_key E v) v" using aggregate_result [of E ?at] v by (auto simp: list_all_iff)
  have keys: "evidence_key ` set (am_evidence v) = evidence_key ` (\<Union>m \<in> ?copies. set (am_evidence m))"
    using ok unfolding entry_ok_def by (elim conjE)
  have items: "set (am_evidence v) \<subseteq> (\<Union>m \<in> ?copies. set (am_evidence m))"
    using ok unfolding entry_ok_def by (elim conjE)
  from aggregate_scope [OF v] obtain m where m: "m \<in> ?copies" "am_scope_id m = am_scope_id v" by auto
  have "evidence_key ` set (am_evidence m) \<subseteq> evidence_key ` set (am_evidence v)"
    unfolding keys by (rule image_mono, rule UN_upper, rule m(1))
  then show "\<exists>u \<in> set supported. am_scope_id u = am_scope_id v
      \<and> evidence_key ` set (am_evidence u) \<subseteq> evidence_key ` set (am_evidence v)"
    using m unfolding mem_Collect_eq attached by auto
  assume "ev \<in> set (am_evidence v)"
  with items obtain m where "m \<in> ?copies" "ev \<in> set (am_evidence m)" by blast
  then show "\<exists>u \<in> set supported. content_key E u = content_key E v \<and> ev \<in> set (am_evidence u)"
    unfolding mem_Collect_eq attached by auto
qed

lemma accepted_nonempty: "supported \<noteq> [] \<Longrightarrow> \<exists>v. v \<in> set (accepted_memories E lookup supported)"
proof -
  assume "supported \<noteq> []"
  let ?at = "attach_source_observations E supported lookup"
  have "?at \<noteq> []" using \<open>supported \<noteq> []\<close> by (simp add: attach_source_observations_def)
  then have "set (unique_from {} (map (content_key E) ?at)) \<noteq> {}" by simp
  then have "set (map (content_key E) (aggregate_exact_memories E ?at)) \<noteq> {}"
    using aggregate_result [of E ?at] by simp
  then show ?thesis by (auto simp: accepted_memories_def ex_in_conv)
qed

lemma candidate_ref_eligible:
  assumes "build_windows E eps (message_lookup ms) cfg = Inr ws" "w \<in> set ws"
    and "r \<in> set (wi_candidate_refs w)" "distinct (map nm_id ms)"
  shows "\<exists>m \<in> set ms. nm_id m = mr_message_id r \<and> nm_candidate_eligible m"
proof -
  have "r \<in> set (episode_slices (message_lookup ms) (wc_max_candidate cfg) (concat (map ep_message_ids eps)))"
  proof -
    have "r \<in> set (concat (map wi_candidate_refs ws))" using assms(2,3) by auto
    then show ?thesis using build_windows_result [OF assms(1)] by simp
  qed
  then have "\<exists>i m. message_lookup ms i = Some m \<and> nm_candidate_eligible m
      \<and> r \<in> set (slice_message m (wc_max_candidate cfg))"
    by (auto simp: episode_slices_def split: option.splits if_splits) metis
  then obtain i m where m: "message_lookup ms i = Some m" "nm_candidate_eligible m"
      "r \<in> set (slice_message m (wc_max_candidate cfg))" by blast
  have "mr_message_id r = nm_id m"
    using slice_message_limit [OF build_windows_config(1) [OF assms(1)] m(3)] by auto
  then show ?thesis using m message_lookup_Some [OF assms(4)] by auto
qed

text \<open>What a window shows has the scope of the window.\<close>

lemma window_scope:
  assumes "build_episodes E ms ecfg = Inr eps" "build_windows E eps (message_lookup ms) wcfg = Inr ws"
    and "w \<in> set ws" "distinct (map nm_id ms)"
    and "r \<in> set (window_refs w)" "m \<in> set ms" "nm_id m = mr_message_id r"
  shows "nm_scope_id m = wi_scope_id w"
proof -
  note cfg = build_windows_config [OF assms(2)]
  obtain ep where ep: "ep \<in> set eps" "window_of (message_lookup ms) ep w"
    using windows_of_episodes [OF cfg(1,3)] assms(3) by blast
  then obtain i m' where i: "i \<in> set (ep_message_ids ep)" "message_lookup ms i = Some m'" "mr_message_id r = nm_id m'"
    and sc: "wi_scope_id w = ep_scope_id ep"
    using assms(5) unfolding window_of_def window_refs_def by blast
  have id: "nm_id m \<in> set (ep_message_ids ep)"
    using i assms(7) message_lookup_Some [OF assms(4)] by auto
  obtain gs where gs: "concat gs = ms" "list_all2 (episode_of E ecfg) gs eps"
    "list_all2 (\<lambda>g e. \<forall>m \<in> set g. nm_scope_id m = ep_scope_id e \<and> nm_session_id m = ep_session_id e) gs eps"
    using build_episodes_result [OF assms(1)] by blast
  obtain k where k: "k < length eps" "eps ! k = ep" using ep(1) by (metis in_set_conv_nth)
  have len: "length gs = length eps" using gs(2) by (rule list_all2_lengthD)
  have "ep_message_ids (eps ! k) = map nm_id (gs ! k)"
    using list_all2_nthD2 [OF gs(2) k(1)] by (simp add: episode_of_ids)
  then obtain m2 where m2: "m2 \<in> set (gs ! k)" "nm_id m2 = nm_id m" using id k(2) by auto
  have "m2 \<in> set ms" using m2(1) gs(1) k(1) len by (auto intro!: bexI [of _ "gs ! k"])
  then have "m2 = m" using m2(2) assms(4,6) by (metis distinct_map inj_onD)
  then show ?thesis using list_all2_nthD2 [OF gs(3) k(1)] m2(1) k(2) sc by simp
qed

section \<open>A run of the sample document\<close>

definition ok_io :: io_env where
  "ok_io = \<lparr>io_error = (\<lambda>_. None), io_written = (\<lambda>_. 0), io_pid = 7\<rparr>"

definition sample_codec :: codec where
  "sample_codec = \<lparr>cd_batch = (\<lambda>_. Inl []), cd_grounding = (\<lambda>_. Inl [])\<rparr>"

definition sample_payload :: json where
  "sample_payload = JObject [(lit ''memories'', JArray [JObject sample_object]),
     (lit ''schema_version'', JString SCHEMA_VERSION)]"

definition sample_extractor :: "unit MemoryExtractor" where
  "sample_extractor = static_extractor sample_env [wi_id sample_window \<mapsto> sample_payload]"

definition sample_verifier :: "unit GroundingVerifier" where
  "sample_verifier = static_verifier sample_env [am_id sample_memory \<mapsto> JString (lit ''SUPPORTED'')]"

definition sample_state :: "(unit, unit) run_state" where
  "sample_state = \<lparr>rs_files = (Map.empty, 0), rs_ext = (), rs_ver = ()\<rparr>"

lemma sample_validated_one:
  "validate_extraction sample_env [JObject sample_object] sample_window sample_lookup 500
   = \<lparr>vb_valid = [sample_memory], vb_rejected = [], vb_quarantined = []\<rparr>"
  by (simp add: validate_extraction_def sample_memory_valid)

lemma sample_lookup_messages: "message_lookup [sample_message] = sample_lookup"
  by (simp add: message_lookup_def sample_lookup_def sample_message_def)

lemma sample_extracted:
  "ex_extract sample_extractor sample_window lookup s
   = (s, Inr \<lparr>eb_window_id = wi_id sample_window, eb_schema_version = SCHEMA_VERSION,
        eb_raw_memories = [JObject sample_object], eb_usage = default_usage, eb_raw_response = []\<rparr>)"
  by (simp add: sample_extractor_def static_extractor_def static_extract_def batch_from_payload_def
      sample_payload_def Let_def)

lemma sample_verified:
  "gv_verify sample_verifier w [sample_memory] lookup s
   = (s, Inr \<lparr>gb_window_id = wi_id w, gb_results = [\<lparr>gr_memory_id = am_id sample_memory,
        gr_status = lit ''SUPPORTED'', gr_reason = []\<rparr>], gb_usage = default_usage, gb_raw_response = []\<rparr>)"
  by (simp add: sample_verifier_def static_verifier_def static_verify_def static_result_def
      validate_status_def STATUSES_def)

lemma sample_run_windows:
  "\<exists>acc. run_windows sample_env ok_io sample_codec default_pipeline_config None sample_extractor sample_verifier
      sample_lookup [sample_window] (initial_acc issues) sample_state = (sample_state, Inr acc)
    \<and> ra_supported acc = [sample_memory] \<and> ra_quarantined acc = [] \<and> ra_rejected acc = issues"
  by (simp add: run_window_def extract_cached_def lookup_cached_def store_cached_def sample_extracted
      default_pipeline_config_def sample_validated_one ground_window_def verify_cached_def sample_verified
      results_map_def Let_def)

lemma sample_run:
  obtains run where "run_memory_pipeline sample_env ok_io sample_codec sample_document
      default_pipeline_config sample_extractor sample_verifier None sample_state = (sample_state, Inr run)"
    "pn_accepted run = accepted_memories sample_env sample_lookup [sample_memory]"
    "pn_quarantined run = []" "pn_windows run = [sample_window]"
proof -
  have p: "prepare_windows sample_env sample_document default_pipeline_config
      = Inr ([sample_message], [normalize_issue ''invalid_source_record''
               ''source memory must be an object'' [] []], [sample_episode], [sample_window])"
    using sample_window_built
    by (simp add: prepare_windows_def sample_normalized build_episodes_def default_pipeline_config_def
        default_episode_config_def sample_episode_def sample_lookup_messages)
  have sch: "prepared_schema sample_document"
    by (simp add: prepared_schema_def sample_document_def)
  obtain acc where "run_windows sample_env ok_io sample_codec default_pipeline_config None sample_extractor
      sample_verifier sample_lookup [sample_window] (initial_acc [normalize_issue ''invalid_source_record''
               ''source memory must be an object'' [] []]) sample_state = (sample_state, Inr acc)"
    "ra_supported acc = [sample_memory]" "ra_quarantined acc = []"
    using sample_run_windows by blast
  with p sch show thesis
    by (intro that) (auto simp: run_memory_pipeline_def default_pipeline_config_def [of ] Let_def
        sample_lookup_messages make_prepared_output_def)
qed

section \<open>Statements\<close>

text \<open>A message that an item of evidence quotes verbatim at its offsets.\<close>

definition quotes :: "NormalizedMessage \<Rightarrow> EvidenceRef \<Rightarrow> bool" where
  "quotes m ev \<longleftrightarrow> nm_id m = ev_message_id ev \<and> ev_start ev < ev_end ev \<and> ev_end ev \<le> length (nm_text m)
     \<and> char_slice (nm_text m) (ev_start ev) (ev_end ev) = ev_quote ev"

lemma evidence_quotes:
  assumes "build_episodes E ms ecfg = Inr eps" "build_windows E eps (message_lookup ms) wcfg = Inr ws"
    and "w \<in> set ws" "distinct (map nm_id ms)" "evidence_sound w (message_lookup ms) ev"
  shows "\<exists>m \<in> set ms. quotes m ev \<and> nm_scope_id m = wi_scope_id w"
proof -
  obtain m where m: "message_lookup ms (ev_message_id ev) = Some m" "ev_start ev < ev_end ev"
    "ev_end ev \<le> length (nm_text m)" "char_slice (nm_text m) (ev_start ev) (ev_end ev) = ev_quote ev"
    "shown w (ev_message_id ev) (ev_start ev) (ev_end ev)"
    using assms(5) unfolding evidence_sound_def by blast
  then have "ev_start ev \<in> spans_set (message_spans (ev_message_id ev) (window_refs w))"
    unfolding shown_def by auto
  then obtain r where "r \<in> set (window_refs w)" "mr_message_id r = ev_message_id ev"
    unfolding spans_set_message by blast
  moreover have "m \<in> set ms" "nm_id m = ev_message_id ev"
    using m(1) message_lookup_Some [OF assms(4)] by auto
  ultimately show ?thesis
    using window_scope [OF assms(1-4)] m by (metis quotes_def)
qed

text \<open>C12: Every accepted memory is traceable to the document, whatever a model returns: each item of its
  evidence is a verbatim quotation, at its recorded offsets, of a message of the run; that message
  carries the id, the text and the scope of the record of the document its source index names; and
  the item comes from a memory with the same content key as the accepted one, whose scope is the
  message's. At least one item is marked primary and quotes a message that is eligible as a source of
  memories and belongs to the scope of the accepted memory.\<close>

theorem accepted_memories_quote_document:
  assumes "run_memory_pipeline E io cd prepared cfg ext ver cache st = (st', Inr run)"
    and "source_records prepared = Inr vs"
    and "v \<in> set (pn_accepted run)"
  shows "(\<forall>ev \<in> set (am_evidence v). \<exists>m \<in> set (pn_messages run). quotes m ev
            \<and> nm_source_index m < length vs \<and> message_of_record E m (vs ! nm_source_index m)
            \<and> (\<exists>u. content_key E u = content_key E v \<and> ev \<in> set (am_evidence u) \<and> nm_scope_id m = am_scope_id u))
     \<and> (\<exists>ev \<in> set (am_evidence v). ev_role ev = lit ''primary''
          \<and> (\<exists>m \<in> set (pn_messages run). nm_id m = ev_message_id ev \<and> nm_candidate_eligible m
               \<and> nm_scope_id m = am_scope_id v))"
  using assms(1)
proof (rule run_parts)
  fix vs' ms issues eps ps
  assume R: "source_records prepared = Inr vs'" "normalize_records E [] 0 vs' = Inr (ms, issues)"
    "build_episodes E ms (pc_episode cfg) = Inr eps"
    "build_windows E eps (message_lookup ms) (pc_window cfg) = Inr (pn_windows run)"
    "pn_messages run = ms"
    "list_all2 (window_accounted E cfg (message_lookup ms)) (pn_windows run) ps"
    "pn_accepted run = accepted_memories E (message_lookup ms) (concat (map wp_supported ps))"
  note N = normalize_records_result [OF R(2)]
  then have d: "distinct (map nm_id ms)" by blast
  have records: "nm_source_index m < length vs \<and> message_of_record E m (vs ! nm_source_index m)" if "m \<in> set ms" for m
    using N R(1) assms(2) that by auto
  note acc = accepted_evidence [OF assms(3) [unfolded R(7)]]
  have window: "\<exists>w \<in> set (pn_windows run). memory_sound E w (message_lookup ms) (pc_max_memory_chars cfg) u"
    if "u \<in> set (concat (map wp_supported ps))" for u by (rule accounted_sound [OF R(6) that])
  have "\<exists>m \<in> set ms. quotes m ev \<and> (\<exists>u. content_key E u = content_key E v \<and> ev \<in> set (am_evidence u)
      \<and> nm_scope_id m = am_scope_id u)" if e: "ev \<in> set (am_evidence v)" for ev
  proof -
    obtain u where u: "u \<in> set (concat (map wp_supported ps))" "content_key E u = content_key E v" "ev \<in> set (am_evidence u)"
      using acc(2) [OF e] by blast
    obtain w where w: "w \<in> set (pn_windows run)" "evidence_sound w (message_lookup ms) ev" "am_scope_id u = wi_scope_id w"
      using window [OF u(1)] u(3) unfolding memory_sound_def by blast
    from evidence_quotes [OF R(3,4) w(1) d w(2)] u(2,3) w(3) show ?thesis by metis
  qed
  then have all: "\<forall>ev \<in> set (am_evidence v). \<exists>m \<in> set (pn_messages run). quotes m ev
      \<and> nm_source_index m < length vs \<and> message_of_record E m (vs ! nm_source_index m)
      \<and> (\<exists>u. content_key E u = content_key E v \<and> ev \<in> set (am_evidence u) \<and> nm_scope_id m = am_scope_id u)"
    unfolding R(5) using records by blast
  from acc(1) obtain u where u: "u \<in> set (concat (map wp_supported ps))" "am_scope_id u = am_scope_id v"
    "evidence_key ` set (am_evidence u) \<subseteq> evidence_key ` set (am_evidence v)" by blast
  then obtain w where w: "w \<in> set (pn_windows run)" "memory_sound E w (message_lookup ms) (pc_max_memory_chars cfg) u"
    using window by blast
  then obtain ev where ev: "ev \<in> set (am_evidence u)" "ev_role ev = lit ''primary''"
    "{ev_start ev..<ev_end ev} \<subseteq> spans_set (message_spans (ev_message_id ev) (wi_candidate_refs w))"
    "evidence_sound w (message_lookup ms) ev" "am_scope_id u = wi_scope_id w"
    unfolding memory_sound_def by blast
  obtain m where m: "m \<in> set ms" "quotes m ev" "nm_scope_id m = wi_scope_id w"
    using evidence_quotes [OF R(3,4) w(1) d ev(4)] by blast
  have "ev_start ev \<in> spans_set (message_spans (ev_message_id ev) (wi_candidate_refs w))"
    using ev(3) m(2) unfolding quotes_def by auto
  then obtain r where "r \<in> set (wi_candidate_refs w)" "mr_message_id r = ev_message_id ev"
    unfolding spans_set_message by blast
  then obtain m' where "m' \<in> set ms" "nm_id m' = ev_message_id ev" "nm_candidate_eligible m'"
    using candidate_ref_eligible [OF R(4) w(1) _ d] by metis
  moreover from this have "m' = m" using m(1,2) d unfolding quotes_def by (metis distinct_map inj_onD)
  ultimately have el: "m \<in> set ms \<and> nm_id m = ev_message_id ev \<and> nm_candidate_eligible m \<and> nm_scope_id m = am_scope_id v"
    using m(3) ev(5) u(2) by simp
  obtain ev' where "ev' \<in> set (am_evidence v)" "evidence_key ev' = evidence_key ev"
    using u(3) ev(1) by (metis imageE image_eqI subsetD)
  then have "ev' \<in> set (am_evidence v) \<and> ev_role ev' = lit ''primary'' \<and> (\<exists>m \<in> set (pn_messages run).
      nm_id m = ev_message_id ev' \<and> nm_candidate_eligible m \<and> nm_scope_id m = am_scope_id v)"
    using el ev(2) unfolding evidence_key_def prod.inject R(5) by metis
  then show ?thesis using all by blast
qed

theorem accepted_memories_quote_document_witness:
  "\<exists>v ev m. v \<in> set (accepted_memories sample_env sample_lookup [sample_memory]) \<and> ev \<in> set (am_evidence v)
     \<and> quotes m ev \<and> message_of_record sample_env m (sample_records ! nm_source_index m)"
proof -
  obtain run where r: "run_memory_pipeline sample_env ok_io sample_codec sample_document
      default_pipeline_config sample_extractor sample_verifier None sample_state = (sample_state, Inr run)"
    "pn_accepted run = accepted_memories sample_env sample_lookup [sample_memory]"
    by (rule sample_run)
  have rec: "source_records sample_document = Inr sample_records"
    by (simp add: source_records_def sample_document_def)
  have "\<exists>v. v \<in> set (pn_accepted run)" unfolding r(2) by (rule accepted_nonempty) simp
  then obtain v where v: "v \<in> set (pn_accepted run)" ..
  note Q = accepted_memories_quote_document [OF r(1) rec v]
  from conjunct2 [OF Q] obtain ev where ev: "ev \<in> set (am_evidence v)" by (rule bexE)
  from bspec [OF conjunct1 [OF Q] ev] obtain m where
    "quotes m ev" "message_of_record sample_env m (sample_records ! nm_source_index m)" by (elim bexE conjE) (rule that)
  with v ev show ?thesis unfolding r(2) by (intro exI conjI)
qed

text \<open>C13: The run accounts for everything the model returned and everything it skipped, window by window.
  A window was either skipped after an error, with one rejected issue of its own, or its batch is recorded
  and every raw memory of it, in order, got the one verdict of its validation: a rejected issue, a
  quarantined issue, or a valid memory that the verifier then supported or that is quarantined with an
  issue under its own id. The outputs are these shares put together in the order of the windows, the
  rejected ones after the issues of normalization, the accepted memories merged from the supported ones,
  and nothing else; so their numbers add up.\<close>

theorem run_accounts_for_candidates:
  assumes "run_memory_pipeline E io cd prepared cfg ext ver cache st = (st', Inr run)"
    and "normalize_prepared_memories E prepared = Inr (ms, issues)"
  shows "\<exists>ps. list_all2 (window_accounted E cfg (message_lookup ms)) (pn_windows run) ps
     \<and> pn_extracted run = batches ps
     \<and> pn_accepted run = accepted_memories E (message_lookup ms) (concat (map wp_supported ps))
     \<and> pn_rejected run = issues @ concat (map wp_rejected ps)
     \<and> pn_quarantined run = concat (map wp_quarantined ps)
     \<and> length (concat (map wp_supported ps)) + length (pn_rejected run) + length (pn_quarantined run)
       = sum_list (map (\<lambda>b. length (eb_raw_memories b)) (pn_extracted run))
         + (length (pn_windows run) - length (pn_extracted run)) + length issues"
  using assms(1)
proof (rule run_parts)
  fix ms' issues' ps
  assume R: "normalize_prepared_memories E prepared = Inr (ms', issues')"
    "list_all2 (window_accounted E cfg (message_lookup ms')) (pn_windows run) ps"
    "pn_extracted run = batches ps"
    "pn_accepted run = accepted_memories E (message_lookup ms') (concat (map wp_supported ps))"
    "pn_rejected run = issues' @ concat (map wp_rejected ps)"
    "pn_quarantined run = concat (map wp_quarantined ps)"
  then have eq: "ms' = ms" "issues' = issues" using assms(2) by auto
  have "length (concat (map wp_supported ps)) + length (pn_rejected run) + length (pn_quarantined run)
      = sum_list (map (\<lambda>b. length (eb_raw_memories b)) (pn_extracted run))
        + (length (pn_windows run) - length (pn_extracted run)) + length issues"
    using accounted_count [OF R(2)] unfolding R(3,5,6) eq length_append by arith
  with R(2-6) show ?thesis unfolding eq by (intro exI [of _ ps] conjI)
qed

theorem run_accounts_for_candidates_witness:
  "\<exists>run ps. snd (run_memory_pipeline sample_env ok_io sample_codec sample_document default_pipeline_config
       sample_extractor sample_verifier None sample_state) = Inr run
     \<and> list_all2 (window_accounted sample_env default_pipeline_config (message_lookup [sample_message]))
         [sample_window] ps
     \<and> pn_accepted run = accepted_memories sample_env (message_lookup [sample_message]) (concat (map wp_supported ps))"
proof -
  obtain run where r: "run_memory_pipeline sample_env ok_io sample_codec sample_document
      default_pipeline_config sample_extractor sample_verifier None sample_state = (sample_state, Inr run)"
    "pn_windows run = [sample_window]"
    by (rule sample_run)
  have "snd (run_memory_pipeline sample_env ok_io sample_codec sample_document default_pipeline_config
       sample_extractor sample_verifier None sample_state) = Inr run" by (simp only: r(1) snd_conv)
  with run_accounts_for_candidates [OF r(1) sample_normalized] show ?thesis unfolding r(2) by blast
qed

end
