(* ===== verification/PipeRunMore.thy ===== *)
theory PipeRunMore
  imports PipeRunProps
begin

text \<open>
  Further properties of the run: it completes when it may skip windows, it fails when a window repeats
  a memory, a cached call is replayed, and the coverage it reports.
\<close>

section \<open>Completion\<close>

context verification_contract
begin

lemma results_found:
  assumes "verify_window w memories lookup s = (s', Inr b)" "m \<in> set memories"
  shows "results_map (gb_results b) (am_id m) \<noteq> None"
proof -
  obtain r where "r \<in> set (gb_results b)" "gr_memory_id r = am_id m"
    using no_omission [OF assms] by metis
  then have "am_id m \<in> fst ` set (rev (map (\<lambda>r. (gr_memory_id r, r)) (gb_results b)))" by force
  then show ?thesis unfolding results_map_def by (simp only: map_of_eq_None_iff not_not)
qed

end

lemma ground_memories_total:
  assumes "\<forall>m \<in> set ms. results (am_id m) \<noteq> None"
  shows "\<exists>acc'. ground_memories E results ms acc = Inr acc'"
  using assms
proof (induction ms arbitrary: acc)
  case (Cons m ms)
  then obtain r where "results (am_id m) = Some r" by auto
  then show ?case using Cons by (simp add: Let_def)
qed simp

lemma verify_uncached:
  assumes "verify_cached E io cd None ver w valid lookup st = (st', Inr (b, cached))"
  shows "\<exists>t'. gv_verify ver w valid lookup (rs_ver st) = (t', Inr b)"
  using assms
  by (auto simp: verify_cached_def lookup_cached_def store_cached_def Let_def split: prod.splits sum.splits)

lemma ground_window_total:
  assumes "verification_contract (gv_verify ver)" "\<not> pc_fail_fast cfg"
  shows "\<exists>st' acc'. ground_window E io cd cfg None ver lookup w valid acc st = (st', Inr acc')"
proof -
  obtain st1 r where v: "verify_cached E io cd None ver w valid lookup st = (st1, r)"
    by (cases "verify_cached E io cd None ver w valid lookup st")
  show ?thesis
  proof (cases r)
    case (Inl e)
    then show ?thesis using v assms(2) by (simp add: ground_window_def)
  next
    case (Inr bc)
    obtain b cached where bc: "bc = (b, cached)" by (cases bc)
    obtain t' where "gv_verify ver w valid lookup (rs_ver st) = (t', Inr b)"
      using verify_uncached v Inr bc by metis
    then have "\<forall>m \<in> set valid. results_map (gb_results b) (am_id m) \<noteq> None"
      using verification_contract.results_found [OF assms(1)] by metis
    then show ?thesis using v Inr bc ground_memories_total by (simp add: ground_window_def)
  qed
qed

lemma run_windows_total:
  assumes "verification_contract (gv_verify ver)" "\<not> pc_fail_fast cfg"
  shows "\<exists>st' acc'. run_windows E io cd cfg None ext ver lookup ws acc st = (st', Inr acc')"
proof (induction ws arbitrary: acc st)
  case (Cons w ws)
  have "\<exists>st' acc'. run_window E io cd cfg None ext ver lookup w acc st = (st', Inr acc')"
    using ground_window_total [OF assms] assms(2)
    by (auto simp: run_window_def Let_def split: prod.split sum.split)
  then show ?case using Cons by fastforce
qed simp

lemma run_completes:
  assumes "verification_contract (gv_verify ver)" "\<not> pc_fail_fast cfg" "0 < pc_max_memory_chars cfg"
    and "prepare_windows E prepared cfg = Inr p"
  shows "\<exists>st' run. run_memory_pipeline E io cd prepared cfg ext ver None st = (st', Inr run)"
proof -
  obtain ms issues eps ws where p: "p = (ms, issues, eps, ws)" by (metis prod.exhaust)
  have "prepared_schema prepared"
    using assms(4) by (auto simp: prepare_windows_def normalize_prepared_memories_def split: sum.splits if_splits)
  moreover obtain st' acc where "run_windows E io cd cfg None ext ver (message_lookup ms) ws (initial_acc issues) st
      = (st', Inr acc)" using run_windows_total [OF assms(1,2)] by metis
  ultimately show ?thesis
    using assms(3,4) p by (simp add: run_memory_pipeline_def make_prepared_output_def Let_def)
qed

text \<open>C14: With \<open>fail_fast\<close> off and no cache, a run over the chat extractor and the chat verifier with a positive limit
  on the length of a memory always completes once the windows are built: whatever the provider answers or
  refuses to answer - errors, garbage, missing or repeated results - becomes issues of the run, never a
  failure of it. The cache is left out: a cached answer of another verifier can omit a memory, which fails the
  run in any mode.\<close>

theorem tolerant_run_completes:
  assumes "\<not> pc_fail_fast cfg" "0 < pc_max_memory_chars cfg" "prepare_windows E prepared cfg = Inr p"
  shows "\<exists>st' run. run_memory_pipeline E io cd prepared cfg (llm_extractor E http xs) (llm_verifier E http vs)
     None st = (st', Inr run)"
proof (rule run_completes [OF _ assms])
  have "gv_verify (llm_verifier E http vs) = llm_verify E http vs" by (simp add: llm_verifier_def)
  then show "verification_contract (gv_verify (llm_verifier E http vs))"
    using llm_ver.verification_contract_axioms by metis
qed

theorem tolerant_run_completes_witness:
  "\<forall>st. \<exists>st' run. run_memory_pipeline sample_env ok_io sample_codec sample_document
     (default_pipeline_config\<lparr>pc_fail_fast := False\<rparr>)
     (llm_extractor sample_env (\<lambda>n p. SendError []) (new_llm_extractor sample_client []))
     (llm_verifier sample_env (\<lambda>n p. SendError []) (new_llm_verifier sample_client [])) None st = (st', Inr run)"
proof
  fix st :: "(client_state, client_state) run_state"
  have p: "prepare_windows sample_env sample_document (default_pipeline_config\<lparr>pc_fail_fast := False\<rparr>)
      = Inr ([sample_message], [normalize_issue ''invalid_source_record''
               ''source memory must be an object'' [] []], [sample_episode], [sample_window])"
    using sample_window_built
    by (simp add: prepare_windows_def sample_normalized build_episodes_def default_pipeline_config_def
        default_episode_config_def sample_episode_def sample_lookup_messages)
  show "\<exists>st' run. run_memory_pipeline sample_env ok_io sample_codec sample_document
     (default_pipeline_config\<lparr>pc_fail_fast := False\<rparr>)
     (llm_extractor sample_env (\<lambda>n p. SendError []) (new_llm_extractor sample_client []))
     (llm_verifier sample_env (\<lambda>n p. SendError []) (new_llm_verifier sample_client [])) None st = (st', Inr run)"
    by (rule tolerant_run_completes [OF _ _ p]) (simp_all add: default_pipeline_config_def)
qed


section \<open>A memory stated twice in a window\<close>

lemma llm_verify_distinct:
  assumes "llm_verify E http ls w memories lookup cs = (cs', Inr b)" "memories \<noteq> []"
  shows "distinct (map am_id memories)"
proof -
  obtain k res cs1 cs2 res' where
    "repair_loop E http ls grounding_output_spec (read_results E memories) k res cs1
       = (cs2, Inr (res', Inr (gb_results b)))"
    using assms by (auto simp: llm_verify_def split: sum.splits prod.splits)
  then have "read_results E memories (cr_content res') = Inr (gb_results b)" by (rule repair_loop_read)
  then show ?thesis
    using parse_grounding_results_sound by (auto simp: read_results_def split: sum.splits)
qed

text \<open>C22: If the model states one memory twice in a window - two raw memories that validate to the same
  memory - the chat verifier rejects the window whatever the provider answers, because the two
  share their content hash as id: with \<open>fail_fast\<close> the whole run fails, although exact duplicates
  are what the aggregation stage merges.\<close>

theorem repeated_memory_aborts_run:
  assumes "extract_cached E io cd None ext w lookup st = (st1, Inr (b, cached))"
    and "eb_raw_memories b = [raw, raw]"
    and "\<forall>idx. validate_memory E w lookup (pc_max_memory_chars cfg) idx raw = Valid m"
    and "pc_fail_fast cfg"
  shows "\<exists>st' e. run_window E io cd cfg None ext (llm_verifier E http ls) lookup w acc st = (st', Inl e)"
proof -
  have valid: "vb_valid (validate_extraction E (eb_raw_memories b) w lookup (pc_max_memory_chars cfg)) = [m, m]"
    using assms(2,3) by (simp add: validate_extraction_def)
  obtain st2 r where v: "verify_cached E io cd None (llm_verifier E http ls) w [m, m] lookup st1 = (st2, r)"
    by (cases "verify_cached E io cd None (llm_verifier E http ls) w [m, m] lookup st1")
  obtain e where e: "r = Inl e"
  proof (cases r)
    case (Inr bc)
    then obtain b' t' where "gv_verify (llm_verifier E http ls) w [m, m] lookup (rs_ver st1) = (t', Inr b')"
      using verify_uncached v by (metis prod.exhaust)
    then have "distinct (map am_id [m, m])"
      using llm_verify_distinct [of E http ls w "[m, m]" lookup "rs_ver st1" t' b']
      by (simp add: llm_verifier_def)
    then show thesis by simp
  qed (rule that)
  show ?thesis
    using assms(1,2,4) valid v e by (simp add: run_window_def ground_window_def Let_def)
qed

definition repeating_extractor :: "client_state MemoryExtractor" where
  "repeating_extractor = static_extractor sample_env [wi_id sample_window \<mapsto>
     JObject [(lit ''memories'', JArray [JObject sample_object, JObject sample_object]),
       (lit ''schema_version'', JString SCHEMA_VERSION)]]"

theorem repeated_memory_aborts_run_witness:
  "\<forall>http ls acc st. \<exists>st' e. run_window sample_env ok_io sample_codec default_pipeline_config None repeating_extractor
     (llm_verifier sample_env http ls) sample_lookup sample_window acc st = (st', Inl e)"
proof (intro allI)
  fix http ls acc and st :: "(client_state, client_state) run_state"
  let ?b = "\<lparr>eb_window_id = wi_id sample_window, eb_schema_version = SCHEMA_VERSION,
     eb_raw_memories = [JObject sample_object, JObject sample_object], eb_usage = default_usage,
     eb_raw_response = []\<rparr>"
  have x: "extract_cached sample_env ok_io sample_codec None repeating_extractor sample_window sample_lookup st
      = (st\<lparr>rs_ext := rs_ext st, rs_files := rs_files st\<rparr>, Inr (?b, False))"
    by (simp add: extract_cached_def lookup_cached_def store_cached_def repeating_extractor_def
        static_extractor_def static_extract_def batch_from_payload_def Let_def)
  show "\<exists>st' e. run_window sample_env ok_io sample_codec default_pipeline_config None repeating_extractor
     (llm_verifier sample_env http ls) sample_lookup sample_window acc st = (st', Inl e)"
    by (rule repeated_memory_aborts_run [OF x, where m = sample_memory and raw = "JObject sample_object"])
       (simp_all add: default_pipeline_config_def sample_memory_valid)
qed


section \<open>Replaying a cached call\<close>

text \<open>A stored extraction is replayed: after a call that reached the extractor and was stored, the
  same window with the same messages is answered from the cache with the same batch; the
  extractor is not called again and the files do not change. The reading of JSON and the derived
  deserialisation enter as what they document: they undo the writing of the batch.\<close>

theorem stored_extraction_is_replayed:
  assumes "extract_cached E io cd (Some c) ext w lookup st = (st1, Inr (b, False))"
    and "pe_parse_json E (canonical_json E (batch_value E b)) = Inr v" "cd_batch cd v = Inr b"
    and "\<forall>p. io_error io (ReadAll p) = None" "rs_files st2 = rs_files st1"
  shows "extract_cached E io cd (Some c) ext w lookup st2 = (st2, Inr (b, True))"
proof -
  let ?key = "extraction_key ext w lookup"
  obtain s' where x: "ex_extract ext w lookup (rs_ext st) = (s', Inr b)"
    and st: "store_cached E io (Some c) (lit ''extraction'') ?key (batch_value E b) (rs_files st) = (rs_files st1, Inr ())"
    using assms(1) by (auto simp: extract_cached_def Let_def split: sum.splits option.splits prod.splits)
  then obtain p where "cache_put E io c (lit ''extraction'') ?key (batch_value E b) (rs_files st) = (rs_files st1, Inr p)"
    by (auto simp: store_cached_def split: prod.splits sum.splits)
  from cache_put_get [OF this _ assms(2)] assms(4)
  have "cache_get E io c (lit ''extraction'') ?key (fst (rs_files st1)) = Inr (Some v)" by simp
  then show ?thesis using assms(3,5) by (simp add: extract_cached_def lookup_cached_def Let_def)
qed

definition sample_cache :: JsonCache where
  "sample_cache = \<lparr>jc_root = lit ''cache'', jc_version = lit ''v1''\<rparr>"

definition sample_batch :: ExtractionBatch where
  "sample_batch = \<lparr>eb_window_id = wi_id sample_window, eb_schema_version = SCHEMA_VERSION,
     eb_raw_memories = [JObject sample_object], eb_usage = default_usage, eb_raw_response = []\<rparr>"

theorem stored_extraction_is_replayed_witness:
  "\<exists>st1. extract_cached (sample_env\<lparr>pe_parse_json := \<lambda>_. Inr JNull\<rparr>) ok_io
        (sample_codec\<lparr>cd_batch := \<lambda>_. Inr sample_batch\<rparr>) (Some sample_cache) sample_extractor sample_window
        sample_lookup sample_state = (st1, Inr (sample_batch, False))
     \<and> extract_cached (sample_env\<lparr>pe_parse_json := \<lambda>_. Inr JNull\<rparr>) ok_io
        (sample_codec\<lparr>cd_batch := \<lambda>_. Inr sample_batch\<rparr>) (Some sample_cache) sample_extractor sample_window
        sample_lookup st1 = (st1, Inr (sample_batch, True))"
proof -
  let ?E = "sample_env\<lparr>pe_parse_json := \<lambda>_. Inr JNull\<rparr>"
  let ?cd = "sample_codec\<lparr>cd_batch := \<lambda>_. Inr sample_batch\<rparr>"
  obtain st1 where x: "extract_cached ?E ok_io ?cd (Some sample_cache) sample_extractor sample_window
      sample_lookup sample_state = (st1, Inr (sample_batch, False))"
    by (simp add: extract_cached_def lookup_cached_def store_cached_def cache_get_def cache_put_def cache_path_def
        namespace_safe_def lit_def is_ascii_alnum_def is_ascii_alpha_def is_ascii_digit_def sample_state_def
        sample_extracted sample_batch_def atomic_write_def ok_io_def write_steps_def step_error_def Let_def)
  have p: "pe_parse_json ?E (canonical_json ?E (batch_value ?E sample_batch)) = Inr JNull"
    "cd_batch ?cd JNull = Inr sample_batch" "\<forall>p. io_error ok_io (ReadAll p) = None"
    by (simp_all add: ok_io_def)
  have "extract_cached ?E ok_io ?cd (Some sample_cache) sample_extractor sample_window
      sample_lookup st1 = (st1, Inr (sample_batch, True))"
    by (rule stored_extraction_is_replayed [OF x p refl])
  with x show ?thesis by (intro exI [of _ st1] conjI)
qed


section \<open>The coverage reported\<close>

lemma filter_slices:
  assumes "distinct (map nm_id all)" "set ms \<subseteq> set all" "distinct ms" "m \<in> set ms" "1 \<le> limit"
  shows "filter (\<lambda>r. mr_message_id r = nm_id m) (episode_slices (message_lookup all) limit (map nm_id ms))
     = (if nm_candidate_eligible m then slice_message m limit else [])"
  using assms(2,3,4)
proof (induction ms)
  case (Cons x ms)
  have lk: "message_lookup all (nm_id x) = Some x"
    using message_lookup_Some [OF assms(1)] Cons.prems by auto
  have ids: "\<forall>r \<in> set (slice_message x limit). mr_message_id r = nm_id x"
    using slice_message_limit [OF assms(5)] by fastforce
  have inj: "nm_id y = nm_id z \<longleftrightarrow> y = z" if "y \<in> set all" "z \<in> set all" for y z
    using assms(1) that by (auto simp: distinct_map dest: inj_onD)
  show ?case
  proof (cases "x = m")
    case True
    have "filter (\<lambda>r. mr_message_id r = nm_id m) (episode_slices (message_lookup all) limit (map nm_id ms)) = []"
    proof -
      have "mr_message_id r \<noteq> nm_id m" if "r \<in> set (episode_slices (message_lookup all) limit (map nm_id ms))" for r
      proof -
        obtain y where y: "y \<in> set ms" "r \<in> set (slice_message y limit)"
        proof -
          have "\<exists>i \<in> set ms. r \<in> set (case message_lookup all (nm_id i) of
              Some m \<Rightarrow> if nm_candidate_eligible m then slice_message m limit else [] | None \<Rightarrow> [])"
            using \<open>r \<in> _\<close> unfolding episode_slices_def set_concat set_map by blast
          then obtain i where i: "i \<in> set ms" "r \<in> set (case message_lookup all (nm_id i) of
              Some m \<Rightarrow> if nm_candidate_eligible m then slice_message m limit else [] | None \<Rightarrow> [])" ..
          have "message_lookup all (nm_id i) = Some i"
            using message_lookup_Some [OF assms(1)] i(1) Cons.prems(1) by auto
          then show thesis using i by (intro that [of i]) (auto split: if_splits)
        qed
        have "mr_message_id r = nm_id y" using slice_message_limit [OF assms(5) y(2)] by auto
        moreover have "y \<noteq> m" using y(1) Cons.prems(2) True by auto
        ultimately show ?thesis using inj [of y m] y(1) Cons.prems True by auto
      qed
      then show ?thesis by (simp add: filter_empty_conv)
    qed
    then show ?thesis using True lk ids by (auto simp: episode_slices_def filter_id_conv)
  next
    case False
    then have "nm_id x \<noteq> nm_id m" using inj [of x m] Cons.prems by auto
    then have "filter (\<lambda>r. mr_message_id r = nm_id m) (slice_message x limit) = []"
      using ids by (auto simp: filter_empty_conv)
    then show ?thesis using Cons False lk by (simp add: episode_slices_def)
  qed
qed simp

lemma tiles_union:
  assumes "tiles a b sp"
  shows "spans_set sp = {a..<b} \<and> sum_list (map (\<lambda>(s, e). e - s) sp) = b - a \<and> (\<forall>p \<in> set sp. fst p \<le> snd p)"
  using assms
proof (induction a b sp rule: tiles.induct)
  case (2 a b s e sp)
  then have "s = a" "a < e" "tiles e b sp" by auto
  with 2(1) tiles_le [of e b sp] show ?case by (auto simp: ivl_disj_un)
qed simp

text \<open>The coverage a run reports measures the windowing, and the windowing is complete: over the
  windows that were built from the messages, every eligible character is covered exactly once, so
  the reported coverage is that of all eligible characters and the duplication is zero.\<close>

theorem reported_coverage_is_full:
  assumes "normalize_prepared_memories E prepared = Inr (ms, iss)"
    and "build_episodes E ms ecfg = Inr eps"
    and "build_windows E eps (message_lookup ms) wcfg = Inr ws"
  shows "candidate_span_metrics ms ws
     = (sum_list (map (\<lambda>m. length (nm_text m)) (filter nm_candidate_eligible ms)),
        sum_list (map (\<lambda>m. length (nm_text m)) (filter nm_candidate_eligible ms)), 0)"
proof -
  obtain vs where "normalize_records E [] 0 vs = Inr (ms, iss)"
    using assms(1) by (auto simp: normalize_prepared_memories_def split: if_splits sum.splits)
  note N = normalize_records_result [OF this]
  let ?limit = "wc_max_candidate wcfg"
  have lim: "1 \<le> ?limit" by (rule build_windows_config(1) [OF assms(3)])
  have ids: "concat (map ep_message_ids eps) = map nm_id ms"
    using build_episodes_result [OF assms(2)] by blast
  have sp: "message_spans (nm_id m) (concat (map wi_candidate_refs ws)) = map ref_span (slice_message m ?limit)"
    and ti: "tiles 0 (length (nm_text m)) (map ref_span (slice_message m ?limit))"
    if m: "m \<in> set (filter nm_candidate_eligible ms)" for m
  proof -
    have "concat (map wi_candidate_refs ws) = episode_slices (message_lookup ms) ?limit (map nm_id ms)"
      using build_windows_result [OF assms(3)] ids by simp
    moreover have "distinct ms" using N by (simp add: distinct_map)
    ultimately show "message_spans (nm_id m) (concat (map wi_candidate_refs ws)) = map ref_span (slice_message m ?limit)"
      using filter_slices [of ms ms m ?limit] N m lim by (simp add: message_spans_def)
    have "nm_text m \<noteq> []" using N m unfolding message_of_record_def by (metis filter_is_subset subsetD trim_Nil)
    then show "tiles 0 (length (nm_text m)) (map ref_span (slice_message m ?limit))"
      using slice_message_slices [OF lim] unfolding slices_def by blast
  qed
  have u: "union_length (message_spans (nm_id m) (concat (map wi_candidate_refs ws))) = length (nm_text m)
      \<and> sum_list (map (\<lambda>(s, e). e - s) (message_spans (nm_id m) (concat (map wi_candidate_refs ws)))) = length (nm_text m)"
    if m: "m \<in> set (filter nm_candidate_eligible ms)" for m
  proof -
    note T = tiles_union [OF ti [OF m]]
    show ?thesis
      unfolding sp [OF m]
      using T union_length_card [OF conjunct2 [OF conjunct2 [OF T]]] by simp
  qed
  have "map (\<lambda>m. union_length (message_spans (nm_id m) (concat (map wi_candidate_refs ws)))) (filter nm_candidate_eligible ms)
      = map (\<lambda>m. length (nm_text m)) (filter nm_candidate_eligible ms)"
    "map (\<lambda>m. sum_list (map (\<lambda>(s, e). e - s) (message_spans (nm_id m) (concat (map wi_candidate_refs ws))))) (filter nm_candidate_eligible ms)
      = map (\<lambda>m. length (nm_text m)) (filter nm_candidate_eligible ms)"
    using u by (auto intro!: map_cong)
  from this [THEN arg_cong [where f = sum_list]] show ?thesis
    unfolding candidate_span_metrics_def eligible_spans_def Let_def map_map comp_def by (simp only: prod.case diff_self_eq_0)
qed

theorem reported_coverage_is_full_witness:
  "candidate_span_metrics [sample_message] [sample_window] = (11, 11, 0)"
proof -
  have e: "build_episodes sample_env [sample_message] default_episode_config = Inr [sample_episode]"
    by (simp add: build_episodes_def default_episode_config_def sample_episode_def)
  show ?thesis
    using reported_coverage_is_full [OF sample_normalized e sample_window_built [folded sample_lookup_messages]]
    by (simp add: sample_message_def)
qed

end
