(* ===== verification/GraphTypes.thy ===== *)
theory GraphTypes
  imports Prelude
begin

text \<open>
  The types of the graph part of \<open>ram-a-mem/crates/memory-core\<close>: its errors (\<open>error.rs\<close>), what an
  extractor is asked and answers, with the check of an answer against the record it was extracted
  from (\<open>graph/extraction.rs\<close>), the type registry (\<open>graph/registry.rs\<close>), text normalization and the
  input hash (\<open>graph/normalize.rs\<close>), the request to add a memory (\<open>api.rs\<close>) and the source entity
  of a record (\<open>graph/resolution.rs\<close>). The library code they call is the parameter \<open>genv\<close>.
\<close>

named_theorems graph_simps \<open>definitions of the graph operations\<close>

section \<open>Errors\<close>

datatype MemoryError =
    MInvalidInput str
  | MEmbedding str
  | MRerank str
  | MExtraction str
  | MStore str
  | MSqlite str
  | MStoreBackend str
  | MJson str

type_synonym 'a mresult = "MemoryError + 'a"

fun memory_error_string :: "MemoryError \<Rightarrow> str" where
  "memory_error_string (MInvalidInput m) = lit ''invalid input: '' @ m"
| "memory_error_string (MEmbedding m) = lit ''embedding error: '' @ m"
| "memory_error_string (MRerank m) = lit ''rerank error: '' @ m"
| "memory_error_string (MExtraction m) = lit ''extraction error: '' @ m"
| "memory_error_string (MStore m) = lit ''store error: '' @ m"
| "memory_error_string (MSqlite m) = lit ''sqlite error: '' @ m"
| "memory_error_string (MStoreBackend m) = lit ''store backend error: '' @ m"
| "memory_error_string (MJson m) = lit ''json error: '' @ m"

text \<open>The \<open>?\<close> operator, a check with an early return, and a loop that stops at the first error.\<close>

definition and_then :: "'e + 'a \<Rightarrow> ('a \<Rightarrow> 'e + 'b) \<Rightarrow> 'e + 'b" where
  "and_then r f = (case r of Inl e \<Rightarrow> Inl e | Inr a \<Rightarrow> f a)"

definition require :: "'e \<Rightarrow> bool \<Rightarrow> 'e + unit" where
  "require e b = (if b then Inr () else Inl e)"

fun for_each :: "('a \<Rightarrow> 's \<Rightarrow> 'e + 's) \<Rightarrow> 'a list \<Rightarrow> 's \<Rightarrow> 'e + 's" where
  "for_each f [] s = Inr s"
| "for_each f (x # xs) s = and_then (f x s) (for_each f xs)"

lemma and_then_simps [simp]:
  "and_then (Inl e) f = Inl e" "and_then (Inr a) f = f a"
  by (simp_all add: and_then_def)

lemma and_then_Inr [simp]: "and_then r f = Inr b \<longleftrightarrow> (\<exists>a. r = Inr a \<and> f a = Inr b)"
  by (cases r) auto

lemma and_then_InrE:
  assumes "and_then r f = Inr b" obtains a where "r = Inr a" "f a = Inr b"
  using assms by auto

lemma require_Inr [simp]: "require e b = Inr u \<longleftrightarrow> b"
  by (simp add: require_def)

lemma require_True [simp]: "require e True = Inr ()" and require_False [simp]: "require e False = Inl e"
  by (simp_all add: require_def)

lemma case_Inr_iff [graph_simps]:
  "(case v of None \<Rightarrow> Inl e | Some x \<Rightarrow> f x) = Inr y \<longleftrightarrow> (\<exists>x. v = Some x \<and> f x = Inr y)"
  "(case r of Inl a \<Rightarrow> Inl (g a) | Inr b \<Rightarrow> h b) = Inr y \<longleftrightarrow> (\<exists>b. r = Inr b \<and> h b = Inr y)"
  by (auto split: option.splits sum.splits)

lemma for_each_append: "for_each f (xs @ ys) s = and_then (for_each f xs s) (for_each f ys)"
  by (induction xs arbitrary: s) (auto simp: and_then_def split: sum.splits)

text \<open>Rule for a loop that does not fail.\<close>

lemma for_each_invariant:
  assumes "for_each f xs s = Inr t" "P s"
    and "\<And>x s t. x \<in> set xs \<Longrightarrow> P s \<Longrightarrow> f x s = Inr t \<Longrightarrow> P t"
  shows "P t"
  using assms
proof (induction xs arbitrary: s)
  case (Cons x xs)
  then obtain s' where "f x s = Inr s'" "for_each f xs s' = Inr t" by auto
  then show ?case using Cons.IH [of s'] Cons.prems(2,3) by auto
qed simp


section \<open>Library code the crate relies on\<close>

type_synonym f32 = "32 word"
type_synonym u64 = "64 word"

record genv =
  g_nfc :: "str \<Rightarrow> str"
  g_lower :: "str \<Rightarrow> str"
  g_to_string :: "json \<Rightarrow> str"
  g_from_str :: "str \<Rightarrow> str + json"
  g_uuid_v5 :: "str \<Rightarrow> str"
  g_uuid_v4 :: "nat \<Rightarrow> str"
  g_now :: "nat \<Rightarrow> nat"
  g_elapsed :: "nat \<Rightarrow> int"
  g_fault :: "nat \<Rightarrow> MemoryError option"
  g_constraint :: str
  g_no_rows :: str
  g_in_unit :: "f32 \<Rightarrow> bool"
  g_u64_json :: "u64 \<Rightarrow> json"

text \<open>
  \<open>g_nfc\<close> is Unicode normalization form C and \<open>g_lower\<close> is \<open>to_lowercase\<close>; \<open>g_to_string\<close> and
  \<open>g_from_str\<close> are \<open>serde_json\<close>'s printing and reading of values; \<open>g_uuid_v5\<close> hashes a text in the OID
  name space; \<open>g_uuid_v4 n\<close> is the \<open>n\<close>-th random identifier; \<open>g_now n\<close> is the clock, \<open>g_elapsed n\<close> a
  measured time and \<open>g_fault n\<close> a failure of the database during the \<open>n\<close>-th operation on it;
  \<open>g_constraint\<close> and \<open>g_no_rows\<close> are SQLite's texts for a violated constraint and a missing row;
  \<open>g_in_unit\<close> says whether a float lies in \<open>0.0..=1.0\<close>; \<open>g_u64_json\<close> is the JSON number of a \<open>u64\<close>.
\<close>

section \<open>Text\<close>

text \<open>\<open>split_whitespace\<close>: the maximal runs of other characters.\<close>

function split_whitespace :: "str \<Rightarrow> str list" where
  "split_whitespace s = (let t = dropWhile is_ws s in
     if t = [] then [] else takeWhile (Not \<circ> is_ws) t # split_whitespace (dropWhile (Not \<circ> is_ws) t))"
  by pat_completeness auto

termination
proof (relation "measure length")
  fix s t assume t: "t = dropWhile is_ws s" "t \<noteq> []"
  then have "\<not> is_ws (hd t)" using hd_dropWhile by metis
  then have "length (dropWhile (Not \<circ> is_ws) t) < length t"
    using t(2) by (cases t) (auto simp: comp_def length_dropWhile_le less_Suc_eq_le)
  also have "length t \<le> length s" using t(1) by (simp add: length_dropWhile_le)
  finally show "(dropWhile (Not \<circ> is_ws) t, s) \<in> measure length" by simp
qed simp

declare split_whitespace.simps [simp del]

fun join_with :: "str \<Rightarrow> str list \<Rightarrow> str" where
  "join_with sep [] = []"
| "join_with sep [x] = x"
| "join_with sep (x # y # xs) = x @ sep @ join_with sep (y # xs)"

definition normalize_graph_text :: "genv \<Rightarrow> str \<Rightarrow> str" where
  "normalize_graph_text E value = g_nfc E (g_lower E (g_nfc E (join_with [32] (split_whitespace value))))"


section \<open>The request to add a memory\<close>

record GraphAddMemoryRequest =
  rq_memory_space_id :: str
  rq_owner_id :: str
  rq_idempotency_key :: str
  rq_text :: str
  rq_metadata :: json
  rq_session_id :: "str option"
  rq_session_sequence :: "int option"
  rq_source_kind :: str
  rq_source_ref :: "str option"
  rq_content_role :: str
  rq_created_by_agent_id :: "str option"
  rq_observed_at_ms :: "u64 option"

record GraphAddMemoryResponse =
  rs_memory_record_id :: str
  rs_ingestion_run_id :: str
  rs_status :: str
  rs_vector_ready :: bool
  rs_graph_ready :: bool

definition opt_json :: "('a \<Rightarrow> json) \<Rightarrow> 'a option \<Rightarrow> json" where
  "opt_json f v = (case v of None \<Rightarrow> JNull | Some x \<Rightarrow> f x)"

definition int_json :: "int \<Rightarrow> json" where
  "int_json i = JNumber (if i < 0 then 45 # dec_str (nat (- i)) else dec_str (nat i))"

text \<open>The hash of the fields; two log fields of the metadata are left out.\<close>

definition hashed_metadata :: "json \<Rightarrow> json" where
  "hashed_metadata v = (case v of
     JObject m \<Rightarrow> JObject (AList.delete (lit ''trace_id'') (AList.delete (lit ''runtime_log'') m))
   | _ \<Rightarrow> v)"

definition input_hash :: "genv \<Rightarrow> GraphAddMemoryRequest \<Rightarrow> str" where
  "input_hash E q = g_uuid_v5 E (g_to_string E (jobject
     [(lit ''memory_space_id'', JString (rq_memory_space_id q)),
      (lit ''session_id'', opt_json JString (rq_session_id q)),
      (lit ''session_sequence'', opt_json int_json (rq_session_sequence q)),
      (lit ''text'', JString (rq_text q)),
      (lit ''source_kind'', JString (rq_source_kind q)),
      (lit ''source_ref'', opt_json JString (rq_source_ref q)),
      (lit ''content_role'', JString (rq_content_role q)),
      (lit ''observed_at_ms'', opt_json (g_u64_json E) (rq_observed_at_ms q)),
      (lit ''metadata'', hashed_metadata (rq_metadata q))]))"


section \<open>The type registry\<close>

record GraphPredicate =
  gp_name :: str
  gp_description :: str
  gp_temporal_kind :: "str option"
  gp_cardinality :: "str option"
  gp_overlap_allowed :: "bool option"
  gp_symmetric :: bool

record GraphTypeRegistry =
  tr_version :: str
  tr_entity_types :: "str list"
  tr_predicates :: "GraphPredicate list"

definition GRAPH_FALLBACK_PREDICATE :: str where
  "GRAPH_FALLBACK_PREDICATE = lit ''RELATED_TO''"

definition new_predicate ::
    "str \<Rightarrow> string \<Rightarrow> string option \<Rightarrow> string option \<Rightarrow> bool option \<Rightarrow> bool \<Rightarrow> GraphPredicate" where
  "new_predicate name description temporal_kind cardinality overlap_allowed symmetric =
     \<lparr>gp_name = name, gp_description = lit description, gp_temporal_kind = map_option lit temporal_kind,
      gp_cardinality = map_option lit cardinality, gp_overlap_allowed = overlap_allowed,
      gp_symmetric = symmetric\<rparr>"

definition default_predicates :: "GraphPredicate list" where
  "default_predicates =
     [new_predicate (lit ''LIVES_IN'') ''A person currently or historically lives in a location.''
        (Some ''state'') (Some ''single'') (Some False) False,
      new_predicate (lit ''WORKS_AT'') ''A person works at or is professionally affiliated with an organization.''
        (Some ''state'') (Some ''many'') (Some True) False,
      new_predicate (lit ''STUDIES_AT'') ''A person studies at or attends an educational organization.''
        (Some ''state'') (Some ''many'') (Some True) False,
      new_predicate (lit ''FAMILY_OF'') ''Two people have a family relationship.''
        (Some ''state'') (Some ''many'') (Some True) True,
      new_predicate (lit ''FRIEND_OF'') ''Two people have a friendship or close social relationship.''
        (Some ''state'') (Some ''many'') (Some True) True,
      new_predicate (lit ''LIKES'') ''A person likes, prefers, or enjoys an entity, activity, topic, or object.''
        (Some ''state'') (Some ''many'') (Some True) False,
      new_predicate (lit ''DISLIKES'') ''A person dislikes or avoids an entity, activity, topic, or object.''
        (Some ''state'') (Some ''many'') (Some True) False,
      new_predicate (lit ''VISITED'') ''A person visited a location.''
        (Some ''event'') (Some ''many'') (Some True) False,
      new_predicate (lit ''ATTENDED'') ''A person attended an event, meeting, appointment, or gathering.''
        (Some ''event'') (Some ''many'') (Some True) False,
      new_predicate (lit ''PARTICIPATED_IN'') ''A person participated in an event, activity, project, or program.''
        (Some ''event'') (Some ''many'') (Some True) False,
      new_predicate (lit ''HAS_PREFERENCE'') ''A person has an expressed preference, habit, or recurring choice.''
        (Some ''state'') (Some ''many'') (Some True) False,
      new_predicate (lit ''HAS_ATTRIBUTE'') ''An entity has a stable attribute, role, status, or descriptive property.''
        (Some ''state'') (Some ''many'') (Some True) False,
      new_predicate (lit ''MENTIONED'') ''A record or person mentions an entity, topic, event, or time.''
        (Some ''event'') (Some ''many'') (Some True) False,
      new_predicate GRAPH_FALLBACK_PREDICATE
        ''A grounded relationship exists but does not fit a more specific registered predicate.''
        (Some ''association'') (Some ''many'') (Some True) False]"

definition new_default :: GraphTypeRegistry where
  "new_default = \<lparr>tr_version = lit ''graph-type-registry-v2'',
     tr_entity_types = map lit [''PERSON'', ''LOCATION'', ''ORGANIZATION'', ''PROJECT'', ''EVENT'',
       ''ACTIVITY'', ''OBJECT'', ''PREFERENCE'', ''TIME'', ''GROUP'', ''CONCEPT''],
     tr_predicates = default_predicates\<rparr>"

definition registry_predicate :: "GraphTypeRegistry \<Rightarrow> str \<Rightarrow> GraphPredicate option" where
  "registry_predicate reg name = find (\<lambda>p. gp_name p = name) (tr_predicates reg)"

end
