(* ===== verification/GraphExtraction.thy ===== *)
theory GraphExtraction
  imports GraphTypes
begin

text \<open>
  What an extractor answers and when it is accepted (\<open>graph/extraction.rs\<close>): the candidates, the
  check against the record's text with byte ranges on UTF-8 boundaries, and the entity a record
  names as its source (\<open>graph/resolution.rs\<close>). The lemmas say what an accepted answer satisfies.
\<close>

section \<open>Candidates\<close>

record ExtractedEntityCandidate =
  ec_local_id :: str
  ec_name :: str
  ec_entity_type :: str
  ec_confidence :: "f32 option"

record GraphEvidenceSpan =
  sp_text :: "str option"
  sp_start_byte :: "nat option"
  sp_end_byte :: "nat option"

record ExtractedFactCandidate =
  fc_local_id :: str
  fc_subject_ref :: str
  fc_predicate :: str
  fc_object_ref :: str
  fc_fact_text :: str
  fc_evidence :: "GraphEvidenceSpan list"
  fc_confidence :: "f32 option"
  fc_temporal_expression :: "str option"
  fc_valid_from_ms :: "u64 option"
  fc_valid_to_ms :: "u64 option"

record GraphExtractionOutput =
  go_entities :: "ExtractedEntityCandidate list"
  go_facts :: "ExtractedFactCandidate list"
  go_input_tokens :: "int option"
  go_output_tokens :: "int option"

record GraphExtractionInput =
  gi_memory_space_id :: str
  gi_memory_record_id :: str
  gi_text :: str
  gi_metadata :: json
  gi_context_record_ids :: "str list"
  gi_type_registry_version :: str


section \<open>Byte ranges\<close>

text \<open>Cutting a text at a byte offset, where that is a character boundary.\<close>

fun split_at_byte :: "nat \<Rightarrow> str \<Rightarrow> (str \<times> str) option" where
  "split_at_byte n s = (if n = 0 then Some ([], s) else case s of
     [] \<Rightarrow> None
   | c # s' \<Rightarrow> if utf8_len c \<le> n
               then map_option (\<lambda>(a, b). (c # a, b)) (split_at_byte (n - utf8_len c) s')
               else None)"

declare split_at_byte.simps [simp del]

definition is_char_boundary :: "str \<Rightarrow> nat \<Rightarrow> bool" where
  "is_char_boundary s i \<longleftrightarrow> split_at_byte i s \<noteq> None"

definition byte_slice :: "str \<Rightarrow> nat \<Rightarrow> nat \<Rightarrow> str option" where
  "byte_slice s i j = (case split_at_byte i s of
     None \<Rightarrow> None
   | Some (a, b) \<Rightarrow> map_option fst (split_at_byte (j - i) b))"

lemma split_at_byte_Some:
  "split_at_byte n s = Some (a, b) \<longleftrightarrow> s = a @ b \<and> byte_len a = n"
proof (induction n s arbitrary: a b rule: split_at_byte.induct)
  case (1 n s)
  show ?case
  proof (cases "n = 0 \<or> s = []")
    case True
    show ?thesis
    proof (cases "n = 0")
      case True
      have "byte_len a = 0 \<longleftrightarrow> a = []"
        using length_le_byte_len [of a] by (cases a) auto
      then show ?thesis using True by (subst split_at_byte.simps) auto
    next
      case n: False
      then have "split_at_byte n s = None"
        using True by (subst split_at_byte.simps) simp
      then show ?thesis using n True by auto
    qed
  next
    case False
    then obtain c s' where s: "s = c # s'" by (cases s) auto
    have split: "split_at_byte n (c # s') = (if utf8_len c \<le> n
        then map_option (\<lambda>(a, b). (c # a, b)) (split_at_byte (n - utf8_len c) s') else None)"
      using False by (subst split_at_byte.simps) simp
    have IH: "split_at_byte (n - utf8_len c) s' = Some (a', b') \<longleftrightarrow> s' = a' @ b' \<and> byte_len a' = n - utf8_len c"
      if "utf8_len c \<le> n" for a' b'
      using 1 False s that by simp
    show ?thesis
    proof (cases a)
      case Nil
      then show ?thesis using False unfolding s split by (auto split: if_splits)
    next
      case (Cons d a')
      show ?thesis unfolding s split Cons by (cases "utf8_len c \<le> n") (auto simp: IH)
    qed
  qed
qed

text \<open>The rest of a text after a boundary has the boundaries of the whole text behind it.\<close>

lemma split_at_byte_add:
  assumes "s = a @ b" "byte_len a = i" "is_char_boundary s j" "i \<le> j"
  shows "is_char_boundary b (j - i)"
proof -
  obtain a' b' where a': "s = a' @ b'" "byte_len a' = j"
    using assms(3) by (auto simp: is_char_boundary_def split_at_byte_Some)
  have "a @ b = a' @ b'" using assms(1) a'(1) by simp
  then consider us where "a = a' @ us" "us @ b = b'" | us where "a' = a @ us" "b = us @ b'"
    by (auto simp: append_eq_append_conv2)
  then show ?thesis
  proof cases
    case 1
    then have "byte_len us = 0" using assms(2,4) a'(2) by auto
    then show ?thesis using 1 assms(2) a'(2)
      by (auto simp: is_char_boundary_def split_at_byte.simps)
  next
    case 2
    then have "split_at_byte (j - i) b = Some (us, b')"
      using assms(2) a'(2) by (auto simp: split_at_byte_Some)
    then show ?thesis by (simp add: is_char_boundary_def)
  qed
qed

lemma byte_slice_Some:
  assumes "is_char_boundary s i" "is_char_boundary s j" "i \<le> j"
  shows "\<exists>t. byte_slice s i j = Some t"
proof -
  obtain a b where "split_at_byte i s = Some (a, b)" using assms(1) by (auto simp: is_char_boundary_def)
  moreover from this have "is_char_boundary b (j - i)"
    using split_at_byte_add [of s a b i j] assms(2,3) by (simp add: split_at_byte_Some)
  ultimately show ?thesis by (auto simp: byte_slice_def is_char_boundary_def)
qed

lemma byte_slice_contains:
  assumes "byte_slice s i j = Some t"
  shows "\<exists>a b. s = a @ t @ b \<and> byte_len a = i \<and> byte_len t = j - i"
proof -
  obtain a b b' where "s = a @ b" "byte_len a = i" "b = t @ b'" "byte_len t = j - i"
    using assms by (auto simp: byte_slice_def split_at_byte_Some split: option.splits)
  then show ?thesis by blast
qed


section \<open>The check\<close>

definition INVALID_EXTRACTION_OUTPUT_ERROR_CODE :: str where
  "INVALID_EXTRACTION_OUTPUT_ERROR_CODE = lit ''INVALID_EXTRACTION_OUTPUT''"

definition invalid_output :: "str \<Rightarrow> MemoryError" where
  "invalid_output message =
     MInvalidInput (INVALID_EXTRACTION_OUTPUT_ERROR_CODE @ lit '': '' @ message)"

definition validate_non_empty :: "string \<Rightarrow> str \<Rightarrow> unit mresult" where
  "validate_non_empty field value =
     require (invalid_output (lit field @ lit '' must not be empty'')) (trim value \<noteq> [])"

definition validate_confidence :: "genv \<Rightarrow> string \<Rightarrow> f32 option \<Rightarrow> unit mresult" where
  "validate_confidence E field confidence =
     require (invalid_output (lit field @ lit '' must be between 0 and 1''))
       (case confidence of None \<Rightarrow> True | Some c \<Rightarrow> g_in_unit E c)"

definition quoted :: "str \<Rightarrow> str" where
  "quoted s = 39 # s @ [39]"

fun validate_span :: "str \<Rightarrow> str option \<Rightarrow> nat option \<Rightarrow> nat option \<Rightarrow> unit mresult" where
  "validate_span record_text text (Some s) (Some e) =
     and_then (require (invalid_output (lit ''evidence byte range is outside record text''))
        (s < e \<and> e \<le> byte_len record_text)) (\<lambda>_.
     and_then (require (invalid_output (lit ''evidence byte range is not on UTF-8 boundaries''))
        (is_char_boundary record_text s \<and> is_char_boundary record_text e)) (\<lambda>_.
     case text of
       None \<Rightarrow> Inr ()
     | Some expected \<Rightarrow> and_then (validate_non_empty ''evidence.text'' expected) (\<lambda>_.
         require (invalid_output (lit ''evidence text does not match record byte range''))
           (byte_slice record_text s e = Some expected))))"
| "validate_span record_text text None None = (case text of
     None \<Rightarrow> Inl (invalid_output (lit ''evidence must include text or byte range''))
   | Some expected \<Rightarrow> and_then (validate_non_empty ''evidence.text'' expected) (\<lambda>_.
       require (invalid_output (lit ''evidence text is not present in record text''))
         (str_contains record_text expected)))"
| "validate_span record_text text _ _ =
     Inl (invalid_output (lit ''evidence start_byte and end_byte must be set together''))"

definition validate_evidence_span :: "str \<Rightarrow> GraphEvidenceSpan \<Rightarrow> unit mresult" where
  "validate_evidence_span record_text ev =
     validate_span record_text (sp_text ev) (sp_start_byte ev) (sp_end_byte ev)"

definition validate_entity ::
    "genv \<Rightarrow> GraphTypeRegistry \<Rightarrow> ExtractedEntityCandidate \<Rightarrow> str list \<Rightarrow> str list mresult" where
  "validate_entity E reg ent seen =
     and_then (validate_non_empty ''entity.local_id'' (ec_local_id ent)) (\<lambda>_.
     and_then (validate_non_empty ''entity.name'' (ec_name ent)) (\<lambda>_.
     and_then (validate_non_empty ''entity.entity_type'' (ec_entity_type ent)) (\<lambda>_.
     and_then (validate_confidence E ''entity.confidence'' (ec_confidence ent)) (\<lambda>_.
     and_then (require (invalid_output (lit ''unknown entity type '' @ quoted (ec_entity_type ent)))
       (ec_entity_type ent \<in> set (tr_entity_types reg))) (\<lambda>_.
     and_then (require (invalid_output (lit ''duplicate entity local_id '' @ quoted (ec_local_id ent)))
       (ec_local_id ent \<notin> set seen)) (\<lambda>_. Inr (ec_local_id ent # seen)))))))"

definition validate_temporal :: "str \<Rightarrow> ExtractedFactCandidate \<Rightarrow> unit mresult" where
  "validate_temporal record_text fc = (case fc_temporal_expression fc of
     None \<Rightarrow> Inr ()
   | Some t \<Rightarrow> and_then (validate_non_empty ''fact.temporal_expression'' t) (\<lambda>_.
       require (invalid_output (lit ''fact '' @ quoted (fc_local_id fc)
           @ lit '' temporal_expression is not grounded in record text''))
         (str_contains record_text t)))"

definition validate_interval :: "ExtractedFactCandidate \<Rightarrow> unit mresult" where
  "validate_interval fc = (case (fc_valid_from_ms fc, fc_valid_to_ms fc) of
     (Some a, Some b) \<Rightarrow> require (invalid_output (lit ''fact '' @ quoted (fc_local_id fc)
         @ lit '' has valid_from_ms after valid_to_ms'')) (\<not> a > b)
   | _ \<Rightarrow> Inr ())"

definition validate_fact ::
    "genv \<Rightarrow> GraphTypeRegistry \<Rightarrow> str \<Rightarrow> str list \<Rightarrow> ExtractedFactCandidate \<Rightarrow> str list \<Rightarrow> str list mresult" where
  "validate_fact E reg record_text entity_ids fc seen =
     and_then (validate_non_empty ''fact.local_id'' (fc_local_id fc)) (\<lambda>_.
     and_then (validate_non_empty ''fact.subject_ref'' (fc_subject_ref fc)) (\<lambda>_.
     and_then (validate_non_empty ''fact.predicate'' (fc_predicate fc)) (\<lambda>_.
     and_then (validate_non_empty ''fact.object_ref'' (fc_object_ref fc)) (\<lambda>_.
     and_then (validate_non_empty ''fact.fact_text'' (fc_fact_text fc)) (\<lambda>_.
     and_then (validate_confidence E ''fact.confidence'' (fc_confidence fc)) (\<lambda>_.
     and_then (require (invalid_output (lit ''duplicate fact local_id '' @ quoted (fc_local_id fc)))
       (fc_local_id fc \<notin> set seen)) (\<lambda>_.
     and_then (require (invalid_output (lit ''fact '' @ quoted (fc_local_id fc)
         @ lit '' references unknown subject '' @ quoted (fc_subject_ref fc)))
       (fc_subject_ref fc \<in> set entity_ids)) (\<lambda>_.
     and_then (require (invalid_output (lit ''fact '' @ quoted (fc_local_id fc)
         @ lit '' references unknown object '' @ quoted (fc_object_ref fc)))
       (fc_object_ref fc \<in> set entity_ids)) (\<lambda>_.
     and_then (require (invalid_output (lit ''unknown predicate '' @ quoted (fc_predicate fc)))
       (registry_predicate reg (fc_predicate fc) \<noteq> None)) (\<lambda>_.
     and_then (require (invalid_output (lit ''fact '' @ quoted (fc_local_id fc)
         @ lit '' must include at least one evidence'')) (fc_evidence fc \<noteq> [])) (\<lambda>_.
     and_then (validate_temporal record_text fc) (\<lambda>_.
     and_then (validate_interval fc) (\<lambda>_.
     and_then (for_each (\<lambda>ev _. validate_evidence_span record_text ev) (fc_evidence fc) ()) (\<lambda>_.
       Inr (fc_local_id fc # seen)))))))))))))))"

definition validate_against_record ::
    "genv \<Rightarrow> GraphTypeRegistry \<Rightarrow> str \<Rightarrow> GraphExtractionOutput \<Rightarrow> unit mresult" where
  "validate_against_record E reg record_text out =
     and_then (for_each (validate_entity E reg) (go_entities out) []) (\<lambda>entity_ids.
     and_then (for_each (validate_fact E reg record_text entity_ids) (go_facts out) []) (\<lambda>_.
       Inr ()))"


section \<open>The source entity of a record\<close>

record GraphSourceEntity =
  se_name :: str
  se_entity_type :: str

definition ascii_upper :: "nat \<Rightarrow> nat" where
  "ascii_upper c = (if 97 \<le> c \<and> c \<le> 122 then c - 32 else c)"

definition trimmed_string :: "(str \<times> json) list \<Rightarrow> string \<Rightarrow> str option" where
  "trimmed_string m k = (case map_of m (lit k) of
     None \<Rightarrow> None
   | Some v \<Rightarrow> (case as_str v of
       None \<Rightarrow> None
     | Some s \<Rightarrow> if trim s = [] then None else Some (trim s)))"

definition source_entity_from_metadata ::
    "json \<Rightarrow> GraphTypeRegistry \<Rightarrow> GraphSourceEntity option mresult" where
  "source_entity_from_metadata metadata reg = (case json_get metadata (lit ''graph_source_entity'') of
     None \<Rightarrow> Inr None
   | Some value \<Rightarrow> (case as_object value of
       None \<Rightarrow> Inl (MInvalidInput (lit ''graph_source_entity metadata must be an object''))
     | Some m \<Rightarrow> (case trimmed_string m ''name'' of
         None \<Rightarrow> Inl (MInvalidInput (lit ''graph_source_entity.name must be a non-empty string''))
       | Some name \<Rightarrow> (case trimmed_string m ''entity_type'' of
           None \<Rightarrow> Inl (MInvalidInput (lit ''graph_source_entity.entity_type must be a non-empty string''))
         | Some t \<Rightarrow>
             let entity_type = map ascii_upper t in
             if entity_type \<in> set (tr_entity_types reg)
             then Inr (Some \<lparr>se_name = name, se_entity_type = entity_type\<rparr>)
             else Inl (MInvalidInput (lit ''graph_source_entity.entity_type `'' @ entity_type
                    @ lit ''` is not registered''))))))"

end
