(* ===== verification/GraphStore.thy ===== *)
theory GraphStore
  imports GraphExtraction
begin

text \<open>
  The graph database (\<open>sqlite/schema.rs\<close>, \<open>sqlite/graph_repository.rs\<close>): its tables as lists of rows
  in insertion order, and the transactions that take a memory from its acceptance through the
  stages of an ingestion run. An \<open>INSERT\<close> checks the primary key, the unique indexes and the foreign
  keys of its table; an \<open>UPDATE ... WHERE\<close> says how many rows it changed; a transaction that fails
  leaves the tables as they were. The repository's operations run one at a time (its lock, and
  SQLite's own), each as one transaction, which may also fail for reasons of its own (\<open>g_fault\<close>).
\<close>

section \<open>Rows\<close>

record MemorySpace =
  ms_id :: str
  ms_owner_id :: str
  ms_status :: str
  ms_next_ingestion_sequence :: int
  ms_created_at_ms :: nat

record GraphMemoryRow =
  rec_id :: str
  rec_memory_space_id :: str
  rec_session_id :: "str option"
  rec_ingestion_sequence :: int
  rec_session_sequence :: "int option"
  rec_text :: str
  rec_metadata_json :: str
  rec_source_kind :: str
  rec_source_ref :: "str option"
  rec_content_role :: str
  rec_created_by_agent_id :: "str option"
  rec_observed_at_ms :: "u64 option"
  rec_embedding :: "8 word list option"
  rec_embedding_dims :: "int option"
  rec_embedding_model :: "str option"
  rec_embedding_version :: "str option"
  rec_created_at_ms :: nat
  rec_updated_at_ms :: nat

record Entity =
  ent_id :: str
  ent_memory_space_id :: str
  ent_canonical_name :: str
  ent_normalized_name :: str
  ent_entity_type :: str
  ent_status :: str
  ent_type_registry_version :: str
  ent_created_at_ms :: nat
  ent_deleted_at_ms :: "nat option"

record EntityAlias =
  als_id :: str
  als_memory_space_id :: str
  als_entity_id :: str
  als_display_alias :: str
  als_normalized_alias :: str
  als_created_at_ms :: nat
  als_deleted_at_ms :: "nat option"

record RecordEntityLink =
  rel_id :: str
  rel_memory_space_id :: str
  rel_memory_record_id :: str
  rel_entity_id :: str
  rel_link_kind :: str
  rel_extraction_run_id :: str
  rel_created_at_ms :: nat

record Fact =
  fct_id :: str
  fct_memory_space_id :: str
  fct_subject_entity_id :: str
  fct_predicate :: str
  fct_object_entity_id :: str
  fct_fact_text :: str
  fct_dedup_key :: str
  fct_status :: str
  fct_valid_from_ms :: "u64 option"
  fct_valid_to_ms :: "u64 option"
  fct_recorded_at_ms :: nat
  fct_retired_at_ms :: "nat option"
  fct_type_registry_version :: str

record FactStatusHistory =
  hst_id :: str
  hst_memory_space_id :: str
  hst_fact_id :: str
  hst_old_status :: "str option"
  hst_new_status :: str
  hst_reason_code :: str
  hst_trigger_record_id :: str
  hst_created_at_ms :: nat

record FactEvidenceGroup =
  evg_id :: str
  evg_memory_space_id :: str
  evg_fact_id :: str
  evg_evidence_kind :: str
  evg_extraction_run_id :: str
  evg_created_at_ms :: nat

record FactEvidence =
  evi_id :: str
  evi_memory_space_id :: str
  evi_evidence_group_id :: str
  evi_memory_record_id :: str
  evi_evidence_text :: "str option"
  evi_start_byte :: "nat option"
  evi_end_byte :: "nat option"
  evi_created_at_ms :: nat

record IngestionRun =
  run_id :: str
  run_memory_space_id :: str
  run_memory_record_id :: str
  run_idempotency_key :: str
  run_input_hash :: str
  run_status :: str
  run_stage :: str
  run_attempt_count :: int
  run_pipeline_version :: str
  run_error_code :: "str option"
  run_error_message :: "str option"
  run_created_at_ms :: nat
  run_started_at_ms :: "nat option"
  run_updated_at_ms :: nat
  run_completed_at_ms :: "nat option"

record ExtractionRun =
  xr_id :: str
  xr_memory_space_id :: str
  xr_ingestion_run_id :: str
  xr_attempt_number :: int
  xr_status :: str
  xr_extractor_name :: str
  xr_model :: str
  xr_prompt_version :: str
  xr_schema_version :: str
  xr_type_registry_version :: str
  xr_context_record_ids :: "str list"
  xr_structured_output :: "json option"
  xr_input_tokens :: "int option"
  xr_output_tokens :: "int option"
  xr_latency_ms :: "int option"
  xr_error_code :: "str option"
  xr_error_message :: "str option"
  xr_created_at_ms :: nat
  xr_completed_at_ms :: "nat option"

record ResolutionDecision =
  rdc_id :: str
  rdc_memory_space_id :: str
  rdc_ingestion_run_id :: str
  rdc_decision_kind :: str
  rdc_input_key :: str
  rdc_candidate_ids :: "str list"
  rdc_selected_id :: str
  rdc_action :: str
  rdc_method :: str
  rdc_resolver_version :: str
  rdc_created_at_ms :: nat

type_synonym fts_row = "str \<times> str \<times> str"

record GraphDb =
  gd_spaces :: "MemorySpace list"
  gd_records :: "GraphMemoryRow list"
  gd_record_fts :: "fts_row list"
  gd_entities :: "Entity list"
  gd_entity_fts :: "fts_row list"
  gd_aliases :: "EntityAlias list"
  gd_alias_fts :: "fts_row list"
  gd_links :: "RecordEntityLink list"
  gd_facts :: "Fact list"
  gd_fact_fts :: "fts_row list"
  gd_history :: "FactStatusHistory list"
  gd_groups :: "FactEvidenceGroup list"
  gd_evidence :: "FactEvidence list"
  gd_runs :: "IngestionRun list"
  gd_extractions :: "ExtractionRun list"
  gd_decisions :: "ResolutionDecision list"
  gd_ids :: nat

text \<open>\<open>gd_ids\<close> counts the random identifiers drawn; those of a failed transaction were seen by
  nobody. A new database file has the tables empty.\<close>

definition initialize_schema :: GraphDb where
  "initialize_schema = \<lparr>gd_spaces = [], gd_records = [], gd_record_fts = [], gd_entities = [],
     gd_entity_fts = [], gd_aliases = [], gd_alias_fts = [], gd_links = [], gd_facts = [],
     gd_fact_fts = [], gd_history = [], gd_groups = [], gd_evidence = [], gd_runs = [],
     gd_extractions = [], gd_decisions = [], gd_ids = 0\<rparr>"


section \<open>Statements and transactions\<close>

type_synonym 'a tx = "GraphDb \<Rightarrow> ('a \<times> GraphDb) mresult"

definition transaction :: "'a tx \<Rightarrow> GraphDb \<Rightarrow> 'a mresult \<times> GraphDb" where
  "transaction t db = (case t db of Inl e \<Rightarrow> (Inl e, db) | Inr (a, db') \<Rightarrow> (Inr a, db'))"

definition new_v4 :: "genv \<Rightarrow> GraphDb \<Rightarrow> str \<times> GraphDb" where
  "new_v4 E db = (g_uuid_v4 E (gd_ids db), db\<lparr>gd_ids := Suc (gd_ids db)\<rparr>)"

definition sql_check :: "genv \<Rightarrow> bool \<Rightarrow> unit mresult" where
  "sql_check E ok = require (MSqlite (g_constraint E)) ok"

definition query_row :: "genv \<Rightarrow> 'a list \<Rightarrow> 'a mresult" where
  "query_row E rows = (case rows of [] \<Rightarrow> Inl (MSqlite (g_no_rows E)) | r # _ \<Rightarrow> Inr r)"

definition update_where :: "('a \<Rightarrow> bool) \<Rightarrow> ('a \<Rightarrow> 'a) \<Rightarrow> 'a list \<Rightarrow> 'a list" where
  "update_where P f rows = map (\<lambda>r. if P r then f r else r) rows"

definition count_where :: "('a \<Rightarrow> bool) \<Rightarrow> 'a list \<Rightarrow> nat" where
  "count_where P rows = length (filter P rows)"

text \<open>A guarded update of the runs: an error unless exactly one row changed.\<close>

definition update_one_run ::
    "(IngestionRun \<Rightarrow> bool) \<Rightarrow> (IngestionRun \<Rightarrow> IngestionRun) \<Rightarrow> string \<Rightarrow> GraphDb \<Rightarrow> GraphDb mresult" where
  "update_one_run P f msg db =
     (if count_where P (gd_runs db) = 1 then Inr (db\<lparr>gd_runs := update_where P f (gd_runs db)\<rparr>)
      else Inl (MStoreBackend (lit msg)))"

lemma sql_check_Inr [simp]: "sql_check E ok = Inr u \<longleftrightarrow> ok"
  by (simp add: sql_check_def)

lemma sql_check_True [simp]: "sql_check E True = Inr ()"
  by (simp add: sql_check_def)

lemma query_row_Inr: "query_row E rows = Inr r \<Longrightarrow> r \<in> set rows"
  by (auto simp: query_row_def split: list.splits)

lemma transaction_Inr:
  "transaction t db = (Inr a, db') \<longleftrightarrow> t db = Inr (a, db')"
  by (auto simp: transaction_def split: sum.splits prod.splits)

lemma transaction_Inl: "transaction t db = (Inl e, db') \<Longrightarrow> db' = db"
  by (auto simp: transaction_def split: sum.splits prod.splits)


section \<open>Status and stage of a run\<close>

definition PENDING :: str where "PENDING = lit ''pending''"
definition RUNNING :: str where "RUNNING = lit ''running''"
definition COMPLETED :: str where "COMPLETED = lit ''completed''"
definition FAILED :: str where "FAILED = lit ''failed''"
definition ACCEPTED :: str where "ACCEPTED = lit ''accepted''"
definition EMBEDDING :: str where "EMBEDDING = lit ''embedding''"
definition EXTRACTION :: str where "EXTRACTION = lit ''extraction''"
definition EXTRACTING :: str where "EXTRACTING = lit ''extracting''"
definition RESOLUTION :: str where "RESOLUTION = lit ''resolution''"
definition RESOLVING :: str where "RESOLVING = lit ''resolving''"
definition ACTIVE :: str where "ACTIVE = lit ''active''"

lemmas status_defs = PENDING_def RUNNING_def COMPLETED_def FAILED_def
lemmas stage_defs = ACCEPTED_def EMBEDDING_def EXTRACTION_def EXTRACTING_def RESOLUTION_def
  RESOLVING_def COMPLETED_def

lemma status_distinct:
  "distinct [PENDING, RUNNING, COMPLETED, FAILED]" "distinct [FAILED, COMPLETED, RUNNING, PENDING]"
  by (simp_all add: status_defs)

lemma stage_distinct:
  "distinct [ACCEPTED, EMBEDDING, EXTRACTION, EXTRACTING, RESOLUTION, RESOLVING, COMPLETED]"
  "distinct [COMPLETED, RESOLVING, RESOLUTION, EXTRACTING, EXTRACTION, EMBEDDING, ACCEPTED]"
  by (simp_all add: stage_defs)

lemmas distinct_unfolded = distinct.simps list.set insert_iff empty_iff de_Morgan_disj simp_thms

lemmas status_neq [simp] = status_distinct [simplified distinct_unfolded]
lemmas stage_neq [simp] = stage_distinct [simplified distinct_unfolded]

section \<open>Acceptance\<close>

definition GRAPH_PIPELINE_VERSION :: str where
  "GRAPH_PIPELINE_VERSION = lit ''graph-pipeline-v1''"

definition ensure_space :: "nat \<Rightarrow> GraphAddMemoryRequest \<Rightarrow> GraphDb \<Rightarrow> GraphDb" where
  "ensure_space now q db =
     (if \<exists>m \<in> set (gd_spaces db). ms_id m = rq_memory_space_id q then db
      else db\<lparr>gd_spaces := gd_spaces db @ [\<lparr>ms_id = rq_memory_space_id q, ms_owner_id = rq_owner_id q,
             ms_status = ACTIVE, ms_next_ingestion_sequence = 1, ms_created_at_ms = now\<rparr>]\<rparr>)"

definition space_rows :: "str \<Rightarrow> GraphDb \<Rightarrow> MemorySpace list" where
  "space_rows sid db = filter (\<lambda>m. ms_id m = sid) (gd_spaces db)"

definition insert_record :: "genv \<Rightarrow> GraphMemoryRow \<Rightarrow> GraphDb \<Rightarrow> GraphDb mresult" where
  "insert_record E r db =
     and_then (sql_check E (rec_id r \<notin> rec_id ` set (gd_records db)
       \<and> rec_memory_space_id r \<in> ms_id ` set (gd_spaces db))) (\<lambda>_.
     Inr (db\<lparr>gd_records := gd_records db @ [r],
            gd_record_fts := gd_record_fts db @ [(rec_id r, rec_memory_space_id r, rec_text r)]\<rparr>))"

definition record_exists :: "str \<Rightarrow> str \<Rightarrow> GraphDb \<Rightarrow> bool" where
  "record_exists rid sid db \<longleftrightarrow> (\<exists>r \<in> set (gd_records db). rec_id r = rid \<and> rec_memory_space_id r = sid)"

definition insert_run :: "genv \<Rightarrow> IngestionRun \<Rightarrow> GraphDb \<Rightarrow> GraphDb mresult" where
  "insert_run E r db =
     and_then (sql_check E (run_id r \<notin> run_id ` set (gd_runs db)
       \<and> (\<forall>r' \<in> set (gd_runs db). \<not> (run_memory_space_id r' = run_memory_space_id r
             \<and> run_idempotency_key r' = run_idempotency_key r))
       \<and> record_exists (run_memory_record_id r) (run_memory_space_id r) db)) (\<lambda>_.
     Inr (db\<lparr>gd_runs := gd_runs db @ [r]\<rparr>))"

text \<open>The rows of a new record and of its run.\<close>

definition new_memory_row :: "genv \<Rightarrow> nat \<Rightarrow> GraphAddMemoryRequest \<Rightarrow> str \<Rightarrow> int \<Rightarrow> GraphMemoryRow" where
  "new_memory_row E now q i n =
     \<lparr>rec_id = i, rec_memory_space_id = rq_memory_space_id q,
      rec_session_id = rq_session_id q, rec_ingestion_sequence = n,
      rec_session_sequence = rq_session_sequence q, rec_text = rq_text q,
      rec_metadata_json = g_to_string E (rq_metadata q), rec_source_kind = rq_source_kind q,
      rec_source_ref = rq_source_ref q, rec_content_role = rq_content_role q,
      rec_created_by_agent_id = rq_created_by_agent_id q,
      rec_observed_at_ms = rq_observed_at_ms q, rec_embedding = None,
      rec_embedding_dims = None, rec_embedding_model = None, rec_embedding_version = None,
      rec_created_at_ms = now, rec_updated_at_ms = now\<rparr>"

definition new_run_row :: "nat \<Rightarrow> GraphAddMemoryRequest \<Rightarrow> str \<Rightarrow> str \<Rightarrow> str \<Rightarrow> IngestionRun" where
  "new_run_row now q h i record_id =
     \<lparr>run_id = i, run_memory_space_id = rq_memory_space_id q,
      run_memory_record_id = record_id, run_idempotency_key = rq_idempotency_key q,
      run_input_hash = h, run_status = PENDING, run_stage = ACCEPTED, run_attempt_count = 0,
      run_pipeline_version = GRAPH_PIPELINE_VERSION, run_error_code = None,
      run_error_message = None, run_created_at_ms = now, run_started_at_ms = None,
      run_updated_at_ms = now, run_completed_at_ms = None\<rparr>"

definition insert_memory ::
    "genv \<Rightarrow> nat \<Rightarrow> GraphAddMemoryRequest \<Rightarrow> str \<Rightarrow> GraphAddMemoryResponse tx" where
  "insert_memory E now q h db =
     (let (memory_record_id, db) = new_v4 E db;
          (ingestion_run_id, db) = new_v4 E db;
          sid = rq_memory_space_id q
      in and_then (query_row E (space_rows sid db)) (\<lambda>sp.
         let db = db\<lparr>gd_spaces := update_where (\<lambda>m. ms_id m = sid)
               (\<lambda>m. m\<lparr>ms_next_ingestion_sequence := ms_next_ingestion_sequence m + 1\<rparr>) (gd_spaces db)\<rparr>
         in and_then (insert_record E
              (new_memory_row E now q memory_record_id (ms_next_ingestion_sequence sp)) db) (\<lambda>db.
            and_then (insert_run E (new_run_row now q h ingestion_run_id memory_record_id) db) (\<lambda>db.
              Inr (\<lparr>rs_memory_record_id = memory_record_id, rs_ingestion_run_id = ingestion_run_id,
                   rs_status = PENDING, rs_vector_ready = False, rs_graph_ready = False\<rparr>, db)))))"

definition runs_by_key :: "GraphAddMemoryRequest \<Rightarrow> GraphDb \<Rightarrow> IngestionRun list" where
  "runs_by_key q db = filter (\<lambda>r. run_memory_space_id r = rq_memory_space_id q
     \<and> run_idempotency_key r = rq_idempotency_key q) (gd_runs db)"

definition accept_memory_record_tx ::
    "genv \<Rightarrow> nat \<Rightarrow> GraphAddMemoryRequest \<Rightarrow> GraphAddMemoryResponse tx" where
  "accept_memory_record_tx E now q db =
     (let db = ensure_space now q db
      in and_then (query_row E (space_rows (rq_memory_space_id q) db)) (\<lambda>sp.
         and_then (require (MInvalidInput (lit ''MEMORY_SPACE_OWNER_MISMATCH''))
            (ms_owner_id sp = rq_owner_id q)) (\<lambda>_.
         let h = input_hash E q
         in case runs_by_key q db of
              r # _ \<Rightarrow> and_then (require (MInvalidInput (lit ''IDEMPOTENCY_CONFLICT''))
                  (run_input_hash r = h)) (\<lambda>_.
                Inr (\<lparr>rs_memory_record_id = run_memory_record_id r, rs_ingestion_run_id = run_id r,
                     rs_status = run_status r, rs_vector_ready = False, rs_graph_ready = False\<rparr>, db))
            | [] \<Rightarrow> insert_memory E now q h db)))"


section \<open>The stages of a run\<close>

text \<open>A run joined with its record.\<close>

definition joined_runs :: "str \<Rightarrow> GraphDb \<Rightarrow> (IngestionRun \<times> GraphMemoryRow) list" where
  "joined_runs rid db = [(r, m). r \<leftarrow> filter (\<lambda>r. run_id r = rid) (gd_runs db), m \<leftarrow> gd_records db,
     rec_id m = run_memory_record_id r \<and> rec_memory_space_id m = run_memory_space_id r]"

record ClaimedIngestionRun =
  ci_ingestion_run_id :: str
  ci_memory_space_id :: str
  ci_memory_record_id :: str
  ci_text :: str
  ci_attempt_count :: int

definition claim_pending_run_tx :: "genv \<Rightarrow> nat \<Rightarrow> str \<Rightarrow> ClaimedIngestionRun tx" where
  "claim_pending_run_tx E now rid db =
     and_then (query_row E (joined_runs rid db)) (\<lambda>(r, m).
     and_then (require (MInvalidInput (lit ''ingestion run is not pending: '' @ run_status r))
        (run_status r = PENDING)) (\<lambda>_.
     let next_attempt = run_attempt_count r + 1
     in and_then (update_one_run
          (\<lambda>x. run_id x = rid \<and> run_status x = PENDING \<and> run_attempt_count x = run_attempt_count r)
          (\<lambda>x. x\<lparr>run_status := RUNNING, run_stage := EMBEDDING, run_attempt_count := next_attempt,
                run_started_at_ms := (case run_started_at_ms x of Some t \<Rightarrow> Some t | None \<Rightarrow> Some now),
                run_updated_at_ms := now\<rparr>)
          ''failed to claim ingestion run'' db) (\<lambda>db.
        Inr (\<lparr>ci_ingestion_run_id = rid, ci_memory_space_id = run_memory_space_id r,
             ci_memory_record_id = run_memory_record_id r, ci_text = rec_text m,
             ci_attempt_count = next_attempt\<rparr>, db))))"

definition reset_incomplete_run_for_resume_tx :: "genv \<Rightarrow> nat \<Rightarrow> str \<Rightarrow> str \<Rightarrow> str tx" where
  "reset_incomplete_run_for_resume_tx E now rid sid db =
     and_then (query_row E (filter (\<lambda>r. run_id r = rid \<and> run_memory_space_id r = sid) (gd_runs db))) (\<lambda>r.
     let status = run_status r
     in if status = PENDING \<or> status = COMPLETED then Inr (status, db)
        else if status = FAILED \<or> status = RUNNING then
          and_then (update_one_run
            (\<lambda>x. run_id x = rid \<and> run_memory_space_id x = sid \<and> run_status x = status)
            (\<lambda>x. x\<lparr>run_status := PENDING, run_stage := ACCEPTED, run_error_code := None,
                  run_error_message := None, run_updated_at_ms := now, run_completed_at_ms := None\<rparr>)
            ''failed to reset incomplete graph ingestion run'' db) (\<lambda>db. Inr (PENDING, db))
        else Inl (MStoreBackend (lit ''graph ingestion run has unknown status `'' @ status @ lit ''`'')))"

text \<open>Embeddings are stored as little-endian bytes.\<close>

definition to_le_bytes :: "f32 \<Rightarrow> 8 word list" where
  "to_le_bytes v = map (\<lambda>i. ucast (drop_bit (8 * i) v)) [0, 1, 2, 3]"

definition from_le_bytes :: "8 word list \<Rightarrow> f32" where
  "from_le_bytes bs = or (ucast (bs ! 0)) (or (push_bit 8 (ucast (bs ! 1)))
     (or (push_bit 16 (ucast (bs ! 2))) (push_bit 24 (ucast (bs ! 3)))))"

definition embedding_to_blob :: "f32 list \<Rightarrow> 8 word list" where
  "embedding_to_blob embedding = concat (map to_le_bytes embedding)"

record RecordEmbeddingUpdate =
  eu_ingestion_run_id :: str
  eu_memory_record_id :: str
  eu_memory_space_id :: str
  eu_attempt_count :: int
  eu_embedding :: "f32 list"
  eu_embedding_model :: str
  eu_embedding_version :: str

definition store_record_embedding_tx :: "nat \<Rightarrow> RecordEmbeddingUpdate \<Rightarrow> unit tx" where
  "store_record_embedding_tx now u db =
     and_then (update_one_run
        (\<lambda>x. run_id x = eu_ingestion_run_id u \<and> run_memory_space_id x = eu_memory_space_id u
           \<and> run_attempt_count x = eu_attempt_count u \<and> run_status x = RUNNING
           \<and> run_stage x = EMBEDDING \<and> run_memory_record_id x = eu_memory_record_id u)
        (\<lambda>x. x\<lparr>run_status := RUNNING, run_stage := EXTRACTION, run_updated_at_ms := now\<rparr>)
        ''ingestion run attempt is no longer current'' db) (\<lambda>db.
     let P = (\<lambda>m. rec_id m = eu_memory_record_id u \<and> rec_memory_space_id m = eu_memory_space_id u)
     in and_then (require (MStoreBackend (lit ''graph memory record not found for embedding update''))
          (count_where P (gd_records db) = 1)) (\<lambda>_.
        Inr ((), db\<lparr>gd_records := update_where P
          (\<lambda>m. m\<lparr>rec_embedding := Some (embedding_to_blob (eu_embedding u)),
                rec_embedding_dims := Some (int (length (eu_embedding u))),
                rec_embedding_model := Some (eu_embedding_model u),
                rec_embedding_version := Some (eu_embedding_version u), rec_updated_at_ms := now\<rparr>)
          (gd_records db)\<rparr>)))"

record ClaimedExtractionRun =
  cx_ingestion_run_id :: str
  cx_memory_space_id :: str
  cx_memory_record_id :: str
  cx_text :: str
  cx_metadata :: json
  cx_attempt_count :: int
  cx_extraction_attempt_number :: int
  cx_context_record_ids :: "str list"

definition next_attempt_number :: "str \<Rightarrow> str \<Rightarrow> GraphDb \<Rightarrow> int" where
  "next_attempt_number rid sid db =
     (case map xr_attempt_number (filter (\<lambda>x. xr_ingestion_run_id x = rid \<and> xr_memory_space_id x = sid)
             (gd_extractions db)) of
        [] \<Rightarrow> 0
      | n # ns \<Rightarrow> fold max ns n) + 1"

definition parse_json :: "genv \<Rightarrow> str \<Rightarrow> json mresult" where
  "parse_json E s = (case g_from_str E s of Inl e \<Rightarrow> Inl (MJson e) | Inr v \<Rightarrow> Inr v)"

definition claim_extraction_run_tx :: "genv \<Rightarrow> nat \<Rightarrow> str \<Rightarrow> ClaimedExtractionRun tx" where
  "claim_extraction_run_tx E now rid db =
     and_then (query_row E (joined_runs rid db)) (\<lambda>(r, m).
     and_then (require (MInvalidInput (lit ''ingestion run is not ready for extraction: ''
          @ run_status r @ lit ''/'' @ run_stage r))
        (run_status r = RUNNING \<and> run_stage r = EXTRACTION)) (\<lambda>_.
     and_then (update_one_run
        (\<lambda>x. run_id x = rid \<and> run_status x = RUNNING \<and> run_stage x = EXTRACTION
           \<and> run_attempt_count x = run_attempt_count r)
        (\<lambda>x. x\<lparr>run_stage := EXTRACTING, run_updated_at_ms := now\<rparr>)
        ''failed to claim extraction run'' db) (\<lambda>db.
     and_then (parse_json E (rec_metadata_json m)) (\<lambda>metadata.
        Inr (\<lparr>cx_ingestion_run_id = rid, cx_memory_space_id = run_memory_space_id r,
             cx_memory_record_id = run_memory_record_id r, cx_text = rec_text m,
             cx_metadata = metadata, cx_attempt_count = run_attempt_count r,
             cx_extraction_attempt_number = next_attempt_number rid (run_memory_space_id r) db,
             cx_context_record_ids = [run_memory_record_id r]\<rparr>, db)))))"

definition run_exists :: "str \<Rightarrow> str \<Rightarrow> GraphDb \<Rightarrow> bool" where
  "run_exists rid sid db \<longleftrightarrow> (\<exists>r \<in> set (gd_runs db). run_id r = rid \<and> run_memory_space_id r = sid)"

definition insert_extraction_run :: "genv \<Rightarrow> ExtractionRun \<Rightarrow> GraphDb \<Rightarrow> GraphDb mresult" where
  "insert_extraction_run E x db =
     and_then (sql_check E (xr_id x \<notin> xr_id ` set (gd_extractions db)
       \<and> (\<forall>y \<in> set (gd_extractions db). \<not> (xr_memory_space_id y = xr_memory_space_id x
            \<and> xr_ingestion_run_id y = xr_ingestion_run_id x \<and> xr_attempt_number y = xr_attempt_number x))
       \<and> run_exists (xr_ingestion_run_id x) (xr_memory_space_id x) db)) (\<lambda>_.
     Inr (db\<lparr>gd_extractions := gd_extractions db @ [x]\<rparr>))"

text \<open>What the store of a completed and of a failed extraction have in common.\<close>

record ExtractionRunReport =
  xp_ingestion_run_id :: str
  xp_memory_space_id :: str
  xp_attempt_count :: int
  xp_attempt_number :: int
  xp_extractor_name :: str
  xp_model :: str
  xp_prompt_version :: str
  xp_schema_version :: str
  xp_type_registry_version :: str
  xp_context_record_ids :: "str list"
  xp_latency_ms :: "int option"

record ExtractionRunCompletion = ExtractionRunReport +
  xp_structured_output :: json
  xp_input_tokens :: "int option"
  xp_output_tokens :: "int option"

record ExtractionRunFailure = ExtractionRunReport +
  xp_error_code :: str
  xp_error_message :: str

definition extraction_current :: "'a ExtractionRunReport_scheme \<Rightarrow> IngestionRun \<Rightarrow> bool" where
  "extraction_current c x \<longleftrightarrow> run_id x = xp_ingestion_run_id c \<and> run_memory_space_id x = xp_memory_space_id c
     \<and> run_status x = RUNNING \<and> run_stage x = EXTRACTING \<and> run_attempt_count x = xp_attempt_count c"

definition store_extraction_success_tx ::
    "genv \<Rightarrow> nat \<Rightarrow> ExtractionRunCompletion \<Rightarrow> ExtractionRun tx" where
  "store_extraction_success_tx E now c db =
     (let (xid, db) = new_v4 E db;
          x = \<lparr>xr_id = xid, xr_memory_space_id = xp_memory_space_id c,
               xr_ingestion_run_id = xp_ingestion_run_id c, xr_attempt_number = xp_attempt_number c,
               xr_status = COMPLETED, xr_extractor_name = xp_extractor_name c, xr_model = xp_model c,
               xr_prompt_version = xp_prompt_version c, xr_schema_version = xp_schema_version c,
               xr_type_registry_version = xp_type_registry_version c,
               xr_context_record_ids = xp_context_record_ids c,
               xr_structured_output = Some (xp_structured_output c),
               xr_input_tokens = xp_input_tokens c, xr_output_tokens = xp_output_tokens c,
               xr_latency_ms = xp_latency_ms c, xr_error_code = None, xr_error_message = None,
               xr_created_at_ms = now, xr_completed_at_ms = Some now\<rparr>
      in and_then (insert_extraction_run E x db) (\<lambda>db.
         and_then (update_one_run (extraction_current c)
           (\<lambda>r. r\<lparr>run_stage := RESOLUTION, run_updated_at_ms := now\<rparr>)
           ''ingestion run is no longer current for extraction completion'' db) (\<lambda>db.
         Inr (x, db))))"

definition store_extraction_failure_tx ::
    "genv \<Rightarrow> nat \<Rightarrow> ExtractionRunFailure \<Rightarrow> ExtractionRun tx" where
  "store_extraction_failure_tx E now c db =
     (let (xid, db) = new_v4 E db;
          x = \<lparr>xr_id = xid, xr_memory_space_id = xp_memory_space_id c,
               xr_ingestion_run_id = xp_ingestion_run_id c, xr_attempt_number = xp_attempt_number c,
               xr_status = FAILED, xr_extractor_name = xp_extractor_name c, xr_model = xp_model c,
               xr_prompt_version = xp_prompt_version c, xr_schema_version = xp_schema_version c,
               xr_type_registry_version = xp_type_registry_version c,
               xr_context_record_ids = xp_context_record_ids c,
               xr_structured_output = None, xr_input_tokens = None, xr_output_tokens = None,
               xr_latency_ms = xp_latency_ms c, xr_error_code = Some (xp_error_code c),
               xr_error_message = Some (xp_error_message c),
               xr_created_at_ms = now, xr_completed_at_ms = Some now\<rparr>
      in and_then (insert_extraction_run E x db) (\<lambda>db.
         and_then (update_one_run (extraction_current c)
           (\<lambda>r. r\<lparr>run_status := FAILED, run_error_code := Some (xp_error_code c),
                 run_error_message := Some (xp_error_message c), run_updated_at_ms := now,
                 run_completed_at_ms := Some now\<rparr>)
           ''ingestion run is no longer current for extraction failure'' db) (\<lambda>db.
         Inr (x, db))))"

record ClaimedResolutionRun =
  cr_ingestion_run_id :: str
  cr_memory_space_id :: str
  cr_memory_record_id :: str
  cr_text :: str
  cr_metadata :: json
  cr_attempt_count :: int
  cr_extraction_run_id :: str
  cr_extraction_output :: GraphExtractionOutput

text \<open>The completed extraction with the greatest attempt number.\<close>

definition completed_extractions :: "str \<Rightarrow> str \<Rightarrow> GraphDb \<Rightarrow> ExtractionRun list" where
  "completed_extractions rid sid db = rev (sort_key xr_attempt_number (filter (\<lambda>x.
     xr_ingestion_run_id x = rid \<and> xr_memory_space_id x = sid \<and> xr_status x = COMPLETED)
       (gd_extractions db)))"

definition resolution_rows :: "str \<Rightarrow> GraphDb \<Rightarrow> (IngestionRun \<times> GraphMemoryRow \<times> ExtractionRun) list" where
  "resolution_rows rid db = [(r, m, x). (r, m) \<leftarrow> joined_runs rid db,
     x \<leftarrow> completed_extractions rid (run_memory_space_id r) db]"

text \<open>The derived JSON forms of an answer are the argument \<open>output_codec\<close>; the metadata is parsed
  after the commit.\<close>

record output_codec =
  oc_value :: "GraphExtractionOutput \<Rightarrow> json"
  oc_read :: "str \<Rightarrow> str + GraphExtractionOutput"

definition claim_resolution_run_tx ::
    "genv \<Rightarrow> output_codec \<Rightarrow> nat \<Rightarrow> str \<Rightarrow> (str \<times> ClaimedResolutionRun) tx" where
  "claim_resolution_run_tx E C now rid db =
     and_then (query_row E (resolution_rows rid db)) (\<lambda>(r, m, x).
     and_then (require (MInvalidInput (lit ''ingestion run is not ready for resolution: ''
          @ run_status r @ lit ''/'' @ run_stage r))
        (run_status r = RUNNING \<and> run_stage r = RESOLUTION)) (\<lambda>_.
     case xr_structured_output x of
       None \<Rightarrow> Inl (MStoreBackend (lit ''completed extraction run has no structured output''))
     | Some v \<Rightarrow> (case oc_read C (g_to_string E v) of
         Inl e \<Rightarrow> Inl (MJson e)
       | Inr out \<Rightarrow> and_then (update_one_run
             (\<lambda>y. run_id y = rid \<and> run_memory_space_id y = run_memory_space_id r
                \<and> run_status y = RUNNING \<and> run_stage y = RESOLUTION
                \<and> run_attempt_count y = run_attempt_count r)
             (\<lambda>y. y\<lparr>run_stage := RESOLVING, run_updated_at_ms := now\<rparr>)
             ''failed to claim resolution run'' db) (\<lambda>db.
           Inr ((rec_metadata_json m,
             \<lparr>cr_ingestion_run_id = rid, cr_memory_space_id = run_memory_space_id r,
              cr_memory_record_id = run_memory_record_id r, cr_text = rec_text m, cr_metadata = JNull,
              cr_attempt_count = run_attempt_count r, cr_extraction_run_id = xr_id x,
              cr_extraction_output = out\<rparr>), db)))))"

definition claim_resolution_run_sync ::
    "genv \<Rightarrow> output_codec \<Rightarrow> nat \<Rightarrow> str \<Rightarrow> GraphDb
      \<Rightarrow> ClaimedResolutionRun mresult \<times> GraphDb" where
  "claim_resolution_run_sync E C now rid db =
     (case transaction (claim_resolution_run_tx E C now rid) db of
        (Inl e, db') \<Rightarrow> (Inl e, db')
      | (Inr (md, c), db') \<Rightarrow> (and_then (parse_json E md) (\<lambda>v. Inr (c\<lparr>cr_metadata := v\<rparr>)), db'))"

definition mark_run_failed_tx :: "nat \<Rightarrow> str \<Rightarrow> int \<Rightarrow> str \<Rightarrow> str \<Rightarrow> str \<Rightarrow> unit tx" where
  "mark_run_failed_tx now rid attempt_count stage code message db =
     and_then (update_one_run
        (\<lambda>x. run_id x = rid \<and> run_attempt_count x = attempt_count \<and> run_status x = RUNNING
           \<and> run_stage x = stage)
        (\<lambda>x. x\<lparr>run_status := FAILED, run_stage := stage, run_error_code := Some code,
              run_error_message := Some message, run_updated_at_ms := now,
              run_completed_at_ms := Some now\<rparr>)
        ''failed to mark ingestion run failed'' db) (\<lambda>db. Inr ((), db))"

definition get_run_rows :: "str \<Rightarrow> str \<Rightarrow> GraphDb \<Rightarrow> IngestionRun list" where
  "get_run_rows rid sid db = filter (\<lambda>r. run_id r = rid \<and> run_memory_space_id r = sid) (gd_runs db)"

end
