(* ===== verification/GraphPublish.thy ===== *)
theory GraphPublish
  imports GraphStore "HOL-Library.List_Lexorder" "HOL-Library.Product_Lexorder"
begin

text \<open>
  The publication of a resolved extraction (\<open>publish_resolution_sync\<close> and its helpers): entities are
  found by normalized name or by a unique alias or created, facts are found by their
  de-duplication key or created, every fact gets an evidence group, every decision is recorded, and
  the run completes - all in one transaction.
\<close>

section \<open>Inserts\<close>

record ResolutionPublishRequest =
  pq_ingestion_run_id :: str
  pq_memory_space_id :: str
  pq_memory_record_id :: str
  pq_extraction_run_id :: str
  pq_attempt_count :: int
  pq_extraction_output :: GraphExtractionOutput
  pq_source_entity :: "GraphSourceEntity option"
  pq_type_registry_version :: str
  pq_resolver_version :: str

definition active_entity :: "Entity \<Rightarrow> bool" where
  "active_entity e \<longleftrightarrow> ent_status e = ACTIVE \<and> ent_deleted_at_ms e = None"

definition active_fact :: "Fact \<Rightarrow> bool" where
  "active_fact f \<longleftrightarrow> fct_status f = ACTIVE \<and> fct_retired_at_ms f = None"

definition entity_exists :: "str \<Rightarrow> str \<Rightarrow> GraphDb \<Rightarrow> bool" where
  "entity_exists i sid db \<longleftrightarrow> (\<exists>e \<in> set (gd_entities db). ent_id e = i \<and> ent_memory_space_id e = sid)"

definition fact_exists :: "str \<Rightarrow> str \<Rightarrow> GraphDb \<Rightarrow> bool" where
  "fact_exists i sid db \<longleftrightarrow> (\<exists>f \<in> set (gd_facts db). fct_id f = i \<and> fct_memory_space_id f = sid)"

definition group_exists :: "str \<Rightarrow> str \<Rightarrow> GraphDb \<Rightarrow> bool" where
  "group_exists i sid db \<longleftrightarrow> (\<exists>g \<in> set (gd_groups db). evg_id g = i \<and> evg_memory_space_id g = sid)"

definition insert_entity :: "genv \<Rightarrow> Entity \<Rightarrow> GraphDb \<Rightarrow> GraphDb mresult" where
  "insert_entity E e db =
     and_then (sql_check E (ent_id e \<notin> ent_id ` set (gd_entities db)
       \<and> (\<forall>e' \<in> set (gd_entities db). \<not> (active_entity e' \<and> ent_memory_space_id e' = ent_memory_space_id e
             \<and> ent_entity_type e' = ent_entity_type e \<and> ent_normalized_name e' = ent_normalized_name e))
       \<and> ent_memory_space_id e \<in> ms_id ` set (gd_spaces db))) (\<lambda>_.
     Inr (db\<lparr>gd_entities := gd_entities db @ [e],
            gd_entity_fts := gd_entity_fts db @ [(ent_id e, ent_memory_space_id e, ent_canonical_name e)]\<rparr>))"

definition ensure_entity_alias ::
    "genv \<Rightarrow> nat \<Rightarrow> str \<Rightarrow> str \<Rightarrow> str \<Rightarrow> str \<Rightarrow> GraphDb \<Rightarrow> GraphDb mresult" where
  "ensure_entity_alias E now sid entity_id display_alias normalized_alias db =
     (let (alias_id, db) = new_v4 E db
      in if (\<exists>a \<in> set (gd_aliases db). als_id a = alias_id
             \<or> als_deleted_at_ms a = None \<and> als_memory_space_id a = sid \<and> als_entity_id a = entity_id
               \<and> als_normalized_alias a = normalized_alias)
         then Inr db
         else and_then (sql_check E (entity_exists entity_id sid db)) (\<lambda>_.
           Inr (db\<lparr>gd_aliases := gd_aliases db @ [\<lparr>als_id = alias_id, als_memory_space_id = sid,
                    als_entity_id = entity_id, als_display_alias = display_alias,
                    als_normalized_alias = normalized_alias, als_created_at_ms = now,
                    als_deleted_at_ms = None\<rparr>],
                  gd_alias_fts := gd_alias_fts db @ [(alias_id, sid, display_alias)]\<rparr>)))"

definition insert_resolution_decision ::
    "genv \<Rightarrow> nat \<Rightarrow> ResolutionPublishRequest \<Rightarrow> string \<Rightarrow> str \<Rightarrow> str list \<Rightarrow> str \<Rightarrow> string \<Rightarrow> GraphDb
      \<Rightarrow> GraphDb mresult" where
  "insert_resolution_decision E now q kind input_key candidate_ids selected_id action db =
     (let (did, db) = new_v4 E db
      in and_then (sql_check E (did \<notin> rdc_id ` set (gd_decisions db)
            \<and> run_exists (pq_ingestion_run_id q) (pq_memory_space_id q) db)) (\<lambda>_.
         Inr (db\<lparr>gd_decisions := gd_decisions db @ [\<lparr>rdc_id = did,
              rdc_memory_space_id = pq_memory_space_id q, rdc_ingestion_run_id = pq_ingestion_run_id q,
              rdc_decision_kind = lit kind, rdc_input_key = input_key,
              rdc_candidate_ids = candidate_ids, rdc_selected_id = selected_id,
              rdc_action = lit action, rdc_method = lit ''deterministic'',
              rdc_resolver_version = pq_resolver_version q, rdc_created_at_ms = now\<rparr>]\<rparr>)))"

definition insert_record_entity_link ::
    "genv \<Rightarrow> nat \<Rightarrow> ResolutionPublishRequest \<Rightarrow> str \<Rightarrow> string \<Rightarrow> nat tx" where
  "insert_record_entity_link E now q entity_id link_kind db =
     (let (lid, db) = new_v4 E db;
          sid = pq_memory_space_id q
      in if (\<exists>l \<in> set (gd_links db). rel_id l = lid
             \<or> rel_memory_space_id l = sid \<and> rel_memory_record_id l = pq_memory_record_id q
               \<and> rel_entity_id l = entity_id \<and> rel_link_kind l = lit link_kind)
         then Inr (0, db)
         else and_then (sql_check E (record_exists (pq_memory_record_id q) sid db
                 \<and> entity_exists entity_id sid db
                 \<and> pq_extraction_run_id q \<in> xr_id ` set (gd_extractions db))) (\<lambda>_.
           Inr (1, db\<lparr>gd_links := gd_links db @ [\<lparr>rel_id = lid, rel_memory_space_id = sid,
                rel_memory_record_id = pq_memory_record_id q, rel_entity_id = entity_id,
                rel_link_kind = lit link_kind, rel_extraction_run_id = pq_extraction_run_id q,
                rel_created_at_ms = now\<rparr>]\<rparr>)))"


section \<open>Entities\<close>

definition find_entity_by_normalized_name :: "str \<Rightarrow> str \<Rightarrow> str \<Rightarrow> GraphDb \<Rightarrow> str option" where
  "find_entity_by_normalized_name sid entity_type normalized_name db =
     (case sort_key (\<lambda>e. (ent_created_at_ms e, ent_id e)) (filter (\<lambda>e. ent_memory_space_id e = sid
          \<and> ent_entity_type e = entity_type \<and> ent_normalized_name e = normalized_name
          \<and> active_entity e) (gd_entities db)) of
        [] \<Rightarrow> None
      | e # _ \<Rightarrow> Some (ent_id e))"

text \<open>The entities that carry an alias, one row for each alias that matches.\<close>

definition alias_rows :: "str \<Rightarrow> str \<Rightarrow> str \<Rightarrow> GraphDb \<Rightarrow> Entity list" where
  "alias_rows sid entity_type normalized_alias db =
     [e. a \<leftarrow> gd_aliases db, e \<leftarrow> gd_entities db,
       ent_id e = als_entity_id a \<and> ent_memory_space_id e = als_memory_space_id a
       \<and> als_memory_space_id a = sid \<and> als_normalized_alias a = normalized_alias
       \<and> als_deleted_at_ms a = None \<and> ent_entity_type e = entity_type \<and> active_entity e]"

definition find_unique_entity_by_alias :: "str \<Rightarrow> str \<Rightarrow> str \<Rightarrow> GraphDb \<Rightarrow> str option" where
  "find_unique_entity_by_alias sid entity_type normalized_alias db =
     (case take 2 (sort_key (\<lambda>e. (ent_created_at_ms e, ent_id e))
             (alias_rows sid entity_type normalized_alias db)) of
        [e] \<Rightarrow> Some (ent_id e)
      | _ \<Rightarrow> None)"

definition reuse_entity ::
    "genv \<Rightarrow> nat \<Rightarrow> ResolutionPublishRequest \<Rightarrow> ExtractedEntityCandidate \<Rightarrow> str \<Rightarrow> (str \<times> bool) tx" where
  "reuse_entity E now q c entity_id db =
     and_then (ensure_entity_alias E now (pq_memory_space_id q) entity_id (ec_name c)
        (normalize_graph_text E (ec_name c)) db) (\<lambda>db.
     and_then (insert_resolution_decision E now q ''entity_resolution'' (ec_local_id c) [entity_id]
        entity_id ''reuse'' db) (\<lambda>db. Inr ((entity_id, False), db)))"

definition create_entity ::
    "genv \<Rightarrow> nat \<Rightarrow> ResolutionPublishRequest \<Rightarrow> ExtractedEntityCandidate \<Rightarrow> (str \<times> bool) tx" where
  "create_entity E now q c db =
     (let (entity_id, db) = new_v4 E db;
          normalized_name = normalize_graph_text E (ec_name c)
      in and_then (insert_entity E \<lparr>ent_id = entity_id, ent_memory_space_id = pq_memory_space_id q,
            ent_canonical_name = ec_name c, ent_normalized_name = normalized_name,
            ent_entity_type = ec_entity_type c, ent_status = ACTIVE,
            ent_type_registry_version = pq_type_registry_version q, ent_created_at_ms = now,
            ent_deleted_at_ms = None\<rparr> db) (\<lambda>db.
         and_then (ensure_entity_alias E now (pq_memory_space_id q) entity_id (ec_name c)
            normalized_name db) (\<lambda>db.
         and_then (insert_resolution_decision E now q ''entity_resolution'' (ec_local_id c) []
            entity_id ''create'' db) (\<lambda>db. Inr ((entity_id, True), db)))))"

definition resolve_entity_candidate ::
    "genv \<Rightarrow> nat \<Rightarrow> ResolutionPublishRequest \<Rightarrow> ExtractedEntityCandidate \<Rightarrow> (str \<times> bool) tx" where
  "resolve_entity_candidate E now q c db =
     (let sid = pq_memory_space_id q;
          normalized_name = normalize_graph_text E (ec_name c)
      in case find_entity_by_normalized_name sid (ec_entity_type c) normalized_name db of
           Some i \<Rightarrow> reuse_entity E now q c i db
         | None \<Rightarrow> (case find_unique_entity_by_alias sid (ec_entity_type c) normalized_name db of
             Some i \<Rightarrow> reuse_entity E now q c i db
           | None \<Rightarrow> create_entity E now q c db))"


section \<open>Facts\<close>

definition fact_dedup_key :: "genv \<Rightarrow> str \<Rightarrow> str \<Rightarrow> str \<Rightarrow> str \<Rightarrow> str" where
  "fact_dedup_key E subj predicate obj normalized_fact_text =
     g_to_string E (JArray (map JString [subj, predicate, obj, normalized_fact_text]))"

definition find_fact_by_dedup_key :: "str \<Rightarrow> str \<Rightarrow> GraphDb \<Rightarrow> str option" where
  "find_fact_by_dedup_key sid key db =
     (case sort_key (\<lambda>f. (fct_recorded_at_ms f, fct_id f)) (filter (\<lambda>f. fct_memory_space_id f = sid
          \<and> fct_dedup_key f = key \<and> active_fact f) (gd_facts db)) of
        [] \<Rightarrow> None
      | f # _ \<Rightarrow> Some (fct_id f))"

definition insert_fact :: "genv \<Rightarrow> Fact \<Rightarrow> GraphDb \<Rightarrow> GraphDb mresult" where
  "insert_fact E f db =
     and_then (sql_check E (fct_id f \<notin> fct_id ` set (gd_facts db)
       \<and> (\<forall>f' \<in> set (gd_facts db). \<not> (active_fact f' \<and> fct_memory_space_id f' = fct_memory_space_id f
             \<and> fct_dedup_key f' = fct_dedup_key f))
       \<and> entity_exists (fct_subject_entity_id f) (fct_memory_space_id f) db
       \<and> entity_exists (fct_object_entity_id f) (fct_memory_space_id f) db)) (\<lambda>_.
     Inr (db\<lparr>gd_facts := gd_facts db @ [f],
            gd_fact_fts := gd_fact_fts db @ [(fct_id f, fct_memory_space_id f, fct_fact_text f)]\<rparr>))"

definition insert_history ::
    "genv \<Rightarrow> nat \<Rightarrow> ResolutionPublishRequest \<Rightarrow> str \<Rightarrow> GraphDb \<Rightarrow> GraphDb mresult" where
  "insert_history E now q fact_id db =
     (let (hid, db) = new_v4 E db;
          sid = pq_memory_space_id q
      in and_then (sql_check E (hid \<notin> hst_id ` set (gd_history db) \<and> fact_exists fact_id sid db
            \<and> record_exists (pq_memory_record_id q) sid db)) (\<lambda>_.
         Inr (db\<lparr>gd_history := gd_history db @ [\<lparr>hst_id = hid, hst_memory_space_id = sid,
              hst_fact_id = fact_id, hst_old_status = None, hst_new_status = ACTIVE,
              hst_reason_code = lit ''created_from_extraction'',
              hst_trigger_record_id = pq_memory_record_id q, hst_created_at_ms = now\<rparr>]\<rparr>)))"

definition resolve_fact_candidate ::
    "genv \<Rightarrow> nat \<Rightarrow> ResolutionPublishRequest \<Rightarrow> ExtractedFactCandidate \<Rightarrow> str \<Rightarrow> str \<Rightarrow> (str \<times> bool) tx" where
  "resolve_fact_candidate E now q c subj obj db =
     (let sid = pq_memory_space_id q;
          key = fact_dedup_key E subj (fc_predicate c) obj (normalize_graph_text E (fc_fact_text c))
      in case find_fact_by_dedup_key sid key db of
           Some i \<Rightarrow> and_then (insert_resolution_decision E now q ''fact_resolution'' (fc_local_id c) [i] i
               ''reuse'' db) (\<lambda>db. Inr ((i, False), db))
         | None \<Rightarrow>
             let (fact_id, db) = new_v4 E db
             in and_then (insert_fact E \<lparr>fct_id = fact_id, fct_memory_space_id = sid,
                  fct_subject_entity_id = subj, fct_predicate = fc_predicate c,
                  fct_object_entity_id = obj, fct_fact_text = fc_fact_text c, fct_dedup_key = key,
                  fct_status = ACTIVE, fct_valid_from_ms = fc_valid_from_ms c,
                  fct_valid_to_ms = fc_valid_to_ms c, fct_recorded_at_ms = now,
                  fct_retired_at_ms = None, fct_type_registry_version = pq_type_registry_version q\<rparr> db) (\<lambda>db.
                and_then (insert_history E now q fact_id db) (\<lambda>db.
                and_then (insert_resolution_decision E now q ''fact_resolution'' (fc_local_id c) []
                  fact_id ''create'' db) (\<lambda>db. Inr ((fact_id, True), db)))))"

definition insert_fact_evidence ::
    "genv \<Rightarrow> nat \<Rightarrow> ResolutionPublishRequest \<Rightarrow> str \<Rightarrow> GraphEvidenceSpan \<Rightarrow> GraphDb \<Rightarrow> GraphDb mresult" where
  "insert_fact_evidence E now q gid ev db =
     (let (eid, db) = new_v4 E db;
          sid = pq_memory_space_id q
      in and_then (sql_check E (eid \<notin> evi_id ` set (gd_evidence db) \<and> group_exists gid sid db
            \<and> record_exists (pq_memory_record_id q) sid db)) (\<lambda>_.
         Inr (db\<lparr>gd_evidence := gd_evidence db @ [\<lparr>evi_id = eid, evi_memory_space_id = sid,
              evi_evidence_group_id = gid, evi_memory_record_id = pq_memory_record_id q,
              evi_evidence_text = sp_text ev, evi_start_byte = sp_start_byte ev,
              evi_end_byte = sp_end_byte ev, evi_created_at_ms = now\<rparr>]\<rparr>)))"

definition insert_fact_evidence_group ::
    "genv \<Rightarrow> nat \<Rightarrow> ResolutionPublishRequest \<Rightarrow> str \<Rightarrow> ExtractedFactCandidate \<Rightarrow> nat tx" where
  "insert_fact_evidence_group E now q fact_id c db =
     (let (gid, db) = new_v4 E db;
          sid = pq_memory_space_id q
      in and_then (sql_check E (gid \<notin> evg_id ` set (gd_groups db) \<and> fact_exists fact_id sid db)) (\<lambda>_.
         let db = db\<lparr>gd_groups := gd_groups db @ [\<lparr>evg_id = gid, evg_memory_space_id = sid,
              evg_fact_id = fact_id, evg_evidence_kind = lit ''support'',
              evg_extraction_run_id = pq_extraction_run_id q, evg_created_at_ms = now\<rparr>]\<rparr>
         in and_then (for_each (insert_fact_evidence E now q gid) (fc_evidence c) db) (\<lambda>db.
            Inr (length (fc_evidence c), db))))"


section \<open>Publication\<close>

record publish_counts =
  pc_entities_created :: nat
  pc_entities_reused :: nat
  pc_facts_created :: nat
  pc_facts_reused :: nat
  pc_evidence_inserted :: nat
  pc_record_entity_links_inserted :: nat

definition no_counts :: publish_counts where
  "no_counts = \<lparr>pc_entities_created = 0, pc_entities_reused = 0, pc_facts_created = 0,
     pc_facts_reused = 0, pc_evidence_inserted = 0, pc_record_entity_links_inserted = 0\<rparr>"

definition count_entity :: "bool \<Rightarrow> nat \<Rightarrow> publish_counts \<Rightarrow> publish_counts" where
  "count_entity created links k =
     (let k = (if created then k\<lparr>pc_entities_created := pc_entities_created k + 1\<rparr>
               else k\<lparr>pc_entities_reused := pc_entities_reused k + 1\<rparr>)
      in k\<lparr>pc_record_entity_links_inserted := pc_record_entity_links_inserted k + links\<rparr>)"

definition count_fact :: "bool \<Rightarrow> nat \<Rightarrow> publish_counts \<Rightarrow> publish_counts" where
  "count_fact created evidence k =
     (let k = (if created then k\<lparr>pc_facts_created := pc_facts_created k + 1\<rparr>
               else k\<lparr>pc_facts_reused := pc_facts_reused k + 1\<rparr>)
      in k\<lparr>pc_evidence_inserted := pc_evidence_inserted k + evidence\<rparr>)"

text \<open>The state of the loops: the entities resolved so far by local id, the counts, the tables.\<close>

type_synonym publish_state = "(str \<times> str) list \<times> publish_counts \<times> GraphDb"

definition publish_entity ::
    "genv \<Rightarrow> nat \<Rightarrow> ResolutionPublishRequest \<Rightarrow> string \<Rightarrow> bool \<Rightarrow> ExtractedEntityCandidate
      \<Rightarrow> publish_state \<Rightarrow> publish_state mresult" where
  "publish_entity E now q link_kind mapped c s = (let (entities, k, db) = s in
     and_then (resolve_entity_candidate E now q c db) (\<lambda>((i, created), db).
     and_then (insert_record_entity_link E now q i link_kind db) (\<lambda>(links, db).
     Inr (if mapped then AList.update (ec_local_id c) i entities else entities,
          count_entity created links k, db))))"

definition publish_fact ::
    "genv \<Rightarrow> nat \<Rightarrow> ResolutionPublishRequest \<Rightarrow> (str \<times> str) list \<Rightarrow> ExtractedFactCandidate
      \<Rightarrow> publish_counts \<times> GraphDb \<Rightarrow> (publish_counts \<times> GraphDb) mresult" where
  "publish_fact E now q entities c s = (let (k, db) = s in
     case map_of entities (fc_subject_ref c) of
       None \<Rightarrow> Inl (MStoreBackend (lit ''resolved subject entity missing for fact '' @ quoted (fc_local_id c)))
     | Some subj \<Rightarrow> (case map_of entities (fc_object_ref c) of
         None \<Rightarrow> Inl (MStoreBackend (lit ''resolved object entity missing for fact '' @ quoted (fc_local_id c)))
       | Some obj \<Rightarrow>
           and_then (resolve_fact_candidate E now q c subj obj db) (\<lambda>((i, created), db).
           and_then (insert_fact_evidence_group E now q i c db) (\<lambda>(n, db).
           Inr (count_fact created n k, db)))))"

definition publish_source ::
    "genv \<Rightarrow> nat \<Rightarrow> ResolutionPublishRequest \<Rightarrow> publish_state \<Rightarrow> publish_state mresult" where
  "publish_source E now q s = (case pq_source_entity q of
     None \<Rightarrow> Inr s
   | Some se \<Rightarrow> publish_entity E now q ''source_actor'' False
       \<lparr>ec_local_id = lit ''source_entity'', ec_name = se_name se,
        ec_entity_type = se_entity_type se, ec_confidence = None\<rparr> s)"

definition publish_resolution_tx ::
    "genv \<Rightarrow> nat \<Rightarrow> ResolutionPublishRequest \<Rightarrow> (IngestionRun \<times> publish_counts) tx" where
  "publish_resolution_tx E now q db =
     and_then (publish_source E now q ([], no_counts, db)) (\<lambda>s.
     and_then (for_each (publish_entity E now q ''extracted_mention'' True)
        (go_entities (pq_extraction_output q)) s) (\<lambda>(entities, k, db).
     and_then (for_each (publish_fact E now q entities) (go_facts (pq_extraction_output q)) (k, db)) (\<lambda>(k, db).
     and_then (update_one_run
        (\<lambda>x. run_id x = pq_ingestion_run_id q \<and> run_memory_space_id x = pq_memory_space_id q
           \<and> run_status x = RUNNING \<and> run_stage x = RESOLVING \<and> run_attempt_count x = pq_attempt_count q)
        (\<lambda>x. x\<lparr>run_status := COMPLETED, run_stage := COMPLETED, run_updated_at_ms := now,
              run_completed_at_ms := Some now\<rparr>)
        ''ingestion run is no longer current for resolution completion'' db) (\<lambda>db.
     and_then (query_row E (get_run_rows (pq_ingestion_run_id q) (pq_memory_space_id q) db)) (\<lambda>r.
     Inr ((r, k), db))))))"

end
