(* ===== verification/GraphPipeline.thy ===== *)
theory GraphPipeline
  imports GraphPublish
begin

text \<open>
  The repository's operations as the pipeline calls them, the three stage executors
  (\<open>graph/ingestion.rs\<close>, \<open>graph/extraction.rs\<close>, \<open>graph/resolution.rs\<close>) and the build pipeline
  (\<open>graph/pipeline.rs\<close>). The embedder and the extractor are records of functions, as the traits are;
  their answers may depend on how many operations came before.
\<close>

section \<open>The repository\<close>

record GraphRepository =
  repo_db :: GraphDb
  repo_ops :: nat

definition run_sqlite_operation ::
    "genv \<Rightarrow> (nat \<Rightarrow> GraphDb \<Rightarrow> 'a mresult \<times> GraphDb) \<Rightarrow> GraphRepository \<Rightarrow> 'a mresult \<times> GraphRepository" where
  "run_sqlite_operation E f s =
     (let n = repo_ops s; s = s\<lparr>repo_ops := Suc n\<rparr>
      in case g_fault E n of
           Some e \<Rightarrow> (Inl e, s)
         | None \<Rightarrow> (let (r, db) = f (g_now E n) (repo_db s) in (r, s\<lparr>repo_db := db\<rparr>)))"

definition accept_memory_record ::
    "genv \<Rightarrow> GraphAddMemoryRequest \<Rightarrow> GraphRepository \<Rightarrow> GraphAddMemoryResponse mresult \<times> GraphRepository" where
  "accept_memory_record E q s =
     (if trim (rq_text q) = [] then (Inl (MInvalidInput (lit ''memory text must not be empty'')), s)
      else run_sqlite_operation E (\<lambda>now. transaction (accept_memory_record_tx E now q)) s)"

definition claim_pending_run ::
    "genv \<Rightarrow> str \<Rightarrow> GraphRepository \<Rightarrow> ClaimedIngestionRun mresult \<times> GraphRepository" where
  "claim_pending_run E rid = run_sqlite_operation E (\<lambda>now. transaction (claim_pending_run_tx E now rid))"

definition reset_incomplete_run_for_resume ::
    "genv \<Rightarrow> str \<Rightarrow> str \<Rightarrow> GraphRepository \<Rightarrow> str mresult \<times> GraphRepository" where
  "reset_incomplete_run_for_resume E rid sid =
     run_sqlite_operation E (\<lambda>now. transaction (reset_incomplete_run_for_resume_tx E now rid sid))"

definition store_record_embedding ::
    "genv \<Rightarrow> RecordEmbeddingUpdate \<Rightarrow> GraphRepository \<Rightarrow> unit mresult \<times> GraphRepository" where
  "store_record_embedding E u =
     run_sqlite_operation E (\<lambda>now. transaction (store_record_embedding_tx now u))"

definition claim_extraction_run ::
    "genv \<Rightarrow> str \<Rightarrow> GraphRepository \<Rightarrow> ClaimedExtractionRun mresult \<times> GraphRepository" where
  "claim_extraction_run E rid =
     run_sqlite_operation E (\<lambda>now. transaction (claim_extraction_run_tx E now rid))"

definition store_extraction_success ::
    "genv \<Rightarrow> ExtractionRunCompletion \<Rightarrow> GraphRepository \<Rightarrow> ExtractionRun mresult \<times> GraphRepository" where
  "store_extraction_success E c =
     run_sqlite_operation E (\<lambda>now. transaction (store_extraction_success_tx E now c))"

definition store_extraction_failure ::
    "genv \<Rightarrow> ExtractionRunFailure \<Rightarrow> GraphRepository \<Rightarrow> ExtractionRun mresult \<times> GraphRepository" where
  "store_extraction_failure E c =
     run_sqlite_operation E (\<lambda>now. transaction (store_extraction_failure_tx E now c))"

definition claim_resolution_run ::
    "genv \<Rightarrow> output_codec \<Rightarrow> str \<Rightarrow> GraphRepository
      \<Rightarrow> ClaimedResolutionRun mresult \<times> GraphRepository" where
  "claim_resolution_run E C rid =
     run_sqlite_operation E (\<lambda>now. claim_resolution_run_sync E C now rid)"

definition publish_resolution ::
    "genv \<Rightarrow> ResolutionPublishRequest \<Rightarrow> GraphRepository
      \<Rightarrow> (IngestionRun \<times> publish_counts) mresult \<times> GraphRepository" where
  "publish_resolution E q = run_sqlite_operation E (\<lambda>now. transaction (publish_resolution_tx E now q))"

definition mark_run_failed_if_current_attempt ::
    "genv \<Rightarrow> str \<Rightarrow> int \<Rightarrow> str \<Rightarrow> str \<Rightarrow> str \<Rightarrow> GraphRepository \<Rightarrow> unit mresult \<times> GraphRepository" where
  "mark_run_failed_if_current_attempt E rid attempt_count stage code message =
     run_sqlite_operation E (\<lambda>now. transaction (mark_run_failed_tx now rid attempt_count stage code message))"

definition get_run ::
    "genv \<Rightarrow> str \<Rightarrow> str \<Rightarrow> GraphRepository \<Rightarrow> IngestionRun mresult \<times> GraphRepository" where
  "get_run E rid sid =
     run_sqlite_operation E (\<lambda>_ db. (query_row E (get_run_rows rid sid db), db))"


section \<open>The vector stage\<close>

record EmbeddingProvider =
  ep_model_name :: str
  ep_embed_one :: "nat \<Rightarrow> str \<Rightarrow> f32 list mresult"

definition GRAPH_EMBEDDING_VERSION :: str where
  "GRAPH_EMBEDDING_VERSION = lit ''graph-embedding-v1''"

definition embedding_update ::
    "EmbeddingProvider \<Rightarrow> str \<Rightarrow> ClaimedIngestionRun \<Rightarrow> f32 list \<Rightarrow> RecordEmbeddingUpdate" where
  "embedding_update ep rid c v =
     \<lparr>eu_ingestion_run_id = rid, eu_memory_record_id = ci_memory_record_id c,
      eu_memory_space_id = ci_memory_space_id c, eu_attempt_count = ci_attempt_count c,
      eu_embedding = v, eu_embedding_model = ep_model_name ep,
      eu_embedding_version = GRAPH_EMBEDDING_VERSION\<rparr>"

definition process_vector_stage ::
    "genv \<Rightarrow> EmbeddingProvider \<Rightarrow> str \<Rightarrow> GraphRepository \<Rightarrow> unit mresult \<times> GraphRepository" where
  "process_vector_stage E ep rid s =
     (case claim_pending_run E rid s of
        (Inl e, s) \<Rightarrow> (Inl e, s)
      | (Inr c, s) \<Rightarrow>
         (case ep_embed_one ep (repo_ops s) (ci_text c) of
            Inl e \<Rightarrow> (Inl e, snd (mark_run_failed_if_current_attempt E rid (ci_attempt_count c) EMBEDDING
               (lit ''EMBEDDING_FAILED'') (memory_error_string e) s))
          | Inr v \<Rightarrow>
             (case store_record_embedding E (embedding_update ep rid c v) s of
                (Inr _, s) \<Rightarrow> (Inr (), s)
              | (Inl e, s) \<Rightarrow> (Inl e, snd (mark_run_failed_if_current_attempt E rid (ci_attempt_count c)
                  EMBEDDING (lit ''EMBEDDING_STORE_FAILED'') (memory_error_string e) s)))))"


section \<open>The extraction stage\<close>

record GraphExtractor =
  gx_extractor_name :: str
  gx_model_name :: str
  gx_prompt_version :: str
  gx_schema_version :: str
  gx_extract :: "nat \<Rightarrow> GraphExtractionInput \<Rightarrow> GraphExtractionOutput mresult"

definition extraction_input :: "GraphTypeRegistry \<Rightarrow> ClaimedExtractionRun \<Rightarrow> GraphExtractionInput" where
  "extraction_input reg c =
     \<lparr>gi_memory_space_id = cx_memory_space_id c, gi_memory_record_id = cx_memory_record_id c,
      gi_text = cx_text c, gi_metadata = cx_metadata c,
      gi_context_record_ids = cx_context_record_ids c, gi_type_registry_version = tr_version reg\<rparr>"

definition extraction_failure ::
    "genv \<Rightarrow> GraphExtractor \<Rightarrow> GraphTypeRegistry \<Rightarrow> str \<Rightarrow> ClaimedExtractionRun \<Rightarrow> str \<Rightarrow> MemoryError
      \<Rightarrow> nat \<Rightarrow> ExtractionRunFailure" where
  "extraction_failure E gx reg rid c code e n =
     \<lparr>xp_ingestion_run_id = rid, xp_memory_space_id = cx_memory_space_id c,
      xp_attempt_count = cx_attempt_count c, xp_attempt_number = cx_extraction_attempt_number c,
      xp_extractor_name = gx_extractor_name gx, xp_model = gx_model_name gx,
      xp_prompt_version = gx_prompt_version gx, xp_schema_version = gx_schema_version gx,
      xp_type_registry_version = tr_version reg, xp_context_record_ids = cx_context_record_ids c,
      xp_latency_ms = Some (g_elapsed E n), xp_error_code = code,
      xp_error_message = memory_error_string e\<rparr>"

definition extraction_completion ::
    "genv \<Rightarrow> output_codec \<Rightarrow> GraphExtractor \<Rightarrow> GraphTypeRegistry \<Rightarrow> str \<Rightarrow> ClaimedExtractionRun \<Rightarrow> GraphExtractionOutput
      \<Rightarrow> nat \<Rightarrow> ExtractionRunCompletion" where
  "extraction_completion E C gx reg rid c out n =
     \<lparr>xp_ingestion_run_id = rid, xp_memory_space_id = cx_memory_space_id c,
      xp_attempt_count = cx_attempt_count c, xp_attempt_number = cx_extraction_attempt_number c,
      xp_extractor_name = gx_extractor_name gx, xp_model = gx_model_name gx,
      xp_prompt_version = gx_prompt_version gx, xp_schema_version = gx_schema_version gx,
      xp_type_registry_version = tr_version reg, xp_context_record_ids = cx_context_record_ids c,
      xp_latency_ms = Some (g_elapsed E n), xp_structured_output = oc_value C out,
      xp_input_tokens = go_input_tokens out, xp_output_tokens = go_output_tokens out\<rparr>"

definition process_extraction_stage ::
    "genv \<Rightarrow> output_codec \<Rightarrow> GraphExtractor \<Rightarrow> GraphTypeRegistry \<Rightarrow> str \<Rightarrow> GraphRepository
      \<Rightarrow> ExtractionRun mresult \<times> GraphRepository" where
  "process_extraction_stage E C gx reg rid s =
     (case claim_extraction_run E rid s of
        (Inl e, s) \<Rightarrow> (Inl e, s)
      | (Inr c, s) \<Rightarrow>
         (case gx_extract gx (repo_ops s) (extraction_input reg c) of
            Inl e \<Rightarrow> (Inl e, snd (store_extraction_failure E
               (extraction_failure E gx reg rid c (lit ''EXTRACTION_FAILED'') e (repo_ops s)) s))
          | Inr out \<Rightarrow>
             (case validate_against_record E reg (cx_text c) out of
                Inl e \<Rightarrow> (Inl e, snd (store_extraction_failure E
                  (extraction_failure E gx reg rid c INVALID_EXTRACTION_OUTPUT_ERROR_CODE e (repo_ops s)) s))
              | Inr _ \<Rightarrow>
                 (case store_extraction_success E (extraction_completion E C gx reg rid c out (repo_ops s)) s of
                    (Inr x, s) \<Rightarrow> (Inr x, s)
                  | (Inl e, s) \<Rightarrow> (Inl e, snd (store_extraction_failure E
                      (extraction_failure E gx reg rid c (lit ''EXTRACTION_STORE_FAILED'') e (repo_ops s)) s))))))"


section \<open>The resolution stage\<close>

definition GRAPH_RESOLVER_VERSION :: str where
  "GRAPH_RESOLVER_VERSION = lit ''graph-resolution-v1''"

definition publish_request ::
    "GraphTypeRegistry \<Rightarrow> ClaimedResolutionRun \<Rightarrow> GraphSourceEntity option \<Rightarrow> ResolutionPublishRequest" where
  "publish_request reg c se =
     \<lparr>pq_ingestion_run_id = cr_ingestion_run_id c, pq_memory_space_id = cr_memory_space_id c,
      pq_memory_record_id = cr_memory_record_id c, pq_extraction_run_id = cr_extraction_run_id c,
      pq_attempt_count = cr_attempt_count c, pq_extraction_output = cr_extraction_output c,
      pq_source_entity = se, pq_type_registry_version = tr_version reg,
      pq_resolver_version = GRAPH_RESOLVER_VERSION\<rparr>"

definition fail_resolution ::
    "genv \<Rightarrow> str \<Rightarrow> ClaimedResolutionRun \<Rightarrow> string \<Rightarrow> MemoryError \<Rightarrow> GraphRepository \<Rightarrow> GraphRepository" where
  "fail_resolution E rid c code e s = snd (mark_run_failed_if_current_attempt E rid (cr_attempt_count c)
     RESOLVING (lit code) (memory_error_string e) s)"

definition process_resolution_stage ::
    "genv \<Rightarrow> output_codec \<Rightarrow> GraphTypeRegistry \<Rightarrow> str \<Rightarrow> GraphRepository
      \<Rightarrow> (IngestionRun \<times> publish_counts) mresult \<times> GraphRepository" where
  "process_resolution_stage E C reg rid s =
     (case claim_resolution_run E C rid s of
        (Inl e, s) \<Rightarrow> (Inl e, s)
      | (Inr c, s) \<Rightarrow>
         (case validate_against_record E reg (cr_text c) (cr_extraction_output c) of
            Inl e \<Rightarrow> (Inl e, fail_resolution E rid c ''RESOLUTION_FAILED'' e s)
          | Inr _ \<Rightarrow>
             (case source_entity_from_metadata (cr_metadata c) reg of
                Inl e \<Rightarrow> (Inl e, fail_resolution E rid c ''RESOLUTION_FAILED'' e s)
              | Inr se \<Rightarrow>
                 (case publish_resolution E (publish_request reg c se) s of
                    (Inr r, s) \<Rightarrow> (Inr r, s)
                  | (Inl e, s) \<Rightarrow> (Inl e, fail_resolution E rid c ''RESOLUTION_STORE_FAILED'' e s)))))"


section \<open>The build pipeline\<close>

record GraphBuildPipeline =
  bp_embedder :: EmbeddingProvider
  bp_extractor :: GraphExtractor
  bp_registry :: GraphTypeRegistry

record GraphBuildResult =
  br_add_response :: GraphAddMemoryResponse
  br_ingestion_run :: IngestionRun
  br_extraction_run :: ExtractionRun
  br_resolution :: "IngestionRun \<times> publish_counts"

definition build_accepted_memory ::
    "genv \<Rightarrow> output_codec \<Rightarrow> GraphBuildPipeline \<Rightarrow> GraphAddMemoryResponse \<Rightarrow> GraphRepository
      \<Rightarrow> GraphBuildResult mresult \<times> GraphRepository" where
  "build_accepted_memory E C p a s =
     (case process_vector_stage E (bp_embedder p) (rs_ingestion_run_id a) s of
        (Inl e, s) \<Rightarrow> (Inl e, s)
      | (Inr _, s) \<Rightarrow>
         (case process_extraction_stage E C (bp_extractor p) (bp_registry p) (rs_ingestion_run_id a) s of
            (Inl e, s) \<Rightarrow> (Inl e, s)
          | (Inr x, s) \<Rightarrow>
             (case process_resolution_stage E C (bp_registry p) (rs_ingestion_run_id a) s of
                (Inl e, s) \<Rightarrow> (Inl e, s)
              | (Inr r, s) \<Rightarrow> (Inr \<lparr>br_add_response = a, br_ingestion_run = fst r,
                   br_extraction_run = x, br_resolution = r\<rparr>, s))))"

definition build_memory ::
    "genv \<Rightarrow> output_codec \<Rightarrow> GraphBuildPipeline \<Rightarrow> GraphAddMemoryRequest \<Rightarrow> GraphRepository
      \<Rightarrow> GraphBuildResult mresult \<times> GraphRepository" where
  "build_memory E C p q s =
     (case accept_memory_record E q s of
        (Inl e, s) \<Rightarrow> (Inl e, s)
      | (Inr a, s) \<Rightarrow> build_accepted_memory E C p a s)"

definition some_result :: "'a mresult \<times> GraphRepository \<Rightarrow> 'a option mresult \<times> GraphRepository" where
  "some_result r = (map_sum id Some (fst r), snd r)"

definition not_resumable :: "IngestionRun \<Rightarrow> MemoryError" where
  "not_resumable r = MStoreBackend (lit ''graph ingestion run '' @ run_id r
     @ lit '' is not resumable from status `'' @ run_status r @ lit ''` stage `'' @ run_stage r @ lit ''`'')"

definition build_memory_if_needed ::
    "genv \<Rightarrow> output_codec \<Rightarrow> GraphBuildPipeline \<Rightarrow> GraphAddMemoryRequest \<Rightarrow> GraphRepository
      \<Rightarrow> GraphBuildResult option mresult \<times> GraphRepository" where
  "build_memory_if_needed E C p q s =
     (case accept_memory_record E q s of
        (Inl e, s) \<Rightarrow> (Inl e, s)
      | (Inr a, s) \<Rightarrow>
          if rs_status a = COMPLETED then (Inr None, s)
          else if rs_status a \<noteq> PENDING then
            (case get_run E (rs_ingestion_run_id a) (rq_memory_space_id q) s of
               (Inl e, s) \<Rightarrow> (Inl e, s)
             | (Inr r, s) \<Rightarrow> (Inl (not_resumable r), s))
          else some_result (build_accepted_memory E C p a s))"

definition resume_memory ::
    "genv \<Rightarrow> output_codec \<Rightarrow> GraphBuildPipeline \<Rightarrow> GraphAddMemoryRequest \<Rightarrow> GraphRepository
      \<Rightarrow> GraphBuildResult option mresult \<times> GraphRepository" where
  "resume_memory E C p q s =
     (case accept_memory_record E q s of
        (Inl e, s) \<Rightarrow> (Inl e, s)
      | (Inr a, s) \<Rightarrow>
         (case reset_incomplete_run_for_resume E (rs_ingestion_run_id a) (rq_memory_space_id q) s of
            (Inl e, s) \<Rightarrow> (Inl e, s)
          | (Inr status, s) \<Rightarrow>
              if status = COMPLETED then (Inr None, s)
              else some_result (build_accepted_memory E C p a s)))"

end
