(* ===== verification/GraphRuns.thy ===== *)
theory GraphRuns
  imports GraphPipeline
begin

text \<open>
  The graph database as a state machine: every transaction of any number of workers, in any order,
  is a step; a worker that claimed a resolution may publish it at any later time, or never. The
  invariants of the acceptance of records and of the ingestion runs.
\<close>

section \<open>Steps\<close>

type_synonym graph_system = "GraphDb \<times> ClaimedResolutionRun set"

inductive graph_step :: "genv \<Rightarrow> output_codec \<Rightarrow> GraphTypeRegistry \<Rightarrow> graph_system \<Rightarrow> graph_system \<Rightarrow> bool"
  for E C reg where
  accept: "accept_memory_record_tx E now q db = Inr (a, db') \<Longrightarrow> graph_step E C reg (db, cs) (db', cs)"
| claim: "claim_pending_run_tx E now rid db = Inr (ci, db') \<Longrightarrow> graph_step E C reg (db, cs) (db', cs)"
| reset: "reset_incomplete_run_for_resume_tx E now rid sid db = Inr (st, db')
    \<Longrightarrow> graph_step E C reg (db, cs) (db', cs)"
| embed: "store_record_embedding_tx now u db = Inr ((), db') \<Longrightarrow> graph_step E C reg (db, cs) (db', cs)"
| claim_extraction: "claim_extraction_run_tx E now rid db = Inr (cx, db')
    \<Longrightarrow> graph_step E C reg (db, cs) (db', cs)"
| extraction_success: "store_extraction_success_tx E now xs db = Inr (x, db')
    \<Longrightarrow> graph_step E C reg (db, cs) (db', cs)"
| extraction_failure: "store_extraction_failure_tx E now xf db = Inr (x, db')
    \<Longrightarrow> graph_step E C reg (db, cs) (db', cs)"
| claim_resolution: "claim_resolution_run_sync E C now rid db = (Inr c, db')
    \<Longrightarrow> graph_step E C reg (db, cs) (db', insert c cs)"
| claim_lost: "claim_resolution_run_sync E C now rid db = (Inl e, db')
    \<Longrightarrow> graph_step E C reg (db, cs) (db', cs)"
| publish: "c \<in> cs \<Longrightarrow> validate_against_record E reg (cr_text c) (cr_extraction_output c) = Inr u
    \<Longrightarrow> source_entity_from_metadata (cr_metadata c) reg = Inr se
    \<Longrightarrow> publish_resolution_tx E now (publish_request reg c se) db = Inr (p, db')
    \<Longrightarrow> graph_step E C reg (db, cs) (db', cs)"
| mark_failed: "mark_run_failed_tx now rid n stage code message db = Inr ((), db')
    \<Longrightarrow> graph_step E C reg (db, cs) (db', cs)"

inductive graph_reachable :: "genv \<Rightarrow> output_codec \<Rightarrow> GraphTypeRegistry \<Rightarrow> graph_system \<Rightarrow> bool"
  for E C reg where
  start: "graph_reachable E C reg (initialize_schema, {})"
| step: "graph_reachable E C reg s \<Longrightarrow> graph_step E C reg s s' \<Longrightarrow> graph_reachable E C reg s'"


section \<open>What the transactions do to the runs\<close>

lemma map_update_where:
  "(\<And>x. x \<in> set xs \<Longrightarrow> P x \<Longrightarrow> g (f x) = g x) \<Longrightarrow> map g (update_where P f xs) = map g xs"
  by (auto simp: update_where_def)

lemma set_update_where: "x \<in> set (update_where P f xs) \<Longrightarrow> x \<in> set xs \<or> (\<exists>y \<in> set xs. P y \<and> x = f y)"
  by (auto simp: update_where_def split: if_splits)

lemma update_one_run_Inr:
  "update_one_run P f msg db = Inr db'
     \<longleftrightarrow> count_where P (gd_runs db) = 1 \<and> db' = db\<lparr>gd_runs := update_where P f (gd_runs db)\<rparr>"
  by (auto simp: update_one_run_def)

text \<open>The columns of a run that no update touches.\<close>

definition run_key :: "IngestionRun \<Rightarrow> str \<times> str \<times> str \<times> str \<times> str" where
  "run_key r = (run_id r, run_memory_space_id r, run_memory_record_id r, run_idempotency_key r, run_input_hash r)"

definition run_stages :: "str set" where
  "run_stages = {EMBEDDING, EXTRACTION, EXTRACTING, RESOLUTION, RESOLVING}"

definition run_state_ok :: "IngestionRun \<Rightarrow> bool" where
  "run_state_ok r \<longleftrightarrow>
     (run_status r = PENDING \<and> run_stage r = ACCEPTED
      \<or> run_status r = RUNNING \<and> run_stage r \<in> run_stages
      \<or> run_status r = COMPLETED \<and> run_stage r = COMPLETED
      \<or> run_status r = FAILED \<and> run_stage r \<in> run_stages)
     \<and> 0 \<le> run_attempt_count r \<and> (run_status r \<noteq> PENDING \<longrightarrow> 0 < run_attempt_count r)
     \<and> (run_started_at_ms r \<noteq> None \<longleftrightarrow> 0 < run_attempt_count r)
     \<and> (run_error_code r \<noteq> None \<longleftrightarrow> run_status r = FAILED)
     \<and> (run_completed_at_ms r \<noteq> None \<longleftrightarrow> run_status r = COMPLETED \<or> run_status r = FAILED)"

text \<open>How a run may move: a claim starts the next attempt, everything else keeps the attempt.\<close>

definition run_move :: "IngestionRun \<Rightarrow> IngestionRun \<Rightarrow> bool" where
  "run_move r r' \<longleftrightarrow> run_key r' = run_key r \<and>
     (r' = r
      \<or> run_status r = PENDING \<and> run_status r' = RUNNING \<and> run_stage r' = EMBEDDING
         \<and> run_attempt_count r' = run_attempt_count r + 1
      \<or> run_attempt_count r' = run_attempt_count r \<and>
         (run_status r = RUNNING \<and> run_status r' = RUNNING
            \<and> (run_stage r, run_stage r') \<in> {(EMBEDDING, EXTRACTION), (EXTRACTION, EXTRACTING),
                 (EXTRACTING, RESOLUTION), (RESOLUTION, RESOLVING)}
          \<or> run_status r = RUNNING \<and> run_stage r = RESOLVING \<and> run_status r' = COMPLETED
            \<and> run_stage r' = COMPLETED
          \<or> run_status r = RUNNING \<and> run_status r' = FAILED \<and> run_stage r' = run_stage r
          \<or> run_status r \<in> {RUNNING, FAILED} \<and> run_status r' = PENDING \<and> run_stage r' = ACCEPTED))"

lemma run_move_refl [simp]: "run_move r r"
  by (simp add: run_move_def)

text \<open>Old rows move, new rows are appended.\<close>

definition runs_move :: "IngestionRun list \<Rightarrow> IngestionRun list \<Rightarrow> bool" where
  "runs_move rs rs' \<longleftrightarrow> length rs \<le> length rs' \<and> (\<forall>i < length rs. run_move (rs ! i) (rs' ! i))"

lemma runs_move_refl [simp]: "runs_move rs rs"
  by (simp add: runs_move_def)

lemma runs_move_append [simp]: "runs_move rs (rs @ xs)"
  by (simp add: runs_move_def nth_append)

lemma runs_move_update:
  "(\<And>r. r \<in> set rs \<Longrightarrow> P r \<Longrightarrow> run_move r (f r)) \<Longrightarrow> runs_move rs (update_where P f rs)"
  by (simp add: runs_move_def update_where_def)

text \<open>The tables the stages of a run leave alone.\<close>

definition same_graph :: "GraphDb \<Rightarrow> GraphDb \<Rightarrow> bool" where
  "same_graph db db' \<longleftrightarrow> gd_entities db' = gd_entities db \<and> gd_aliases db' = gd_aliases db
     \<and> gd_links db' = gd_links db \<and> gd_facts db' = gd_facts db \<and> gd_history db' = gd_history db
     \<and> gd_groups db' = gd_groups db \<and> gd_evidence db' = gd_evidence db
     \<and> gd_decisions db' = gd_decisions db"

definition rec_key :: "GraphMemoryRow \<Rightarrow> str \<times> str \<times> int \<times> str \<times> str" where
  "rec_key m = (rec_id m, rec_memory_space_id m, rec_ingestion_sequence m, rec_text m, rec_metadata_json m)"

text \<open>An embedding is stored with its number of dimensions.\<close>

definition embedding_ok :: "GraphMemoryRow \<Rightarrow> bool" where
  "embedding_ok m \<longleftrightarrow> rec_embedding m = None
     \<or> (\<exists>v. rec_embedding m = Some (embedding_to_blob v) \<and> rec_embedding_dims m = Some (int (length v)))"

text \<open>A stage transaction: runs move, records keep their key columns, spaces and graph stay.\<close>

definition more_extractions :: "GraphDb \<Rightarrow> GraphDb \<Rightarrow> bool" where
  "more_extractions db db' \<longleftrightarrow> (\<exists>xs. gd_extractions db' = gd_extractions db @ xs
     \<and> (\<forall>x \<in> set xs. run_exists (xr_ingestion_run_id x) (xr_memory_space_id x) db))"

lemma no_more_extractions [simp]: "gd_extractions db' = gd_extractions db \<Longrightarrow> more_extractions db db'"
  by (simp add: more_extractions_def)

definition stage_effect :: "GraphDb \<Rightarrow> GraphDb \<Rightarrow> bool" where
  "stage_effect db db' \<longleftrightarrow> same_graph db db' \<and> gd_spaces db' = gd_spaces db
     \<and> map rec_key (gd_records db') = map rec_key (gd_records db)
     \<and> more_extractions db db'
     \<and> length (gd_runs db') = length (gd_runs db) \<and> runs_move (gd_runs db) (gd_runs db')
     \<and> (list_all run_state_ok (gd_runs db) \<longrightarrow> list_all run_state_ok (gd_runs db'))
     \<and> (list_all embedding_ok (gd_records db) \<longrightarrow> list_all embedding_ok (gd_records db'))"

lemma stage_effect_refl [simp]: "stage_effect db db"
  by (simp add: stage_effect_def same_graph_def)

lemma run_move_key: "run_move r r' \<Longrightarrow> run_key r' = run_key r"
  by (simp add: run_move_def)

lemma update_one_run_effect:
  assumes "update_one_run P f msg db = Inr db'"
    and "\<And>r. P r \<Longrightarrow> run_move r (f r)" "\<And>r. P r \<Longrightarrow> run_state_ok r \<Longrightarrow> run_state_ok (f r)"
  shows "stage_effect db db'"
  using assms
  by (auto simp: update_one_run_Inr stage_effect_def same_graph_def list_all_iff
      intro!: runs_move_update dest!: set_update_where)
     (simp add: update_where_def)

lemma stage_effect_more:
  assumes "stage_effect db db'" "same_graph db' db''" "gd_spaces db'' = gd_spaces db'"
    "gd_runs db'' = gd_runs db'" "map rec_key (gd_records db'') = map rec_key (gd_records db')"
    "gd_extractions db'' = gd_extractions db'"
    "list_all embedding_ok (gd_records db') \<Longrightarrow> list_all embedding_ok (gd_records db'')"
  shows "stage_effect db db''"
  using assms by (auto simp: stage_effect_def same_graph_def more_extractions_def)

lemmas run_states = run_move_def run_key_def run_state_ok_def run_stages_def

lemma claim_pending_effect:
  assumes "claim_pending_run_tx E now rid db = Inr (ci, db')"
  shows "stage_effect db db'"
proof -
  obtain a where "update_one_run
      (\<lambda>x. run_id x = rid \<and> run_status x = PENDING \<and> run_attempt_count x = a)
      (\<lambda>x. x\<lparr>run_status := RUNNING, run_stage := EMBEDDING, run_attempt_count := a + 1,
            run_started_at_ms := (case run_started_at_ms x of Some t \<Rightarrow> Some t | None \<Rightarrow> Some now),
            run_updated_at_ms := now\<rparr>) ''failed to claim ingestion run'' db = Inr db'"
    using assms by (auto simp: claim_pending_run_tx_def Let_def)
  then show ?thesis
    by (rule update_one_run_effect) (auto simp: run_states split: option.splits)
qed

lemma reset_effect:
  assumes "reset_incomplete_run_for_resume_tx E now rid sid db = Inr (st, db')"
  shows "stage_effect db db'"
proof -
  obtain r where r:
    "query_row E (filter (\<lambda>r. run_id r = rid \<and> run_memory_space_id r = sid) (gd_runs db)) = Inr r"
    using assms by (auto simp: reset_incomplete_run_for_resume_tx_def)
  consider "db' = db" | "run_status r \<in> {FAILED, RUNNING}" "update_one_run
      (\<lambda>x. run_id x = rid \<and> run_memory_space_id x = sid \<and> run_status x = run_status r)
      (\<lambda>x. x\<lparr>run_status := PENDING, run_stage := ACCEPTED, run_error_code := None,
            run_error_message := None, run_updated_at_ms := now, run_completed_at_ms := None\<rparr>)
      ''failed to reset incomplete graph ingestion run'' db = Inr db'"
    using assms r by (auto simp: reset_incomplete_run_for_resume_tx_def Let_def split: if_splits)
  then show ?thesis
  proof cases
    case 2
    from 2(2) show ?thesis by (rule update_one_run_effect) (use 2(1) in \<open>auto simp: run_states\<close>)
  qed simp
qed

lemma store_embedding_effect:
  assumes "store_record_embedding_tx now u db = Inr ((), db')"
  shows "stage_effect db db'"
proof -
  obtain db1 R where u: "update_one_run
        (\<lambda>x. run_id x = eu_ingestion_run_id u \<and> run_memory_space_id x = eu_memory_space_id u
           \<and> run_attempt_count x = eu_attempt_count u \<and> run_status x = RUNNING
           \<and> run_stage x = EMBEDDING \<and> run_memory_record_id x = eu_memory_record_id u)
        (\<lambda>x. x\<lparr>run_status := RUNNING, run_stage := EXTRACTION, run_updated_at_ms := now\<rparr>)
        ''ingestion run attempt is no longer current'' db = Inr db1"
    and db': "db' = db1\<lparr>gd_records := R\<rparr>" "map rec_key R = map rec_key (gd_records db1)"
      "list_all embedding_ok (gd_records db1) \<Longrightarrow> list_all embedding_ok R"
  proof -
    have "map rec_key (update_where P (\<lambda>m. m\<lparr>rec_embedding := e, rec_embedding_dims := d,
        rec_embedding_model := mo, rec_embedding_version := v, rec_updated_at_ms := now\<rparr>) ms) = map rec_key ms"
      for P e d mo v ms
      by (rule map_update_where) (simp add: rec_key_def)
    moreover have "list_all embedding_ok (update_where P (\<lambda>m. m\<lparr>rec_embedding := Some (embedding_to_blob e),
        rec_embedding_dims := Some (int (length e)), rec_embedding_model := mo, rec_embedding_version := v,
        rec_updated_at_ms := now\<rparr>) ms)" if "list_all embedding_ok ms" for P e mo v ms
      using that by (auto simp: list_all_iff embedding_ok_def dest!: set_update_where)
    ultimately show thesis using that assms by (auto simp: store_record_embedding_tx_def Let_def)
  qed
  from u have "stage_effect db db1"
    by (rule update_one_run_effect) (auto simp: run_states)
  then show ?thesis
    by (rule stage_effect_more) (use db' in \<open>simp_all add: same_graph_def\<close>)
qed

lemma claim_extraction_effect:
  assumes "claim_extraction_run_tx E now rid db = Inr (cx, db')"
  shows "stage_effect db db'"
proof -
  obtain a where "update_one_run
      (\<lambda>x. run_id x = rid \<and> run_status x = RUNNING \<and> run_stage x = EXTRACTION \<and> run_attempt_count x = a)
      (\<lambda>x. x\<lparr>run_stage := EXTRACTING, run_updated_at_ms := now\<rparr>)
      ''failed to claim extraction run'' db = Inr db'"
    using assms by (auto simp: claim_extraction_run_tx_def)
  then show ?thesis by (rule update_one_run_effect) (auto simp: run_states)
qed

text \<open>Both stores of an extraction: a row is added, then the run moves.\<close>

lemma insert_extraction_effect:
  assumes "insert_extraction_run E x db = Inr db'"
  shows "stage_effect db db' \<and> gd_runs db' = gd_runs db"
  using assms by (auto simp: insert_extraction_run_def stage_effect_def same_graph_def more_extractions_def)

lemma stage_effect_trans:
  assumes "stage_effect a b" "stage_effect b c" "gd_runs b = gd_runs a"
  shows "stage_effect a c"
proof -
  have "run_exists i s b = run_exists i s a" for i s using assms(3) by (simp add: run_exists_def)
  then have "more_extractions a c" using assms(1,2) by (auto simp: stage_effect_def more_extractions_def)
  then show ?thesis using assms by (simp add: stage_effect_def same_graph_def)
qed

lemma stage_effect_ids [simp]: "stage_effect (db\<lparr>gd_ids := n\<rparr>) db' \<longleftrightarrow> stage_effect db db'"
  by (simp add: stage_effect_def same_graph_def more_extractions_def run_exists_def)

lemma store_extraction_success_effect:
  assumes "store_extraction_success_tx E now c db = Inr (x, db')"
  shows "stage_effect db db'"
proof -
  obtain db1 n where i: "insert_extraction_run E x (db\<lparr>gd_ids := n\<rparr>) = Inr db1"
    and u: "update_one_run (extraction_current c) (\<lambda>r. r\<lparr>run_stage := RESOLUTION, run_updated_at_ms := now\<rparr>)
       ''ingestion run is no longer current for extraction completion'' db1 = Inr db'"
    using assms by (auto simp: store_extraction_success_tx_def new_v4_def Let_def)
  from u have "stage_effect db1 db'"
    by (rule update_one_run_effect) (auto simp: run_states extraction_current_def)
  moreover note insert_extraction_effect [OF i]
  ultimately show ?thesis using stage_effect_trans by fastforce
qed

lemma store_extraction_failure_effect:
  assumes "store_extraction_failure_tx E now c db = Inr (x, db')"
  shows "stage_effect db db'"
proof -
  obtain db1 n where i: "insert_extraction_run E x (db\<lparr>gd_ids := n\<rparr>) = Inr db1"
    and u: "update_one_run (extraction_current c) (\<lambda>r. r\<lparr>run_status := FAILED,
           run_error_code := Some (xp_error_code c), run_error_message := Some (xp_error_message c),
           run_updated_at_ms := now, run_completed_at_ms := Some now\<rparr>)
       ''ingestion run is no longer current for extraction failure'' db1 = Inr db'"
    using assms by (auto simp: store_extraction_failure_tx_def new_v4_def Let_def)
  from u have "stage_effect db1 db'"
    by (rule update_one_run_effect) (auto simp: run_states extraction_current_def)
  moreover note insert_extraction_effect [OF i]
  ultimately show ?thesis using stage_effect_trans by fastforce
qed

lemma claim_resolution_tx_effect:
  assumes "claim_resolution_run_tx E C now rid db = Inr (c, db')"
  shows "stage_effect db db'"
proof -
  obtain a sid where "update_one_run
      (\<lambda>y. run_id y = rid \<and> run_memory_space_id y = sid \<and> run_status y = RUNNING
         \<and> run_stage y = RESOLUTION \<and> run_attempt_count y = a)
      (\<lambda>y. y\<lparr>run_stage := RESOLVING, run_updated_at_ms := now\<rparr>)
      ''failed to claim resolution run'' db = Inr db'"
    using assms by (auto simp: claim_resolution_run_tx_def graph_simps)
  then show ?thesis by (rule update_one_run_effect) (auto simp: run_states)
qed

lemma claim_resolution_effect:
  assumes "claim_resolution_run_sync E C now rid db = (r, db')"
  shows "stage_effect db db'"
  using assms claim_resolution_tx_effect
  by (auto simp: claim_resolution_run_sync_def transaction_def split: sum.splits prod.splits)

lemma mark_failed_effect:
  assumes "mark_run_failed_tx now rid n stage code message db = Inr ((), db')"
  shows "stage_effect db db'"
proof -
  have "update_one_run
      (\<lambda>x. run_id x = rid \<and> run_attempt_count x = n \<and> run_status x = RUNNING \<and> run_stage x = stage)
      (\<lambda>x. x\<lparr>run_status := FAILED, run_stage := stage, run_error_code := Some code,
            run_error_message := Some message, run_updated_at_ms := now, run_completed_at_ms := Some now\<rparr>)
      ''failed to mark ingestion run failed'' db = Inr db'"
    using assms by (auto simp: mark_run_failed_tx_def)
  then show ?thesis by (rule update_one_run_effect) (auto simp: run_states)
qed

lemmas stage_effects = claim_pending_effect reset_effect store_embedding_effect claim_extraction_effect
  store_extraction_success_effect store_extraction_failure_effect claim_resolution_effect mark_failed_effect


section \<open>What a publication does to the runs\<close>

definition same_runs :: "GraphDb \<Rightarrow> GraphDb \<Rightarrow> bool" where
  "same_runs db db' \<longleftrightarrow> gd_spaces db' = gd_spaces db \<and> gd_records db' = gd_records db
     \<and> gd_runs db' = gd_runs db \<and> gd_extractions db' = gd_extractions db"

lemma same_runs_refl [simp]: "same_runs db db"
  by (simp add: same_runs_def)

lemma same_runs_trans: "same_runs a b \<Longrightarrow> same_runs b c \<Longrightarrow> same_runs a c"
  by (simp add: same_runs_def)

lemmas insert_defs = insert_entity_def ensure_entity_alias_def insert_resolution_decision_def
  insert_record_entity_link_def insert_fact_def insert_history_def insert_fact_evidence_def new_v4_def Let_def

lemma insert_same_runs:
  "insert_entity E e db = Inr db' \<Longrightarrow> same_runs db db'"
  "ensure_entity_alias E now sid i d n db = Inr db' \<Longrightarrow> same_runs db db'"
  "insert_resolution_decision E now q k ik cands si act db = Inr db' \<Longrightarrow> same_runs db db'"
  "insert_record_entity_link E now q i lk db = Inr (n', db') \<Longrightarrow> same_runs db db'"
  "insert_fact E f db = Inr db' \<Longrightarrow> same_runs db db'"
  "insert_history E now q i db = Inr db' \<Longrightarrow> same_runs db db'"
  "insert_fact_evidence E now q g ev db = Inr db' \<Longrightarrow> same_runs db db'"
  by (auto simp: insert_defs same_runs_def split: if_splits)

lemma new_v4_same_runs: "new_v4 E db = (i, db') \<Longrightarrow> same_runs db db'"
  by (auto simp: new_v4_def same_runs_def)

lemma reuse_entity_same_runs: "reuse_entity E now q c i db = Inr (r, db') \<Longrightarrow> same_runs db db'"
  by (auto simp: reuse_entity_def dest!: insert_same_runs intro: same_runs_trans)

lemma create_entity_same_runs: "create_entity E now q c db = Inr (r, db') \<Longrightarrow> same_runs db db'"
  by (auto simp: create_entity_def Let_def split: prod.splits dest!: insert_same_runs new_v4_same_runs
      intro: same_runs_trans)

lemma resolve_entity_same_runs:
  "resolve_entity_candidate E now q c db = Inr (r, db') \<Longrightarrow> same_runs db db'"
  by (auto simp: resolve_entity_candidate_def Let_def split: option.splits
      dest!: reuse_entity_same_runs create_entity_same_runs)

lemma resolve_fact_same_runs:
  "resolve_fact_candidate E now q c sj ob db = Inr (r, db') \<Longrightarrow> same_runs db db'"
  by (auto simp: resolve_fact_candidate_def Let_def split: option.splits prod.splits
      dest!: insert_same_runs new_v4_same_runs intro: same_runs_trans)

lemma evidence_group_same_runs:
  assumes "insert_fact_evidence_group E now q i c db = Inr (n, db')"
  shows "same_runs db db'"
proof -
  obtain g db1 db2 where g: "new_v4 E db = (g, db1)"
    and x: "for_each (insert_fact_evidence E now q g) (fc_evidence c) db2 = Inr db'" "same_runs db1 db2"
    using assms by (auto simp: insert_fact_evidence_group_def Let_def same_runs_def split: prod.splits)
  from x(1) have "same_runs db1 db'"
    by (rule for_each_invariant [where P = "same_runs db1"])
       (use x(2) in \<open>auto dest!: insert_same_runs intro: same_runs_trans\<close>)
  with new_v4_same_runs [OF g] show ?thesis by (rule same_runs_trans)
qed

lemma publish_entity_same_runs:
  assumes "publish_entity E now q k b c s = Inr s'"
  shows "same_runs (snd (snd s)) (snd (snd s'))"
  using assms
  by (cases s) (auto simp: publish_entity_def dest!: resolve_entity_same_runs insert_same_runs
      intro: same_runs_trans)

lemma publish_fact_same_runs:
  assumes "publish_fact E now q ents c s = Inr s'"
  shows "same_runs (snd s) (snd s')"
  using assms
  by (cases s) (auto simp: publish_fact_def graph_simps dest!: resolve_fact_same_runs evidence_group_same_runs
      intro: same_runs_trans)

lemma publish_source_same_runs:
  assumes "publish_source E now q s = Inr s'"
  shows "same_runs (snd (snd s)) (snd (snd s'))"
  using assms by (auto simp: publish_source_def split: option.splits dest!: publish_entity_same_runs)

text \<open>The parts of a publication.\<close>

lemma publish_parts:
  assumes "publish_resolution_tx E now q db = Inr ((r, k), db')"
  obtains s0 ents k1 db1 db2 where
    "publish_source E now q ([], no_counts, db) = Inr s0"
    "for_each (publish_entity E now q ''extracted_mention'' True) (go_entities (pq_extraction_output q)) s0
       = Inr (ents, k1, db1)"
    "for_each (publish_fact E now q ents) (go_facts (pq_extraction_output q)) (k1, db1) = Inr (k, db2)"
    "update_one_run (\<lambda>x. run_id x = pq_ingestion_run_id q \<and> run_memory_space_id x = pq_memory_space_id q
        \<and> run_status x = RUNNING \<and> run_stage x = RESOLVING \<and> run_attempt_count x = pq_attempt_count q)
      (\<lambda>x. x\<lparr>run_status := COMPLETED, run_stage := COMPLETED, run_updated_at_ms := now,
            run_completed_at_ms := Some now\<rparr>)
      ''ingestion run is no longer current for resolution completion'' db2 = Inr db'"
    "query_row E (get_run_rows (pq_ingestion_run_id q) (pq_memory_space_id q) db') = Inr r"
proof -
  obtain s0 where s0: "publish_source E now q ([], no_counts, db) = Inr s0"
    using assms unfolding publish_resolution_tx_def and_then_Inr by blast
  obtain ents k1 db1 where e: "for_each (publish_entity E now q ''extracted_mention'' True)
      (go_entities (pq_extraction_output q)) s0 = Inr (ents, k1, db1)"
    using assms s0 unfolding publish_resolution_tx_def and_then_Inr by auto
  note step = assms [unfolded publish_resolution_tx_def s0 and_then_simps e prod.case]
  obtain db2 where f: "for_each (publish_fact E now q ents) (go_facts (pq_extraction_output q)) (k1, db1)
      = Inr (k, db2)"
    using step by (cases "for_each (publish_fact E now q ents) (go_facts (pq_extraction_output q)) (k1, db1)")
      (auto simp del: update_one_run_def)
  show thesis
    by (rule that [OF s0 e f]) (use step [unfolded f and_then_simps prod.case] in \<open>auto\<close>)
qed

lemma publish_loops_same_runs:
  assumes "publish_source E now q ([], no_counts, db) = Inr s0"
    "for_each (publish_entity E now q lk True) cs s0 = Inr (ents, k1, db1)"
    "for_each (publish_fact E now q ents) fs (k1, db1) = Inr (k, db2)"
  shows "same_runs db db2"
proof -
  have "same_runs db (snd (snd s0))" using publish_source_same_runs [OF assms(1)] by simp
  with assms(2) have "same_runs db (snd (snd (ents, k1, db1)))"
    by (rule for_each_invariant [where P = "\<lambda>s. same_runs db (snd (snd s))"])
       (rule same_runs_trans [OF _ publish_entity_same_runs])
  then have "same_runs db (snd (k1, db1))" by simp
  with assms(3) have "same_runs db (snd (k, db2))"
    by (rule for_each_invariant [where P = "\<lambda>s. same_runs db (snd s)"])
       (rule same_runs_trans [OF _ publish_fact_same_runs])
  then show ?thesis by simp
qed

text \<open>To the runs a publication is a stage like the others.\<close>

definition runs_effect :: "GraphDb \<Rightarrow> GraphDb \<Rightarrow> bool" where
  "runs_effect db db' \<longleftrightarrow> gd_spaces db' = gd_spaces db
     \<and> map rec_key (gd_records db') = map rec_key (gd_records db)
     \<and> more_extractions db db'
     \<and> length (gd_runs db') = length (gd_runs db) \<and> runs_move (gd_runs db) (gd_runs db')
     \<and> (list_all run_state_ok (gd_runs db) \<longrightarrow> list_all run_state_ok (gd_runs db'))
     \<and> (list_all embedding_ok (gd_records db) \<longrightarrow> list_all embedding_ok (gd_records db'))"

lemma stage_runs_effect: "stage_effect db db' \<Longrightarrow> runs_effect db db'"
  by (simp add: stage_effect_def runs_effect_def)

lemma publish_runs_effect:
  assumes "publish_resolution_tx E now q db = Inr (p, db')"
  shows "runs_effect db db'"
proof -
  obtain r k where p: "p = (r, k)" by (cases p)
  obtain s0 ents k1 db1 db2 where s: "publish_source E now q ([], no_counts, db) = Inr s0"
    "for_each (publish_entity E now q ''extracted_mention'' True) (go_entities (pq_extraction_output q)) s0
       = Inr (ents, k1, db1)"
    "for_each (publish_fact E now q ents) (go_facts (pq_extraction_output q)) (k1, db1) = Inr (k, db2)"
    and u: "update_one_run (\<lambda>x. run_id x = pq_ingestion_run_id q \<and> run_memory_space_id x = pq_memory_space_id q
        \<and> run_status x = RUNNING \<and> run_stage x = RESOLVING \<and> run_attempt_count x = pq_attempt_count q)
      (\<lambda>x. x\<lparr>run_status := COMPLETED, run_stage := COMPLETED, run_updated_at_ms := now,
            run_completed_at_ms := Some now\<rparr>)
      ''ingestion run is no longer current for resolution completion'' db2 = Inr db'"
    by (rule publish_parts [OF assms [unfolded p]])
  from u have "stage_effect db2 db'"
    by (rule update_one_run_effect) (auto simp: run_states)
  moreover have "same_runs db db2" by (rule publish_loops_same_runs [OF s])
  ultimately show ?thesis
    by (simp add: stage_effect_def runs_effect_def same_runs_def more_extractions_def run_exists_def)
qed

end
