(* ===== verification/GraphInv.thy ===== *)
theory GraphInv
  imports GraphRuns
begin

text \<open>
  What holds in every reachable state of the graph database about spaces, records and runs: one run
  for each record, ingestion sequences without gaps, one run for each idempotency key, and the
  legal states and moves of a run.
\<close>

section \<open>The effect of an acceptance\<close>

lemma runs_move_keys:
  assumes "runs_move rs rs'" "length rs' = length rs"
  shows "map run_key rs' = map run_key rs"
  using assms by (auto simp: runs_move_def run_move_key intro: nth_equalityI)

lemma ensure_space_simps [simp]:
  "gd_records (ensure_space now q db) = gd_records db" "gd_runs (ensure_space now q db) = gd_runs db"
  "gd_extractions (ensure_space now q db) = gd_extractions db"
  "runs_by_key q' (ensure_space now q db) = runs_by_key q' db"
  by (simp_all add: ensure_space_def runs_by_key_def)

lemma ensure_space_graph [simp]: "same_graph db (ensure_space now q db)"
  by (simp add: ensure_space_def same_graph_def)

definition accepted_record :: "genv \<Rightarrow> GraphAddMemoryRequest \<Rightarrow> int \<Rightarrow> GraphMemoryRow \<Rightarrow> bool" where
  "accepted_record E q n m \<longleftrightarrow> rec_memory_space_id m = rq_memory_space_id q \<and> rec_ingestion_sequence m = n
     \<and> rec_text m = rq_text q \<and> rec_metadata_json m = g_to_string E (rq_metadata q)
     \<and> rec_embedding m = None"

definition accepted_run :: "genv \<Rightarrow> GraphAddMemoryRequest \<Rightarrow> GraphMemoryRow \<Rightarrow> IngestionRun \<Rightarrow> bool" where
  "accepted_run E q m r \<longleftrightarrow> run_memory_space_id r = rq_memory_space_id q \<and> run_memory_record_id r = rec_id m
     \<and> run_idempotency_key r = rq_idempotency_key q \<and> run_input_hash r = input_hash E q
     \<and> run_status r = PENDING \<and> run_stage r = ACCEPTED \<and> run_state_ok r"

lemma insert_record_Inr:
  "insert_record E m db = Inr db' \<longleftrightarrow> rec_id m \<notin> rec_id ` set (gd_records db)
     \<and> rec_memory_space_id m \<in> ms_id ` set (gd_spaces db)
     \<and> db' = db\<lparr>gd_records := gd_records db @ [m],
            gd_record_fts := gd_record_fts db @ [(rec_id m, rec_memory_space_id m, rec_text m)]\<rparr>"
  by (auto simp: insert_record_def)

lemma insert_run_Inr:
  "insert_run E r db = Inr db' \<longleftrightarrow> run_id r \<notin> run_id ` set (gd_runs db)
     \<and> (\<forall>r' \<in> set (gd_runs db). \<not> (run_memory_space_id r' = run_memory_space_id r
             \<and> run_idempotency_key r' = run_idempotency_key r))
     \<and> record_exists (run_memory_record_id r) (run_memory_space_id r) db
     \<and> db' = db\<lparr>gd_runs := gd_runs db @ [r]\<rparr>"
  by (auto simp: insert_run_def)

lemma space_rows_ids [simp]: "space_rows sid (db\<lparr>gd_ids := n\<rparr>) = space_rows sid db"
  by (simp add: space_rows_def)

lemma accept_cases:
  assumes "accept_memory_record_tx E now q db = Inr (a, db')"
  obtains (known) r rs where "runs_by_key q db = r # rs" "run_input_hash r = input_hash E q"
      "db' = ensure_space now q db" "rs_ingestion_run_id a = run_id r"
      "rs_memory_record_id a = run_memory_record_id r" "rs_status a = run_status r"
  | (new) m r sp where "runs_by_key q db = []" "same_graph db db'"
      "gd_records db' = gd_records db @ [m]" "gd_runs db' = gd_runs db @ [r]"
      "gd_extractions db' = gd_extractions db"
      "gd_spaces db' = update_where (\<lambda>s. ms_id s = rq_memory_space_id q)
          (\<lambda>s. s\<lparr>ms_next_ingestion_sequence := ms_next_ingestion_sequence s + 1\<rparr>)
          (gd_spaces (ensure_space now q db))"
      "sp \<in> set (gd_spaces (ensure_space now q db))" "ms_id sp = rq_memory_space_id q"
      "accepted_record E q (ms_next_ingestion_sequence sp) m" "accepted_run E q m r"
      "rec_id m \<notin> rec_id ` set (gd_records db)" "run_id r \<notin> run_id ` set (gd_runs db)"
      "rs_ingestion_run_id a = run_id r" "rs_memory_record_id a = rec_id m" "rs_status a = PENDING"
proof (cases "runs_by_key q db")
  case Nil
  obtain db0 :: GraphDb where db0: "db0 = ensure_space now q db" by simp
  have ins: "insert_memory E now q (input_hash E q) db0 = Inr (a, db')"
    using assms Nil by (auto simp: accept_memory_record_tx_def Let_def db0)
  note step = ins [unfolded insert_memory_def new_v4_def Let_def prod.case]
  obtain sp where sp: "query_row E (space_rows (rq_memory_space_id q) db0) = Inr sp"
    using step by (auto elim!: and_then_InrE)
  let ?m = "new_memory_row E now q (g_uuid_v4 E (gd_ids db0)) (ms_next_ingestion_sequence sp)"
  let ?r = "new_run_row now q (input_hash E q) (g_uuid_v4 E (Suc (gd_ids db0))) (g_uuid_v4 E (gd_ids db0))"
  have sp2: "sp \<in> set (gd_spaces db0)" "ms_id sp = rq_memory_space_id q"
    using sp by (auto dest!: query_row_Inr simp: space_rows_def)
  have rows: "accepted_record E q (ms_next_ingestion_sequence sp) ?m" "accepted_run E q ?m ?r"
    by (simp_all add: accepted_record_def accepted_run_def run_state_ok_def new_memory_row_def new_run_row_def)
  have new_id: "rec_id ?m = g_uuid_v4 E (gd_ids db0)" "run_id ?r = g_uuid_v4 E (Suc (gd_ids db0))"
    by (simp_all add: new_memory_row_def new_run_row_def)
  have fresh: "rec_id ?m \<notin> rec_id ` set (gd_records db0)" "run_id ?r \<notin> run_id ` set (gd_runs db0)"
    and response: "rs_ingestion_run_id a = run_id ?r" "rs_memory_record_id a = rec_id ?m" "rs_status a = PENDING"
    using step sp by (auto simp: insert_record_Inr insert_run_Inr new_id)
  obtain n fts where out: "db' = db0\<lparr>gd_ids := n, gd_spaces := update_where (\<lambda>m. ms_id m = rq_memory_space_id q)
       (\<lambda>m. m\<lparr>ms_next_ingestion_sequence := ms_next_ingestion_sequence m + 1\<rparr>) (gd_spaces db0),
       gd_records := gd_records db0 @ [?m], gd_record_fts := fts, gd_runs := gd_runs db0 @ [?r]\<rparr>"
    using step sp by (auto simp: insert_record_Inr insert_run_Inr)
  have g: "same_graph db db0" and kept: "gd_records db0 = gd_records db" "gd_runs db0 = gd_runs db"
    "gd_extractions db0 = gd_extractions db"
    by (simp_all add: db0)
  show thesis
    by (rule new [OF Nil _ _ _ _ _ sp2 [unfolded db0] rows])
       (use fresh response g in \<open>simp_all add: same_graph_def out kept db0 [symmetric]\<close>)
next
  case (Cons r rs)
  then show thesis
    using assms by (intro known [of r rs]) (auto simp: accept_memory_record_tx_def Let_def)
qed


section \<open>The invariant of accepted records\<close>

definition sequences_of :: "str \<Rightarrow> GraphDb \<Rightarrow> int list" where
  "sequences_of sid db =
     map rec_ingestion_sequence (filter (\<lambda>m. rec_memory_space_id m = sid) (gd_records db))"

definition run_record :: "IngestionRun \<Rightarrow> str \<times> str" where
  "run_record r = (run_memory_record_id r, run_memory_space_id r)"

definition record_ref :: "GraphMemoryRow \<Rightarrow> str \<times> str" where
  "record_ref m = (rec_id m, rec_memory_space_id m)"

definition request_key :: "IngestionRun \<Rightarrow> str \<times> str" where
  "request_key r = (run_memory_space_id r, run_idempotency_key r)"

definition accepted_ok :: "GraphDb \<Rightarrow> bool" where
  "accepted_ok db \<longleftrightarrow> distinct (map ms_id (gd_spaces db)) \<and> distinct (map rec_id (gd_records db))
     \<and> distinct (map run_id (gd_runs db)) \<and> distinct (map request_key (gd_runs db))
     \<and> map run_record (gd_runs db) = map record_ref (gd_records db)
     \<and> rec_memory_space_id ` set (gd_records db) \<subseteq> ms_id ` set (gd_spaces db)
     \<and> (\<forall>s \<in> set (gd_spaces db). 1 \<le> ms_next_ingestion_sequence s
          \<and> sequences_of (ms_id s) db = [1..ms_next_ingestion_sequence s - 1])"

text \<open>It looks at the keys only.\<close>

lemma keys_projections:
  "run_id = fst \<circ> run_key" "run_record = (\<lambda>(i, s, m, k, h). (m, s)) \<circ> run_key"
  "request_key = (\<lambda>(i, s, m, k, h). (s, k)) \<circ> run_key"
  "rec_id = fst \<circ> rec_key" "record_ref = (\<lambda>(i, s, n, t, j). (i, s)) \<circ> rec_key"
  "rec_memory_space_id = fst \<circ> snd \<circ> rec_key"
  by (auto simp: run_key_def run_record_def request_key_def rec_key_def record_ref_def)

lemma sequences_of_keys:
  "sequences_of sid db = map (fst \<circ> snd \<circ> snd) (filter (\<lambda>k. fst (snd k) = sid) (map rec_key (gd_records db)))"
  by (simp add: sequences_of_def filter_map o_def rec_key_def)

lemma accepted_ok_keys:
  assumes "map rec_key (gd_records db') = map rec_key (gd_records db)"
    "map run_key (gd_runs db') = map run_key (gd_runs db)" "gd_spaces db' = gd_spaces db"
  shows "accepted_ok db' \<longleftrightarrow> accepted_ok db"
proof -
  have "f = g \<circ> run_key \<Longrightarrow> map f (gd_runs db') = map f (gd_runs db)" for f :: "IngestionRun \<Rightarrow> 'a" and g
    using arg_cong [OF assms(2), of "map g"] by simp
  note r = this [OF keys_projections(1)] this [OF keys_projections(2)] this [OF keys_projections(3)]
  have "f = g \<circ> rec_key \<Longrightarrow> map f (gd_records db') = map f (gd_records db)" for f :: "GraphMemoryRow \<Rightarrow> 'a" and g
    using arg_cong [OF assms(1), of "map g"] by simp
  note m = this [OF keys_projections(4)] this [OF keys_projections(5)] this [OF keys_projections(6)]
  have "rec_memory_space_id ` set (gd_records db') = rec_memory_space_id ` set (gd_records db)"
    using arg_cong [OF m(3), of set] by simp
  then show ?thesis by (simp add: accepted_ok_def r m assms(3) sequences_of_keys assms(1))
qed

lemma runs_effect_keys:
  assumes "runs_effect db db'"
  shows "map rec_key (gd_records db') = map rec_key (gd_records db)"
    "map run_key (gd_runs db') = map run_key (gd_runs db)" "gd_spaces db' = gd_spaces db"
  using assms by (auto simp: runs_effect_def intro: runs_move_keys)

lemma ensure_space_ok:
  assumes "accepted_ok db"
  shows "accepted_ok (ensure_space now q db)"
proof (cases "rq_memory_space_id q \<in> ms_id ` set (gd_spaces db)")
  case True
  then have "ensure_space now q db = db" by (auto simp: ensure_space_def)
  then show ?thesis using assms by simp
next
  case False
  moreover have "rec_memory_space_id m \<in> ms_id ` set (gd_spaces db)" if "m \<in> set (gd_records db)" for m
    using assms that by (auto simp: accepted_ok_def)
  ultimately have "filter (\<lambda>m. rec_memory_space_id m = rq_memory_space_id q) (gd_records db) = []"
    by (metis (mono_tags, lifting) filter_False)
  then show ?thesis using assms False
    by (auto simp: accepted_ok_def ensure_space_def sequences_of_def)
qed

lemma accept_ok:
  assumes "accept_memory_record_tx E now q db = Inr (a, db')" "accepted_ok db"
  shows "accepted_ok db'"
  using assms(1)
proof (cases rule: accept_cases)
  case known
  then show ?thesis using assms(2) by (simp add: ensure_space_ok)
next
  case (new m r sp)
  have ok: "accepted_ok (ensure_space now q db)" using assms(2) by (rule ensure_space_ok)
  have sid: "rec_memory_space_id m = rq_memory_space_id q" "rec_ingestion_sequence m = ms_next_ingestion_sequence sp"
    "run_record r = record_ref m" "request_key r = (rq_memory_space_id q, rq_idempotency_key q)"
    using new(9,10) by (simp_all add: accepted_record_def accepted_run_def run_record_def record_ref_def request_key_def)
  have same: "s = sp" if "s \<in> set (gd_spaces (ensure_space now q db))" "ms_id s = rq_memory_space_id q" for s
    using ok new(7,8) that by (auto simp: accepted_ok_def distinct_map inj_on_def)
  have ids: "map ms_id (gd_spaces db') = map ms_id (gd_spaces (ensure_space now q db))"
    by (simp add: new(6) map_update_where)
  have fresh: "request_key r \<notin> request_key ` set (gd_runs db)"
    unfolding sid(4) using new(1) by (auto simp: runs_by_key_def filter_empty_conv request_key_def)
  have seq: "1 \<le> ms_next_ingestion_sequence s \<and> sequences_of (ms_id s) db' = [1..ms_next_ingestion_sequence s - 1]"
    if s: "s \<in> set (gd_spaces db')" for s
  proof -
    have "\<exists>t \<in> set (gd_spaces (ensure_space now q db)). ms_id s = ms_id t \<and> s = (if ms_id t = rq_memory_space_id q
        then t\<lparr>ms_next_ingestion_sequence := ms_next_ingestion_sequence t + 1\<rparr> else t)"
      using s by (force simp: new(6) update_where_def)
    then obtain t where t: "t \<in> set (gd_spaces (ensure_space now q db))" "ms_id s = ms_id t"
      "s = (if ms_id t = rq_memory_space_id q
         then t\<lparr>ms_next_ingestion_sequence := ms_next_ingestion_sequence t + 1\<rparr> else t)" by blast
    have old: "1 \<le> ms_next_ingestion_sequence t" "sequences_of (ms_id t) db = [1..ms_next_ingestion_sequence t - 1]"
      using ok t(1) by (auto simp: accepted_ok_def sequences_of_def)
    show ?thesis
    proof (cases "ms_id t = rq_memory_space_id q")
      case True
      then have "t = sp" using same t(1) by simp
      then show ?thesis using old t(2,3) True
        by (simp add: sequences_of_def new(3) sid upto_rec2 [of 1 "ms_next_ingestion_sequence sp"])
    next
      case False
      then show ?thesis using old t(3) by (simp add: sequences_of_def new(3) sid)
    qed
  qed
  have "rq_memory_space_id q \<in> set (map ms_id (gd_spaces db'))" unfolding ids using new(7,8) by force
  then have spaces: "rec_memory_space_id ` set (gd_records db') \<subseteq> ms_id ` set (gd_spaces db')"
    using ok arg_cong [OF ids, of set] by (auto simp: accepted_ok_def new(3) sid(1))
  show ?thesis
    using ok seq fresh new(11,12) sid(3) spaces
    unfolding accepted_ok_def by (auto simp: ids new(3,4))
qed

lemma graph_step_cases:
  assumes "graph_step E C reg (db, cs) (db', cs')"
  obtains (accept) now q a where "accept_memory_record_tx E now q db = Inr (a, db')"
  | (stage) "runs_effect db db'"
  using assms
  by (cases rule: graph_step.cases)
     (auto dest: stage_effects [THEN stage_runs_effect] publish_runs_effect)

lemma accept_runs:
  assumes "accept_memory_record_tx E now q db = Inr (a, db')"
  shows "runs_move (gd_runs db) (gd_runs db')
    \<and> (list_all run_state_ok (gd_runs db) \<longrightarrow> list_all run_state_ok (gd_runs db'))"
  using assms by (cases rule: accept_cases) (auto simp: accepted_run_def)

lemma step_runs:
  assumes "graph_step E C reg (db, cs) (db', cs')"
  shows "runs_move (gd_runs db) (gd_runs db')
    \<and> (list_all run_state_ok (gd_runs db) \<longrightarrow> list_all run_state_ok (gd_runs db'))"
  using assms by (cases rule: graph_step_cases) (auto simp: runs_effect_def dest: accept_runs)

lemma step_accepted_ok:
  assumes "graph_step E C reg (db, cs) (db', cs')" "accepted_ok db"
  shows "accepted_ok db'"
  using assms(1)
  by (cases rule: graph_step_cases) (use assms(2) in \<open>auto intro: accept_ok simp: accepted_ok_keys [OF runs_effect_keys]\<close>)

lemma reachable_ok:
  assumes "graph_reachable E C reg (db, cs)"
  shows "accepted_ok db" "list_all run_state_ok (gd_runs db)"
proof -
  have "accepted_ok (fst s) \<and> list_all run_state_ok (gd_runs (fst s))" if "graph_reachable E C reg s" for s
    using that
  proof (induction rule: graph_reachable.induct)
    case start
    show ?case by (simp add: accepted_ok_def initialize_schema_def)
  next
    case (step s s')
    have "graph_step E C reg (fst s, snd s) (fst s', snd s')" using step.hyps(2) by simp
    from step_accepted_ok [OF this] step_runs [OF this] step.IH show ?case by blast
  qed
  from this [OF assms] show "accepted_ok db" "list_all run_state_ok (gd_runs db)" by auto
qed

text \<open>What is stored with a record can be read back.\<close>

definition stored_ok :: "genv \<Rightarrow> GraphMemoryRow \<Rightarrow> bool" where
  "stored_ok E m \<longleftrightarrow> embedding_ok m \<and> rec_metadata_json m \<in> range (g_to_string E)"

lemma metadata_keys:
  assumes "map rec_key ms' = map rec_key ms"
  shows "rec_metadata_json ` set ms' = rec_metadata_json ` set ms"
proof -
  have "map (\<lambda>(i, s, n, t, j). j) (map rec_key ms') = map (\<lambda>(i, s, n, t, j). j) (map rec_key ms)"
    by (simp only: assms)
  then have "map rec_metadata_json ms' = map rec_metadata_json ms" by (simp add: rec_key_def o_def)
  then show ?thesis by (metis set_map)
qed

lemma stored_ok_all:
  "list_all (stored_ok E) ms \<longleftrightarrow> list_all embedding_ok ms \<and> rec_metadata_json ` set ms \<subseteq> range (g_to_string E)"
  by (auto simp: list_all_iff stored_ok_def)

lemma step_stored_ok:
  assumes "graph_step E C reg (db, cs) (db', cs')" "list_all (stored_ok E) (gd_records db)"
  shows "list_all (stored_ok E) (gd_records db')"
  using assms(1)
proof (cases rule: graph_step_cases)
  case (accept now q a)
  from accept show ?thesis
  proof (cases rule: accept_cases)
    case (new m r sp)
    have "stored_ok E m" using new(9) by (simp add: accepted_record_def stored_ok_def embedding_ok_def)
    then show ?thesis using assms(2) by (simp add: new(3))
  qed (use assms(2) in simp)
next
  case stage
  then show ?thesis
    using assms(2) metadata_keys [OF runs_effect_keys(1) [OF stage]] unfolding stored_ok_all by (simp add: runs_effect_def)
qed

lemma reachable_stored_ok:
  assumes "graph_reachable E C reg (db, cs)"
  shows "list_all (stored_ok E) (gd_records db)"
proof -
  have "list_all (stored_ok E) (gd_records (fst s))" if "graph_reachable E C reg s" for s
    using that
  proof (induction rule: graph_reachable.induct)
    case start
    show ?case by (simp add: initialize_schema_def)
  next
    case (step s s')
    have "graph_step E C reg (fst s, snd s) (fst s', snd s')" using step.hyps(2) by simp
    then show ?case using step.IH by (rule step_stored_ok)
  qed
  from this [OF assms] show ?thesis by simp
qed


section \<open>What is never taken back\<close>

definition grows :: "('a \<Rightarrow> 'b) \<Rightarrow> 'a list \<Rightarrow> 'a list \<Rightarrow> bool" where
  "grows f xs ys \<longleftrightarrow> (\<exists>zs. map f ys = map f xs @ zs)"

lemma grows_refl [simp]: "grows f xs xs" and grows_append [simp]: "grows f xs (xs @ zs)"
  by (simp_all add: grows_def)

lemma grows_trans: "grows f xs ys \<Longrightarrow> grows f ys zs \<Longrightarrow> grows f xs zs"
  by (auto simp: grows_def)

lemma grows_mem: "grows f xs ys \<Longrightarrow> x \<in> set xs \<Longrightarrow> \<exists>y \<in> set ys. f y = f x"
proof -
  assume "grows f xs ys" "x \<in> set xs"
  then obtain zs where "map f ys = map f xs @ zs" by (auto simp: grows_def)
  then have "f ` set ys = f ` set xs \<union> set zs" by (metis image_set set_append)
  then have "f x \<in> f ` set ys" using \<open>x \<in> set xs\<close> by blast
  then show ?thesis by force
qed

lemma grows_map: "map f ys = map f xs \<Longrightarrow> grows f xs ys"
  by (simp add: grows_def)

definition space_key :: "MemorySpace \<Rightarrow> str \<times> str" where
  "space_key s = (ms_id s, ms_owner_id s)"

definition kept :: "GraphDb \<Rightarrow> GraphDb \<Rightarrow> bool" where
  "kept db db' \<longleftrightarrow> grows space_key (gd_spaces db) (gd_spaces db')
     \<and> grows rec_key (gd_records db) (gd_records db') \<and> grows run_key (gd_runs db) (gd_runs db')
     \<and> grows id (gd_extractions db) (gd_extractions db')"

lemma kept_refl [simp]: "kept db db"
  by (simp add: kept_def)

lemma kept_trans: "kept a b \<Longrightarrow> kept b c \<Longrightarrow> kept a c"
  by (auto simp: kept_def intro: grows_trans)

lemma step_kept:
  assumes "graph_step E C reg (db, cs) (db', cs')"
  shows "kept db db'"
  using assms
proof (cases rule: graph_step_cases)
  case (accept now q a)
  have space: "grows space_key (gd_spaces db) (gd_spaces (ensure_space now q db))"
    by (simp add: ensure_space_def)
  from accept show ?thesis
  proof (cases rule: accept_cases)
    case known
    then show ?thesis using space by (simp add: kept_def)
  next
    case (new m r sp)
    have "map space_key (gd_spaces db') = map space_key (gd_spaces (ensure_space now q db))"
      by (simp add: new(6) map_update_where space_key_def)
    then show ?thesis using new(3-5) space by (simp add: kept_def grows_def)
  qed
next
  case stage
  obtain xs where "gd_extractions db' = gd_extractions db @ xs" using stage by (auto simp: runs_effect_def more_extractions_def)
  then show ?thesis using runs_effect_keys [OF stage] by (simp add: kept_def grows_map)
qed

lemma steps_kept:
  assumes "(graph_step E C reg)\<^sup>*\<^sup>* (db, cs) (db', cs')"
  shows "kept db db'"
proof -
  have "kept (fst s) (fst s')" if "(graph_step E C reg)\<^sup>*\<^sup>* s s'" for s s'
    using that
  proof (induction rule: rtranclp_induct)
    case (step s' s'')
    have "kept (fst s') (fst s'')" using step_kept [of E C reg "fst s'" "snd s'" "fst s''" "snd s''"] step.hyps(2) by simp
    with step.IH show ?case by (rule kept_trans)
  qed simp
  from this [OF assms] show ?thesis by simp
qed

lemma steps_reachable:
  assumes "graph_reachable E C reg s" "(graph_step E C reg)\<^sup>*\<^sup>* s s'"
  shows "graph_reachable E C reg s'"
  using assms(2,1) by (induction rule: rtranclp_induct) (auto intro: graph_reachable.step)


section \<open>Accepting again\<close>

lemma accepted_space:
  assumes "accept_memory_record_tx E now q db = Inr (a, db')"
  shows "\<exists>s \<in> set (gd_spaces db'). space_key s = (rq_memory_space_id q, rq_owner_id q)"
proof -
  let ?db0 = "ensure_space now q db"
  obtain sp where sp: "query_row E (space_rows (rq_memory_space_id q) ?db0) = Inr sp" "ms_owner_id sp = rq_owner_id q"
    using assms by (auto simp: accept_memory_record_tx_def Let_def)
  then have "sp \<in> set (gd_spaces ?db0)" "space_key sp = (rq_memory_space_id q, rq_owner_id q)"
    by (auto dest!: query_row_Inr simp: space_rows_def space_key_def)
  then have s0: "(rq_memory_space_id q, rq_owner_id q) \<in> set (map space_key (gd_spaces ?db0))" by force
  have "map space_key (gd_spaces db') = map space_key (gd_spaces ?db0)"
    using assms by (cases rule: accept_cases) (simp_all add: map_update_where space_key_def)
  then have "(rq_memory_space_id q, rq_owner_id q) \<in> set (map space_key (gd_spaces db'))" using s0 by simp
  then show ?thesis by force
qed

lemma accepted_run_row:
  assumes "accept_memory_record_tx E now q db = Inr (a, db')"
  shows "\<exists>r \<in> set (gd_runs db'). run_key r = (rs_ingestion_run_id a, rq_memory_space_id q,
    rs_memory_record_id a, rq_idempotency_key q, input_hash E q)"
  using assms
proof (cases rule: accept_cases)
  case (known r rs)
  have "r \<in> set (runs_by_key q db)" by (simp add: known(1))
  then have "r \<in> set (gd_runs db)" "request_key r = (rq_memory_space_id q, rq_idempotency_key q)"
    by (auto simp: runs_by_key_def request_key_def)
  with known(2-5) show ?thesis by (auto simp: run_key_def request_key_def intro!: bexI [of _ r])
next
  case (new m r sp)
  then show ?thesis by (auto simp: accepted_run_def run_key_def)
qed

lemma only_member_Cons:
  assumes "\<And>y. y \<in> set xs \<Longrightarrow> y = x" "x \<in> set xs"
  obtains ys where "xs = x # ys"
  using assms(2) assms(1) [of "hd xs"] by (cases xs) auto

lemma query_row_only:
  assumes "\<And>y. y \<in> set xs \<Longrightarrow> y = x" "x \<in> set xs"
  shows "query_row E xs = Inr x"
proof -
  obtain ys where "xs = x # ys" using assms by (rule only_member_Cons)
  then show ?thesis by (simp add: query_row_def)
qed

text \<open>In a state that keeps the space and the run of a key, its acceptance is decided by the run.\<close>

lemma accept_known:
  assumes "accepted_ok db" "s \<in> set (gd_spaces db)" "space_key s = (rq_memory_space_id q, rq_owner_id q)"
    and "r \<in> set (gd_runs db)" "request_key r = (rq_memory_space_id q, rq_idempotency_key q)"
  shows "accept_memory_record_tx E now q db = (if run_input_hash r = input_hash E q
    then Inr (\<lparr>rs_memory_record_id = run_memory_record_id r, rs_ingestion_run_id = run_id r,
           rs_status = run_status r, rs_vector_ready = False, rs_graph_ready = False\<rparr>, db)
    else Inl (MInvalidInput (lit ''IDEMPOTENCY_CONFLICT'')))"
proof -
  have sid: "ms_id s = rq_memory_space_id q" "ms_owner_id s = rq_owner_id q"
    using assms(3) by (simp_all add: space_key_def)
  have "x = s" if "x \<in> set (space_rows (rq_memory_space_id q) db)" for x
    using assms(1,2) sid that by (auto simp: accepted_ok_def space_rows_def distinct_map inj_on_def)
  moreover have "s \<in> set (space_rows (rq_memory_space_id q) db)" using assms(2) sid by (simp add: space_rows_def)
  ultimately have sp: "query_row E (space_rows (rq_memory_space_id q) db) = Inr s"
    by (rule query_row_only)
  have "x = r" if "x \<in> set (runs_by_key q db)" for x
    using assms(1,4,5) that by (auto simp: accepted_ok_def runs_by_key_def request_key_def distinct_map inj_on_def)
  moreover have "r \<in> set (runs_by_key q db)" using assms(4,5) by (simp add: runs_by_key_def request_key_def)
  ultimately obtain rs where "runs_by_key q db = r # rs" by (rule only_member_Cons)
  moreover have "ensure_space now q db = db" using assms(2) sid by (auto simp: ensure_space_def)
  ultimately show ?thesis using sp sid by (simp add: accept_memory_record_tx_def Let_def)
qed

end
