(* ===== verification/GraphContent.thy ===== *)
theory GraphContent
  imports GraphInv
begin

text \<open>
  What a publication may add to the graph, and the integrity of the graph in every reachable state:
  identities are unique, every reference has its target in the same space, every alias is the
  normalized name of its entity.
\<close>

section \<open>Rows a publication adds\<close>

definition adds :: "('a \<Rightarrow> bool) \<Rightarrow> 'a list \<Rightarrow> 'a list \<Rightarrow> bool" where
  "adds P xs ys \<longleftrightarrow> (\<exists>zs. ys = xs @ zs \<and> (\<forall>z \<in> set zs. P z))"

lemma adds_refl [simp]: "adds P xs xs"
  by (simp add: adds_def)

lemma adds_snoc [simp]: "adds P xs (xs @ [z]) \<longleftrightarrow> P z"
  by (simp add: adds_def)

lemma adds_trans: "adds P xs ys \<Longrightarrow> adds P ys zs \<Longrightarrow> adds P xs zs"
  by (fastforce simp: adds_def)

lemma adds_mem: "adds P xs ys \<Longrightarrow> y \<in> set ys \<Longrightarrow> y \<in> set xs \<or> P y"
  by (auto simp: adds_def)

lemma adds_subset: "adds P xs ys \<Longrightarrow> set xs \<subseteq> set ys"
  by (auto simp: adds_def)

lemma adds_all: "adds P xs ys \<Longrightarrow> \<forall>x \<in> set xs. P x \<Longrightarrow> \<forall>y \<in> set ys. P y"
  by (auto simp: adds_def)

definition evidence_span :: "FactEvidence \<Rightarrow> GraphEvidenceSpan" where
  "evidence_span v = \<lparr>sp_text = evi_evidence_text v, sp_start_byte = evi_start_byte v,
     sp_end_byte = evi_end_byte v\<rparr>"

lemma span_fields [simp]:
  "\<lparr>sp_text = sp_text v, sp_start_byte = sp_start_byte v, sp_end_byte = sp_end_byte v\<rparr> = (v :: GraphEvidenceSpan)"
  by simp

definition output_spans :: "GraphExtractionOutput \<Rightarrow> GraphEvidenceSpan set" where
  "output_spans out = (\<Union>c \<in> set (go_facts out). set (fc_evidence c))"

definition pub_rel :: "ResolutionPublishRequest \<Rightarrow> GraphDb \<Rightarrow> GraphDb \<Rightarrow> bool" where
  "pub_rel q db db' \<longleftrightarrow> same_runs db db'
     \<and> adds (\<lambda>e. active_entity e \<and> ent_memory_space_id e = pq_memory_space_id q) (gd_entities db) (gd_entities db')
     \<and> adds (\<lambda>a. als_memory_space_id a = pq_memory_space_id q) (gd_aliases db) (gd_aliases db')
     \<and> adds (\<lambda>l. rel_memory_record_id l = pq_memory_record_id q \<and> rel_memory_space_id l = pq_memory_space_id q
           \<and> rel_extraction_run_id l = pq_extraction_run_id q)
         (gd_links db) (gd_links db')
     \<and> adds (\<lambda>f. active_fact f \<and> fct_memory_space_id f = pq_memory_space_id q) (gd_facts db) (gd_facts db')
     \<and> adds (\<lambda>h. hst_trigger_record_id h = pq_memory_record_id q \<and> hst_memory_space_id h = pq_memory_space_id q)
         (gd_history db) (gd_history db')
     \<and> adds (\<lambda>g. evg_extraction_run_id g = pq_extraction_run_id q \<and> evg_memory_space_id g = pq_memory_space_id q)
         (gd_groups db) (gd_groups db')
     \<and> adds (\<lambda>v. evi_memory_record_id v = pq_memory_record_id q \<and> evi_memory_space_id v = pq_memory_space_id q
           \<and> evidence_span v \<in> output_spans (pq_extraction_output q)) (gd_evidence db) (gd_evidence db')
     \<and> adds (\<lambda>d. rdc_ingestion_run_id d = pq_ingestion_run_id q \<and> rdc_memory_space_id d = pq_memory_space_id q)
         (gd_decisions db) (gd_decisions db')"

lemma pub_rel_refl [simp]: "pub_rel q db db"
  by (simp add: pub_rel_def)

lemma pub_rel_trans: "pub_rel q a b \<Longrightarrow> pub_rel q b c \<Longrightarrow> pub_rel q a c"
  unfolding pub_rel_def by (meson adds_trans same_runs_trans)


section \<open>Integrity of the graph\<close>

definition entity_identity :: "Entity \<Rightarrow> str \<times> str \<times> str" where
  "entity_identity e = (ent_memory_space_id e, ent_entity_type e, ent_normalized_name e)"

definition fact_identity :: "Fact \<Rightarrow> str \<times> str" where
  "fact_identity f = (fct_memory_space_id f, fct_dedup_key f)"

definition names_entity :: "GraphDb \<Rightarrow> str \<Rightarrow> str \<Rightarrow> str \<Rightarrow> bool" where
  "names_entity db sid i n \<longleftrightarrow> (\<exists>e \<in> set (gd_entities db). ent_id e = i \<and> ent_memory_space_id e = sid
     \<and> ent_normalized_name e = n)"

definition entities_ok :: "GraphDb \<Rightarrow> bool" where
  "entities_ok db \<longleftrightarrow> distinct (map ent_id (gd_entities db)) \<and> distinct (map entity_identity (gd_entities db))
     \<and> list_all active_entity (gd_entities db)
     \<and> ent_memory_space_id ` set (gd_entities db) \<subseteq> ms_id ` set (gd_spaces db)
     \<and> (\<forall>a \<in> set (gd_aliases db). names_entity db (als_memory_space_id a) (als_entity_id a) (als_normalized_alias a))"

definition facts_ok :: "GraphDb \<Rightarrow> bool" where
  "facts_ok db \<longleftrightarrow> distinct (map fct_id (gd_facts db)) \<and> distinct (map fact_identity (gd_facts db))
     \<and> list_all active_fact (gd_facts db)
     \<and> (\<forall>f \<in> set (gd_facts db). entity_exists (fct_subject_entity_id f) (fct_memory_space_id f) db
          \<and> entity_exists (fct_object_entity_id f) (fct_memory_space_id f) db)"

definition references_ok :: "GraphDb \<Rightarrow> bool" where
  "references_ok db \<longleftrightarrow>
     (\<forall>l \<in> set (gd_links db). record_exists (rel_memory_record_id l) (rel_memory_space_id l) db
        \<and> entity_exists (rel_entity_id l) (rel_memory_space_id l) db)
     \<and> (\<forall>h \<in> set (gd_history db). fact_exists (hst_fact_id h) (hst_memory_space_id h) db
        \<and> record_exists (hst_trigger_record_id h) (hst_memory_space_id h) db)
     \<and> (\<forall>g \<in> set (gd_groups db). fact_exists (evg_fact_id g) (evg_memory_space_id g) db)
     \<and> (\<forall>v \<in> set (gd_evidence db). group_exists (evi_evidence_group_id v) (evi_memory_space_id v) db
        \<and> record_exists (evi_memory_record_id v) (evi_memory_space_id v) db)
     \<and> (\<forall>d \<in> set (gd_decisions db). run_exists (rdc_ingestion_run_id d) (rdc_memory_space_id d) db)"

definition graph_ok :: "GraphDb \<Rightarrow> bool" where
  "graph_ok db \<longleftrightarrow> entities_ok db \<and> facts_ok db \<and> references_ok db"

text \<open>A publication step: it adds rows of its own and keeps the integrity.\<close>

definition pub_ok :: "ResolutionPublishRequest \<Rightarrow> GraphDb \<Rightarrow> GraphDb \<Rightarrow> bool" where
  "pub_ok q db db' \<longleftrightarrow> pub_rel q db db' \<and> (graph_ok db \<longrightarrow> graph_ok db')"

lemma pub_ok_refl [simp]: "pub_ok q db db"
  by (simp add: pub_ok_def)

lemma pub_ok_trans: "pub_ok q a b \<Longrightarrow> pub_ok q b c \<Longrightarrow> pub_ok q a c"
  by (auto simp: pub_ok_def intro: pub_rel_trans)

lemmas ref_defs = entity_exists_def fact_exists_def group_exists_def record_exists_def run_exists_def
  names_entity_def

text \<open>The targets of references only grow.\<close>

definition targets :: "GraphDb \<Rightarrow> GraphDb \<Rightarrow> bool" where
  "targets db db' \<longleftrightarrow> (\<forall>i s. entity_exists i s db \<longrightarrow> entity_exists i s db')
     \<and> (\<forall>i s. fact_exists i s db \<longrightarrow> fact_exists i s db') \<and> (\<forall>i s. group_exists i s db \<longrightarrow> group_exists i s db')
     \<and> (\<forall>i s. record_exists i s db \<longrightarrow> record_exists i s db') \<and> (\<forall>i s. run_exists i s db \<longrightarrow> run_exists i s db')"

lemma targets_subset:
  assumes "set (gd_entities db) \<subseteq> set (gd_entities db')" "set (gd_facts db) \<subseteq> set (gd_facts db')"
    "set (gd_groups db) \<subseteq> set (gd_groups db')" "set (gd_records db) \<subseteq> set (gd_records db')"
    "set (gd_runs db) \<subseteq> set (gd_runs db')"
  shows "targets db db'"
  using assms by (auto simp: targets_def ref_defs)

lemma references_grow:
  assumes "references_ok db" "targets db db'"
    and "adds (\<lambda>l. record_exists (rel_memory_record_id l) (rel_memory_space_id l) db'
       \<and> entity_exists (rel_entity_id l) (rel_memory_space_id l) db') (gd_links db) (gd_links db')"
    and "adds (\<lambda>h. fact_exists (hst_fact_id h) (hst_memory_space_id h) db'
       \<and> record_exists (hst_trigger_record_id h) (hst_memory_space_id h) db') (gd_history db) (gd_history db')"
    and "adds (\<lambda>g. fact_exists (evg_fact_id g) (evg_memory_space_id g) db') (gd_groups db) (gd_groups db')"
    and "adds (\<lambda>v. group_exists (evi_evidence_group_id v) (evi_memory_space_id v) db'
       \<and> record_exists (evi_memory_record_id v) (evi_memory_space_id v) db') (gd_evidence db) (gd_evidence db')"
    and "adds (\<lambda>d. run_exists (rdc_ingestion_run_id d) (rdc_memory_space_id d) db')
       (gd_decisions db) (gd_decisions db')"
  shows "references_ok db'"
  unfolding references_ok_def
  using assms(1,2) unfolding references_ok_def targets_def
  by (intro conjI adds_all [OF assms(3)] adds_all [OF assms(4)] adds_all [OF assms(5)]
      adds_all [OF assms(6)] adds_all [OF assms(7)]) blast+

lemma facts_grow:
  assumes "facts_ok db" "targets db db'" "gd_facts db' = gd_facts db"
  shows "facts_ok db'"
  using assms by (auto simp: facts_ok_def targets_def)

lemma entities_same:
  assumes "entities_ok db" "gd_entities db' = gd_entities db" "gd_aliases db' = gd_aliases db"
    "ms_id ` set (gd_spaces db) \<subseteq> ms_id ` set (gd_spaces db')"
  shows "entities_ok db'"
  using assms by (fastforce simp: entities_ok_def names_entity_def)

lemma graph_ok_ids [simp]: "graph_ok (db\<lparr>gd_ids := n\<rparr>) = graph_ok db"
  by (simp add: graph_ok_def entities_ok_def facts_ok_def references_ok_def ref_defs)

lemma pub_ok_ids [simp]: "pub_ok q (db\<lparr>gd_ids := n\<rparr>) db' = pub_ok q db db'"
  by (simp add: pub_ok_def pub_rel_def same_runs_def)

lemma new_v4_pub: "new_v4 E db = (i, db') \<Longrightarrow> pub_ok q db db'"
  by (auto simp: new_v4_def pub_ok_def pub_rel_def same_runs_def)

lemma insert_entity_Inr:
  assumes "insert_entity E e db = Inr db'"
  obtains fts where "ent_id e \<notin> ent_id ` set (gd_entities db)" "ent_memory_space_id e \<in> ms_id ` set (gd_spaces db)"
    "\<forall>e' \<in> set (gd_entities db). active_entity e' \<longrightarrow> entity_identity e' \<noteq> entity_identity e"
    "db' = db\<lparr>gd_entities := gd_entities db @ [e], gd_entity_fts := fts\<rparr>"
  using assms by (auto simp: insert_entity_def entity_identity_def)

lemma insert_entity_pub:
  assumes "insert_entity E e db = Inr db'" "active_entity e" "ent_memory_space_id e = pq_memory_space_id q"
  shows "pub_ok q db db' \<and> names_entity db' (ent_memory_space_id e) (ent_id e) (ent_normalized_name e)"
  using assms(1)
proof (cases rule: insert_entity_Inr)
  case (1 fts)
  have t: "targets db db'" by (rule targets_subset) (auto simp: 1(4))
  have "entities_ok db'" if "entities_ok db"
    using that 1(1-3) assms(2) by (auto simp: entities_ok_def 1(4) names_entity_def list_all_iff)
  moreover have "facts_ok db'" if "facts_ok db" using that t by (rule facts_grow) (simp add: 1(4))
  moreover have "references_ok db'" if "references_ok db"
    using that t by (rule references_grow) (simp_all add: 1(4))
  ultimately show ?thesis
    using assms(2,3) by (simp add: pub_ok_def graph_ok_def pub_rel_def same_runs_def 1(4) names_entity_def)
qed


lemma names_entity_ids [simp]: "names_entity (db\<lparr>gd_ids := n\<rparr>) = names_entity db"
  by (auto simp: names_entity_def fun_eq_iff)

lemma exists_ids [simp]:
  "entity_exists i s (db\<lparr>gd_ids := n\<rparr>) = entity_exists i s db" "fact_exists i s (db\<lparr>gd_ids := n\<rparr>) = fact_exists i s db"
  "group_exists i s (db\<lparr>gd_ids := n\<rparr>) = group_exists i s db" "record_exists i s (db\<lparr>gd_ids := n\<rparr>) = record_exists i s db"
  "run_exists i s (db\<lparr>gd_ids := n\<rparr>) = run_exists i s db"
  by (simp_all add: ref_defs)

text \<open>The other rows: a step that adds one row to one table.\<close>

lemma ensure_alias_pub:
  assumes "ensure_entity_alias E now (pq_memory_space_id q) i d n db = Inr db'"
    "names_entity db (pq_memory_space_id q) i n"
  shows "pub_ok q db db' \<and> gd_entities db' = gd_entities db"
proof -
  let ?a = "\<lparr>als_id = g_uuid_v4 E (gd_ids db), als_memory_space_id = pq_memory_space_id q, als_entity_id = i,
    als_display_alias = d, als_normalized_alias = n, als_created_at_ms = now, als_deleted_at_ms = None\<rparr>"
  consider k where "db' = db\<lparr>gd_ids := k\<rparr>"
    | k fts where "db' = db\<lparr>gd_ids := k, gd_aliases := gd_aliases db @ [?a], gd_alias_fts := fts\<rparr>"
    using assms(1) by (auto simp: ensure_entity_alias_def new_v4_def Let_def split: if_splits)
  then show ?thesis
  proof cases
    case 1
    then show ?thesis by (simp add: pub_ok_def pub_rel_def same_runs_def)
  next
    case (2 k fts)
    have t: "targets db db'" by (rule targets_subset) (auto simp: 2)
    have "entities_ok db'" if "entities_ok db"
      using that assms(2) by (auto simp: entities_ok_def 2 names_entity_def)
    moreover have "facts_ok db'" if "facts_ok db" using that t by (rule facts_grow) (simp add: 2)
    moreover have "references_ok db'" if "references_ok db"
      using that t by (rule references_grow) (simp_all add: 2)
    ultimately show ?thesis
      by (simp add: pub_ok_def graph_ok_def pub_rel_def same_runs_def 2)
  qed
qed

lemma pub_rel_targets: "pub_rel q db db' \<Longrightarrow> targets db db'"
  by (rule targets_subset) (auto simp: pub_rel_def same_runs_def dest: adds_subset)

lemma pub_ok_rows:
  assumes "pub_rel q db db'" "gd_entities db' = gd_entities db" "gd_aliases db' = gd_aliases db"
    and "targets db db' \<Longrightarrow> facts_ok db \<Longrightarrow> facts_ok db'"
    and "adds (\<lambda>l. record_exists (rel_memory_record_id l) (rel_memory_space_id l) db'
       \<and> entity_exists (rel_entity_id l) (rel_memory_space_id l) db') (gd_links db) (gd_links db')"
    and "adds (\<lambda>h. fact_exists (hst_fact_id h) (hst_memory_space_id h) db'
       \<and> record_exists (hst_trigger_record_id h) (hst_memory_space_id h) db') (gd_history db) (gd_history db')"
    and "adds (\<lambda>g. fact_exists (evg_fact_id g) (evg_memory_space_id g) db') (gd_groups db) (gd_groups db')"
    and "adds (\<lambda>v. group_exists (evi_evidence_group_id v) (evi_memory_space_id v) db'
       \<and> record_exists (evi_memory_record_id v) (evi_memory_space_id v) db') (gd_evidence db) (gd_evidence db')"
    and "adds (\<lambda>d. run_exists (rdc_ingestion_run_id d) (rdc_memory_space_id d) db')
       (gd_decisions db) (gd_decisions db')"
  shows "pub_ok q db db'"
proof -
  have t: "targets db db'" using assms(1) by (rule pub_rel_targets)
  have "gd_spaces db' = gd_spaces db" using assms(1) by (simp add: pub_rel_def same_runs_def)
  then have "entities_ok db \<Longrightarrow> entities_ok db'"
    using entities_same [of db db'] by (simp add: assms(2,3))
  moreover have "references_ok db \<Longrightarrow> references_ok db'" by (rule references_grow [OF _ t assms(5-9)])
  moreover have "facts_ok db \<Longrightarrow> facts_ok db'" by (rule assms(4) [OF t])
  ultimately have "graph_ok db \<Longrightarrow> graph_ok db'" by (simp only: graph_ok_def)
  with assms(1) show ?thesis by (simp add: pub_ok_def)
qed

lemmas pub_simps = pub_rel_def same_runs_def ref_defs

lemma insert_decision_pub:
  assumes "insert_resolution_decision E now q k ik cands si act db = Inr db'"
  shows "pub_ok q db db'"
  by (rule pub_ok_rows)
     (use assms in \<open>auto simp: insert_resolution_decision_def new_v4_def Let_def pub_simps intro: facts_grow\<close>)

lemma insert_link_pub:
  assumes "insert_record_entity_link E now q i lk db = Inr (c, db')"
  shows "pub_ok q db db'"
  by (rule pub_ok_rows)
     (use assms in \<open>auto simp: insert_record_entity_link_def new_v4_def Let_def pub_simps intro: facts_grow
        split: if_splits\<close>)

lemma insert_fact_pub:
  assumes "insert_fact E f db = Inr db'" "active_fact f" "fct_memory_space_id f = pq_memory_space_id q"
  shows "pub_ok q db db'"
proof -
  obtain fts where f: "fct_id f \<notin> fct_id ` set (gd_facts db)"
    "\<forall>f' \<in> set (gd_facts db). active_fact f' \<longrightarrow> fact_identity f' \<noteq> fact_identity f"
    "entity_exists (fct_subject_entity_id f) (fct_memory_space_id f) db"
    "entity_exists (fct_object_entity_id f) (fct_memory_space_id f) db"
    and db': "db' = db\<lparr>gd_facts := gd_facts db @ [f], gd_fact_fts := fts\<rparr>"
    using assms(1) by (auto simp: insert_fact_def fact_identity_def)
  have "facts_ok db'" if "facts_ok db"
    using that f assms(2) by (auto simp: facts_ok_def db' list_all_iff entity_exists_def)
  then show ?thesis
    by (intro pub_ok_rows) (use assms(2,3) in \<open>auto simp: db' pub_rel_def same_runs_def\<close>)
qed

lemma insert_history_pub:
  assumes "insert_history E now q i db = Inr db'"
  shows "pub_ok q db db'"
  by (rule pub_ok_rows)
     (use assms in \<open>auto simp: insert_history_def new_v4_def Let_def pub_simps intro: facts_grow\<close>)

lemma insert_evidence_pub:
  assumes "insert_fact_evidence E now q g ev db = Inr db'" "ev \<in> output_spans (pq_extraction_output q)"
  shows "pub_ok q db db'"
  by (rule pub_ok_rows)
     (use assms in \<open>auto simp: insert_fact_evidence_def new_v4_def Let_def pub_simps evidence_span_def
        intro: facts_grow\<close>)

lemma evidence_group_pub:
  assumes "insert_fact_evidence_group E now q i c db = Inr (n, db')" "c \<in> set (go_facts (pq_extraction_output q))"
  shows "pub_ok q db db'"
proof -
  let ?g = "\<lparr>evg_id = g_uuid_v4 E (gd_ids db), evg_memory_space_id = pq_memory_space_id q,
    evg_fact_id = i, evg_evidence_kind = lit ''support'', evg_extraction_run_id = pq_extraction_run_id q,
    evg_created_at_ms = now\<rparr>"
  obtain db1 where db1: "db1 = db\<lparr>gd_ids := Suc (gd_ids db), gd_groups := gd_groups db @ [?g]\<rparr>" by simp
  have g: "fact_exists i (pq_memory_space_id q) db"
    and ev: "for_each (insert_fact_evidence E now q (evg_id ?g)) (fc_evidence c) db1 = Inr db'"
    using assms(1) by (auto simp: insert_fact_evidence_group_def new_v4_def Let_def db1)
  have "pub_ok q db db1"
    by (rule pub_ok_rows) (use g in \<open>auto simp: db1 pub_simps intro: facts_grow\<close>)
  with ev show ?thesis
    by (rule for_each_invariant [where P = "pub_ok q db"])
       (rule pub_ok_trans [OF _ insert_evidence_pub], use assms(2) in \<open>auto simp: output_spans_def\<close>)
qed



section \<open>Resolution and publication\<close>

lemma entities_active:
  assumes "entities_ok db" "e \<in> set (gd_entities db)"
  shows "active_entity e"
  using assms by (auto simp: entities_ok_def list_all_iff)

lemma pub_ok_entities: "pub_ok q db db' \<Longrightarrow> set (gd_entities db) \<subseteq> set (gd_entities db')"
  unfolding pub_ok_def pub_rel_def by (blast dest: adds_subset)

lemma find_name_Some:
  assumes "find_entity_by_normalized_name sid t n db = Some i"
  shows "names_entity db sid i n"
proof -
  let ?es = "filter (\<lambda>e. ent_memory_space_id e = sid \<and> ent_entity_type e = t \<and> ent_normalized_name e = n
    \<and> active_entity e) (gd_entities db)"
  obtain e es where e: "sort_key (\<lambda>e. (ent_created_at_ms e, ent_id e)) ?es = e # es" "i = ent_id e"
    using assms by (auto simp: find_entity_by_normalized_name_def split: list.splits)
  then have "e \<in> set (sort_key (\<lambda>e. (ent_created_at_ms e, ent_id e)) ?es)" by simp
  then have "e \<in> set ?es" unfolding set_sort .
  then show ?thesis using e(2) by (auto simp: names_entity_def)
qed

lemma sort_key_Nil [simp]: "sort_key f xs = [] \<longleftrightarrow> xs = []"
proof -
  have "length (sort_key f xs) = length xs" by simp
  then show ?thesis by (metis length_0_conv)
qed

lemma find_name_None:
  "find_entity_by_normalized_name sid t n db = None \<longleftrightarrow> \<not> (\<exists>e \<in> set (gd_entities db).
     ent_memory_space_id e = sid \<and> ent_entity_type e = t \<and> ent_normalized_name e = n \<and> active_entity e)"
proof -
  let ?es = "filter (\<lambda>e. ent_memory_space_id e = sid \<and> ent_entity_type e = t \<and> ent_normalized_name e = n
    \<and> active_entity e) (gd_entities db)"
  have "find_entity_by_normalized_name sid t n db = None
      \<longleftrightarrow> sort_key (\<lambda>e. (ent_created_at_ms e, ent_id e)) ?es = []"
    by (simp add: find_entity_by_normalized_name_def split: list.split del: sort_key_Nil)
  also have "\<dots> \<longleftrightarrow> ?es = []" by (rule sort_key_Nil)
  finally show ?thesis by (auto simp: filter_empty_conv)
qed

text \<open>A name that finds no entity finds no alias either: the second lookup never decides.\<close>

lemma alias_rows_mem:
  "e \<in> set (alias_rows sid t n db) \<longleftrightarrow> e \<in> set (gd_entities db) \<and> ent_entity_type e = t \<and> active_entity e
     \<and> ent_memory_space_id e = sid \<and> (\<exists>a \<in> set (gd_aliases db). als_entity_id a = ent_id e
       \<and> als_memory_space_id a = sid \<and> als_normalized_alias a = n \<and> als_deleted_at_ms a = None)"
  unfolding alias_rows_def by (simp add: set_concat) (safe; force)

lemma alias_rows_named:
  assumes "entities_ok db" "e \<in> set (alias_rows sid t n db)"
  shows "e \<in> set (gd_entities db) \<and> ent_memory_space_id e = sid \<and> ent_entity_type e = t
    \<and> ent_normalized_name e = n \<and> active_entity e"
proof -
  note e = assms(2) [unfolded alias_rows_mem]
  then obtain a where a: "a \<in> set (gd_aliases db)" "als_entity_id a = ent_id e" "als_normalized_alias a = n" by blast
  have "names_entity db (als_memory_space_id a) (als_entity_id a) (als_normalized_alias a)"
    using assms(1) a(1) unfolding entities_ok_def by blast
  then obtain e' where e': "e' \<in> set (gd_entities db)" "ent_id e' = ent_id e" "ent_normalized_name e' = n"
    using a(2,3) by (auto simp: names_entity_def)
  have "inj_on ent_id (set (gd_entities db))" using assms(1) by (simp add: entities_ok_def distinct_map)
  then have "e' = e" using e e' by (simp add: inj_onD)
  with e e' show ?thesis by simp
qed

lemma no_alias_without_name:
  assumes "entities_ok db" "find_entity_by_normalized_name sid t n db = None"
  shows "find_unique_entity_by_alias sid t n db = None"
proof -
  have "alias_rows sid t n db = []"
  proof (rule ccontr)
    assume "alias_rows sid t n db \<noteq> []"
    then obtain e where "e \<in> set (alias_rows sid t n db)" by (cases "alias_rows sid t n db") auto
    from alias_rows_named [OF assms(1) this] assms(2) show False unfolding find_name_None by blast
  qed
  then show ?thesis by (simp add: find_unique_entity_by_alias_def)
qed

lemma reuse_entity_pub:
  assumes "reuse_entity E now q c i db = Inr (r, db')"
    "names_entity db (pq_memory_space_id q) i (normalize_graph_text E (ec_name c))"
  shows "pub_ok q db db'"
proof -
  obtain db1 where "ensure_entity_alias E now (pq_memory_space_id q) i (ec_name c)
      (normalize_graph_text E (ec_name c)) db = Inr db1"
    and d: "insert_resolution_decision E now q ''entity_resolution'' (ec_local_id c) [i] i ''reuse'' db1 = Inr db'"
    using assms(1) by (auto simp: reuse_entity_def)
  from ensure_alias_pub [OF this(1) assms(2)] insert_decision_pub [OF d] show ?thesis
    by (blast intro: pub_ok_trans)
qed

lemma create_entity_pub:
  assumes "create_entity E now q c db = Inr (r, db')"
  shows "pub_ok q db db'"
proof -
  obtain i db0 where i: "new_v4 E db = (i, db0)" by (cases "new_v4 E db")
  let ?e = "\<lparr>ent_id = i, ent_memory_space_id = pq_memory_space_id q,
            ent_canonical_name = ec_name c, ent_normalized_name = normalize_graph_text E (ec_name c),
            ent_entity_type = ec_entity_type c, ent_status = ACTIVE,
            ent_type_registry_version = pq_type_registry_version q, ent_created_at_ms = now,
            ent_deleted_at_ms = None\<rparr>"
  obtain db1 db2 where s: "insert_entity E ?e db0 = Inr db1"
    "ensure_entity_alias E now (pq_memory_space_id q) i (ec_name c) (normalize_graph_text E (ec_name c)) db1 = Inr db2"
    "insert_resolution_decision E now q ''entity_resolution'' (ec_local_id c) [] i ''create'' db2 = Inr db'"
    using assms i by (auto simp: create_entity_def Let_def)
  have "pub_ok q db0 db1 \<and> names_entity db1 (ent_memory_space_id ?e) (ent_id ?e) (ent_normalized_name ?e)"
    by (rule insert_entity_pub [OF s(1)]) (simp_all add: active_entity_def)
  then have e: "pub_ok q db0 db1" "names_entity db1 (pq_memory_space_id q) i (normalize_graph_text E (ec_name c))"
    by simp_all
  from pub_ok_trans [OF new_v4_pub [OF i] e(1)] ensure_alias_pub [OF s(2) e(2)] insert_decision_pub [OF s(3)]
  show ?thesis by (blast intro: pub_ok_trans)
qed

lemma resolve_entity_pub:
  assumes "resolve_entity_candidate E now q c db = Inr (r, db')" "graph_ok db"
  shows "pub_ok q db db'"
proof (cases "find_entity_by_normalized_name (pq_memory_space_id q) (ec_entity_type c)
    (normalize_graph_text E (ec_name c)) db")
  case None
  with assms have "create_entity E now q c db = Inr (r, db')"
    by (simp add: resolve_entity_candidate_def Let_def graph_ok_def no_alias_without_name)
  then show ?thesis by (rule create_entity_pub)
next
  case (Some i)
  with assms have "reuse_entity E now q c i db = Inr (r, db')"
    by (simp add: resolve_entity_candidate_def Let_def)
  then show ?thesis using find_name_Some [OF Some] by (rule reuse_entity_pub)
qed

lemma resolve_fact_pub:
  assumes "resolve_fact_candidate E now q c sj ob db = Inr (r, db')"
  shows "pub_ok q db db'"
proof -
  let ?key = "fact_dedup_key E sj (fc_predicate c) ob (normalize_graph_text E (fc_fact_text c))"
  show ?thesis
  proof (cases "find_fact_by_dedup_key (pq_memory_space_id q) ?key db")
    case None
    obtain i db0 where i: "new_v4 E db = (i, db0)" by (cases "new_v4 E db")
    let ?f = "\<lparr>fct_id = i, fct_memory_space_id = pq_memory_space_id q,
                  fct_subject_entity_id = sj, fct_predicate = fc_predicate c,
                  fct_object_entity_id = ob, fct_fact_text = fc_fact_text c, fct_dedup_key = ?key,
                  fct_status = ACTIVE, fct_valid_from_ms = fc_valid_from_ms c,
                  fct_valid_to_ms = fc_valid_to_ms c, fct_recorded_at_ms = now,
                  fct_retired_at_ms = None, fct_type_registry_version = pq_type_registry_version q\<rparr>"
    obtain db1 db2 where s: "insert_fact E ?f db0 = Inr db1" "insert_history E now q i db1 = Inr db2"
      "insert_resolution_decision E now q ''fact_resolution'' (fc_local_id c) [] i ''create'' db2 = Inr db'"
      using assms i None by (auto simp: resolve_fact_candidate_def Let_def)
    have "pub_ok q db0 db1" by (rule insert_fact_pub [OF s(1)]) (simp_all add: active_fact_def)
    from pub_ok_trans [OF new_v4_pub [OF i] this] insert_history_pub [OF s(2)] insert_decision_pub [OF s(3)]
    show ?thesis by (blast intro: pub_ok_trans)
  next
    case (Some i)
    with assms show ?thesis
      by (auto simp: resolve_fact_candidate_def Let_def intro: insert_decision_pub)
  qed
qed

text \<open>The loops start in a graph that is intact.\<close>

definition pub_from :: "ResolutionPublishRequest \<Rightarrow> GraphDb \<Rightarrow> GraphDb \<Rightarrow> bool" where
  "pub_from q db db' \<longleftrightarrow> pub_rel q db db' \<and> graph_ok db'"

lemma pub_from_step: "pub_from q a b \<Longrightarrow> pub_ok q b c \<Longrightarrow> pub_from q a c"
  by (auto simp: pub_from_def pub_ok_def intro: pub_rel_trans)

lemma publish_entity_pub:
  assumes "publish_entity E now q lk b c s = Inr s'" "pub_from q db (snd (snd s))"
  shows "pub_from q db (snd (snd s'))"
proof -
  obtain ents k db1 where s: "s = (ents, k, db1)" by (cases s) auto
  obtain i cr db2 n where r: "resolve_entity_candidate E now q c db1 = Inr ((i, cr), db2)"
    "insert_record_entity_link E now q i lk db2 = Inr (n, snd (snd s'))"
    using assms(1) by (auto simp: publish_entity_def s)
  have "pub_from q db db2" using resolve_entity_pub [OF r(1)] assms(2)
    by (auto simp: s pub_from_def intro: pub_from_step [unfolded pub_from_def, THEN conjunct1]
        pub_from_step [unfolded pub_from_def, THEN conjunct2])
  then show ?thesis using insert_link_pub [OF r(2)] by (rule pub_from_step)
qed

lemma publish_fact_pub:
  assumes "publish_fact E now q ents c s = Inr s'" "pub_from q db (snd s)"
    "c \<in> set (go_facts (pq_extraction_output q))"
  shows "pub_from q db (snd s')"
proof -
  obtain k db1 where s: "s = (k, db1)" by (cases s)
  obtain sj ob i cr db2 n where r: "resolve_fact_candidate E now q c sj ob db1 = Inr ((i, cr), db2)"
    "insert_fact_evidence_group E now q i c db2 = Inr (n, snd s')"
    using assms(1) by (auto simp: publish_fact_def s graph_simps)
  have "pub_from q db db1" using assms(2) by (simp add: s)
  then have "pub_from q db db2" using resolve_fact_pub [OF r(1)] by (rule pub_from_step)
  then show ?thesis using evidence_group_pub [OF r(2) assms(3)] by (rule pub_from_step)
qed

lemma publish_source_pub:
  assumes "publish_source E now q s = Inr s'" "pub_from q db (snd (snd s))"
  shows "pub_from q db (snd (snd s'))"
  using assms by (auto simp: publish_source_def split: option.splits intro: publish_entity_pub)

lemma publish_loops_pub:
  assumes "publish_source E now q ([], no_counts, db) = Inr s0"
    "for_each (publish_entity E now q lk True) es s0 = Inr (ents, k1, db1)"
    "for_each (publish_fact E now q ents) (go_facts (pq_extraction_output q)) (k1, db1) = Inr (k, db2)"
    and "graph_ok db"
  shows "pub_from q db db2"
proof -
  have "pub_from q db (snd (snd ([], no_counts, db)))" using assms(4) by (simp add: pub_from_def)
  with assms(1) have "pub_from q db (snd (snd s0))" by (rule publish_source_pub)
  with assms(2) have "pub_from q db (snd (snd (ents, k1, db1)))"
    by (rule for_each_invariant [where P = "\<lambda>s. pub_from q db (snd (snd s))"]) (rule publish_entity_pub)
  then have "pub_from q db (snd (k1, db1))" by simp
  with assms(3) have "pub_from q db (snd (k, db2))"
    by (rule for_each_invariant [where P = "\<lambda>s. pub_from q db (snd s)"]) (rule publish_fact_pub)
  then show ?thesis by simp
qed

definition run_published :: "ResolutionPublishRequest \<Rightarrow> IngestionRun \<Rightarrow> bool" where
  "run_published q x \<longleftrightarrow> run_id x = pq_ingestion_run_id q \<and> run_memory_space_id x = pq_memory_space_id q
     \<and> run_status x = RUNNING \<and> run_stage x = RESOLVING \<and> run_attempt_count x = pq_attempt_count q"

lemma publish_effect:
  assumes "publish_resolution_tx E now q db = Inr (p, db')" "graph_ok db"
  obtains db2 where "pub_rel q db db2" "graph_ok db2" "count_where (run_published q) (gd_runs db) = 1"
    "db' = db2\<lparr>gd_runs := update_where (run_published q)
        (\<lambda>x. x\<lparr>run_status := COMPLETED, run_stage := COMPLETED, run_updated_at_ms := now,
            run_completed_at_ms := Some now\<rparr>) (gd_runs db)\<rparr>"
proof -
  obtain r k where p: "p = (r, k)" by (cases p)
  from assms(1) [unfolded p] show thesis
  proof (cases rule: publish_parts)
    case (1 s0 ents k1 db1 db2)
    have "pub_from q db db2" by (rule publish_loops_pub [OF 1(1-3) assms(2)])
    then have pub: "pub_rel q db db2" "graph_ok db2" "gd_runs db2 = gd_runs db"
      by (simp_all add: pub_from_def pub_rel_def same_runs_def)
    show thesis
      by (rule that [OF pub(1,2)])
         (use 1(4) in \<open>simp_all add: update_one_run_Inr pub(3) run_published_def [abs_def]\<close>)
  qed
qed

end
