(* ===== verification/GraphPublished.thy ===== *)
theory GraphPublished
  imports GraphContent
begin

text \<open>
  Publications over any interleaving of the workers: claims stay true, a run's rows appear with its
  completion and never again, and every piece of evidence quotes its record.
\<close>

section \<open>Claims of a resolution\<close>

definition extraction_exists :: "str \<Rightarrow> str \<Rightarrow> GraphDb \<Rightarrow> bool" where
  "extraction_exists i sid db \<longleftrightarrow> (\<exists>x \<in> set (gd_extractions db). xr_id x = i \<and> xr_memory_space_id x = sid)"

lemma extraction_kept: "extraction_exists i sid db \<Longrightarrow> kept db db' \<Longrightarrow> extraction_exists i sid db'"
  by (auto simp: extraction_exists_def kept_def grows_def)

definition claim_ok :: "GraphDb \<Rightarrow> ClaimedResolutionRun \<Rightarrow> bool" where
  "claim_ok db c \<longleftrightarrow>
     (\<exists>r \<in> set (gd_runs db). run_id r = cr_ingestion_run_id c
        \<and> run_record r = (cr_memory_record_id c, cr_memory_space_id c))
     \<and> (\<exists>m \<in> set (gd_records db). record_ref m = (cr_memory_record_id c, cr_memory_space_id c)
        \<and> rec_text m = cr_text c)
     \<and> extraction_exists (cr_extraction_run_id c) (cr_memory_space_id c) db"

lemma claim_ok_kept:
  assumes "claim_ok db c" "kept db db'"
  shows "claim_ok db' c"
proof -
  obtain r m where r: "r \<in> set (gd_runs db)" "run_id r = cr_ingestion_run_id c"
    "run_record r = (cr_memory_record_id c, cr_memory_space_id c)"
    and m: "m \<in> set (gd_records db)" "record_ref m = (cr_memory_record_id c, cr_memory_space_id c)"
    "rec_text m = cr_text c"
    using assms(1) unfolding claim_ok_def by blast
  have x: "extraction_exists (cr_extraction_run_id c) (cr_memory_space_id c) db'"
    using assms extraction_kept unfolding claim_ok_def by blast
  obtain r' where r': "r' \<in> set (gd_runs db')" "run_key r' = run_key r"
    using grows_mem [OF _ r(1)] assms(2) unfolding kept_def by blast
  obtain m' where m': "m' \<in> set (gd_records db')" "rec_key m' = rec_key m"
    using grows_mem [OF _ m(1)] assms(2) unfolding kept_def by blast
  have "run_id r' = cr_ingestion_run_id c \<and> run_record r' = (cr_memory_record_id c, cr_memory_space_id c)"
    using r(2,3) r'(2) by (simp add: run_key_def run_record_def)
  moreover have "record_ref m' = (cr_memory_record_id c, cr_memory_space_id c) \<and> rec_text m' = cr_text c"
    using m(2,3) m'(2) by (simp add: rec_key_def record_ref_def)
  ultimately show ?thesis using r'(1) m'(1) x unfolding claim_ok_def by blast
qed

lemma joined_runs_mem:
  "(r, m) \<in> set (joined_runs rid db) \<longleftrightarrow> r \<in> set (gd_runs db) \<and> run_id r = rid \<and> m \<in> set (gd_records db)
     \<and> record_ref m = run_record r"
  unfolding joined_runs_def record_ref_def run_record_def by auto

lemma resolution_claim_ok:
  assumes "claim_resolution_run_sync E C now rid db = (Inr c, db')"
  shows "claim_ok db c \<and> (\<exists>v. oc_read C (g_to_string E v) = Inr (cr_extraction_output c))"
proof -
  obtain md c0 where c0: "claim_resolution_run_tx E C now rid db = Inr ((md, c0), db')"
    "\<exists>v. c = c0\<lparr>cr_metadata := v\<rparr>"
    using assms by (auto simp: claim_resolution_run_sync_def transaction_def split: sum.splits prod.splits)
  obtain r m x v where q: "query_row E (resolution_rows rid db) = Inr (r, m, x)"
    "oc_read C (g_to_string E v) = Inr (cr_extraction_output c0)"
    "cr_ingestion_run_id c0 = rid" "cr_memory_space_id c0 = run_memory_space_id r"
    "cr_memory_record_id c0 = run_memory_record_id r" "cr_text c0 = rec_text m"
    "cr_extraction_run_id c0 = xr_id x"
    using c0(1) by (auto simp: claim_resolution_run_tx_def graph_simps)
  have "(r, m) \<in> set (joined_runs rid db)"
    using query_row_Inr [OF q(1)] by (auto simp: resolution_rows_def)
  moreover have "x \<in> set (completed_extractions rid (run_memory_space_id r) db)"
    using query_row_Inr [OF q(1)] by (auto simp: resolution_rows_def)
  then have "extraction_exists (xr_id x) (run_memory_space_id r) db"
    by (auto simp: completed_extractions_def extraction_exists_def)
  ultimately show ?thesis
    using q(2-7) c0(2) by (auto simp: joined_runs_mem claim_ok_def run_record_def)
qed

lemma steps_claims:
  assumes "graph_reachable E C reg (db, cs)" "c \<in> cs"
  shows "claim_ok db c"
proof -
  have "\<forall>c \<in> snd s. claim_ok (fst s) c" if "graph_reachable E C reg s" for s
    using that
  proof (induction rule: graph_reachable.induct)
    case (step s s')
    obtain db cs db' cs' where s: "s = (db, cs)" "s' = (db', cs')" by (cases s, cases s')
    have k: "kept db db'" using step.hyps(2) step_kept by (simp add: s)
    have new: "c \<in> cs \<or> claim_ok db c" if "c \<in> cs'" for c
      using step.hyps(2) that unfolding s
      by (cases rule: graph_step.cases) (auto dest: resolution_claim_ok)
    show ?case using step.IH k new unfolding s by (auto intro: claim_ok_kept dest!: new)
  qed simp
  from this [OF assms(1)] assms(2) show ?thesis by simp
qed


section \<open>The integrity is kept\<close>

lemma kept_targets:
  assumes "same_graph db db'" "kept db db'"
  shows "targets db db'"
proof -
  have "record_exists i s db'" if e: "record_exists i s db" for i s
  proof -
    obtain m where m: "m \<in> set (gd_records db)" "rec_id m = i" "rec_memory_space_id m = s"
      using e by (auto simp: record_exists_def)
    obtain m' where "m' \<in> set (gd_records db')" "rec_key m' = rec_key m"
      using grows_mem [OF _ m(1)] assms(2) unfolding kept_def by blast
    with m show ?thesis by (auto simp: record_exists_def rec_key_def)
  qed
  moreover have "run_exists i s db'" if e: "run_exists i s db" for i s
  proof -
    obtain r where r: "r \<in> set (gd_runs db)" "run_id r = i" "run_memory_space_id r = s"
      using e by (auto simp: run_exists_def)
    obtain r' where "r' \<in> set (gd_runs db')" "run_key r' = run_key r"
      using grows_mem [OF _ r(1)] assms(2) unfolding kept_def by blast
    with r show ?thesis by (auto simp: run_exists_def run_key_def)
  qed
  ultimately show ?thesis
    using assms(1) by (auto simp: targets_def same_graph_def entity_exists_def fact_exists_def group_exists_def)
qed

lemma graph_ok_kept:
  assumes "graph_ok db" "same_graph db db'" "kept db db'"
  shows "graph_ok db'"
proof -
  have t: "targets db db'" by (rule kept_targets [OF assms(2,3)])
  have "ms_id ` set (gd_spaces db) \<subseteq> ms_id ` set (gd_spaces db')"
  proof safe
    fix s assume s: "s \<in> set (gd_spaces db)"
    then obtain s' where "s' \<in> set (gd_spaces db')" "space_key s' = space_key s"
      using grows_mem [OF _ s] assms(3) unfolding kept_def by blast
    then show "ms_id s \<in> ms_id ` set (gd_spaces db')" by (metis image_eqI prod.inject space_key_def)
  qed
  then have "entities_ok db'" using assms(1,2)
    using entities_same [of db db'] by (simp add: graph_ok_def same_graph_def)
  moreover have "facts_ok db'" using assms(1,2) t
    using facts_grow [of db db'] by (simp add: graph_ok_def same_graph_def)
  moreover have "references_ok db'" using assms(1,2) t
    using references_grow [of db db'] by (simp add: graph_ok_def same_graph_def)
  ultimately show ?thesis by (simp add: graph_ok_def)
qed

text \<open>A step either leaves the graph alone or publishes a claim.\<close>

lemma graph_step_parts:
  assumes "graph_step E C reg (db, cs) (db', cs')"
  obtains (quiet) "same_graph db db'"
  | (publish) c u se now p where "c \<in> cs" "validate_against_record E reg (cr_text c) (cr_extraction_output c) = Inr u"
      "publish_resolution_tx E now (publish_request reg c se) db = Inr (p, db')"
proof -
  have acc: "same_graph db db'" if "accept_memory_record_tx E now q db = Inr (a, db')" for now q a
    using that by (cases rule: accept_cases) simp_all
  have st: "same_graph db db'" if "stage_effect db db'" using that by (simp add: stage_effect_def)
  show thesis
    using assms
    by (cases rule: graph_step.cases) (blast intro: quiet publish acc st dest: stage_effects)+
qed

lemma step_graph_ok:
  assumes "graph_step E C reg (db, cs) (db', cs')" "graph_ok db"
  shows "graph_ok db'"
  using assms(1)
proof (cases rule: graph_step_parts)
  case quiet
  then show ?thesis using graph_ok_kept [OF assms(2)] step_kept [OF assms(1)] by simp
next
  case (publish c u se now p)
  from publish(3) assms(2) show ?thesis
  proof (rule publish_effect)
    fix db2 assume db2: "graph_ok db2" "pub_rel (publish_request reg c se) db db2"
      and db': "db' = db2\<lparr>gd_runs := update_where (run_published (publish_request reg c se))
        (\<lambda>x. x\<lparr>run_status := COMPLETED, run_stage := COMPLETED, run_updated_at_ms := now,
            run_completed_at_ms := Some now\<rparr>) (gd_runs db)\<rparr>"
    have "map run_key (gd_runs db') = map run_key (gd_runs db2)"
      using db2(2) by (simp add: db' pub_rel_def same_runs_def map_update_where run_key_def)
    then have "kept db2 db'" by (simp add: kept_def db' grows_map)
    moreover have "same_graph db2 db'" by (simp add: same_graph_def db')
    ultimately show ?thesis using db2(1) graph_ok_kept by blast
  qed
qed

lemma reachable_graph_ok:
  assumes "graph_reachable E C reg (db, cs)"
  shows "graph_ok db"
proof -
  have "graph_ok (fst s)" if "graph_reachable E C reg s" for s
    using that
  proof (induction rule: graph_reachable.induct)
    case start
    show ?case by (simp add: graph_ok_def entities_ok_def facts_ok_def references_ok_def initialize_schema_def)
  next
    case (step s s')
    have "graph_step E C reg (fst s, snd s) (fst s', snd s')" using step.hyps(2) by simp
    then show ?case using step.IH by (rule step_graph_ok)
  qed
  from this [OF assms] show ?thesis by simp
qed

text \<open>The other declared references: between records, spaces, runs and extractions, and from what was
  published to the extraction it comes from.\<close>

definition provenance_ok :: "GraphDb \<Rightarrow> bool" where
  "provenance_ok db \<longleftrightarrow>
     (\<forall>m \<in> set (gd_records db). rec_memory_space_id m \<in> ms_id ` set (gd_spaces db))
     \<and> (\<forall>e \<in> set (gd_entities db). ent_memory_space_id e \<in> ms_id ` set (gd_spaces db))
     \<and> (\<forall>r \<in> set (gd_runs db). record_exists (run_memory_record_id r) (run_memory_space_id r) db)
     \<and> (\<forall>x \<in> set (gd_extractions db). run_exists (xr_ingestion_run_id x) (xr_memory_space_id x) db)
     \<and> (\<forall>l \<in> set (gd_links db). extraction_exists (rel_extraction_run_id l) (rel_memory_space_id l) db)
     \<and> (\<forall>g \<in> set (gd_groups db). extraction_exists (evg_extraction_run_id g) (evg_memory_space_id g) db)"

definition extractions_ok :: "GraphDb \<Rightarrow> bool" where
  "extractions_ok db \<longleftrightarrow> (\<forall>x \<in> set (gd_extractions db). run_exists (xr_ingestion_run_id x) (xr_memory_space_id x) db)
     \<and> (\<forall>l \<in> set (gd_links db). extraction_exists (rel_extraction_run_id l) (rel_memory_space_id l) db)
     \<and> (\<forall>g \<in> set (gd_groups db). extraction_exists (evg_extraction_run_id g) (evg_memory_space_id g) db)"

lemma run_kept: "run_exists i sid db \<Longrightarrow> kept db db' \<Longrightarrow> run_exists i sid db'"
proof -
  assume "run_exists i sid db" "kept db db'"
  then obtain r where r: "r \<in> set (gd_runs db)" "run_id r = i" "run_memory_space_id r = sid"
    and "grows run_key (gd_runs db) (gd_runs db')" by (auto simp: run_exists_def kept_def)
  then obtain r' where "r' \<in> set (gd_runs db')" "run_key r' = run_key r" using grows_mem by metis
  with r show ?thesis by (auto simp: run_exists_def run_key_def)
qed

lemma new_extractions:
  assumes "graph_step E C reg (db, cs) (db', cs')" "x \<in> set (gd_extractions db')"
  shows "x \<in> set (gd_extractions db) \<or> run_exists (xr_ingestion_run_id x) (xr_memory_space_id x) db"
  using assms(1)
proof (cases rule: graph_step_cases)
  case (accept now q a)
  then have "gd_extractions db' = gd_extractions db" by (cases rule: accept_cases) simp_all
  then show ?thesis using assms(2) by simp
next
  case stage
  then show ?thesis using assms(2) by (auto simp: runs_effect_def more_extractions_def)
qed

lemma step_extractions_ok:
  assumes "graph_reachable E C reg (db, cs)" "graph_step E C reg (db, cs) (db', cs')" "extractions_ok db"
  shows "extractions_ok db'"
proof -
  have k: "kept db db'" by (rule step_kept [OF assms(2)])
  have "run_exists (xr_ingestion_run_id x) (xr_memory_space_id x) db'" if "x \<in> set (gd_extractions db')" for x
    using new_extractions [OF assms(2) that] assms(3) run_kept [OF _ k] unfolding extractions_ok_def by blast
  moreover have "(\<forall>l \<in> set (gd_links db'). extraction_exists (rel_extraction_run_id l) (rel_memory_space_id l) db')
     \<and> (\<forall>g \<in> set (gd_groups db'). extraction_exists (evg_extraction_run_id g) (evg_memory_space_id g) db')"
    using assms(2)
  proof (cases rule: graph_step_parts)
    case quiet
    then show ?thesis using assms(3) extraction_kept [OF _ k] by (simp add: same_graph_def extractions_ok_def)
  next
    case (publish c u se now p)
    let ?q = "publish_request reg c se"
    have x: "extraction_exists (pq_extraction_run_id ?q) (pq_memory_space_id ?q) db'"
      using steps_claims [OF assms(1) publish(1)] extraction_kept [OF _ k]
      by (simp add: claim_ok_def publish_request_def)
    obtain db2 rs where rel: "pub_rel ?q db db2" and db': "db' = db2\<lparr>gd_runs := rs\<rparr>"
      by (rule publish_effect [OF publish(3) reachable_graph_ok [OF assms(1)]])
    have same: "gd_links db' = gd_links db2" "gd_groups db' = gd_groups db2" by (simp_all add: db')
    have "adds (\<lambda>l. rel_memory_record_id l = pq_memory_record_id ?q \<and> rel_memory_space_id l = pq_memory_space_id ?q
         \<and> rel_extraction_run_id l = pq_extraction_run_id ?q) (gd_links db) (gd_links db2)"
      "adds (\<lambda>g. evg_extraction_run_id g = pq_extraction_run_id ?q \<and> evg_memory_space_id g = pq_memory_space_id ?q)
         (gd_groups db) (gd_groups db2)"
      using rel unfolding pub_rel_def by blast+
    note new = this
    show ?thesis
    proof (intro conjI ballI)
      fix l assume "l \<in> set (gd_links db')"
      then have "l \<in> set (gd_links db) \<or> rel_extraction_run_id l = pq_extraction_run_id ?q
          \<and> rel_memory_space_id l = pq_memory_space_id ?q"
        using adds_mem [OF new(1)] same(1) by auto
      then show "extraction_exists (rel_extraction_run_id l) (rel_memory_space_id l) db'"
        using x assms(3) extraction_kept [OF _ k] by (auto simp: extractions_ok_def)
    next
      fix g assume "g \<in> set (gd_groups db')"
      then have "g \<in> set (gd_groups db) \<or> evg_extraction_run_id g = pq_extraction_run_id ?q
          \<and> evg_memory_space_id g = pq_memory_space_id ?q"
        using adds_mem [OF new(2)] same(2) by auto
      then show "extraction_exists (evg_extraction_run_id g) (evg_memory_space_id g) db'"
        using x assms(3) extraction_kept [OF _ k] by (auto simp: extractions_ok_def)
    qed
  qed
  ultimately show ?thesis unfolding extractions_ok_def by blast
qed

lemma reachable_provenance:
  assumes "graph_reachable E C reg (db, cs)"
  shows "provenance_ok db"
proof -
  have "extractions_ok (fst s)" if "graph_reachable E C reg s" for s
    using that
  proof (induction rule: graph_reachable.induct)
    case start
    show ?case by (simp add: extractions_ok_def initialize_schema_def)
  next
    case (step s s')
    have "graph_reachable E C reg (fst s, snd s)" "graph_step E C reg (fst s, snd s) (fst s', snd s')"
      using step.hyps by simp_all
    then show ?case using step.IH by (rule step_extractions_ok)
  qed
  from this [OF assms] have x: "extractions_ok db" by simp
  have acc: "accepted_ok db" using reachable_ok(1) [OF assms] .
  have "record_exists (run_memory_record_id r) (run_memory_space_id r) db" if "r \<in> set (gd_runs db)" for r
  proof -
    have "run_record r \<in> set (map record_ref (gd_records db))"
      using acc that unfolding accepted_ok_def by (metis image_eqI set_map)
    then show ?thesis by (auto simp: record_exists_def run_record_def record_ref_def)
  qed
  moreover have "\<forall>e \<in> set (gd_entities db). ent_memory_space_id e \<in> ms_id ` set (gd_spaces db)"
    using reachable_graph_ok [OF assms] by (auto simp: graph_ok_def entities_ok_def)
  ultimately show ?thesis using x acc by (auto simp: provenance_ok_def extractions_ok_def accepted_ok_def)
qed


section \<open>Once, with the completion of the run\<close>

text \<open>What a publication wrote for a run: its decisions, and the links, history and evidence of its record.\<close>

definition decisions_of :: "IngestionRun \<Rightarrow> GraphDb \<Rightarrow> ResolutionDecision list" where
  "decisions_of r db = filter (\<lambda>d. rdc_ingestion_run_id d = run_id r) (gd_decisions db)"

definition links_of :: "IngestionRun \<Rightarrow> GraphDb \<Rightarrow> RecordEntityLink list" where
  "links_of r db = filter (\<lambda>l. rel_memory_record_id l = run_memory_record_id r) (gd_links db)"

definition history_of :: "IngestionRun \<Rightarrow> GraphDb \<Rightarrow> FactStatusHistory list" where
  "history_of r db = filter (\<lambda>h. hst_trigger_record_id h = run_memory_record_id r) (gd_history db)"

definition evidence_of :: "IngestionRun \<Rightarrow> GraphDb \<Rightarrow> FactEvidence list" where
  "evidence_of r db = filter (\<lambda>v. evi_memory_record_id v = run_memory_record_id r) (gd_evidence db)"

definition published_rows ::
    "IngestionRun \<Rightarrow> GraphDb \<Rightarrow> ResolutionDecision list \<times> RecordEntityLink list \<times> FactStatusHistory list \<times> FactEvidence list" where
  "published_rows r db = (decisions_of r db, links_of r db, history_of r db, evidence_of r db)"

lemmas published_rows_defs = published_rows_def decisions_of_def links_of_def history_of_def evidence_of_def

lemma adds_filter:
  assumes "adds P xs ys" "\<And>y. P y \<Longrightarrow> \<not> Q y"
  shows "filter Q ys = filter Q xs"
  using assms by (auto simp: adds_def filter_empty_conv)

lemma published_rows_quiet: "same_graph db db' \<Longrightarrow> published_rows r db' = published_rows r db"
  by (simp add: published_rows_defs same_graph_def)

lemma published_rows_other:
  assumes "pub_rel q db db'" "run_id r \<noteq> pq_ingestion_run_id q" "run_memory_record_id r \<noteq> pq_memory_record_id q"
  shows "published_rows r db' = published_rows r db"
proof -
  note rel = assms(1) [unfolded pub_rel_def]
  have "decisions_of r db' = decisions_of r db"
    unfolding decisions_of_def using rel assms(2) by (elim conjE) (erule adds_filter, auto)
  moreover have "links_of r db' = links_of r db"
    unfolding links_of_def using rel assms(3) by (elim conjE) (erule adds_filter, auto)
  moreover have "history_of r db' = history_of r db"
    unfolding history_of_def using rel assms(3) by (elim conjE) (erule adds_filter, auto)
  moreover have "evidence_of r db' = evidence_of r db"
    unfolding evidence_of_def using rel assms(3) by (elim conjE) (erule adds_filter, auto)
  ultimately show ?thesis by (simp add: published_rows_def)
qed

lemma runs_records_distinct:
  assumes "accepted_ok db" "r \<in> set (gd_runs db)" "r' \<in> set (gd_runs db)"
  shows "run_id r = run_id r' \<Longrightarrow> r = r'" "run_memory_record_id r = run_memory_record_id r' \<Longrightarrow> r = r'"
proof -
  show "run_id r = run_id r' \<Longrightarrow> r = r'"
    using assms by (auto simp: accepted_ok_def distinct_map dest: inj_onD)
  have "map (fst \<circ> run_record) (gd_runs db) = map (fst \<circ> record_ref) (gd_records db)"
    using assms(1) unfolding accepted_ok_def by (metis map_map)
  then have "distinct (map run_memory_record_id (gd_runs db))"
    using assms(1) by (simp add: accepted_ok_def o_def run_record_def record_ref_def)
  then show "run_memory_record_id r = run_memory_record_id r' \<Longrightarrow> r = r'"
    using assms(2,3) by (auto simp: distinct_map dest: inj_onD)
qed

text \<open>The run a publication completes.\<close>

lemma published_run:
  assumes "graph_reachable E C reg (db, cs)" "c \<in> cs" "count_where (run_published (publish_request reg c se)) (gd_runs db) = 1"
  obtains r where "r \<in> set (gd_runs db)" "run_published (publish_request reg c se) r"
    "run_id r = cr_ingestion_run_id c" "run_memory_record_id r = cr_memory_record_id c"
    "run_memory_space_id r = cr_memory_space_id c" "run_status r = RUNNING"
proof -
  have ok: "accepted_ok db" by (rule reachable_ok [OF assms(1)])
  have "filter (run_published (publish_request reg c se)) (gd_runs db) \<noteq> []"
    using assms(3) by (auto simp: count_where_def)
  then obtain r where r: "r \<in> set (gd_runs db)" "run_published (publish_request reg c se) r"
    by (auto simp: filter_empty_conv)
  obtain r' where r': "r' \<in> set (gd_runs db)" "run_id r' = cr_ingestion_run_id c"
    "run_record r' = (cr_memory_record_id c, cr_memory_space_id c)"
    using steps_claims [OF assms(1,2)] by (auto simp: claim_ok_def)
  have "run_id r = cr_ingestion_run_id c" using r(2) by (simp add: run_published_def publish_request_def)
  moreover from this have "r = r'" using runs_records_distinct(1) [OF ok r(1) r'(1)] r'(2) by simp
  ultimately show thesis using that r r' by (simp add: run_record_def run_published_def)
qed

lemma runs_move_completed:
  assumes "runs_move rs rs'" "r \<in> set rs" "run_status r = COMPLETED"
  shows "r \<in> set rs'"
proof -
  obtain i where i: "i < length rs" "rs ! i = r" using assms(2) by (auto simp: in_set_conv_nth)
  then have "run_move r (rs' ! i)" "i < length rs'" using assms(1) by (auto simp: runs_move_def)
  then show ?thesis using assms(3) by (auto simp: run_move_def)
qed

lemma step_completed:
  assumes "graph_reachable E C reg (db, cs)" "graph_step E C reg (db, cs) (db', cs')"
    "r \<in> set (gd_runs db)" "run_status r = COMPLETED"
  shows "r \<in> set (gd_runs db') \<and> published_rows r db' = published_rows r db"
proof -
  have "r \<in> set (gd_runs db')" using step_runs [OF assms(2)] runs_move_completed assms(3,4) by blast
  moreover have "published_rows r db' = published_rows r db"
    using assms(2)
  proof (cases rule: graph_step_parts)
    case quiet
    then show ?thesis by (rule published_rows_quiet)
  next
    case (publish c u se now p)
    from publish(3) reachable_graph_ok [OF assms(1)] show ?thesis
    proof (rule publish_effect)
      fix db2 assume rel: "pub_rel (publish_request reg c se) db db2"
        and one: "count_where (run_published (publish_request reg c se)) (gd_runs db) = 1"
        and db': "db' = db2\<lparr>gd_runs := update_where (run_published (publish_request reg c se))
          (\<lambda>x. x\<lparr>run_status := COMPLETED, run_stage := COMPLETED, run_updated_at_ms := now,
            run_completed_at_ms := Some now\<rparr>) (gd_runs db)\<rparr>"
      obtain r' where r': "r' \<in> set (gd_runs db)" "run_id r' = cr_ingestion_run_id c"
        "run_memory_record_id r' = cr_memory_record_id c" "run_status r' = RUNNING"
        by (rule published_run [OF assms(1) publish(1) one])
      have ne: "r \<noteq> r'" using r'(4) assms(4) by auto
      note distinct = runs_records_distinct [OF reachable_ok(1) [OF assms(1)] assms(3) r'(1)]
      have "published_rows r db' = published_rows r db2" by (simp add: db' published_rows_defs)
      also have "\<dots> = published_rows r db"
        by (rule published_rows_other [OF rel])
           (use ne distinct r'(2,3) in \<open>auto simp: publish_request_def\<close>)
      finally show ?thesis .
    qed
  qed
  ultimately show ?thesis by simp
qed

lemma steps_completed:
  assumes "graph_reachable E C reg (db, cs)" "(graph_step E C reg)\<^sup>*\<^sup>* (db, cs) (db', cs')"
    "r \<in> set (gd_runs db)" "run_status r = COMPLETED"
  shows "r \<in> set (gd_runs db') \<and> published_rows r db' = published_rows r db"
proof -
  have "r \<in> set (gd_runs (fst s)) \<and> published_rows r (fst s) = published_rows r db"
    if "(graph_step E C reg)\<^sup>*\<^sup>* (db, cs) s" for s
    using that
  proof (induction rule: rtranclp_induct)
    case base
    show ?case using assms(3) by simp
  next
    case (step s s')
    have reach: "graph_reachable E C reg (fst s, snd s)" using steps_reachable [OF assms(1) step.hyps(1)] by simp
    have "graph_step E C reg (fst s, snd s) (fst s', snd s')" using step.hyps(2) by simp
    from step_completed [OF reach this _ assms(4)] step.IH show ?case by simp
  qed
  from this [OF assms(2)] show ?thesis by simp
qed


text \<open>Before its completion a run has no rows.\<close>

abbreviation no_rows :: "ResolutionDecision list \<times> RecordEntityLink list \<times> FactStatusHistory list \<times> FactEvidence list" where
  "no_rows \<equiv> ([], [], [], [])"

lemma published_rows_key: "run_key r = run_key r' \<Longrightarrow> published_rows r db = published_rows r' db"
  by (simp add: published_rows_defs run_key_def)

lemma no_rows_fresh:
  assumes "references_ok db" "run_id r \<notin> run_id ` set (gd_runs db)"
    "run_memory_record_id r \<notin> rec_id ` set (gd_records db)"
  shows "published_rows r db = no_rows"
proof -
  have run: "run_exists i s db \<Longrightarrow> i \<noteq> run_id r" for i s using assms(2) by (metis imageI run_exists_def)
  have rec: "record_exists i s db \<Longrightarrow> i \<noteq> run_memory_record_id r" for i s
    using assms(3) by (metis imageI record_exists_def)
  show ?thesis using assms(1)
    by (auto simp: published_rows_defs references_ok_def filter_empty_conv dest: run rec)
qed

lemma step_run_origin:
  assumes "graph_step E C reg (db, cs) (db', cs')" "r \<in> set (gd_runs db')"
  obtains (old) r0 where "r0 \<in> set (gd_runs db)" "run_key r0 = run_key r" "run_status r0 = COMPLETED \<Longrightarrow> r = r0"
  | (new) "run_id r \<notin> run_id ` set (gd_runs db)" "run_memory_record_id r \<notin> rec_id ` set (gd_records db)"
  using assms(1)
proof (cases rule: graph_step_cases)
  case (accept now q a)
  then show thesis
  proof (cases rule: accept_cases)
    case known
    then show thesis using old assms(2) by simp
  next
    case (new m r' sp)
    then have "r \<in> set (gd_runs db) \<or> r = r'" using assms(2) by auto
    then show thesis
    proof
      assume "r \<in> set (gd_runs db)"
      then show thesis using old by blast
    next
      assume "r = r'"
      then show thesis using that(2) new(10-12) by (auto simp: accepted_run_def)
    qed
  qed
next
  case stage
  obtain i where i: "i < length (gd_runs db')" "gd_runs db' ! i = r" using assms(2) by (auto simp: in_set_conv_nth)
  then have "i < length (gd_runs db)" "run_move (gd_runs db ! i) r"
    using stage by (auto simp: runs_effect_def runs_move_def)
  then show thesis by (intro old [of "gd_runs db ! i"]) (auto simp: run_move_def)
qed

lemma step_unpublished:
  assumes "graph_reachable E C reg (db, cs)" "graph_step E C reg (db, cs) (db', cs')"
    and IH: "\<And>r. r \<in> set (gd_runs db) \<Longrightarrow> run_status r \<noteq> COMPLETED \<Longrightarrow> published_rows r db = no_rows"
    and r: "r \<in> set (gd_runs db')" "run_status r \<noteq> COMPLETED"
  shows "published_rows r db' = no_rows"
proof -
  have before: "published_rows r db = no_rows"
    using assms(2) r(1)
  proof (cases rule: step_run_origin)
    case (old r0)
    then have "run_status r0 \<noteq> COMPLETED" using r(2) by auto
    with old IH show ?thesis using published_rows_key [of r0 r db] by simp
  next
    case new
    then show ?thesis using reachable_graph_ok [OF assms(1)] by (intro no_rows_fresh) (simp_all add: graph_ok_def)
  qed
  show ?thesis
    using assms(2)
  proof (cases rule: graph_step_parts)
    case quiet
    then show ?thesis using before published_rows_quiet by simp
  next
    case (publish c u se now p)
    from publish(3) reachable_graph_ok [OF assms(1)] show ?thesis
    proof (rule publish_effect)
      fix db2 assume rel: "pub_rel (publish_request reg c se) db db2"
        and one: "count_where (run_published (publish_request reg c se)) (gd_runs db) = 1"
        and db': "db' = db2\<lparr>gd_runs := update_where (run_published (publish_request reg c se))
          (\<lambda>x. x\<lparr>run_status := COMPLETED, run_stage := COMPLETED, run_updated_at_ms := now,
            run_completed_at_ms := Some now\<rparr>) (gd_runs db)\<rparr>"
      obtain r' where r': "r' \<in> set (gd_runs db)" "run_published (publish_request reg c se) r'"
        "run_id r' = cr_ingestion_run_id c" "run_memory_record_id r' = cr_memory_record_id c"
        by (rule published_run [OF assms(1) publish(1) one])
      have r0: "r \<in> set (gd_runs db)" "\<not> run_published (publish_request reg c se) r"
        using r by (auto simp: db' update_where_def split: if_splits)
      then have ne: "r \<noteq> r'" using r'(2) by auto
      note distinct = runs_records_distinct [OF reachable_ok(1) [OF assms(1)] r0(1) r'(1)]
      have "published_rows r db' = published_rows r db2" by (simp add: db' published_rows_defs)
      also have "\<dots> = published_rows r db"
        by (rule published_rows_other [OF rel])
           (use ne distinct r'(3,4) in \<open>auto simp: publish_request_def\<close>)
      finally show ?thesis using before by simp
    qed
  qed
qed

lemma reachable_unpublished:
  assumes "graph_reachable E C reg (db, cs)" "r \<in> set (gd_runs db)" "run_status r \<noteq> COMPLETED"
  shows "published_rows r db = no_rows"
proof -
  have "\<forall>r \<in> set (gd_runs (fst s)). run_status r \<noteq> COMPLETED \<longrightarrow> published_rows r (fst s) = no_rows"
    if "graph_reachable E C reg s" for s
    using that
  proof (induction rule: graph_reachable.induct)
    case start
    show ?case by (simp add: initialize_schema_def)
  next
    case (step s s')
    have "graph_reachable E C reg (fst s, snd s)" "graph_step E C reg (fst s, snd s) (fst s', snd s')"
      using step.hyps by simp_all
    from step_unpublished [OF this] step.IH show ?case by blast
  qed
  from this [OF assms(1)] assms(2,3) show ?thesis by simp
qed


section \<open>Evidence is in the text\<close>

definition span_grounded :: "str \<Rightarrow> GraphEvidenceSpan \<Rightarrow> bool" where
  "span_grounded s v \<longleftrightarrow>
     (case (sp_start_byte v, sp_end_byte v) of
        (Some i, Some j) \<Rightarrow> i < j \<and> (\<exists>t. byte_slice s i j = Some t \<and> (sp_text v = None \<or> sp_text v = Some t))
      | (None, None) \<Rightarrow> (\<exists>t. sp_text v = Some t \<and> trim t \<noteq> [] \<and> str_contains s t)
      | _ \<Rightarrow> False)"

lemma validate_span_grounded:
  assumes "validate_evidence_span s v = Inr u"
  shows "span_grounded s v"
  using assms
  by (cases "sp_start_byte v"; cases "sp_end_byte v"; cases "sp_text v")
     (auto simp: validate_evidence_span_def span_grounded_def validate_non_empty_def intro: byte_slice_Some)

lemma for_each_unit:
  assumes "for_each (\<lambda>x _. f x) xs () = Inr u" "x \<in> set xs"
  shows "f x = Inr ()"
  using assms by (induction xs) auto

lemma for_each_step:
  assumes "for_each f xs s = Inr t" "x \<in> set xs"
  obtains s' t' where "f x s' = Inr t'"
  using assms by (induction xs arbitrary: s) auto

lemma validated_spans_grounded:
  assumes "validate_against_record E reg s out = Inr u" "v \<in> output_spans out"
  shows "span_grounded s v"
proof -
  obtain c where c: "c \<in> set (go_facts out)" "v \<in> set (fc_evidence c)" using assms(2) by (auto simp: output_spans_def)
  obtain ids fs where "for_each (validate_fact E reg s ids) (go_facts out) [] = Inr fs"
    using assms(1) by (auto simp: validate_against_record_def)
  then obtain s' t' where "validate_fact E reg s ids c s' = Inr t'" using c(1) by (rule for_each_step)
  then obtain w where "for_each (\<lambda>ev _. validate_evidence_span s ev) (fc_evidence c) () = Inr w"
    unfolding validate_fact_def and_then_Inr by blast
  then have "validate_evidence_span s v = Inr ()" using c(2) by (rule for_each_unit)
  then show ?thesis by (rule validate_span_grounded)
qed

definition evidence_grounded :: "GraphDb \<Rightarrow> FactEvidence \<Rightarrow> bool" where
  "evidence_grounded db v \<longleftrightarrow> (\<exists>m \<in> set (gd_records db).
     record_ref m = (evi_memory_record_id v, evi_memory_space_id v) \<and> span_grounded (rec_text m) (evidence_span v))"

lemma evidence_grounded_kept:
  assumes "evidence_grounded db v" "kept db db'"
  shows "evidence_grounded db' v"
proof -
  obtain m where m: "m \<in> set (gd_records db)" "record_ref m = (evi_memory_record_id v, evi_memory_space_id v)"
    "span_grounded (rec_text m) (evidence_span v)"
    using assms(1) by (auto simp: evidence_grounded_def)
  obtain m' where m': "m' \<in> set (gd_records db')" "rec_key m' = rec_key m"
    using grows_mem [OF _ m(1)] assms(2) unfolding kept_def by blast
  then have "record_ref m' = record_ref m" "rec_text m' = rec_text m" by (simp_all add: rec_key_def record_ref_def)
  then show ?thesis using m(2,3) m'(1) unfolding evidence_grounded_def by metis
qed

lemma step_grounded:
  assumes "graph_reachable E C reg (db, cs)" "graph_step E C reg (db, cs) (db', cs')"
    "v \<in> set (gd_evidence db')"
  shows "v \<in> set (gd_evidence db) \<or> evidence_grounded db v"
  using assms(2)
proof (cases rule: graph_step_parts)
  case quiet
  then show ?thesis using assms(3) by (simp add: same_graph_def)
next
  case (publish c u se now p)
  from publish(3) reachable_graph_ok [OF assms(1)] show ?thesis
  proof (rule publish_effect)
    fix db2 assume rel: "pub_rel (publish_request reg c se) db db2"
      and db': "db' = db2\<lparr>gd_runs := update_where (run_published (publish_request reg c se))
          (\<lambda>x. x\<lparr>run_status := COMPLETED, run_stage := COMPLETED, run_updated_at_ms := now,
            run_completed_at_ms := Some now\<rparr>) (gd_runs db)\<rparr>"
    have ev: "adds (\<lambda>v. evi_memory_record_id v = cr_memory_record_id c \<and> evi_memory_space_id v = cr_memory_space_id c
           \<and> evidence_span v \<in> output_spans (cr_extraction_output c)) (gd_evidence db) (gd_evidence db2)"
      using rel by (simp add: pub_rel_def publish_request_def)
    have "v \<in> set (gd_evidence db) \<or> (evi_memory_record_id v = cr_memory_record_id c
        \<and> evi_memory_space_id v = cr_memory_space_id c \<and> evidence_span v \<in> output_spans (cr_extraction_output c))"
      by (rule adds_mem [OF ev]) (use assms(3) in \<open>simp add: db'\<close>)
    then show ?thesis
    proof
      assume v: "evi_memory_record_id v = cr_memory_record_id c
        \<and> evi_memory_space_id v = cr_memory_space_id c \<and> evidence_span v \<in> output_spans (cr_extraction_output c)"
      then have "span_grounded (cr_text c) (evidence_span v)" using validated_spans_grounded [OF publish(2)] by simp
      then show ?thesis
        using steps_claims [OF assms(1) publish(1)] v by (auto simp: claim_ok_def evidence_grounded_def)
    qed simp
  qed
qed

lemma reachable_grounded:
  assumes "graph_reachable E C reg (db, cs)" "v \<in> set (gd_evidence db)"
  shows "evidence_grounded db v"
proof -
  have "\<forall>v \<in> set (gd_evidence (fst s)). evidence_grounded (fst s) v" if "graph_reachable E C reg s" for s
    using that
  proof (induction rule: graph_reachable.induct)
    case start
    show ?case by (simp add: initialize_schema_def)
  next
    case (step s s')
    have st: "graph_reachable E C reg (fst s, snd s)" "graph_step E C reg (fst s, snd s) (fst s', snd s')"
      using step.hyps by simp_all
    have "evidence_grounded (fst s) v" if "v \<in> set (gd_evidence (fst s'))" for v
      using step_grounded [OF st that] step.IH by blast
    then show ?case by (auto intro: evidence_grounded_kept [OF _ step_kept [OF st(2)]])
  qed
  from this [OF assms(1)] assms(2) show ?thesis by simp
qed

end
