(* ===== verification/GraphLive.thy ===== *)
theory GraphLive
  imports GraphPublished
begin

text \<open>
  Nothing in the database stands in the way of an incomplete run: identifiers drawn are fresh, every
  insert of a publication finds its references, so resuming a run with working providers completes it.
\<close>

section \<open>Identifiers\<close>

definition drawn :: "genv \<Rightarrow> GraphDb \<Rightarrow> str set" where
  "drawn E db = g_uuid_v4 E ` {..<gd_ids db}"

definition all_ids :: "GraphDb \<Rightarrow> str set" where
  "all_ids db = rec_id ` set (gd_records db) \<union> run_id ` set (gd_runs db) \<union> ent_id ` set (gd_entities db)
     \<union> fct_id ` set (gd_facts db) \<union> hst_id ` set (gd_history db) \<union> evg_id ` set (gd_groups db)
     \<union> evi_id ` set (gd_evidence db) \<union> xr_id ` set (gd_extractions db) \<union> rdc_id ` set (gd_decisions db)"

definition ids_ok :: "genv \<Rightarrow> GraphDb \<Rightarrow> bool" where
  "ids_ok E db \<longleftrightarrow> all_ids db \<subseteq> drawn E db"

definition ids_step :: "genv \<Rightarrow> GraphDb \<Rightarrow> GraphDb \<Rightarrow> bool" where
  "ids_step E db db' \<longleftrightarrow> gd_ids db \<le> gd_ids db' \<and> all_ids db' \<subseteq> all_ids db \<union> drawn E db'"

lemma drawn_mono: "gd_ids db \<le> gd_ids db' \<Longrightarrow> drawn E db \<subseteq> drawn E db'"
  by (auto simp: drawn_def)

lemma ids_step_refl [simp]: "ids_step E db db"
  by (simp add: ids_step_def)

lemma ids_step_trans: "ids_step E a b \<Longrightarrow> ids_step E b c \<Longrightarrow> ids_step E a c"
  using drawn_mono [of b c E] unfolding ids_step_def by fastforce

lemma ids_step_ok: "ids_step E a b \<Longrightarrow> ids_ok E a \<Longrightarrow> ids_ok E b"
  using drawn_mono [of a b E] unfolding ids_step_def ids_ok_def by fastforce

lemma all_ids_count [simp]: "all_ids (db\<lparr>gd_ids := n\<rparr>) = all_ids db"
  by (simp add: all_ids_def)

lemma drawn_Suc: "g_uuid_v4 E (gd_ids db) \<in> drawn E (db'\<lparr>gd_ids := Suc (gd_ids db)\<rparr>)"
  by (simp add: drawn_def)

lemma ids_stepI:
  assumes "gd_ids db' = Suc (gd_ids db)" "all_ids db' \<subseteq> insert (g_uuid_v4 E (gd_ids db)) (all_ids db)"
  shows "ids_step E db db'"
  using assms by (auto simp: ids_step_def drawn_def)

lemma insert_ids:
  "insert_entity E e db = Inr db' \<Longrightarrow> ent_id e \<in> drawn E db \<Longrightarrow> ids_step E db db'"
  "insert_fact E f db = Inr db' \<Longrightarrow> fct_id f \<in> drawn E db \<Longrightarrow> ids_step E db db'"
  by (auto simp: insert_entity_def insert_fact_def ids_step_def all_ids_def drawn_def)

lemma insert_row_ids:
  "ensure_entity_alias E now sid i d n db = Inr db' \<Longrightarrow> ids_step E db db'"
  "insert_resolution_decision E now q k ik cands si act db = Inr db' \<Longrightarrow> ids_step E db db'"
  "insert_record_entity_link E now q i lk db = Inr (n', db') \<Longrightarrow> ids_step E db db'"
  "insert_history E now q i db = Inr db' \<Longrightarrow> ids_step E db db'"
  "insert_fact_evidence E now q g ev db = Inr db' \<Longrightarrow> ids_step E db db'"
  by (rule ids_stepI; auto simp: insert_defs all_ids_def split: if_splits)+

lemma new_v4_ids: "new_v4 E db = (i, db') \<Longrightarrow> ids_step E db db' \<and> i \<in> drawn E db'"
  by (auto simp: new_v4_def ids_step_def drawn_def)

lemma reuse_entity_ids: "reuse_entity E now q c i db = Inr (r, db') \<Longrightarrow> ids_step E db db'"
  by (auto simp: reuse_entity_def dest!: insert_row_ids intro: ids_step_trans)

lemma create_entity_ids:
  assumes "create_entity E now q c db = Inr (r, db')"
  shows "ids_step E db db'"
proof -
  obtain i db0 where i: "new_v4 E db = (i, db0)" by (cases "new_v4 E db")
  obtain e db1 db2 where s: "insert_entity E e db0 = Inr db1" "ent_id e = i"
    "ensure_entity_alias E now (pq_memory_space_id q) i (ec_name c) (normalize_graph_text E (ec_name c)) db1 = Inr db2"
    "insert_resolution_decision E now q ''entity_resolution'' (ec_local_id c) [] i ''create'' db2 = Inr db'"
    using assms i by (force simp: create_entity_def Let_def)
  have "ids_step E db0 db1" using insert_ids(1) [OF s(1)] new_v4_ids [OF i] s(2) by simp
  with new_v4_ids [OF i] insert_row_ids(1) [OF s(3)] insert_row_ids(2) [OF s(4)] show ?thesis
    by (blast intro: ids_step_trans)
qed

lemma resolve_entity_ids:
  "resolve_entity_candidate E now q c db = Inr (r, db') \<Longrightarrow> ids_step E db db'"
  by (auto simp: resolve_entity_candidate_def Let_def split: option.splits
      dest!: reuse_entity_ids create_entity_ids)

lemma resolve_fact_ids:
  assumes "resolve_fact_candidate E now q c sj ob db = Inr (r, db')"
  shows "ids_step E db db'"
proof -
  let ?key = "fact_dedup_key E sj (fc_predicate c) ob (normalize_graph_text E (fc_fact_text c))"
  show ?thesis
  proof (cases "find_fact_by_dedup_key (pq_memory_space_id q) ?key db")
    case None
    obtain i db0 where i: "new_v4 E db = (i, db0)" by (cases "new_v4 E db")
    obtain f db1 db2 where s: "insert_fact E f db0 = Inr db1" "fct_id f = i" "insert_history E now q i db1 = Inr db2"
      "insert_resolution_decision E now q ''fact_resolution'' (fc_local_id c) [] i ''create'' db2 = Inr db'"
      using assms i None by (force simp: resolve_fact_candidate_def Let_def)
    have "ids_step E db0 db1" using insert_ids(2) [OF s(1)] new_v4_ids [OF i] s(2) by simp
    with new_v4_ids [OF i] insert_row_ids(4) [OF s(3)] insert_row_ids(2) [OF s(4)] show ?thesis
      by (blast intro: ids_step_trans)
  next
    case (Some i)
    with assms show ?thesis
      by (auto simp: resolve_fact_candidate_def Let_def intro: insert_row_ids(2))
  qed
qed

lemma evidence_group_ids:
  assumes "insert_fact_evidence_group E now q i c db = Inr (n, db')"
  shows "ids_step E db db'"
proof -
  let ?g = "\<lparr>evg_id = g_uuid_v4 E (gd_ids db), evg_memory_space_id = pq_memory_space_id q,
    evg_fact_id = i, evg_evidence_kind = lit ''support'', evg_extraction_run_id = pq_extraction_run_id q,
    evg_created_at_ms = now\<rparr>"
  obtain db1 where db1: "db1 = db\<lparr>gd_ids := Suc (gd_ids db), gd_groups := gd_groups db @ [?g]\<rparr>" by simp
  have ev: "for_each (insert_fact_evidence E now q (evg_id ?g)) (fc_evidence c) db1 = Inr db'"
    using assms by (auto simp: insert_fact_evidence_group_def new_v4_def Let_def db1)
  have "ids_step E db db1" by (rule ids_stepI) (auto simp: db1 all_ids_def)
  with ev show ?thesis
    by (rule for_each_invariant [where P = "ids_step E db"]) (rule ids_step_trans [OF _ insert_row_ids(5)])
qed

lemma publish_entity_ids:
  assumes "publish_entity E now q k b c s = Inr s'"
  shows "ids_step E (snd (snd s)) (snd (snd s'))"
  using assms
  by (cases s) (auto simp: publish_entity_def dest!: resolve_entity_ids insert_row_ids intro: ids_step_trans)

lemma publish_fact_ids:
  assumes "publish_fact E now q ents c s = Inr s'"
  shows "ids_step E (snd s) (snd s')"
  using assms
  by (cases s) (auto simp: publish_fact_def graph_simps dest!: resolve_fact_ids evidence_group_ids
      intro: ids_step_trans)

lemma publish_source_ids:
  assumes "publish_source E now q s = Inr s'"
  shows "ids_step E (snd (snd s)) (snd (snd s'))"
  using assms by (auto simp: publish_source_def split: option.splits dest!: publish_entity_ids)

lemma update_one_run_ids:
  assumes "update_one_run P f msg db = Inr db'" "\<And>x. run_id (f x) = run_id x"
  shows "run_id ` set (gd_runs db') = run_id ` set (gd_runs db)"
proof -
  have "map run_id (gd_runs db') = map run_id (gd_runs db)"
    using assms by (auto simp: update_one_run_Inr map_update_where)
  from arg_cong [OF this, of set] show ?thesis by simp
qed

lemma publish_ids:
  assumes "publish_resolution_tx E now q db = Inr (p, db')"
  shows "ids_step E db db'"
proof -
  obtain r k where p: "p = (r, k)" by (cases p)
  from assms [unfolded p] show ?thesis
  proof (cases rule: publish_parts)
    case (1 s0 ents k1 db1 db2)
    have "ids_step E db (snd (snd s0))" using publish_source_ids [OF 1(1)] by simp
    with 1(2) have "ids_step E db (snd (snd (ents, k1, db1)))"
      by (rule for_each_invariant [where P = "\<lambda>s. ids_step E db (snd (snd s))"])
         (rule ids_step_trans [OF _ publish_entity_ids])
    then have "ids_step E db (snd (k1, db1))" by simp
    with 1(3) have "ids_step E db (snd (k, db2))"
      by (rule for_each_invariant [where P = "\<lambda>s. ids_step E db (snd s)"])
         (rule ids_step_trans [OF _ publish_fact_ids])
    moreover have "ids_step E db2 db'"
    proof -
      have "run_id ` set (gd_runs db') = run_id ` set (gd_runs db2)"
        using 1(4) by (rule update_one_run_ids) simp
      then show ?thesis using 1(4) by (auto simp: update_one_run_Inr ids_step_def all_ids_def)
    qed
    ultimately show ?thesis by (auto intro: ids_step_trans)
  qed
qed

text \<open>The other transactions.\<close>

lemma stage_ids:
  assumes "stage_effect db db'" "gd_ids db \<le> gd_ids db'" "xr_id ` set (gd_extractions db') \<subseteq> xr_id ` set (gd_extractions db) \<union> drawn E db'"
  shows "ids_step E db db'"
proof -
  note keys = runs_effect_keys [OF stage_runs_effect [OF assms(1)]]
  have "run_id ` set (gd_runs db') = fst ` set (map run_key (gd_runs db'))" "run_id ` set (gd_runs db) = fst ` set (map run_key (gd_runs db))"
    "rec_id ` set (gd_records db') = fst ` set (map rec_key (gd_records db'))" "rec_id ` set (gd_records db) = fst ` set (map rec_key (gd_records db))"
    by (simp_all add: image_image run_key_def rec_key_def)
  then show ?thesis using assms keys
    by (auto simp: ids_step_def all_ids_def stage_effect_def same_graph_def)
qed

lemma ensure_space_ids [simp]:
  "gd_ids (ensure_space now q db) = gd_ids db" "all_ids (ensure_space now q db) = all_ids db"
  by (simp_all add: ensure_space_def all_ids_def)

lemma accept_ids:
  assumes "accept_memory_record_tx E now q db = Inr (a, db')"
  shows "ids_step E db db'"
proof (cases "runs_by_key q db")
  case Nil
  obtain db0 :: GraphDb where db0: "db0 = ensure_space now q db" by simp
  have "insert_memory E now q (input_hash E q) db0 = Inr (a, db')"
    using assms Nil by (auto simp: accept_memory_record_tx_def Let_def db0)
  then have "all_ids db' = insert (g_uuid_v4 E (gd_ids db0)) (insert (g_uuid_v4 E (Suc (gd_ids db0))) (all_ids db0))
      \<and> gd_ids db' = Suc (Suc (gd_ids db0))"
    by (auto simp: insert_memory_def new_v4_def Let_def insert_record_Inr insert_run_Inr all_ids_def new_memory_row_def
        new_run_row_def)
  then show ?thesis by (auto simp: ids_step_def drawn_def db0)
next
  case (Cons r rs)
  then have "db' = ensure_space now q db"
    using assms by (auto simp: accept_memory_record_tx_def Let_def)
  then show ?thesis by (simp add: ids_step_def)
qed

lemma stage_ids_same:
  assumes "stage_effect db db'" "gd_ids db' = gd_ids db" "gd_extractions db' = gd_extractions db"
  shows "ids_step E db db'"
  by (rule stage_ids) (use assms in auto)

lemma quiet_stages:
  "claim_pending_run_tx E now rid db = Inr (ci, db') \<Longrightarrow> gd_ids db' = gd_ids db \<and> gd_extractions db' = gd_extractions db"
  "reset_incomplete_run_for_resume_tx E now rid sid db = Inr (st, db') \<Longrightarrow> gd_ids db' = gd_ids db \<and> gd_extractions db' = gd_extractions db"
  "store_record_embedding_tx now u db = Inr ((), db') \<Longrightarrow> gd_ids db' = gd_ids db \<and> gd_extractions db' = gd_extractions db"
  "claim_extraction_run_tx E now rid db = Inr (cx, db') \<Longrightarrow> gd_ids db' = gd_ids db \<and> gd_extractions db' = gd_extractions db"
  "mark_run_failed_tx now rid n stage code message db = Inr ((), db') \<Longrightarrow> gd_ids db' = gd_ids db \<and> gd_extractions db' = gd_extractions db"
  by (auto simp: claim_pending_run_tx_def reset_incomplete_run_for_resume_tx_def store_record_embedding_tx_def
      claim_extraction_run_tx_def mark_run_failed_tx_def update_one_run_Inr Let_def split: if_splits)

lemma claim_resolution_quiet:
  assumes "claim_resolution_run_sync E C now rid db = (r, db')"
  shows "gd_ids db' = gd_ids db \<and> gd_extractions db' = gd_extractions db"
  using assms
  by (auto simp: claim_resolution_run_sync_def transaction_def claim_resolution_run_tx_def graph_simps update_one_run_Inr
      split: sum.splits prod.splits)

lemma extraction_ids:
  "store_extraction_success_tx E now xs db = Inr (x, db') \<Longrightarrow> gd_ids db' = Suc (gd_ids db)
     \<and> gd_extractions db' = gd_extractions db @ [x] \<and> xr_id x = g_uuid_v4 E (gd_ids db)"
  "store_extraction_failure_tx E now xf db = Inr (x, db') \<Longrightarrow> gd_ids db' = Suc (gd_ids db)
     \<and> gd_extractions db' = gd_extractions db @ [x] \<and> xr_id x = g_uuid_v4 E (gd_ids db)"
  by (auto simp: store_extraction_success_tx_def store_extraction_failure_tx_def new_v4_def Let_def
      insert_extraction_run_def update_one_run_Inr)

lemma extraction_step_ids:
  assumes "stage_effect db db'" "gd_ids db' = Suc (gd_ids db) \<and> gd_extractions db' = gd_extractions db @ [x]
    \<and> xr_id x = g_uuid_v4 E (gd_ids db)"
  shows "ids_step E db db'"
  by (rule stage_ids [OF assms(1)]) (use assms(2) in \<open>auto simp: drawn_def\<close>)

lemma step_ids:
  assumes "graph_step E C reg (db, cs) (db', cs')"
  shows "ids_step E db db'"
  using assms
proof (cases rule: graph_step.cases)
  case (extraction_success now xs x)
  then have "store_extraction_success_tx E now xs db = Inr (x, db')" by simp
  from store_extraction_success_effect [OF this] extraction_ids(1) [OF this] show ?thesis
    by (rule extraction_step_ids)
next
  case (extraction_failure now xf x)
  then have "store_extraction_failure_tx E now xf db = Inr (x, db')" by simp
  from store_extraction_failure_effect [OF this] extraction_ids(2) [OF this] show ?thesis
    by (rule extraction_step_ids)
next
  case (accept now q a)
  then show ?thesis by (simp add: accept_ids)
next
  case (publish c u se now p)
  then have "publish_resolution_tx E now (publish_request reg c se) db = Inr (p, db')" by simp
  then show ?thesis by (rule publish_ids)
next
  case (claim_resolution now rid c)
  then have "claim_resolution_run_sync E C now rid db = (Inr c, db')" by simp
  from claim_resolution_effect [OF this] claim_resolution_quiet [OF this] show ?thesis by (simp add: stage_ids_same)
next
  case (claim_lost now rid e)
  then have "claim_resolution_run_sync E C now rid db = (Inl e, db')" by simp
  from claim_resolution_effect [OF this] claim_resolution_quiet [OF this] show ?thesis by (simp add: stage_ids_same)
next
  case (claim now rid ci)
  then have "claim_pending_run_tx E now rid db = Inr (ci, db')" by simp
  from claim_pending_effect [OF this] quiet_stages(1) [OF this] show ?thesis by (simp add: stage_ids_same)
next
  case (reset now rid sid st)
  then have "reset_incomplete_run_for_resume_tx E now rid sid db = Inr (st, db')" by simp
  from reset_effect [OF this] quiet_stages(2) [OF this] show ?thesis by (simp add: stage_ids_same)
next
  case (embed now u)
  then have "store_record_embedding_tx now u db = Inr ((), db')" by simp
  from store_embedding_effect [OF this] quiet_stages(3) [OF this] show ?thesis by (simp add: stage_ids_same)
next
  case (claim_extraction now rid cx)
  then have "claim_extraction_run_tx E now rid db = Inr (cx, db')" by simp
  from claim_extraction_effect [OF this] quiet_stages(4) [OF this] show ?thesis by (simp add: stage_ids_same)
next
  case (mark_failed now rid n stage code message)
  then have "mark_run_failed_tx now rid n stage code message db = Inr ((), db')" by simp
  from mark_failed_effect [OF this] quiet_stages(5) [OF this] show ?thesis by (simp add: stage_ids_same)
qed

lemma reachable_ids:
  assumes "graph_reachable E C reg (db, cs)"
  shows "ids_ok E db"
proof -
  have "ids_ok E (fst s)" if "graph_reachable E C reg s" for s
    using that
  proof (induction rule: graph_reachable.induct)
    case start
    show ?case by (simp add: ids_ok_def all_ids_def initialize_schema_def)
  next
    case (step s s')
    have "graph_step E C reg (fst s, snd s) (fst s', snd s')" using step.hyps(2) by simp
    then show ?case using step.IH by (blast intro: ids_step_ok step_ids)
  qed
  from this [OF assms] show ?thesis by simp
qed


section \<open>A publication does not fail\<close>

definition ready :: "genv \<Rightarrow> ResolutionPublishRequest \<Rightarrow> GraphDb \<Rightarrow> bool" where
  "ready E q db \<longleftrightarrow> inj (g_uuid_v4 E) \<and> ids_ok E db \<and> graph_ok db
     \<and> record_exists (pq_memory_record_id q) (pq_memory_space_id q) db
     \<and> run_exists (pq_ingestion_run_id q) (pq_memory_space_id q) db
     \<and> pq_extraction_run_id q \<in> xr_id ` set (gd_extractions db)
     \<and> pq_memory_space_id q \<in> ms_id ` set (gd_spaces db)"

lemma ready_step:
  assumes "ready E q db" "pub_ok q db db'" "ids_step E db db'"
  shows "ready E q db'"
  using assms ids_step_ok [OF assms(3)]
  by (auto simp: ready_def pub_ok_def pub_rel_def same_runs_def record_exists_def run_exists_def)

lemma ready_fresh:
  assumes "ready E q db"
  shows "g_uuid_v4 E (gd_ids db) \<notin> all_ids db"
proof -
  have "g_uuid_v4 E (gd_ids db) \<notin> drawn E db" using assms by (auto simp: ready_def drawn_def dest: injD)
  then show ?thesis using assms by (auto simp: ready_def ids_ok_def)
qed

lemma ready_fresh_ids:
  assumes "ready E q db"
  shows "g_uuid_v4 E (gd_ids db) \<notin> ent_id ` set (gd_entities db)" "g_uuid_v4 E (gd_ids db) \<notin> fct_id ` set (gd_facts db)"
    "g_uuid_v4 E (gd_ids db) \<notin> hst_id ` set (gd_history db)" "g_uuid_v4 E (gd_ids db) \<notin> evg_id ` set (gd_groups db)"
    "g_uuid_v4 E (gd_ids db) \<notin> evi_id ` set (gd_evidence db)" "g_uuid_v4 E (gd_ids db) \<notin> rdc_id ` set (gd_decisions db)"
  using ready_fresh [OF assms] by (simp_all add: all_ids_def)

lemma entity_exists_pub: "pub_ok q db db' \<Longrightarrow> entity_exists i s db \<Longrightarrow> entity_exists i s db'"
  using pub_ok_entities unfolding entity_exists_def by blast

lemma names_exists: "names_entity db s i n \<Longrightarrow> entity_exists i s db"
  by (auto simp: names_entity_def entity_exists_def)

lemma decision_succeeds:
  assumes "ready E q db"
  shows "\<exists>db'. insert_resolution_decision E now q k ik cands si act db = Inr db'"
  using assms ready_fresh_ids(6) [OF assms]
  by (auto simp: insert_resolution_decision_def new_v4_def Let_def ready_def)

lemma alias_succeeds:
  assumes "entity_exists i s db"
  shows "\<exists>db'. ensure_entity_alias E now s i d n db = Inr db'"
  using assms by (auto simp: ensure_entity_alias_def new_v4_def Let_def)

lemma link_succeeds:
  assumes "ready E q db" "entity_exists i (pq_memory_space_id q) db"
  shows "\<exists>n db'. insert_record_entity_link E now q i lk db = Inr (n, db')"
  using assms by (auto simp: insert_record_entity_link_def new_v4_def Let_def ready_def)

lemma reuse_succeeds:
  assumes "ready E q db" "names_entity db (pq_memory_space_id q) i (normalize_graph_text E (ec_name c))"
  shows "\<exists>db'. reuse_entity E now q c i db = Inr ((i, False), db')"
proof -
  obtain db1 where db1: "ensure_entity_alias E now (pq_memory_space_id q) i (ec_name c)
      (normalize_graph_text E (ec_name c)) db = Inr db1"
    using alias_succeeds names_exists [OF assms(2)] by blast
  have "ready E q db1"
    using ready_step [OF assms(1)] ensure_alias_pub [OF db1 assms(2)] insert_row_ids(1) [OF db1] by blast
  from decision_succeeds [OF this] db1 show ?thesis by (auto simp: reuse_entity_def)
qed

lemma new_v4_ready:
  assumes "ready E q db" "new_v4 E db = (i, db0)"
  shows "ready E q db0 \<and> i \<notin> all_ids db0 \<and> i \<in> drawn E db0 \<and> gd_entities db0 = gd_entities db \<and> gd_facts db0 = gd_facts db
    \<and> gd_groups db0 = gd_groups db"
  using ready_step [OF assms(1) new_v4_pub [OF assms(2)]] new_v4_ids [OF assms(2)] ready_fresh [OF assms(1)] assms(2)
  by (auto simp: new_v4_def)

lemma create_succeeds:
  assumes "ready E q db" "find_entity_by_normalized_name (pq_memory_space_id q) (ec_entity_type c)
    (normalize_graph_text E (ec_name c)) db = None"
  shows "\<exists>i db'. create_entity E now q c db = Inr ((i, True), db') \<and> entity_exists i (pq_memory_space_id q) db'"
proof -
  obtain i db0 where i: "new_v4 E db = (i, db0)" by (cases "new_v4 E db")
  note n = new_v4_ready [OF assms(1) i]
  let ?e = "\<lparr>ent_id = i, ent_memory_space_id = pq_memory_space_id q,
            ent_canonical_name = ec_name c, ent_normalized_name = normalize_graph_text E (ec_name c),
            ent_entity_type = ec_entity_type c, ent_status = ACTIVE,
            ent_type_registry_version = pq_type_registry_version q, ent_created_at_ms = now,
            ent_deleted_at_ms = None\<rparr>"
  have "i \<notin> ent_id ` set (gd_entities db0)" using n unfolding all_ids_def by blast
  moreover have "\<forall>e' \<in> set (gd_entities db0). \<not> (active_entity e' \<and> ent_memory_space_id e' = pq_memory_space_id q
      \<and> ent_entity_type e' = ec_entity_type c \<and> ent_normalized_name e' = normalize_graph_text E (ec_name c))"
    using assms(2) n unfolding find_name_None by auto
  ultimately obtain db1 where e: "insert_entity E ?e db0 = Inr db1"
    using n by (auto simp: insert_entity_def ready_def)
  have pub: "pub_ok q db0 db1 \<and> names_entity db1 (ent_memory_space_id ?e) (ent_id ?e) (ent_normalized_name ?e)"
    by (rule insert_entity_pub [OF e]) (simp_all add: active_entity_def)
  have names: "names_entity db1 (pq_memory_space_id q) i (normalize_graph_text E (ec_name c))" using pub by simp
  have "ids_step E db0 db1" by (rule insert_ids(1) [OF e]) (use n in simp)
  then have r1: "ready E q db1" using ready_step [of E q db0 db1] n pub by blast
  obtain db2 where a: "ensure_entity_alias E now (pq_memory_space_id q) i (ec_name c)
      (normalize_graph_text E (ec_name c)) db1 = Inr db2"
    using alias_succeeds [OF names_exists [OF names]] by blast
  note pub2 = ensure_alias_pub [OF a names]
  have r2: "ready E q db2" by (rule ready_step [OF r1 pub2 [THEN conjunct1] insert_row_ids(1) [OF a]])
  obtain db3 where d: "insert_resolution_decision E now q ''entity_resolution'' (ec_local_id c) [] i ''create'' db2 = Inr db3"
    using decision_succeeds [OF r2] by blast
  have "entity_exists i (pq_memory_space_id q) db3"
    using entity_exists_pub [OF insert_decision_pub [OF d]] entity_exists_pub [OF pub2 [THEN conjunct1]] names_exists [OF names]
    by blast
  moreover have "create_entity E now q c db = Inr ((i, True), db3)" using i e a d by (simp add: create_entity_def Let_def)
  ultimately show ?thesis by blast
qed

lemma resolve_entity_succeeds:
  assumes "ready E q db"
  shows "\<exists>i cr db'. resolve_entity_candidate E now q c db = Inr ((i, cr), db') \<and> ready E q db'
    \<and> pub_ok q db db' \<and> entity_exists i (pq_memory_space_id q) db'"
proof -
  have ok: "graph_ok db" using assms by (simp add: ready_def)
  have "\<exists>i cr db'. resolve_entity_candidate E now q c db = Inr ((i, cr), db')
      \<and> (pub_ok q db db' \<longrightarrow> entity_exists i (pq_memory_space_id q) db')"
  proof (cases "find_entity_by_normalized_name (pq_memory_space_id q) (ec_entity_type c)
      (normalize_graph_text E (ec_name c)) db")
    case None
    with ok create_succeeds [OF assms None, of now] show ?thesis
      by (auto simp: resolve_entity_candidate_def Let_def graph_ok_def no_alias_without_name)
  next
    case (Some i)
    then have names: "names_entity db (pq_memory_space_id q) i (normalize_graph_text E (ec_name c))" by (rule find_name_Some)
    obtain db' where "reuse_entity E now q c i db = Inr ((i, False), db')"
      using reuse_succeeds [OF assms names] by blast
    with Some have "resolve_entity_candidate E now q c db = Inr ((i, False), db')"
      by (simp add: resolve_entity_candidate_def Let_def)
    then show ?thesis using entity_exists_pub names_exists [OF names] by blast
  qed
  then obtain i cr db' where r: "resolve_entity_candidate E now q c db = Inr ((i, cr), db')"
    "pub_ok q db db' \<longrightarrow> entity_exists i (pq_memory_space_id q) db'" by blast
  have "pub_ok q db db'" by (rule resolve_entity_pub [OF r(1) ok])
  moreover from this have "ready E q db'" using ready_step [OF assms] resolve_entity_ids [OF r(1)] by blast
  ultimately show ?thesis using r by blast
qed

definition map_ready :: "ResolutionPublishRequest \<Rightarrow> (str \<times> str) list \<Rightarrow> GraphDb \<Rightarrow> bool" where
  "map_ready q ents db \<longleftrightarrow> (\<forall>i \<in> snd ` set ents. entity_exists i (pq_memory_space_id q) db)"

lemma update_values: "snd ` set (AList.update k v al) \<subseteq> insert v (snd ` set al)"
  by (induction al) auto

lemma update_keys: "fst ` set (AList.update k v al) = insert k (fst ` set al)"
  by (simp add: AList.dom_update)

lemma publish_entity_succeeds:
  assumes "ready E q (snd (snd s))" "map_ready q (fst s) (snd (snd s))"
  shows "\<exists>s'. publish_entity E now q lk b c s = Inr s' \<and> ready E q (snd (snd s')) \<and> map_ready q (fst s') (snd (snd s'))"
proof -
  obtain ents k db where s: "s = (ents, k, db)" by (cases s)
  have r0: "ready E q db" and m0: "map_ready q ents db" using assms by (simp_all add: s)
  obtain i cr db1 where r: "resolve_entity_candidate E now q c db = Inr ((i, cr), db1)" "ready E q db1"
    "pub_ok q db db1" "entity_exists i (pq_memory_space_id q) db1"
    using resolve_entity_succeeds [OF r0] by blast
  obtain n db2 where l: "insert_record_entity_link E now q i lk db1 = Inr (n, db2)"
    using link_succeeds [OF r(2,4)] by blast
  note p = insert_link_pub [OF l]
  have r2: "ready E q db2" by (rule ready_step [OF r(2) p insert_row_ids(3) [OF l]])
  let ?ents = "if b then AList.update (ec_local_id c) i ents else ents"
  have "snd ` set ?ents \<subseteq> insert i (snd ` set ents)" by (simp add: update_values subset_insertI)
  moreover have "entity_exists i' (pq_memory_space_id q) db2" if "i' \<in> insert i (snd ` set ents)" for i'
  proof -
    have "entity_exists i' (pq_memory_space_id q) db1"
      using that m0 r(4) entity_exists_pub [OF r(3)] by (auto simp: map_ready_def)
    then show ?thesis by (rule entity_exists_pub [OF p])
  qed
  ultimately have "map_ready q ?ents db2" unfolding map_ready_def by blast
  moreover from this have "publish_entity E now q lk b c s = Inr (?ents, count_entity cr n k, db2)"
    using r(1) l by (simp add: publish_entity_def s)
  ultimately show ?thesis using r2 by auto
qed

lemma for_each_total:
  assumes "P s" "\<And>x s. x \<in> set xs \<Longrightarrow> P s \<Longrightarrow> \<exists>t. f x s = Inr t \<and> P t"
  shows "\<exists>t. for_each f xs s = Inr t \<and> P t"
  using assms
proof (induction xs arbitrary: s)
  case (Cons x xs)
  then obtain t where "f x s = Inr t" "P t" by fastforce
  with Cons.IH [of t] Cons.prems(2) show ?case by simp
qed simp

text \<open>After the loop over the entities every local id is mapped.\<close>

lemma publish_entities_mapped:
  assumes "for_each (publish_entity E now q lk True) cs s = Inr s'"
  shows "fst ` set (fst s) \<union> ec_local_id ` set cs \<subseteq> fst ` set (fst s')"
  using assms
proof (induction cs arbitrary: s)
  case (Cons c cs)
  then obtain t where t: "publish_entity E now q lk True c s = Inr t" "for_each (publish_entity E now q lk True) cs t = Inr s'"
    by auto
  obtain i where "fst t = AList.update (ec_local_id c) i (fst s)"
    using t(1) by (cases s) (auto simp: publish_entity_def)
  then have "fst ` set (fst t) = insert (ec_local_id c) (fst ` set (fst s))" by (simp only: update_keys)
  then show ?case using Cons.IH [OF t(2)] by auto
qed auto

lemma fact_succeeds:
  assumes "ready E q db" "entity_exists sj (pq_memory_space_id q) db" "entity_exists ob (pq_memory_space_id q) db"
  shows "\<exists>i cr db'. resolve_fact_candidate E now q c sj ob db = Inr ((i, cr), db') \<and> fact_exists i (pq_memory_space_id q) db'"
proof -
  let ?key = "fact_dedup_key E sj (fc_predicate c) ob (normalize_graph_text E (fc_fact_text c))"
  let ?fs = "filter (\<lambda>f. fct_memory_space_id f = pq_memory_space_id q \<and> fct_dedup_key f = ?key \<and> active_fact f) (gd_facts db)"
  show ?thesis
  proof (cases "sort_key (\<lambda>f. (fct_recorded_at_ms f, fct_id f)) ?fs")
    case Nil
    then have "?fs = []" by (simp only: sort_key_Nil)
    have none: "find_fact_by_dedup_key (pq_memory_space_id q) ?key db = None"
      by (simp add: find_fact_by_dedup_key_def \<open>?fs = []\<close>)
    obtain i db0 where i: "new_v4 E db = (i, db0)" by (cases "new_v4 E db")
    note n = new_v4_ready [OF assms(1) i]
    let ?f = "\<lparr>fct_id = i, fct_memory_space_id = pq_memory_space_id q,
                  fct_subject_entity_id = sj, fct_predicate = fc_predicate c,
                  fct_object_entity_id = ob, fct_fact_text = fc_fact_text c, fct_dedup_key = ?key,
                  fct_status = ACTIVE, fct_valid_from_ms = fc_valid_from_ms c,
                  fct_valid_to_ms = fc_valid_to_ms c, fct_recorded_at_ms = now,
                  fct_retired_at_ms = None, fct_type_registry_version = pq_type_registry_version q\<rparr>"
    have "i \<notin> fct_id ` set (gd_facts db0)" using n unfolding all_ids_def by blast
    moreover have "\<forall>f' \<in> set (gd_facts db0). \<not> (active_fact f' \<and> fct_memory_space_id f' = pq_memory_space_id q
        \<and> fct_dedup_key f' = ?key)"
      using \<open>?fs = []\<close> n by (auto simp: filter_empty_conv)
    moreover have "entity_exists sj (pq_memory_space_id q) db0" "entity_exists ob (pq_memory_space_id q) db0"
      using assms(2,3) n by (simp_all add: entity_exists_def)
    ultimately obtain db1 where f: "insert_fact E ?f db0 = Inr db1" "gd_facts db1 = gd_facts db0 @ [?f]"
      by (auto simp: insert_fact_def)
    have p1: "pub_ok q db0 db1" by (rule insert_fact_pub [OF f(1)]) (simp_all add: active_fact_def)
    have r1: "ready E q db1"
      by (rule ready_step [OF _ p1 insert_ids(2) [OF f(1)]]) (use n in simp_all)
    have ex1: "fact_exists i (pq_memory_space_id q) db1" by (simp add: fact_exists_def f(2))
    have "g_uuid_v4 E (gd_ids db1) \<notin> hst_id ` set (gd_history db1)" by (rule ready_fresh_ids [OF r1])
    then obtain db2 where h: "insert_history E now q i db1 = Inr db2" "gd_facts db2 = gd_facts db1"
      using r1 ex1 by (auto simp: insert_history_def new_v4_def Let_def ready_def)
    have r2: "ready E q db2" by (rule ready_step [OF r1 insert_history_pub [OF h(1)] insert_row_ids(4) [OF h(1)]])
    obtain db3 where d: "insert_resolution_decision E now q ''fact_resolution'' (fc_local_id c) [] i ''create'' db2 = Inr db3"
      using decision_succeeds [OF r2] by blast
    then have "gd_facts db3 = gd_facts db2" by (auto simp: insert_resolution_decision_def new_v4_def Let_def)
    then have "fact_exists i (pq_memory_space_id q) db3" using ex1 h(2) by (simp add: fact_exists_def)
    moreover have "resolve_fact_candidate E now q c sj ob db = Inr ((i, True), db3)"
      using none i f(1) h(1) d by (simp add: resolve_fact_candidate_def Let_def)
    ultimately show ?thesis by blast
  next
    case (Cons f fs)
    then have "f \<in> set (sort_key (\<lambda>f. (fct_recorded_at_ms f, fct_id f)) ?fs)" by simp
    then have f: "f \<in> set (gd_facts db)" "fct_memory_space_id f = pq_memory_space_id q" unfolding set_sort by simp_all
    have some: "find_fact_by_dedup_key (pq_memory_space_id q) ?key db = Some (fct_id f)"
      by (simp add: find_fact_by_dedup_key_def Cons)
    obtain db1 where d: "insert_resolution_decision E now q ''fact_resolution'' (fc_local_id c) [fct_id f] (fct_id f) ''reuse'' db = Inr db1"
      using decision_succeeds [OF assms(1)] by blast
    then have "gd_facts db1 = gd_facts db" by (auto simp: insert_resolution_decision_def new_v4_def Let_def)
    then have "fact_exists (fct_id f) (pq_memory_space_id q) db1" using f by (auto simp: fact_exists_def)
    moreover have "resolve_fact_candidate E now q c sj ob db = Inr ((fct_id f, False), db1)"
      using some d by (simp add: resolve_fact_candidate_def Let_def)
    ultimately show ?thesis by blast
  qed
qed

lemma evidence_group_succeeds:
  assumes "ready E q db" "fact_exists i (pq_memory_space_id q) db" "c \<in> set (go_facts (pq_extraction_output q))"
  shows "\<exists>n db'. insert_fact_evidence_group E now q i c db = Inr (n, db')"
proof -
  let ?g = "\<lparr>evg_id = g_uuid_v4 E (gd_ids db), evg_memory_space_id = pq_memory_space_id q,
    evg_fact_id = i, evg_evidence_kind = lit ''support'', evg_extraction_run_id = pq_extraction_run_id q,
    evg_created_at_ms = now\<rparr>"
  obtain db1 where db1: "db1 = db\<lparr>gd_ids := Suc (gd_ids db), gd_groups := gd_groups db @ [?g]\<rparr>" by simp
  have p1: "pub_ok q db db1"
    by (rule pub_ok_rows) (use assms(2) in \<open>auto simp: db1 pub_simps intro: facts_grow\<close>)
  have i1: "ids_step E db db1" by (rule ids_stepI) (auto simp: db1 all_ids_def)
  have "ready E q db1 \<and> group_exists (evg_id ?g) (pq_memory_space_id q) db1"
    using ready_step [OF assms(1) p1 i1] by (simp add: db1 group_exists_def)
  then have "\<exists>db'. for_each (insert_fact_evidence E now q (evg_id ?g)) (fc_evidence c) db1 = Inr db'
      \<and> ready E q db' \<and> group_exists (evg_id ?g) (pq_memory_space_id q) db'"
  proof (rule for_each_total)
    fix v s assume v: "v \<in> set (fc_evidence c)" and s: "ready E q s \<and> group_exists (evg_id ?g) (pq_memory_space_id q) s"
    have "g_uuid_v4 E (gd_ids s) \<notin> evi_id ` set (gd_evidence s)" using s ready_fresh_ids(5) by blast
    then obtain t where t: "insert_fact_evidence E now q (evg_id ?g) v s = Inr t" "gd_groups t = gd_groups s"
      using s by (auto simp: insert_fact_evidence_def new_v4_def Let_def ready_def)
    have "v \<in> output_spans (pq_extraction_output q)" using v assms(3) by (auto simp: output_spans_def)
    then have "ready E q t"
      using ready_step s insert_evidence_pub [OF t(1)] insert_row_ids(5) [OF t(1)] by blast
    then show "\<exists>t. insert_fact_evidence E now q (evg_id ?g) v s = Inr t \<and> ready E q t
        \<and> group_exists (evg_id ?g) (pq_memory_space_id q) t"
      using t s by (simp add: group_exists_def)
  qed
  moreover have "g_uuid_v4 E (gd_ids db) \<notin> evg_id ` set (gd_groups db)" by (rule ready_fresh_ids [OF assms(1)])
  ultimately show ?thesis
    using assms(2) by (auto simp: insert_fact_evidence_group_def new_v4_def Let_def db1)
qed

lemma publish_fact_succeeds:
  assumes "ready E q (snd s)" "map_ready q ents (snd s)" "c \<in> set (go_facts (pq_extraction_output q))"
    "fc_subject_ref c \<in> fst ` set ents" "fc_object_ref c \<in> fst ` set ents"
  shows "\<exists>s'. publish_fact E now q ents c s = Inr s' \<and> ready E q (snd s') \<and> map_ready q ents (snd s')"
proof -
  obtain k db where s: "s = (k, db)" by (cases s)
  have r0: "ready E q db" and m0: "map_ready q ents db" using assms(1,2) by (simp_all add: s)
  obtain sj ob where refs: "map_of ents (fc_subject_ref c) = Some sj" "map_of ents (fc_object_ref c) = Some ob"
    using assms(4,5) by (metis map_of_eq_None_iff not_None_eq)
  then have "entity_exists sj (pq_memory_space_id q) db" "entity_exists ob (pq_memory_space_id q) db"
    using m0 by (auto simp: map_ready_def dest!: map_of_SomeD)
  then obtain i cr db1 where f: "resolve_fact_candidate E now q c sj ob db = Inr ((i, cr), db1)"
    "fact_exists i (pq_memory_space_id q) db1"
    using fact_succeeds [OF r0] by blast
  note p1 = resolve_fact_pub [OF f(1)]
  have r1: "ready E q db1" by (rule ready_step [OF r0 p1 resolve_fact_ids [OF f(1)]])
  obtain n db2 where g: "insert_fact_evidence_group E now q i c db1 = Inr (n, db2)"
    using evidence_group_succeeds [OF r1 f(2) assms(3)] by blast
  note p2 = evidence_group_pub [OF g assms(3)]
  have "ready E q db2" by (rule ready_step [OF r1 p2 evidence_group_ids [OF g]])
  moreover have "map_ready q ents db2"
    using m0 entity_exists_pub [OF pub_ok_trans [OF p1 p2]] by (simp add: map_ready_def)
  ultimately show ?thesis using refs f(1) g by (simp add: publish_fact_def s)
qed

text \<open>The references of an accepted answer.\<close>

lemma validate_entities_ids:
  assumes "for_each (validate_entity E reg) es seen = Inr ids"
  shows "set ids = set seen \<union> ec_local_id ` set es"
  using assms
proof (induction es arbitrary: seen)
  case (Cons e es)
  then obtain t where t: "validate_entity E reg e seen = Inr t" "for_each (validate_entity E reg) es t = Inr ids"
    by auto
  have "t = ec_local_id e # seen" using t(1) unfolding validate_entity_def by (elim and_then_InrE) simp
  with Cons.IH [OF t(2)] show ?case by auto
qed simp

lemma validate_fact_refs:
  assumes "validate_fact E reg s ids c seen = Inr t"
  shows "fc_subject_ref c \<in> set ids \<and> fc_object_ref c \<in> set ids"
  using assms unfolding validate_fact_def by (elim and_then_InrE) simp

lemma validated_refs:
  assumes "validate_against_record E reg s out = Inr u" "c \<in> set (go_facts out)"
  shows "fc_subject_ref c \<in> ec_local_id ` set (go_entities out) \<and> fc_object_ref c \<in> ec_local_id ` set (go_entities out)"
proof -
  obtain ids fs where v: "for_each (validate_entity E reg) (go_entities out) [] = Inr ids"
    "for_each (validate_fact E reg s ids) (go_facts out) [] = Inr fs"
    using assms(1) by (auto simp: validate_against_record_def)
  obtain a b where "validate_fact E reg s ids c a = Inr b" using v(2) assms(2) by (rule for_each_step)
  then show ?thesis using validate_fact_refs validate_entities_ids [OF v(1)] by auto
qed

lemma count_current:
  assumes "accepted_ok db" "r \<in> set (gd_runs db)" "P r" "\<And>x. P x \<Longrightarrow> run_id x = run_id r"
  shows "count_where P (gd_runs db) = 1"
proof -
  obtain xs ys where rs: "gd_runs db = xs @ r # ys" using assms(2) by (auto simp: in_set_conv_decomp)
  have "distinct (map run_id (gd_runs db))" using assms(1) by (simp add: accepted_ok_def)
  then have "\<not> P x" if "x \<in> set xs \<union> set ys" for x
    using assms(4) [of x] that unfolding rs by (auto dest: image_eqI [of _ run_id] sym)
  then have "filter P xs = []" "filter P ys = []" by (auto simp: filter_empty_conv)
  then show ?thesis using assms(3) by (simp add: count_where_def rs)
qed

text \<open>A publication of an accepted answer fails only when the run is no longer its own.\<close>

lemma publish_succeeds:
  assumes "ready E q db" "validate_against_record E reg s (pq_extraction_output q) = Inr u"
    and "accepted_ok db" "r0 \<in> set (gd_runs db)" "run_published q r0"
  shows "\<exists>p db'. publish_resolution_tx E now q db = Inr (p, db') \<and> run_id (fst p) = pq_ingestion_run_id q
    \<and> run_status (fst p) = COMPLETED \<and> fst p \<in> set (gd_runs db')"
proof -
  let ?S = "\<lambda>s. ready E q (snd (snd s)) \<and> map_ready q (fst s) (snd (snd s))"
  have s0: "?S ([], no_counts, db)" using assms(1) by (simp add: map_ready_def)
  obtain s1 where s1: "publish_source E now q ([], no_counts, db) = Inr s1" "?S s1"
  proof (cases "pq_source_entity q")
    case None
    with s0 show thesis using that by (simp add: publish_source_def)
  next
    case (Some se)
    with s0 publish_entity_succeeds [of E q "([], no_counts, db)"] show thesis using that
      by (fastforce simp: publish_source_def)
  qed
  obtain s2 where s2: "for_each (publish_entity E now q ''extracted_mention'' True) (go_entities (pq_extraction_output q)) s1 = Inr s2"
    "?S s2"
    using for_each_total [of ?S s1, OF s1(2), of "go_entities (pq_extraction_output q)"] publish_entity_succeeds by blast
  obtain ents k1 db1 where e: "s2 = (ents, k1, db1)" by (cases s2)
  have mapped: "ec_local_id ` set (go_entities (pq_extraction_output q)) \<subseteq> fst ` set ents"
    using publish_entities_mapped [OF s2(1)] by (simp add: e)
  let ?F = "\<lambda>s :: publish_counts \<times> GraphDb. ready E q (snd s) \<and> map_ready q ents (snd s)"
  have "\<exists>t. for_each (publish_fact E now q ents) (go_facts (pq_extraction_output q)) (k1, db1) = Inr t \<and> ?F t"
  proof (rule for_each_total [where P = ?F])
    show "?F (k1, db1)" using s2(2) by (simp add: e)
  next
    fix c s assume c: "c \<in> set (go_facts (pq_extraction_output q))" and s: "?F s"
    have "fc_subject_ref c \<in> fst ` set ents" "fc_object_ref c \<in> fst ` set ents"
      using validated_refs [OF assms(2) c] mapped by auto
    then show "\<exists>t. publish_fact E now q ents c s = Inr t \<and> ?F t"
      using publish_fact_succeeds [of E q s ents c now] s c by blast
  qed
  then obtain k db2 where f: "for_each (publish_fact E now q ents) (go_facts (pq_extraction_output q)) (k1, db1) = Inr (k, db2)"
    by auto
  have runs: "gd_runs db2 = gd_runs db"
    using publish_loops_same_runs [OF s1(1) s2(1) [unfolded e] f] by (simp add: same_runs_def)
  have one: "count_where (run_published q) (gd_runs db) = 1" by (rule count_current [OF assms(3,4), of "run_published q"]) (use assms(5) in \<open>simp_all add: run_published_def\<close>)
  let ?f = "\<lambda>x. x\<lparr>run_status := COMPLETED, run_stage := COMPLETED, run_updated_at_ms := now,
            run_completed_at_ms := Some now\<rparr>"
  let ?db3 = "db2\<lparr>gd_runs := update_where (run_published q) ?f (gd_runs db)\<rparr>"
  have u: "update_one_run (run_published q) ?f ''ingestion run is no longer current for resolution completion'' db2 = Inr ?db3"
    using one by (simp add: update_one_run_Inr runs)
  have "?f r0 \<in> set (get_run_rows (pq_ingestion_run_id q) (pq_memory_space_id q) ?db3)"
    using assms(4,5) by (force simp: get_run_rows_def update_where_def run_published_def)
  then obtain r rs where r: "get_run_rows (pq_ingestion_run_id q) (pq_memory_space_id q) ?db3 = r # rs" by (cases "get_run_rows (pq_ingestion_run_id q) (pq_memory_space_id q) ?db3") auto
  have "publish_resolution_tx E now q db = Inr ((r, k), ?db3)"
    using s1(1) s2(1) f u r
    by (simp add: publish_resolution_tx_def e run_published_def [abs_def] query_row_def)
  moreover have "r \<in> set (get_run_rows (pq_ingestion_run_id q) (pq_memory_space_id q) ?db3)" by (simp add: r)
  moreover from this have "r \<in> set (gd_runs ?db3)" "run_id r = pq_ingestion_run_id q" by (auto simp: get_run_rows_def)
  moreover from this have "run_status r = COMPLETED"
  proof -
    obtain x where x: "x \<in> set (gd_runs db)" "r = (if run_published q x then ?f x else x)"
      using \<open>r \<in> set (gd_runs ?db3)\<close> by (auto simp: update_where_def)
    have "run_id x = run_id r0" using x(2) \<open>run_id r = pq_ingestion_run_id q\<close> assms(5)
      by (auto simp: run_published_def split: if_splits)
    then have "x = r0" by (rule runs_records_distinct(1) [OF assms(3) x(1) assms(4)])
    then show ?thesis using x(2) assms(5) by simp
  qed
  ultimately show ?thesis by fastforce
qed

end
