(* ===== verification/GraphResume.thy ===== *)
theory GraphResume
  imports GraphLive GraphPipeline
begin

text \<open>
  The build pipeline from any incomplete run: each stage succeeds on the state the stage before left,
  and the run ends completed.
\<close>

section \<open>A run and its record\<close>

definition at_stage :: "genv \<Rightarrow> GraphDb \<Rightarrow> IngestionRun \<Rightarrow> GraphMemoryRow \<Rightarrow> bool" where
  "at_stage E db r m \<longleftrightarrow> inj (g_uuid_v4 E) \<and> accepted_ok db \<and> graph_ok db \<and> ids_ok E db
     \<and> r \<in> set (gd_runs db) \<and> m \<in> set (gd_records db) \<and> record_ref m = run_record r"

lemma stage_kept:
  assumes "stage_effect db db'"
  shows "kept db db'"
proof -
  note keys = runs_effect_keys [OF stage_runs_effect [OF assms]]
  obtain xs where "gd_extractions db' = gd_extractions db @ xs"
    using assms unfolding stage_effect_def more_extractions_def by blast
  then show ?thesis using keys by (simp add: kept_def grows_map)
qed

lemma at_stage_step:
  assumes "at_stage E db r m" "stage_effect db db'" "ids_step E db db'"
    and "r' \<in> set (gd_runs db')" "run_key r' = run_key r"
  shows "\<exists>m'. at_stage E db' r' m' \<and> rec_key m' = rec_key m"
proof -
  have "m \<in> set (gd_records db)" using assms(1) by (simp add: at_stage_def)
  then obtain m' where m': "m' \<in> set (gd_records db')" "rec_key m' = rec_key m"
    using grows_mem stage_kept [OF assms(2)] unfolding kept_def by metis
  have "record_ref m' = run_record r'"
    using m'(2) assms(1,5) by (simp add: at_stage_def rec_key_def record_ref_def run_key_def run_record_def)
  moreover have "accepted_ok db'"
    using accepted_ok_keys [OF runs_effect_keys [OF stage_runs_effect [OF assms(2)]]] assms(1) by (simp add: at_stage_def)
  moreover have "graph_ok db'"
    using graph_ok_kept [OF _ _ stage_kept [OF assms(2)]] assms(1,2) by (simp add: at_stage_def stage_effect_def)
  ultimately have "at_stage E db' r' m'"
    using assms(1,4) m'(1) ids_step_ok [OF assms(3)] by (simp add: at_stage_def)
  then show ?thesis using m'(2) by blast
qed

lemma at_stage_joined:
  assumes "at_stage E db r m"
  shows "query_row E' (joined_runs (run_id r) db) = Inr (r, m)"
proof (rule query_row_only)
  have ok: "accepted_ok db" "r \<in> set (gd_runs db)" "m \<in> set (gd_records db)" "record_ref m = run_record r"
    using assms by (simp_all add: at_stage_def)
  show "(r, m) \<in> set (joined_runs (run_id r) db)" using ok by (simp add: joined_runs_mem)
  fix y assume "y \<in> set (joined_runs (run_id r) db)"
  moreover obtain r' m' where "y = (r', m')" by (cases y)
  ultimately have y: "y = (r', m')" "r' \<in> set (gd_runs db)" "run_id r' = run_id r"
    "m' \<in> set (gd_records db)" "record_ref m' = run_record r'"
    by (simp_all add: joined_runs_mem)
  have r: "r' = r" by (rule runs_records_distinct(1) [OF ok(1) y(2) ok(2) y(3)])
  have "record_ref m' = record_ref m" using y(5) ok(4) r by simp
  then have "rec_id m' = rec_id m" by (simp add: record_ref_def)
  moreover have "inj_on rec_id (set (gd_records db))" using ok(1) by (simp add: accepted_ok_def distinct_map)
  ultimately have "m' = m" using y(4) ok(3) by (simp add: inj_onD)
  then show "y = (r, m)" using y(1) r by simp
qed

lemma at_stage_update:
  assumes "at_stage E db r m" "P r" "\<And>x. P x \<Longrightarrow> run_id x = run_id r"
  shows "update_one_run P f msg db = Inr (db\<lparr>gd_runs := update_where P f (gd_runs db)\<rparr>)
    \<and> f r \<in> set (update_where P f (gd_runs db))"
proof -
  have r: "accepted_ok db" "r \<in> set (gd_runs db)" using assms(1) by (simp_all add: at_stage_def)
  have "count_where P (gd_runs db) = 1" by (rule count_current [OF r, of P, OF assms(2) assms(3)])
  moreover have "f r \<in> set (update_where P f (gd_runs db))" using r(2) assms(2) by (force simp: update_where_def)
  ultimately show ?thesis by (simp add: update_one_run_def)
qed


section \<open>The stages\<close>

lemma claim_succeeds:
  assumes "at_stage E db r m" "run_status r = PENDING"
  shows "\<exists>c db' r' m'. claim_pending_run_tx E now (run_id r) db = Inr (c, db') \<and> at_stage E db' r' m'
    \<and> rec_key m' = rec_key m \<and> run_key r' = run_key r \<and> run_status r' = RUNNING \<and> run_stage r' = EMBEDDING
    \<and> ci_attempt_count c = run_attempt_count r' \<and> ci_memory_record_id c = rec_id m \<and> ci_memory_space_id c = rec_memory_space_id m"
proof -
  let ?P = "\<lambda>x. run_id x = run_id r \<and> run_status x = PENDING \<and> run_attempt_count x = run_attempt_count r"
  let ?f = "\<lambda>x. x\<lparr>run_status := RUNNING, run_stage := EMBEDDING, run_attempt_count := run_attempt_count r + 1,
                run_started_at_ms := (case run_started_at_ms x of Some t \<Rightarrow> Some t | None \<Rightarrow> Some now),
                run_updated_at_ms := now\<rparr>"
  let ?db = "db\<lparr>gd_runs := update_where ?P ?f (gd_runs db)\<rparr>"
  have u: "update_one_run ?P ?f ''failed to claim ingestion run'' db = Inr ?db \<and> ?f r \<in> set (update_where ?P ?f (gd_runs db))"
    by (rule at_stage_update [OF assms(1)]) (use assms(2) in simp_all)
  have ref: "run_memory_record_id r = rec_id m" "run_memory_space_id r = rec_memory_space_id m"
    using assms(1) by (simp_all add: at_stage_def record_ref_def run_record_def)
  let ?c = "\<lparr>ci_ingestion_run_id = run_id r, ci_memory_space_id = run_memory_space_id r,
    ci_memory_record_id = run_memory_record_id r, ci_text = rec_text m, ci_attempt_count = run_attempt_count r + 1\<rparr>"
  have tx: "claim_pending_run_tx E now (run_id r) db = Inr (?c, ?db)"
    using u assms(2) by (simp add: claim_pending_run_tx_def at_stage_joined [OF assms(1)] Let_def)
  note step = claim_pending_effect [OF tx(1)]
  have "ids_step E db ?db" using stage_ids_same [OF step] quiet_stages(1) [OF tx(1)] by simp
  then obtain m' where "at_stage E ?db (?f r) m'" "rec_key m' = rec_key m"
    using at_stage_step [OF assms(1) step, of "?f r"] u by (auto simp: run_key_def)
  then show ?thesis using tx by (intro exI [of _ ?c] exI [of _ ?db] exI [of _ "?f r"] exI [of _ m']) (simp add: run_key_def ref)
qed

lemma count_record:
  assumes "at_stage E db r m"
  shows "count_where (\<lambda>x. rec_id x = rec_id m \<and> rec_memory_space_id x = rec_memory_space_id m) (gd_records db) = 1"
proof -
  have m: "m \<in> set (gd_records db)" and d: "distinct (map rec_id (gd_records db))"
    using assms by (simp_all add: at_stage_def accepted_ok_def)
  obtain xs ys where rs: "gd_records db = xs @ m # ys" using m by (auto simp: in_set_conv_decomp)
  have "rec_id x \<noteq> rec_id m" if "x \<in> set xs \<union> set ys" for x
    using d that unfolding rs by (auto dest: image_eqI [of _ rec_id] sym)
  then show ?thesis by (auto simp: count_where_def rs filter_empty_conv)
qed

lemma embed_succeeds:
  assumes "at_stage E db r m" "run_status r = RUNNING" "run_stage r = EMBEDDING"
    "eu_ingestion_run_id u = run_id r" "eu_memory_record_id u = rec_id m" "eu_memory_space_id u = rec_memory_space_id m"
    "eu_attempt_count u = run_attempt_count r"
  shows "\<exists>db' r' m'. store_record_embedding_tx now u db = Inr ((), db') \<and> at_stage E db' r' m'
    \<and> rec_key m' = rec_key m \<and> run_key r' = run_key r \<and> run_status r' = RUNNING \<and> run_stage r' = EXTRACTION"
proof -
  have ref: "run_memory_record_id r = rec_id m" "run_memory_space_id r = rec_memory_space_id m"
    using assms(1) by (simp_all add: at_stage_def record_ref_def run_record_def)
  let ?P = "\<lambda>x. run_id x = eu_ingestion_run_id u \<and> run_memory_space_id x = eu_memory_space_id u
           \<and> run_attempt_count x = eu_attempt_count u \<and> run_status x = RUNNING
           \<and> run_stage x = EMBEDDING \<and> run_memory_record_id x = eu_memory_record_id u"
  let ?f = "\<lambda>x. x\<lparr>run_status := RUNNING, run_stage := EXTRACTION, run_updated_at_ms := now\<rparr>"
  let ?db1 = "db\<lparr>gd_runs := update_where ?P ?f (gd_runs db)\<rparr>"
  have u: "update_one_run ?P ?f ''ingestion run attempt is no longer current'' db = Inr ?db1
      \<and> ?f r \<in> set (update_where ?P ?f (gd_runs db))"
    by (rule at_stage_update [OF assms(1)]) (use assms(2-7) ref in simp_all)
  have "count_where (\<lambda>m. rec_id m = eu_memory_record_id u \<and> rec_memory_space_id m = eu_memory_space_id u)
      (gd_records ?db1) = 1"
    using count_record [OF assms(1)] assms(5,6) by simp
  then obtain R where tx: "store_record_embedding_tx now u db = Inr ((), ?db1\<lparr>gd_records := R\<rparr>)"
    using u by (simp add: store_record_embedding_tx_def Let_def)
  note step = store_embedding_effect [OF tx]
  have "ids_step E db (?db1\<lparr>gd_records := R\<rparr>)" using stage_ids_same [OF step] by simp
  then obtain m' where "at_stage E (?db1\<lparr>gd_records := R\<rparr>) (?f r) m'" "rec_key m' = rec_key m"
    using at_stage_step [OF assms(1) step, of "?f r"] u by (auto simp: run_key_def)
  with tx show ?thesis
    by (intro exI [of _ "?db1\<lparr>gd_records := R\<rparr>"] exI [of _ "?f r"] exI [of _ m']) (simp add: run_key_def)
qed

text \<open>The attempt number of an extraction is above those stored for the run.\<close>

lemma fold_max_ge: "(n :: int) \<le> fold max ns n \<and> (\<forall>k \<in> set ns. k \<le> fold max ns n)"
proof (induction ns arbitrary: n)
  case (Cons k ns)
  show ?case using Cons.IH [of "max k n"] by auto
qed simp

lemma next_attempt_above:
  assumes "x \<in> set (gd_extractions db)" "xr_ingestion_run_id x = rid" "xr_memory_space_id x = sid"
  shows "xr_attempt_number x < next_attempt_number rid sid db"
proof -
  let ?ns = "map xr_attempt_number (filter (\<lambda>x. xr_ingestion_run_id x = rid \<and> xr_memory_space_id x = sid) (gd_extractions db))"
  have mem: "xr_attempt_number x \<in> set ?ns" using assms by simp
  show ?thesis
  proof (cases ?ns)
    case Nil
    then show ?thesis using mem by (simp only: Nil list.set empty_iff)
  next
    case (Cons n ns)
    then have "next_attempt_number rid sid db = fold max ns n + 1" by (simp only: next_attempt_number_def list.case)
    moreover have "xr_attempt_number x = n \<or> xr_attempt_number x \<in> set ns" using mem by (simp only: Cons list.set insert_iff)
    ultimately show ?thesis using fold_max_ge [of n ns] by auto
  qed
qed

lemma claim_extraction_succeeds:
  assumes "at_stage E db r m" "run_status r = RUNNING" "run_stage r = EXTRACTION"
    "g_from_str E (rec_metadata_json m) = Inr md"
  shows "\<exists>c db' r' m'. claim_extraction_run_tx E now (run_id r) db = Inr (c, db') \<and> at_stage E db' r' m'
    \<and> rec_key m' = rec_key m \<and> run_key r' = run_key r \<and> run_status r' = RUNNING \<and> run_stage r' = EXTRACTING
    \<and> cx_memory_space_id c = run_memory_space_id r \<and> cx_text c = rec_text m
    \<and> cx_attempt_count c = run_attempt_count r'
    \<and> cx_extraction_attempt_number c = next_attempt_number (run_id r) (run_memory_space_id r) db'"
proof -
  let ?P = "\<lambda>x. run_id x = run_id r \<and> run_status x = RUNNING \<and> run_stage x = EXTRACTION
           \<and> run_attempt_count x = run_attempt_count r"
  let ?f = "\<lambda>x. x\<lparr>run_stage := EXTRACTING, run_updated_at_ms := now\<rparr>"
  let ?db = "db\<lparr>gd_runs := update_where ?P ?f (gd_runs db)\<rparr>"
  have u: "update_one_run ?P ?f ''failed to claim extraction run'' db = Inr ?db
      \<and> ?f r \<in> set (update_where ?P ?f (gd_runs db))"
    by (rule at_stage_update [OF assms(1)]) (use assms(2,3) in simp_all)
  let ?c = "\<lparr>cx_ingestion_run_id = run_id r, cx_memory_space_id = run_memory_space_id r,
             cx_memory_record_id = run_memory_record_id r, cx_text = rec_text m,
             cx_metadata = md, cx_attempt_count = run_attempt_count r,
             cx_extraction_attempt_number = next_attempt_number (run_id r) (run_memory_space_id r) ?db,
             cx_context_record_ids = [run_memory_record_id r]\<rparr>"
  have tx: "claim_extraction_run_tx E now (run_id r) db = Inr (?c, ?db)"
    using u assms(2-4) by (simp add: claim_extraction_run_tx_def at_stage_joined [OF assms(1)] parse_json_def)
  note step = claim_extraction_effect [OF tx]
  have "ids_step E db ?db" using stage_ids_same [OF step] by simp
  then obtain m' where "at_stage E ?db (?f r) m'" "rec_key m' = rec_key m"
    using at_stage_step [OF assms(1) step, of "?f r"] u by (auto simp: run_key_def)
  then show ?thesis using tx assms(2)
    by (intro exI [of _ ?c] exI [of _ ?db] exI [of _ "?f r"] exI [of _ m']) (simp add: run_key_def)
qed

lemma store_success_succeeds:
  assumes "at_stage E db r m" "run_status r = RUNNING" "run_stage r = EXTRACTING"
    "xp_ingestion_run_id c = run_id r" "xp_memory_space_id c = run_memory_space_id r"
    "xp_attempt_count c = run_attempt_count r"
    "xp_attempt_number c = next_attempt_number (run_id r) (run_memory_space_id r) db"
  shows "\<exists>x db' r' m'. store_extraction_success_tx E now c db = Inr (x, db') \<and> at_stage E db' r' m'
    \<and> rec_key m' = rec_key m \<and> run_key r' = run_key r \<and> run_status r' = RUNNING \<and> run_stage r' = RESOLUTION
    \<and> xr_structured_output x = Some (xp_structured_output c) \<and> xr_status x = COMPLETED
    \<and> xr_ingestion_run_id x = run_id r \<and> xr_memory_space_id x = run_memory_space_id r \<and> x \<in> set (gd_extractions db')
    \<and> (\<forall>y \<in> set (gd_extractions db'). xr_ingestion_run_id y = run_id r \<and> xr_memory_space_id y = run_memory_space_id r
        \<and> y \<noteq> x \<longrightarrow> xr_attempt_number y < xr_attempt_number x)"
proof -
  let ?x = "\<lparr>xr_id = g_uuid_v4 E (gd_ids db), xr_memory_space_id = xp_memory_space_id c,
               xr_ingestion_run_id = xp_ingestion_run_id c, xr_attempt_number = xp_attempt_number c,
               xr_status = COMPLETED, xr_extractor_name = xp_extractor_name c, xr_model = xp_model c,
               xr_prompt_version = xp_prompt_version c, xr_schema_version = xp_schema_version c,
               xr_type_registry_version = xp_type_registry_version c,
               xr_context_record_ids = xp_context_record_ids c,
               xr_structured_output = Some (xp_structured_output c),
               xr_input_tokens = xp_input_tokens c, xr_output_tokens = xp_output_tokens c,
               xr_latency_ms = xp_latency_ms c, xr_error_code = None, xr_error_message = None,
               xr_created_at_ms = now, xr_completed_at_ms = Some now\<rparr>"
  let ?db1 = "db\<lparr>gd_ids := Suc (gd_ids db), gd_extractions := gd_extractions db @ [?x]\<rparr>"
  let ?f = "\<lambda>x. x\<lparr>run_stage := RESOLUTION, run_updated_at_ms := now\<rparr>"
  let ?R = "update_where (extraction_current c) ?f (gd_runs db)"
  have "g_uuid_v4 E (gd_ids db) \<notin> drawn E db" using assms(1) by (auto simp: at_stage_def drawn_def dest: injD)
  moreover have "xr_id ` set (gd_extractions db) \<subseteq> drawn E db"
    using assms(1) by (simp add: at_stage_def ids_ok_def all_ids_def)
  ultimately have "g_uuid_v4 E (gd_ids db) \<notin> xr_id ` set (gd_extractions db)" by (metis subsetD)
  moreover have above: "xr_attempt_number y < xp_attempt_number c"
    if "y \<in> set (gd_extractions db)" "xr_ingestion_run_id y = run_id r" "xr_memory_space_id y = run_memory_space_id r" for y
    using next_attempt_above [OF that] assms(7) by simp
  moreover have "\<forall>y \<in> set (gd_extractions db). \<not> (xr_memory_space_id y = run_memory_space_id r
      \<and> xr_ingestion_run_id y = run_id r \<and> xr_attempt_number y = xp_attempt_number c)"
    using above by (metis less_irrefl)
  moreover have "run_exists (run_id r) (run_memory_space_id r) (db\<lparr>gd_ids := Suc (gd_ids db)\<rparr>)"
    using assms(1) by (auto simp: at_stage_def run_exists_def)
  ultimately have i: "insert_extraction_run E ?x (db\<lparr>gd_ids := Suc (gd_ids db)\<rparr>) = Inr ?db1"
    using assms(4,5) by (simp add: insert_extraction_run_def)
  have u: "update_one_run (extraction_current c) ?f msg db = Inr (db\<lparr>gd_runs := ?R\<rparr>) \<and> ?f r \<in> set ?R" for msg
    by (rule at_stage_update [OF assms(1)]) (use assms(2-6) in \<open>simp_all add: extraction_current_def\<close>)
  then have u1: "update_one_run (extraction_current c) ?f msg ?db1 = Inr (?db1\<lparr>gd_runs := ?R\<rparr>)" for msg
    by (simp add: update_one_run_Inr)
  have tx: "store_extraction_success_tx E now c db = Inr (?x, ?db1\<lparr>gd_runs := ?R\<rparr>)"
    using i u1 by (simp add: store_extraction_success_tx_def new_v4_def Let_def)
  note step = store_extraction_success_effect [OF tx]
  have "ids_step E db (?db1\<lparr>gd_runs := ?R\<rparr>)" by (rule extraction_step_ids [OF step extraction_ids(1) [OF tx]])
  then obtain m' where m': "at_stage E (?db1\<lparr>gd_runs := ?R\<rparr>) (?f r) m'" "rec_key m' = rec_key m"
    using at_stage_step [OF assms(1) step, of "?f r"] u by (auto simp: run_key_def)
  have last: "\<forall>y \<in> set (gd_extractions (?db1\<lparr>gd_runs := ?R\<rparr>)). xr_ingestion_run_id y = run_id r
      \<and> xr_memory_space_id y = run_memory_space_id r \<and> y \<noteq> ?x \<longrightarrow> xr_attempt_number y < xr_attempt_number ?x"
    using above by auto
  show ?thesis
    by (rule exI [of _ ?x], rule exI [of _ "?db1\<lparr>gd_runs := ?R\<rparr>"], rule exI [of _ "?f r"], rule exI [of _ m'],
        intro conjI, rule tx, rule m', rule m', simp add: run_key_def, simp add: assms(2), simp, simp, simp,
        simp add: assms(4), simp add: assms(5), simp, rule last)
qed

text \<open>The extraction that a resolution takes is the last one.\<close>

lemma last_sort_key:
  fixes f :: "'a \<Rightarrow> int"
  assumes "x \<in> set xs" "\<And>y. y \<in> set xs \<Longrightarrow> y \<noteq> x \<Longrightarrow> f y < f x"
  shows "\<exists>ys. rev (sort_key f xs) = x # ys"
proof -
  have s: "sorted (map f (sort_key f xs))" by simp
  have x: "x \<in> set (sort_key f xs)" using assms(1) by simp
  then obtain ys y where ys: "sort_key f xs = ys @ [y]" by (cases "sort_key f xs" rule: rev_cases) auto
  have "f x \<le> f y" using s x by (auto simp: ys sorted_append)
  moreover have "y \<in> set xs" using ys by (metis in_set_conv_decomp set_sort)
  ultimately have "y = x" using assms(2) by force
  then show ?thesis by (simp add: ys)
qed

lemma claim_resolution_succeeds:
  assumes "at_stage E db r m" "run_status r = RUNNING" "run_stage r = RESOLUTION"
    "g_from_str E (rec_metadata_json m) = Inr md"
    "x \<in> set (gd_extractions db)" "xr_status x = COMPLETED" "xr_ingestion_run_id x = run_id r"
    "xr_memory_space_id x = run_memory_space_id r" "xr_structured_output x = Some v"
    "\<forall>y \<in> set (gd_extractions db). xr_ingestion_run_id y = run_id r \<and> xr_memory_space_id y = run_memory_space_id r
        \<and> y \<noteq> x \<longrightarrow> xr_attempt_number y < xr_attempt_number x"
    "oc_read C (g_to_string E v) = Inr out"
  shows "\<exists>c db' r' m'. claim_resolution_run_sync E C now (run_id r) db = (Inr c, db') \<and> at_stage E db' r' m'
    \<and> rec_key m' = rec_key m \<and> run_key r' = run_key r \<and> run_status r' = RUNNING \<and> run_stage r' = RESOLVING
    \<and> cr_ingestion_run_id c = run_id r \<and> cr_memory_space_id c = run_memory_space_id r \<and> cr_memory_record_id c = rec_id m
    \<and> cr_text c = rec_text m \<and> cr_metadata c = md \<and> cr_attempt_count c = run_attempt_count r'
    \<and> cr_extraction_run_id c = xr_id x \<and> cr_extraction_output c = out \<and> gd_extractions db' = gd_extractions db"
proof -
  let ?P = "\<lambda>y. run_id y = run_id r \<and> run_memory_space_id y = run_memory_space_id r
                \<and> run_status y = RUNNING \<and> run_stage y = RESOLUTION
                \<and> run_attempt_count y = run_attempt_count r"
  let ?f = "\<lambda>x. x\<lparr>run_stage := RESOLVING, run_updated_at_ms := now\<rparr>"
  let ?db = "db\<lparr>gd_runs := update_where ?P ?f (gd_runs db)\<rparr>"
  have u: "update_one_run ?P ?f ''failed to claim resolution run'' db = Inr ?db
      \<and> ?f r \<in> set (update_where ?P ?f (gd_runs db))"
    by (rule at_stage_update [OF assms(1)]) (use assms(2,3) in simp_all)
  obtain ys where ys: "completed_extractions (run_id r) (run_memory_space_id r) db = x # ys"
    unfolding completed_extractions_def
    using last_sort_key [of x "filter (\<lambda>x. xr_ingestion_run_id x = run_id r \<and> xr_memory_space_id x = run_memory_space_id r
      \<and> xr_status x = COMPLETED) (gd_extractions db)" xr_attempt_number] assms(5-8,10) by auto
  have "\<exists>rs. joined_runs (run_id r) db = (r, m) # rs"
    using at_stage_joined [OF assms(1), of E] by (auto simp: query_row_def split: list.splits)
  then have rows: "query_row E (resolution_rows (run_id r) db) = Inr (r, m, x)"
    using ys by (auto simp: resolution_rows_def query_row_def)
  have ref: "run_memory_record_id r = rec_id m" using assms(1) by (simp add: at_stage_def record_ref_def run_record_def)
  let ?c = "\<lparr>cr_ingestion_run_id = run_id r, cr_memory_space_id = run_memory_space_id r,
              cr_memory_record_id = run_memory_record_id r, cr_text = rec_text m, cr_metadata = md,
              cr_attempt_count = run_attempt_count r, cr_extraction_run_id = xr_id x,
              cr_extraction_output = out\<rparr>"
  have tx: "claim_resolution_run_sync E C now (run_id r) db = (Inr ?c, ?db)"
    using rows u assms(2-4,9,11)
    by (simp add: claim_resolution_run_sync_def transaction_def claim_resolution_run_tx_def parse_json_def)
  note step = claim_resolution_effect [OF tx]
  have "ids_step E db ?db" using stage_ids_same [OF step] by simp
  then obtain m' where m': "at_stage E ?db (?f r) m'" "rec_key m' = rec_key m"
    using at_stage_step [OF assms(1) step, of "?f r"] u by (auto simp: run_key_def)
  show ?thesis
    by (rule exI [of _ ?c], rule exI [of _ ?db], rule exI [of _ "?f r"], rule exI [of _ m'])
       (simp add: tx m' run_key_def assms(2) ref)
qed


section \<open>The pipeline\<close>

text \<open>No fault of the database, an embedder that embeds, an extractor that answers the text acceptably, a
  codec that reads what it writes, random identifiers without a collision.\<close>

definition providers_work :: "genv \<Rightarrow> output_codec \<Rightarrow> GraphBuildPipeline \<Rightarrow> str \<Rightarrow> bool" where
  "providers_work E C p s \<longleftrightarrow> (\<forall>n. g_fault E n = None) \<and> inj (g_uuid_v4 E)
     \<and> (\<forall>n t. \<exists>v. ep_embed_one (bp_embedder p) n t = Inr v)
     \<and> (\<forall>n i. gi_text i = s \<longrightarrow> (\<exists>out. gx_extract (bp_extractor p) n i = Inr out
           \<and> validate_against_record E (bp_registry p) s out = Inr ()
           \<and> oc_read C (g_to_string E (oc_value C out)) = Inr out))"

definition next_op :: "GraphDb \<Rightarrow> GraphRepository \<Rightarrow> GraphRepository" where
  "next_op db s = s\<lparr>repo_ops := Suc (repo_ops s), repo_db := db\<rparr>"

lemma next_op_simps [simp]: "repo_db (next_op db s) = db"
  by (simp add: next_op_def)

lemma run_operation:
  assumes "providers_work E C p w" "t (g_now E (repo_ops s)) (repo_db s) = Inr (a, db)"
  shows "run_sqlite_operation E (\<lambda>now. transaction (t now)) s = (Inr a, next_op db s)"
  using assms by (simp add: run_sqlite_operation_def Let_def transaction_def providers_work_def next_op_def)

lemma vector_stage_succeeds:
  assumes "providers_work E C p w" "at_stage E (repo_db s) r m" "run_status r = PENDING"
  shows "\<exists>s' r' m'. process_vector_stage E (bp_embedder p) (run_id r) s = (Inr (), s') \<and> at_stage E (repo_db s') r' m'
    \<and> rec_key m' = rec_key m \<and> run_key r' = run_key r \<and> run_status r' = RUNNING \<and> run_stage r' = EXTRACTION"
proof -
  obtain c db1 r1 m1 where c: "claim_pending_run_tx E (g_now E (repo_ops s)) (run_id r) (repo_db s) = Inr (c, db1)"
    "at_stage E db1 r1 m1" "rec_key m1 = rec_key m" "run_key r1 = run_key r" "run_status r1 = RUNNING"
    "run_stage r1 = EMBEDDING" "ci_attempt_count c = run_attempt_count r1" "ci_memory_record_id c = rec_id m"
    "ci_memory_space_id c = rec_memory_space_id m"
    using claim_succeeds [OF assms(2,3)] by blast
  have claim: "claim_pending_run E (run_id r) s = (Inr c, next_op db1 s)"
    unfolding claim_pending_run_def by (rule run_operation [OF assms(1)]) (rule c)
  obtain v where v: "ep_embed_one (bp_embedder p) (repo_ops (next_op db1 s)) (ci_text c) = Inr v"
    using assms(1) unfolding providers_work_def by blast
  let ?u = "embedding_update (bp_embedder p) (run_id r) c v"
  have pre: "eu_ingestion_run_id ?u = run_id r1" "eu_memory_record_id ?u = rec_id m1"
    "eu_memory_space_id ?u = rec_memory_space_id m1" "eu_attempt_count ?u = run_attempt_count r1"
    using c(3,4,7-9) by (simp_all add: embedding_update_def rec_key_def run_key_def)
  obtain db2 r2 m2 where u: "store_record_embedding_tx (g_now E (repo_ops (next_op db1 s))) ?u db1 = Inr ((), db2)"
    "at_stage E db2 r2 m2" "rec_key m2 = rec_key m1" "run_key r2 = run_key r1" "run_status r2 = RUNNING"
    "run_stage r2 = EXTRACTION"
    using embed_succeeds [OF c(2,5,6) pre] by blast
  have "store_record_embedding E ?u (next_op db1 s) = (Inr (), next_op db2 (next_op db1 s))"
    unfolding store_record_embedding_def by (rule run_operation [OF assms(1)]) (simp add: u(1))
  then have "process_vector_stage E (bp_embedder p) (run_id r) s = (Inr (), next_op db2 (next_op db1 s))"
    using claim v by (simp add: process_vector_stage_def)
  then show ?thesis using u(2-6) c(3,4) by (metis next_op_simps)
qed

lemma extraction_stage_succeeds:
  assumes "providers_work E C p (rec_text m)" "at_stage E (repo_db s) r m" "run_status r = RUNNING" "run_stage r = EXTRACTION"
    "g_from_str E (rec_metadata_json m) = Inr md"
  shows "\<exists>x s' r' m' v out. process_extraction_stage E C (bp_extractor p) (bp_registry p) (run_id r) s = (Inr x, s')
    \<and> at_stage E (repo_db s') r' m' \<and> rec_key m' = rec_key m \<and> run_key r' = run_key r
    \<and> run_status r' = RUNNING \<and> run_stage r' = RESOLUTION
    \<and> x \<in> set (gd_extractions (repo_db s')) \<and> xr_status x = COMPLETED \<and> xr_ingestion_run_id x = run_id r
    \<and> xr_memory_space_id x = run_memory_space_id r \<and> xr_structured_output x = Some v
    \<and> (\<forall>y \<in> set (gd_extractions (repo_db s')). xr_ingestion_run_id y = run_id r \<and> xr_memory_space_id y = run_memory_space_id r
        \<and> y \<noteq> x \<longrightarrow> xr_attempt_number y < xr_attempt_number x)
    \<and> oc_read C (g_to_string E v) = Inr out \<and> validate_against_record E (bp_registry p) (rec_text m) out = Inr ()"
proof -
  obtain c db1 r1 m1 where c: "claim_extraction_run_tx E (g_now E (repo_ops s)) (run_id r) (repo_db s) = Inr (c, db1)"
    "at_stage E db1 r1 m1" "rec_key m1 = rec_key m" "run_key r1 = run_key r" "run_status r1 = RUNNING"
    "run_stage r1 = EXTRACTING" "cx_memory_space_id c = run_memory_space_id r" "cx_text c = rec_text m"
    "cx_attempt_count c = run_attempt_count r1"
    "cx_extraction_attempt_number c = next_attempt_number (run_id r) (run_memory_space_id r) db1"
    using claim_extraction_succeeds [OF assms(2-5)] by blast
  let ?s1 = "next_op db1 s"
  have claim: "claim_extraction_run E (run_id r) s = (Inr c, ?s1)"
    unfolding claim_extraction_run_def by (rule run_operation [OF assms(1)]) (rule c)
  have same_text: "gi_text (extraction_input (bp_registry p) c) = rec_text m" "cx_text c = rec_text m"
    using c(8) by (simp_all add: extraction_input_def)
  then obtain out where out: "gx_extract (bp_extractor p) (repo_ops ?s1) (extraction_input (bp_registry p) c) = Inr out"
    "validate_against_record E (bp_registry p) (rec_text m) out = Inr ()"
    "oc_read C (g_to_string E (oc_value C out)) = Inr out"
    using assms(1) unfolding providers_work_def by blast
  let ?x = "extraction_completion E C (bp_extractor p) (bp_registry p) (run_id r) c out (repo_ops ?s1)"
  have keys: "run_id r1 = run_id r" "run_memory_space_id r1 = run_memory_space_id r"
    using c(4) by (simp_all add: run_key_def)
  obtain x db2 r2 m2 where x: "store_extraction_success_tx E (g_now E (repo_ops ?s1)) ?x db1 = Inr (x, db2)"
    "at_stage E db2 r2 m2" "rec_key m2 = rec_key m1" "run_key r2 = run_key r1" "run_status r2 = RUNNING"
    "run_stage r2 = RESOLUTION" "xr_structured_output x = Some (xp_structured_output ?x)" "xr_status x = COMPLETED"
    "xr_ingestion_run_id x = run_id r1" "xr_memory_space_id x = run_memory_space_id r1" "x \<in> set (gd_extractions db2)"
    "\<forall>y \<in> set (gd_extractions db2). xr_ingestion_run_id y = run_id r1 \<and> xr_memory_space_id y = run_memory_space_id r1
        \<and> y \<noteq> x \<longrightarrow> xr_attempt_number y < xr_attempt_number x"
    using store_success_succeeds [OF c(2,5,6), of ?x "g_now E (repo_ops ?s1)"] c(7,9,10) keys
    by (simp add: extraction_completion_def) blast
  have "store_extraction_success E ?x ?s1 = (Inr x, next_op db2 ?s1)"
    unfolding store_extraction_success_def by (rule run_operation [OF assms(1)]) (simp add: x(1))
  then have "process_extraction_stage E C (bp_extractor p) (bp_registry p) (run_id r) s = (Inr x, next_op db2 ?s1)"
    using claim out same_text by (simp add: process_extraction_stage_def)
  moreover have "oc_read C (g_to_string E (xp_structured_output ?x)) = Inr out"
    using out(3) by (simp add: extraction_completion_def)
  ultimately show ?thesis
    using x(2-12) c(3,4) out(2) same_text keys
    by (intro exI [of _ x] exI [of _ "next_op db2 ?s1"] exI [of _ r2] exI [of _ m2] exI [of _ "xp_structured_output ?x"]
        exI [of _ out]) simp
qed

lemma resolution_stage_succeeds:
  assumes "providers_work E C p w" "at_stage E (repo_db s) r m" "run_status r = RUNNING" "run_stage r = RESOLUTION"
    "g_from_str E (rec_metadata_json m) = Inr md" "source_entity_from_metadata md (bp_registry p) = Inr se"
    "x \<in> set (gd_extractions (repo_db s))" "xr_status x = COMPLETED" "xr_ingestion_run_id x = run_id r"
    "xr_memory_space_id x = run_memory_space_id r" "xr_structured_output x = Some v"
    "\<forall>y \<in> set (gd_extractions (repo_db s)). xr_ingestion_run_id y = run_id r \<and> xr_memory_space_id y = run_memory_space_id r
        \<and> y \<noteq> x \<longrightarrow> xr_attempt_number y < xr_attempt_number x"
    "oc_read C (g_to_string E v) = Inr out" "validate_against_record E (bp_registry p) (rec_text m) out = Inr ()"
  shows "\<exists>res s'. process_resolution_stage E C (bp_registry p) (run_id r) s = (Inr res, s')
    \<and> run_id (fst res) = run_id r \<and> run_status (fst res) = COMPLETED \<and> fst res \<in> set (gd_runs (repo_db s'))"
proof -
  let ?t = "g_now E (repo_ops s)"
  obtain c db1 r1 m1 where c: "claim_resolution_run_sync E C ?t (run_id r) (repo_db s) = (Inr c, db1)"
    "at_stage E db1 r1 m1" "rec_key m1 = rec_key m" "run_key r1 = run_key r" "run_status r1 = RUNNING" "run_stage r1 = RESOLVING"
    "cr_ingestion_run_id c = run_id r" "cr_memory_space_id c = run_memory_space_id r" "cr_memory_record_id c = rec_id m"
    "cr_text c = rec_text m" "cr_metadata c = md" "cr_attempt_count c = run_attempt_count r1"
    "cr_extraction_run_id c = xr_id x" "cr_extraction_output c = out" "gd_extractions db1 = gd_extractions (repo_db s)"
    using claim_resolution_succeeds [OF assms(2-5,7-13), of ?t] by blast
  let ?s1 = "next_op db1 s"
  have claim: "claim_resolution_run E C (run_id r) s = (Inr c, ?s1)"
    using c(1) assms(1) by (simp add: claim_resolution_run_def run_sqlite_operation_def Let_def next_op_def providers_work_def)
  let ?q = "publish_request (bp_registry p) c se"
  have q: "pq_ingestion_run_id ?q = run_id r1" "pq_memory_space_id ?q = run_memory_space_id r1"
    "pq_memory_record_id ?q = rec_id m1" "pq_memory_space_id ?q = rec_memory_space_id m1"
    "pq_attempt_count ?q = run_attempt_count r1" "pq_extraction_run_id ?q = xr_id x" "pq_extraction_output ?q = out"
    using c(3,4,7-14) assms(2) by (auto simp: publish_request_def run_key_def rec_key_def at_stage_def record_ref_def run_record_def)
  have at: "r1 \<in> set (gd_runs db1)" "m1 \<in> set (gd_records db1)" "accepted_ok db1" "graph_ok db1" "ids_ok E db1"
    "inj (g_uuid_v4 E)"
    using c(2) by (simp_all add: at_stage_def)
  have "rec_memory_space_id m1 \<in> ms_id ` set (gd_spaces db1)"
    using at(2,3) by (auto simp: accepted_ok_def)
  then have ready: "ready E ?q db1"
    unfolding ready_def using at q assms(7) c(15) by (auto simp: record_exists_def run_exists_def)
  have "run_published ?q r1" using q c(5,6) by (simp add: run_published_def)
  then obtain res db2 where res: "publish_resolution_tx E (g_now E (repo_ops ?s1)) ?q db1 = Inr (res, db2)"
    "run_id (fst res) = pq_ingestion_run_id ?q" "run_status (fst res) = COMPLETED" "fst res \<in> set (gd_runs db2)"
    using publish_succeeds [OF ready _ at(3,1), of "bp_registry p" "rec_text m" "()"] assms(14) q(7) by fastforce
  have "publish_resolution E ?q ?s1 = (Inr res, next_op db2 ?s1)"
    unfolding publish_resolution_def by (rule run_operation [OF assms(1)]) (simp add: res(1))
  then have "process_resolution_stage E C (bp_registry p) (run_id r) s = (Inr res, next_op db2 ?s1)"
    using claim c(10,11,14) assms(6,14) by (simp add: process_resolution_stage_def)
  moreover have "run_id (fst res) = run_id r" using res(2) c(7) by (simp add: publish_request_def)
  ultimately show ?thesis using res(3,4) by auto
qed


text \<open>What a resume needs: the run of the request, with its record.\<close>

definition resumable :: "genv \<Rightarrow> GraphAddMemoryRequest \<Rightarrow> IngestionRun \<Rightarrow> GraphMemoryRow \<Rightarrow> GraphDb \<Rightarrow> bool" where
  "resumable E q r m db \<longleftrightarrow> r \<in> set (gd_runs db) \<and> run_status r \<noteq> COMPLETED
     \<and> request_key r = (rq_memory_space_id q, rq_idempotency_key q) \<and> run_input_hash r = input_hash E q
     \<and> (rq_memory_space_id q, rq_owner_id q) \<in> space_key ` set (gd_spaces db) \<and> trim (rq_text q) \<noteq> []
     \<and> m \<in> set (gd_records db) \<and> record_ref m = run_record r"

lemma reset_succeeds:
  assumes "at_stage E db r m" "run_state_ok r" "run_status r \<noteq> COMPLETED"
  shows "\<exists>db' r' m'. reset_incomplete_run_for_resume_tx E now (run_id r) (run_memory_space_id r) db = Inr (PENDING, db')
    \<and> at_stage E db' r' m' \<and> rec_key m' = rec_key m \<and> run_key r' = run_key r \<and> run_status r' = PENDING"
proof -
  have r: "accepted_ok db" "r \<in> set (gd_runs db)" using assms(1) by (simp_all add: at_stage_def)
  have row: "query_row E (filter (\<lambda>x. run_id x = run_id r \<and> run_memory_space_id x = run_memory_space_id r) (gd_runs db)) = Inr r"
    by (rule query_row_only) (use r runs_records_distinct(1) [OF r(1) _ r(2)] in auto)
  show ?thesis
  proof (cases "run_status r = PENDING")
    case True
    then have "reset_incomplete_run_for_resume_tx E now (run_id r) (run_memory_space_id r) db = Inr (PENDING, db)"
      using row by (simp add: reset_incomplete_run_for_resume_tx_def Let_def)
    then show ?thesis using assms(1) True by blast
  next
    case False
    then have st: "run_status r = FAILED \<or> run_status r = RUNNING" using assms(2,3) by (auto simp: run_state_ok_def)
    let ?P = "\<lambda>x. run_id x = run_id r \<and> run_memory_space_id x = run_memory_space_id r \<and> run_status x = run_status r"
    let ?f = "\<lambda>x. x\<lparr>run_status := PENDING, run_stage := ACCEPTED, run_error_code := None,
                  run_error_message := None, run_updated_at_ms := now, run_completed_at_ms := None\<rparr>"
    let ?db = "db\<lparr>gd_runs := update_where ?P ?f (gd_runs db)\<rparr>"
    have u: "update_one_run ?P ?f ''failed to reset incomplete graph ingestion run'' db = Inr ?db
        \<and> ?f r \<in> set (update_where ?P ?f (gd_runs db))"
      by (rule at_stage_update [OF assms(1)]) simp_all
    have tx: "reset_incomplete_run_for_resume_tx E now (run_id r) (run_memory_space_id r) db = Inr (PENDING, ?db)"
      using row u st False assms(3) by (simp add: reset_incomplete_run_for_resume_tx_def Let_def)
    note step = reset_effect [OF tx]
    have "ids_step E db ?db" using stage_ids_same [OF step] by simp
    then obtain m' where "at_stage E ?db (?f r) m'" "rec_key m' = rec_key m"
      using at_stage_step [OF assms(1) step, of "?f r"] u by (auto simp: run_key_def)
    then show ?thesis using tx
      by (intro exI [of _ ?db] exI [of _ "?f r"] exI [of _ m']) (simp add: run_key_def)
  qed
qed

lemma build_succeeds:
  assumes "providers_work E C p (rec_text m)" "at_stage E (repo_db s) r m" "run_status r = PENDING"
    "g_from_str E (rec_metadata_json m) = Inr md" "source_entity_from_metadata md (bp_registry p) = Inr se"
    "rs_ingestion_run_id a = run_id r"
  shows "\<exists>res s'. build_accepted_memory E C p a s = (Inr res, s') \<and> run_id (br_ingestion_run res) = run_id r
    \<and> run_status (br_ingestion_run res) = COMPLETED \<and> br_ingestion_run res \<in> set (gd_runs (repo_db s'))"
proof -
  obtain s1 r1 m1 where v: "process_vector_stage E (bp_embedder p) (run_id r) s = (Inr (), s1)" "at_stage E (repo_db s1) r1 m1"
    "rec_key m1 = rec_key m" "run_key r1 = run_key r" "run_status r1 = RUNNING" "run_stage r1 = EXTRACTION"
    using vector_stage_succeeds [OF assms(1-3)] by blast
  have i1: "run_id r1 = run_id r" "rec_metadata_json m1 = rec_metadata_json m" using v(3,4) by (simp_all add: run_key_def rec_key_def)
  have w1: "providers_work E C p (rec_text m1)" using assms(1) v(3) by (simp add: rec_key_def)
  obtain x s2 r2 m2 w out where e: "process_extraction_stage E C (bp_extractor p) (bp_registry p) (run_id r1) s1 = (Inr x, s2)"
    "at_stage E (repo_db s2) r2 m2" "rec_key m2 = rec_key m1" "run_key r2 = run_key r1" "run_status r2 = RUNNING"
    "run_stage r2 = RESOLUTION" "x \<in> set (gd_extractions (repo_db s2))" "xr_status x = COMPLETED" "xr_ingestion_run_id x = run_id r1"
    "xr_memory_space_id x = run_memory_space_id r1" "xr_structured_output x = Some w"
    "\<forall>y \<in> set (gd_extractions (repo_db s2)). xr_ingestion_run_id y = run_id r1 \<and> xr_memory_space_id y = run_memory_space_id r1
        \<and> y \<noteq> x \<longrightarrow> xr_attempt_number y < xr_attempt_number x"
    "oc_read C (g_to_string E w) = Inr out" "validate_against_record E (bp_registry p) (rec_text m1) out = Inr ()"
    using extraction_stage_succeeds [OF w1 v(2,5,6), of md] assms(4) i1 by auto
  have i2: "run_id r2 = run_id r1" "run_memory_space_id r2 = run_memory_space_id r1" "rec_metadata_json m2 = rec_metadata_json m"
    "rec_text m2 = rec_text m1"
    using e(3,4) v(3) by (simp_all add: run_key_def rec_key_def)
  obtain res s3 where f: "process_resolution_stage E C (bp_registry p) (run_id r2) s2 = (Inr res, s3)"
    "run_id (fst res) = run_id r2" "run_status (fst res) = COMPLETED" "fst res \<in> set (gd_runs (repo_db s3))"
    using resolution_stage_succeeds [OF assms(1) e(2,5,6) _ assms(5) e(7,8), of w out] assms(4) e(9-14) i2 by auto
  show ?thesis
    using v(1) e(1) f i1 i2 assms(6) by (simp add: build_accepted_memory_def)
qed

lemma resume_succeeds:
  assumes "graph_reachable E C reg (repo_db s, cs)" "providers_work E C p (rec_text m)" "resumable E q r m (repo_db s)"
    "g_from_str E (rec_metadata_json m) = Inr md" "source_entity_from_metadata md (bp_registry p) = Inr se"
  shows "\<exists>res s'. resume_memory E C p q s = (Inr (Some res), s') \<and> run_id (br_ingestion_run res) = run_id r
    \<and> run_status (br_ingestion_run res) = COMPLETED \<and> br_ingestion_run res \<in> set (gd_runs (repo_db s'))"
proof -
  let ?db = "repo_db s"
  have q: "r \<in> set (gd_runs ?db)" "run_status r \<noteq> COMPLETED" "request_key r = (rq_memory_space_id q, rq_idempotency_key q)"
    "run_input_hash r = input_hash E q" "trim (rq_text q) \<noteq> []" "m \<in> set (gd_records ?db)" "record_ref m = run_record r"
    using assms(3) by (simp_all add: resumable_def)
  obtain sp where sp: "sp \<in> set (gd_spaces ?db)" "space_key sp = (rq_memory_space_id q, rq_owner_id q)"
    using assms(3) by (auto simp: resumable_def)
  note ok = reachable_ok [OF assms(1)]
  let ?a = "\<lparr>rs_memory_record_id = run_memory_record_id r, rs_ingestion_run_id = run_id r,
           rs_status = run_status r, rs_vector_ready = False, rs_graph_ready = False\<rparr>"
  have "accept_memory_record_tx E (g_now E (repo_ops s)) q ?db = Inr (?a, ?db)"
    using accept_known [OF ok(1) sp q(1,3), of E] q(4) by simp
  then have accept: "accept_memory_record E q s = (Inr ?a, next_op ?db s)"
    using q(5) run_operation [OF assms(2), of "\<lambda>now. accept_memory_record_tx E now q"]
    by (simp add: accept_memory_record_def)
  have at: "at_stage E ?db r m"
    using assms(2) ok(1) q(1,6,7) reachable_graph_ok [OF assms(1)] reachable_ids [OF assms(1)]
    by (simp add: at_stage_def providers_work_def)
  have sid: "rq_memory_space_id q = run_memory_space_id r" using q(3) by (simp add: request_key_def)
  let ?s1 = "next_op ?db s"
  have "run_state_ok r" using ok(2) q(1) by (simp add: list_all_iff)
  then obtain db1 r1 m1 where reset: "reset_incomplete_run_for_resume_tx E (g_now E (repo_ops ?s1)) (run_id r)
      (run_memory_space_id r) ?db = Inr (PENDING, db1)"
    "at_stage E db1 r1 m1" "rec_key m1 = rec_key m" "run_key r1 = run_key r" "run_status r1 = PENDING"
    using reset_succeeds [OF at _ q(2)] by blast
  have "reset_incomplete_run_for_resume E (run_id r) (rq_memory_space_id q) ?s1 = (Inr PENDING, next_op db1 ?s1)"
    unfolding reset_incomplete_run_for_resume_def by (rule run_operation [OF assms(2)]) (simp add: reset(1) sid)
  moreover have "run_id r1 = run_id r" "rec_metadata_json m1 = rec_metadata_json m"
    using reset(3,4) by (simp_all add: run_key_def rec_key_def)
  moreover from this obtain res s' where "build_accepted_memory E C p ?a (next_op db1 ?s1) = (Inr res, s')"
    "run_id (br_ingestion_run res) = run_id r1" "run_status (br_ingestion_run res) = COMPLETED"
    "br_ingestion_run res \<in> set (gd_runs (repo_db s'))"
    using build_succeeds [of E C p m1 "next_op db1 ?s1" r1 md se ?a] assms(2) reset(2,3,5) assms(4,5) by (auto simp: rec_key_def)
  ultimately show ?thesis using accept by (simp add: resume_memory_def some_result_def)
qed

end
