(* ===== verification/GraphProps.thy ===== *)
theory GraphProps
  imports GraphPublished
begin

text \<open>
  The properties of the graph database over every interleaving of its transactions.
\<close>

text \<open>C23: In every reachable state each space numbers its records 1, 2, 3 and so on without a gap and
  will give the next number to the next record, every record has exactly one run, and no two runs of
  a space have the same idempotency key.\<close>

theorem accepted_invariant:
  assumes "graph_reachable E C reg (db, cs)"
  shows "accepted_ok db"
  by (rule reachable_ok [OF assms])

text \<open>C24: Every run is in one of the legal states (status, stage, attempts, times and error fit
  together), and a step of any worker moves it only along the legal edges: a completed run stays as it
  is and only a claim starts a new attempt.\<close>

theorem run_lifecycle:
  assumes "graph_reachable E C reg (db, cs)" "graph_step E C reg (db, cs) (db', cs')"
  shows "list_all run_state_ok (gd_runs db') \<and> runs_move (gd_runs db) (gd_runs db')"
  using step_runs [OF assms(2)] reachable_ok(2) [OF assms(1)] by simp

text \<open>C25: Whatever happens after a request was accepted, the same request is answered with the same
  record and run and changes nothing; a request that reuses its key for another input is refused.\<close>

theorem accept_idempotent:
  assumes "graph_reachable E C reg (db, cs)" "accept_memory_record_tx E now q db = Inr (a, db1)"
    "(graph_step E C reg)\<^sup>*\<^sup>* (db1, cs) (db2, cs2)"
  shows "(\<exists>st. accept_memory_record_tx E now' q db2 = Inr (a\<lparr>rs_status := st\<rparr>, db2))
    \<and> (\<forall>q'. rq_memory_space_id q' = rq_memory_space_id q \<and> rq_owner_id q' = rq_owner_id q
          \<and> rq_idempotency_key q' = rq_idempotency_key q \<and> input_hash E q' \<noteq> input_hash E q
        \<longrightarrow> accept_memory_record_tx E now' q' db2 = Inl (MInvalidInput (lit ''IDEMPOTENCY_CONFLICT'')))"
proof -
  have "graph_reachable E C reg (db2, cs2)"
    by (rule steps_reachable [OF graph_reachable.step [OF assms(1) graph_step.accept [OF assms(2)]] assms(3)])
  then have ok: "accepted_ok db2" by (rule reachable_ok)
  have k: "kept db1 db2" by (rule steps_kept [OF assms(3)])
  obtain s where s: "s \<in> set (gd_spaces db2)" "space_key s = (rq_memory_space_id q, rq_owner_id q)"
    using accepted_space [OF assms(2)] k grows_mem unfolding kept_def by metis
  obtain r where r: "r \<in> set (gd_runs db2)" "run_key r = (rs_ingestion_run_id a, rq_memory_space_id q,
      rs_memory_record_id a, rq_idempotency_key q, input_hash E q)"
    using accepted_run_row [OF assms(2)] k grows_mem unfolding kept_def by metis
  have key: "request_key r = (rq_memory_space_id q, rq_idempotency_key q)"
    using r(2) by (simp add: run_key_def request_key_def)
  have "rs_vector_ready a = False \<and> rs_graph_ready a = False"
    using assms(2) by (auto simp: accept_memory_record_tx_def insert_memory_def Let_def split: list.splits prod.splits)
  then have "a\<lparr>rs_status := run_status r\<rparr> = \<lparr>rs_memory_record_id = run_memory_record_id r,
      rs_ingestion_run_id = run_id r, rs_status = run_status r, rs_vector_ready = False, rs_graph_ready = False\<rparr>"
    using r(2) by (cases a) (simp add: run_key_def)
  moreover have hash: "run_input_hash r = input_hash E q" using r(2) by (simp add: run_key_def)
  ultimately have "accept_memory_record_tx E now' q db2 = Inr (a\<lparr>rs_status := run_status r\<rparr>, db2)"
    using accept_known [OF ok s r(1) key, of E now'] by simp
  moreover have "accept_memory_record_tx E now' q' db2 = Inl (MInvalidInput (lit ''IDEMPOTENCY_CONFLICT''))"
    if "rq_memory_space_id q' = rq_memory_space_id q \<and> rq_owner_id q' = rq_owner_id q
          \<and> rq_idempotency_key q' = rq_idempotency_key q \<and> input_hash E q' \<noteq> input_hash E q" for q'
    using accept_known [OF ok s(1) _ r(1), of q' E now'] s(2) key hash that by (metis (no_types))
  ultimately show ?thesis by blast
qed

text \<open>C26: A run's decisions and its record's links, history and evidence are written once, together with
  its completion: before that there are none, and whatever happens afterwards they stay as they are.\<close>

theorem published_once:
  assumes "graph_reachable E C reg (db, cs)" "r \<in> set (gd_runs db)"
    "(graph_step E C reg)\<^sup>*\<^sup>* (db, cs) (db', cs')"
  shows "(run_status r \<noteq> COMPLETED \<longrightarrow> published_rows r db = no_rows)
    \<and> (run_status r = COMPLETED \<longrightarrow> r \<in> set (gd_runs db') \<and> published_rows r db' = published_rows r db)"
  using reachable_unpublished [OF assms(1,2)] steps_completed [OF assms(1,3,2)] by blast

text \<open>C27: Every piece of evidence in the graph quotes the record it names: its byte range lies on
  character boundaries of the record's text and cuts out the quoted text, or the quoted text is not
  blank and occurs in it.\<close>

theorem evidence_is_grounded:
  assumes "graph_reachable E C reg (db, cs)"
  shows "list_all (evidence_grounded db) (gd_evidence db)"
  using reachable_grounded [OF assms] by (simp add: list_all_iff)

text \<open>C28: In every reachable graph an active entity is determined by its space, type and normalized name
  and an active fact by its space and key, and every reference the schema declares finds its target in the same
  space: from records and entities to their space, from a run to its record, from an extraction to its run, from
  an alias, link, fact, piece of history, group of evidence, piece of evidence and decision to what they
  name; and links and groups of evidence come from an extraction of their space.\<close>

theorem graph_integrity:
  assumes "graph_reachable E C reg (db, cs)"
  shows "graph_ok db \<and> provenance_ok db"
  using reachable_graph_ok [OF assms] reachable_provenance [OF assms] by blast

text \<open>The search for an entity by alias never decides: in a reachable graph a candidate is resolved
  by its normalized name alone, to the entity of that name or to a new one.\<close>

theorem alias_search_is_redundant:
  assumes "graph_reachable E C reg (db, cs)"
  shows "resolve_entity_candidate E now q c db =
    (case find_entity_by_normalized_name (pq_memory_space_id q) (ec_entity_type c)
        (normalize_graph_text E (ec_name c)) db of
       Some i \<Rightarrow> reuse_entity E now q c i db
     | None \<Rightarrow> create_entity E now q c db)"
  using reachable_graph_ok [OF assms]
  by (auto simp: resolve_entity_candidate_def Let_def graph_ok_def no_alias_without_name split: option.splits)

section \<open>Workers that lost their run\<close>

lemma current_run:
  assumes "accepted_ok db" "r \<in> set (gd_runs db)" "update_one_run P f msg db1 = Inr db'"
    "gd_runs db1 = gd_runs db" "\<And>x. P x \<Longrightarrow> run_id x = run_id r"
  shows "P r"
proof (rule ccontr)
  assume "\<not> P r"
  then have "\<not> P x" if "x \<in> set (gd_runs db)" for x
    using runs_records_distinct(1) [OF assms(1) that assms(2)] assms(5) by blast
  then have "count_where P (gd_runs db1) = 0" by (simp add: count_where_def filter_empty_conv assms(4))
  then show False using assms(3) by (simp add: update_one_run_def)
qed

definition no_effect :: "'a tx \<Rightarrow> GraphDb \<Rightarrow> bool" where
  "no_effect t db \<longleftrightarrow> (\<exists>e. transaction t db = (Inl e, db))"

lemma no_effectI: "(\<And>a db'. t db \<noteq> Inr (a, db')) \<Longrightarrow> no_effect t db"
  by (cases "t db") (auto simp: no_effect_def transaction_def)

text \<open>A worker whose attempt is not the current one of the run (it was reset and claimed again, or is
  no longer running) changes nothing: storing its embedding or its extraction, publishing its
  resolution and reporting its failure are all refused without a trace.\<close>

theorem stale_attempt_refused:
  assumes "graph_reachable E C reg (db, cs)" "r \<in> set (gd_runs db)"
    "n \<noteq> run_attempt_count r \<or> run_status r \<noteq> RUNNING"
  shows "(\<forall>u. eu_ingestion_run_id u = run_id r \<and> eu_attempt_count u = n
        \<longrightarrow> no_effect (store_record_embedding_tx now u) db)
    \<and> (\<forall>x. xp_ingestion_run_id x = run_id r \<and> xp_attempt_count x = n
        \<longrightarrow> no_effect (store_extraction_success_tx E now x) db)
    \<and> (\<forall>x. xp_ingestion_run_id x = run_id r \<and> xp_attempt_count x = n
        \<longrightarrow> no_effect (store_extraction_failure_tx E now x) db)
    \<and> (\<forall>q. pq_ingestion_run_id q = run_id r \<and> pq_attempt_count q = n
        \<longrightarrow> no_effect (publish_resolution_tx E now q) db)
    \<and> (\<forall>stage code m. no_effect (mark_run_failed_tx now (run_id r) n stage code m) db)"
proof -
  have ok: "accepted_ok db" by (rule reachable_ok [OF assms(1)])
  note current = current_run [OF ok assms(2)]
  have "no_effect (store_record_embedding_tx now u) db"
    if "eu_ingestion_run_id u = run_id r" "eu_attempt_count u = n" for u
  proof (rule no_effectI)
    fix a db' show "store_record_embedding_tx now u db \<noteq> Inr (a, db')"
    proof
      assume "store_record_embedding_tx now u db = Inr (a, db')"
      then obtain f msg db1 where "update_one_run (\<lambda>x. run_id x = eu_ingestion_run_id u
           \<and> run_memory_space_id x = eu_memory_space_id u \<and> run_attempt_count x = eu_attempt_count u
           \<and> run_status x = RUNNING \<and> run_stage x = EMBEDDING \<and> run_memory_record_id x = eu_memory_record_id u)
          f msg db = Inr db1"
        unfolding store_record_embedding_tx_def by (elim and_then_InrE)
      from current [OF this] that assms(3) show False by auto
    qed
  qed
  moreover have "no_effect (mark_run_failed_tx now (run_id r) n stage code m) db" for stage code m
  proof (rule no_effectI)
    fix a db' show "mark_run_failed_tx now (run_id r) n stage code m db \<noteq> Inr (a, db')"
    proof
      assume "mark_run_failed_tx now (run_id r) n stage code m db = Inr (a, db')"
      then obtain f msg db1 where "update_one_run (\<lambda>x. run_id x = run_id r \<and> run_attempt_count x = n
          \<and> run_status x = RUNNING \<and> run_stage x = stage) f msg db = Inr db1"
        unfolding mark_run_failed_tx_def by (elim and_then_InrE)
      from current [OF this] assms(3) show False by auto
    qed
  qed
  moreover have "no_effect (store_extraction_success_tx E now x) db"
    if x: "xp_ingestion_run_id x = run_id r" "xp_attempt_count x = n" for x
  proof (rule no_effectI)
    fix a db' show "store_extraction_success_tx E now x db \<noteq> Inr (a, db')"
    proof
      assume "store_extraction_success_tx E now x db = Inr (a, db')"
      then obtain db1 msg f where "update_one_run (extraction_current x) f msg db1 = Inr db'" "gd_runs db1 = gd_runs db"
        by (force simp: store_extraction_success_tx_def new_v4_def Let_def insert_extraction_run_def)
      from current [OF this] x assms(3) show False by (auto simp: extraction_current_def)
    qed
  qed
  moreover have "no_effect (store_extraction_failure_tx E now x) db"
    if x: "xp_ingestion_run_id x = run_id r" "xp_attempt_count x = n" for x
  proof (rule no_effectI)
    fix a db' show "store_extraction_failure_tx E now x db \<noteq> Inr (a, db')"
    proof
      assume "store_extraction_failure_tx E now x db = Inr (a, db')"
      then obtain db1 msg f where "update_one_run (extraction_current x) f msg db1 = Inr db'" "gd_runs db1 = gd_runs db"
        by (force simp: store_extraction_failure_tx_def new_v4_def Let_def insert_extraction_run_def)
      from current [OF this] x assms(3) show False by (auto simp: extraction_current_def)
    qed
  qed
  moreover have "no_effect (publish_resolution_tx E now q) db"
    if q: "pq_ingestion_run_id q = run_id r" "pq_attempt_count q = n" for q
  proof (rule no_effectI)
    fix p db' show "publish_resolution_tx E now q db \<noteq> Inr (p, db')"
    proof
      assume "publish_resolution_tx E now q db = Inr (p, db')"
      then have "count_where (run_published q) (gd_runs db) = 1"
        using reachable_graph_ok [OF assms(1)] by (rule publish_effect)
      then have "update_one_run (run_published q) id [] db = Inr (db\<lparr>gd_runs := update_where (run_published q) id (gd_runs db)\<rparr>)"
        by (simp add: update_one_run_def)
      from current [OF this] q assms(3) show False by (auto simp: run_published_def)
    qed
  qed
  ultimately show ?thesis by blast
qed

end
