(* ===== verification/GraphSample.thy ===== *)
theory GraphSample
  imports GraphProps
begin

text \<open>
  A small instance: one memory goes through acceptance, embedding, extraction, resolution and
  publication. The witnesses of the properties of the graph rest on it.
\<close>

definition demo_env :: genv where
  "demo_env = \<lparr>g_nfc = id, g_lower = id, g_to_string = (\<lambda>_. []), g_from_str = (\<lambda>_. Inr JNull),
     g_uuid_v5 = id, g_uuid_v4 = (\<lambda>n. [n]), g_now = id, g_elapsed = int, g_fault = (\<lambda>_. None),
     g_constraint = [], g_no_rows = [], g_in_unit = (\<lambda>_. True), g_u64_json = (\<lambda>_. JNull)\<rparr>"

definition demo_registry :: GraphTypeRegistry where
  "demo_registry = \<lparr>tr_version = [1], tr_entity_types = [[80]],
     tr_predicates = [\<lparr>gp_name = [76], gp_description = [], gp_temporal_kind = None,
       gp_cardinality = None, gp_overlap_allowed = None, gp_symmetric = False\<rparr>]\<rparr>"

definition demo_output :: GraphExtractionOutput where
  "demo_output = \<lparr>go_entities = [\<lparr>ec_local_id = [97], ec_name = [65], ec_entity_type = [80], ec_confidence = None\<rparr>,
       \<lparr>ec_local_id = [98], ec_name = [66], ec_entity_type = [80], ec_confidence = None\<rparr>],
     go_facts = [\<lparr>fc_local_id = [102], fc_subject_ref = [97], fc_predicate = [76], fc_object_ref = [98],
       fc_fact_text = [65], fc_evidence = [\<lparr>sp_text = Some [65], sp_start_byte = Some 0, sp_end_byte = Some 1\<rparr>],
       fc_confidence = None, fc_temporal_expression = None, fc_valid_from_ms = None, fc_valid_to_ms = None\<rparr>],
     go_input_tokens = None, go_output_tokens = None\<rparr>"

definition demo_codec :: output_codec where
  "demo_codec = \<lparr>oc_value = (\<lambda>_. JNull), oc_read = (\<lambda>_. Inr demo_output)\<rparr>"

definition demo_request :: GraphAddMemoryRequest where
  "demo_request = \<lparr>rq_memory_space_id = [1], rq_owner_id = [2], rq_idempotency_key = [3], rq_text = [65, 66],
     rq_metadata = JNull, rq_session_id = None, rq_session_sequence = None, rq_source_kind = [],
     rq_source_ref = None, rq_content_role = [], rq_created_by_agent_id = None, rq_observed_at_ms = None\<rparr>"

lemmas demo_simps = demo_env_def demo_registry_def demo_output_def demo_codec_def demo_request_def

definition demo_record :: GraphMemoryRow where
  "demo_record = new_memory_row demo_env 0 demo_request [0] 1"

definition demo_run :: "str \<Rightarrow> str \<Rightarrow> IngestionRun" where
  "demo_run status stage = (new_run_row 0 demo_request [] [1] [0])\<lparr>run_status := status, run_stage := stage,
     run_attempt_count := (if status = PENDING then 0 else 1),
     run_started_at_ms := (if status = PENDING then None else Some 0),
     run_completed_at_ms := (if status = COMPLETED then Some 0 else None)\<rparr>"

definition demo_db :: "str \<Rightarrow> str \<Rightarrow> GraphDb" where
  "demo_db status stage = initialize_schema\<lparr>
     gd_spaces := [\<lparr>ms_id = [1], ms_owner_id = [2], ms_status = ACTIVE, ms_next_ingestion_sequence = 2,
        ms_created_at_ms = 0\<rparr>],
     gd_records := [demo_record], gd_record_fts := [([0], [1], [65, 66])], gd_runs := [demo_run status stage],
     gd_ids := 2\<rparr>"

lemmas demo_db_simps = demo_simps demo_db_def demo_record_def demo_run_def new_memory_row_def new_run_row_def
  initialize_schema_def

lemmas tx_simps = query_row_def update_one_run_def count_where_def update_where_def new_v4_def Let_def
  joined_runs_def

lemma demo_accept:
  "accept_memory_record_tx demo_env 0 demo_request initialize_schema =
     Inr (\<lparr>rs_memory_record_id = [0], rs_ingestion_run_id = [1], rs_status = PENDING, rs_vector_ready = False,
       rs_graph_ready = False\<rparr>, demo_db PENDING ACCEPTED)"
  by (simp add: accept_memory_record_tx_def demo_db_simps tx_simps ensure_space_def space_rows_def
     runs_by_key_def insert_memory_def insert_record_def insert_run_def record_exists_def input_hash_def)

lemma demo_claim:
  "\<exists>c. claim_pending_run_tx demo_env 0 [1] (demo_db PENDING ACCEPTED) = Inr (c, demo_db RUNNING EMBEDDING)"
  by (simp add: claim_pending_run_tx_def demo_db_simps tx_simps)

text \<open>The embedding is stored with the record.\<close>

definition demo_embedded :: "str \<Rightarrow> GraphDb" where
  "demo_embedded stage = (demo_db RUNNING stage)\<lparr>gd_records := [demo_record\<lparr>rec_embedding := Some [],
     rec_embedding_dims := Some 0, rec_embedding_model := Some [], rec_embedding_version := Some []\<rparr>]\<rparr>"

definition demo_update :: RecordEmbeddingUpdate where
  "demo_update = \<lparr>eu_ingestion_run_id = [1], eu_memory_record_id = [0], eu_memory_space_id = [1],
     eu_attempt_count = 1, eu_embedding = [], eu_embedding_model = [], eu_embedding_version = []\<rparr>"

lemma demo_embed:
  "store_record_embedding_tx 0 demo_update (demo_db RUNNING EMBEDDING) = Inr ((), demo_embedded EXTRACTION)"
  by (simp add: store_record_embedding_tx_def demo_db_simps tx_simps demo_update_def demo_embedded_def
      embedding_to_blob_def)

lemma demo_claim_extraction:
  "\<exists>c. claim_extraction_run_tx demo_env 0 [1] (demo_embedded EXTRACTION) = Inr (c, demo_embedded EXTRACTING)"
  by (simp add: claim_extraction_run_tx_def demo_db_simps tx_simps demo_embedded_def parse_json_def)

definition demo_completion :: ExtractionRunCompletion where
  "demo_completion = \<lparr>xp_ingestion_run_id = [1], xp_memory_space_id = [1], xp_attempt_count = 1,
     xp_attempt_number = 1, xp_extractor_name = [], xp_model = [], xp_prompt_version = [], xp_schema_version = [],
     xp_type_registry_version = [], xp_context_record_ids = [], xp_latency_ms = None,
     xp_structured_output = JNull, xp_input_tokens = None, xp_output_tokens = None\<rparr>"

definition demo_extraction :: ExtractionRun where
  "demo_extraction = \<lparr>xr_id = [2], xr_memory_space_id = [1], xr_ingestion_run_id = [1], xr_attempt_number = 1,
     xr_status = COMPLETED, xr_extractor_name = [], xr_model = [], xr_prompt_version = [], xr_schema_version = [],
     xr_type_registry_version = [], xr_context_record_ids = [], xr_structured_output = Some JNull,
     xr_input_tokens = None, xr_output_tokens = None, xr_latency_ms = None, xr_error_code = None,
     xr_error_message = None, xr_created_at_ms = 0, xr_completed_at_ms = Some 0\<rparr>"

definition demo_extracted :: "str \<Rightarrow> GraphDb" where
  "demo_extracted stage = (demo_embedded stage)\<lparr>gd_extractions := [demo_extraction], gd_ids := 3\<rparr>"

lemma demo_success:
  "store_extraction_success_tx demo_env 0 demo_completion (demo_embedded EXTRACTING)
     = Inr (demo_extraction, demo_extracted RESOLUTION)"
  by (simp add: store_extraction_success_tx_def demo_db_simps tx_simps demo_embedded_def demo_completion_def
      demo_extraction_def demo_extracted_def insert_extraction_run_def run_exists_def extraction_current_def)

definition demo_claimed :: ClaimedResolutionRun where
  "demo_claimed = \<lparr>cr_ingestion_run_id = [1], cr_memory_space_id = [1], cr_memory_record_id = [0],
     cr_text = [65, 66], cr_metadata = JNull, cr_attempt_count = 1, cr_extraction_run_id = [2],
     cr_extraction_output = demo_output\<rparr>"

lemma demo_claim_resolution:
  "claim_resolution_run_sync demo_env demo_codec 0 [1] (demo_extracted RESOLUTION)
     = (Inr demo_claimed, demo_extracted RESOLVING)"
  by (simp add: claim_resolution_run_sync_def transaction_def claim_resolution_run_tx_def resolution_rows_def
      completed_extractions_def demo_db_simps tx_simps demo_embedded_def demo_extraction_def demo_extracted_def
      demo_claimed_def parse_json_def)


definition demo_publish :: ResolutionPublishRequest where
  "demo_publish = publish_request demo_registry demo_claimed None"

text \<open>The graph after the publication: two entities and a fact between them, with its evidence.\<close>

definition demo_entity :: "nat \<Rightarrow> nat \<Rightarrow> Entity" where
  "demo_entity i c = \<lparr>ent_id = [i], ent_memory_space_id = [1], ent_canonical_name = [c],
     ent_normalized_name = [c], ent_entity_type = [80], ent_status = ACTIVE, ent_type_registry_version = [1],
     ent_created_at_ms = 0, ent_deleted_at_ms = None\<rparr>"

definition demo_alias :: "nat \<Rightarrow> nat \<Rightarrow> nat \<Rightarrow> EntityAlias" where
  "demo_alias i e c = \<lparr>als_id = [i], als_memory_space_id = [1], als_entity_id = [e], als_display_alias = [c],
     als_normalized_alias = [c], als_created_at_ms = 0, als_deleted_at_ms = None\<rparr>"

definition demo_link :: "nat \<Rightarrow> nat \<Rightarrow> RecordEntityLink" where
  "demo_link i e = \<lparr>rel_id = [i], rel_memory_space_id = [1], rel_memory_record_id = [0], rel_entity_id = [e],
     rel_link_kind = lit ''extracted_mention'', rel_extraction_run_id = [2], rel_created_at_ms = 0\<rparr>"

definition demo_fact :: Fact where
  "demo_fact = \<lparr>fct_id = [11], fct_memory_space_id = [1], fct_subject_entity_id = [3], fct_predicate = [76],
     fct_object_entity_id = [7], fct_fact_text = [65], fct_dedup_key = fact_dedup_key demo_env [3] [76] [7] [65],
     fct_status = ACTIVE, fct_valid_from_ms = None, fct_valid_to_ms = None, fct_recorded_at_ms = 0,
     fct_retired_at_ms = None, fct_type_registry_version = [1]\<rparr>"

definition demo_decision :: "nat \<Rightarrow> string \<Rightarrow> nat \<Rightarrow> nat \<Rightarrow> ResolutionDecision" where
  "demo_decision i kind key e = \<lparr>rdc_id = [i], rdc_memory_space_id = [1], rdc_ingestion_run_id = [1],
     rdc_decision_kind = lit kind, rdc_input_key = [key], rdc_candidate_ids = [], rdc_selected_id = [e],
     rdc_action = lit ''create'', rdc_method = lit ''deterministic'',
     rdc_resolver_version = GRAPH_RESOLVER_VERSION, rdc_created_at_ms = 0\<rparr>"

definition demo_published :: GraphDb where
  "demo_published = (demo_extracted RESOLVING)\<lparr>
     gd_entities := [demo_entity 3 65, demo_entity 7 66],
     gd_entity_fts := [([3], [1], [65]), ([7], [1], [66])],
     gd_aliases := [demo_alias 4 3 65, demo_alias 8 7 66],
     gd_alias_fts := [([4], [1], [65]), ([8], [1], [66])],
     gd_links := [demo_link 6 3, demo_link 10 7],
     gd_facts := [demo_fact], gd_fact_fts := [([11], [1], [65])],
     gd_history := [\<lparr>hst_id = [12], hst_memory_space_id = [1], hst_fact_id = [11], hst_old_status = None,
        hst_new_status = ACTIVE, hst_reason_code = lit ''created_from_extraction'',
        hst_trigger_record_id = [0], hst_created_at_ms = 0\<rparr>],
     gd_groups := [\<lparr>evg_id = [14], evg_memory_space_id = [1], evg_fact_id = [11],
        evg_evidence_kind = lit ''support'', evg_extraction_run_id = [2], evg_created_at_ms = 0\<rparr>],
     gd_evidence := [\<lparr>evi_id = [15], evi_memory_space_id = [1], evi_evidence_group_id = [14],
        evi_memory_record_id = [0], evi_evidence_text = Some [65], evi_start_byte = Some 0,
        evi_end_byte = Some 1, evi_created_at_ms = 0\<rparr>],
     gd_runs := [demo_run COMPLETED COMPLETED],
     gd_decisions := [demo_decision 5 ''entity_resolution'' 97 3, demo_decision 9 ''entity_resolution'' 98 7,
        demo_decision 13 ''fact_resolution'' 102 11], gd_ids := 16\<rparr>"

lemmas demo_graph_simps = demo_published_def demo_entity_def demo_alias_def demo_link_def demo_fact_def
  demo_decision_def

lemmas publish_simps = publish_resolution_tx_def publish_source_def publish_entity_def publish_fact_def
  resolve_entity_candidate_def find_entity_by_normalized_name_def find_unique_entity_by_alias_def
  alias_rows_def create_entity_def insert_entity_def ensure_entity_alias_def insert_resolution_decision_def
  insert_record_entity_link_def resolve_fact_candidate_def find_fact_by_dedup_key_def insert_fact_def
  insert_history_def insert_fact_evidence_group_def insert_fact_evidence_def reuse_entity_def

lemma demo_validates: "validate_against_record demo_env demo_registry [65, 66] demo_output = Inr ()"
  by (simp add: validate_against_record_def validate_entity_def validate_fact_def demo_simps validate_non_empty_def
      validate_confidence_def registry_predicate_def validate_temporal_def validate_interval_def
      validate_evidence_span_def is_char_boundary_def byte_slice_def split_at_byte.simps utf8_len_def trim_def
      trim_start_def trim_end_def is_ws_def)

lemma demo_norm: "normalize_graph_text demo_env [65] = [65]" "normalize_graph_text demo_env [66] = [66]"
  by (simp_all add: normalize_graph_text_def split_whitespace.simps is_ws_def demo_env_def)

lemma demo_published_by:
  "publish_resolution_tx demo_env 0 demo_publish (demo_extracted RESOLVING)
     = Inr ((demo_run COMPLETED COMPLETED, \<lparr>pc_entities_created = 2, pc_entities_reused = 0, pc_facts_created = 1,
         pc_facts_reused = 0, pc_evidence_inserted = 1, pc_record_entity_links_inserted = 2\<rparr>), demo_published)"
  by (simp add: publish_simps demo_db_simps demo_graph_simps tx_simps demo_embedded_def demo_extraction_def
      demo_extracted_def demo_claimed_def demo_publish_def publish_request_def active_entity_def active_fact_def
      entity_exists_def fact_exists_def group_exists_def record_exists_def run_exists_def get_run_rows_def
      demo_norm [unfolded demo_env_def] count_fact_def count_entity_def no_counts_def del: and_then_Inr)

lemma demo_publishes:
  "\<exists>p. publish_resolution_tx demo_env 0 demo_publish (demo_extracted RESOLVING) = Inr (p, demo_published)
     \<and> length (gd_evidence demo_published) = 1 \<and> length (gd_entities demo_published) = 2
     \<and> length (gd_facts demo_published) = 1 \<and> gd_runs demo_published = [demo_run COMPLETED COMPLETED]"
  using demo_published_by by (simp add: demo_published_def)


section \<open>The states are reachable\<close>

abbreviation demo_reachable :: "graph_system \<Rightarrow> bool" where
  "demo_reachable \<equiv> graph_reachable demo_env demo_codec demo_registry"

abbreviation demo_step :: "graph_system \<Rightarrow> graph_system \<Rightarrow> bool" where
  "demo_step \<equiv> graph_step demo_env demo_codec demo_registry"

lemma demo_publish_step: "demo_step (demo_extracted RESOLVING, {demo_claimed}) (demo_published, {demo_claimed})"
proof -
  have "source_entity_from_metadata (cr_metadata demo_claimed) demo_registry = Inr None"
    by (simp add: source_entity_from_metadata_def demo_claimed_def)
  moreover have "cr_text demo_claimed = [65, 66]" "cr_extraction_output demo_claimed = demo_output"
    by (simp_all add: demo_claimed_def)
  ultimately show ?thesis
    using demo_publishes demo_validates graph_step.publish [of demo_claimed "{demo_claimed}" demo_env demo_registry]
    by (auto simp: demo_publish_def)
qed

lemma demo_steps:
  "demo_step (initialize_schema, {}) (demo_db PENDING ACCEPTED, {})"
  "demo_step (demo_db PENDING ACCEPTED, {}) (demo_db RUNNING EMBEDDING, {})"
  "demo_step (demo_db RUNNING EMBEDDING, {}) (demo_embedded EXTRACTION, {})"
  "demo_step (demo_embedded EXTRACTION, {}) (demo_embedded EXTRACTING, {})"
  "demo_step (demo_embedded EXTRACTING, {}) (demo_extracted RESOLUTION, {})"
  "demo_step (demo_extracted RESOLUTION, {}) (demo_extracted RESOLVING, {demo_claimed})"
  using demo_claim demo_claim_extraction
  by (auto intro: graph_step.accept [OF demo_accept] graph_step.claim graph_step.embed [OF demo_embed]
      graph_step.claim_extraction graph_step.extraction_success [OF demo_success]
      graph_step.claim_resolution [OF demo_claim_resolution])

lemma demo_path: "demo_step\<^sup>*\<^sup>* (demo_db PENDING ACCEPTED, {}) (demo_extracted RESOLVING, {demo_claimed})"
  using demo_steps(2-6) by (meson converse_rtranclp_into_rtranclp r_into_rtranclp)

lemma demo_reachable:
  "demo_reachable (initialize_schema, {})" "demo_reachable (demo_db PENDING ACCEPTED, {})"
  "demo_reachable (demo_extracted RESOLVING, {demo_claimed})" "demo_reachable (demo_published, {demo_claimed})"
proof -
  show start: "demo_reachable (initialize_schema, {})" by (rule graph_reachable.start)
  then show accepted: "demo_reachable (demo_db PENDING ACCEPTED, {})" using demo_steps(1) by (rule graph_reachable.step)
  show resolving: "demo_reachable (demo_extracted RESOLVING, {demo_claimed})"
    by (rule steps_reachable [OF accepted demo_path])
  show "demo_reachable (demo_published, {demo_claimed})"
    by (rule graph_reachable.step [OF resolving demo_publish_step])
qed

theorem accepted_invariant_witness: "accepted_ok demo_published \<and> length (gd_runs demo_published) = 1"
  using accepted_invariant [OF demo_reachable(4)] demo_publishes by simp

theorem run_lifecycle_witness:
  "list_all run_state_ok (gd_runs demo_published) \<and> runs_move (gd_runs (demo_extracted RESOLVING)) (gd_runs demo_published)"
  by (rule run_lifecycle [OF demo_reachable(3) demo_publish_step])

theorem accept_idempotent_witness:
  "(\<exists>st. accept_memory_record_tx demo_env 7 demo_request demo_published =
      Inr (\<lparr>rs_memory_record_id = [0], rs_ingestion_run_id = [1], rs_status = PENDING, rs_vector_ready = False,
       rs_graph_ready = False\<rparr>\<lparr>rs_status := st\<rparr>, demo_published))"
  using accept_idempotent [OF demo_reachable(1) demo_accept, of demo_published "{demo_claimed}"]
    demo_path demo_publish_step by (meson rtranclp.rtrancl_into_rtrancl)

theorem published_once_witness:
  "demo_run COMPLETED COMPLETED \<in> set (gd_runs demo_published)
     \<and> published_rows (demo_run PENDING ACCEPTED) (demo_db PENDING ACCEPTED) = no_rows"
proof -
  have "demo_run PENDING ACCEPTED \<in> set (gd_runs (demo_db PENDING ACCEPTED))" by (simp add: demo_db_def)
  moreover have "run_status (demo_run PENDING ACCEPTED) \<noteq> COMPLETED" by (simp add: demo_run_def)
  ultimately have "published_rows (demo_run PENDING ACCEPTED) (demo_db PENDING ACCEPTED) = no_rows"
    using published_once [OF demo_reachable(2) _ rtranclp.rtrancl_refl] by blast
  then show ?thesis using demo_publishes by simp
qed

theorem evidence_is_grounded_witness:
  "list_all (evidence_grounded demo_published) (gd_evidence demo_published) \<and> gd_evidence demo_published \<noteq> []"
  using evidence_is_grounded [OF demo_reachable(4)] demo_publishes by auto

theorem graph_integrity_witness: "graph_ok demo_published \<and> length (gd_facts demo_published) = 1"
  using graph_integrity [OF demo_reachable(4)] demo_publishes by auto

theorem alias_search_is_redundant_witness:
  "resolve_entity_candidate demo_env 0 demo_publish (hd (go_entities demo_output)) demo_published =
    (case find_entity_by_normalized_name (pq_memory_space_id demo_publish) (ec_entity_type (hd (go_entities demo_output)))
        (normalize_graph_text demo_env (ec_name (hd (go_entities demo_output)))) demo_published of
       Some i \<Rightarrow> reuse_entity demo_env 0 demo_publish (hd (go_entities demo_output)) i demo_published
     | None \<Rightarrow> create_entity demo_env 0 demo_publish (hd (go_entities demo_output)) demo_published)"
  by (rule alias_search_is_redundant [OF demo_reachable(4)])

theorem stale_attempt_refused_witness:
  "no_effect (publish_resolution_tx demo_env 0 (demo_publish\<lparr>pq_attempt_count := 7\<rparr>)) (demo_extracted RESOLVING)"
proof -
  have "demo_run RUNNING RESOLVING \<in> set (gd_runs (demo_extracted RESOLVING))"
    by (simp add: demo_extracted_def demo_embedded_def demo_db_def)
  from stale_attempt_refused [OF demo_reachable(3) this, of 7] show ?thesis
    by (simp add: demo_run_def demo_publish_def publish_request_def demo_claimed_def new_run_row_def)
qed

end
