(* ===== verification/GraphLiveProps.thy ===== *)
theory GraphLiveProps
  imports GraphResume GraphSample
begin

text \<open>
  Resuming completes: the property over the pipeline with its example.
\<close>

text \<open>C29: A run that is not completed, in whatever stage a crash or a failure left it, is completed by
  resuming its request when the providers work, the stored metadata of its record parses and the source entity
  the metadata names, if any, is well formed: the resume returns a result and the run it names is
  the request's run, completed in the database.\<close>

theorem resume_completes:
  assumes "graph_reachable E C reg (repo_db s, cs)" "resumable E q r m (repo_db s)"
    "providers_work E C p (rec_text m)"
    "g_from_str E (rec_metadata_json m) = Inr md" "source_entity_from_metadata md (bp_registry p) = Inr se"
  shows "\<exists>res s'. resume_memory E C p q s = (Inr (Some res), s') \<and> run_id (br_ingestion_run res) = run_id r
    \<and> run_status (br_ingestion_run res) = COMPLETED \<and> br_ingestion_run res \<in> set (gd_runs (repo_db s'))"
  by (rule resume_succeeds [OF assms(1,3,2,4,5)])

definition demo_pipeline :: GraphBuildPipeline where
  "demo_pipeline = \<lparr>bp_embedder = \<lparr>ep_model_name = [], ep_embed_one = (\<lambda>_ _. Inr [])\<rparr>,
     bp_extractor = \<lparr>gx_extractor_name = [], gx_model_name = [], gx_prompt_version = [], gx_schema_version = [],
       gx_extract = (\<lambda>_ _. Inr demo_output)\<rparr>,
     bp_registry = demo_registry\<rparr>"

theorem resume_completes_witness:
  "\<exists>res s'. resume_memory demo_env demo_codec demo_pipeline demo_request
      \<lparr>repo_db = demo_extracted RESOLVING, repo_ops = 9\<rparr> = (Inr (Some (res :: GraphBuildResult)), s')
    \<and> run_status (br_ingestion_run res) = COMPLETED"
proof -
  let ?s = "\<lparr>repo_db = demo_extracted RESOLVING, repo_ops = 9\<rparr>"
  let ?m = "hd (gd_records (demo_extracted RESOLVING))"
  have reach: "graph_reachable demo_env demo_codec demo_registry (repo_db ?s, {demo_claimed})"
    using demo_reachable(3) by simp
  have run: "gd_runs (demo_extracted RESOLVING) = [demo_run RUNNING RESOLVING]"
    by (simp add: demo_extracted_def demo_embedded_def demo_db_def)
  have same_text: "rec_text ?m = [65, 66]"
    by (simp add: demo_extracted_def demo_embedded_def demo_db_def demo_record_def new_memory_row_def demo_request_def)
  have "resumable demo_env demo_request (demo_run RUNNING RESOLVING) ?m (repo_db ?s)"
    using run
    by (simp add: resumable_def demo_extracted_def demo_embedded_def demo_db_simps request_key_def space_key_def
        record_ref_def run_record_def input_hash_def trim_def trim_start_def trim_end_def is_ws_def)
  moreover have "inj (\<lambda>n :: nat. [n])" by (simp add: inj_def)
  then have "providers_work demo_env demo_codec demo_pipeline (rec_text ?m)"
    using demo_validates by (simp add: providers_work_def same_text demo_pipeline_def demo_env_def demo_codec_def)
  moreover have "g_from_str demo_env (rec_metadata_json ?m) = Inr JNull" by (simp add: demo_env_def)
  moreover have "source_entity_from_metadata JNull (bp_registry demo_pipeline) = Inr None"
    by (simp add: source_entity_from_metadata_def)
  ultimately show ?thesis using resume_completes [OF reach] by blast
qed

end
