(* ===== verification/GraphQuery.thy ===== *)
theory GraphQuery
  imports GraphPipeline
begin

text \<open>
  The text side of graph retrieval (\<open>sqlite/graph_repository.rs\<close>, \<open>api.rs\<close>): the request and its limits,
  scores as the bit patterns of \<open>f32\<close>, the terms of a query, the full-text query built from them, and
  the choice of the actors a query names.
\<close>

section \<open>Scores\<close>

text \<open>
  The value of a finite \<open>f32\<close> in units of \<open>2^-149\<close>, and rounding to the nearest \<open>f32\<close>, ties to even.
  Every score is a constant divided by an index plus one, so infinities and NaN do not occur.
\<close>

definition f_int :: "f32 \<Rightarrow> int" where
  "f_int w = (let n = unat w; m = n mod 2 ^ 23; e = n div 2 ^ 23 mod 256;
       v = (if e = 0 then m else (2 ^ 23 + m) * 2 ^ (e - 1))
     in if n < 2 ^ 31 then int v else - int v)"

fun bit_length :: "nat \<Rightarrow> nat" where
  "bit_length n = (if n = 0 then 0 else Suc (bit_length (n div 2)))"

declare bit_length.simps [simp del]

definition nearest_even :: "nat \<Rightarrow> nat \<Rightarrow> nat" where
  "nearest_even p q = (let d = p div q; r = p mod q
     in if 2 * r < q \<or> 2 * r = q \<and> even d then d else d + 1)"

definition f_round :: "nat \<Rightarrow> nat \<Rightarrow> f32" where
  "f_round p q = (let k = bit_length (p div q) - 24 in word_of_nat (k * 2 ^ 23 + nearest_even p (q * 2 ^ k)))"

definition f_gt :: "f32 \<Rightarrow> f32 \<Rightarrow> bool" where
  "f_gt a b \<longleftrightarrow> f_int b < f_int a"

definition f_max :: "f32 \<Rightarrow> f32 \<Rightarrow> f32" where
  "f_max a b = (if f_gt b a then b else a)"

definition f_distance :: "f32 \<Rightarrow> f32 \<Rightarrow> f32" where
  "f_distance a b = f_round (nat \<bar>f_int a - f_int b\<bar>) 1"

text \<open>The order of \<open>total_cmp\<close>.\<close>

definition f_total_key :: "f32 \<Rightarrow> int" where
  "f_total_key w = (let n = unat w in if n < 2 ^ 31 then int n else - 1 - int (n - 2 ^ 31))"

definition F32_EPSILON :: f32 where "F32_EPSILON = 0x34000000"

definition ENTITY_EXPANSION_SEED_WEIGHT :: f32 where "ENTITY_EXPANSION_SEED_WEIGHT = 0"
definition FACT_TEXT_SEED_WEIGHT :: f32 where "FACT_TEXT_SEED_WEIGHT = 0x3F800000"
definition DIRECT_EVIDENCE_RECORD_WEIGHT :: f32 where "DIRECT_EVIDENCE_RECORD_WEIGHT = 0x3E800000"

text \<open>\<open>weight / (index as f32 + 1.0)\<close>; the indexes are below the seed limit, so the divisor is exact.\<close>

definition ranked_score :: "f32 \<Rightarrow> nat \<Rightarrow> f32" where
  "ranked_score weight index = f_round (nat (f_int weight)) (index + 1)"


section \<open>Maps with an entry per key\<close>

text \<open>\<open>entry(k).and_modify(f).or_insert(v)\<close> on a hash map, kept in the order of insertion.\<close>

fun upsert :: "'k \<Rightarrow> ('v \<Rightarrow> 'v) \<Rightarrow> 'v \<Rightarrow> ('k \<times> 'v) list \<Rightarrow> ('k \<times> 'v) list" where
  "upsert k f v [] = [(k, v)]"
| "upsert k f v ((k', v') # al) = (if k = k' then (k', f v') # al else (k', v') # upsert k f v al)"

lemma upsert_keys: "fst ` set (upsert k f v al) = insert k (fst ` set al)"
  by (induction k f v al rule: upsert.induct) auto

lemma upsert_distinct: "distinct (map fst al) \<Longrightarrow> distinct (map fst (upsert k f v al))"
  by (induction k f v al rule: upsert.induct) (auto simp: upsert_keys)

lemma upsert_all:
  assumes "\<forall>(k, v) \<in> set al. P k v" "P k v" "\<And>v'. (k, v') \<in> set al \<Longrightarrow> P k (f v')"
  shows "\<forall>(k, v) \<in> set (upsert k f v al). P k v"
  using assms
proof (induction k f v al rule: upsert.induct)
  case (2 k f v k' v' al)
  then show ?case by (cases "k = k'") auto
qed simp


section \<open>The request\<close>

record GraphRetrieveContextRequest =
  gq_memory_space_id :: str
  gq_query :: str
  gq_top_k :: nat
  gq_reference_time_ms :: "nat option"
  gq_query_embedding :: "f32 list option"
  gq_query_embedding_model :: "str option"
  gq_target_subject_entity_name :: "str option"
  gq_target_evidence_speaker :: "str option"
  gq_seed_limit :: "nat option"
  gq_max_evidence_records_per_fact :: "nat option"

definition GRAPH_SEED_LIMIT_MULTIPLIER :: nat where "GRAPH_SEED_LIMIT_MULTIPLIER = 10"
definition MIN_GRAPH_SEED_LIMIT :: nat where "MIN_GRAPH_SEED_LIMIT = 30"
definition DEFAULT_MAX_EVIDENCE_RECORDS_PER_FACT :: nat where "DEFAULT_MAX_EVIDENCE_RECORDS_PER_FACT = 3"
definition MAX_GRAPH_RETRIEVAL_QUERY_BYTES :: nat where "MAX_GRAPH_RETRIEVAL_QUERY_BYTES = 32000 * 4"
definition MAX_GRAPH_RETRIEVAL_TOP_K :: nat where "MAX_GRAPH_RETRIEVAL_TOP_K = 500"
definition MAX_GRAPH_SEED_LIMIT :: nat where
  "MAX_GRAPH_SEED_LIMIT = MAX_GRAPH_RETRIEVAL_TOP_K * GRAPH_SEED_LIMIT_MULTIPLIER"
definition MAX_GRAPH_EVIDENCE_RECORDS_PER_FACT :: nat where "MAX_GRAPH_EVIDENCE_RECORDS_PER_FACT = 100"
definition MAX_GRAPH_FTS_QUERY_TERMS :: nat where "MAX_GRAPH_FTS_QUERY_TERMS = 256"
definition MAX_GRAPH_SOURCE_ACTOR_CANDIDATES :: nat where "MAX_GRAPH_SOURCE_ACTOR_CANDIDATES = 256"
definition MAX_GRAPH_QUERY_ACTORS :: nat where "MAX_GRAPH_QUERY_ACTORS = 8"

lemmas limit_defs = GRAPH_SEED_LIMIT_MULTIPLIER_def MIN_GRAPH_SEED_LIMIT_def
  DEFAULT_MAX_EVIDENCE_RECORDS_PER_FACT_def MAX_GRAPH_RETRIEVAL_QUERY_BYTES_def
  MAX_GRAPH_RETRIEVAL_TOP_K_def MAX_GRAPH_SEED_LIMIT_def MAX_GRAPH_EVIDENCE_RECORDS_PER_FACT_def
  MAX_GRAPH_FTS_QUERY_TERMS_def MAX_GRAPH_SOURCE_ACTOR_CANDIDATES_def MAX_GRAPH_QUERY_ACTORS_def

definition seed_limit :: "GraphRetrieveContextRequest \<Rightarrow> nat" where
  "seed_limit q = (case gq_seed_limit q of Some n \<Rightarrow> n
     | None \<Rightarrow> max (min (gq_top_k q * GRAPH_SEED_LIMIT_MULTIPLIER) (2 ^ 64 - 1)) MIN_GRAPH_SEED_LIMIT)"

definition max_evidence_records_per_fact :: "GraphRetrieveContextRequest \<Rightarrow> nat" where
  "max_evidence_records_per_fact q =
     (case gq_max_evidence_records_per_fact q of Some n \<Rightarrow> n | None \<Rightarrow> DEFAULT_MAX_EVIDENCE_RECORDS_PER_FACT)"


section \<open>Terms of a query\<close>

text \<open>
  What retrieval needs beyond \<open>genv\<close>: \<open>char::is_alphanumeric\<close>; of SQLite's FTS5, the error of an
  ill-formed query, whether a query matches a text, and the rank \<open>bm25\<close> of a row among the rows of its table
  (only its order matters); the text of \<open>rusqlite\<close>'s conversion error.
\<close>

record renv =
  q_alnum :: "nat \<Rightarrow> bool"
  q_syntax :: "str \<Rightarrow> str option"
  q_match :: "str \<Rightarrow> str \<Rightarrow> bool"
  q_bm25 :: "str \<Rightarrow> fts_row list \<Rightarrow> fts_row \<Rightarrow> int"
  q_conversion :: "str \<Rightarrow> str"

definition GRAPH_RETRIEVAL_STOP_WORDS :: "str list" where
  "GRAPH_RETRIEVAL_STOP_WORDS = map lit [''a'', ''an'', ''and'', ''are'', ''as'', ''at'', ''be'', ''did'',
     ''do'', ''does'', ''for'', ''from'', ''had'', ''has'', ''have'', ''how'', ''in'', ''is'', ''of'', ''on'',
     ''or'', ''the'', ''to'', ''was'', ''were'', ''what'', ''when'', ''where'', ''which'', ''who'', ''whom'',
     ''whose'', ''why'', ''would'']"

definition is_graph_retrieval_stop_word :: "str \<Rightarrow> bool" where
  "is_graph_retrieval_stop_word term =
     list_ex (\<lambda>w. map ascii_lower term = map ascii_lower w) GRAPH_RETRIEVAL_STOP_WORDS"

definition is_ascii_punctuation :: "nat \<Rightarrow> bool" where
  "is_ascii_punctuation c \<longleftrightarrow> 33 \<le> c \<and> c \<le> 47 \<or> 58 \<le> c \<and> c \<le> 64 \<or> 91 \<le> c \<and> c \<le> 96 \<or> 123 \<le> c \<and> c \<le> 126"

definition trim_matches :: "(nat \<Rightarrow> bool) \<Rightarrow> str \<Rightarrow> str" where
  "trim_matches P s = rev (dropWhile P (rev (dropWhile P s)))"

definition normalize_graph_query_term :: "str \<Rightarrow> str" where
  "normalize_graph_query_term term = trim_matches (\<lambda>c. is_ascii_punctuation c \<and> c \<noteq> 34) (trim term)"

definition graph_query_terms :: "str \<Rightarrow> str list" where
  "graph_query_terms query = take MAX_GRAPH_FTS_QUERY_TERMS
     (filter (\<lambda>t. \<not> (t = [] \<or> is_graph_retrieval_stop_word t))
       (map normalize_graph_query_term (split_whitespace query)))"

definition quote_term :: "bool \<Rightarrow> str \<Rightarrow> str" where
  "quote_term prefix term = [34] @ concat (map (\<lambda>c. if c = 34 then [34, 34] else [c]) term) @ [34]
     @ (if prefix then [42] else [])"

definition graph_fts_query_from_terms :: "str list \<Rightarrow> bool \<Rightarrow> str option" where
  "graph_fts_query_from_terms terms prefix =
     (if terms = [] then None else Some (join_with (lit '' OR '') (map (quote_term prefix) terms)))"

fun token_loop :: "(nat \<Rightarrow> bool) \<Rightarrow> str \<Rightarrow> str \<Rightarrow> str list" where
  "token_loop alnum [] current = (if current = [] then [] else [current])"
| "token_loop alnum (c # cs) current =
     (if alnum c then token_loop alnum cs (current @ [c])
      else if current \<noteq> [] then current # token_loop alnum cs [] else token_loop alnum cs [])"

definition graph_match_tokens :: "genv \<Rightarrow> renv \<Rightarrow> str \<Rightarrow> str list" where
  "graph_match_tokens E R value = token_loop (q_alnum R) (normalize_graph_text E value) []"

definition contiguous_token_match_position :: "str list \<Rightarrow> str list \<Rightarrow> nat option" where
  "contiguous_token_match_position query_tokens name_tokens =
     (if name_tokens = [] \<or> length name_tokens > length query_tokens then None
      else find (\<lambda>i. take (length name_tokens) (drop i query_tokens) = name_tokens)
        [0..<length query_tokens - length name_tokens + 1])"

record GraphFtsQueryPlan =
  pl_entity_fts_query :: "str option"
  pl_relation_fts_query :: "str option"

definition relation_terms :: "genv \<Rightarrow> renv \<Rightarrow> str \<Rightarrow> str list \<Rightarrow> str list" where
  "relation_terms E R query names =
     (let target_terms = set (concat (map (graph_match_tokens E R) names))
      in filter (\<lambda>t. list_all (\<lambda>token. token \<notin> target_terms) (graph_match_tokens E R t)) (graph_query_terms query))"

definition graph_fts_query_plan :: "genv \<Rightarrow> renv \<Rightarrow> str \<Rightarrow> str list \<Rightarrow> GraphFtsQueryPlan" where
  "graph_fts_query_plan E R query names =
     (let target_fts_terms = concat (map graph_query_terms names);
          rel_terms = relation_terms E R query names;
          entity_terms = (if target_fts_terms = [] then graph_query_terms query
            else take MAX_GRAPH_FTS_QUERY_TERMS (target_fts_terms @ rel_terms))
      in \<lparr>pl_entity_fts_query = graph_fts_query_from_terms entity_terms False,
          pl_relation_fts_query = graph_fts_query_from_terms rel_terms True\<rparr>)"


section \<open>Actors named by a query\<close>

record ResolvedGraphSubject =
  sj_entity_id :: str
  sj_matched_name :: str

text \<open>A match: its position, its length in tokens and the name; by entity.\<close>

type_synonym actor_match = "nat \<times> nat \<times> str"

definition record_query_actor_match ::
    "genv \<Rightarrow> renv \<Rightarrow> str list \<Rightarrow> str \<times> str \<Rightarrow> (str \<times> actor_match) list \<Rightarrow> (str \<times> actor_match) list" where
  "record_query_actor_match E R query_tokens row matches =
     (let (entity_id, display_name) = row; name_tokens = graph_match_tokens E R display_name
      in case contiguous_token_match_position query_tokens name_tokens of
           None \<Rightarrow> matches
         | Some position \<Rightarrow>
            (let candidate = (position, length name_tokens, display_name)
             in upsert entity_id (\<lambda>current.
               if fst candidate < fst current
                  \<or> fst candidate = fst current \<and> fst (snd candidate) > fst (snd current)
               then candidate else current) candidate matches))"

text \<open>Position, length in tokens, entity and name; the sort puts the longest match of a position first.\<close>

type_synonym placed_match = "nat \<times> nat \<times> str \<times> str"

definition placed_matches :: "(str \<times> actor_match) list \<Rightarrow> placed_match list" where
  "placed_matches matches =
     sort_key (\<lambda>(position, len, entity_id, name). (position, - int len, entity_id))
       (map (\<lambda>(entity_id, position, len, name). (position, len, entity_id, name)) matches)"

text \<open>
  The selection goes from position to position: a position with one longest match takes it, unless the
  match overlaps one taken before.
\<close>

function select_actors :: "placed_match list \<Rightarrow> nat list \<Rightarrow> ResolvedGraphSubject list" where
  "select_actors [] occupied = []"
| "select_actors (m # ms) occupied =
     (let position = fst m;
          group = m # takeWhile (\<lambda>x. fst x = position) ms;
          rest = dropWhile (\<lambda>x. fst x = position) ms;
          longest = fst (snd m);
          equally_specific = length (takeWhile (\<lambda>x. \<not> fst (snd x) < longest) group);
          span = [position..<position + longest];
          overlaps_selected = list_ex (\<lambda>i. i \<in> set occupied) span
      in if equally_specific = 1 \<and> \<not> overlaps_selected
         then \<lparr>sj_entity_id = fst (snd (snd m)), sj_matched_name = snd (snd (snd m))\<rparr>
           # select_actors rest (occupied @ span)
         else select_actors rest occupied)"
  by pat_completeness auto

termination
  by (relation "measure (length \<circ> fst)") (auto simp: less_Suc_eq_le length_dropWhile_le)

end
