(* ===== verification/GraphRetrieve.thy ===== *)
theory GraphRetrieve
  imports GraphQuery
begin

text \<open>
  Graph retrieval (\<open>retrieve_context_sync\<close> and its helpers in \<open>sqlite/graph_repository.rs\<close>, the context
  types of \<open>graph/types.rs\<close>): the queries on the graph's tables, the seeds they give, the facts
  the seeds lead to, the rows loaded for them and the bundle of the answer. A query is the join of the rows
  of its tables, filtered, sorted by its \<open>ORDER BY\<close> and cut at its limit. The operation holds the
  repository's lock and reads one state.
\<close>

section \<open>Full-text tables\<close>

definition fts_check :: "renv \<Rightarrow> str \<Rightarrow> unit mresult" where
  "fts_check R fts_query = (case q_syntax R fts_query of Some e \<Rightarrow> Inl (MSqlite e) | None \<Rightarrow> Inr ())"

definition fts_rows :: "renv \<Rightarrow> str \<Rightarrow> str \<Rightarrow> fts_row list \<Rightarrow> fts_row list" where
  "fts_rows R fts_query sid table =
     filter (\<lambda>(i, s, content). q_match R fts_query content \<and> s = sid) table"

definition SOURCE_ACTOR :: str where "SOURCE_ACTOR = lit ''source_actor''"

definition entity_has_source_actor_link :: "GraphDb \<Rightarrow> str \<Rightarrow> str \<Rightarrow> bool" where
  "entity_has_source_actor_link db sid entity_id = list_ex (\<lambda>l. rel_memory_space_id l = sid
     \<and> rel_entity_id l = entity_id \<and> rel_link_kind l = SOURCE_ACTOR) (gd_links db)"

text \<open>The rows of the full-text indexes joined with the tables they index.\<close>

definition matched_entities :: "renv \<Rightarrow> str \<Rightarrow> str \<Rightarrow> GraphDb \<Rightarrow> (fts_row \<times> Entity) list" where
  "matched_entities R fts_query sid db = [(r, e). r \<leftarrow> fts_rows R fts_query sid (gd_entity_fts db),
     e \<leftarrow> gd_entities db, ent_id e = fst r \<and> ent_memory_space_id e = fst (snd r) \<and> active_entity e]"

definition matched_aliases :: "renv \<Rightarrow> str \<Rightarrow> str \<Rightarrow> GraphDb \<Rightarrow> (fts_row \<times> EntityAlias \<times> Entity) list" where
  "matched_aliases R fts_query sid db = [(r, a, e). r \<leftarrow> fts_rows R fts_query sid (gd_alias_fts db),
     a \<leftarrow> gd_aliases db, als_id a = fst r \<and> als_memory_space_id a = fst (snd r) \<and> als_deleted_at_ms a = None,
     e \<leftarrow> gd_entities db, ent_id e = als_entity_id a \<and> ent_memory_space_id e = als_memory_space_id a
       \<and> active_entity e]"

text \<open>The condition every query puts on facts: active, no self-loop, not merely a mention.\<close>

definition retrievable_fact :: "str \<Rightarrow> Fact \<Rightarrow> bool" where
  "retrievable_fact sid f \<longleftrightarrow> fct_memory_space_id f = sid \<and> active_fact f
     \<and> fct_subject_entity_id f \<noteq> fct_object_entity_id f \<and> fct_predicate f \<noteq> lit ''MENTIONED''"

definition about_subject :: "str option \<Rightarrow> Fact \<Rightarrow> bool" where
  "about_subject target f \<longleftrightarrow> (case target of None \<Rightarrow> True | Some i \<Rightarrow> fct_subject_entity_id f = i)"

definition matched_facts :: "renv \<Rightarrow> str \<Rightarrow> str \<Rightarrow> str option \<Rightarrow> GraphDb \<Rightarrow> (fts_row \<times> Fact) list" where
  "matched_facts R fts_query sid target db = [(r, f). r \<leftarrow> fts_rows R fts_query sid (gd_fact_fts db),
     f \<leftarrow> gd_facts db, fct_id f = fst r \<and> retrievable_fact sid f \<and> about_subject target f]"

definition matched_records :: "renv \<Rightarrow> str \<Rightarrow> str \<Rightarrow> GraphDb \<Rightarrow> (fts_row \<times> GraphMemoryRow) list" where
  "matched_records R fts_query sid db = [(r, m). r \<leftarrow> fts_rows R fts_query sid (gd_record_fts db),
     m \<leftarrow> gd_records db, rec_id m = fst r \<and> rec_memory_space_id m = fst (snd r)]"

text \<open>Records, their evidence, its group and the fact it supports.\<close>

definition evidenced_facts :: "renv \<Rightarrow> str \<Rightarrow> str \<Rightarrow> str option \<Rightarrow> GraphDb \<Rightarrow> Fact list" where
  "evidenced_facts R fts_query sid target db = [f. (r, m) \<leftarrow> matched_records R fts_query sid db,
     v \<leftarrow> gd_evidence db, evi_memory_record_id v = rec_id m \<and> evi_memory_space_id v = rec_memory_space_id m,
     g \<leftarrow> gd_groups db, evg_id g = evi_evidence_group_id v \<and> evg_memory_space_id g = evi_memory_space_id v,
     f \<leftarrow> gd_facts db, fct_id f = evg_fact_id g \<and> fct_memory_space_id f = evg_memory_space_id g
       \<and> retrievable_fact sid f \<and> about_subject target f]"

text \<open>\<open>GROUP BY id ORDER BY MIN(key), id\<close>.\<close>

definition group_by_min :: "('k::linorder \<times> 'i::linorder) list \<Rightarrow> 'i list" where
  "group_by_min rows = map snd (sort (map (\<lambda>i. (Min (set (map fst (filter (\<lambda>r. snd r = i) rows))), i))
     (remdups (map snd rows))))"


section \<open>Actors of a query\<close>

definition resolve_query_source_actors ::
    "genv \<Rightarrow> renv \<Rightarrow> GraphDb \<Rightarrow> str \<Rightarrow> str \<Rightarrow> nat \<Rightarrow> ResolvedGraphSubject list mresult" where
  "resolve_query_source_actors E R db sid query candidate_limit =
     (let query_tokens = graph_match_tokens E R query
      in if query_tokens = [] then Inr []
         else case graph_fts_query_from_terms (take MAX_GRAPH_FTS_QUERY_TERMS
               (filter (\<lambda>t. \<not> is_graph_retrieval_stop_word t) query_tokens)) False of
           None \<Rightarrow> Inr []
         | Some fts_query \<Rightarrow> and_then (fts_check R fts_query) (\<lambda>_.
             let limit = max 1 (min candidate_limit MAX_GRAPH_SOURCE_ACTOR_CANDIDATES);
                 canonical_rows = take limit (sort_key
                   (\<lambda>(r, e). (q_bm25 R fts_query (gd_entity_fts db) r, ent_created_at_ms e, ent_id e))
                   (filter (\<lambda>(r, e). entity_has_source_actor_link db (ent_memory_space_id e) (ent_id e))
                     (matched_entities R fts_query sid db)));
                 alias_rows = take limit (sort_key
                   (\<lambda>(r, a, e). (q_bm25 R fts_query (gd_alias_fts db) r, als_created_at_ms a, ent_id e))
                   (filter (\<lambda>(r, a, e). entity_has_source_actor_link db (ent_memory_space_id e) (ent_id e))
                     (matched_aliases R fts_query sid db)));
                 matches = fold (record_query_actor_match E R query_tokens)
                   (map (\<lambda>(r, e). (ent_id e, ent_canonical_name e)) canonical_rows
                    @ map (\<lambda>(r, a, e). (ent_id e, als_display_alias a)) alias_rows) []
             in Inr (take MAX_GRAPH_QUERY_ACTORS (select_actors (placed_matches matches) []))))"

definition find_active_entity_by_normalized_name :: "GraphDb \<Rightarrow> str \<Rightarrow> str \<Rightarrow> str option" where
  "find_active_entity_by_normalized_name db sid normalized_name =
     (if trim normalized_name = [] then None
      else case sort_key (\<lambda>e. (ent_created_at_ms e, ent_id e))
          (filter (\<lambda>e. ent_memory_space_id e = sid \<and> ent_normalized_name e = normalized_name
             \<and> active_entity e) (gd_entities db)) of
        e # _ \<Rightarrow> Some (ent_id e)
      | [] \<Rightarrow> (case sort_key (\<lambda>(a, e). (als_created_at_ms a, ent_created_at_ms e, ent_id e))
          [(a, e). a \<leftarrow> gd_aliases db, als_memory_space_id a = sid \<and> als_normalized_alias a = normalized_name,
             e \<leftarrow> gd_entities db, ent_id e = als_entity_id a \<and> ent_memory_space_id e = als_memory_space_id a
               \<and> active_entity e] of
          (a, e) # _ \<Rightarrow> Some (ent_id e)
        | [] \<Rightarrow> None))"


section \<open>Seeds\<close>

datatype GraphSeedKind = EntitySeed | FactSeed

record GraphSeed =
  sd_kind :: GraphSeedKind
  sd_id :: str
  sd_score :: f32

definition append_ranked_seeds :: "GraphSeedKind \<Rightarrow> str list \<Rightarrow> f32 \<Rightarrow> GraphSeed list \<Rightarrow> GraphSeed list" where
  "append_ranked_seeds kind raw_rows weight seeds = seeds @
     map (\<lambda>(index, i). \<lparr>sd_kind = kind, sd_id = i, sd_score = ranked_score weight index\<rparr>)
       (enumerate 0 raw_rows)"

definition collect_entity_name_seeds ::
    "renv \<Rightarrow> GraphDb \<Rightarrow> str \<Rightarrow> str \<Rightarrow> nat \<Rightarrow> GraphSeed list \<Rightarrow> GraphSeed list mresult" where
  "collect_entity_name_seeds R db sid fts_query limit seeds = and_then (fts_check R fts_query) (\<lambda>_.
     Inr (append_ranked_seeds EntitySeed (map (ent_id \<circ> snd) (take limit (sort_key
       (\<lambda>(r, e). (q_bm25 R fts_query (gd_entity_fts db) r, ent_created_at_ms e, ent_id e))
       (matched_entities R fts_query sid db)))) ENTITY_EXPANSION_SEED_WEIGHT seeds))"

definition collect_entity_alias_seeds ::
    "renv \<Rightarrow> GraphDb \<Rightarrow> str \<Rightarrow> str \<Rightarrow> nat \<Rightarrow> GraphSeed list \<Rightarrow> GraphSeed list mresult" where
  "collect_entity_alias_seeds R db sid fts_query limit seeds = and_then (fts_check R fts_query) (\<lambda>_.
     Inr (append_ranked_seeds EntitySeed (take limit (group_by_min
       (map (\<lambda>(r, a, e). (als_created_at_ms a, ent_id e)) (matched_aliases R fts_query sid db))))
       ENTITY_EXPANSION_SEED_WEIGHT seeds))"

definition collect_fact_text_seeds ::
    "renv \<Rightarrow> GraphDb \<Rightarrow> str \<Rightarrow> str \<Rightarrow> nat \<Rightarrow> str option \<Rightarrow> GraphSeed list \<Rightarrow> GraphSeed list mresult" where
  "collect_fact_text_seeds R db sid fts_query limit target seeds = and_then (fts_check R fts_query) (\<lambda>_.
     Inr (append_ranked_seeds FactSeed (map (fct_id \<circ> snd) (take limit (sort_key
       (\<lambda>(r, f). (q_bm25 R fts_query (gd_fact_fts db) r, fct_recorded_at_ms f, fct_id f))
       (matched_facts R fts_query sid target db)))) FACT_TEXT_SEED_WEIGHT seeds))"

definition collect_record_evidence_fact_seeds ::
    "renv \<Rightarrow> GraphDb \<Rightarrow> str \<Rightarrow> str \<Rightarrow> nat \<Rightarrow> str option \<Rightarrow> GraphSeed list \<Rightarrow> GraphSeed list mresult" where
  "collect_record_evidence_fact_seeds R db sid fts_query limit target seeds =
     and_then (fts_check R fts_query) (\<lambda>_.
     Inr (append_ranked_seeds FactSeed (take limit (group_by_min
       (map (\<lambda>f. (fct_recorded_at_ms f, fct_id f)) (evidenced_facts R fts_query sid target db))))
       FACT_TEXT_SEED_WEIGHT seeds))"

definition merge_graph_seeds :: "GraphSeed list \<Rightarrow> nat \<Rightarrow> GraphSeed list" where
  "merge_graph_seeds seeds limit =
     (let best_by_key = fold (\<lambda>s. upsert (sd_kind s, sd_id s) (\<lambda>score. f_max score (sd_score s)) (sd_score s)) seeds []
      in take limit (sort_key (\<lambda>s. (- f_total_key (sd_score s), sd_id s))
           (map (\<lambda>((kind, i), score). \<lparr>sd_kind = kind, sd_id = i, sd_score = score\<rparr>) best_by_key)))"

definition collect_graph_seeds ::
    "renv \<Rightarrow> GraphDb \<Rightarrow> str \<Rightarrow> str option \<Rightarrow> str option \<Rightarrow> nat \<Rightarrow> str option \<Rightarrow> GraphSeed list mresult" where
  "collect_graph_seeds R db sid entity_fts_query relation_fts_query limit target =
     (if limit = 0 then Inr []
      else and_then (case entity_fts_query of
             None \<Rightarrow> Inr []
           | Some fts_query \<Rightarrow> and_then (collect_entity_name_seeds R db sid fts_query limit [])
               (collect_entity_alias_seeds R db sid fts_query limit)) (\<lambda>seeds.
           and_then (case relation_fts_query of
             None \<Rightarrow> Inr seeds
           | Some fts_query \<Rightarrow> and_then (collect_fact_text_seeds R db sid fts_query limit target seeds)
               (collect_record_evidence_fact_seeds R db sid fts_query limit target)) (\<lambda>seeds.
           Inr (merge_graph_seeds seeds limit))))"


section \<open>From seeds to facts\<close>

record FactCandidate =
  fcn_fact_id :: str
  fcn_score :: f32
  fcn_path :: "str list"
  fcn_recorded_at_ms :: nat

definition fact_candidate_path_rank :: "str list \<Rightarrow> nat" where
  "fact_candidate_path_rank path = (case path of
     [] \<Rightarrow> 2
   | first # _ \<Rightarrow> if starts_with first (lit ''fact:'') then 0
       else if starts_with first (lit ''entity:'') then 1 else 2)"

definition is_better_fact_candidate :: "FactCandidate \<Rightarrow> FactCandidate \<Rightarrow> bool" where
  "is_better_fact_candidate candidate existing =
     (if f_gt (fcn_score candidate) (fcn_score existing) then True
      else if f_gt (f_distance (fcn_score candidate) (fcn_score existing)) F32_EPSILON then False
      else (let candidate_rank = fact_candidate_path_rank (fcn_path candidate);
                existing_rank = fact_candidate_path_rank (fcn_path existing)
            in candidate_rank < existing_rank
               \<or> candidate_rank = existing_rank \<and> fcn_path candidate < fcn_path existing))"

definition upsert_fact_candidate ::
    "FactCandidate \<Rightarrow> (str \<times> FactCandidate) list \<Rightarrow> (str \<times> FactCandidate) list" where
  "upsert_fact_candidate candidate = upsert (fcn_fact_id candidate)
     (\<lambda>existing. if is_better_fact_candidate candidate existing then candidate else existing) candidate"

definition active_fact_recorded_at :: "GraphDb \<Rightarrow> str \<Rightarrow> str \<Rightarrow> str option \<Rightarrow> nat option" where
  "active_fact_recorded_at db sid fact_id target = map_option fct_recorded_at_ms
     (find (\<lambda>f. fct_id f = fact_id \<and> retrievable_fact sid f \<and> about_subject target f) (gd_facts db))"

definition active_facts_for_entity :: "GraphDb \<Rightarrow> str \<Rightarrow> str \<Rightarrow> nat \<Rightarrow> str option \<Rightarrow> (str \<times> nat) list" where
  "active_facts_for_entity db sid entity_id limit target =
     map (\<lambda>f. (fct_id f, fct_recorded_at_ms f)) (take limit (sort_key (\<lambda>f. (fct_recorded_at_ms f, fct_id f))
       (filter (\<lambda>f. retrievable_fact sid f \<and> about_subject target f
          \<and> (fct_subject_entity_id f = entity_id \<or> fct_object_entity_id f = entity_id)) (gd_facts db))))"

text \<open>The first target, if any are given, the fact is about.\<close>

fun recorded_for_targets :: "GraphDb \<Rightarrow> str \<Rightarrow> str \<Rightarrow> str list \<Rightarrow> nat option" where
  "recorded_for_targets db sid fact_id [] = None"
| "recorded_for_targets db sid fact_id (t # ts) =
     (case active_fact_recorded_at db sid fact_id (Some t) of
        Some n \<Rightarrow> Some n
      | None \<Rightarrow> recorded_for_targets db sid fact_id ts)"

definition fact_seed_candidates :: "GraphDb \<Rightarrow> str \<Rightarrow> str list \<Rightarrow> GraphSeed \<Rightarrow> FactCandidate list" where
  "fact_seed_candidates db sid targets s =
     (case (if targets = [] then active_fact_recorded_at db sid (sd_id s) None
            else recorded_for_targets db sid (sd_id s) targets) of
        None \<Rightarrow> []
      | Some n \<Rightarrow> [\<lparr>fcn_fact_id = sd_id s, fcn_score = sd_score s,
          fcn_path = [lit ''fact:'' @ sd_id s], fcn_recorded_at_ms = n\<rparr>])"

definition entity_seed_candidates :: "GraphDb \<Rightarrow> str \<Rightarrow> nat \<Rightarrow> str list \<Rightarrow> GraphSeed \<Rightarrow> FactCandidate list" where
  "entity_seed_candidates db sid limit targets s =
     map (\<lambda>(fact_id, n). \<lparr>fcn_fact_id = fact_id, fcn_score = sd_score s,
         fcn_path = [lit ''entity:'' @ sd_id s, lit ''fact:'' @ fact_id], fcn_recorded_at_ms = n\<rparr>)
       (concat (map (active_facts_for_entity db sid (sd_id s) limit)
          (if targets = [] then [None] else map Some targets)))"

definition expand_seed_facts ::
    "GraphDb \<Rightarrow> str \<Rightarrow> GraphSeed list \<Rightarrow> nat \<Rightarrow> str list \<Rightarrow> FactCandidate list" where
  "expand_seed_facts db sid seeds limit targets =
     (if limit = 0 \<or> seeds = [] then []
      else let has_direct_fact_seed = list_ex (\<lambda>s. sd_kind s = FactSeed \<and> f_gt (sd_score s) 0) seeds;
               candidates = concat (map (\<lambda>s. case sd_kind s of
                   FactSeed \<Rightarrow> fact_seed_candidates db sid targets s
                 | EntitySeed \<Rightarrow> if has_direct_fact_seed then [] else entity_seed_candidates db sid limit targets s)
                 seeds)
           in take limit (sort_key (\<lambda>c. (- f_total_key (fcn_score c), fcn_recorded_at_ms c, fcn_fact_id c))
                (map snd (fold upsert_fact_candidate candidates []))))"

end
