(* ===== verification/GraphContext.thy ===== *)
theory GraphContext
  imports GraphRetrieve
begin

text \<open>
  The rows behind the facts of a retrieval, the bundle, and the operation itself, with the reads of a
  single record, of an extraction run and of the number of facts. A stored value that does not decode
  is an error.
\<close>

section \<open>Decoding\<close>

text \<open>A loop that collects results and stops at the first error.\<close>

fun collect_ok :: "('a \<Rightarrow> 'e + 'b) \<Rightarrow> 'a list \<Rightarrow> 'e + 'b list" where
  "collect_ok f [] = Inr []"
| "collect_ok f (x # xs) = and_then (f x) (\<lambda>y. and_then (collect_ok f xs) (\<lambda>ys. Inr (y # ys)))"

fun chunks4 :: "'a list \<Rightarrow> 'a list list" where
  "chunks4 (a # b # c # d # xs) = [a, b, c, d] # chunks4 xs"
| "chunks4 xs = []"

definition int_str :: "int \<Rightarrow> str" where
  "int_str i = (if i < 0 then 45 # dec_str (nat (- i)) else dec_str (nat i))"

definition blob_to_embedding :: "8 word list option \<Rightarrow> int option \<Rightarrow> str \<Rightarrow> f32 list option mresult" where
  "blob_to_embedding bytes expected_dims record_id =
     (case bytes of
        None \<Rightarrow> Inr None
      | Some bytes \<Rightarrow>
          if length bytes mod 4 \<noteq> 0 then
            Inl (MStoreBackend (lit ''invalid embedding blob length for graph record '' @ [39] @ record_id
              @ [39] @ lit '': '' @ dec_str (length bytes)))
          else let embedding = map from_le_bytes (chunks4 bytes)
               in case expected_dims of
                    None \<Rightarrow> Inr (Some embedding)
                  | Some d \<Rightarrow> if length embedding \<noteq> nat (d mod 2 ^ 64) then
                        Inl (MStoreBackend (lit ''embedding dims mismatch for graph record '' @ [39] @ record_id
                          @ [39] @ lit '': blob has '' @ dec_str (length embedding)
                          @ lit '' dims but stored dims is '' @ int_str d))
                      else Inr (Some embedding))"

datatype FactStatus = FsActive | FsSuperseded | FsRetracted | FsUnsupported

definition parse_fact_status :: "str \<Rightarrow> FactStatus mresult" where
  "parse_fact_status status =
     (if status = ACTIVE then Inr FsActive
      else if status = lit ''superseded'' then Inr FsSuperseded
      else if status = lit ''retracted'' then Inr FsRetracted
      else if status = lit ''unsupported'' then Inr FsUnsupported
      else Inl (MStoreBackend (lit ''unknown graph fact status '' @ [39] @ status @ [39])))"

record GraphMemoryRecord =
  gm_id :: str
  gm_memory_space_id :: str
  gm_session_id :: "str option"
  gm_ingestion_sequence :: int
  gm_session_sequence :: "int option"
  gm_text :: str
  gm_metadata :: json
  gm_source_kind :: str
  gm_source_ref :: "str option"
  gm_content_role :: str
  gm_created_by_agent_id :: "str option"
  gm_observed_at_ms :: "u64 option"
  gm_embedding :: "f32 list option"
  gm_embedding_model :: "str option"
  gm_embedding_version :: "str option"
  gm_created_at_ms :: nat
  gm_updated_at_ms :: nat

definition record_of_row :: "GraphMemoryRow \<Rightarrow> json \<Rightarrow> f32 list option \<Rightarrow> GraphMemoryRecord" where
  "record_of_row m metadata embedding =
     \<lparr>gm_id = rec_id m, gm_memory_space_id = rec_memory_space_id m, gm_session_id = rec_session_id m,
      gm_ingestion_sequence = rec_ingestion_sequence m, gm_session_sequence = rec_session_sequence m,
      gm_text = rec_text m, gm_metadata = metadata, gm_source_kind = rec_source_kind m,
      gm_source_ref = rec_source_ref m, gm_content_role = rec_content_role m,
      gm_created_by_agent_id = rec_created_by_agent_id m, gm_observed_at_ms = rec_observed_at_ms m,
      gm_embedding = embedding, gm_embedding_model = rec_embedding_model m,
      gm_embedding_version = rec_embedding_version m, gm_created_at_ms = rec_created_at_ms m,
      gm_updated_at_ms = rec_updated_at_ms m\<rparr>"

text \<open>A record with its embedding, and one without: there the error of the metadata is SQLite's.\<close>

definition load_record :: "genv \<Rightarrow> GraphMemoryRow \<Rightarrow> GraphMemoryRecord mresult" where
  "load_record E m = and_then (parse_json E (rec_metadata_json m)) (\<lambda>metadata.
     and_then (blob_to_embedding (rec_embedding m) (rec_embedding_dims m) (rec_id m)) (\<lambda>embedding.
     Inr (record_of_row m metadata embedding)))"

definition graph_memory_record_from_row :: "genv \<Rightarrow> renv \<Rightarrow> GraphMemoryRow \<Rightarrow> GraphMemoryRecord mresult" where
  "graph_memory_record_from_row E R m =
     (case g_from_str E (rec_metadata_json m) of
        Inl e \<Rightarrow> Inl (MSqlite (q_conversion R e))
      | Inr metadata \<Rightarrow> Inr (record_of_row m metadata None))"

definition get_graph_memory_record_sync :: "genv \<Rightarrow> str \<Rightarrow> str \<Rightarrow> GraphDb \<Rightarrow> GraphMemoryRecord mresult" where
  "get_graph_memory_record_sync E record_id sid db =
     and_then (query_row E (filter (\<lambda>m. rec_id m = record_id \<and> rec_memory_space_id m = sid) (gd_records db)))
       (load_record E)"

definition get_extraction_run_sync :: "genv \<Rightarrow> str \<Rightarrow> str \<Rightarrow> GraphDb \<Rightarrow> ExtractionRun mresult" where
  "get_extraction_run_sync E extraction_run_id sid db =
     query_row E (filter (\<lambda>x. xr_id x = extraction_run_id \<and> xr_memory_space_id x = sid) (gd_extractions db))"

definition get_graph_memory_record ::
    "genv \<Rightarrow> str \<Rightarrow> str \<Rightarrow> GraphRepository \<Rightarrow> GraphMemoryRecord mresult \<times> GraphRepository" where
  "get_graph_memory_record E record_id sid =
     run_sqlite_operation E (\<lambda>_ db. (get_graph_memory_record_sync E record_id sid db, db))"

definition get_extraction_run ::
    "genv \<Rightarrow> str \<Rightarrow> str \<Rightarrow> GraphRepository \<Rightarrow> ExtractionRun mresult \<times> GraphRepository" where
  "get_extraction_run E extraction_run_id sid =
     run_sqlite_operation E (\<lambda>_ db. (get_extraction_run_sync E extraction_run_id sid db, db))"

definition count_facts :: "genv \<Rightarrow> str \<Rightarrow> GraphRepository \<Rightarrow> nat mresult \<times> GraphRepository" where
  "count_facts E sid = run_sqlite_operation E
     (\<lambda>_ db. (Inr (count_where (\<lambda>f. fct_memory_space_id f = sid) (gd_facts db)), db))"


section \<open>The rows of a fact\<close>

definition load_active_fact :: "genv \<Rightarrow> GraphDb \<Rightarrow> str \<Rightarrow> str \<Rightarrow> (Fact \<times> FactStatus) mresult" where
  "load_active_fact E db sid fact_id =
     and_then (query_row E (filter (\<lambda>f. fct_id f = fact_id \<and> fct_memory_space_id f = sid \<and> active_fact f)
        (gd_facts db))) (\<lambda>f.
     and_then (parse_fact_status (fct_status f)) (\<lambda>status. Inr (f, status)))"

definition load_entity :: "genv \<Rightarrow> GraphDb \<Rightarrow> str \<Rightarrow> str \<Rightarrow> Entity mresult" where
  "load_entity E db sid entity_id =
     query_row E (filter (\<lambda>e. ent_id e = entity_id \<and> ent_memory_space_id e = sid \<and> active_entity e)
       (gd_entities db))"

definition recorded_by :: "GraphDb \<Rightarrow> str option \<Rightarrow> GraphMemoryRow \<Rightarrow> bool" where
  "recorded_by db target m \<longleftrightarrow> (case target of None \<Rightarrow> True
     | Some i \<Rightarrow> list_ex (\<lambda>l. rel_memory_space_id l = rec_memory_space_id m \<and> rel_memory_record_id l = rec_id m
         \<and> rel_entity_id l = i \<and> rel_link_kind l = SOURCE_ACTOR) (gd_links db))"

text \<open>The records behind a fact; \<open>DISTINCT\<close> keeps the first row of each in the order of the join.\<close>

definition evidence_rows :: "GraphDb \<Rightarrow> str \<Rightarrow> str \<Rightarrow> str option
      \<Rightarrow> (FactEvidenceGroup \<times> FactEvidence \<times> GraphMemoryRow) list" where
  "evidence_rows db sid fact_id target = [(g, v, m). g \<leftarrow> gd_groups db,
     evg_fact_id g = fact_id \<and> evg_memory_space_id g = sid,
     v \<leftarrow> gd_evidence db, evi_evidence_group_id v = evg_id g \<and> evi_memory_space_id v = evg_memory_space_id g,
     m \<leftarrow> gd_records db, rec_id m = evi_memory_record_id v \<and> rec_memory_space_id m = evi_memory_space_id v
       \<and> recorded_by db target m]"

fun first_by :: "('a \<Rightarrow> 'k) \<Rightarrow> 'a list \<Rightarrow> 'a list" where
  "first_by k [] = []"
| "first_by k (x # xs) = x # first_by k (filter (\<lambda>y. k y \<noteq> k x) xs)"

definition load_evidence_records_for_fact ::
    "genv \<Rightarrow> GraphDb \<Rightarrow> str \<Rightarrow> str \<Rightarrow> nat \<Rightarrow> str option \<Rightarrow> GraphMemoryRecord list mresult" where
  "load_evidence_records_for_fact E db sid fact_id limit target =
     collect_ok (load_record E) (take limit (map (\<lambda>(g, v, m). m) (sort_key
       (\<lambda>(g, v, m). (evg_created_at_ms g, evi_created_at_ms v, rec_id m))
       (first_by (\<lambda>(g, v, m). m) (evidence_rows db sid fact_id target)))))"


section \<open>Context units\<close>

record FactContextUnit =
  fu_fact_id :: str
  fu_fact_text :: str
  fu_subject_entity :: Entity
  fu_object_entity :: Entity
  fu_predicate :: str
  fu_evidence_records :: "GraphMemoryRecord list"
  fu_path :: "str list"
  fu_score :: f32
  fu_status :: FactStatus
  fu_valid_from_ms :: "u64 option"
  fu_valid_to_ms :: "u64 option"
  fu_recorded_at_ms :: nat

datatype EvidenceRecordMatchKind = Lexical

record EvidenceRecordContextUnit =
  eru_record :: GraphMemoryRecord
  eru_path :: "str list"
  eru_score :: f32
  eru_match_kind :: EvidenceRecordMatchKind

text \<open>The path of a unit: that of its candidate and every record, once.\<close>

definition push_record_path :: "GraphMemoryRecord \<Rightarrow> str list \<Rightarrow> str list" where
  "push_record_path r path = (let record_path = lit ''record:'' @ gm_id r
     in if record_path \<in> set path then path else path @ [record_path])"

definition evidence_target :: "str option \<Rightarrow> str list \<Rightarrow> Fact \<Rightarrow> str option" where
  "evidence_target explicit inferred f = (case explicit of Some i \<Rightarrow> Some i
     | None \<Rightarrow> if fct_subject_entity_id f \<in> set inferred then Some (fct_subject_entity_id f) else None)"

definition load_fact_context_unit ::
    "genv \<Rightarrow> GraphDb \<Rightarrow> GraphRetrieveContextRequest \<Rightarrow> str option \<Rightarrow> str list \<Rightarrow> FactCandidate
      \<Rightarrow> (FactContextUnit \<times> (Fact \<times> FactStatus)) mresult" where
  "load_fact_context_unit E db q explicit inferred c =
     (let sid = gq_memory_space_id q
      in and_then (load_active_fact E db sid (fcn_fact_id c)) (\<lambda>(f, status).
         and_then (load_entity E db sid (fct_subject_entity_id f)) (\<lambda>subject.
         and_then (load_entity E db sid (fct_object_entity_id f)) (\<lambda>object.
         and_then (load_evidence_records_for_fact E db sid (fct_id f) (max_evidence_records_per_fact q)
            (evidence_target explicit inferred f)) (\<lambda>records.
         Inr (\<lparr>fu_fact_id = fct_id f, fu_fact_text = fct_fact_text f, fu_subject_entity = subject,
               fu_object_entity = object, fu_predicate = fct_predicate f, fu_evidence_records = records,
               fu_path = fold push_record_path records (fcn_path c), fu_score = fcn_score c,
               fu_status = status, fu_valid_from_ms = fct_valid_from_ms f,
               fu_valid_to_ms = fct_valid_to_ms f, fu_recorded_at_ms = fct_recorded_at_ms f\<rparr>,
              (f, status)))))))"

definition load_fact_context_units ::
    "genv \<Rightarrow> GraphDb \<Rightarrow> GraphRetrieveContextRequest \<Rightarrow> FactCandidate list \<Rightarrow> str option \<Rightarrow> str list
      \<Rightarrow> (FactContextUnit \<times> (Fact \<times> FactStatus)) list mresult" where
  "load_fact_context_units E db q candidates explicit inferred =
     collect_ok (load_fact_context_unit E db q explicit inferred) candidates"

definition load_direct_evidence_record_context_units ::
    "genv \<Rightarrow> renv \<Rightarrow> GraphDb \<Rightarrow> GraphRetrieveContextRequest \<Rightarrow> str \<Rightarrow> str option
      \<Rightarrow> EvidenceRecordContextUnit list mresult" where
  "load_direct_evidence_record_context_units E R db q fts_query target =
     (if gq_top_k q = 0 then Inr []
      else and_then (fts_check R fts_query) (\<lambda>_.
           and_then (collect_ok (graph_memory_record_from_row E R) (map snd (take (seed_limit q) (sort_key
               (\<lambda>(r, m). (q_bm25 R fts_query (gd_record_fts db) r, rec_ingestion_sequence m, rec_id m))
               (filter (\<lambda>(r, m). recorded_by db target m)
                 (matched_records R fts_query (gq_memory_space_id q) db)))))) (\<lambda>records.
           Inr (map (\<lambda>(index, record). \<lparr>eru_record = record, eru_path = [lit ''record:'' @ gm_id record],
                 eru_score = ranked_score DIRECT_EVIDENCE_RECORD_WEIGHT index, eru_match_kind = Lexical\<rparr>)
               (enumerate 0 (take (gq_top_k q) records))))))"

definition best_by_record :: "EvidenceRecordContextUnit list \<Rightarrow> EvidenceRecordContextUnit list" where
  "best_by_record units = map snd (fold (\<lambda>u. upsert (gm_id (eru_record u))
     (\<lambda>existing. if f_gt (eru_score u) (eru_score existing) then u else existing) u) units [])"

definition evidence_speakers :: "str option \<Rightarrow> str list \<Rightarrow> str option list" where
  "evidence_speakers explicit inferred = (case explicit of Some i \<Rightarrow> [Some i]
     | None \<Rightarrow> if inferred = [] then [None] else map Some (sort (remdups inferred)))"

definition load_direct_evidence_record_context_units_for_entities ::
    "genv \<Rightarrow> renv \<Rightarrow> GraphDb \<Rightarrow> GraphRetrieveContextRequest \<Rightarrow> str \<Rightarrow> str option \<Rightarrow> str list
      \<Rightarrow> EvidenceRecordContextUnit list mresult" where
  "load_direct_evidence_record_context_units_for_entities E R db q fts_query explicit inferred =
     and_then (collect_ok (load_direct_evidence_record_context_units E R db q fts_query)
       (evidence_speakers explicit inferred)) (\<lambda>unitss.
     Inr (take (gq_top_k q) (sort_key
       (\<lambda>u. (- f_total_key (eru_score u), gm_ingestion_sequence (eru_record u), gm_id (eru_record u)))
       (best_by_record (concat unitss)))))"


section \<open>The bundle\<close>

record ContextBundle =
  cb_query :: str
  cb_memory_space_id :: str
  cb_reference_time_ms :: nat
  cb_fact_context_units :: "FactContextUnit list"
  cb_evidence_record_context_units :: "EvidenceRecordContextUnit list"
  cb_records :: "GraphMemoryRecord list"
  cb_entities :: "Entity list"
  cb_facts :: "(Fact \<times> FactStatus) list"
  cb_paths :: "str list list"
  cb_degraded_reason :: "str option"

text \<open>The members of the units, the first with each id; no fact link is ever loaded, and the
  truncation note is always absent.\<close>

definition bundle_records :: "FactContextUnit list \<Rightarrow> EvidenceRecordContextUnit list \<Rightarrow> GraphMemoryRecord list" where
  "bundle_records units evidence_units =
     first_by gm_id (concat (map fu_evidence_records units) @ map eru_record evidence_units)"

definition bundle_entities :: "FactContextUnit list \<Rightarrow> Entity list" where
  "bundle_entities units = first_by ent_id (concat (map (\<lambda>u. [fu_subject_entity u, fu_object_entity u]) units))"

definition bundle_facts :: "(Fact \<times> FactStatus) list \<Rightarrow> (Fact \<times> FactStatus) list" where
  "bundle_facts loaded = first_by (fct_id \<circ> fst) loaded"

definition bundle_paths :: "FactContextUnit list \<Rightarrow> EvidenceRecordContextUnit list \<Rightarrow> str list list" where
  "bundle_paths units evidence_units = map fu_path units @ map eru_path evidence_units"


section \<open>Retrieval\<close>

definition retrieval_error :: "GraphRetrieveContextRequest \<Rightarrow> str option" where
  "retrieval_error q =
     (let query = trim (gq_query q); limits = (\<lambda>name max.
          Some (lit ''graph retrieval '' @ lit name @ lit '' must be between 1 and '' @ dec_str max))
      in if query = [] then Some (lit ''graph retrieval query must not be empty'')
         else if byte_len query > MAX_GRAPH_RETRIEVAL_QUERY_BYTES then
           Some (lit ''graph retrieval query must be at most '' @ dec_str MAX_GRAPH_RETRIEVAL_QUERY_BYTES @ lit '' bytes'')
         else if gq_top_k q = 0 \<or> gq_top_k q > MAX_GRAPH_RETRIEVAL_TOP_K then
           limits ''top_k'' MAX_GRAPH_RETRIEVAL_TOP_K
         else if seed_limit q = 0 \<or> seed_limit q > MAX_GRAPH_SEED_LIMIT then
           limits ''seed_limit'' MAX_GRAPH_SEED_LIMIT
         else if max_evidence_records_per_fact q = 0
             \<or> max_evidence_records_per_fact q > MAX_GRAPH_EVIDENCE_RECORDS_PER_FACT then
           limits ''max_evidence_records_per_fact'' MAX_GRAPH_EVIDENCE_RECORDS_PER_FACT
         else None)"

definition resolve_target_subjects ::
    "genv \<Rightarrow> renv \<Rightarrow> GraphDb \<Rightarrow> GraphRetrieveContextRequest \<Rightarrow> ResolvedGraphSubject list mresult" where
  "resolve_target_subjects E R db q =
     (case gq_target_subject_entity_name q of
        Some name \<Rightarrow> Inr (case find_active_entity_by_normalized_name db (gq_memory_space_id q)
            (normalize_graph_text E name) of
          Some i \<Rightarrow> [\<lparr>sj_entity_id = i, sj_matched_name = name\<rparr>]
        | None \<Rightarrow> [])
      | None \<Rightarrow> resolve_query_source_actors E R db (gq_memory_space_id q) (trim (gq_query q)) (seed_limit q))"

definition explicit_evidence_entity :: "genv \<Rightarrow> GraphDb \<Rightarrow> GraphRetrieveContextRequest \<Rightarrow> str option" where
  "explicit_evidence_entity E db q =
     (case gq_target_evidence_speaker q of
        None \<Rightarrow> None
      | Some name \<Rightarrow> (case find_active_entity_by_normalized_name db (gq_memory_space_id q)
            (normalize_graph_text E name) of
          Some i \<Rightarrow> if entity_has_source_actor_link db (gq_memory_space_id q) i then Some i else None
        | None \<Rightarrow> None))"

definition inferred_evidence_entities :: "GraphDb \<Rightarrow> GraphRetrieveContextRequest \<Rightarrow> str list \<Rightarrow> str list" where
  "inferred_evidence_entities db q targets =
     (if gq_target_evidence_speaker q \<noteq> None then []
      else filter (entity_has_source_actor_link db (gq_memory_space_id q)) targets)"

definition retrieval_seeds ::
    "renv \<Rightarrow> GraphDb \<Rightarrow> GraphRetrieveContextRequest \<Rightarrow> GraphFtsQueryPlan \<Rightarrow> str list \<Rightarrow> GraphSeed list mresult" where
  "retrieval_seeds R db q plan targets =
     (let collect = collect_graph_seeds R db (gq_memory_space_id q) (pl_entity_fts_query plan)
          (pl_relation_fts_query plan) (seed_limit q)
      in if targets = [] then collect None
         else and_then (collect_ok (\<lambda>t. collect (Some t)) targets) (\<lambda>seedss.
           Inr (merge_graph_seeds (concat seedss) (seed_limit q))))"

definition direct_evidence_units ::
    "genv \<Rightarrow> renv \<Rightarrow> GraphDb \<Rightarrow> GraphRetrieveContextRequest \<Rightarrow> GraphFtsQueryPlan \<Rightarrow> str option \<Rightarrow> str list
      \<Rightarrow> EvidenceRecordContextUnit list mresult" where
  "direct_evidence_units E R db q plan explicit inferred =
     (case (case pl_relation_fts_query plan of Some r \<Rightarrow> Some r | None \<Rightarrow> pl_entity_fts_query plan) of
        None \<Rightarrow> Inr []
      | Some fts_query \<Rightarrow>
          load_direct_evidence_record_context_units_for_entities E R db q fts_query explicit inferred)"

definition retrieve_context_sync ::
    "genv \<Rightarrow> renv \<Rightarrow> nat \<Rightarrow> GraphRetrieveContextRequest \<Rightarrow> GraphDb \<Rightarrow> ContextBundle mresult" where
  "retrieve_context_sync E R now q db =
     (case retrieval_error q of
        Some e \<Rightarrow> Inl (MInvalidInput e)
      | None \<Rightarrow>
          and_then (resolve_target_subjects E R db q) (\<lambda>subjects.
          let targets = map sj_entity_id subjects;
              plan = graph_fts_query_plan E R (trim (gq_query q)) (map sj_matched_name subjects);
              explicit = explicit_evidence_entity E db q;
              inferred = inferred_evidence_entities db q targets
          in and_then (retrieval_seeds R db q plan targets) (\<lambda>seeds.
             let candidates = expand_seed_facts db (gq_memory_space_id q) seeds (gq_top_k q) targets
             in and_then (load_fact_context_units E db q candidates explicit inferred) (\<lambda>loaded.
                and_then (direct_evidence_units E R db q plan explicit inferred) (\<lambda>evidence_units.
                Inr \<lparr>cb_query = gq_query q, cb_memory_space_id = gq_memory_space_id q,
                     cb_reference_time_ms = (case gq_reference_time_ms q of Some t \<Rightarrow> t | None \<Rightarrow> now),
                     cb_fact_context_units = map fst loaded,
                     cb_evidence_record_context_units = evidence_units,
                     cb_records = bundle_records (map fst loaded) evidence_units,
                     cb_entities = bundle_entities (map fst loaded),
                     cb_facts = bundle_facts (map snd loaded),
                     cb_paths = bundle_paths (map fst loaded) evidence_units,
                     cb_degraded_reason = (if pl_entity_fts_query plan = None
                       then Some (lit ''query produced no graph retrieval terms'') else None)\<rparr>)))))"

definition retrieve_context ::
    "genv \<Rightarrow> renv \<Rightarrow> GraphRetrieveContextRequest \<Rightarrow> GraphRepository
      \<Rightarrow> ContextBundle mresult \<times> GraphRepository" where
  "retrieve_context E R q = run_sqlite_operation E (\<lambda>now db. (retrieve_context_sync E R now q db, db))"

end
