(* ===== verification/GraphFound.thy ===== *)
theory GraphFound
  imports GraphContext GraphPublished
begin

text \<open>
  What retrieval gives back: every fact of the bundle is a retrievable fact of the requested space and
  of the subjects the query named, its entities and records are the rows of the graph it refers to, and
  every list keeps its limit.
\<close>

section \<open>Membership in queries and maps\<close>

lemma collect_ok_Inr: "collect_ok f xs = Inr ys \<longleftrightarrow> list_all2 (\<lambda>x y. f x = Inr y) xs ys"
  by (induction xs arbitrary: ys) (auto simp: list_all2_Cons1)

lemma collect_ok_total: "\<forall>x \<in> set xs. \<exists>y. f x = Inr y \<Longrightarrow> \<exists>ys. collect_ok f xs = Inr ys"
  by (induction xs) auto

lemma collect_ok_mem:
  assumes "collect_ok f xs = Inr ys" "y \<in> set ys" shows "\<exists>x \<in> set xs. f x = Inr y"
  using assms by (induction xs arbitrary: ys) auto

lemma collect_ok_map:
  assumes "collect_ok f xs = Inr ys" "\<And>x y. f x = Inr y \<Longrightarrow> g y = h x"
  shows "map g ys = map h xs"
  using assms unfolding collect_ok_Inr by (induction rule: list_all2_induct) auto

lemma first_by_subset: "set (first_by k xs) \<subseteq> set xs"
  by (induction k xs rule: first_by.induct) auto

lemma first_by_distinct: "distinct (map k (first_by k xs))"
proof (induction k xs rule: first_by.induct)
  case (2 k x xs)
  have "k x \<notin> k ` set (first_by k (filter (\<lambda>y. k y \<noteq> k x) xs))" using first_by_subset by fastforce
  with 2 show ?case by simp
qed simp

lemma first_by_keys: "k ` set (first_by k xs) = k ` set xs"
proof (induction k xs rule: first_by.induct)
  case (2 k x xs)
  then show ?case by auto
qed simp

text \<open>A loop of entries on a map.\<close>

lemma fold_upsert:
  assumes "\<forall>x \<in> set xs. Q (k x) (v x) \<and> (\<forall>w. Q (k x) w \<longrightarrow> Q (k x) (f x w))"
    and "\<forall>(i, w) \<in> set al. Q i w" "distinct (map fst al)"
  shows "(\<forall>(i, w) \<in> set (fold (\<lambda>x. upsert (k x) (f x) (v x)) xs al). Q i w)
    \<and> distinct (map fst (fold (\<lambda>x. upsert (k x) (f x) (v x)) xs al))"
  using assms
proof (induction xs arbitrary: al)
  case (Cons x xs)
  have "\<forall>(i, w) \<in> set (upsert (k x) (f x) (v x) al). Q i w"
    by (rule upsert_all) (use Cons.prems in auto)
  then show ?case
    using Cons.IH [of "upsert (k x) (f x) (v x) al"] Cons.prems by (simp add: upsert_distinct)
qed simp

lemma keyed_values:
  assumes "(\<forall>(i, w) \<in> set al. g w = i \<and> P w) \<and> distinct (map fst al)"
  shows "\<forall>w \<in> set (map snd al). P w" "distinct (map g (map snd al))"
proof -
  show "\<forall>w \<in> set (map snd al). P w" using assms by auto
  have "map g (map snd al) = map fst al" using assms by (induction al) auto
  then show "distinct (map g (map snd al))" using assms by (simp only:)
qed


section \<open>Candidates\<close>

definition candidate_ok :: "GraphDb \<Rightarrow> str \<Rightarrow> str list \<Rightarrow> FactCandidate \<Rightarrow> bool" where
  "candidate_ok db sid subjects c \<longleftrightarrow> (\<exists>f \<in> set (gd_facts db). fct_id f = fcn_fact_id c \<and> retrievable_fact sid f
     \<and> fct_recorded_at_ms f = fcn_recorded_at_ms c \<and> (subjects = [] \<or> fct_subject_entity_id f \<in> set subjects))"

lemma recorded_at_Some:
  assumes "active_fact_recorded_at db sid i t = Some n"
  obtains f where "f \<in> set (gd_facts db)" "fct_id f = i" "retrievable_fact sid f" "about_subject t f"
    "fct_recorded_at_ms f = n"
  using assms by (auto simp: active_fact_recorded_at_def find_Some_iff in_set_conv_nth)

lemma recorded_for_targets_Some:
  assumes "recorded_for_targets db sid i ts = Some n"
  shows "\<exists>t \<in> set ts. active_fact_recorded_at db sid i (Some t) = Some n"
  using assms by (induction ts) (auto split: option.splits)

lemma fact_seed_candidate_ok:
  assumes "c \<in> set (fact_seed_candidates db sid subjects s)"
  shows "candidate_ok db sid subjects c"
proof -
  let ?found = "if subjects = [] then active_fact_recorded_at db sid (sd_id s) None
      else recorded_for_targets db sid (sd_id s) subjects"
  obtain n where n: "?found = Some n" and c: "fcn_fact_id c = sd_id s" "fcn_recorded_at_ms c = n"
    using assms by (cases ?found) (simp_all add: fact_seed_candidates_def)
  obtain t where t: "active_fact_recorded_at db sid (sd_id s) t = Some n"
    "subjects = [] \<or> (\<exists>i \<in> set subjects. t = Some i)"
    using n by (auto split: if_splits dest: recorded_for_targets_Some)
  from t(1) show ?thesis
    by (rule recorded_at_Some) (use t(2) c in \<open>auto simp: candidate_ok_def about_subject_def\<close>)
qed

lemma entity_facts_mem:
  assumes "(i, n) \<in> set (active_facts_for_entity db sid e limit t)"
  obtains f where "f \<in> set (gd_facts db)" "fct_id f = i" "retrievable_fact sid f" "about_subject t f"
    "fct_recorded_at_ms f = n"
  using assms by (auto simp: active_facts_for_entity_def dest!: in_set_takeD)

lemma entity_seed_candidate_ok:
  assumes "c \<in> set (entity_seed_candidates db sid limit subjects s)"
  shows "candidate_ok db sid subjects c"
proof -
  obtain i n t where t: "t \<in> set (if subjects = [] then [None] else map Some subjects)"
    and i: "(i, n) \<in> set (active_facts_for_entity db sid (sd_id s) limit t)"
    and c: "fcn_fact_id c = i" "fcn_recorded_at_ms c = n"
    using assms by (auto simp: entity_seed_candidates_def)
  obtain f where f: "f \<in> set (gd_facts db)" "fct_id f = i" "retrievable_fact sid f" "about_subject t f"
    "fct_recorded_at_ms f = n" by (rule entity_facts_mem [OF i])
  have "subjects = [] \<or> fct_subject_entity_id f \<in> set subjects"
    using t f(4) by (auto simp: about_subject_def split: if_splits)
  then show ?thesis using f c by (auto simp: candidate_ok_def)
qed

definition seed_candidates :: "GraphDb \<Rightarrow> str \<Rightarrow> nat \<Rightarrow> str list \<Rightarrow> bool \<Rightarrow> GraphSeed list \<Rightarrow> FactCandidate list" where
  "seed_candidates db sid limit subjects direct seeds = concat (map (\<lambda>s. case sd_kind s of
       FactSeed \<Rightarrow> fact_seed_candidates db sid subjects s
     | EntitySeed \<Rightarrow> if direct then [] else entity_seed_candidates db sid limit subjects s) seeds)"

lemma seed_candidates_ok:
  "\<forall>c \<in> set (seed_candidates db sid limit subjects direct seeds). candidate_ok db sid subjects c"
  by (auto simp: seed_candidates_def split: GraphSeedKind.splits if_splits
      intro: fact_seed_candidate_ok entity_seed_candidate_ok)

lemma candidate_map_ok:
  assumes "\<forall>c \<in> set cs. candidate_ok db sid subjects c"
  shows "(\<forall>(i, c) \<in> set (fold upsert_fact_candidate cs []). fcn_fact_id c = i \<and> candidate_ok db sid subjects c)
    \<and> distinct (map fst (fold upsert_fact_candidate cs []))"
proof -
  have "(\<forall>(i, c) \<in> set (fold (\<lambda>c. upsert (fcn_fact_id c)
      (\<lambda>existing. if is_better_fact_candidate c existing then c else existing) c) cs []).
        fcn_fact_id c = i \<and> candidate_ok db sid subjects c)
    \<and> distinct (map fst (fold (\<lambda>c. upsert (fcn_fact_id c)
      (\<lambda>existing. if is_better_fact_candidate c existing then c else existing) c) cs []))"
    by (rule fold_upsert) (use assms in auto)
  then show ?thesis unfolding upsert_fact_candidate_def [abs_def] .
qed

text \<open>The candidates: at most the limit, each fact once, by falling score.\<close>

lemma expand_cases:
  obtains (none) "expand_seed_facts db sid seeds limit subjects = []"
  | (some) cs where "\<forall>c \<in> set cs. candidate_ok db sid subjects c"
    "expand_seed_facts db sid seeds limit subjects =
       take limit (sort_key (\<lambda>c. (- f_total_key (fcn_score c), fcn_recorded_at_ms c, fcn_fact_id c))
         (map snd (fold upsert_fact_candidate cs [])))"
proof (cases "limit = 0 \<or> seeds = []")
  case True
  then show thesis by (intro none) (auto simp: expand_seed_facts_def)
next
  case False
  then show thesis
    by (intro some [OF seed_candidates_ok]) (auto simp: expand_seed_facts_def Let_def seed_candidates_def)
qed

lemma expand_ok:
  "\<forall>c \<in> set (expand_seed_facts db sid seeds limit subjects). candidate_ok db sid subjects c"
  "distinct (map fcn_fact_id (expand_seed_facts db sid seeds limit subjects))"
  "length (expand_seed_facts db sid seeds limit subjects) \<le> limit"
  "sorted (map (\<lambda>c. - f_total_key (fcn_score c)) (expand_seed_facts db sid seeds limit subjects))"
proof -
  let ?x = "expand_seed_facts db sid seeds limit subjects"
  have "(\<forall>c \<in> set ?x. candidate_ok db sid subjects c) \<and> distinct (map fcn_fact_id ?x) \<and> length ?x \<le> limit
    \<and> sorted (map (\<lambda>c. - f_total_key (fcn_score c)) ?x)"
  proof (cases rule: expand_cases [of db sid seeds limit subjects])
    case none
    then show ?thesis by simp
  next
    case (some cs)
    let ?m = "fold upsert_fact_candidate cs []"
    let ?key = "\<lambda>c. (- f_total_key (fcn_score c), fcn_recorded_at_ms c, fcn_fact_id c)"
    note m = keyed_values [OF candidate_map_ok [OF some(1)]]
    from m(2) have "inj_on fcn_fact_id (set (map snd ?m))" "distinct (map snd ?m)"
      by (simp_all only: distinct_map [of fcn_fact_id])
    then have "distinct (map fcn_fact_id (sort_key ?key (map snd ?m)))" by (simp add: distinct_map)
    then have d: "distinct (map fcn_fact_id ?x)" by (simp add: some(2) take_map [symmetric] distinct_take)
    have "sorted (map ?key (sort_key ?key (map snd ?m)))" by simp
    then have "sorted (map ?key ?x)" unfolding some(2) take_map [symmetric] by (rule sorted_wrt_take)
    then have "sorted (map (\<lambda>c. - f_total_key (fcn_score c)) ?x)"
      by (auto simp: sorted_map less_eq_prod_def elim!: sorted_wrt_mono_rel [rotated])
    moreover have "\<forall>c \<in> set ?x. candidate_ok db sid subjects c"
      using m(1) by (auto simp: some(2) simp del: set_map dest!: in_set_takeD)
    ultimately show ?thesis using d by (simp add: some(2))
  qed
  then show "\<forall>c \<in> set ?x. candidate_ok db sid subjects c" "distinct (map fcn_fact_id ?x)" "length ?x \<le> limit"
    "sorted (map (\<lambda>c. - f_total_key (fcn_score c)) ?x)" by auto
qed


section \<open>Units\<close>

text \<open>The record of a row, and a row that supports a fact.\<close>

definition shows_record :: "GraphMemoryRow \<Rightarrow> GraphMemoryRecord \<Rightarrow> bool" where
  "shows_record m r \<longleftrightarrow> (\<exists>metadata embedding. r = record_of_row m metadata embedding)"

definition supports :: "GraphDb \<Rightarrow> Fact \<Rightarrow> GraphMemoryRow \<Rightarrow> bool" where
  "supports db f m \<longleftrightarrow> (\<exists>g \<in> set (gd_groups db). \<exists>v \<in> set (gd_evidence db).
     evg_fact_id g = fct_id f \<and> evg_memory_space_id g = fct_memory_space_id f
     \<and> evi_evidence_group_id v = evg_id g \<and> evi_memory_space_id v = fct_memory_space_id f
     \<and> evi_memory_record_id v = rec_id m \<and> rec_memory_space_id m = fct_memory_space_id f)"

definition shown_entity :: "GraphDb \<Rightarrow> str \<Rightarrow> str \<Rightarrow> Entity \<Rightarrow> bool" where
  "shown_entity db sid i e \<longleftrightarrow> e \<in> set (gd_entities db) \<and> ent_id e = i \<and> ent_memory_space_id e = sid \<and> active_entity e"

definition faithful_unit ::
    "GraphDb \<Rightarrow> str \<Rightarrow> str list \<Rightarrow> (Fact \<Rightarrow> str option) \<Rightarrow> FactContextUnit \<Rightarrow> bool" where
  "faithful_unit db sid subjects speaker u \<longleftrightarrow> (\<exists>f \<in> set (gd_facts db). retrievable_fact sid f
     \<and> (subjects = [] \<or> fct_subject_entity_id f \<in> set subjects)
     \<and> fu_fact_id u = fct_id f \<and> fu_fact_text u = fct_fact_text f \<and> fu_predicate u = fct_predicate f
     \<and> fu_status u = FsActive \<and> fu_recorded_at_ms u = fct_recorded_at_ms f
     \<and> shown_entity db sid (fct_subject_entity_id f) (fu_subject_entity u)
     \<and> shown_entity db sid (fct_object_entity_id f) (fu_object_entity u)
     \<and> (\<forall>r \<in> set (fu_evidence_records u). \<exists>m \<in> set (gd_records db).
          shows_record m r \<and> supports db f m \<and> recorded_by db (speaker f) m))"

lemma load_record_shows: "load_record E m = Inr r \<Longrightarrow> shows_record m r"
  by (auto simp: load_record_def shows_record_def)

lemma load_entity_shown: "load_entity E db sid i = Inr e \<Longrightarrow> shown_entity db sid i e"
  by (auto simp: load_entity_def shown_entity_def dest!: query_row_Inr)

lemma evidence_rows_mem:
  assumes "(g, v, m) \<in> set (evidence_rows db sid i t)"
  shows "g \<in> set (gd_groups db) \<and> v \<in> set (gd_evidence db) \<and> m \<in> set (gd_records db) \<and> evg_fact_id g = i
    \<and> evg_memory_space_id g = sid \<and> evi_evidence_group_id v = evg_id g \<and> evi_memory_space_id v = sid
    \<and> evi_memory_record_id v = rec_id m \<and> rec_memory_space_id m = sid \<and> recorded_by db t m"
  using assms by (auto simp: evidence_rows_def)

lemma loaded_rows_mem:
  assumes "m \<in> set (take limit (map (\<lambda>(g, v, m). m) (sort_key key (first_by (\<lambda>(g, v, m). m) (evidence_rows db sid i t)))))"
  shows "\<exists>g v. (g, v, m) \<in> set (evidence_rows db sid i t)"
proof -
  let ?rows = "evidence_rows db sid i t"
  have "m \<in> (\<lambda>(g, v, m). m) ` set (first_by (\<lambda>(g, v, m). m) ?rows)"
    using in_set_takeD [OF assms] by (simp only: set_map set_sort)
  then obtain x where x: "x \<in> set (first_by (\<lambda>(g, v, m). m) ?rows)" "m = (\<lambda>(g, v, m). m) x"
    by (rule imageE) (rule that)
  obtain g v where "x = (g, v, m)" using x(2) by (cases x) simp
  with subsetD [OF first_by_subset x(1)] show ?thesis by blast
qed

lemma evidence_records_faithful:
  assumes "load_evidence_records_for_fact E db (fct_memory_space_id f) (fct_id f) limit t = Inr rs" "r \<in> set rs"
  shows "\<exists>m \<in> set (gd_records db). shows_record m r \<and> supports db f m \<and> recorded_by db t m"
proof -
  obtain m g v where m: "load_record E m = Inr r"
    and row: "(g, v, m) \<in> set (evidence_rows db (fct_memory_space_id f) (fct_id f) t)"
    using collect_ok_mem [OF assms(1) [unfolded load_evidence_records_for_fact_def] assms(2)] loaded_rows_mem by blast
  from evidence_rows_mem [OF row] show ?thesis
    using load_record_shows [OF m] unfolding supports_def by blast
qed

lemma load_unit_faithful:
  assumes "graph_ok db" "candidate_ok db (gq_memory_space_id q) subjects c"
    and "load_fact_context_unit E db q explicit inferred c = Inr (u, f, st)"
  shows "faithful_unit db (gq_memory_space_id q) subjects (evidence_target explicit inferred) u
    \<and> fu_fact_id u = fcn_fact_id c \<and> fu_score u = fcn_score c
    \<and> length (fu_evidence_records u) \<le> max_evidence_records_per_fact q \<and> fct_id f = fcn_fact_id c"
proof -
  let ?sid = "gq_memory_space_id q"
  obtain subject object records where l: "load_active_fact E db ?sid (fcn_fact_id c) = Inr (f, st)"
    "load_entity E db ?sid (fct_subject_entity_id f) = Inr subject"
    "load_entity E db ?sid (fct_object_entity_id f) = Inr object"
    "load_evidence_records_for_fact E db ?sid (fct_id f) (max_evidence_records_per_fact q)
       (evidence_target explicit inferred f) = Inr records"
    and u: "u = \<lparr>fu_fact_id = fct_id f, fu_fact_text = fct_fact_text f, fu_subject_entity = subject,
       fu_object_entity = object, fu_predicate = fct_predicate f, fu_evidence_records = records,
       fu_path = fold push_record_path records (fcn_path c), fu_score = fcn_score c,
       fu_status = st, fu_valid_from_ms = fct_valid_from_ms f,
       fu_valid_to_ms = fct_valid_to_ms f, fu_recorded_at_ms = fct_recorded_at_ms f\<rparr>"
    using assms(3) unfolding load_fact_context_unit_def Let_def
    by (elim and_then_InrE) (auto simp: prod.case_eq_if)
  have f: "f \<in> set (gd_facts db)" "fct_id f = fcn_fact_id c" "fct_memory_space_id f = ?sid" "active_fact f"
    and st: "parse_fact_status (fct_status f) = Inr st"
    using l(1) by (auto simp: load_active_fact_def dest!: query_row_Inr)
  obtain f0 where f0: "f0 \<in> set (gd_facts db)" "fct_id f0 = fcn_fact_id c" "retrievable_fact ?sid f0"
    "subjects = [] \<or> fct_subject_entity_id f0 \<in> set subjects"
    using assms(2) by (auto simp: candidate_ok_def)
  have "inj_on fct_id (set (gd_facts db))" using assms(1) by (simp add: graph_ok_def facts_ok_def distinct_map)
  then have "f = f0" using f(1,2) f0(1,2) by (simp add: inj_onD)
  then have r: "retrievable_fact ?sid f" "subjects = [] \<or> fct_subject_entity_id f \<in> set subjects" using f0 by simp_all
  have active: "st = FsActive" using st f(4) by (simp add: parse_fact_status_def active_fact_def)
  have e: "\<forall>x \<in> set records. \<exists>m \<in> set (gd_records db). shows_record m x \<and> supports db f m
      \<and> recorded_by db (evidence_target explicit inferred f) m"
    using evidence_records_faithful [OF l(4) [folded f(3)]] by blast
  have "length records \<le> max_evidence_records_per_fact q"
    using l(4) by (auto simp: load_evidence_records_for_fact_def collect_ok_Inr dest!: list_all2_lengthD)
  moreover have "faithful_unit db ?sid subjects (evidence_target explicit inferred) u"
    unfolding faithful_unit_def
    by (rule bexI [OF _ f(1)])
       (use r e active load_entity_shown [OF l(2)] load_entity_shown [OF l(3)] in \<open>simp add: u\<close>)
  ultimately show ?thesis using f(2) by (simp add: u)
qed

end
