(* ===== verification/GraphBundle.thy ===== *)
theory GraphBundle
  imports GraphFound
begin

text \<open>
  The bundle of a retrieval as a whole: the records matched directly, the limits of its lists, and
  that its members are exactly what its units refer to.
\<close>

section \<open>Records matched directly\<close>

definition faithful_evidence :: "GraphDb \<Rightarrow> str \<Rightarrow> str option list \<Rightarrow> EvidenceRecordContextUnit \<Rightarrow> bool" where
  "faithful_evidence db sid speakers u \<longleftrightarrow> (\<exists>m \<in> set (gd_records db). rec_memory_space_id m = sid
     \<and> shows_record m (eru_record u) \<and> (\<exists>t \<in> set speakers. recorded_by db t m))"

lemma fts_rows_space: "r \<in> set (fts_rows R fts sid table) \<Longrightarrow> fst (snd r) = sid"
  by (auto simp: fts_rows_def)

lemma matched_records_mem:
  assumes "(r, m) \<in> set (matched_records R fts sid db)"
  shows "m \<in> set (gd_records db) \<and> rec_memory_space_id m = sid"
  using assms by (auto simp: matched_records_def dest: fts_rows_space)

lemma direct_units_faithful:
  assumes "load_direct_evidence_record_context_units E R db q fts t = Inr us" "u \<in> set us"
  shows "faithful_evidence db (gq_memory_space_id q) [t] u"
proof -
  let ?rows = "filter (\<lambda>(r, m). recorded_by db t m) (matched_records R fts (gq_memory_space_id q) db)"
  let ?key = "\<lambda>(r, m). (q_bm25 R fts (gd_record_fts db) r, rec_ingestion_sequence m, rec_id m)"
  have none: "us = []" if "gq_top_k q = 0"
    using assms(1) that by (simp add: load_direct_evidence_record_context_units_def)
  obtain records where r: "collect_ok (graph_memory_record_from_row E R)
      (map snd (take (seed_limit q) (sort_key ?key ?rows))) = Inr records"
    and us: "us = map (\<lambda>(index, record). \<lparr>eru_record = record, eru_path = [lit ''record:'' @ gm_id record],
         eru_score = ranked_score DIRECT_EVIDENCE_RECORD_WEIGHT index, eru_match_kind = Lexical\<rparr>)
       (enumerate 0 (take (gq_top_k q) records))"
    using assms none by (auto simp: load_direct_evidence_record_context_units_def split: if_splits)
  have "map eru_record us = map snd (enumerate 0 (take (gq_top_k q) records))"
    unfolding us by (simp add: case_prod_unfold o_def del: map_snd_enumerate)
  then have "map eru_record us = take (gq_top_k q) records" by simp
  then have u: "eru_record u \<in> set records" using assms(2) by (metis imageI in_set_takeD set_map)
  obtain m where m: "m \<in> set (map snd (take (seed_limit q) (sort_key ?key ?rows)))"
    "graph_memory_record_from_row E R m = Inr (eru_record u)"
    using collect_ok_mem [OF r u] by blast
  then obtain x where "(x, m) \<in> set ?rows" by (auto dest!: in_set_takeD)
  then have "m \<in> set (gd_records db)" "rec_memory_space_id m = gq_memory_space_id q" "recorded_by db t m"
    by (auto dest: matched_records_mem)
  moreover have "shows_record m (eru_record u)"
    using m(2) by (auto simp: graph_memory_record_from_row_def shows_record_def split: sum.splits dest: sym)
  ultimately show ?thesis by (auto simp: faithful_evidence_def)
qed

lemma best_by_record_ok:
  assumes "\<forall>u \<in> set us. P u"
  shows "(\<forall>u \<in> set (best_by_record us). P u) \<and> distinct (map (gm_id \<circ> eru_record) (best_by_record us))"
proof -
  let ?m = "fold (\<lambda>u. upsert (gm_id (eru_record u))
     (\<lambda>existing. if f_gt (eru_score u) (eru_score existing) then u else existing) u) us []"
  have "(\<forall>(i, u) \<in> set ?m. gm_id (eru_record u) = i \<and> P u) \<and> distinct (map fst ?m)"
    by (rule fold_upsert) (use assms in auto)
  from keyed_values [OF this] show ?thesis by (simp only: best_by_record_def comp_def)
qed

lemma direct_for_entities_ok:
  assumes "load_direct_evidence_record_context_units_for_entities E R db q fts explicit inferred = Inr us"
  shows "\<forall>u \<in> set us. faithful_evidence db (gq_memory_space_id q) (evidence_speakers explicit inferred) u"
    "distinct (map (gm_id \<circ> eru_record) us)" "length us \<le> gq_top_k q"
proof -
  let ?key = "\<lambda>u. (- f_total_key (eru_score u), gm_ingestion_sequence (eru_record u), gm_id (eru_record u))"
  obtain uss where uss: "collect_ok (load_direct_evidence_record_context_units E R db q fts)
      (evidence_speakers explicit inferred) = Inr uss"
    and us: "us = take (gq_top_k q) (sort_key ?key (best_by_record (concat uss)))"
    using assms by (auto simp: load_direct_evidence_record_context_units_for_entities_def)
  have "faithful_evidence db (gq_memory_space_id q) (evidence_speakers explicit inferred) u"
    if u: "u \<in> set (concat uss)" for u
  proof -
    obtain ws where ws: "ws \<in> set uss" "u \<in> set ws" using u by auto
    obtain t where "t \<in> set (evidence_speakers explicit inferred)"
      "load_direct_evidence_record_context_units E R db q fts t = Inr ws"
      using collect_ok_mem [OF uss ws(1)] by blast
    with direct_units_faithful [OF this(2) ws(2)] show ?thesis by (auto simp: faithful_evidence_def)
  qed
  then have "\<forall>u \<in> set (concat uss). faithful_evidence db (gq_memory_space_id q) (evidence_speakers explicit inferred) u"
    by (rule ballI)
  note best = best_by_record_ok [OF this, THEN conjunct1] best_by_record_ok [OF this, THEN conjunct2]
  show "\<forall>u \<in> set us. faithful_evidence db (gq_memory_space_id q) (evidence_speakers explicit inferred) u"
  proof
    fix u assume "u \<in> set us"
    then have "u \<in> set (sort_key ?key (best_by_record (concat uss)))" unfolding us by (rule in_set_takeD)
    then show "faithful_evidence db (gq_memory_space_id q) (evidence_speakers explicit inferred) u"
      using best(1) by (simp only: set_sort)
  qed
  have "distinct (map (gm_id \<circ> eru_record) (sort_key ?key (best_by_record (concat uss))))"
    using best(2) by (simp add: distinct_map)
  then show "distinct (map (gm_id \<circ> eru_record) us)" by (simp add: us take_map [symmetric] distinct_take)
  show "length us \<le> gq_top_k q" by (simp add: us)
qed

lemma direct_evidence_ok:
  assumes "direct_evidence_units E R db q plan explicit inferred = Inr us"
  shows "\<forall>u \<in> set us. faithful_evidence db (gq_memory_space_id q) (evidence_speakers explicit inferred) u"
    "distinct (map (gm_id \<circ> eru_record) us)" "length us \<le> gq_top_k q"
proof -
  obtain fts where "us = [] \<or> load_direct_evidence_record_context_units_for_entities E R db q fts explicit inferred = Inr us"
    using assms by (auto simp: direct_evidence_units_def split: option.splits)
  then show "\<forall>u \<in> set us. faithful_evidence db (gq_memory_space_id q) (evidence_speakers explicit inferred) u"
    "distinct (map (gm_id \<circ> eru_record) us)" "length us \<le> gq_top_k q"
    using direct_for_entities_ok [of E R db q fts explicit inferred us] by (elim disjE; simp)+
qed


section \<open>The parts of a retrieval\<close>

lemma retrieve_parts:
  assumes "retrieve_context_sync E R now q db = Inr b"
  obtains subjects candidates loaded where
    "retrieval_error q = None" "resolve_target_subjects E R db q = Inr subjects"
    "\<exists>seeds. candidates = expand_seed_facts db (gq_memory_space_id q) seeds (gq_top_k q) (map sj_entity_id subjects)"
    "load_fact_context_units E db q candidates (explicit_evidence_entity E db q)
       (inferred_evidence_entities db q (map sj_entity_id subjects)) = Inr loaded"
    "direct_evidence_units E R db q (graph_fts_query_plan E R (trim (gq_query q)) (map sj_matched_name subjects))
       (explicit_evidence_entity E db q) (inferred_evidence_entities db q (map sj_entity_id subjects))
       = Inr (cb_evidence_record_context_units b)"
    "cb_memory_space_id b = gq_memory_space_id q" "cb_fact_context_units b = map fst loaded"
    "cb_records b = bundle_records (map fst loaded) (cb_evidence_record_context_units b)"
    "cb_entities b = bundle_entities (map fst loaded)" "cb_facts b = bundle_facts (map snd loaded)"
proof -
  have none: "retrieval_error q = None" using assms by (auto simp: retrieve_context_sync_def split: option.splits)
  show thesis
    using assms unfolding retrieve_context_sync_def none option.case Let_def
    by (elim and_then_InrE) (rule that [OF none], auto)
qed

lemma load_units_zip:
  assumes "load_fact_context_units E db q cs explicit inferred = Inr loaded"
  shows "list_all2 (\<lambda>c (u, f, st). load_fact_context_unit E db q explicit inferred c = Inr (u, f, st)) cs loaded"
  using assms by (simp add: load_fact_context_units_def collect_ok_Inr case_prod_unfold)

lemma load_units_ok:
  assumes "graph_ok db" "\<forall>c \<in> set cs. candidate_ok db (gq_memory_space_id q) subjects c"
    "load_fact_context_units E db q cs explicit inferred = Inr loaded"
  shows "\<forall>u \<in> set (map fst loaded). faithful_unit db (gq_memory_space_id q) subjects (evidence_target explicit inferred) u
      \<and> length (fu_evidence_records u) \<le> max_evidence_records_per_fact q"
    "map fu_fact_id (map fst loaded) = map fcn_fact_id cs" "map fu_score (map fst loaded) = map fcn_score cs"
    "map (\<lambda>x. fct_id (fst (snd x))) loaded = map fcn_fact_id cs"
proof -
  have "list_all2 (\<lambda>c (u, f, st). faithful_unit db (gq_memory_space_id q) subjects (evidence_target explicit inferred) u
      \<and> length (fu_evidence_records u) \<le> max_evidence_records_per_fact q
      \<and> fu_fact_id u = fcn_fact_id c \<and> fu_score u = fcn_score c \<and> fct_id f = fcn_fact_id c) cs loaded"
    using load_units_zip [OF assms(3)] assms(2)
    by (auto elim!: list.rel_mono_strong dest!: load_unit_faithful [OF assms(1)])
  then show "\<forall>u \<in> set (map fst loaded). faithful_unit db (gq_memory_space_id q) subjects (evidence_target explicit inferred) u
      \<and> length (fu_evidence_records u) \<le> max_evidence_records_per_fact q"
    "map fu_fact_id (map fst loaded) = map fcn_fact_id cs" "map fu_score (map fst loaded) = map fcn_score cs"
    "map (\<lambda>x. fct_id (fst (snd x))) loaded = map fcn_fact_id cs"
    by (induction rule: list_all2_induct) auto
qed


section \<open>Limits and members of a bundle\<close>

definition bounded_bundle :: "GraphRetrieveContextRequest \<Rightarrow> ContextBundle \<Rightarrow> bool" where
  "bounded_bundle q b \<longleftrightarrow> length (cb_fact_context_units b) \<le> gq_top_k q
     \<and> distinct (map fu_fact_id (cb_fact_context_units b))
     \<and> sorted (map (\<lambda>u. - f_total_key (fu_score u)) (cb_fact_context_units b))
     \<and> (\<forall>u \<in> set (cb_fact_context_units b). length (fu_evidence_records u) \<le> max_evidence_records_per_fact q)
     \<and> length (cb_evidence_record_context_units b) \<le> gq_top_k q
     \<and> distinct (map (gm_id \<circ> eru_record) (cb_evidence_record_context_units b))"

definition closed_bundle :: "ContextBundle \<Rightarrow> bool" where
  "closed_bundle b \<longleftrightarrow> distinct (map gm_id (cb_records b)) \<and> distinct (map ent_id (cb_entities b))
     \<and> map (fct_id \<circ> fst) (cb_facts b) = map fu_fact_id (cb_fact_context_units b)
     \<and> gm_id ` set (cb_records b) = gm_id ` ((\<Union>u \<in> set (cb_fact_context_units b). set (fu_evidence_records u))
         \<union> eru_record ` set (cb_evidence_record_context_units b))
     \<and> ent_id ` set (cb_entities b) = ent_id ` (fu_subject_entity ` set (cb_fact_context_units b)
         \<union> fu_object_entity ` set (cb_fact_context_units b))"

lemma first_by_id: "distinct (map k xs) \<Longrightarrow> first_by k xs = xs"
proof (induction k xs rule: first_by.induct)
  case (2 k x xs)
  have "filter (\<lambda>y. k y \<noteq> k x) xs = xs" using 2(2) by (auto simp: filter_id_conv dest: image_eqI [OF sym])
  with 2 show ?case by simp
qed simp

lemma bundle_records_ids:
  "gm_id ` set (bundle_records us es) = gm_id ` ((\<Union>u \<in> set us. set (fu_evidence_records u)) \<union> eru_record ` set es)"
  "distinct (map gm_id (bundle_records us es))"
  by (simp_all add: bundle_records_def first_by_keys first_by_distinct del: map_append)

lemma bundle_entities_ids:
  "ent_id ` set (bundle_entities us) = ent_id ` (fu_subject_entity ` set us \<union> fu_object_entity ` set us)"
  "distinct (map ent_id (bundle_entities us))"
  by (auto simp: bundle_entities_def first_by_keys first_by_distinct)

lemma retrieve_ok:
  assumes "graph_ok db" "retrieve_context_sync E R now q db = Inr b"
  shows "\<exists>subjects. resolve_target_subjects E R db q = Inr subjects
      \<and> (\<forall>u \<in> set (cb_fact_context_units b). faithful_unit db (gq_memory_space_id q) (map sj_entity_id subjects)
          (evidence_target (explicit_evidence_entity E db q)
            (inferred_evidence_entities db q (map sj_entity_id subjects))) u)
      \<and> (\<forall>u \<in> set (cb_evidence_record_context_units b). faithful_evidence db (gq_memory_space_id q)
          (evidence_speakers (explicit_evidence_entity E db q)
            (inferred_evidence_entities db q (map sj_entity_id subjects))) u)"
    "bounded_bundle q b \<and> closed_bundle b"
proof -
  obtain subjects cs loaded where p: "resolve_target_subjects E R db q = Inr subjects"
    "\<exists>seeds. cs = expand_seed_facts db (gq_memory_space_id q) seeds (gq_top_k q) (map sj_entity_id subjects)"
    "load_fact_context_units E db q cs (explicit_evidence_entity E db q)
       (inferred_evidence_entities db q (map sj_entity_id subjects)) = Inr loaded"
    "direct_evidence_units E R db q (graph_fts_query_plan E R (trim (gq_query q)) (map sj_matched_name subjects))
       (explicit_evidence_entity E db q) (inferred_evidence_entities db q (map sj_entity_id subjects))
       = Inr (cb_evidence_record_context_units b)"
    and b: "cb_fact_context_units b = map fst loaded"
    "cb_records b = bundle_records (map fst loaded) (cb_evidence_record_context_units b)"
    "cb_entities b = bundle_entities (map fst loaded)" "cb_facts b = bundle_facts (map snd loaded)"
    by (rule retrieve_parts [OF assms(2)])
  obtain seeds where seeds: "cs = expand_seed_facts db (gq_memory_space_id q) seeds (gq_top_k q) (map sj_entity_id subjects)"
    using p(2) by (rule exE)
  have cs: "\<forall>c \<in> set cs. candidate_ok db (gq_memory_space_id q) (map sj_entity_id subjects) c"
    "distinct (map fcn_fact_id cs)" "length cs \<le> gq_top_k q" "sorted (map (\<lambda>c. - f_total_key (fcn_score c)) cs)"
    unfolding seeds by (rule expand_ok)+
  note l = load_units_ok [OF assms(1) cs(1) p(3)]
  note d = direct_evidence_ok [OF p(4)]
  show "\<exists>subjects. resolve_target_subjects E R db q = Inr subjects
      \<and> (\<forall>u \<in> set (cb_fact_context_units b). faithful_unit db (gq_memory_space_id q) (map sj_entity_id subjects)
          (evidence_target (explicit_evidence_entity E db q)
            (inferred_evidence_entities db q (map sj_entity_id subjects))) u)
      \<and> (\<forall>u \<in> set (cb_evidence_record_context_units b). faithful_evidence db (gq_memory_space_id q)
          (evidence_speakers (explicit_evidence_entity E db q)
            (inferred_evidence_entities db q (map sj_entity_id subjects))) u)"
    using p(1) l(1) d(1) unfolding b(1) by blast
  have "map (\<lambda>u. - f_total_key (fu_score u)) (map fst loaded) = map (\<lambda>c. - f_total_key (fcn_score c)) cs"
    using arg_cong [OF l(3), of "map (\<lambda>s. - f_total_key s)"] by (simp add: o_def)
  moreover have "length (map fst loaded) = length cs" using arg_cong [OF l(2), of length] by simp
  ultimately have "bounded_bundle q b"
    using cs(2-4) l(1) d(2,3) unfolding bounded_bundle_def b(1) by (metis l(2))
  moreover have "map (fct_id \<circ> fst) (cb_facts b) = map fu_fact_id (cb_fact_context_units b)"
  proof -
    have ids: "map (fct_id \<circ> fst) (map snd loaded) = map fcn_fact_id cs" using l(4) by (simp add: o_def)
    then have "distinct (map (fct_id \<circ> fst) (map snd loaded))" using cs(2) by (simp only:)
    then have "cb_facts b = map snd loaded" unfolding b(4) bundle_facts_def by (rule first_by_id)
    then show ?thesis unfolding b(1) l(2) using ids by (simp only:)
  qed
  ultimately show "bounded_bundle q b \<and> closed_bundle b"
    unfolding closed_bundle_def using bundle_records_ids bundle_entities_ids by (simp only: b(1-3))
qed

end
