(* ===== verification/GraphReadable.thy ===== *)
theory GraphReadable
  imports GraphBundle "HOL-Library.Word"
begin

text \<open>
  Retrieval does not fail on what the pipeline stored: embeddings read back, every fact finds its
  entities and records, and a query of quoted terms is well formed.
\<close>

section \<open>Embeddings\<close>

lemma from_to_le_bytes [simp]: "from_le_bytes (to_le_bytes v) = v"
proof (rule bit_word_eqI)
  fix n assume "n < LENGTH(32)"
  then show "bit (from_le_bytes (to_le_bytes v)) n = bit v n"
    by (cases "n < 24"; cases "n < 16") (auto simp: from_le_bytes_def to_le_bytes_def bit_simps)
qed

lemma chunks4_blob: "chunks4 (embedding_to_blob v) = map to_le_bytes v"
  by (induction v) (simp_all add: embedding_to_blob_def to_le_bytes_def)

lemma length_blob: "length (embedding_to_blob v) = 4 * length v"
  by (induction v) (simp_all add: embedding_to_blob_def to_le_bytes_def)

lemma embedding_reads_back:
  assumes "length v < 2 ^ 64"
  shows "blob_to_embedding (Some (embedding_to_blob v)) (Some (int (length v))) i = Inr (Some v)"
proof -
  have "nat (int (length v) mod 2 ^ 64) = length v" using assms by (simp add: nat_mod_distrib flip: of_nat_mod)
  then show ?thesis by (simp add: blob_to_embedding_def chunks4_blob length_blob o_def)
qed

section \<open>Stored records\<close>

text \<open>How deep a value nests. \<open>serde_json\<close> prints a value of any depth but gives up reading at 128.\<close>

fun json_nesting :: "json \<Rightarrow> nat" where
  "json_nesting (JArray vs) = Suc (fold max (map json_nesting vs) 0)"
| "json_nesting (JObject kvs) = Suc (fold max (map (\<lambda>(k, v). json_nesting v) kvs) 0)"
| "json_nesting _ = 0"

definition json_reads_back :: "genv \<Rightarrow> bool" where
  "json_reads_back E \<longleftrightarrow> (\<forall>v. json_nesting v < 128 \<longrightarrow> (\<exists>w. g_from_str E (g_to_string E v) = Inr w))"

definition shallow_metadata :: "genv \<Rightarrow> GraphDb \<Rightarrow> bool" where
  "shallow_metadata E db \<longleftrightarrow>
     (\<forall>m \<in> set (gd_records db). \<exists>v. rec_metadata_json m = g_to_string E v \<and> json_nesting v < 128)"

definition metadata_readable :: "genv \<Rightarrow> GraphMemoryRow \<Rightarrow> bool" where
  "metadata_readable E m \<longleftrightarrow> (\<exists>w. g_from_str E (rec_metadata_json m) = Inr w)"

lemma shallow_readable:
  assumes "json_reads_back E" "shallow_metadata E db" "m \<in> set (gd_records db)"
  shows "metadata_readable E m"
  using assms unfolding json_reads_back_def shallow_metadata_def metadata_readable_def by metis

definition dims_in_range :: "GraphDb \<Rightarrow> bool" where
  "dims_in_range db \<longleftrightarrow> (\<forall>m \<in> set (gd_records db). case rec_embedding_dims m of None \<Rightarrow> True | Some d \<Rightarrow> d < 2 ^ 64)"

lemma load_record_succeeds:
  assumes "stored_ok E m" "metadata_readable E m" "case rec_embedding_dims m of None \<Rightarrow> True | Some d \<Rightarrow> d < 2 ^ 64"
  shows "\<exists>r. load_record E m = Inr r"
proof -
  obtain md where "g_from_str E (rec_metadata_json m) = Inr md"
    using assms(2) by (auto simp: metadata_readable_def)
  moreover have "\<exists>e. blob_to_embedding (rec_embedding m) (rec_embedding_dims m) (rec_id m) = Inr e"
  proof (cases "rec_embedding m")
    case None
    then show ?thesis by (simp add: blob_to_embedding_def)
  next
    case (Some bs)
    then obtain v where v: "rec_embedding m = Some (embedding_to_blob v)" "rec_embedding_dims m = Some (int (length v))"
      using assms(1) by (auto simp: stored_ok_def embedding_ok_def)
    have "int (length v) < int (2 ^ 64)" using assms(3) unfolding v(2) by simp
    then have "length v < 2 ^ 64" by (simp only: of_nat_less_iff)
    then show ?thesis unfolding v by (simp only: embedding_reads_back) simp
  qed
  ultimately show ?thesis by (auto simp: load_record_def parse_json_def)
qed


section \<open>Queries\<close>

text \<open>FTS5 accepts every query made of quoted terms, prefix or not, joined with OR, if no term contains NUL,
  at which it stops reading.\<close>

definition nul_free :: "str \<Rightarrow> bool" where
  "nul_free s \<longleftrightarrow> 0 \<notin> set s"

definition fts_accepts :: "renv \<Rightarrow> bool" where
  "fts_accepts R \<longleftrightarrow> (\<forall>terms prefix fts. list_all nul_free terms
     \<longrightarrow> graph_fts_query_from_terms terms prefix = Some fts \<longrightarrow> q_syntax R fts = None)"

lemma fts_accepted:
  "fts_accepts R \<Longrightarrow> list_all nul_free terms \<Longrightarrow> graph_fts_query_from_terms terms prefix = Some fts
    \<Longrightarrow> fts_check R fts = Inr ()"
  by (simp add: fts_accepts_def fts_check_def)

text \<open>The words and tokens of a text have its characters.\<close>

lemma split_whitespace_chars: "t \<in> set (split_whitespace s) \<Longrightarrow> set t \<subseteq> set s"
proof (induction s rule: split_whitespace.induct)
  case (1 s)
  let ?t = "dropWhile is_ws s"
  show ?case
  proof (cases "?t = []")
    case False
    then have "t = takeWhile (Not \<circ> is_ws) ?t \<or> t \<in> set (split_whitespace (dropWhile (Not \<circ> is_ws) ?t))"
      using 1(2) split_whitespace.simps [of s] False by (simp add: Let_def split: if_splits)
    then show ?thesis
      using 1(1) [OF refl False] by (auto dest!: set_takeWhileD set_dropWhileD)
  qed (use 1(2) in \<open>simp add: split_whitespace.simps\<close>)
qed

lemma trim_chars: "set (trim s) \<subseteq> set s" "set (trim_matches P s) \<subseteq> set s"
  by (auto simp: trim_def trim_start_def trim_end_def trim_matches_def dest!: set_dropWhileD)

lemma query_terms_nul_free:
  assumes "nul_free s"
  shows "list_all nul_free (graph_query_terms s)"
proof -
  have "nul_free (normalize_graph_query_term w)" if "w \<in> set (split_whitespace s)" for w
    using split_whitespace_chars [OF that] trim_chars assms
    unfolding normalize_graph_query_term_def nul_free_def by blast
  then show ?thesis by (auto simp: graph_query_terms_def list_all_iff dest!: in_set_takeD)
qed

lemma token_loop_chars: "t \<in> set (token_loop P s c) \<Longrightarrow> set t \<subseteq> set s \<union> set c"
  by (induction P s c rule: token_loop.induct) (fastforce split: if_splits)+

lemma join_with_chars: "set (join_with sep xs) \<subseteq> set sep \<union> (\<Union>x \<in> set xs. set x)"
  by (induction sep xs rule: join_with.induct) auto

text \<open>Unicode normalization and lower case bring no NUL into a text.\<close>

definition text_keeps :: "genv \<Rightarrow> bool" where
  "text_keeps E \<longleftrightarrow> (\<forall>s. nul_free s \<longrightarrow> nul_free (g_nfc E s) \<and> nul_free (g_lower E s))"

lemma match_tokens_nul_free:
  assumes "text_keeps E" "nul_free s"
  shows "list_all nul_free (graph_match_tokens E R s)"
proof -
  have "nul_free (join_with [32] (split_whitespace s))"
    using join_with_chars [of "[32]" "split_whitespace s"] split_whitespace_chars [of _ s] assms(2)
    unfolding nul_free_def by fastforce
  then have "nul_free (normalize_graph_text E s)"
    using assms(1) by (simp add: normalize_graph_text_def text_keeps_def)
  then show ?thesis
    using token_loop_chars [of _ "q_alnum R" "normalize_graph_text E s" "[]"]
    by (auto simp: graph_match_tokens_def list_all_iff nul_free_def)
qed

lemma plan_accepted:
  assumes "fts_accepts R" "nul_free query" "list_all nul_free names"
  shows "pl_entity_fts_query (graph_fts_query_plan E R query names) = Some fts \<Longrightarrow> fts_check R fts = Inr ()"
    "pl_relation_fts_query (graph_fts_query_plan E R query names) = Some fts \<Longrightarrow> fts_check R fts = Inr ()"
proof -
  have q: "list_all nul_free (graph_query_terms query)" by (rule query_terms_nul_free [OF assms(2)])
  then have r: "list_all nul_free (relation_terms E R query names)"
    by (auto simp: relation_terms_def Let_def list_all_iff)
  have n: "list_all nul_free (concat (map graph_query_terms names))"
    using assms(3) query_terms_nul_free by (auto simp: list_all_iff)
  have t: "list_all nul_free (take MAX_GRAPH_FTS_QUERY_TERMS
      (concat (map graph_query_terms names) @ relation_terms E R query names))"
    using n r by (auto simp: list_all_iff simp del: take_append dest!: in_set_takeD)
  show "pl_entity_fts_query (graph_fts_query_plan E R query names) = Some fts \<Longrightarrow> fts_check R fts = Inr ()"
    using q t by (auto simp: graph_fts_query_plan_def Let_def simp del: take_append split: if_splits
        intro: fts_accepted [OF assms(1)])
  show "pl_relation_fts_query (graph_fts_query_plan E R query names) = Some fts \<Longrightarrow> fts_check R fts = Inr ()"
    using r by (auto simp: graph_fts_query_plan_def Let_def intro: fts_accepted [OF assms(1)])
qed

text \<open>The texts a retrieval builds its queries from: the request's and the names in the graph.\<close>

definition nul_free_texts :: "GraphDb \<Rightarrow> GraphRetrieveContextRequest \<Rightarrow> bool" where
  "nul_free_texts db q \<longleftrightarrow> nul_free (gq_query q)
     \<and> (case gq_target_subject_entity_name q of None \<Rightarrow> True | Some name \<Rightarrow> nul_free name)
     \<and> (\<forall>e \<in> set (gd_entities db). nul_free (ent_canonical_name e))
     \<and> (\<forall>a \<in> set (gd_aliases db). nul_free (als_display_alias a))"

lemma trimmed_query: "nul_free_texts db q \<Longrightarrow> nul_free (trim (gq_query q))"
  using trim_chars(1) by (auto simp: nul_free_texts_def nul_free_def)

lemma actor_matches_named:
  assumes "\<forall>(i, name) \<in> set rows. P name" "\<forall>(i, m) \<in> set al. P (snd (snd m))"
  shows "\<forall>(i, m) \<in> set (fold (record_query_actor_match E R tokens) rows al). P (snd (snd m))"
  using assms
proof (induction rows arbitrary: al)
  case (Cons row rows)
  obtain i name where row: "row = (i, name)" by (cases row)
  have "\<forall>(i, m) \<in> set (record_query_actor_match E R tokens row al). P (snd (snd m))"
  proof (cases "contiguous_token_match_position tokens (graph_match_tokens E R name)")
    case None
    then show ?thesis using Cons.prems by (simp add: record_query_actor_match_def row)
  next
    case (Some position)
    have "P name" using Cons.prems(1) by (simp add: row)
    then have "\<forall>(i, m) \<in> set (upsert i (\<lambda>current.
        if fst (position, length (graph_match_tokens E R name), name) < fst current
           \<or> fst (position, length (graph_match_tokens E R name), name) = fst current
             \<and> fst (snd (position, length (graph_match_tokens E R name), name)) > fst (snd current)
        then (position, length (graph_match_tokens E R name), name) else current)
        (position, length (graph_match_tokens E R name), name) al). P (snd (snd m))"
      by (intro upsert_all [where P = "\<lambda>k m. P (snd (snd m))"]) (use Cons.prems(2) in auto)
    then show ?thesis using Some by (simp add: record_query_actor_match_def row Let_def)
  qed
  then show ?case using Cons by simp
qed simp

lemma select_actors_named:
  "s \<in> set (select_actors ms occupied) \<Longrightarrow> sj_matched_name s \<in> (\<lambda>(p, n, i, name). name) ` set ms"
proof (induction ms arbitrary: occupied rule: length_induct)
  case (1 ms)
  show ?case
  proof (cases ms)
    case Nil
    then show ?thesis using 1(2) by simp
  next
    case (Cons m rest)
    let ?r = "dropWhile (\<lambda>x. fst x = fst m) rest"
    have "length ?r < length ms" by (simp add: Cons less_Suc_eq_le length_dropWhile_le)
    then have IH: "sj_matched_name s \<in> (\<lambda>(p, n, i, name). name) ` set ?r"
      if "s \<in> set (select_actors ?r occ)" for occ using 1(1) that by blast
    have sub: "set ?r \<subseteq> set ms" by (auto simp: Cons dest: set_dropWhileD)
    consider "s = \<lparr>sj_entity_id = fst (snd (snd m)), sj_matched_name = snd (snd (snd m))\<rparr>"
      | occ where "s \<in> set (select_actors ?r occ)"
      using 1(2) by (auto simp: Cons Let_def split: if_splits)
    then show ?thesis
    proof cases
      case 1
      then show ?thesis by (cases m) (simp add: Cons)
    next
      case 2
      from IH [OF this] sub show ?thesis by blast
    qed
  qed
qed

lemma resolved_names_nul_free:
  assumes "resolve_target_subjects E R db q = Inr ss" "nul_free_texts db q"
  shows "list_all nul_free (map sj_matched_name ss)"
proof (cases "gq_target_subject_entity_name q")
  case (Some name)
  then show ?thesis using assms
    by (auto simp: resolve_target_subjects_def nul_free_texts_def split: option.splits)
next
  case None
  let ?tokens = "graph_match_tokens E R (trim (gq_query q))"
  obtain rows where rows: "\<forall>(i, name) \<in> set rows. nul_free name"
    and ss: "ss = [] \<or> ss = take MAX_GRAPH_QUERY_ACTORS (select_actors
      (placed_matches (fold (record_query_actor_match E R ?tokens) rows [])) [])"
  proof -
    let ?sid = "gq_memory_space_id q"
    let ?fts = "graph_fts_query_from_terms (take MAX_GRAPH_FTS_QUERY_TERMS
               (filter (\<lambda>t. \<not> is_graph_retrieval_stop_word t) ?tokens)) False"
    have named: "nul_free (ent_canonical_name e)" if "(r, e) \<in> set (matched_entities R fts ?sid db)" for r e fts
      using that assms(2) by (auto simp: matched_entities_def nul_free_texts_def)
    have aliased: "nul_free (als_display_alias a)" if "(r, a, e) \<in> set (matched_aliases R fts ?sid db)" for r a e fts
      using that assms(2) by (auto simp: matched_aliases_def nul_free_texts_def)
    have mem: "x \<in> set (take n (sort_key f (filter p xs))) \<Longrightarrow> x \<in> set xs"
      for x n p and xs :: "(fts_row \<times> Entity) list" and f :: "fts_row \<times> Entity \<Rightarrow> int \<times> nat \<times> str"
      by (auto dest!: in_set_takeD)
    have mem2: "x \<in> set (take n (sort_key f (filter p xs))) \<Longrightarrow> x \<in> set xs"
      for x n p and xs :: "(fts_row \<times> EntityAlias \<times> Entity) list"
        and f :: "fts_row \<times> EntityAlias \<times> Entity \<Rightarrow> int \<times> nat \<times> str"
      by (auto dest!: in_set_takeD)
    show thesis
    proof (cases "ss = []")
      case True
      show thesis by (rule that [of "[]"]) (simp_all add: True)
    next
      case False
      then obtain fts where fts: "?fts = Some fts" "?tokens \<noteq> []"
        using assms(1) None by (auto simp: resolve_target_subjects_def resolve_query_source_actors_def Let_def
            split: if_splits option.splits)
      show thesis
        by (rule that [of "map (\<lambda>(r, e). (ent_id e, ent_canonical_name e))
              (take (max 1 (min (seed_limit q) MAX_GRAPH_SOURCE_ACTOR_CANDIDATES)) (sort_key
                 (\<lambda>(r, e). (q_bm25 R fts (gd_entity_fts db) r, ent_created_at_ms e, ent_id e))
                 (filter (\<lambda>(r, e). entity_has_source_actor_link db (ent_memory_space_id e) (ent_id e))
                   (matched_entities R fts ?sid db))))
            @ map (\<lambda>(r, a, e). (ent_id e, als_display_alias a))
              (take (max 1 (min (seed_limit q) MAX_GRAPH_SOURCE_ACTOR_CANDIDATES)) (sort_key
                 (\<lambda>(r, a, e). (q_bm25 R fts (gd_alias_fts db) r, als_created_at_ms a, ent_id e))
                 (filter (\<lambda>(r, a, e). entity_has_source_actor_link db (ent_memory_space_id e) (ent_id e))
                   (matched_aliases R fts ?sid db))))"])
           (use assms(1) None fts named aliased in \<open>auto simp: resolve_target_subjects_def
              resolve_query_source_actors_def Let_def dest!: mem mem2\<close>)
    qed
  qed
  have "\<forall>(i, m) \<in> set (fold (record_query_actor_match E R ?tokens) rows []). nul_free (snd (snd m))"
    by (rule actor_matches_named [OF rows]) simp
  then have "nul_free (sj_matched_name s)"
    if "s \<in> set (select_actors (placed_matches (fold (record_query_actor_match E R ?tokens) rows [])) [])" for s
    using select_actors_named [OF that] by (auto simp: placed_matches_def)
  then show ?thesis using ss by (auto simp: list_all_iff dest: in_set_takeD)
qed

lemma resolve_targets_succeeds:
  assumes "fts_accepts R" "text_keeps E" "nul_free_texts db q"
  shows "\<exists>s. resolve_target_subjects E R db q = Inr s"
proof -
  have "list_all nul_free (graph_match_tokens E R (trim (gq_query q)))"
    by (rule match_tokens_nul_free [OF assms(2) trimmed_query [OF assms(3)]])
  then have "list_all nul_free (take n (filter p (graph_match_tokens E R (trim (gq_query q)))))" for n p
    by (auto simp: list_all_iff dest: in_set_takeD)
  from fts_accepted [OF assms(1) this] show ?thesis
    by (auto simp: resolve_target_subjects_def resolve_query_source_actors_def Let_def split: option.splits)
qed

lemma collect_seeds_succeeds:
  assumes "\<And>fts. a = Some fts \<Longrightarrow> fts_check R fts = Inr ()" "\<And>fts. b = Some fts \<Longrightarrow> fts_check R fts = Inr ()"
  shows "\<exists>s. collect_graph_seeds R db sid a b limit t = Inr s"
  using assms
  by (cases a; cases b)
     (simp_all add: collect_graph_seeds_def collect_entity_name_seeds_def collect_entity_alias_seeds_def
        collect_fact_text_seeds_def collect_record_evidence_fact_seeds_def)

lemma retrieval_seeds_succeeds:
  assumes "fts_accepts R" "nul_free query" "list_all nul_free names"
  shows "\<exists>s. retrieval_seeds R db q (graph_fts_query_plan E R query names) subjects = Inr s"
proof -
  have one: "\<exists>s. collect_graph_seeds R db (gq_memory_space_id q) (pl_entity_fts_query (graph_fts_query_plan E R query names))
      (pl_relation_fts_query (graph_fts_query_plan E R query names)) (seed_limit q) t = Inr s" for t
    by (rule collect_seeds_succeeds) (rule plan_accepted [OF assms], assumption)+
  then have "\<exists>ss. collect_ok (\<lambda>t. collect_graph_seeds R db (gq_memory_space_id q)
      (pl_entity_fts_query (graph_fts_query_plan E R query names))
      (pl_relation_fts_query (graph_fts_query_plan E R query names)) (seed_limit q) (Some t)) subjects = Inr ss"
    by (intro collect_ok_total) simp
  with one show ?thesis by (auto simp: retrieval_seeds_def Let_def)
qed


section \<open>The rows of a unit\<close>

lemma query_row_succeeds: "x \<in> set rows \<Longrightarrow> \<exists>r. query_row E rows = Inr r"
  by (cases rows) (auto simp: query_row_def)

lemma load_entity_succeeds:
  assumes "entities_ok db" "entity_exists i sid db"
  shows "\<exists>e. load_entity E db sid i = Inr e"
proof -
  obtain e where "e \<in> set (gd_entities db)" "ent_id e = i" "ent_memory_space_id e = sid"
    using assms(2) by (auto simp: entity_exists_def)
  then have "e \<in> set (filter (\<lambda>e. ent_id e = i \<and> ent_memory_space_id e = sid \<and> active_entity e) (gd_entities db))"
    using entities_active [OF assms(1)] by simp
  then show ?thesis unfolding load_entity_def by (rule query_row_succeeds)
qed

lemma load_records_succeeds:
  assumes "list_all (stored_ok E) (gd_records db)" "\<forall>m \<in> set (gd_records db). metadata_readable E m" "dims_in_range db"
  shows "\<exists>rs. load_evidence_records_for_fact E db sid i limit t = Inr rs"
  unfolding load_evidence_records_for_fact_def
proof (intro collect_ok_total ballI)
  let ?rows = "evidence_rows db sid i t"
  fix m assume "m \<in> set (take limit (map (\<lambda>(g, v, m). m) (sort_key
       (\<lambda>(g, v, m). (evg_created_at_ms g, evi_created_at_ms v, rec_id m)) (first_by (\<lambda>(g, v, m). m) ?rows))))"
  then have "m \<in> set (gd_records db)" by (blast dest: loaded_rows_mem evidence_rows_mem)
  then show "\<exists>r. load_record E m = Inr r"
    using assms by (intro load_record_succeeds) (auto simp: list_all_iff dims_in_range_def)
qed

lemma load_unit_succeeds:
  assumes "graph_ok db" "list_all (stored_ok E) (gd_records db)" "\<forall>m \<in> set (gd_records db). metadata_readable E m" "dims_in_range db"
    and "candidate_ok db (gq_memory_space_id q) subjects c"
  shows "\<exists>u. load_fact_context_unit E db q explicit inferred c = Inr u"
proof -
  let ?sid = "gq_memory_space_id q"
  obtain f0 where "f0 \<in> set (filter (\<lambda>f. fct_id f = fcn_fact_id c \<and> fct_memory_space_id f = ?sid \<and> active_fact f)
      (gd_facts db))"
    using assms(5) by (auto simp: candidate_ok_def retrievable_fact_def)
  from query_row_succeeds [OF this] obtain f where q: "query_row E (filter (\<lambda>f. fct_id f = fcn_fact_id c
      \<and> fct_memory_space_id f = ?sid \<and> active_fact f) (gd_facts db)) = Inr f" by blast
  then have f: "f \<in> set (gd_facts db)" "fct_memory_space_id f = ?sid" "active_fact f" by (auto dest!: query_row_Inr)
  then have "load_active_fact E db ?sid (fcn_fact_id c) = Inr (f, FsActive)"
    using q by (simp add: load_active_fact_def parse_fact_status_def active_fact_def)
  moreover have "entity_exists (fct_subject_entity_id f) ?sid db" "entity_exists (fct_object_entity_id f) ?sid db"
    using assms(1) f by (auto simp: graph_ok_def facts_ok_def)
  then obtain sb ob where "load_entity E db ?sid (fct_subject_entity_id f) = Inr sb"
    "load_entity E db ?sid (fct_object_entity_id f) = Inr ob"
    using load_entity_succeeds assms(1) unfolding graph_ok_def by blast
  moreover obtain rs where "load_evidence_records_for_fact E db ?sid (fct_id f) (max_evidence_records_per_fact q)
      (evidence_target explicit inferred f) = Inr rs"
    using load_records_succeeds [OF assms(2-4)] by blast
  ultimately show ?thesis by (simp add: load_fact_context_unit_def)
qed

lemma direct_one_succeeds:
  assumes "list_all (stored_ok E) (gd_records db)" "\<forall>m \<in> set (gd_records db). metadata_readable E m" "fts_check R fts = Inr ()"
  shows "\<exists>us. load_direct_evidence_record_context_units E R db q fts t = Inr us"
proof -
  let ?rows = "filter (\<lambda>(r, m). recorded_by db t m) (matched_records R fts (gq_memory_space_id q) db)"
  let ?key = "\<lambda>(r, m). (q_bm25 R fts (gd_record_fts db) r, rec_ingestion_sequence m, rec_id m)"
  have "\<exists>rs. collect_ok (graph_memory_record_from_row E R) (map snd (take (seed_limit q) (sort_key ?key ?rows))) = Inr rs"
  proof (intro collect_ok_total ballI)
    fix m assume "m \<in> set (map snd (take (seed_limit q) (sort_key ?key ?rows)))"
    then obtain x where "(x, m) \<in> set ?rows" by (auto dest!: in_set_takeD)
    then have m: "m \<in> set (gd_records db)" by (auto dest: matched_records_mem)
    then have "stored_ok E m" using assms(1) by (simp add: list_all_iff)
    then obtain w where "g_from_str E (rec_metadata_json m) = Inr w"
      using assms(2) m by (auto simp: metadata_readable_def)
    then show "\<exists>r. graph_memory_record_from_row E R m = Inr r" by (simp add: graph_memory_record_from_row_def)
  qed
  then show ?thesis using assms(3) by (auto simp: load_direct_evidence_record_context_units_def)
qed

lemma direct_units_succeeds:
  assumes "list_all (stored_ok E) (gd_records db)" "\<forall>m \<in> set (gd_records db). metadata_readable E m" "fts_accepts R"
    and "nul_free query" "list_all nul_free names"
  shows "\<exists>us. direct_evidence_units E R db q (graph_fts_query_plan E R query names) explicit inferred = Inr us"
proof -
  have "\<exists>us. load_direct_evidence_record_context_units_for_entities E R db q fts explicit inferred = Inr us"
    if "fts_check R fts = Inr ()" for fts
  proof -
    have "\<exists>uss. collect_ok (load_direct_evidence_record_context_units E R db q fts) (evidence_speakers explicit inferred)
        = Inr uss"
      by (rule collect_ok_total) (use direct_one_succeeds [OF assms(1,2) that] in blast)
    then show ?thesis by (auto simp: load_direct_evidence_record_context_units_for_entities_def)
  qed
  then show ?thesis
    using plan_accepted [OF assms(3-5), of E]
    by (auto simp: direct_evidence_units_def split: option.split)
qed

lemma retrieve_total:
  assumes "graph_ok db" "list_all (stored_ok E) (gd_records db)" "\<forall>m \<in> set (gd_records db). metadata_readable E m" "dims_in_range db" "fts_accepts R"
    and "retrieval_error q = None" "text_keeps E" "nul_free_texts db q"
  shows "\<exists>b. retrieve_context_sync E R now q db = Inr b"
proof -
  obtain ss where ss: "resolve_target_subjects E R db q = Inr ss" using resolve_targets_succeeds [OF assms(5,7,8)] by blast
  note clean = assms(5) trimmed_query [OF assms(8)] resolved_names_nul_free [OF ss assms(8)]
  let ?subjects = "map sj_entity_id ss"
  let ?plan = "graph_fts_query_plan E R (trim (gq_query q)) (map sj_matched_name ss)"
  let ?explicit = "explicit_evidence_entity E db q" and ?inferred = "inferred_evidence_entities db q ?subjects"
  obtain seeds where seeds: "retrieval_seeds R db q ?plan ?subjects = Inr seeds"
    using retrieval_seeds_succeeds [OF clean] by blast
  let ?cs = "expand_seed_facts db (gq_memory_space_id q) seeds (gq_top_k q) ?subjects"
  have "\<exists>us. load_fact_context_units E db q ?cs ?explicit ?inferred = Inr us"
    unfolding load_fact_context_units_def
    by (rule collect_ok_total) (use expand_ok(1) load_unit_succeeds [OF assms(1-4)] in blast)
  then obtain us where us: "load_fact_context_units E db q ?cs ?explicit ?inferred = Inr us" by blast
  obtain es where "direct_evidence_units E R db q ?plan ?explicit ?inferred = Inr es"
    using direct_units_succeeds [OF assms(2,3) clean] by blast
  then show ?thesis
    by (simp add: retrieve_context_sync_def assms(6) ss seeds us Let_def)
qed

end
