(* ===== verification/GraphComplete.thy ===== *)
theory GraphComplete
  imports GraphReadable
begin

text \<open>
  Retrieval finds what matches: while the matches fit the seed limit and the space has no more
  retrievable facts than were asked for, every fact whose text matches the query is in the bundle.
\<close>

section \<open>Nothing is lost in the maps\<close>

lemma fold_upsert_keys:
  "fst ` set (fold (\<lambda>x. upsert (k x) (f x) (v x)) xs al) = fst ` set al \<union> k ` set xs"
  by (induction xs arbitrary: al) (auto simp: upsert_keys)

lemma length_upsert: "length (upsert k f v al) \<le> Suc (length al)"
  by (induction k f v al rule: upsert.induct) auto

lemma length_fold_upsert: "length (fold (\<lambda>x. upsert (k x) (f x) (v x)) xs al) \<le> length al + length xs"
proof (induction xs arbitrary: al)
  case (Cons x xs)
  show ?case using Cons [of "upsert (k x) (f x) (v x) al"] length_upsert [of "k x" "f x" "v x" al] by simp
qed simp

lemma sorted_take_all: "length xs \<le> n \<Longrightarrow> set (take n (sort_key f xs)) = set xs"
  by simp

lemma merge_keeps:
  assumes "s \<in> set seeds" "length seeds \<le> limit"
  shows "\<exists>s' \<in> set (merge_graph_seeds seeds limit). sd_kind s' = sd_kind s \<and> sd_id s' = sd_id s"
proof -
  let ?m = "fold (\<lambda>s. upsert (sd_kind s, sd_id s) (\<lambda>score. f_max score (sd_score s)) (sd_score s)) seeds []"
  have "length ?m \<le> limit"
    using length_fold_upsert [of "\<lambda>s. (sd_kind s, sd_id s)" "\<lambda>s score. f_max score (sd_score s)" sd_score seeds "[]"]
      assms(2) by simp
  moreover have "(sd_kind s, sd_id s) \<in> fst ` set ?m"
    unfolding fold_upsert_keys using assms(1) by auto
  ultimately show ?thesis
    unfolding merge_graph_seeds_def Let_def by (subst sorted_take_all) (force simp: image_iff)+
qed

lemma length_group_by_min: "length (group_by_min rows) \<le> length rows"
  using length_remdups_leq [of "map snd rows"] by (simp add: group_by_min_def)

lemma length_append_ranked: "length (append_ranked_seeds kind rows w seeds) = length seeds + length rows"
  by (simp add: append_ranked_seeds_def)

lemma append_ranked_mem:
  assumes "i \<in> set rows"
  shows "\<exists>s \<in> set (append_ranked_seeds kind rows w seeds). sd_kind s = kind \<and> sd_id s = i"
proof -
  obtain n where "n < length rows" "rows ! n = i" using assms by (auto simp: in_set_conv_nth)
  then have "(n, i) \<in> set (enumerate 0 rows)" by (force simp: in_set_enumerate_eq)
  then show ?thesis unfolding append_ranked_seeds_def by force
qed

lemma append_ranked_old: "set seeds \<subseteq> set (append_ranked_seeds kind rows w seeds)"
  by (auto simp: append_ranked_seeds_def)


section \<open>A matching fact becomes a seed\<close>

definition matches_of :: "renv \<Rightarrow> GraphDb \<Rightarrow> str \<Rightarrow> str \<Rightarrow> str \<Rightarrow> nat" where
  "matches_of R db sid e r = length (matched_entities R e sid db) + length (matched_aliases R e sid db)
     + length (matched_facts R r sid None db) + length (evidenced_facts R r sid None db)"

lemma collect_keeps:
  assumes "collect_graph_seeds R db sid (Some e) (Some r) limit None = Inr seeds"
    "(x, f) \<in> set (matched_facts R r sid None db)" "matches_of R db sid e r \<le> limit"
  shows "\<exists>s \<in> set seeds. sd_kind s = FactSeed \<and> sd_id s = fct_id f"
proof -
  have "0 < length (matched_facts R r sid None db)" using assms(2) by (rule length_pos_if_in_set)
  then have "limit \<noteq> 0" using assms(3) unfolding matches_of_def by linarith
  then obtain s1 s2 s3 s4 where s: "collect_entity_name_seeds R db sid e limit [] = Inr s1"
    "collect_entity_alias_seeds R db sid e limit s1 = Inr s2"
    "collect_fact_text_seeds R db sid r limit None s2 = Inr s3"
    "collect_record_evidence_fact_seeds R db sid r limit None s3 = Inr s4" "seeds = merge_graph_seeds s4 limit"
    using assms(1) by (auto simp: collect_graph_seeds_def)
  have "length s1 \<le> length (matched_entities R e sid db)" "length s2 \<le> length s1 + length (matched_aliases R e sid db)"
    "length s3 \<le> length s2 + length (matched_facts R r sid None db)"
    "length s4 \<le> length s3 + length (evidenced_facts R r sid None db)"
    using s(1-4) length_group_by_min
      [of "map (\<lambda>(r, a, e). (als_created_at_ms a, ent_id e)) (matched_aliases R e sid db)"]
      length_group_by_min [of "map (\<lambda>f. (fct_recorded_at_ms f, fct_id f)) (evidenced_facts R r sid None db)"]
    by (auto simp: collect_entity_name_seeds_def collect_entity_alias_seeds_def collect_fact_text_seeds_def
        collect_record_evidence_fact_seeds_def length_append_ranked)
  then have "length s4 \<le> limit" using assms(3) by (simp add: matches_of_def)
  moreover obtain s where "s \<in> set s3" "sd_kind s = FactSeed" "sd_id s = fct_id f"
  proof -
    let ?key = "\<lambda>(x, f). (q_bm25 R r (gd_fact_fts db) x, fct_recorded_at_ms f, fct_id f)"
    let ?rows = "map (fct_id \<circ> snd) (take limit (sort_key ?key (matched_facts R r sid None db)))"
    have "length (matched_facts R r sid None db) \<le> limit" using assms(3) by (simp add: matches_of_def)
    then have "(x, f) \<in> set (take limit (sort_key ?key (matched_facts R r sid None db)))" using assms(2) by simp
    then have "fct_id f \<in> set ?rows" by force
    moreover have "s3 = append_ranked_seeds FactSeed ?rows FACT_TEXT_SEED_WEIGHT s2"
      using s(3) by (auto simp: collect_fact_text_seeds_def)
    ultimately show thesis using append_ranked_mem that by blast
  qed
  moreover have "set s3 \<subseteq> set s4"
    using s(4) by (auto simp: collect_record_evidence_fact_seeds_def intro: subsetD [OF append_ranked_old])
  ultimately show ?thesis unfolding s(5) using merge_keeps [of s s4 limit] by auto
qed


section \<open>A seed becomes a unit\<close>

lemma retrievable_ids_bound:
  assumes "\<forall>c \<in> set cs. candidate_ok db sid subjects c" "distinct (map fcn_fact_id cs)"
  shows "length cs \<le> length (filter (retrievable_fact sid) (gd_facts db))"
proof -
  have "fcn_fact_id ` set cs \<subseteq> fct_id ` set (filter (retrievable_fact sid) (gd_facts db))"
    using assms(1) by (force simp: candidate_ok_def)
  then have "card (fcn_fact_id ` set cs) \<le> card (fct_id ` set (filter (retrievable_fact sid) (gd_facts db)))"
    by (intro card_mono) simp_all
  also have "\<dots> \<le> length (filter (retrievable_fact sid) (gd_facts db))"
    using card_length [of "map fct_id (filter (retrievable_fact sid) (gd_facts db))"] by simp
  finally show ?thesis using distinct_card [OF assms(2)] by simp
qed

lemma expand_keeps:
  assumes "s \<in> set seeds" "sd_kind s = FactSeed" "active_fact_recorded_at db sid (sd_id s) None = Some n"
    "length (filter (retrievable_fact sid) (gd_facts db)) \<le> limit" "limit \<noteq> 0"
  shows "sd_id s \<in> fcn_fact_id ` set (expand_seed_facts db sid seeds limit [])"
proof -
  let ?direct = "list_ex (\<lambda>s. sd_kind s = FactSeed \<and> f_gt (sd_score s) 0) seeds"
  let ?cs = "seed_candidates db sid limit [] ?direct seeds"
  let ?m = "fold upsert_fact_candidate ?cs []"
  have "\<exists>c \<in> set ?cs. fcn_fact_id c = sd_id s"
    using assms(1-3) by (force simp: seed_candidates_def fact_seed_candidates_def)
  then have "sd_id s \<in> fst ` set ?m"
    unfolding upsert_fact_candidate_def [abs_def] fold_upsert_keys by force
  moreover note ok = candidate_map_ok [OF seed_candidates_ok, of db sid limit "[]" ?direct seeds]
  ultimately have "sd_id s \<in> fcn_fact_id ` set (map snd ?m)" by (force simp: image_iff)
  moreover have "length (map snd ?m) \<le> limit"
    using retrievable_ids_bound [OF keyed_values [OF ok]] assms(4) by simp
  moreover have "expand_seed_facts db sid seeds limit [] = take limit (sort_key
      (\<lambda>c. (- f_total_key (fcn_score c), fcn_recorded_at_ms c, fcn_fact_id c)) (map snd ?m))"
    using assms(1,5) by (auto simp: expand_seed_facts_def Let_def seed_candidates_def)
  ultimately show ?thesis by (simp only: sorted_take_all)
qed

lemma recorded_at_found:
  assumes "f \<in> set (gd_facts db)" "retrievable_fact sid f"
  shows "\<exists>n. active_fact_recorded_at db sid (fct_id f) None = Some n"
proof (cases "active_fact_recorded_at db sid (fct_id f) None")
  case None
  then show ?thesis using assms by (auto simp: active_fact_recorded_at_def find_None_iff about_subject_def)
qed auto

lemma retrieve_finds:
  assumes "retrieve_context_sync E R now q db = Inr b" "resolve_target_subjects E R db q = Inr []"
    and "graph_fts_query_plan E R (trim (gq_query q)) []
       = \<lparr>pl_entity_fts_query = Some e, pl_relation_fts_query = Some r\<rparr>"
    and "(x, f) \<in> set (matched_facts R r (gq_memory_space_id q) None db)"
    and "matches_of R db (gq_memory_space_id q) e r \<le> seed_limit q"
    and "length (filter (retrievable_fact (gq_memory_space_id q)) (gd_facts db)) \<le> gq_top_k q" "graph_ok db"
  shows "fct_id f \<in> fu_fact_id ` set (cb_fact_context_units b)"
proof -
  let ?sid = "gq_memory_space_id q"
  have f: "f \<in> set (gd_facts db)" "retrievable_fact ?sid f" using assms(4) by (auto simp: matched_facts_def)
  then have "f \<in> set (filter (retrievable_fact ?sid) (gd_facts db))" by simp
  then have k: "gq_top_k q \<noteq> 0" using assms(6) by (metis length_pos_if_in_set le_zero_eq less_numeral_extra(3))
  have none: "retrieval_error q = None" using assms(1) by (auto simp: retrieve_context_sync_def split: option.splits)
  obtain seeds loaded where seeds: "collect_graph_seeds R db ?sid (Some e) (Some r) (seed_limit q) None = Inr seeds"
    and l: "load_fact_context_units E db q (expand_seed_facts db ?sid seeds (gq_top_k q) [])
        (explicit_evidence_entity E db q) (inferred_evidence_entities db q []) = Inr loaded"
    and b: "cb_fact_context_units b = map fst loaded"
    using assms(1) by (auto simp: retrieve_context_sync_def none assms(2,3) retrieval_seeds_def Let_def)
  obtain s where s: "s \<in> set seeds" "sd_kind s = FactSeed" "sd_id s = fct_id f"
    using collect_keeps [OF seeds assms(4,5)] by blast
  obtain n where "active_fact_recorded_at db ?sid (sd_id s) None = Some n"
    using recorded_at_found [OF f] by (auto simp: s(3))
  from expand_keeps [OF s(1,2) this assms(6) k]
  have "fct_id f \<in> fcn_fact_id ` set (expand_seed_facts db ?sid seeds (gq_top_k q) [])" by (simp add: s(3))
  moreover have "map fu_fact_id (map fst loaded) = map fcn_fact_id (expand_seed_facts db ?sid seeds (gq_top_k q) [])"
    by (rule load_units_ok(2) [OF assms(7) expand_ok(1) l])
  ultimately show ?thesis unfolding b by (metis set_map)
qed

end
