(* ===== verification/GraphRetrieveProps.thy ===== *)
theory GraphRetrieveProps
  imports GraphComplete GraphSample
begin

text \<open>
  The properties of retrieval: what it returns is in the graph, in the space and about the subjects that
  were asked for; its limits hold and its members are those of its units; it does not fail on
  what the pipeline stored; and in a small space it misses no match.
\<close>

text \<open>C30: Whatever retrieval returns on a reachable graph is true to it. Each fact unit shows an active fact of
  the requested space that is neither a self-loop nor a mention, with the fact's own entities and with records
  that support the fact. The fact is about one of the resolved subjects if any subject resolves, and the
  records come from the speaker if one is known. A named subject that no entity of the space bears, or a
  named speaker that no source actor bears, restricts nothing: then the units may be about any subject and
  from any speaker. Each evidence unit shows a record of the space, from one of the known speakers if any.\<close>

theorem retrieval_is_faithful:
  assumes "graph_reachable E C reg (db, cs)" "retrieve_context_sync E R now q db = Inr b"
  shows "\<exists>subjects. resolve_target_subjects E R db q = Inr subjects
    \<and> (\<forall>u \<in> set (cb_fact_context_units b). faithful_unit db (gq_memory_space_id q) (map sj_entity_id subjects)
        (evidence_target (explicit_evidence_entity E db q)
          (inferred_evidence_entities db q (map sj_entity_id subjects))) u)
    \<and> (\<forall>u \<in> set (cb_evidence_record_context_units b). faithful_evidence db (gq_memory_space_id q)
        (evidence_speakers (explicit_evidence_entity E db q)
          (inferred_evidence_entities db q (map sj_entity_id subjects))) u)"
  by (rule retrieve_ok(1) [OF reachable_graph_ok [OF assms(1)] assms(2)])

text \<open>C31: A bundle keeps the request's limits - at most \<open>top_k\<close> fact units, each fact once, by falling score, at most
  the requested number of records for each, at most \<open>top_k\<close> evidence units, each record once - and
  is closed: its records, entities and facts are those its units refer to, each once.\<close>

theorem retrieval_is_bounded:
  assumes "graph_reachable E C reg (db, cs)" "retrieve_context_sync E R now q db = Inr b"
  shows "bounded_bundle q b \<and> closed_bundle b"
  by (rule retrieve_ok(2) [OF reachable_graph_ok [OF assms(1)] assms(2)])

text \<open>C32: On a reachable graph a request within its limits is always answered: stored embeddings decode, metadata
  nested less deeply than the JSON reader's limit of 128 is read back, every fact finds its entities, and the
  full-text queries are well formed, as long as neither the request nor a name in the graph contains
  the character NUL. A request outside its limits is an invalid input.\<close>

theorem retrieval_answers:
  assumes "graph_reachable E C reg (db, cs)" "json_reads_back E" "shallow_metadata E db" "dims_in_range db"
    and "fts_accepts R" "text_keeps E" "nul_free_texts db q"
  shows "case retrieval_error q of
      None \<Rightarrow> \<exists>b. retrieve_context_sync E R now q db = Inr b
    | Some e \<Rightarrow> retrieve_context_sync E R now q db = Inl (MInvalidInput e)"
proof (cases "retrieval_error q")
  case None
  have "\<forall>m \<in> set (gd_records db). metadata_readable E m" using shallow_readable [OF assms(2,3)] by blast
  from retrieve_total [OF reachable_graph_ok [OF assms(1)] reachable_stored_ok [OF assms(1)] this assms(4,5) None
      assms(6,7)] None show ?thesis by simp
qed (simp add: retrieve_context_sync_def)

text \<open>C33: While the matches of a query fit the seed limit and the space has at most \<open>top_k\<close> retrievable facts,
  a query that names no subject finds every fact whose text it matches.\<close>

theorem retrieval_finds_matches:
  assumes "graph_reachable E C reg (db, cs)" "retrieve_context_sync E R now q db = Inr b"
    and "resolve_target_subjects E R db q = Inr []"
    and "graph_fts_query_plan E R (trim (gq_query q)) []
       = \<lparr>pl_entity_fts_query = Some e, pl_relation_fts_query = Some r\<rparr>"
    and "matches_of R db (gq_memory_space_id q) e r \<le> seed_limit q"
    and "length (filter (retrievable_fact (gq_memory_space_id q)) (gd_facts db)) \<le> gq_top_k q"
    and "(x, f) \<in> set (matched_facts R r (gq_memory_space_id q) None db)"
  shows "fct_id f \<in> fu_fact_id ` set (cb_fact_context_units b)"
  by (rule retrieve_finds [OF assms(2-4,7,5,6) reachable_graph_ok [OF assms(1)]])


section \<open>A retrieval on the small graph\<close>

definition demo_renv :: renv where
  "demo_renv = \<lparr>q_alnum = (\<lambda>_. True), q_syntax = (\<lambda>_. None), q_match = (\<lambda>_ _. True),
     q_bm25 = (\<lambda>_ _ _. 0), q_conversion = id\<rparr>"

definition demo_query :: GraphRetrieveContextRequest where
  "demo_query = \<lparr>gq_memory_space_id = [1], gq_query = [66], gq_top_k = 1, gq_reference_time_ms = None,
     gq_query_embedding = None, gq_query_embedding_model = None, gq_target_subject_entity_name = None,
     gq_target_evidence_speaker = None, gq_seed_limit = None, gq_max_evidence_records_per_fact = None\<rparr>"

lemma demo_terms: "graph_query_terms [66] = [[66]]" "graph_match_tokens demo_env demo_renv [66] = [[66]]"
  "trim [66] = [66]" "seed_limit demo_query = 30"
  by (simp_all add: graph_query_terms_def split_whitespace.simps is_ws_def normalize_graph_query_term_def trim_def
      trim_start_def trim_end_def trim_matches_def is_ascii_punctuation_def is_graph_retrieval_stop_word_def
      GRAPH_RETRIEVAL_STOP_WORDS_def lit_def ascii_lower_def limit_defs graph_match_tokens_def demo_norm
      demo_renv_def seed_limit_def demo_query_def)

lemma demo_valid: "retrieval_error demo_query = None"
  by (simp add: retrieval_error_def Let_def demo_query_def trim_def trim_start_def trim_end_def is_ws_def utf8_len_def
      limit_defs seed_limit_def max_evidence_records_per_fact_def)

lemma demo_subjects: "resolve_target_subjects demo_env demo_renv demo_published demo_query = Inr []"
proof -
  have "\<not> entity_has_source_actor_link demo_published s i" for s i
    by (simp add: entity_has_source_actor_link_def demo_published_def demo_link_def SOURCE_ACTOR_def)
  then show ?thesis
    by (simp add: resolve_target_subjects_def demo_query_def resolve_query_source_actors_def demo_terms
        is_graph_retrieval_stop_word_def GRAPH_RETRIEVAL_STOP_WORDS_def lit_def ascii_lower_def limit_defs
        graph_fts_query_from_terms_def fts_check_def placed_matches_def case_prod_unfold)
       (simp add: demo_renv_def)
qed

definition demo_fts :: "bool \<Rightarrow> str" where
  "demo_fts prefix = quote_term prefix [66]"

lemma demo_plan: "graph_fts_query_plan demo_env demo_renv (trim (gq_query demo_query)) []
    = \<lparr>pl_entity_fts_query = Some (demo_fts False), pl_relation_fts_query = Some (demo_fts True)\<rparr>"
  by (simp add: graph_fts_query_plan_def relation_terms_def demo_query_def demo_terms
      graph_fts_query_from_terms_def demo_fts_def Let_def)

definition demo_subject_query :: GraphRetrieveContextRequest where
  "demo_subject_query = demo_query\<lparr>gq_target_subject_entity_name := Some [65]\<rparr>"

lemma demo_reads_back: "json_reads_back demo_env" "shallow_metadata demo_env demo_published"
  "dims_in_range demo_published" "fts_accepts demo_renv" "text_keeps demo_env"
  "nul_free_texts demo_published demo_query" "nul_free_texts demo_published demo_subject_query"
  by (simp_all add: json_reads_back_def dims_in_range_def fts_accepts_def demo_graph_simps demo_db_simps demo_renv_def
      demo_extracted_def demo_embedded_def shallow_metadata_def demo_record_def new_memory_row_def demo_request_def
      text_keeps_def nul_free_texts_def nul_free_def demo_query_def demo_subject_query_def)
     (simp_all add: demo_env_def exI [of _ JNull])

lemma demo_readable: "\<forall>m \<in> set (gd_records demo_published). metadata_readable demo_env m"
  using shallow_readable [OF demo_reads_back(1,2)] by blast

lemma demo_subject_valid: "retrieval_error demo_subject_query = None"
proof -
  have "gq_query demo_subject_query = gq_query demo_query" "gq_top_k demo_subject_query = gq_top_k demo_query"
    "seed_limit demo_subject_query = seed_limit demo_query"
    "max_evidence_records_per_fact demo_subject_query = max_evidence_records_per_fact demo_query"
    by (simp_all add: demo_subject_query_def seed_limit_def max_evidence_records_per_fact_def cong: option.case_cong)
  then have "retrieval_error demo_subject_query = retrieval_error demo_query" by (simp only: retrieval_error_def)
  with demo_valid show ?thesis by simp
qed

lemma demo_retrieves: "\<exists>b. retrieve_context_sync demo_env demo_renv 0 demo_query demo_published = Inr b"
  "\<exists>b. retrieve_context_sync demo_env demo_renv 0 demo_subject_query demo_published = Inr b"
  using retrieve_total [OF reachable_graph_ok [OF demo_reachable(4)] reachable_stored_ok [OF demo_reachable(4)]
      demo_readable demo_reads_back(3,4) _ demo_reads_back(5)] demo_valid demo_subject_valid demo_reads_back(6,7)
  by blast+

lemma demo_subject: "resolve_target_subjects demo_env demo_renv demo_published demo_subject_query
    = Inr [\<lparr>sj_entity_id = [3], sj_matched_name = [65]\<rparr>]"
  by (simp add: resolve_target_subjects_def demo_subject_query_def demo_norm find_active_entity_by_normalized_name_def
      trim_def trim_start_def trim_end_def is_ws_def demo_graph_simps demo_query_def active_entity_def)

lemma demo_matches:
  "(([11], [1], [65]), demo_fact) \<in> set (matched_facts demo_renv r [1] None demo_published)"
  "matches_of demo_renv demo_published [1] e r \<le> 30"
  by (simp_all add: matches_of_def matched_facts_def matched_entities_def matched_aliases_def evidenced_facts_def
      matched_records_def fts_rows_def demo_graph_simps demo_db_simps demo_renv_def demo_extracted_def demo_embedded_def
      retrievable_fact_def about_subject_def active_fact_def lit_def)

theorem retrieval_is_faithful_witness:
  "\<exists>b. retrieve_context_sync demo_env demo_renv 0 demo_subject_query demo_published = Inr b
     \<and> (\<forall>u \<in> set (cb_fact_context_units b). \<exists>f \<in> set (gd_facts demo_published). fu_fact_id u = fct_id f
          \<and> fct_subject_entity_id f = [3])"
proof -
  obtain b where b: "retrieve_context_sync demo_env demo_renv 0 demo_subject_query demo_published = Inr b"
    using demo_retrieves by blast
  from retrieval_is_faithful [OF demo_reachable(4) b] demo_subject obtain speakers where
    "\<forall>u \<in> set (cb_fact_context_units b). faithful_unit demo_published (gq_memory_space_id demo_subject_query) [[3]] speakers u"
    by auto
  then have "\<forall>u \<in> set (cb_fact_context_units b). \<exists>f \<in> set (gd_facts demo_published). fu_fact_id u = fct_id f
      \<and> fct_subject_entity_id f = [3]"
    unfolding faithful_unit_def by fastforce
  with b show ?thesis by blast
qed

theorem retrieval_is_bounded_witness:
  "\<exists>b. retrieve_context_sync demo_env demo_renv 0 demo_query demo_published = Inr b
     \<and> length (cb_fact_context_units b) \<le> 1 \<and> closed_bundle b"
proof -
  obtain b where b: "retrieve_context_sync demo_env demo_renv 0 demo_query demo_published = Inr b"
    using demo_retrieves by blast
  with retrieval_is_bounded [OF demo_reachable(4) b] show ?thesis
    by (auto simp: bounded_bundle_def demo_query_def)
qed

theorem retrieval_answers_witness:
  "(\<exists>b. retrieve_context_sync demo_env demo_renv 0 demo_query demo_published = Inr b)
     \<and> (\<exists>e. retrieve_context_sync demo_env demo_renv 0 (demo_query\<lparr>gq_top_k := 0\<rparr>) demo_published = Inl (MInvalidInput e))"
proof -
  have "retrieval_error (demo_query\<lparr>gq_top_k := 0\<rparr>) \<noteq> None"
    using demo_valid by (auto simp: retrieval_error_def Let_def split: if_splits)
  moreover have "nul_free_texts demo_published (demo_query\<lparr>gq_top_k := 0\<rparr>)"
    using demo_reads_back(6) by (simp add: nul_free_texts_def)
  ultimately show ?thesis
    using retrieval_answers [OF demo_reachable(4) demo_reads_back(1-5), where now = 0] demo_valid demo_reads_back(6)
    by (force split: option.splits)
qed

theorem retrieval_finds_matches_witness:
  "\<exists>b. retrieve_context_sync demo_env demo_renv 0 demo_query demo_published = Inr b
     \<and> [11] \<in> fu_fact_id ` set (cb_fact_context_units b)"
proof -
  obtain b where b: "retrieve_context_sync demo_env demo_renv 0 demo_query demo_published = Inr b"
    using demo_retrieves by blast
  have sid: "gq_memory_space_id demo_query = [1]" and k: "gq_top_k demo_query = 1" by (simp_all add: demo_query_def)
  have "length (filter (retrievable_fact [1]) (gd_facts demo_published)) \<le> length (gd_facts demo_published)" by simp
  then have few: "length (filter (retrievable_fact [1]) (gd_facts demo_published)) \<le> 1"
    by (simp add: demo_published_def)
  have "fct_id demo_fact \<in> fu_fact_id ` set (cb_fact_context_units b)"
    by (rule retrieval_finds_matches [OF demo_reachable(4) b demo_subjects demo_plan])
       (use demo_matches few in \<open>simp_all only: sid k demo_terms\<close>)
  with b show ?thesis by (simp add: demo_fact_def)
qed

end
