(* ===== verification/MemFloat.thy ===== *)
theory MemFloat
  imports GraphQuery
begin

text \<open>
  The arithmetic of \<open>f32\<close> on bit patterns, as the memory manager uses it: sums, products, quotients and
  square roots rounded to the nearest value with ties to even, infinities and NaN, the comparisons, and
  the conversions from and to \<open>usize\<close>. Values are read in units of \<open>2^-149\<close> by \<open>f_int\<close>, which also orders
  the infinities outside the finite values. Every NaN result is the canonical quiet NaN.
\<close>

section \<open>Classes of values\<close>

definition f_neg_sign :: "f32 \<Rightarrow> bool" where
  "f_neg_sign w \<longleftrightarrow> unat w \<ge> 2 ^ 31"

definition f_mag_bits :: "f32 \<Rightarrow> nat" where
  "f_mag_bits w = unat w mod 2 ^ 31"

definition f_is_nan :: "f32 \<Rightarrow> bool" where
  "f_is_nan w \<longleftrightarrow> f_mag_bits w > 0x7F800000"

definition f_is_inf :: "f32 \<Rightarrow> bool" where
  "f_is_inf w \<longleftrightarrow> f_mag_bits w = 0x7F800000"

definition f_is_finite :: "f32 \<Rightarrow> bool" where
  "f_is_finite w \<longleftrightarrow> f_mag_bits w < 0x7F800000"

definition F_NAN :: f32 where "F_NAN = 0x7FC00000"
definition F_INFINITY :: f32 where "F_INFINITY = 0x7F800000"
definition F_NEG_INFINITY :: f32 where "F_NEG_INFINITY = 0xFF800000"
definition F_ONE :: f32 where "F_ONE = 0x3F800000"

lemmas f_classes = f_neg_sign_def f_mag_bits_def f_is_nan_def f_is_inf_def f_is_finite_def

lemma f_is_finite_iff: "f_is_finite w \<longleftrightarrow> \<not> f_is_nan w \<and> \<not> f_is_inf w"
  by (auto simp: f_is_finite_def f_is_nan_def f_is_inf_def)


section \<open>Rounding\<close>

text \<open>The value \<open>p / q\<close> with a sign; a magnitude beyond the largest finite one is infinite.\<close>

definition f_mag :: "nat \<Rightarrow> nat \<Rightarrow> nat" where
  "f_mag p q = (let k = bit_length (p div q) - 24
     in min 0x7F800000 (k * 2 ^ 23 + nearest_even p (q * 2 ^ k)))"

definition f_pack :: "bool \<Rightarrow> nat \<Rightarrow> nat \<Rightarrow> f32" where
  "f_pack neg p q = word_of_nat (f_mag p q + (if neg then 2 ^ 31 else 0))"

definition f_zero :: "bool \<Rightarrow> f32" where
  "f_zero neg = (if neg then 0x80000000 else 0)"

definition f_inf :: "bool \<Rightarrow> f32" where
  "f_inf neg = (if neg then F_NEG_INFINITY else F_INFINITY)"

definition f_abs_units :: "f32 \<Rightarrow> nat" where
  "f_abs_units w = nat \<bar>f_int w\<bar>"

lemma f_mag_le: "f_mag p q \<le> 0x7F800000"
  by (simp add: f_mag_def Let_def)

lemma unat_f_pack: "unat (f_pack neg p q) = f_mag p q + (if neg then 2 ^ 31 else 0)"
proof -
  have "f_mag p q + (if neg then 2 ^ 31 else 0) < 2 ^ 32" using f_mag_le [of p q] by auto
  then have "(f_mag p q + (if neg then 2 ^ 31 else 0)) mod 2 ^ 32 = f_mag p q + (if neg then 2 ^ 31 else 0)"
    by (rule mod_less)
  then show ?thesis unfolding f_pack_def unat_of_nat by (simp only: len_num1 len_num0 len_bit0 mult_1_right) simp
qed

lemma f_pack_not_nan: "\<not> f_is_nan (f_pack neg p q)"
  using f_mag_le [of p q] by (auto simp: f_is_nan_def f_mag_bits_def unat_f_pack)


section \<open>Operations\<close>

definition f_neg :: "f32 \<Rightarrow> f32" where
  "f_neg w = xor w 0x80000000"

definition f_abs :: "f32 \<Rightarrow> f32" where
  "f_abs w = word_of_nat (f_mag_bits w)"

definition f_add :: "f32 \<Rightarrow> f32 \<Rightarrow> f32" where
  "f_add a b =
     (if f_is_nan a \<or> f_is_nan b then F_NAN
      else if f_is_inf a then (if f_is_inf b \<and> f_neg_sign a \<noteq> f_neg_sign b then F_NAN else a)
      else if f_is_inf b then b
      else let s = f_int a + f_int b
           in if s = 0 then f_zero (f_neg_sign a \<and> f_neg_sign b) else f_pack (s < 0) (nat \<bar>s\<bar>) 1)"

definition f_sub :: "f32 \<Rightarrow> f32 \<Rightarrow> f32" where
  "f_sub a b = f_add a (f_neg b)"

definition f_mul :: "f32 \<Rightarrow> f32 \<Rightarrow> f32" where
  "f_mul a b = (let neg = (f_neg_sign a \<noteq> f_neg_sign b)
     in if f_is_nan a \<or> f_is_nan b then F_NAN
        else if f_is_inf a \<or> f_is_inf b then (if f_int a = 0 \<or> f_int b = 0 then F_NAN else f_inf neg)
        else f_pack neg (f_abs_units a * f_abs_units b) (2 ^ 149))"

definition f_div :: "f32 \<Rightarrow> f32 \<Rightarrow> f32" where
  "f_div a b = (let neg = (f_neg_sign a \<noteq> f_neg_sign b)
     in if f_is_nan a \<or> f_is_nan b then F_NAN
        else if f_is_inf a then (if f_is_inf b then F_NAN else f_inf neg)
        else if f_is_inf b then f_zero neg
        else if f_int b = 0 then (if f_int a = 0 then F_NAN else f_inf neg)
        else f_pack neg (f_abs_units a * 2 ^ 149) (f_abs_units b))"

text \<open>
  The integer square root, and the square root in units: twice the integer root of the value scaled by
  \<open>2^149\<close>, with a last bit that says whether the root is exact.
\<close>

fun isqrt :: "nat \<Rightarrow> nat" where
  "isqrt n = (if n = 0 then 0 else let r = 2 * isqrt (n div 4) in if (r + 1) * (r + 1) \<le> n then r + 1 else r)"

declare isqrt.simps [simp del]

definition f_sqrt :: "f32 \<Rightarrow> f32" where
  "f_sqrt w =
     (if f_is_nan w then F_NAN
      else if f_int w = 0 then w
      else if f_neg_sign w then F_NAN
      else if f_is_inf w then w
      else let n = f_abs_units w * 2 ^ 149; r = isqrt n
           in f_pack False (2 * r + (if r * r = n then 0 else 1)) 2)"

text \<open>\<open>a > b\<close>, \<open>a <= b\<close>, \<open>a == b\<close>; \<open>f32::min\<close> and \<open>f32::max\<close>, which ignore a NaN.\<close>

definition fc_gt :: "f32 \<Rightarrow> f32 \<Rightarrow> bool" where
  "fc_gt a b \<longleftrightarrow> \<not> f_is_nan a \<and> \<not> f_is_nan b \<and> f_gt a b"

definition fc_le :: "f32 \<Rightarrow> f32 \<Rightarrow> bool" where
  "fc_le a b \<longleftrightarrow> \<not> f_is_nan a \<and> \<not> f_is_nan b \<and> \<not> f_gt a b"

definition fc_eq :: "f32 \<Rightarrow> f32 \<Rightarrow> bool" where
  "fc_eq a b \<longleftrightarrow> \<not> f_is_nan a \<and> \<not> f_is_nan b \<and> f_int a = f_int b"

definition fc_max :: "f32 \<Rightarrow> f32 \<Rightarrow> f32" where
  "fc_max a b = (if f_is_nan a then b else if f_is_nan b then a else f_max a b)"

definition fc_min :: "f32 \<Rightarrow> f32 \<Rightarrow> f32" where
  "fc_min a b = (if f_is_nan a then b else if f_is_nan b then a else if f_gt a b then b else a)"

text \<open>\<open>n as f32\<close> and \<open>x.ceil() as usize\<close>, which saturates.\<close>

definition f_of_nat :: "nat \<Rightarrow> f32" where
  "f_of_nat n = f_pack False (n * 2 ^ 149) 1"

definition f_ceil_usize :: "f32 \<Rightarrow> nat" where
  "f_ceil_usize w =
     (if f_is_nan w \<or> f_neg_sign w then 0 else min (2 ^ 64 - 1) ((f_abs_units w + (2 ^ 149 - 1)) div 2 ^ 149))"


section \<open>Facts used by the components\<close>

lemma f_gt_irrefl [simp]: "\<not> f_gt a a"
  by (simp add: f_gt_def)

lemma f_gt_trans: "f_gt a b \<Longrightarrow> f_gt b c \<Longrightarrow> f_gt a c"
  by (simp add: f_gt_def)

text \<open>The integer square root is the floor of the root.\<close>

lemma isqrt_correct: "isqrt n * isqrt n \<le> n \<and> n < (isqrt n + 1) * (isqrt n + 1)"
proof (induction n rule: isqrt.induct)
  case (1 n)
  show ?case
  proof (cases "n = 0")
    case True
    then show ?thesis by (simp add: isqrt.simps)
  next
    case False
    define s where "s = isqrt (n div 4)"
    with 1 False have s: "s * s \<le> n div 4" "n div 4 < (s + 1) * (s + 1)" by auto
    then have lo: "4 * (s * s) \<le> n" by linarith
    from s have "n div 4 + 1 \<le> (s + 1) * (s + 1)" by linarith
    then have hi: "n < 4 * ((s + 1) * (s + 1))" by linarith
    have eq: "isqrt n = (let r = 2 * s in if (r + 1) * (r + 1) \<le> n then r + 1 else r)"
      using False by (subst isqrt.simps) (simp add: s_def)
    show ?thesis using lo hi by (auto simp: eq Let_def algebra_simps)
  qed
qed

end
