(* ===== verification/MemTypes.thy ===== *)
theory MemTypes
  imports MemFloat GraphContext "HOL-Library.Multiset"
begin

text \<open>
  The types of the memory manager (\<open>api.rs\<close>, \<open>record.rs\<close>, \<open>vector.rs\<close>): requests and configuration with their
  defaults, records and scored records, the test of a record's metadata against a filter, the cosine
  similarity, and the sort by score. Operations are functions from a state to a result and the next
  state; \<open>then_do\<close> is the \<open>?\<close> operator on them. What they need of the environment beyond \<open>genv\<close> and
  \<open>renv\<close> is the parameter \<open>menv\<close>.
\<close>

named_theorems mem_simps \<open>definitions of the memory manager's operations\<close>

section \<open>Operations on a state\<close>

type_synonym ('e, 's, 'a) action = "'s \<Rightarrow> ('e + 'a) \<times> 's"
type_synonym ('s, 'a) oper = "(MemoryError, 's, 'a) action"

definition then_do :: "('e, 's, 'a) action \<Rightarrow> ('a \<Rightarrow> ('e, 's, 'b) action) \<Rightarrow> ('e, 's, 'b) action" where
  "then_do m f s = (case m s of (Inl e, s') \<Rightarrow> (Inl e, s') | (Inr a, s') \<Rightarrow> f a s')"

definition give :: "'a \<Rightarrow> ('e, 's, 'a) action" where
  "give a s = (Inr a, s)"

definition fail :: "'e \<Rightarrow> ('e, 's, 'a) action" where
  "fail e s = (Inl e, s)"

definition lift_result :: "'e + 'a \<Rightarrow> ('e, 's, 'a) action" where
  "lift_result r s = (r, s)"

fun map_ops :: "('x \<Rightarrow> ('e, 's, 'a) action) \<Rightarrow> 'x list \<Rightarrow> ('e, 's, 'a list) action" where
  "map_ops f [] = give []"
| "map_ops f (x # xs) = then_do (f x) (\<lambda>a. then_do (map_ops f xs) (\<lambda>as. give (a # as)))"

lemma give_simps [simp]:
  "give a s = (Inr b, s') \<longleftrightarrow> b = a \<and> s' = s" "give a s \<noteq> (Inl e, s')" "fail e s \<noteq> (Inr b, s')"
  "fst (give a s) = Inr a" "snd (give a s) = s" "snd (fail e s) = s" "fst (fail e s) = Inl e"
  by (auto simp: give_def fail_def)

lemma lift_result_simps [simp]:
  "lift_result r s = (r', s') \<longleftrightarrow> r' = r \<and> s' = s" "fst (lift_result r s) = r" "snd (lift_result r s) = s"
  by (auto simp: lift_result_def)

lemma then_do_Inr:
  "then_do m f s = (Inr b, s') \<longleftrightarrow> (\<exists>a s1. m s = (Inr a, s1) \<and> f a s1 = (Inr b, s'))"
  by (auto simp: then_do_def split: prod.splits sum.splits)

lemma then_do_InrE:
  assumes "then_do m f s = (Inr b, s')"
  obtains a s1 where "m s = (Inr a, s1)" "f a s1 = (Inr b, s')"
  using assms by (auto simp: then_do_Inr)

text \<open>A relation between states that every part of an operation respects.\<close>

definition keeps :: "('s \<Rightarrow> 's \<Rightarrow> bool) \<Rightarrow> ('e, 's, 'a) action \<Rightarrow> bool" where
  "keeps R m \<longleftrightarrow> (\<forall>s. R s (snd (m s)))"

lemma keeps_then_do:
  assumes "keeps R m" "\<And>a. keeps R (f a)" "\<And>a b c. R a b \<Longrightarrow> R b c \<Longrightarrow> R a c"
  shows "keeps R (then_do m f)"
  unfolding keeps_def
proof
  fix s
  show "R s (snd (then_do m f s))"
  proof (cases "m s")
    case (Pair r s1)
    then have "R s s1" using assms(1) unfolding keeps_def by (metis snd_conv)
    moreover have "R s1 (snd (f a s1))" for a using assms(2) unfolding keeps_def by blast
    ultimately show ?thesis using Pair assms(3) by (cases r) (auto simp: then_do_def)
  qed
qed

lemma keeps_give: "(\<And>s. R s s) \<Longrightarrow> keeps R (give a)"
  and keeps_fail: "(\<And>s. R s s) \<Longrightarrow> keeps R (fail e)"
  and keeps_lift: "(\<And>s. R s s) \<Longrightarrow> keeps R (lift_result r)"
  by (simp_all add: keeps_def)

lemma keeps_map_ops:
  assumes "\<And>x. keeps R (f x)" "\<And>a b c. R a b \<Longrightarrow> R b c \<Longrightarrow> R a c" "\<And>s. R s s"
  shows "keeps R (map_ops f xs)"
proof (induction xs)
  case Nil
  show ?case by (simp add: keeps_give assms(3))
next
  case (Cons x xs)
  have "keeps R (then_do (map_ops f xs) (\<lambda>as. give (a # as)))" for a
    by (rule keeps_then_do [OF Cons.IH _ assms(2)]) (simp_all add: keeps_give assms(3))
  then show ?case by (simp add: keeps_then_do [OF assms(1) _ assms(2)])
qed


section \<open>Requests and configuration\<close>

record AddMemoryRequest =
  am_id :: "str option"
  am_text :: str
  am_metadata :: json

record AddMemoryResponse =
  ar_id :: str

record SearchMemoryRequest =
  sq_query :: str
  sq_top_k :: nat
  sq_filter :: "json option"
  sq_graph_memory_space_id :: "str option"
  sq_graph_target_subject :: "str option"
  sq_graph_target_evidence_speaker :: "str option"

datatype SearchMode = Dense | Bm25 | Graph | Hybrid

record GraphRetrievalConfig =
  gc_enabled :: bool
  gc_weight :: f32
  gc_rerank_with_graph :: bool
  gc_allow_graph_only :: bool
  gc_max_graph_only_results :: "nat option"
  gc_seed_limit :: "nat option"
  gc_max_evidence_records_per_fact :: "nat option"
  gc_fail_open :: bool

datatype RerankProvider = OpenRouter

record RerankConfig =
  rk_enabled :: bool
  rk_provider :: RerankProvider
  rk_model :: str
  rk_api_key_env :: str
  rk_base_url :: str
  rk_input_k :: nat
  rk_timeout_ms :: "nat option"
  rk_fail_open :: bool

record RetrievalConfig =
  rc_mode :: SearchMode
  rc_embedding_weight :: f32
  rc_bm25_weight :: f32
  rc_candidate_k :: "nat option"
  rc_graph :: GraphRetrievalConfig
  rc_rerank :: RerankConfig

definition default_embedding_weight :: f32 where "default_embedding_weight = 0x3F333333"
definition default_bm25_weight :: f32 where "default_bm25_weight = 0x3E99999A"
definition default_graph_weight :: f32 where "default_graph_weight = 0x3E4CCCCD"
definition default_rerank_model :: str where "default_rerank_model = lit ''cohere/rerank-v3.5''"
definition default_rerank_api_key_env :: str where "default_rerank_api_key_env = lit ''OPENROUTER_API_KEY''"
definition default_rerank_base_url :: str where
  "default_rerank_base_url = lit ''https://openrouter.ai/api/v1''"
definition default_rerank_input_k :: nat where "default_rerank_input_k = 40"

definition GraphRetrievalConfig_default :: GraphRetrievalConfig where
  "GraphRetrievalConfig_default = \<lparr>gc_enabled = False, gc_weight = default_graph_weight,
     gc_rerank_with_graph = False, gc_allow_graph_only = False, gc_max_graph_only_results = None,
     gc_seed_limit = None, gc_max_evidence_records_per_fact = None, gc_fail_open = False\<rparr>"

definition RerankConfig_default :: RerankConfig where
  "RerankConfig_default = \<lparr>rk_enabled = False, rk_provider = OpenRouter, rk_model = default_rerank_model,
     rk_api_key_env = default_rerank_api_key_env, rk_base_url = default_rerank_base_url,
     rk_input_k = default_rerank_input_k, rk_timeout_ms = None, rk_fail_open = False\<rparr>"

definition RetrievalConfig_default :: RetrievalConfig where
  "RetrievalConfig_default = \<lparr>rc_mode = Hybrid, rc_embedding_weight = default_embedding_weight,
     rc_bm25_weight = default_bm25_weight, rc_candidate_k = None, rc_graph = GraphRetrievalConfig_default,
     rc_rerank = RerankConfig_default\<rparr>"

definition candidate_limit :: "RetrievalConfig \<Rightarrow> nat \<Rightarrow> nat" where
  "candidate_limit c top_k = (case rc_candidate_k c of Some n \<Rightarrow> n
     | None \<Rightarrow> max (min (top_k * 5) (2 ^ 64 - 1)) 100)"

definition input_limit :: "RerankConfig \<Rightarrow> nat \<Rightarrow> nat" where
  "input_limit c top_k = max (rk_input_k c) top_k"


section \<open>Records\<close>

record MemoryRecord =
  mr_id :: str
  mr_text :: str
  mr_metadata :: json
  mr_embedding :: "f32 list"
  mr_created_at_ms :: u64
  mr_updated_at_ms :: u64

record ScoredMemory =
  sm_record :: MemoryRecord
  sm_score :: f32

definition extract_scope_id :: "json \<Rightarrow> str option" where
  "extract_scope_id metadata = Option.bind (json_get metadata (lit ''scope_id'')) as_str"

definition extract_scope_id_from_filter :: "json option \<Rightarrow> str option" where
  "extract_scope_id_from_filter f = Option.bind f extract_scope_id"

definition metadata_matches :: "json \<Rightarrow> json option \<Rightarrow> bool" where
  "metadata_matches metadata f =
     (case Option.bind f as_object of
        None \<Rightarrow> True
      | Some filter_object \<Rightarrow>
          (case as_object metadata of
             None \<Rightarrow> False
           | Some metadata_object \<Rightarrow>
               list_all (\<lambda>(key, expected). map_of metadata_object key = Some expected) filter_object))"

definition metadata_matches_any :: "json \<Rightarrow> json list \<Rightarrow> bool" where
  "metadata_matches_any metadata filters = list_ex (\<lambda>f. metadata_matches metadata (Some f)) filters"

text \<open>A record that matches a filter with a scope carries that scope.\<close>

lemma metadata_matches_key:
  assumes "metadata_matches m (Some f)" "json_get f k = Some v"
  shows "json_get m k = Some v"
proof -
  obtain fo where fo: "f = JObject fo" "(k, v) \<in> set fo"
    using assms(2) by (cases f) (auto dest: map_of_SomeD)
  then obtain mo where "m = JObject mo" "list_all (\<lambda>(key, expected). map_of mo key = Some expected) fo"
    using assms(1) by (cases m) (auto simp: metadata_matches_def)
  with fo(2) show ?thesis by (auto simp: list_all_iff)
qed

lemma metadata_matches_scope:
  assumes "metadata_matches m f" "extract_scope_id_from_filter f = Some s"
  shows "extract_scope_id m = Some s"
proof -
  obtain g v where "f = Some g" "json_get g (lit ''scope_id'') = Some v" "as_str v = Some s"
    using assms(2) by (auto simp: extract_scope_id_from_filter_def extract_scope_id_def bind_eq_Some_conv)
  with assms(1) show ?thesis
    using metadata_matches_key [of m g "lit ''scope_id''" v]
    by (simp add: extract_scope_id_def)
qed


section \<open>Similarity\<close>

definition cosine_similarity :: "f32 list \<Rightarrow> f32 list \<Rightarrow> f32" where
  "cosine_similarity left right =
     (if left = [] \<or> right = [] \<or> length left \<noteq> length right then 0
      else let (dot, left_norm, right_norm) =
             fold (\<lambda>(l, r) (dot, left_norm, right_norm).
                 (f_add dot (f_mul l r), f_add left_norm (f_mul l l), f_add right_norm (f_mul r r)))
               (zip left right) (0, 0, 0)
           in if fc_eq left_norm 0 \<or> fc_eq right_norm 0 then 0
              else f_div dot (f_mul (f_sqrt left_norm) (f_sqrt right_norm)))"


section \<open>The sort by score\<close>

text \<open>
  The comparison of the sort: higher scores first, equal or incomparable ones by identifier. Without a
  NaN score it is a total order and the result is the only sorted one; with a NaN the standard library
  leaves the order open, and an insertion sort stands for it.
\<close>

definition scored_less :: "ScoredMemory \<Rightarrow> ScoredMemory \<Rightarrow> bool" where
  "scored_less a b \<longleftrightarrow> fc_gt (sm_score a) (sm_score b)
     \<or> \<not> fc_gt (sm_score b) (sm_score a) \<and> mr_id (sm_record a) < mr_id (sm_record b)"

fun insert_scored :: "ScoredMemory \<Rightarrow> ScoredMemory list \<Rightarrow> ScoredMemory list" where
  "insert_scored x [] = [x]"
| "insert_scored x (y # ys) = (if scored_less y x then y # insert_scored x ys else x # y # ys)"

definition sort_scored_desc :: "ScoredMemory list \<Rightarrow> ScoredMemory list" where
  "sort_scored_desc results = foldr insert_scored results []"

lemma mset_insert_scored [simp]: "mset (insert_scored x ys) = add_mset x (mset ys)"
  by (induction x ys rule: insert_scored.induct) auto

lemma mset_sort_scored [simp]: "mset (sort_scored_desc xs) = mset xs"
  by (induction xs) (simp_all add: sort_scored_desc_def)

lemma set_sort_scored [simp]: "set (sort_scored_desc xs) = set xs"
  by (metis mset_sort_scored set_mset_mset)

lemma length_sort_scored [simp]: "length (sort_scored_desc xs) = length xs"
  by (metis mset_sort_scored size_mset)

lemma distinct_sort_scored [simp]: "distinct (map f (sort_scored_desc xs)) \<longleftrightarrow> distinct (map f xs)"
  by (metis mset_sort_scored mset_map distinct_count_atmost_1 set_mset_mset mset_eq_imp_distinct_iff)

lemma sort_scored_Nil [simp]: "sort_scored_desc [] = []"
  by (simp add: sort_scored_desc_def)

text \<open>With comparable scores the result is sorted.\<close>

definition scored_sorted :: "ScoredMemory list \<Rightarrow> bool" where
  "scored_sorted xs \<longleftrightarrow> sorted_wrt (\<lambda>a b. \<not> scored_less b a) xs"

lemma scored_less_int:
  assumes "\<not> f_is_nan (sm_score a)" "\<not> f_is_nan (sm_score b)"
  shows "scored_less a b \<longleftrightarrow> f_int (sm_score b) < f_int (sm_score a)
     \<or> f_int (sm_score a) = f_int (sm_score b) \<and> mr_id (sm_record a) < mr_id (sm_record b)"
  using assms by (auto simp: scored_less_def fc_gt_def f_gt_def)

lemma insert_scored_sorted:
  assumes "\<forall>y \<in> set (x # ys). \<not> f_is_nan (sm_score y)" "scored_sorted ys"
  shows "scored_sorted (insert_scored x ys)"
  using assms
proof (induction x ys rule: insert_scored.induct)
  case (2 x y ys)
  have set_ins: "set (insert_scored x ys) = insert x (set ys)"
    by (metis mset_insert_scored set_mset_add_mset_insert set_mset_mset)
  show ?case
  proof (cases "scored_less y x")
    case True
    with 2 have "scored_sorted (insert_scored x ys)" by (simp add: scored_sorted_def)
    moreover have "\<not> scored_less x y" using True 2(2) by (auto simp: scored_less_int)
    ultimately show ?thesis using True 2(3) set_ins by (auto simp: scored_sorted_def)
  next
    case False
    have "\<not> scored_less z x" if "z \<in> set ys" for z
    proof -
      have "\<not> scored_less z y" using 2(3) that by (simp add: scored_sorted_def)
      with False 2(2) that show ?thesis by (auto simp: scored_less_int)
    qed
    with False 2(3) show ?thesis by (auto simp: scored_sorted_def)
  qed
qed (simp add: scored_sorted_def)

lemma sort_scored_sorted:
  "\<forall>y \<in> set xs. \<not> f_is_nan (sm_score y) \<Longrightarrow> scored_sorted (sort_scored_desc xs)"
proof (induction xs)
  case (Cons x xs)
  have "set (foldr insert_scored xs []) = set xs"
    using set_sort_scored [of xs] by (simp add: sort_scored_desc_def)
  with Cons show ?case
    using insert_scored_sorted [of x "foldr insert_scored xs []"] by (simp add: sort_scored_desc_def)
qed (simp add: scored_sorted_def)


section \<open>The environment\<close>

text \<open>
  The \<open>n\<close>-th random identifier the manager draws and the clock at that draw; what interrupts the \<open>n\<close>-th
  attempt on the store; whether an SQLite error says that the database is busy or locked, and the errors
  for a database that does not exist and for a null distance; the \<open>bm25\<close> rank of a row of a
  full-text table, as a sort key and as an \<open>f32\<close>; the cosine distance of two blobs of \<open>sqlite_vec\<close>, null when it is
  not a number; the line of a record in the file store and its reading; a failed write of
  that file, with what it left there; the JSON number of an \<open>f32\<close> and the length of a text as JSON.
\<close>

record menv =
  v_uuid :: "nat \<Rightarrow> str"
  v_now :: "nat \<Rightarrow> u64"
  v_fault :: "nat \<Rightarrow> MemoryError option"
  v_locked :: "str \<Rightarrow> bool"
  v_cannot_open :: str
  v_null :: str
  v_bm25 :: "str \<Rightarrow> (str \<times> str) list \<Rightarrow> str \<times> str \<Rightarrow> int \<times> f32"
  v_distance :: "8 word list \<Rightarrow> 8 word list \<Rightarrow> str + (int \<times> f32) option"
  v_line :: "MemoryRecord \<Rightarrow> str"
  v_parse_line :: "str \<Rightarrow> str + MemoryRecord"
  v_write_fault :: "nat \<Rightarrow> (MemoryError \<times> str) option"
  v_f32_json :: "f32 \<Rightarrow> json"

end
