(* ===== verification/MemStore.thy ===== *)
theory MemStore
  imports MemTypes
begin

text \<open>
  The stores of the memory manager (\<open>sqlite_store.rs\<close>, \<open>store.rs\<close>). The SQLite store has a table of memories
  in the order of their row numbers and a full-text table; each operation is one transaction on a new
  connection, repeated while the database is locked. The file store keeps one line of JSON per record
  and rewrites the file.
\<close>

section \<open>Tables\<close>

record MemoryRow =
  row_id :: str
  row_text :: str
  row_metadata_json :: str
  row_embedding :: "8 word list"
  row_embedding_dims :: int
  row_scope_id :: "str option"
  row_created_at_ms :: int
  row_updated_at_ms :: int

record MemoryDb =
  md_memories :: "MemoryRow list"
  md_fts :: "(str \<times> str) list"

definition row_of_record :: "genv \<Rightarrow> MemoryRecord \<Rightarrow> MemoryRow" where
  "row_of_record E r = \<lparr>row_id = mr_id r, row_text = mr_text r, row_metadata_json = g_to_string E (mr_metadata r),
     row_embedding = embedding_to_blob (mr_embedding r), row_embedding_dims = int (length (mr_embedding r)),
     row_scope_id = extract_scope_id (mr_metadata r), row_created_at_ms = sint (mr_created_at_ms r),
     row_updated_at_ms = sint (mr_updated_at_ms r)\<rparr>"

text \<open>A conflict on the identifier updates the row in its place and keeps its time of creation.\<close>

definition upsert_row :: "MemoryRow \<Rightarrow> MemoryRow list \<Rightarrow> MemoryRow list" where
  "upsert_row r rows = (if \<exists>r' \<in> set rows. row_id r' = row_id r
     then map (\<lambda>r'. if row_id r' = row_id r then r\<lparr>row_created_at_ms := row_created_at_ms r'\<rparr> else r') rows
     else rows @ [r])"

definition upsert_record :: "genv \<Rightarrow> MemoryRecord \<Rightarrow> MemoryDb \<Rightarrow> MemoryDb" where
  "upsert_record E r db = \<lparr>md_memories = upsert_row (row_of_record E r) (md_memories db),
     md_fts = filter (\<lambda>f. fst f \<noteq> mr_id r) (md_fts db) @ [(mr_id r, mr_text r)]\<rparr>"

definition mem_blob_to_embedding :: "8 word list \<Rightarrow> f32 list mresult" where
  "mem_blob_to_embedding bytes =
     (if length bytes mod 4 \<noteq> 0 then
        Inl (MStoreBackend (lit ''invalid embedding blob length '' @ dec_str (length bytes)
          @ lit '', expected a multiple of 4''))
      else Inr (map from_le_bytes (chunks4 bytes)))"

definition record_of_memory_row :: "genv \<Rightarrow> MemoryRow \<Rightarrow> MemoryRecord mresult" where
  "record_of_memory_row E m = and_then (parse_json E (row_metadata_json m)) (\<lambda>metadata.
     and_then (mem_blob_to_embedding (row_embedding m)) (\<lambda>embedding.
     if length embedding \<noteq> nat (row_embedding_dims m mod 2 ^ 64) then
       Inl (MStoreBackend (lit ''embedding dims mismatch for record '' @ [39] @ row_id m @ [39]
         @ lit '': blob has '' @ dec_str (length embedding) @ lit '' dims but stored dims is ''
         @ int_str (row_embedding_dims m)))
     else Inr \<lparr>mr_id = row_id m, mr_text = row_text m, mr_metadata = metadata, mr_embedding = embedding,
       mr_created_at_ms = word_of_int (row_created_at_ms m),
       mr_updated_at_ms = word_of_int (row_updated_at_ms m)\<rparr>))"

definition list_records_db :: "genv \<Rightarrow> MemoryDb \<Rightarrow> MemoryRecord list mresult" where
  "list_records_db E db = collect_ok (record_of_memory_row E) (md_memories db)"


section \<open>Search in the tables\<close>

definition sanitize_fts_query :: "renv \<Rightarrow> str \<Rightarrow> str" where
  "sanitize_fts_query R query = join_with [32] (token_loop (q_alnum R) query [])"

definition in_scope :: "str option \<Rightarrow> MemoryRow \<Rightarrow> bool" where
  "in_scope scope m \<longleftrightarrow> (case scope of None \<Rightarrow> True | Some s \<Rightarrow> row_scope_id m = Some s)"

definition score_bounds :: "f32 list \<Rightarrow> f32 \<times> f32" where
  "score_bounds scores = fold (\<lambda>x (lo, hi). (fc_min lo x, fc_max hi x)) scores (F_INFINITY, F_NEG_INFINITY)"

definition normalize_lower_is_better_scores :: "ScoredMemory list \<Rightarrow> ScoredMemory list" where
  "normalize_lower_is_better_scores candidates =
     (let (min_score, max_score) = score_bounds (map sm_score candidates); width = f_sub max_score min_score
      in if fc_le (f_abs width) F32_EPSILON then map (\<lambda>c. c\<lparr>sm_score := F_ONE\<rparr>) candidates
         else map (\<lambda>c. c\<lparr>sm_score := f_div (f_sub max_score (sm_score c)) width\<rparr>) candidates)"

text \<open>A row of the full-text table with its memory and its rank.\<close>

definition bm25_rows :: "renv \<Rightarrow> menv \<Rightarrow> MemoryDb \<Rightarrow> str \<Rightarrow> str option \<Rightarrow> (MemoryRow \<times> int \<times> f32) list" where
  "bm25_rows R V db query scope =
     [(m, v_bm25 V query (md_fts db) f). f \<leftarrow> md_fts db, q_match R query (snd f),
        m \<leftarrow> md_memories db, row_id m = fst f \<and> in_scope scope m]"

definition bm25_candidates_db ::
    "genv \<Rightarrow> renv \<Rightarrow> menv \<Rightarrow> str \<Rightarrow> json option \<Rightarrow> nat \<Rightarrow> MemoryDb \<Rightarrow> ScoredMemory list mresult" where
  "bm25_candidates_db E R V query f limit db =
     and_then (fts_check R query) (\<lambda>_.
     and_then (collect_ok (\<lambda>(m, _, raw). and_then (record_of_memory_row E m)
           (\<lambda>r. Inr \<lparr>sm_record = r, sm_score = raw\<rparr>))
         (take limit (sort_key (\<lambda>(_, key, _). key)
           (bm25_rows R V db query (extract_scope_id_from_filter f))))) (\<lambda>candidates.
     Inr (take limit (normalize_lower_is_better_scores
       (filter (\<lambda>c. metadata_matches (mr_metadata (sm_record c)) f) candidates)))))"

definition ensure_no_dense_dimension_mismatch :: "nat \<Rightarrow> json option \<Rightarrow> MemoryDb \<Rightarrow> unit mresult" where
  "ensure_no_dense_dimension_mismatch query_dims f db =
     (let mismatch_count = count_where (\<lambda>m. row_embedding_dims m \<noteq> int query_dims
            \<and> in_scope (extract_scope_id_from_filter f) m) (md_memories db)
      in require (MEmbedding (lit ''embedding dimension mismatch: query has '' @ dec_str query_dims
           @ lit '' dims but '' @ dec_str mismatch_count @ lit '' stored records have different dimensions''))
         (mismatch_count = 0))"

text \<open>The rows of the dense query with their distances, null first.\<close>

definition dense_rows ::
    "menv \<Rightarrow> MemoryDb \<Rightarrow> f32 list \<Rightarrow> str option \<Rightarrow> (MemoryRow \<times> (int \<times> f32) option) list mresult" where
  "dense_rows V db query scope =
     collect_ok (\<lambda>m. case v_distance V (row_embedding m) (embedding_to_blob query) of
         Inl e \<Rightarrow> Inl (MSqlite e) | Inr d \<Rightarrow> Inr (m, d))
       (filter (\<lambda>m. row_embedding_dims m = int (length query) \<and> in_scope scope m) (md_memories db))"

definition dense_key :: "MemoryRow \<times> (int \<times> f32) option \<Rightarrow> (nat \<times> int) \<times> str" where
  "dense_key x = (case snd x of None \<Rightarrow> (0, 0) | Some (key, _) \<Rightarrow> (1, key), row_id (fst x))"

definition dense_candidate :: "genv \<Rightarrow> menv \<Rightarrow> MemoryRow \<times> (int \<times> f32) option \<Rightarrow> ScoredMemory mresult" where
  "dense_candidate E V x = (case snd x of
       None \<Rightarrow> Inl (MSqlite (v_null V))
     | Some (_, distance) \<Rightarrow> and_then (record_of_memory_row E (fst x))
         (\<lambda>r. Inr \<lparr>sm_record = r, sm_score = f_sub F_ONE distance\<rparr>))"

definition dense_candidates_db ::
    "genv \<Rightarrow> menv \<Rightarrow> f32 list \<Rightarrow> json option \<Rightarrow> nat \<Rightarrow> MemoryDb \<Rightarrow> ScoredMemory list mresult" where
  "dense_candidates_db E V query f limit db =
     (if query = [] then Inl (MEmbedding (lit ''query embedding must not be empty''))
      else and_then (ensure_no_dense_dimension_mismatch (length query) f db) (\<lambda>_.
        and_then (dense_rows V db query (extract_scope_id_from_filter f)) (\<lambda>rows.
        and_then (collect_ok (dense_candidate E V) (take limit (sort_key dense_key rows))) (\<lambda>candidates.
        Inr (take limit (filter (\<lambda>c. metadata_matches (mr_metadata (sm_record c)) f) candidates))))))"


section \<open>The SQLite store\<close>

record SqliteMemoryStore =
  ss_create_if_missing :: bool
  ss_exists :: bool
  ss_db :: MemoryDb
  ss_attempts :: nat
  ss_sleeps_ms :: "nat list"

definition SQLITE_LOCK_RETRY_ATTEMPTS :: nat where "SQLITE_LOCK_RETRY_ATTEMPTS = 3"
definition SQLITE_LOCK_RETRY_INITIAL_DELAY :: nat where "SQLITE_LOCK_RETRY_INITIAL_DELAY = 50"
definition SQLITE_LOCK_RETRY_MAX_DELAY :: nat where "SQLITE_LOCK_RETRY_MAX_DELAY = 500"

definition is_retryable_sqlite_lock :: "menv \<Rightarrow> MemoryError \<Rightarrow> bool" where
  "is_retryable_sqlite_lock V e = (case e of MSqlite m \<Rightarrow> v_locked V m | _ \<Rightarrow> False)"

text \<open>
  The loop over the attempts left; \<open>delay\<close> is the wait before the next one, in milliseconds. The number of
  attempts made and the waits are part of the store.
\<close>

fun retry_sqlite_locked ::
    "menv \<Rightarrow> (SqliteMemoryStore, 'a) oper \<Rightarrow> nat \<Rightarrow> nat \<Rightarrow> (SqliteMemoryStore, 'a) oper" where
  "retry_sqlite_locked V operation delay left s =
     (case operation s of
        (Inr v, s) \<Rightarrow> (Inr v, s)
      | (Inl e, s) \<Rightarrow>
          (case left of
             0 \<Rightarrow> (Inl e, s)
           | Suc left' \<Rightarrow>
               if \<not> is_retryable_sqlite_lock V e then (Inl e, s)
               else retry_sqlite_locked V operation (min (delay * 2) SQLITE_LOCK_RETRY_MAX_DELAY) left'
                 (s\<lparr>ss_sleeps_ms := ss_sleeps_ms s @ [delay]\<rparr>)))"

declare retry_sqlite_locked.simps [simp del]

text \<open>
  One attempt: a new connection, which creates the database only where the store may, and the
  transaction; a failure leaves the tables as they were.
\<close>

definition mem_attempt :: "menv \<Rightarrow> bool \<Rightarrow> (MemoryDb, 'a) oper \<Rightarrow> (SqliteMemoryStore, 'a) oper" where
  "mem_attempt V create f s =
     (let n = ss_attempts s; s = s\<lparr>ss_attempts := Suc n\<rparr>
      in case v_fault V n of
           Some e \<Rightarrow> (Inl e, s)
         | None \<Rightarrow>
             if \<not> ss_exists s \<and> \<not> create then (Inl (MSqlite (v_cannot_open V)), s)
             else (case f (ss_db s) of
                (Inl e, _) \<Rightarrow> (Inl e, s\<lparr>ss_exists := True\<rparr>)
              | (Inr a, db) \<Rightarrow> (Inr a, s\<lparr>ss_exists := True, ss_db := db\<rparr>)))"

definition mem_run_sqlite_operation :: "menv \<Rightarrow> (MemoryDb, 'a) oper \<Rightarrow> (SqliteMemoryStore, 'a) oper" where
  "mem_run_sqlite_operation V f s = retry_sqlite_locked V (mem_attempt V (ss_create_if_missing s) f)
     SQLITE_LOCK_RETRY_INITIAL_DELAY SQLITE_LOCK_RETRY_ATTEMPTS s"

text \<open>A store whose database does not exist yet; the argument is false for \<open>new_existing\<close>.\<close>

definition SqliteMemoryStore_new :: "bool \<Rightarrow> SqliteMemoryStore" where
  "SqliteMemoryStore_new create_if_missing = \<lparr>ss_create_if_missing = create_if_missing, ss_exists = False,
     ss_db = \<lparr>md_memories = [], md_fts = []\<rparr>, ss_attempts = 0, ss_sleeps_ms = []\<rparr>"

definition initialize :: "menv \<Rightarrow> (SqliteMemoryStore, unit) oper" where
  "initialize V = retry_sqlite_locked V (mem_attempt V True (give ())) SQLITE_LOCK_RETRY_INITIAL_DELAY
     SQLITE_LOCK_RETRY_ATTEMPTS"

definition sqlite_add_records :: "genv \<Rightarrow> menv \<Rightarrow> MemoryRecord list \<Rightarrow> (SqliteMemoryStore, unit) oper" where
  "sqlite_add_records E V records =
     mem_run_sqlite_operation V (\<lambda>db. (Inr (), fold (upsert_record E) records db))"

definition sqlite_add_record :: "genv \<Rightarrow> menv \<Rightarrow> MemoryRecord \<Rightarrow> (SqliteMemoryStore, unit) oper" where
  "sqlite_add_record E V r = mem_run_sqlite_operation V (\<lambda>db. (Inr (), upsert_record E r db))"

definition sqlite_list_records :: "genv \<Rightarrow> menv \<Rightarrow> (SqliteMemoryStore, MemoryRecord list) oper" where
  "sqlite_list_records E V = mem_run_sqlite_operation V (\<lambda>db. (list_records_db E db, db))"

definition sqlite_replace_all :: "genv \<Rightarrow> menv \<Rightarrow> MemoryRecord list \<Rightarrow> (SqliteMemoryStore, unit) oper" where
  "sqlite_replace_all E V records = mem_run_sqlite_operation V
     (\<lambda>db. (Inr (), fold (upsert_record E) records \<lparr>md_memories = [], md_fts = []\<rparr>))"

definition sqlite_bm25_candidates ::
    "genv \<Rightarrow> renv \<Rightarrow> menv \<Rightarrow> str \<Rightarrow> json option \<Rightarrow> nat \<Rightarrow> (SqliteMemoryStore, ScoredMemory list) oper" where
  "sqlite_bm25_candidates E R V query f limit =
     (if limit = 0 then give []
      else let query = sanitize_fts_query R query
           in if query = [] then give []
              else mem_run_sqlite_operation V (\<lambda>db. (bm25_candidates_db E R V query f limit db, db)))"

definition sqlite_dense_candidates ::
    "genv \<Rightarrow> menv \<Rightarrow> f32 list \<Rightarrow> json option \<Rightarrow> nat \<Rightarrow> (SqliteMemoryStore, ScoredMemory list) oper" where
  "sqlite_dense_candidates E V query f limit =
     (if limit = 0 then give []
      else mem_run_sqlite_operation V (\<lambda>db. (dense_candidates_db E V query f limit db, db)))"


section \<open>The file store\<close>

text \<open>The content of the file, if it exists; the number of operations on it so far.\<close>

record FileMemoryStore =
  fm_content :: "str option"
  fm_ops :: nat

text \<open>\<open>str::lines\<close>: ended by a line feed, with an optional carriage return before it.\<close>

fun split_lines :: "str \<Rightarrow> str \<Rightarrow> str list" where
  "split_lines [] current = (if current = [] then [] else [current])"
| "split_lines (c # cs) current = (if c = 10
     then (if current \<noteq> [] \<and> last current = 13 then butlast current else current) # split_lines cs []
     else split_lines cs (current @ [c]))"

definition file_list_records :: "menv \<Rightarrow> (FileMemoryStore, MemoryRecord list) oper" where
  "file_list_records V s =
     (let n = fm_ops s; s = s\<lparr>fm_ops := Suc n\<rparr>
      in case v_fault V n of
           Some e \<Rightarrow> (Inl e, s)
         | None \<Rightarrow> (case fm_content s of
               None \<Rightarrow> Inr []
             | Some content \<Rightarrow> collect_ok (\<lambda>l. case v_parse_line V l of Inl e \<Rightarrow> Inl (MJson e) | Inr r \<Rightarrow> Inr r)
                 (filter (\<lambda>l. trim l \<noteq> []) (split_lines content [])), s))"

definition file_replace_all :: "menv \<Rightarrow> MemoryRecord list \<Rightarrow> (FileMemoryStore, unit) oper" where
  "file_replace_all V records s =
     (let n = fm_ops s; s = s\<lparr>fm_ops := Suc n\<rparr>
      in case v_fault V n of
           Some e \<Rightarrow> (Inl e, s)
         | None \<Rightarrow> (case v_write_fault V n of
               Some (e, left) \<Rightarrow> (Inl e, s\<lparr>fm_content := Some left\<rparr>)
             | None \<Rightarrow> (Inr (), s\<lparr>fm_content := Some (concat (map (\<lambda>r. v_line V r @ [10]) records))\<rparr>)))"

definition file_add_record :: "menv \<Rightarrow> MemoryRecord \<Rightarrow> (FileMemoryStore, unit) oper" where
  "file_add_record V r = then_do (file_list_records V) (\<lambda>records.
     file_replace_all V (filter (\<lambda>x. mr_id x \<noteq> mr_id r) records @ [r]))"

definition file_add_records :: "menv \<Rightarrow> MemoryRecord list \<Rightarrow> (FileMemoryStore, unit) oper" where
  "file_add_records V records = then_do (file_list_records V) (\<lambda>existing.
     file_replace_all V (filter (\<lambda>x. mr_id x \<notin> mr_id ` set records) existing @ records))"


section \<open>The store of a manager\<close>

datatype MemoryStore = Sqlite SqliteMemoryStore | File FileMemoryStore

definition on_store ::
    "(SqliteMemoryStore, 'a) oper \<Rightarrow> (FileMemoryStore, 'a) oper \<Rightarrow> (MemoryStore, 'a) oper" where
  "on_store f g s = (case s of
     Sqlite s \<Rightarrow> (let (r, s) = f s in (r, Sqlite s)) | File s \<Rightarrow> (let (r, s) = g s in (r, File s)))"

definition store_add_record :: "genv \<Rightarrow> menv \<Rightarrow> MemoryRecord \<Rightarrow> (MemoryStore, unit) oper" where
  "store_add_record E V r = on_store (sqlite_add_record E V r) (file_add_record V r)"

definition store_add_records :: "genv \<Rightarrow> menv \<Rightarrow> MemoryRecord list \<Rightarrow> (MemoryStore, unit) oper" where
  "store_add_records E V records = on_store (sqlite_add_records E V records) (file_add_records V records)"

definition store_list_records :: "genv \<Rightarrow> menv \<Rightarrow> (MemoryStore, MemoryRecord list) oper" where
  "store_list_records E V = on_store (sqlite_list_records E V) (file_list_records V)"

definition store_replace_all :: "genv \<Rightarrow> menv \<Rightarrow> MemoryRecord list \<Rightarrow> (MemoryStore, unit) oper" where
  "store_replace_all E V records = on_store (sqlite_replace_all E V records) (file_replace_all V records)"

end
