(* ===== verification/MemFusion.thy ===== *)
theory MemFusion
  imports MemStore
begin

text \<open>
  How the manager combines the channels of a search (\<open>manager.rs\<close>): the graph's facts and matches as
  metadata of a record, the weighted fusion of dense and full-text candidates, and the fusion with
  the graph's candidates. A hash map of candidates is an association list in the order of insertion; every
  result is sorted, so the order does not matter.
\<close>

section \<open>Graph metadata of a record\<close>

definition GRAPH_FACTS_METADATA_KEY :: str where "GRAPH_FACTS_METADATA_KEY = lit ''graph_facts''"
definition GRAPH_FACTS_TRUNCATED_METADATA_KEY :: str where
  "GRAPH_FACTS_TRUNCATED_METADATA_KEY = lit ''graph_facts_truncated''"
definition GRAPH_MATCHES_METADATA_KEY :: str where "GRAPH_MATCHES_METADATA_KEY = lit ''graph_matches''"
definition MAX_GRAPH_FACTS_PER_RECORD :: nat where "MAX_GRAPH_FACTS_PER_RECORD = 16"
definition MAX_GRAPH_FACT_METADATA_BYTES :: nat where "MAX_GRAPH_FACT_METADATA_BYTES = 16 * 1024"

definition entity_json :: "Entity \<Rightarrow> json" where
  "entity_json e = jobject [(lit ''id'', JString (ent_id e)), (lit ''name'', JString (ent_canonical_name e)),
     (lit ''entity_type'', JString (ent_entity_type e))]"

definition graph_fact_metadata :: "genv \<Rightarrow> menv \<Rightarrow> FactContextUnit \<Rightarrow> json" where
  "graph_fact_metadata E V u = jobject
     [(lit ''fact_id'', JString (fu_fact_id u)), (lit ''fact_text'', JString (fu_fact_text u)),
      (lit ''predicate'', JString (fu_predicate u)), (lit ''score'', v_f32_json V (fu_score u)),
      (lit ''subject'', entity_json (fu_subject_entity u)), (lit ''object'', entity_json (fu_object_entity u)),
      (lit ''valid_from_ms'', opt_json (g_u64_json E) (fu_valid_from_ms u)),
      (lit ''valid_to_ms'', opt_json (g_u64_json E) (fu_valid_to_ms u)),
      (lit ''recorded_at_ms'', g_u64_json E (word_of_nat (fu_recorded_at_ms u))),
      (lit ''path'', JArray (map JString (fu_path u)))]"

definition graph_evidence_record_metadata :: "menv \<Rightarrow> EvidenceRecordContextUnit \<Rightarrow> json" where
  "graph_evidence_record_metadata V u = jobject
     [(lit ''kind'', JString (lit ''evidence_record'')),
      (lit ''match_kind'', JString (case eru_match_kind u of Lexical \<Rightarrow> lit ''lexical'')),
      (lit ''record_id'', JString (gm_id (eru_record u))), (lit ''score'', v_f32_json V (eru_score u)),
      (lit ''path'', JArray (map JString (eru_path u)))]"

text \<open>The object a value is made into, and the array under a key, which is put there if it is none.\<close>

definition ensure_metadata_object :: "json \<Rightarrow> (str \<times> json) list" where
  "ensure_metadata_object metadata = (case metadata of JObject m \<Rightarrow> m | _ \<Rightarrow> [])"

definition array_at :: "str \<Rightarrow> (str \<times> json) list \<Rightarrow> json list" where
  "array_at k m = (case map_of m k of Some (JArray xs) \<Rightarrow> xs | _ \<Rightarrow> [])"

definition str_at :: "string \<Rightarrow> json \<Rightarrow> str option" where
  "str_at k v = Option.bind (json_get v (lit k)) as_str"

definition append_graph_fact_metadata :: "genv \<Rightarrow> json \<Rightarrow> json \<Rightarrow> json" where
  "append_graph_fact_metadata E metadata graph_fact =
     (let m = ensure_metadata_object metadata; graph_facts = array_at GRAPH_FACTS_METADATA_KEY m;
          m' = obj_insert GRAPH_FACTS_METADATA_KEY (JArray graph_facts) m;
          known = (case str_at ''fact_id'' graph_fact of None \<Rightarrow> False
            | Some fact_id \<Rightarrow> list_ex (\<lambda>existing. str_at ''fact_id'' existing = Some fact_id) graph_facts);
          oversized = byte_len (g_to_string E graph_fact) > MAX_GRAPH_FACT_METADATA_BYTES
      in if known then JObject m'
         else if oversized \<or> length graph_facts \<ge> MAX_GRAPH_FACTS_PER_RECORD
         then JObject (obj_insert GRAPH_FACTS_TRUNCATED_METADATA_KEY (JBool True) m')
         else JObject (obj_insert GRAPH_FACTS_METADATA_KEY (JArray (graph_facts @ [graph_fact])) m'))"

definition merge_graph_facts_metadata :: "genv \<Rightarrow> json \<Rightarrow> json \<Rightarrow> json" where
  "merge_graph_facts_metadata E target source =
     (case Option.bind (json_get source GRAPH_FACTS_METADATA_KEY) as_array of
        None \<Rightarrow> target
      | Some source_graph_facts \<Rightarrow>
          fold (\<lambda>f t. append_graph_fact_metadata E t f) source_graph_facts
            (if Option.bind (json_get source GRAPH_FACTS_TRUNCATED_METADATA_KEY) as_bool = Some True
             then JObject (obj_insert GRAPH_FACTS_TRUNCATED_METADATA_KEY (JBool True)
               (ensure_metadata_object target))
             else target))"

definition append_graph_match_metadata :: "json \<Rightarrow> json \<Rightarrow> json" where
  "append_graph_match_metadata metadata graph_match =
     (let m = ensure_metadata_object metadata; graph_matches = array_at GRAPH_MATCHES_METADATA_KEY m
      in if list_ex (\<lambda>existing. str_at ''record_id'' existing = str_at ''record_id'' graph_match
             \<and> str_at ''kind'' existing = str_at ''kind'' graph_match
             \<and> str_at ''match_kind'' existing = str_at ''match_kind'' graph_match) graph_matches
         then JObject (obj_insert GRAPH_MATCHES_METADATA_KEY (JArray graph_matches) m)
         else JObject (obj_insert GRAPH_MATCHES_METADATA_KEY (JArray (graph_matches @ [graph_match])) m))"

definition merge_graph_matches_metadata :: "json \<Rightarrow> json \<Rightarrow> json" where
  "merge_graph_matches_metadata target source =
     (case Option.bind (json_get source GRAPH_MATCHES_METADATA_KEY) as_array of
        None \<Rightarrow> target
      | Some source_graph_matches \<Rightarrow> fold (\<lambda>g t. append_graph_match_metadata t g) source_graph_matches target)"

definition with_metadata :: "(json \<Rightarrow> json) \<Rightarrow> MemoryRecord \<Rightarrow> MemoryRecord" where
  "with_metadata f r = r\<lparr>mr_metadata := f (mr_metadata r)\<rparr>"

definition merge_facts_into :: "genv \<Rightarrow> MemoryRecord \<Rightarrow> MemoryRecord \<Rightarrow> MemoryRecord" where
  "merge_facts_into E source = with_metadata (\<lambda>m. merge_graph_facts_metadata E m (mr_metadata source))"

definition merge_graph_into :: "genv \<Rightarrow> MemoryRecord \<Rightarrow> MemoryRecord \<Rightarrow> MemoryRecord" where
  "merge_graph_into E source = with_metadata (\<lambda>m. merge_graph_matches_metadata
     (merge_graph_facts_metadata E m (mr_metadata source)) (mr_metadata source))"


section \<open>Dense and full-text candidates\<close>

record HybridCandidate =
  hc_record :: MemoryRecord
  hc_dense_score :: "f32 option"
  hc_bm25_score :: "f32 option"

definition score_range :: "f32 list \<Rightarrow> (f32 \<times> f32) option" where
  "score_range scores = (if scores = [] then None else Some (score_bounds scores))"

definition normalize_present_score :: "f32 option \<Rightarrow> (f32 \<times> f32) option \<Rightarrow> f32" where
  "normalize_present_score score bounds =
     (case score of None \<Rightarrow> 0 | Some score \<Rightarrow>
       (case bounds of None \<Rightarrow> 0 | Some (min_score, max_score) \<Rightarrow>
         (let width = f_sub max_score min_score
          in if fc_le (f_abs width) F32_EPSILON then F_ONE else f_div (f_sub score min_score) width)))"

definition hybrid_map ::
    "ScoredMemory list \<Rightarrow> ScoredMemory list \<Rightarrow> (str \<times> HybridCandidate) list" where
  "hybrid_map dense bm25 =
     fold (\<lambda>c. upsert (mr_id (sm_record c)) (\<lambda>h. h\<lparr>hc_bm25_score := Some (sm_score c)\<rparr>)
         \<lparr>hc_record = sm_record c, hc_dense_score = None, hc_bm25_score = Some (sm_score c)\<rparr>) bm25
       (fold (\<lambda>c. AList.update (mr_id (sm_record c))
         \<lparr>hc_record = sm_record c, hc_dense_score = Some (sm_score c), hc_bm25_score = None\<rparr>) dense [])"

definition fuse_hybrid_candidates ::
    "ScoredMemory list \<Rightarrow> ScoredMemory list \<Rightarrow> nat \<Rightarrow> f32 \<Rightarrow> f32 \<Rightarrow> ScoredMemory list" where
  "fuse_hybrid_candidates dense bm25 top_k embedding_weight bm25_weight =
     (let candidates = map snd (hybrid_map dense bm25);
          dense_range = score_range (List.map_filter hc_dense_score candidates);
          bm25_range = score_range (List.map_filter hc_bm25_score candidates)
      in take top_k (sort_scored_desc (map (\<lambda>h. \<lparr>sm_record = hc_record h,
           sm_score = f_add (f_mul embedding_weight (normalize_present_score (hc_dense_score h) dense_range))
             (f_mul bm25_weight (normalize_present_score (hc_bm25_score h) bm25_range))\<rparr>) candidates)))"


section \<open>The graph's candidates\<close>

record GraphFusionCandidate =
  gf_record :: MemoryRecord
  gf_base_score :: "f32 option"
  gf_graph_score :: "f32 option"
  gf_base_rank :: "nat option"
  gf_graph_rank :: "nat option"

definition GRAPH_RRF_RANK_CONSTANT :: f32 where "GRAPH_RRF_RANK_CONSTANT = 0x42700000"
definition DEFAULT_GRAPH_ONLY_RESULT_RATIO :: f32 where "DEFAULT_GRAPH_ONLY_RESULT_RATIO = 0x3E4CCCCD"

definition graph_rank_fusion_score :: "nat option \<Rightarrow> nat option \<Rightarrow> f32 \<Rightarrow> f32" where
  "graph_rank_fusion_score base_rank graph_rank graph_weight =
     (let rank_score = (\<lambda>weight r. case r of None \<Rightarrow> 0
            | Some rank \<Rightarrow> f_div weight (f_add GRAPH_RRF_RANK_CONSTANT (f_of_nat rank)))
      in f_add (rank_score F_ONE base_rank) (rank_score graph_weight graph_rank))"

definition graph_only_result_limit :: "nat \<Rightarrow> nat option \<Rightarrow> nat" where
  "graph_only_result_limit top_k configured_limit =
     (if top_k = 0 then 0
      else min (case configured_limit of Some n \<Rightarrow> n
        | None \<Rightarrow> f_ceil_usize (f_mul (f_of_nat top_k) DEFAULT_GRAPH_ONLY_RESULT_RATIO)) top_k)"

definition effective_graph_weight :: "f32 \<Rightarrow> f32" where
  "effective_graph_weight w = (if f_is_finite w then fc_max w 0 else 0)"

definition higher_than :: "f32 \<Rightarrow> f32 option \<Rightarrow> bool" where
  "higher_than score previous = (case previous of None \<Rightarrow> True | Some p \<Rightarrow> fc_gt score p)"

definition base_map :: "ScoredMemory list \<Rightarrow> (str \<times> GraphFusionCandidate) list" where
  "base_map protected_base =
     fold (\<lambda>(index, c). upsert (mr_id (sm_record c))
         (\<lambda>g. if higher_than (sm_score c) (gf_base_score g)
            then g\<lparr>gf_record := sm_record c, gf_base_score := Some (sm_score c), gf_base_rank := Some (index + 1)\<rparr>
            else g)
         \<lparr>gf_record = sm_record c, gf_base_score = Some (sm_score c), gf_graph_score = None,
          gf_base_rank = Some (index + 1), gf_graph_rank = None\<rparr>)
       (enumerate 0 protected_base) []"

definition merge_graph_candidate ::
    "genv \<Rightarrow> nat \<Rightarrow> ScoredMemory \<Rightarrow> GraphFusionCandidate \<Rightarrow> GraphFusionCandidate" where
  "merge_graph_candidate E index c g = g\<lparr>
     gf_graph_score := Some (case gf_graph_score g of None \<Rightarrow> sm_score c | Some s \<Rightarrow> fc_max s (sm_score c)),
     gf_graph_rank := Some (case gf_graph_rank g of None \<Rightarrow> index + 1 | Some r \<Rightarrow> min r (index + 1)),
     gf_record := merge_graph_into E (sm_record c) (gf_record g)\<rparr>"

text \<open>A graph candidate enriches the base candidate of the same record, or stands for itself.\<close>

definition place_graph_candidate ::
    "genv \<Rightarrow> nat \<times> ScoredMemory
      \<Rightarrow> (str \<times> GraphFusionCandidate) list \<times> (str \<times> GraphFusionCandidate) list
      \<Rightarrow> (str \<times> GraphFusionCandidate) list \<times> (str \<times> GraphFusionCandidate) list" where
  "place_graph_candidate E ic maps =
     (let (index, c) = ic; (base, graph_only) = maps; id = mr_id (sm_record c)
      in if id \<in> fst ` set base
         then (map (\<lambda>(k, g). (k, if k = id then merge_graph_candidate E index c g else g)) base, graph_only)
         else (base, upsert id
           (\<lambda>g. if higher_than (sm_score c) (gf_graph_score g)
              then g\<lparr>gf_record := sm_record c, gf_graph_score := Some (sm_score c), gf_graph_rank := Some (index + 1)\<rparr>
              else g)
           \<lparr>gf_record = sm_record c, gf_base_score = None, gf_graph_score = Some (sm_score c),
            gf_base_rank = None, gf_graph_rank = Some (index + 1)\<rparr> graph_only))"

definition base_result :: "bool \<Rightarrow> f32 \<Rightarrow> GraphFusionCandidate \<Rightarrow> ScoredMemory" where
  "base_result rerank_with_graph weight g = \<lparr>sm_record = gf_record g,
     sm_score = (if rerank_with_graph then graph_rank_fusion_score (gf_base_rank g) (gf_graph_rank g) weight
       else case gf_base_score g of Some s \<Rightarrow> s | None \<Rightarrow> 0)\<rparr>"

definition graph_only_result :: "f32 \<Rightarrow> GraphFusionCandidate \<Rightarrow> ScoredMemory" where
  "graph_only_result weight g = \<lparr>sm_record = gf_record g,
     sm_score = graph_rank_fusion_score (gf_base_rank g) (gf_graph_rank g) weight\<rparr>"

definition fuse_graph_candidates ::
    "genv \<Rightarrow> ScoredMemory list \<Rightarrow> ScoredMemory list \<Rightarrow> nat \<Rightarrow> f32 \<Rightarrow> bool \<Rightarrow> bool \<Rightarrow> nat option
      \<Rightarrow> ScoredMemory list" where
  "fuse_graph_candidates E base graph top_k graph_weight rerank_with_graph allow_graph_only max_graph_only =
     (if top_k = 0 then []
      else if graph = [] then take top_k (sort_scored_desc base)
      else
        let weight = effective_graph_weight graph_weight;
            (base_candidates, graph_only_candidates) =
              fold (place_graph_candidate E) (enumerate 0 (sort_scored_desc graph))
                (base_map (take top_k (sort_scored_desc base)), []);
            results = map (base_result rerank_with_graph weight \<circ> snd) base_candidates;
            results = (if allow_graph_only \<and> rerank_with_graph \<and> fc_gt weight 0
              then let graph_only_results = take (graph_only_result_limit top_k max_graph_only)
                         (sort_scored_desc (map (graph_only_result weight \<circ> snd) graph_only_candidates))
                   in take (top_k - length graph_only_results) (sort_scored_desc results) @ graph_only_results
              else results)
        in take top_k (sort_scored_desc results))"

end
