(* ===== verification/MemClients.thy ===== *)
theory MemClients
  imports MemTypes
begin

text \<open>
  The providers of the memory manager (\<open>embedding.rs\<close>, \<open>rerank.rs\<close>): the embedding trait with its two
  implementations, and the reranker. The HTTP service is a function from the number of requests made so
  far and the request to an answer; the wire records that number and the waits between the attempts.
\<close>

section \<open>The wire\<close>

record HttpRequest =
  hr_url :: str
  hr_bearer :: "str option"
  hr_body :: json
  hr_timeout_ms :: "nat option"

text \<open>Sending fails, the body cannot be read, or a status with its text and a body arrives.\<close>

datatype HttpAnswer = SendError str | ReadError str | Answer nat str str

record wire =
  w_requests :: nat
  w_sleeps :: "nat list"

text \<open>
  The service, and of serde's derived code the reading of the two responses: an index with a
  relevance score, an optional index with an embedding.
\<close>

record henv =
  h_answer :: "nat \<Rightarrow> HttpRequest \<Rightarrow> HttpAnswer"
  h_rerank_response :: "str \<Rightarrow> str + (nat \<times> f32) list"
  h_embedding_response :: "str \<Rightarrow> str + (nat option \<times> f32 list) list"

definition trim_end_matches :: "nat \<Rightarrow> str \<Rightarrow> str" where
  "trim_end_matches c s = rev (dropWhile (\<lambda>d. d = c) (rev s))"

definition mem_preview_body :: "str \<Rightarrow> str" where
  "mem_preview_body body = take 1000 body"

text \<open>The pause after the given attempt, in seconds.\<close>

definition mem_retry_backoff :: "nat \<Rightarrow> nat" where
  "mem_retry_backoff attempt = 2 ^ (attempt - 1)"

definition send :: "henv \<Rightarrow> HttpRequest \<Rightarrow> wire \<Rightarrow> HttpAnswer \<times> wire" where
  "send H r w = (h_answer H (w_requests w) r, w\<lparr>w_requests := Suc (w_requests w)\<rparr>)"

definition sleep :: "nat \<Rightarrow> wire \<Rightarrow> wire" where
  "sleep n w = w\<lparr>w_sleeps := w_sleeps w @ [n]\<rparr>"

text \<open>
  The loop of both clients over the attempts left: a failed attempt says whether it may be retried; the
  last attempt's failure, or one that may not be retried, is the failure of the call.
\<close>

fun attempts ::
    "(wire \<Rightarrow> ((bool \<times> str) + 'a) \<times> wire) \<Rightarrow> nat \<Rightarrow> nat \<Rightarrow> wire \<Rightarrow> (str + 'a) \<times> wire" where
  "attempts once attempt 0 w = (Inl [], w)"
| "attempts once attempt (Suc left) w =
     (case once w of
        (Inr a, w) \<Rightarrow> (Inr a, w)
      | (Inl (retryable, message), w) \<Rightarrow>
          if retryable \<and> left > 0
          then attempts once (Suc attempt) left (sleep (mem_retry_backoff attempt) w)
          else (Inl message, w))"


section \<open>Embedding providers\<close>

record MemoryEmbedder =
  me_dimensions :: nat
  me_model_name :: str
  me_profile_id :: str
  me_embed :: "str list \<Rightarrow> (wire, f32 list list) oper"

text \<open>The trait's own \<open>profile_id\<close> and \<open>embed_one\<close>; \<open>pop\<close> takes the last vector.\<close>

definition default_profile_id :: "str \<Rightarrow> nat \<Rightarrow> str" where
  "default_profile_id model dimensions = model @ lit '':'' @ dec_str dimensions"

definition embed_one :: "MemoryEmbedder \<Rightarrow> str \<Rightarrow> (wire, f32 list) oper" where
  "embed_one ep t = then_do (me_embed ep [t]) (\<lambda>embeddings.
     if embeddings = [] then fail (MEmbedding (lit ''embedding provider returned no vectors''))
     else give (last embeddings))"

record OpenRouterEmbedding =
  oe_api_key :: str
  oe_base_url :: str
  oe_model :: str
  oe_dimensions :: nat

definition OpenRouterEmbedding_with_base_url :: "str \<Rightarrow> str \<Rightarrow> str \<Rightarrow> nat \<Rightarrow> OpenRouterEmbedding" where
  "OpenRouterEmbedding_with_base_url api_key base_url model dimensions =
     \<lparr>oe_api_key = api_key, oe_base_url = trim_end_matches 47 base_url, oe_model = model,
      oe_dimensions = dimensions\<rparr>"

definition embeddings_url :: "OpenRouterEmbedding \<Rightarrow> str" where
  "embeddings_url c = (if ends_with (oe_base_url c) (lit ''/embeddings'') then oe_base_url c
     else oe_base_url c @ lit ''/embeddings'')"

definition is_retryable_status :: "nat \<Rightarrow> bool" where
  "is_retryable_status status \<longleftrightarrow> status \<in> {429, 500, 502, 503, 504}"

definition is_success :: "nat \<Rightarrow> bool" where
  "is_success status \<longleftrightarrow> 200 \<le> status \<and> status < 300"

text \<open>The vectors in the order of the inputs: by index when all have one, as they come when none has.\<close>

definition ordered_embeddings :: "(nat option \<times> f32 list) list \<Rightarrow> f32 list list mresult" where
  "ordered_embeddings items =
     (let indexed_count = length (filter (\<lambda>i. fst i \<noteq> None) items)
      in if indexed_count = 0 then Inr (map snd items)
         else if indexed_count = length items then
           (let indexed = sort_key fst (map (\<lambda>(i, v). (case i of Some n \<Rightarrow> n | None \<Rightarrow> 0, v)) items)
            in if list_ex (\<lambda>(expected, (actual, _)). expected \<noteq> actual) (enumerate 0 indexed)
               then Inl (MEmbedding (lit ''embedding API returned non-contiguous indexes''))
               else Inr (map snd indexed))
         else Inl (MEmbedding (lit ''embedding API returned partial indexes'')))"

definition dimension_error :: "nat \<Rightarrow> f32 list list \<Rightarrow> str option" where
  "dimension_error dimensions vectors =
     (case find (\<lambda>(i, v). length v \<noteq> dimensions) (enumerate 0 vectors) of
        None \<Rightarrow> None
      | Some (i, v) \<Rightarrow> Some (lit ''embedding dimension mismatch at index '' @ dec_str i @ lit '': expected ''
          @ dec_str dimensions @ lit '' got '' @ dec_str (length v)))"

definition embedding_request :: "OpenRouterEmbedding \<Rightarrow> str list \<Rightarrow> HttpRequest" where
  "embedding_request c texts = \<lparr>hr_url = embeddings_url c, hr_bearer = Some (oe_api_key c),
     hr_body = jobject [(lit ''model'', JString (oe_model c)), (lit ''input'', JArray (map JString texts)),
       (lit ''encoding_format'', JString (lit ''float''))],
     hr_timeout_ms = None\<rparr>"

definition read_embeddings :: "henv \<Rightarrow> OpenRouterEmbedding \<Rightarrow> HttpAnswer \<Rightarrow> (bool \<times> str) + f32 list list" where
  "read_embeddings H c a =
     (case a of
        SendError e \<Rightarrow> Inl (True, lit ''embedding request failed: '' @ e)
      | ReadError e \<Rightarrow> Inl (True, lit ''failed to read embedding response body: '' @ e)
      | Answer status status_text body \<Rightarrow>
          if \<not> is_success status then
            Inl (is_retryable_status status, lit ''embedding API returned HTTP '' @ status_text @ lit '': ''
              @ mem_preview_body body)
          else case h_embedding_response H body of
            Inl e \<Rightarrow> Inl (True, lit ''decode failed for embedding response: '' @ e @ lit ''; body preview: ''
              @ mem_preview_body body)
          | Inr items \<Rightarrow>
              (case ordered_embeddings items of
                 Inl e \<Rightarrow> Inl (True, lit ''invalid embedding response: '' @ memory_error_string e)
               | Inr embeddings \<Rightarrow>
                   (case dimension_error (oe_dimensions c) embeddings of
                      Some message \<Rightarrow> Inl (False, message)
                    | None \<Rightarrow> Inr embeddings)))"

definition embed_once ::
    "henv \<Rightarrow> OpenRouterEmbedding \<Rightarrow> str list \<Rightarrow> wire \<Rightarrow> ((bool \<times> str) + f32 list list) \<times> wire" where
  "embed_once H c texts w = (let (a, w) = send H (embedding_request c texts) w in (read_embeddings H c a, w))"

definition EMBEDDING_MAX_ATTEMPTS :: nat where "EMBEDDING_MAX_ATTEMPTS = 8"

definition openrouter_embed :: "henv \<Rightarrow> OpenRouterEmbedding \<Rightarrow> str list \<Rightarrow> (wire, f32 list list) oper" where
  "openrouter_embed H c texts w =
     (if texts = [] then (Inr [], w)
      else case attempts (embed_once H c texts) 1 EMBEDDING_MAX_ATTEMPTS w of
             (Inl message, w) \<Rightarrow> (Inl (MEmbedding message), w)
           | (Inr v, w) \<Rightarrow> (Inr v, w))"

definition OpenRouterEmbedding_provider :: "henv \<Rightarrow> OpenRouterEmbedding \<Rightarrow> MemoryEmbedder" where
  "OpenRouterEmbedding_provider H c =
     \<lparr>me_dimensions = oe_dimensions c, me_model_name = oe_model c,
      me_profile_id = lit ''openai_compatible:'' @ oe_base_url c @ lit '':'' @ oe_model c @ lit '':''
        @ dec_str (oe_dimensions c),
      me_embed = openrouter_embed H c\<rparr>"

text \<open>The local embedding: a 64-bit hash of each token counts in one place of the vector.\<close>

definition mem_utf8 :: "nat \<Rightarrow> nat list" where
  "mem_utf8 c = (if c < 128 then [c]
     else if c < 2048 then [192 + c div 64, 128 + c mod 64]
     else if c < 65536 then [224 + c div 4096, 128 + c div 64 mod 64, 128 + c mod 64]
     else [240 + c div 262144, 128 + c div 4096 mod 64, 128 + c div 64 mod 64, 128 + c mod 64])"

definition token_hash :: "str \<Rightarrow> u64" where
  "token_hash token = fold (\<lambda>b h. xor h (word_of_nat b) * 1099511628211)
     (concat (map mem_utf8 (map ascii_lower token))) 1469598103934665603"

definition hash_embed :: "str \<Rightarrow> nat \<Rightarrow> f32 list" where
  "hash_embed t dimensions =
     fold (\<lambda>token vector. let index = unat (token_hash token) mod length vector
         in vector[index := f_add (vector ! index) F_ONE])
       (split_whitespace t) (replicate (max dimensions 1) 0)"

definition HashEmbedding_provider :: "nat \<Rightarrow> MemoryEmbedder" where
  "HashEmbedding_provider dimensions =
     \<lparr>me_dimensions = dimensions, me_model_name = lit ''hash-embedding'',
      me_profile_id = lit ''hash:'' @ dec_str dimensions,
      me_embed = (\<lambda>texts. give (map (\<lambda>t. hash_embed t dimensions) texts))\<rparr>"


section \<open>The reranker\<close>

record Reranker =
  rr_rerank :: "str \<Rightarrow> ScoredMemory list \<Rightarrow> nat \<Rightarrow> (wire, ScoredMemory list) oper"

record OpenRouterReranker =
  or_api_key :: "str option"
  or_base_url :: str
  or_model :: str
  or_timeout_ms :: "nat option"

definition OpenRouterReranker_with_base_url :: "str \<Rightarrow> str \<Rightarrow> str \<Rightarrow> OpenRouterReranker" where
  "OpenRouterReranker_with_base_url api_key base_url model = \<lparr>or_api_key = Some api_key,
     or_base_url = trim_end_matches 47 base_url, or_model = model, or_timeout_ms = None\<rparr>"

definition OpenRouterReranker_from_config :: "str \<Rightarrow> RerankConfig \<Rightarrow> OpenRouterReranker" where
  "OpenRouterReranker_from_config api_key c =
     (OpenRouterReranker_with_base_url api_key (rk_base_url c) (rk_model c))\<lparr>or_timeout_ms := rk_timeout_ms c\<rparr>"

definition from_config_with_optional_api_key :: "str option \<Rightarrow> RerankConfig \<Rightarrow> OpenRouterReranker" where
  "from_config_with_optional_api_key api_key c = \<lparr>or_api_key = api_key,
     or_base_url = trim_end_matches 47 (rk_base_url c), or_model = rk_model c,
     or_timeout_ms = rk_timeout_ms c\<rparr>"

definition rerank_url :: "OpenRouterReranker \<Rightarrow> str" where
  "rerank_url c = (if ends_with (or_base_url c) (lit ''/rerank'') then or_base_url c
     else or_base_url c @ lit ''/rerank'')"

definition is_retryable_rerank_failure :: "str \<Rightarrow> bool" where
  "is_retryable_rerank_failure message = (let lower = map ascii_lower message
     in list_ex (\<lambda>needle. str_contains lower (lit needle))
       [''error sending request'', ''failed to read'', ''operation timed out'', ''http 408'', ''http 425'',
        ''http 429'', ''http 500'', ''http 502'', ''http 503'', ''http 504''])"

definition openrouter_request_body :: "str \<Rightarrow> str \<Rightarrow> ScoredMemory list \<Rightarrow> nat \<Rightarrow> json" where
  "openrouter_request_body model query candidates top_n = JObject
     [(lit ''model'', JString model), (lit ''query'', JString query),
      (lit ''documents'', JArray (map (JString \<circ> mr_text \<circ> sm_record) candidates)),
      (lit ''top_n'', jnat top_n)]"

text \<open>The results are taken in the provider's order, each index once and in range, each score finite.\<close>

fun rank_results ::
    "ScoredMemory list \<Rightarrow> nat list \<Rightarrow> (nat \<times> f32) list \<Rightarrow> ScoredMemory list mresult" where
  "rank_results candidates seen [] = Inr []"
| "rank_results candidates seen ((index, score) # rs) =
     (if index \<ge> length candidates then
        Inl (MRerank (lit ''OpenRouter rerank response index '' @ dec_str index @ lit '' out of range for ''
          @ dec_str (length candidates) @ lit '' candidates''))
      else if index \<in> set seen then
        Inl (MRerank (lit ''OpenRouter rerank response returned duplicate index '' @ dec_str index))
      else if \<not> f_is_finite score then
        Inl (MRerank (lit ''OpenRouter rerank response returned non-finite score for index '' @ dec_str index))
      else and_then (rank_results candidates (index # seen) rs)
        (\<lambda>ranked. Inr ((candidates ! index)\<lparr>sm_score := score\<rparr> # ranked)))"

definition apply_openrouter_results ::
    "ScoredMemory list \<Rightarrow> (nat \<times> f32) list \<Rightarrow> nat \<Rightarrow> ScoredMemory list mresult" where
  "apply_openrouter_results candidates results top_n =
     (let expected = min top_n (length candidates)
      in if length results < expected then
           Inl (MRerank (lit ''OpenRouter rerank response returned '' @ dec_str (length results)
             @ lit '' results for top_n '' @ dec_str expected))
         else rank_results candidates [] (take expected results))"

text \<open>
  One attempt: a failure to be retried or not by its message, or the answer of the call, which may itself
  be an error of its content.
\<close>

definition read_ranking ::
    "henv \<Rightarrow> ScoredMemory list \<Rightarrow> nat \<Rightarrow> HttpAnswer \<Rightarrow> (bool \<times> str) + ScoredMemory list mresult" where
  "read_ranking H candidates top_n a =
     (let failed = (\<lambda>message. Inl (is_retryable_rerank_failure message, message))
      in case a of
        SendError e \<Rightarrow> failed (lit ''OpenRouter rerank request failed: '' @ e)
      | ReadError e \<Rightarrow> failed (lit ''failed to read OpenRouter rerank response body: '' @ e)
      | Answer status status_text body \<Rightarrow>
          if \<not> is_success status then
            failed (lit ''OpenRouter rerank API returned HTTP '' @ status_text @ lit '': '' @ mem_preview_body body)
          else case h_rerank_response H body of
            Inl e \<Rightarrow> failed (lit ''decode failed for OpenRouter rerank response: '' @ e
              @ lit ''; body preview: '' @ mem_preview_body body)
          | Inr results \<Rightarrow> Inr (apply_openrouter_results candidates results top_n))"

definition RERANK_MAX_ATTEMPTS :: nat where "RERANK_MAX_ATTEMPTS = 8"

definition rerank_request :: "OpenRouterReranker \<Rightarrow> str \<Rightarrow> ScoredMemory list \<Rightarrow> nat \<Rightarrow> HttpRequest" where
  "rerank_request c query candidates top_n = \<lparr>hr_url = rerank_url c, hr_bearer = or_api_key c,
     hr_body = openrouter_request_body (or_model c) query candidates top_n, hr_timeout_ms = or_timeout_ms c\<rparr>"

definition rerank_once ::
    "henv \<Rightarrow> OpenRouterReranker \<Rightarrow> str \<Rightarrow> ScoredMemory list \<Rightarrow> nat
      \<Rightarrow> wire \<Rightarrow> ((bool \<times> str) + ScoredMemory list mresult) \<times> wire" where
  "rerank_once H c query candidates top_n w =
     (let (a, w) = send H (rerank_request c query candidates top_n) w in (read_ranking H candidates top_n a, w))"

definition openrouter_rerank ::
    "henv \<Rightarrow> OpenRouterReranker \<Rightarrow> str \<Rightarrow> ScoredMemory list \<Rightarrow> nat \<Rightarrow> (wire, ScoredMemory list) oper" where
  "openrouter_rerank H c query candidates top_k w =
     (if top_k = 0 \<or> candidates = [] then (Inr [], w)
      else case attempts (rerank_once H c query candidates (min top_k (length candidates)))
              1 RERANK_MAX_ATTEMPTS w of
             (Inl message, w) \<Rightarrow> (Inl (MRerank message), w)
           | (Inr r, w) \<Rightarrow> (r, w))"

definition OpenRouterReranker_provider :: "henv \<Rightarrow> OpenRouterReranker \<Rightarrow> Reranker" where
  "OpenRouterReranker_provider H c = \<lparr>rr_rerank = openrouter_rerank H c\<rparr>"

end
