(* ===== verification/MemManager.thy ===== *)
theory MemManager
  imports MemFusion MemClients
begin

text \<open>
  The memory manager (\<open>manager.rs\<close>): adding memories one at a time or in batches, deleting by filter, and the
  four modes of search with the graph channel and the reranker. Its state is the store, the graph
  repository on the same database, the wire to the providers, the random identifiers drawn, the readings of
  the clock and the progress reported to the caller. Log output and its timings are left out.
\<close>

section \<open>The manager and its state\<close>

record MemoryManager =
  mm_embedder :: MemoryEmbedder
  mm_config :: RetrievalConfig
  mm_reranker :: "Reranker option"

record ManagerState =
  st_store :: MemoryStore
  st_graph :: GraphRepository
  st_wire :: wire
  st_uuids :: nat
  st_readings :: nat
  st_progress :: "nat list"

definition MemoryManager_new :: "MemoryEmbedder \<Rightarrow> MemoryManager" where
  "MemoryManager_new ep = \<lparr>mm_embedder = ep, mm_config = RetrievalConfig_default, mm_reranker = None\<rparr>"

definition with_retrieval_config :: "MemoryEmbedder \<Rightarrow> RetrievalConfig \<Rightarrow> MemoryManager" where
  "with_retrieval_config ep c = \<lparr>mm_embedder = ep, mm_config = c, mm_reranker = None\<rparr>"

definition with_retrieval_config_and_reranker ::
    "MemoryEmbedder \<Rightarrow> RetrievalConfig \<Rightarrow> Reranker \<Rightarrow> MemoryManager" where
  "with_retrieval_config_and_reranker ep c r = \<lparr>mm_embedder = ep, mm_config = c, mm_reranker = Some r\<rparr>"

definition in_store :: "(MemoryStore, 'a) oper \<Rightarrow> (ManagerState, 'a) oper" where
  "in_store m s = (let (r, t) = m (st_store s) in (r, s\<lparr>st_store := t\<rparr>))"

definition in_wire :: "(wire, 'a) oper \<Rightarrow> (ManagerState, 'a) oper" where
  "in_wire m s = (let (r, w) = m (st_wire s) in (r, s\<lparr>st_wire := w\<rparr>))"

text \<open>An operation of the SQLite store, for a manager that has one.\<close>

definition in_sqlite :: "MemoryError \<Rightarrow> (SqliteMemoryStore, 'a) oper \<Rightarrow> (ManagerState, 'a) oper" where
  "in_sqlite e m s = (case st_store s of
       File _ \<Rightarrow> (Inl e, s)
     | Sqlite t \<Rightarrow> (let (r, t) = m t in (r, s\<lparr>st_store := Sqlite t\<rparr>)))"

definition is_sqlite :: "MemoryStore \<Rightarrow> bool" where
  "is_sqlite t = (case t of Sqlite _ \<Rightarrow> True | File _ \<Rightarrow> False)"

definition report :: "nat \<Rightarrow> (ManagerState, unit) oper" where
  "report n s = (Inr (), s\<lparr>st_progress := st_progress s @ [n]\<rparr>)"

definition current_time_ms :: "menv \<Rightarrow> (ManagerState, u64) oper" where
  "current_time_ms V s = (Inr (v_now V (st_readings s)), s\<lparr>st_readings := Suc (st_readings s)\<rparr>)"

definition mem_new_v4 :: "menv \<Rightarrow> (ManagerState, str) oper" where
  "mem_new_v4 V s = (Inr (v_uuid V (st_uuids s)), s\<lparr>st_uuids := Suc (st_uuids s)\<rparr>)"


section \<open>Embedding profiles\<close>

definition DEFAULT_EMBEDDING_BATCH_SIZE :: nat where "DEFAULT_EMBEDDING_BATCH_SIZE = 64"
definition EMBEDDING_PROFILE_METADATA_KEY :: str where
  "EMBEDDING_PROFILE_METADATA_KEY = lit ''memory_core_embedding_profile''"

definition embedding_profile_metadata :: "MemoryManager \<Rightarrow> json" where
  "embedding_profile_metadata M = jobject
     [(lit ''profile_id'', JString (me_profile_id (mm_embedder M))),
      (lit ''model'', JString (me_model_name (mm_embedder M))),
      (lit ''dimensions'', jnat (me_dimensions (mm_embedder M)))]"

definition metadata_with_embedding_profile :: "json \<Rightarrow> json \<Rightarrow> json" where
  "metadata_with_embedding_profile metadata profile = (case metadata of
     JObject m \<Rightarrow> JObject (obj_insert EMBEDDING_PROFILE_METADATA_KEY profile m) | _ \<Rightarrow> metadata)"

definition profile_id_of :: "json \<Rightarrow> str option" where
  "profile_id_of metadata =
     Option.bind (json_get metadata EMBEDDING_PROFILE_METADATA_KEY) (str_at ''profile_id'')"

definition record_embedding_profile_id :: "MemoryRecord \<Rightarrow> str option" where
  "record_embedding_profile_id r = profile_id_of (mr_metadata r)"

definition embedding_profile_mismatch_error :: "str option \<Rightarrow> str \<Rightarrow> str \<Rightarrow> MemoryError" where
  "embedding_profile_mismatch_error scope_id expected actual =
     MEmbedding (lit ''embedding profile mismatch for scope `'' @ (case scope_id of Some s \<Rightarrow> s | None \<Rightarrow> lit ''<unscoped>'')
       @ lit ''`: expected `'' @ expected @ lit ''` got `'' @ actual @ lit ''`'')"

definition insert_expected_embedding_profile ::
    "str \<Rightarrow> str \<Rightarrow> (str \<times> str) list \<Rightarrow> (str \<times> str) list mresult" where
  "insert_expected_embedding_profile scope_id profile_id expected_by_scope =
     (case map_of expected_by_scope scope_id of
        Some expected \<Rightarrow>
          if expected \<noteq> profile_id then Inl (embedding_profile_mismatch_error (Some scope_id) expected profile_id)
          else Inr expected_by_scope
      | None \<Rightarrow> Inr (AList.update scope_id profile_id expected_by_scope))"

text \<open>One record of the two loops: a stored one counts with its profile, a new one with the embedder's by default.\<close>

definition expect_profile ::
    "str option \<Rightarrow> MemoryRecord \<Rightarrow> (str \<times> str) list \<Rightarrow> (str \<times> str) list mresult" where
  "expect_profile current r expected_by_scope =
     (case extract_scope_id (mr_metadata r) of
        None \<Rightarrow> Inr expected_by_scope
      | Some scope_id \<Rightarrow>
          (case (case record_embedding_profile_id r of Some p \<Rightarrow> Some p | None \<Rightarrow> current) of
             None \<Rightarrow> Inr expected_by_scope
           | Some profile_id \<Rightarrow> insert_expected_embedding_profile scope_id profile_id expected_by_scope))"

definition check_new_profiles :: "str \<Rightarrow> MemoryRecord list \<Rightarrow> MemoryRecord list \<Rightarrow> unit mresult" where
  "check_new_profiles current stored new_records =
     and_then (for_each (expect_profile None) stored [])
       (\<lambda>expected. and_then (for_each (expect_profile (Some current)) new_records expected) (\<lambda>_. Inr ()))"

definition validate_new_record_embedding_profiles ::
    "genv \<Rightarrow> menv \<Rightarrow> MemoryManager \<Rightarrow> MemoryRecord list \<Rightarrow> (ManagerState, unit) oper" where
  "validate_new_record_embedding_profiles E V M new_records s =
     (if \<not> is_sqlite (st_store s) \<or> new_records = [] then (Inr (), s)
      else then_do (in_store (store_list_records E V))
        (\<lambda>stored. lift_result (check_new_profiles (me_profile_id (mm_embedder M)) stored new_records)) s)"

fun check_search_profiles :: "str \<Rightarrow> json option \<Rightarrow> MemoryRecord list \<Rightarrow> unit mresult" where
  "check_search_profiles current f [] = Inr ()"
| "check_search_profiles current f (r # rs) =
     (if \<not> metadata_matches (mr_metadata r) f then check_search_profiles current f rs
      else if extract_scope_id_from_filter f = None \<and> extract_scope_id (mr_metadata r) = None
      then check_search_profiles current f rs
      else case record_embedding_profile_id r of
             None \<Rightarrow> check_search_profiles current f rs
           | Some profile_id \<Rightarrow>
               if profile_id \<noteq> current then
                 Inl (embedding_profile_mismatch_error (extract_scope_id (mr_metadata r)) current profile_id)
               else check_search_profiles current f rs)"

definition validate_search_embedding_profile ::
    "genv \<Rightarrow> menv \<Rightarrow> MemoryManager \<Rightarrow> json option \<Rightarrow> (ManagerState, unit) oper" where
  "validate_search_embedding_profile E V M f = then_do (in_store (store_list_records E V))
     (\<lambda>records. lift_result (check_search_profiles (me_profile_id (mm_embedder M)) f records))"


section \<open>Adding\<close>

fun chunks :: "nat \<Rightarrow> 'a list \<Rightarrow> 'a list list" where
  "chunks n xs = (if xs = [] \<or> n = 0 then [] else take n xs # chunks n (drop n xs))"

declare chunks.simps [simp del]

fun add_request_error :: "AddMemoryRequest list \<Rightarrow> str list \<Rightarrow> MemoryError option" where
  "add_request_error [] explicit_ids = None"
| "add_request_error (q # qs) explicit_ids =
     (if trim (am_text q) = [] then Some (MInvalidInput (lit ''memory text must not be empty''))
      else case am_id q of
             None \<Rightarrow> add_request_error qs explicit_ids
           | Some i \<Rightarrow> if i \<in> set explicit_ids
               then Some (MInvalidInput (lit ''duplicate memory id in batch: '' @ i))
               else add_request_error qs (i # explicit_ids))"

text \<open>The embeddings of the texts in batches, with a report after each.\<close>

definition embed_in_batches :: "MemoryManager \<Rightarrow> nat \<Rightarrow> str list \<Rightarrow> (ManagerState, f32 list list) oper" where
  "embed_in_batches M batch_size texts =
     then_do (map_ops (\<lambda>chunk. then_do (in_wire (me_embed (mm_embedder M) chunk))
         (\<lambda>v. then_do (report (length chunk)) (\<lambda>_. give v))) (chunks (max batch_size 1) texts))
       (\<lambda>vs. give (concat vs))"

definition count_error :: "nat \<Rightarrow> nat \<Rightarrow> string \<Rightarrow> MemoryError" where
  "count_error got expected what = MEmbedding (lit ''embedding provider returned '' @ dec_str got
     @ lit '' vectors for '' @ dec_str expected @ lit what)"

definition the_id :: "menv \<Rightarrow> AddMemoryRequest \<Rightarrow> (ManagerState, str) oper" where
  "the_id V q = (case am_id q of Some i \<Rightarrow> give i | None \<Rightarrow> mem_new_v4 V)"

definition new_record :: "MemoryManager \<Rightarrow> u64 \<Rightarrow> AddMemoryRequest \<Rightarrow> f32 list \<Rightarrow> str \<Rightarrow> MemoryRecord" where
  "new_record M now q embedding i = \<lparr>mr_id = i, mr_text = trim (am_text q),
     mr_metadata = metadata_with_embedding_profile (am_metadata q) (embedding_profile_metadata M),
     mr_embedding = embedding, mr_created_at_ms = now, mr_updated_at_ms = now\<rparr>"

definition build_records ::
    "menv \<Rightarrow> MemoryManager \<Rightarrow> AddMemoryRequest list \<Rightarrow> nat \<Rightarrow> (ManagerState, MemoryRecord list) oper" where
  "build_records V M requests batch_size =
     (if requests = [] then give []
      else case add_request_error requests [] of
             Some e \<Rightarrow> fail e
           | None \<Rightarrow>
               then_do (embed_in_batches M batch_size (map (trim \<circ> am_text) requests)) (\<lambda>embeddings.
               if length embeddings \<noteq> length requests
               then fail (count_error (length embeddings) (length requests) '' requests'')
               else then_do (current_time_ms V) (\<lambda>now.
                 map_ops (\<lambda>(q, v). then_do (the_id V q) (\<lambda>i. give (new_record M now q v i)))
                   (zip requests embeddings))))"

definition add_many_with_batch_size ::
    "genv \<Rightarrow> menv \<Rightarrow> MemoryManager \<Rightarrow> AddMemoryRequest list \<Rightarrow> nat
      \<Rightarrow> (ManagerState, AddMemoryResponse list) oper" where
  "add_many_with_batch_size E V M requests batch_size =
     then_do (build_records V M requests batch_size) (\<lambda>new_records.
     then_do (validate_new_record_embedding_profiles E V M new_records) (\<lambda>_.
     then_do (in_store (store_add_records E V new_records)) (\<lambda>_.
     give (map (\<lambda>r. \<lparr>ar_id = mr_id r\<rparr>) new_records))))"

definition add_many ::
    "genv \<Rightarrow> menv \<Rightarrow> MemoryManager \<Rightarrow> AddMemoryRequest list \<Rightarrow> (ManagerState, AddMemoryResponse list) oper" where
  "add_many E V M requests = add_many_with_batch_size E V M requests DEFAULT_EMBEDDING_BATCH_SIZE"

definition mem_add :: "genv \<Rightarrow> menv \<Rightarrow> MemoryManager \<Rightarrow> AddMemoryRequest \<Rightarrow> (ManagerState, AddMemoryResponse) oper" where
  "mem_add E V M q =
     (if trim (am_text q) = [] then fail (MInvalidInput (lit ''memory text must not be empty''))
      else then_do (in_wire (embed_one (mm_embedder M) (trim (am_text q)))) (\<lambda>embedding.
        then_do (current_time_ms V) (\<lambda>now.
        then_do (the_id V q) (\<lambda>i.
        let r = new_record M now q embedding i
        in then_do (validate_new_record_embedding_profiles E V M [r]) (\<lambda>_.
           then_do (in_store (store_add_record E V r)) (\<lambda>_. give \<lparr>ar_id = i\<rparr>))))))"


section \<open>Deleting\<close>

text \<open>Two operations on the store: the records are listed, and what is retained is written back.\<close>

definition retained_records :: "json list \<Rightarrow> MemoryRecord list \<Rightarrow> MemoryRecord list" where
  "retained_records filters records = filter (\<lambda>r. \<not> metadata_matches_any (mr_metadata r) filters) records"

definition delete_by_filters :: "genv \<Rightarrow> menv \<Rightarrow> json list \<Rightarrow> (ManagerState, nat) oper" where
  "delete_by_filters E V filters =
     (if filters = [] then give 0
      else then_do (in_store (store_list_records E V)) (\<lambda>records.
        let retained = retained_records filters records; deleted = length records - length retained
        in if deleted > 0 then then_do (in_store (store_replace_all E V retained)) (\<lambda>_. give deleted)
           else give deleted))"

definition delete_by_filter :: "genv \<Rightarrow> menv \<Rightarrow> json \<Rightarrow> (ManagerState, nat) oper" where
  "delete_by_filter E V f = delete_by_filters E V [f]"

end
