(* ===== verification/MemSearch.thy ===== *)
theory MemSearch
  imports MemManager
begin

text \<open>
  Searching with the memory manager (\<open>manager.rs\<close>): the dense channel on either store, the graph channel,
  reranking, and the modes. The search of one request, of many, and the validations in between.
\<close>

section \<open>The dense channel\<close>

definition dimension_mismatch :: "nat \<Rightarrow> MemoryRecord \<Rightarrow> MemoryError" where
  "dimension_mismatch query_dims r = MEmbedding (lit ''embedding dimension mismatch: query has ''
     @ dec_str query_dims @ lit '' dims but record '' @ [39] @ mr_id r @ [39] @ lit '' has ''
     @ dec_str (length (mr_embedding r)) @ lit '' dims'')"

text \<open>Over the records of a store without its own search: filter, score, sort, and only then cut.\<close>

definition score_records :: "f32 list \<Rightarrow> json option \<Rightarrow> nat \<Rightarrow> MemoryRecord list \<Rightarrow> ScoredMemory list mresult" where
  "score_records query f limit records =
     and_then (collect_ok (\<lambda>r. if length (mr_embedding r) \<noteq> length query
         then Inl (dimension_mismatch (length query) r)
         else Inr \<lparr>sm_record = r, sm_score = cosine_similarity query (mr_embedding r)\<rparr>)
       (filter (\<lambda>r. metadata_matches (mr_metadata r) f) records))
     (\<lambda>results. Inr (take limit (sort_scored_desc results)))"

definition needs_sqlite :: MemoryError where
  "needs_sqlite = MStoreBackend (lit ''graph retrieval requires sqlite store backend'')"

definition dense_candidates ::
    "genv \<Rightarrow> menv \<Rightarrow> MemoryManager \<Rightarrow> f32 list \<Rightarrow> json option \<Rightarrow> nat \<Rightarrow> (ManagerState, ScoredMemory list) oper" where
  "dense_candidates E V M query f limit s =
     (case st_store s of
        Sqlite _ \<Rightarrow> then_do (validate_search_embedding_profile E V M f)
          (\<lambda>_. in_sqlite needs_sqlite (sqlite_dense_candidates E V query f limit)) s
      | File _ \<Rightarrow> then_do (in_store (store_list_records E V))
          (\<lambda>records. lift_result (score_records query f limit records)) s)"


section \<open>The graph channel\<close>

definition graph_record_to_memory_record :: "GraphMemoryRecord \<Rightarrow> MemoryRecord" where
  "graph_record_to_memory_record r =
     \<lparr>mr_id = (case Option.bind (gm_source_ref r) (\<lambda>x. if trim x = [] then None else Some (trim x)) of
         Some i \<Rightarrow> i | None \<Rightarrow> gm_id r),
      mr_text = gm_text r,
      mr_metadata = (case gm_created_by_agent_id r of
         None \<Rightarrow> gm_metadata r
       | Some source_agent_id \<Rightarrow> JObject (obj_insert (lit ''source_agent_id'') (JString source_agent_id)
           (ensure_metadata_object (gm_metadata r)))),
      mr_embedding = (case gm_embedding r of Some v \<Rightarrow> v | None \<Rightarrow> []),
      mr_created_at_ms = word_of_nat (gm_created_at_ms r), mr_updated_at_ms = word_of_nat (gm_updated_at_ms r)\<rparr>"

definition put_graph_candidate ::
    "(MemoryRecord \<Rightarrow> MemoryRecord \<Rightarrow> MemoryRecord) \<Rightarrow> MemoryRecord \<Rightarrow> f32
      \<Rightarrow> (str \<times> ScoredMemory) list \<Rightarrow> (str \<times> ScoredMemory) list" where
  "put_graph_candidate merge r score = upsert (mr_id r)
     (\<lambda>x. \<lparr>sm_record = merge r (sm_record x), sm_score = fc_max (sm_score x) score\<rparr>)
     \<lparr>sm_record = r, sm_score = score\<rparr>"

definition put_fact_unit ::
    "genv \<Rightarrow> menv \<Rightarrow> json option \<Rightarrow> FactContextUnit \<Rightarrow> (str \<times> ScoredMemory) list \<Rightarrow> (str \<times> ScoredMemory) list" where
  "put_fact_unit E V f u = fold (\<lambda>r. put_graph_candidate (merge_facts_into E)
       (with_metadata (\<lambda>m. append_graph_fact_metadata E m (graph_fact_metadata E V u))
         (graph_record_to_memory_record r)) (fu_score u))
     (filter (\<lambda>r. metadata_matches (gm_metadata r) f) (fu_evidence_records u))"

definition put_evidence_unit ::
    "genv \<Rightarrow> menv \<Rightarrow> json option \<Rightarrow> EvidenceRecordContextUnit
      \<Rightarrow> (str \<times> ScoredMemory) list \<Rightarrow> (str \<times> ScoredMemory) list" where
  "put_evidence_unit E V f u candidates =
     (if metadata_matches (gm_metadata (eru_record u)) f
      then put_graph_candidate (merge_graph_into E)
        (with_metadata (\<lambda>m. append_graph_match_metadata m (graph_evidence_record_metadata V u))
          (graph_record_to_memory_record (eru_record u))) (eru_score u) candidates
      else candidates)"

definition bundle_candidates ::
    "genv \<Rightarrow> menv \<Rightarrow> json option \<Rightarrow> nat \<Rightarrow> ContextBundle \<Rightarrow> ScoredMemory list" where
  "bundle_candidates E V f limit b = take limit (sort_scored_desc (map snd
     (fold (put_evidence_unit E V f) (cb_evidence_record_context_units b)
       (fold (put_fact_unit E V f) (cb_fact_context_units b) []))))"

definition graph_request :: "MemoryManager \<Rightarrow> SearchMemoryRequest \<Rightarrow> str \<Rightarrow> nat \<Rightarrow> GraphRetrieveContextRequest" where
  "graph_request M q memory_space_id limit =
     \<lparr>gq_memory_space_id = memory_space_id, gq_query = trim (sq_query q), gq_top_k = limit,
      gq_reference_time_ms = None, gq_query_embedding = None, gq_query_embedding_model = None,
      gq_target_subject_entity_name = sq_graph_target_subject q,
      gq_target_evidence_speaker = sq_graph_target_evidence_speaker q,
      gq_seed_limit = gc_seed_limit (rc_graph (mm_config M)),
      gq_max_evidence_records_per_fact = gc_max_evidence_records_per_fact (rc_graph (mm_config M))\<rparr>"

text \<open>The graph's database is the store's; a successful read of it shows that it exists.\<close>

definition in_graph :: "(GraphRepository, 'a) oper \<Rightarrow> (ManagerState, 'a) oper" where
  "in_graph m s = (let (r, g) = m (st_graph s)
     in (r, s\<lparr>st_graph := g, st_store := (case (r, st_store s) of
          (Inr _, Sqlite t) \<Rightarrow> Sqlite (t\<lparr>ss_exists := True\<rparr>) | (_, t) \<Rightarrow> t)\<rparr>))"

definition graph_space :: "SearchMemoryRequest \<Rightarrow> str option" where
  "graph_space q = Option.bind (sq_graph_memory_space_id q) (\<lambda>x. if trim x = [] then None else Some (trim x))"

definition EMPTY_QUERY :: MemoryError where
  "EMPTY_QUERY = MInvalidInput (lit ''search query must not be empty'')"

text \<open>What fails open is an empty channel.\<close>

definition or_empty :: "bool \<Rightarrow> MemoryError \<Rightarrow> (ManagerState, ScoredMemory list) oper" where
  "or_empty fail_open e = (if fail_open then give [] else fail e)"

definition graph_candidates ::
    "genv \<Rightarrow> renv \<Rightarrow> menv \<Rightarrow> MemoryManager \<Rightarrow> SearchMemoryRequest \<Rightarrow> nat
      \<Rightarrow> (ManagerState, ScoredMemory list) oper" where
  "graph_candidates E R V M q limit s =
     (let c = rc_graph (mm_config M); fail_open = gc_fail_open c
      in if \<not> gc_enabled c \<or> limit = 0 then (Inr [], s)
         else if trim (sq_query q) = [] then (Inl EMPTY_QUERY, s)
         else case graph_space q of
             None \<Rightarrow> or_empty fail_open (MInvalidInput
               (lit ''graph retrieval is enabled but graph_memory_space_id is missing'')) s
           | Some memory_space_id \<Rightarrow>
               if \<not> is_sqlite (st_store s) then or_empty fail_open needs_sqlite s
               else case in_graph (retrieve_context E R (graph_request M q memory_space_id limit)) s of
                      (Inr b, s) \<Rightarrow> (Inr (bundle_candidates E V (sq_filter q) limit b), s)
                    | (Inl e, s) \<Rightarrow> or_empty fail_open e s)"

definition fuse_optional_graph_channel ::
    "genv \<Rightarrow> renv \<Rightarrow> menv \<Rightarrow> MemoryManager \<Rightarrow> SearchMemoryRequest \<Rightarrow> ScoredMemory list \<Rightarrow> nat
      \<Rightarrow> (ManagerState, ScoredMemory list) oper" where
  "fuse_optional_graph_channel E R V M q base limit =
     (let c = rc_graph (mm_config M)
      in if \<not> gc_enabled c then give base
         else then_do (graph_candidates E R V M q limit) (\<lambda>graph.
           give (fuse_graph_candidates E base graph limit (gc_weight c) (gc_rerank_with_graph c)
             (gc_allow_graph_only c) (gc_max_graph_only_results c))))"


section \<open>Reranking\<close>

text \<open>The results are cut at \<open>top_k\<close>; without a reranker, or when it fails, the candidates are, if that is allowed.\<close>

definition rerank_candidates ::
    "MemoryManager \<Rightarrow> str \<Rightarrow> ScoredMemory list \<Rightarrow> nat \<Rightarrow> (ManagerState, ScoredMemory list) oper" where
  "rerank_candidates M query candidates top_k s =
     (let fail_open = rk_fail_open (rc_rerank (mm_config M))
      in case mm_reranker M of
           None \<Rightarrow> if fail_open then (Inr (take top_k candidates), s)
             else (Inl (MRerank (lit ''rerank is enabled but no reranker is configured'')), s)
         | Some r \<Rightarrow>
             (case in_wire (rr_rerank r query candidates top_k) s of
                (Inr results, s) \<Rightarrow> (Inr (take top_k results), s)
              | (Inl e, s) \<Rightarrow> if fail_open then (Inr (take top_k candidates), s) else (Inl e, s)))"


section \<open>The modes\<close>

definition mode_needs_sqlite :: "string \<Rightarrow> MemoryError" where
  "mode_needs_sqlite mode = MStoreBackend (lit mode @ lit '' search requires sqlite store backend'')"

definition search_bm25 ::
    "genv \<Rightarrow> renv \<Rightarrow> menv \<Rightarrow> MemoryManager \<Rightarrow> SearchMemoryRequest \<Rightarrow> (ManagerState, ScoredMemory list) oper" where
  "search_bm25 E R V M q =
     (let query = trim (sq_query q)
      in if sq_top_k q = 0 then give []
         else if query = [] then fail EMPTY_QUERY
         else then_do (in_sqlite (mode_needs_sqlite ''Bm25'')
             (sqlite_bm25_candidates E R V query (sq_filter q) (sq_top_k q)))
           (\<lambda>candidates. fuse_optional_graph_channel E R V M q candidates (sq_top_k q)))"

definition search_graph ::
    "genv \<Rightarrow> renv \<Rightarrow> menv \<Rightarrow> MemoryManager \<Rightarrow> SearchMemoryRequest \<Rightarrow> (ManagerState, ScoredMemory list) oper" where
  "search_graph E R V M q =
     (if sq_top_k q = 0 then give []
      else if trim (sq_query q) = [] then fail EMPTY_QUERY
      else graph_candidates E R V M q (sq_top_k q))"

definition hybrid_result_limit :: "MemoryManager \<Rightarrow> nat \<Rightarrow> nat" where
  "hybrid_result_limit M top_k = (let c = rc_rerank (mm_config M)
     in if rk_enabled c then input_limit c top_k else top_k)"

definition search_hybrid_with_progress ::
    "genv \<Rightarrow> renv \<Rightarrow> menv \<Rightarrow> MemoryManager \<Rightarrow> (ManagerState, unit) oper \<Rightarrow> SearchMemoryRequest
      \<Rightarrow> (ManagerState, ScoredMemory list) oper" where
  "search_hybrid_with_progress E R V M on_embedded q =
     (let query = trim (sq_query q); c = mm_config M;
          candidate_k = candidate_limit c (sq_top_k q);
          result_limit = hybrid_result_limit M (sq_top_k q)
      in if sq_top_k q = 0 then give []
         else if query = [] then fail EMPTY_QUERY
         else then_do (in_wire (embed_one (mm_embedder M) query)) (\<lambda>query_embedding.
           then_do on_embedded (\<lambda>_.
           then_do (dense_candidates E V M query_embedding (sq_filter q) candidate_k) (\<lambda>dense.
           then_do (in_sqlite (mode_needs_sqlite ''Hybrid'')
               (sqlite_bm25_candidates E R V query (sq_filter q) candidate_k)) (\<lambda>bm25.
           then_do (if gc_enabled (rc_graph c)
              then fuse_optional_graph_channel E R V M q (fuse_hybrid_candidates dense bm25 result_limit
                (rc_embedding_weight c) (rc_bm25_weight c)) result_limit
              else give (fuse_hybrid_candidates dense bm25 result_limit (rc_embedding_weight c)
                (rc_bm25_weight c))) (\<lambda>candidates.
           if rk_enabled (rc_rerank c) then rerank_candidates M query candidates (sq_top_k q)
           else give candidates))))))"

definition search_hybrid ::
    "genv \<Rightarrow> renv \<Rightarrow> menv \<Rightarrow> MemoryManager \<Rightarrow> SearchMemoryRequest \<Rightarrow> (ManagerState, ScoredMemory list) oper" where
  "search_hybrid E R V M = search_hybrid_with_progress E R V M (give ())"

definition search_dense ::
    "genv \<Rightarrow> renv \<Rightarrow> menv \<Rightarrow> MemoryManager \<Rightarrow> SearchMemoryRequest \<Rightarrow> (ManagerState, ScoredMemory list) oper" where
  "search_dense E R V M q =
     (if sq_top_k q = 0 then give []
      else if trim (sq_query q) = [] then fail EMPTY_QUERY
      else then_do (in_wire (embed_one (mm_embedder M) (trim (sq_query q)))) (\<lambda>query_embedding.
        then_do (dense_candidates E V M query_embedding (sq_filter q) (sq_top_k q)) (\<lambda>candidates.
        fuse_optional_graph_channel E R V M q candidates (sq_top_k q))))"

definition search ::
    "genv \<Rightarrow> renv \<Rightarrow> menv \<Rightarrow> MemoryManager \<Rightarrow> SearchMemoryRequest \<Rightarrow> (ManagerState, ScoredMemory list) oper" where
  "search E R V M = (case rc_mode (mm_config M) of
       Dense \<Rightarrow> search_dense E R V M
     | Bm25 \<Rightarrow> search_bm25 E R V M
     | Graph \<Rightarrow> search_graph E R V M
     | Hybrid \<Rightarrow> search_hybrid E R V M)"


section \<open>Many requests\<close>

text \<open>In the dense mode the queries are embedded in batches before any of them is answered.\<close>

definition search_many_dense ::
    "genv \<Rightarrow> renv \<Rightarrow> menv \<Rightarrow> MemoryManager \<Rightarrow> nat \<Rightarrow> SearchMemoryRequest list
      \<Rightarrow> (ManagerState, ScoredMemory list list) oper" where
  "search_many_dense E R V M batch_size requests =
     (if requests = [] then give []
      else if list_ex (\<lambda>q. trim (sq_query q) = []) requests then fail EMPTY_QUERY
      else then_do (embed_in_batches M batch_size (map (trim \<circ> sq_query) requests)) (\<lambda>query_embeddings.
        if length query_embeddings \<noteq> length requests
        then fail (count_error (length query_embeddings) (length requests) '' search requests'')
        else map_ops (\<lambda>(q, query_embedding).
          if sq_top_k q = 0 then give []
          else then_do (dense_candidates E V M query_embedding (sq_filter q) (sq_top_k q))
            (\<lambda>candidates. fuse_optional_graph_channel E R V M q candidates (sq_top_k q)))
          (zip requests query_embeddings)))"

definition search_many_with_batch_size ::
    "genv \<Rightarrow> renv \<Rightarrow> menv \<Rightarrow> MemoryManager \<Rightarrow> SearchMemoryRequest list \<Rightarrow> nat
      \<Rightarrow> (ManagerState, ScoredMemory list list) oper" where
  "search_many_with_batch_size E R V M requests batch_size =
     (let each = (\<lambda>f. map_ops (\<lambda>q. then_do (f q) (\<lambda>r. then_do (report 1) (\<lambda>_. give r))) requests)
      in case rc_mode (mm_config M) of
           Dense \<Rightarrow> search_many_dense E R V M batch_size requests
         | Bm25 \<Rightarrow> each (search_bm25 E R V M)
         | Graph \<Rightarrow> each (search_graph E R V M)
         | Hybrid \<Rightarrow> map_ops (search_hybrid_with_progress E R V M (report 1)) requests)"

definition search_many ::
    "genv \<Rightarrow> renv \<Rightarrow> menv \<Rightarrow> MemoryManager \<Rightarrow> SearchMemoryRequest list
      \<Rightarrow> (ManagerState, ScoredMemory list list) oper" where
  "search_many E R V M requests = search_many_with_batch_size E R V M requests DEFAULT_EMBEDDING_BATCH_SIZE"

end
