(* ===== verification/MemStoreInv.thy ===== *)
theory MemStoreInv
  imports MemStore GraphReadable
begin

text \<open>
  What the SQLite store of memories guarantees. A repeated operation acts once; the store is an ordered
  list of records with one record per identifier (\<open>holds_records\<close>), which adding, replacing and listing
  implement; its full-text table holds exactly the identifiers and texts of the memories. The interface
  \<open>record_store\<close> states what the manager relies on, and both stores provide it.
\<close>

section \<open>Repetition\<close>

lemma mem_attempt_cases:
  assumes "mem_attempt V create f s = (r, s')"
  shows "ss_attempts s' = Suc (ss_attempts s) \<and> ss_sleeps_ms s' = ss_sleeps_ms s
     \<and> ss_create_if_missing s' = ss_create_if_missing s
     \<and> (case r of Inl e \<Rightarrow> ss_db s' = ss_db s | Inr a \<Rightarrow> f (ss_db s) = (Inr a, ss_db s'))"
  using assms by (auto simp: mem_attempt_def Let_def split: option.splits if_splits prod.splits sum.splits)

lemma retry_cases:
  assumes "retry_sqlite_locked V (mem_attempt V create f) delay left s = (r, s')"
  shows "ss_attempts s' \<le> ss_attempts s + Suc left \<and> ss_create_if_missing s' = ss_create_if_missing s
     \<and> (case r of Inl e \<Rightarrow> ss_db s' = ss_db s | Inr a \<Rightarrow> f (ss_db s) = (Inr a, ss_db s'))"
  using assms
proof (induction left arbitrary: delay s)
  case 0
  then show ?case
    by (subst (asm) retry_sqlite_locked.simps)
       (auto dest!: mem_attempt_cases split: prod.splits sum.splits)
next
  case (Suc left)
  obtain r1 s1 where s1: "mem_attempt V create f s = (r1, s1)" by (cases "mem_attempt V create f s")
  note a = mem_attempt_cases [OF s1]
  show ?case
  proof (cases r1)
    case (Inr a')
    with Suc.prems s1 a show ?thesis by (subst (asm) retry_sqlite_locked.simps) auto
  next
    case (Inl e)
    show ?thesis
    proof (cases "is_retryable_sqlite_lock V e")
      case False
      with Suc.prems s1 a Inl show ?thesis by (subst (asm) retry_sqlite_locked.simps) auto
    next
      case True
      let ?s = "s1\<lparr>ss_sleeps_ms := ss_sleeps_ms s1 @ [delay]\<rparr>"
      from True Inl Suc.prems s1
      have "retry_sqlite_locked V (mem_attempt V create f)
          (min (delay * 2) SQLITE_LOCK_RETRY_MAX_DELAY) left ?s = (r, s')"
        by (subst (asm) retry_sqlite_locked.simps) simp
      from Suc.IH [OF this] a Inl show ?thesis by (auto split: sum.splits)
    qed
  qed
qed

lemma mem_run_Inr:
  assumes "mem_run_sqlite_operation V f s = (Inr a, s')"
  shows "f (ss_db s) = (Inr a, ss_db s')"
  using retry_cases [OF assms [unfolded mem_run_sqlite_operation_def]] by simp

lemma mem_run_Inl:
  assumes "mem_run_sqlite_operation V f s = (Inl e, s')"
  shows "ss_db s' = ss_db s"
  using retry_cases [OF assms [unfolded mem_run_sqlite_operation_def]] by simp

lemma mem_run_attempts:
  "ss_attempts (snd (mem_run_sqlite_operation V f s)) \<le> ss_attempts s + 4"
  using retry_cases [of V "ss_create_if_missing s" f SQLITE_LOCK_RETRY_INITIAL_DELAY SQLITE_LOCK_RETRY_ATTEMPTS s]
  by (cases "mem_run_sqlite_operation V f s")
     (simp add: mem_run_sqlite_operation_def SQLITE_LOCK_RETRY_ATTEMPTS_def)

lemma mem_run_keeps:
  assumes "P (ss_db s)" "\<And>a db. f (ss_db s) = (Inr a, db) \<Longrightarrow> P db"
  shows "P (ss_db (snd (mem_run_sqlite_operation V f s)))"
proof (cases "mem_run_sqlite_operation V f s")
  case (Pair r s')
  then show ?thesis using assms mem_run_Inr [of V f s _ s'] mem_run_Inl [of V f s _ s']
    by (cases r) auto
qed

text \<open>Without a fault the operation acts at once.\<close>

lemma mem_run_no_fault:
  assumes "v_fault V (ss_attempts s) = None" "ss_exists s \<or> ss_create_if_missing s" "f (ss_db s) = (Inr a, db)"
  shows "mem_run_sqlite_operation V f s
    = (Inr a, s\<lparr>ss_attempts := Suc (ss_attempts s), ss_exists := True, ss_db := db\<rparr>)"
  using assms unfolding mem_run_sqlite_operation_def
  by (subst retry_sqlite_locked.simps) (auto simp: mem_attempt_def Let_def split: sum.splits)


section \<open>Rows and records\<close>

text \<open>
  \<open>serde_json\<close> gives back the value it wrote, unless it nests too deep for its parser: a property of one
  value, asked of the metadata of the records concerned and of no other.
\<close>

definition reads_back :: "genv \<Rightarrow> json \<Rightarrow> bool" where
  "reads_back E v \<longleftrightarrow> g_from_str E (g_to_string E v) = Inr v"

text \<open>What a row can hold of a record: an embedding whose length is a machine number and metadata that
  reads back.\<close>

definition storable :: "genv \<Rightarrow> MemoryRecord \<Rightarrow> bool" where
  "storable E r \<longleftrightarrow> length (mr_embedding r) < 2 ^ 64 \<and> reads_back E (mr_metadata r)"

text \<open>The record a row was written from.\<close>

definition row_holds :: "genv \<Rightarrow> MemoryRow \<Rightarrow> MemoryRecord \<Rightarrow> bool" where
  "row_holds E m r \<longleftrightarrow> m = row_of_record E r \<and> storable E r"

lemma chunks4_to_embedding: "mem_blob_to_embedding (embedding_to_blob v) = Inr v"
  by (simp add: mem_blob_to_embedding_def length_blob chunks4_blob comp_def)

lemma row_holds_readable:
  assumes "row_holds E m r"
  shows "record_of_memory_row E m = Inr r"
  using assms
  by (simp add: row_holds_def record_of_memory_row_def row_of_record_def parse_json_def storable_def reads_back_def
      chunks4_to_embedding)

lemma row_of_record_simps [simp]:
  "row_id (row_of_record E r) = mr_id r" "row_text (row_of_record E r) = mr_text r"
  "row_scope_id (row_of_record E r) = extract_scope_id (mr_metadata r)"
  by (simp_all add: row_of_record_def)

text \<open>The records of the store, as the list it stands for; adding a record to such a list.\<close>

definition holds_records :: "genv \<Rightarrow> MemoryDb \<Rightarrow> MemoryRecord list \<Rightarrow> bool" where
  "holds_records E db rs \<longleftrightarrow> list_all2 (row_holds E) (md_memories db) rs \<and> distinct (map mr_id rs)
     \<and> distinct (map fst (md_fts db)) \<and> set (md_fts db) = (\<lambda>r. (mr_id r, mr_text r)) ` set rs"

definition put_record :: "MemoryRecord \<Rightarrow> MemoryRecord list \<Rightarrow> MemoryRecord list" where
  "put_record r rs = (if mr_id r \<in> mr_id ` set rs
     then map (\<lambda>r'. if mr_id r' = mr_id r then r\<lparr>mr_created_at_ms := mr_created_at_ms r'\<rparr> else r') rs
     else rs @ [r])"

lemma put_record_map_ids:
  "map mr_id (put_record r rs)
     = (if mr_id r \<in> mr_id ` set rs then map mr_id rs else map mr_id rs @ [mr_id r])"
proof -
  have "mr_id (if mr_id r' = mr_id r then r\<lparr>mr_created_at_ms := mr_created_at_ms r'\<rparr> else r') = mr_id r'" for r'
    by simp
  then show ?thesis by (simp add: put_record_def comp_def)
qed

lemma put_record_ids: "mr_id ` set (put_record r rs) = insert (mr_id r) (mr_id ` set rs)"
  using arg_cong [OF put_record_map_ids [of r rs], of set] by (auto split: if_splits)

lemma put_record_distinct: "distinct (map mr_id rs) \<Longrightarrow> distinct (map mr_id (put_record r rs))"
  by (simp add: put_record_map_ids)

lemma fold_put_record_distinct:
  "distinct (map mr_id rs) \<Longrightarrow> distinct (map mr_id (fold put_record new rs))"
  by (induction new arbitrary: rs) (simp_all add: put_record_distinct)

lemma put_record_pairs:
  "(\<lambda>x. (mr_id x, mr_text x)) ` set (put_record r rs)
     = insert (mr_id r, mr_text r) {p \<in> (\<lambda>x. (mr_id x, mr_text x)) ` set rs. fst p \<noteq> mr_id r}"
proof (cases "mr_id r \<in> mr_id ` set rs")
  case True
  have "(\<lambda>x. (mr_id x, mr_text x)) ` set (put_record r rs)
      = (\<lambda>x. if mr_id x = mr_id r then (mr_id r, mr_text r) else (mr_id x, mr_text x)) ` set rs"
    unfolding put_record_def using True by (simp only: if_True set_map image_image, intro image_cong) simp_all
  also have "\<dots> = insert (mr_id r, mr_text r) {p \<in> (\<lambda>x. (mr_id x, mr_text x)) ` set rs. fst p \<noteq> mr_id r}"
    using True by auto
  finally show ?thesis .
next
  case False
  then have "\<forall>x \<in> set rs. mr_id x \<noteq> mr_id r" by (metis image_eqI)
  with False show ?thesis by (auto simp: put_record_def)
qed

lemma row_holds_id: "row_holds E m r \<Longrightarrow> row_id m = mr_id r"
  by (simp add: row_holds_def)

lemma list_all2_ids: "list_all2 (row_holds E) ms rs \<Longrightarrow> map row_id ms = map mr_id rs"
  by (induction rule: list_all2_induct) (simp_all add: row_holds_id)

lemma holds_upsert_row:
  assumes "list_all2 (row_holds E) ms rs" "storable E r"
  shows "list_all2 (row_holds E) (upsert_row (row_of_record E r) ms) (put_record r rs)"
proof -
  have ids: "(\<exists>m \<in> set ms. row_id m = mr_id r) \<longleftrightarrow> mr_id r \<in> mr_id ` set rs"
    using list_all2_ids [OF assms(1)] by (metis (no_types, lifting) image_iff list.set_map)
  have upd: "list_all2 (row_holds E)
      (map (\<lambda>m. if row_id m = mr_id r then (row_of_record E r)\<lparr>row_created_at_ms := row_created_at_ms m\<rparr> else m) ms)
      (map (\<lambda>x. if mr_id x = mr_id r then r\<lparr>mr_created_at_ms := mr_created_at_ms x\<rparr> else x) rs)"
    using assms(1)
    by (induction rule: list_all2_induct) (use assms(2) in \<open>auto simp: row_holds_def row_of_record_def storable_def\<close>)
  have "row_holds E (row_of_record E r) r" using assms(2) by (simp add: row_holds_def)
  then have app: "list_all2 (row_holds E) (ms @ [row_of_record E r]) (rs @ [r])"
    using assms(1) by (intro list_all2_appendI) simp_all
  show ?thesis
    using ids upd app by (simp add: upsert_row_def put_record_def)
qed

lemma holds_upsert:
  assumes "holds_records E db rs" "storable E r"
  shows "holds_records E (upsert_record E r db) (put_record r rs)"
proof -
  have "distinct (map fst (filter (\<lambda>f. fst f \<noteq> mr_id r) (md_fts db)))"
    using assms(1) by (simp add: holds_records_def distinct_map_filter)
  with assms show ?thesis
    by (auto simp: holds_records_def upsert_record_def holds_upsert_row put_record_distinct
        put_record_pairs)
qed

lemma holds_upserts:
  assumes "holds_records E db rs" "list_all (storable E) new"
  shows "holds_records E (fold (upsert_record E) new db) (fold put_record new rs)"
  using assms by (induction new arbitrary: db rs) (auto simp: holds_upsert)

lemma holds_empty: "holds_records E \<lparr>md_memories = [], md_fts = []\<rparr> []"
  by (simp add: holds_records_def)

lemma fold_put_fresh:
  assumes "distinct (map mr_id (rs @ new))"
  shows "fold put_record new rs = rs @ new"
  using assms
proof (induction new arbitrary: rs)
  case (Cons r new)
  then have "put_record r rs = rs @ [r]" by (auto simp: put_record_def)
  with Cons show ?case by simp
qed simp

text \<open>Listing gives the records.\<close>

lemma collect_ok_list_all2:
  assumes "list_all2 (\<lambda>x y. f x = Inr y) xs ys"
  shows "collect_ok f xs = Inr ys"
  using assms by (induction rule: list_all2_induct) auto

lemma list_records_holds:
  assumes "holds_records E db rs"
  shows "list_records_db E db = Inr rs"
proof -
  have "list_all2 (\<lambda>m r. record_of_memory_row E m = Inr r) (md_memories db) rs"
    using assms row_holds_readable by (auto simp: holds_records_def intro: list_all2_mono)
  then show ?thesis by (simp add: list_records_db_def collect_ok_list_all2)
qed


section \<open>The SQLite store as a list of records\<close>

definition sqlite_holds :: "genv \<Rightarrow> SqliteMemoryStore \<Rightarrow> MemoryRecord list \<Rightarrow> bool" where
  "sqlite_holds E s rs \<longleftrightarrow> holds_records E (ss_db s) rs"

lemma holds_storable: "holds_records E db rs \<Longrightarrow> list_all (storable E) rs"
  by (auto simp: holds_records_def list_all2_conv_all_nth list_all_length row_holds_def)

lemma sqlite_list:
  assumes "sqlite_holds E s rs"
  shows "sqlite_list_records E V s = (Inr xs, s') \<Longrightarrow> xs = rs \<and> sqlite_holds E s' rs"
    and "sqlite_list_records E V s = (Inl e, s') \<Longrightarrow> sqlite_holds E s' rs"
  using assms list_records_holds [of E "ss_db s" rs]
  by (auto simp: sqlite_holds_def sqlite_list_records_def dest: mem_run_Inr mem_run_Inl)

lemma sqlite_add:
  assumes "sqlite_holds E s rs" "list_all (storable E) new" "sqlite_add_records E V new s = (Inr u, s')"
  shows "sqlite_holds E s' (fold put_record new rs)"
proof -
  have "ss_db s' = fold (upsert_record E) new (ss_db s)"
    using mem_run_Inr [OF assms(3) [unfolded sqlite_add_records_def]] by simp
  with assms(1) holds_upserts [OF _ assms(2), of "ss_db s" rs] show ?thesis by (simp add: sqlite_holds_def)
qed

lemma sqlite_add_one: "sqlite_add_record E V r = sqlite_add_records E V [r]"
  by (simp add: sqlite_add_record_def sqlite_add_records_def)

lemma sqlite_replace:
  assumes "sqlite_holds E s rs" "list_all (storable E) new" "sqlite_replace_all E V new s = (Inr u, s')"
  shows "sqlite_holds E s' (fold put_record new [])"
proof -
  have "ss_db s' = fold (upsert_record E) new \<lparr>md_memories = [], md_fts = []\<rparr>"
    using mem_run_Inr [OF assms(3) [unfolded sqlite_replace_all_def]] by simp
  with assms(1) holds_upserts [OF holds_empty assms(2)] show ?thesis by (simp add: sqlite_holds_def)
qed

lemma sqlite_failed:
  assumes "sqlite_holds E s rs"
  shows "sqlite_add_records E V new s = (Inl e, s') \<Longrightarrow> sqlite_holds E s' rs"
    and "sqlite_replace_all E V new s = (Inl e, s') \<Longrightarrow> sqlite_holds E s' rs"
  using assms by (auto simp: sqlite_holds_def sqlite_add_records_def sqlite_replace_all_def dest: mem_run_Inl)


section \<open>The file store as a list of records\<close>

text \<open>What \<open>serde_json\<close> writes for the record is one line, not blank, that it reads back. It need not be so
  of every record: a number of the embedding that is not finite is written as \<open>null\<close>.\<close>

definition line_reads_back :: "menv \<Rightarrow> MemoryRecord \<Rightarrow> bool" where
  "line_reads_back V r \<longleftrightarrow> v_parse_line V (v_line V r) = Inr r \<and> 10 \<notin> set (v_line V r)
     \<and> last (v_line V r) \<noteq> 13 \<and> trim (v_line V r) \<noteq> []"

definition file_holds :: "menv \<Rightarrow> FileMemoryStore \<Rightarrow> MemoryRecord list \<Rightarrow> bool" where
  "file_holds V s rs \<longleftrightarrow> list_all (line_reads_back V) rs
     \<and> (fm_content s = Some (concat (map (\<lambda>r. v_line V r @ [10]) rs)) \<or> fm_content s = None \<and> rs = [])"

lemma split_lines_line:
  assumes "10 \<notin> set l"
  shows "split_lines (l @ 10 # rest) current
    = (let x = current @ l in if x \<noteq> [] \<and> last x = 13 then butlast x else x) # split_lines rest []"
  using assms by (induction l arbitrary: current) (auto simp: Let_def)

lemma file_lines:
  assumes "list_all (line_reads_back V) rs"
  shows "filter (\<lambda>l. trim l \<noteq> []) (split_lines (concat (map (\<lambda>r. v_line V r @ [10]) rs)) []) = map (v_line V) rs"
  using assms
proof (induction rs)
  case (Cons r rs)
  then have r: "10 \<notin> set (v_line V r)" "last (v_line V r) \<noteq> 13" "trim (v_line V r) \<noteq> []"
    by (auto simp: line_reads_back_def)
  have "concat (map (\<lambda>r. v_line V r @ [10]) (r # rs)) = v_line V r @ 10 # concat (map (\<lambda>r. v_line V r @ [10]) rs)"
    by simp
  with r Cons show ?case by (simp add: split_lines_line Let_def)
qed simp

lemma collect_lines:
  assumes "list_all (line_reads_back V) rs"
  shows "collect_ok (\<lambda>l. case v_parse_line V l of Inl e \<Rightarrow> Inl (MJson e) | Inr r \<Rightarrow> Inr r) (map (v_line V) rs) = Inr rs"
  using assms by (induction rs) (auto simp: line_reads_back_def)

lemma file_list:
  assumes "file_holds V s rs"
  shows "file_list_records V s = (Inr xs, s') \<Longrightarrow> xs = rs \<and> file_holds V s' rs"
    and "file_list_records V s = (Inl e, s') \<Longrightarrow> file_holds V s' rs"
  using assms file_lines [of V rs] collect_lines [of V rs]
  by (auto simp: file_holds_def file_list_records_def Let_def split: option.splits)

lemma file_replace:
  assumes "list_all (line_reads_back V) new" "file_replace_all V new s = (Inr u, s')"
  shows "file_holds V s' new"
  using assms by (auto simp: file_holds_def file_replace_all_def Let_def split: option.splits prod.splits)


section \<open>The interface of a store\<close>

text \<open>
  What deleting relies on: a listing gives the records the store holds, and writing back a part of them
  leaves that part.
\<close>

locale record_store =
  fixes list_op :: "('s, MemoryRecord list) oper"
    and replace_op :: "MemoryRecord list \<Rightarrow> ('s, unit) oper"
    and holds :: "'s \<Rightarrow> MemoryRecord list \<Rightarrow> bool"
  assumes listed: "holds s rs \<Longrightarrow> list_op s = (Inr xs, s') \<Longrightarrow> xs = rs \<and> holds s' rs"
    and replaced: "holds s rs \<Longrightarrow> replace_op (filter P rs) s = (Inr u, s') \<Longrightarrow> holds s' (filter P rs)"
begin

lemma deletes:
  assumes "holds s rs"
    and "then_do list_op (\<lambda>records.
        let retained = filter P records; deleted = length records - length retained
        in if deleted > 0 then then_do (replace_op retained) (\<lambda>_. give deleted) else give deleted) s = (Inr n, s')"
  shows "holds s' (filter P rs) \<and> n = length rs - length (filter P rs)"
proof -
  let ?retained = "filter P rs"
  let ?deleted = "length rs - length ?retained"
  obtain xs s1 where l: "list_op s = (Inr xs, s1)"
      and rest: "(let retained = filter P xs; deleted = length xs - length retained
        in if deleted > 0 then then_do (replace_op retained) (\<lambda>_. give deleted) else give deleted) s1 = (Inr n, s')"
    using assms(2) by (rule then_do_InrE)
  note xs = listed [OF assms(1) l]
  then have s1: "holds s1 rs"
      "(if ?deleted > 0 then then_do (replace_op ?retained) (\<lambda>_. give ?deleted) else give ?deleted) s1 = (Inr n, s')"
    using rest by (simp_all add: Let_def)
  show ?thesis
  proof (cases "?deleted > 0")
    case True
    with s1 replaced [OF s1(1), of P] show ?thesis by (auto simp: then_do_Inr)
  next
    case False
    then have "length ?retained = length rs" using length_filter_le [of P rs] by linarith
    then have "\<forall>x \<in> set rs. P x" using length_filter_less [of _ rs P] by fastforce
    then have "?retained = rs" by simp
    with False s1 show ?thesis by simp
  qed
qed

end

interpretation sqlite_store: record_store "sqlite_list_records E V" "sqlite_replace_all E V" "sqlite_holds E"
  for E V
proof unfold_locales
  fix s rs P u s'
  assume a: "sqlite_holds E s rs" "sqlite_replace_all E V (filter P rs) s = (Inr u, s')"
  then have "distinct (map mr_id rs)" "list_all (storable E) rs"
    using holds_storable by (auto simp: sqlite_holds_def holds_records_def)
  then have "list_all (storable E) (filter P rs)" "fold put_record (filter P rs) [] = filter P rs"
    using fold_put_fresh [of "[]" "filter P rs"] by (auto simp: list_all_iff distinct_map_filter)
  with sqlite_replace [OF a(1) _ a(2)] show "sqlite_holds E s' (filter P rs)" by simp
qed (rule sqlite_list(1))

interpretation file_store: record_store "file_list_records V" "file_replace_all V" "file_holds V" for V
proof unfold_locales
  fix s rs P u s'
  assume "file_holds V s rs" "file_replace_all V (filter P rs) s = (Inr u, s')"
  then show "file_holds V s' (filter P rs)"
    by (intro file_replace [of V "filter P rs" s u]) (auto simp: file_holds_def list_all_iff)
qed (rule file_list(1))

text \<open>Either store, as the manager sees it.\<close>

definition store_holds :: "genv \<Rightarrow> menv \<Rightarrow> MemoryStore \<Rightarrow> MemoryRecord list \<Rightarrow> bool" where
  "store_holds E V s rs = (case s of Sqlite t \<Rightarrow> sqlite_holds E t rs | File t \<Rightarrow> file_holds V t rs)"

interpretation any_store: record_store "store_list_records E V" "store_replace_all E V" "store_holds E V" for E V
proof unfold_locales
  fix s rs xs s'
  assume a: "store_holds E V s rs" "store_list_records E V s = (Inr xs, s')"
  show "xs = rs \<and> store_holds E V s' rs"
  proof (cases s)
    case (Sqlite t)
    with a obtain t' where "sqlite_list_records E V t = (Inr xs, t')" "s' = Sqlite t'"
      by (auto simp: store_list_records_def on_store_def split: prod.splits)
    with a Sqlite show ?thesis using sqlite_store.listed [of E t rs V xs t'] by (simp add: store_holds_def)
  next
    case (File t)
    with a obtain t' where "file_list_records V t = (Inr xs, t')" "s' = File t'"
      by (auto simp: store_list_records_def on_store_def split: prod.splits)
    with a File show ?thesis using file_store.listed [of V t rs xs t'] by (simp add: store_holds_def)
  qed
next
  fix s rs P u s'
  assume a: "store_holds E V s rs" "store_replace_all E V (filter P rs) s = (Inr u, s')"
  show "store_holds E V s' (filter P rs)"
  proof (cases s)
    case (Sqlite t)
    with a obtain t' where "sqlite_replace_all E V (filter P rs) t = (Inr u, t')" "s' = Sqlite t'"
      by (auto simp: store_replace_all_def on_store_def split: prod.splits)
    with a Sqlite show ?thesis using sqlite_store.replaced [of E t rs V P u t'] by (simp add: store_holds_def)
  next
    case (File t)
    with a obtain t' where "file_replace_all V (filter P rs) t = (Inr u, t')" "s' = File t'"
      by (auto simp: store_replace_all_def on_store_def split: prod.splits)
    with a File show ?thesis using file_store.replaced [of V t rs P u t'] by (simp add: store_holds_def)
  qed
qed

end
