(* ===== verification/MemResults.thy ===== *)
theory MemResults
  imports MemSearch MemStoreInv
begin

text \<open>
  What a search returns: every channel keeps to the filter of the request and to its limit, fusion and
  reranking only choose among the candidates. The lemmas speak of a property \<open>Q\<close> of records that adding
  graph metadata preserves, so that they serve the filter, the identifiers and the texts alike.
\<close>

section \<open>Metadata outside the graph's keys\<close>

definition GRAPH_KEYS :: "str set" where
  "GRAPH_KEYS = {GRAPH_FACTS_METADATA_KEY, GRAPH_FACTS_TRUNCATED_METADATA_KEY, GRAPH_MATCHES_METADATA_KEY,
     lit ''source_agent_id''}"

lemma object_get: "json_get v k = Some x \<Longrightarrow> map_of (ensure_metadata_object v) k = Some x"
  by (cases v) (simp_all add: ensure_metadata_object_def)

lemma append_fact_keeps:
  assumes "json_get m k = Some v" "k \<notin> GRAPH_KEYS"
  shows "json_get (append_graph_fact_metadata E m g) k = Some v"
  using assms object_get [OF assms(1)] by (auto simp: append_graph_fact_metadata_def Let_def GRAPH_KEYS_def)

lemma append_match_keeps:
  assumes "json_get m k = Some v" "k \<notin> GRAPH_KEYS"
  shows "json_get (append_graph_match_metadata m g) k = Some v"
  using assms object_get [OF assms(1)] by (auto simp: append_graph_match_metadata_def Let_def GRAPH_KEYS_def)

lemma fold_keeps:
  assumes "P m" "\<And>g m. P m \<Longrightarrow> P (f g m)"
  shows "P (fold f gs m)"
  using assms by (induction gs arbitrary: m) auto

lemma merge_facts_keeps:
  assumes "json_get m k = Some v" "k \<notin> GRAPH_KEYS"
  shows "json_get (merge_graph_facts_metadata E m src) k = Some v"
proof -
  have "json_get (JObject (obj_insert GRAPH_FACTS_TRUNCATED_METADATA_KEY (JBool True)
      (ensure_metadata_object m))) k = Some v"
    using assms object_get [OF assms(1)] by (auto simp: GRAPH_KEYS_def)
  with assms show ?thesis
    by (auto simp: merge_graph_facts_metadata_def append_fact_keeps split: option.split
        intro!: fold_keeps [where P = "\<lambda>x. json_get x k = Some v"])
qed

lemma merge_matches_keeps:
  assumes "json_get m k = Some v" "k \<notin> GRAPH_KEYS"
  shows "json_get (merge_graph_matches_metadata m src) k = Some v"
  using assms
  by (auto simp: merge_graph_matches_metadata_def append_match_keeps split: option.split
      intro!: fold_keeps [where P = "\<lambda>x. json_get x k = Some v"])


section \<open>Properties of the records\<close>

definition merge_stable :: "genv \<Rightarrow> (MemoryRecord \<Rightarrow> bool) \<Rightarrow> bool" where
  "merge_stable E Q \<longleftrightarrow> (\<forall>r x. Q r \<longrightarrow> Q (merge_graph_into E x r) \<and> Q (merge_facts_into E x r))"

definition all_records :: "(MemoryRecord \<Rightarrow> bool) \<Rightarrow> ScoredMemory list \<Rightarrow> bool" where
  "all_records Q cs \<longleftrightarrow> (\<forall>c \<in> set cs. Q (sm_record c))"

lemma all_records_simps [simp]:
  "all_records Q []" "all_records Q (c # cs) \<longleftrightarrow> Q (sm_record c) \<and> all_records Q cs"
  "all_records Q (cs @ ds) \<longleftrightarrow> all_records Q cs \<and> all_records Q ds"
  "all_records Q (sort_scored_desc cs) \<longleftrightarrow> all_records Q cs"
  by (auto simp: all_records_def)

lemma all_records_take: "all_records Q cs \<Longrightarrow> all_records Q (take n cs)"
  by (auto simp: all_records_def dest: in_set_takeD)

lemma all_records_subset: "set cs \<subseteq> set ds \<Longrightarrow> all_records Q ds \<Longrightarrow> all_records Q cs"
  by (auto simp: all_records_def)

text \<open>The property the filter gives: a key outside the graph's keeps its value.\<close>

definition has_value :: "str \<Rightarrow> json \<Rightarrow> MemoryRecord \<Rightarrow> bool" where
  "has_value k v r \<longleftrightarrow> json_get (mr_metadata r) k = Some v"

lemma has_value_stable: "k \<notin> GRAPH_KEYS \<Longrightarrow> merge_stable E (has_value k v)"
  by (auto simp: merge_stable_def has_value_def merge_graph_into_def merge_facts_into_def with_metadata_def
      merge_facts_keeps merge_matches_keeps)

lemma id_stable: "merge_stable E (\<lambda>r. P (mr_id r) (mr_text r))"
  by (simp add: merge_stable_def merge_graph_into_def merge_facts_into_def with_metadata_def)


section \<open>Dense and full-text candidates\<close>

lemma normalize_records:
  "map sm_record (normalize_lower_is_better_scores cs) = map sm_record cs"
  by (simp add: normalize_lower_is_better_scores_def Let_def case_prod_beta comp_def)

lemma all_records_map: "all_records Q cs \<longleftrightarrow> list_all Q (map sm_record cs)"
  by (simp add: all_records_def list_all_iff)

lemma all_records_normalize [simp]: "all_records Q (normalize_lower_is_better_scores cs) \<longleftrightarrow> all_records Q cs"
  by (simp add: all_records_map normalize_records del: all_records_simps)

lemma filter_has_value:
  assumes "json_get f k = Some v"
  shows "all_records (has_value k v) (filter (\<lambda>c. metadata_matches (mr_metadata (sm_record c)) (Some f)) cs)"
  using metadata_matches_key [OF _ assms] by (auto simp: all_records_def has_value_def)

lemma bm25_db_result:
  assumes "bm25_candidates_db E R V query f limit db = (Inr cs)"
  shows "length cs \<le> limit \<and> (\<forall>g k v. f = Some g \<longrightarrow> json_get g k = Some v \<longrightarrow> all_records (has_value k v) cs)"
proof -
  obtain ds where "cs = take limit (normalize_lower_is_better_scores
      (filter (\<lambda>c. metadata_matches (mr_metadata (sm_record c)) f) ds))"
    using assms by (auto simp: bm25_candidates_db_def)
  then show ?thesis by (auto intro!: all_records_take filter_has_value)
qed

lemma dense_db_result:
  assumes "dense_candidates_db E V query f limit db = (Inr cs)"
  shows "length cs \<le> limit \<and> (\<forall>g k v. f = Some g \<longrightarrow> json_get g k = Some v \<longrightarrow> all_records (has_value k v) cs)"
proof -
  obtain ds where "cs = take limit (filter (\<lambda>c. metadata_matches (mr_metadata (sm_record c)) f) ds)"
    using assms by (auto simp: dense_candidates_db_def split: if_splits)
  then show ?thesis by (auto intro!: all_records_take filter_has_value)
qed

lemma collect_ok_set: "collect_ok f xs = Inr ys \<Longrightarrow> y \<in> set ys \<Longrightarrow> \<exists>x \<in> set xs. f x = Inr y"
  by (induction xs arbitrary: ys) auto

lemma collect_ok_length: "collect_ok f xs = Inr ys \<Longrightarrow> length ys = length xs"
  by (induction xs arbitrary: ys) auto

lemma score_records_result:
  assumes "score_records query f limit records = (Inr cs)"
  shows "length cs \<le> limit \<and> (\<forall>g k v. f = Some g \<longrightarrow> json_get g k = Some v \<longrightarrow> all_records (has_value k v) cs)"
proof -
  obtain ds where ds: "collect_ok (\<lambda>r. if length (mr_embedding r) \<noteq> length query
         then Inl (dimension_mismatch (length query) r)
         else Inr \<lparr>sm_record = r, sm_score = cosine_similarity query (mr_embedding r)\<rparr>)
       (filter (\<lambda>r. metadata_matches (mr_metadata r) f) records) = Inr ds"
    and cs: "cs = take limit (sort_scored_desc ds)"
    using assms by (auto simp: score_records_def)
  have "metadata_matches (mr_metadata (sm_record c)) f" if "c \<in> set ds" for c
    using collect_ok_set [OF ds that] by (auto split: if_splits)
  then have "all_records (has_value k v) ds" if "f = Some g" "json_get g k = Some v" for g k v
    using that metadata_matches_key [OF _ that(2)] by (auto simp: all_records_def has_value_def)
  with cs show ?thesis by (auto intro!: all_records_take)
qed

text \<open>The result of a channel: within the limit and the filter, but for the keys \<open>K\<close>.\<close>

definition channel_ok :: "str set \<Rightarrow> json option \<Rightarrow> nat \<Rightarrow> ScoredMemory list \<Rightarrow> bool" where
  "channel_ok K f limit cs \<longleftrightarrow> length cs \<le> limit
     \<and> (\<forall>g k v. f = Some g \<longrightarrow> json_get g k = Some v \<longrightarrow> k \<notin> K \<longrightarrow> all_records (has_value k v) cs)"

lemma channel_ok_Nil [simp]: "channel_ok K f limit []"
  by (simp add: channel_ok_def)

lemma channel_ok_take: "channel_ok K f l cs \<Longrightarrow> channel_ok K f n (take n cs)"
  by (auto simp: channel_ok_def intro: all_records_take)

lemma sqlite_run_result:
  assumes "mem_run_sqlite_operation V (\<lambda>db. (f db, db)) t = (Inr cs, t')"
  shows "\<exists>db. f db = Inr cs"
  using mem_run_Inr [OF assms] by auto

lemma sqlite_bm25_ok:
  assumes "sqlite_bm25_candidates E R V query f limit t = (Inr cs, t')"
  shows "channel_ok K f limit cs"
  using assms bm25_db_result
  by (auto simp: sqlite_bm25_candidates_def Let_def channel_ok_def split: if_splits dest!: sqlite_run_result)

lemma sqlite_dense_ok:
  assumes "sqlite_dense_candidates E V query f limit t = (Inr cs, t')"
  shows "channel_ok K f limit cs"
  using assms dense_db_result
  by (auto simp: sqlite_dense_candidates_def Let_def channel_ok_def split: if_splits dest!: sqlite_run_result)

lemma in_sqlite_Inr:
  assumes "in_sqlite e m s = (Inr a, s')" obtains t t' where "st_store s = Sqlite t" "m t = (Inr a, t')"
  using assms by (auto simp: in_sqlite_def split: MemoryStore.splits prod.splits)

lemma dense_candidates_ok:
  assumes "dense_candidates E V M query f limit s = (Inr cs, s')"
  shows "channel_ok K f limit cs"
proof (cases "st_store s")
  case (Sqlite t)
  with assms show ?thesis
    by (auto simp: dense_candidates_def then_do_Inr elim!: in_sqlite_Inr dest: sqlite_dense_ok)
next
  case (File t)
  with assms show ?thesis
    using score_records_result by (auto simp: dense_candidates_def then_do_Inr channel_ok_def)
qed


section \<open>Hybrid fusion\<close>

lemma update_all:
  assumes "\<forall>(k, v) \<in> set al. P k v" "P k v"
  shows "\<forall>(k', v') \<in> set (AList.update k v al). P k' v'"
  using assms by (induction al) auto

lemma hybrid_map_all:
  assumes "all_records Q dense" "all_records Q bm25"
  shows "\<forall>(k, h) \<in> set (hybrid_map dense bm25). Q (hc_record h)"
proof -
  let ?P = "\<lambda>k h. Q (hc_record h)"
  have d: "\<forall>(k, h) \<in> set (fold (\<lambda>c. AList.update (mr_id (sm_record c))
         \<lparr>hc_record = sm_record c, hc_dense_score = Some (sm_score c), hc_bm25_score = None\<rparr>) dense al). ?P k h"
    if "all_records Q dense" "\<forall>(k, h) \<in> set al. ?P k h" for al dense
    using that
  proof (induction dense arbitrary: al)
    case (Cons c dense)
    show ?case unfolding fold_Cons comp_apply
      by (rule Cons.IH [OF _ update_all [where P = ?P]]) (use Cons.prems in simp_all)
  qed simp
  have b: "\<forall>(k, h) \<in> set (fold (\<lambda>c. upsert (mr_id (sm_record c)) (\<lambda>h. h\<lparr>hc_bm25_score := Some (sm_score c)\<rparr>)
         \<lparr>hc_record = sm_record c, hc_dense_score = None, hc_bm25_score = Some (sm_score c)\<rparr>) bm25 al). ?P k h"
    if "all_records Q bm25" "\<forall>(k, h) \<in> set al. ?P k h" for al bm25
    using that
  proof (induction bm25 arbitrary: al)
    case (Cons c bm25)
    show ?case unfolding fold_Cons comp_apply
      by (rule Cons.IH [OF _ upsert_all [where P = ?P]]) (use Cons.prems in auto)
  qed simp
  show ?thesis unfolding hybrid_map_def by (rule b [OF assms(2) d [OF assms(1)]]) simp
qed

lemma fuse_hybrid_all:
  assumes "all_records Q dense" "all_records Q bm25"
  shows "all_records Q (fuse_hybrid_candidates dense bm25 n w1 w2)"
proof -
  have "Q (hc_record h)" if "h \<in> snd ` set (hybrid_map dense bm25)" for h
    using hybrid_map_all [OF assms] that by auto
  then show ?thesis
    unfolding fuse_hybrid_candidates_def Let_def
    by (intro all_records_take) (auto simp: all_records_def)
qed

lemma fuse_hybrid_ok:
  assumes "channel_ok K f l dense" "channel_ok K f l' bm25"
  shows "channel_ok K f n (fuse_hybrid_candidates dense bm25 n w1 w2)"
  using assms fuse_hybrid_all
  by (auto simp: channel_ok_def) (simp add: fuse_hybrid_candidates_def Let_def)


section \<open>The graph's candidates\<close>

lemma put_graph_candidate_all:
  assumes "\<forall>(k, c) \<in> set al. Q (sm_record c)" "Q r" "\<And>x. Q x \<Longrightarrow> Q (merge r x)"
  shows "\<forall>(k, c) \<in> set (put_graph_candidate merge r score al). Q (sm_record c)"
  unfolding put_graph_candidate_def
  by (rule upsert_all [where P = "\<lambda>k c. Q (sm_record c)"]) (use assms in auto)

lemma graph_record_value:
  assumes "json_get (gm_metadata r) k = Some v" "k \<notin> GRAPH_KEYS"
  shows "has_value k v (graph_record_to_memory_record r)"
  using assms object_get [OF assms(1)]
  by (auto simp: has_value_def graph_record_to_memory_record_def GRAPH_KEYS_def split: option.split)

definition entries_have :: "str \<Rightarrow> json \<Rightarrow> (str \<times> ScoredMemory) list \<Rightarrow> bool" where
  "entries_have k v al \<longleftrightarrow> (\<forall>(i, c) \<in> set al. has_value k v (sm_record c))"

lemma put_fact_unit_keeps:
  assumes "f = Some g" "json_get g k = Some v" "k \<notin> GRAPH_KEYS" "entries_have k v al"
  shows "entries_have k v (put_fact_unit E V f u al)"
proof -
  let ?put = "\<lambda>r. put_graph_candidate (merge_facts_into E)
      (with_metadata (\<lambda>m. append_graph_fact_metadata E m (graph_fact_metadata E V u))
         (graph_record_to_memory_record r)) (fu_score u)"
  have "entries_have k v (fold ?put rs al)"
    if "\<forall>r \<in> set rs. metadata_matches (gm_metadata r) f" "entries_have k v al" for rs al
    using that
  proof (induction rs arbitrary: al)
    case (Cons r rs)
    have "json_get (gm_metadata r) k = Some v"
      using metadata_matches_key [OF _ assms(2)] Cons.prems(1) assms(1) by simp
    then have "has_value k v (with_metadata (\<lambda>m. append_graph_fact_metadata E m (graph_fact_metadata E V u))
             (graph_record_to_memory_record r))"
      using graph_record_value [OF _ assms(3), of r v] assms(3)
      by (simp add: has_value_def with_metadata_def append_fact_keeps)
    then have "entries_have k v (?put r al)"
      unfolding entries_have_def
      by (intro put_graph_candidate_all) (use Cons.prems(2) has_value_stable [OF assms(3), of E v]
        in \<open>simp_all add: merge_stable_def entries_have_def\<close>)
    with Cons show ?case by simp
  qed simp
  from this [of "filter (\<lambda>r. metadata_matches (gm_metadata r) f) (fu_evidence_records u)" al] assms(4)
  show ?thesis by (simp add: put_fact_unit_def)
qed

lemma put_evidence_unit_keeps:
  assumes "f = Some g" "json_get g k = Some v" "k \<notin> GRAPH_KEYS" "entries_have k v al"
  shows "entries_have k v (put_evidence_unit E V f u al)"
proof (cases "metadata_matches (gm_metadata (eru_record u)) f")
  case True
  then have "json_get (gm_metadata (eru_record u)) k = Some v"
    using metadata_matches_key [OF _ assms(2)] assms(1) by simp
  then have "has_value k v (with_metadata (\<lambda>m. append_graph_match_metadata m (graph_evidence_record_metadata V u))
             (graph_record_to_memory_record (eru_record u)))"
    using graph_record_value [OF _ assms(3), of "eru_record u" v] assms(3)
    by (simp add: has_value_def with_metadata_def append_match_keeps)
  then have "entries_have k v (put_graph_candidate (merge_graph_into E)
        (with_metadata (\<lambda>m. append_graph_match_metadata m (graph_evidence_record_metadata V u))
          (graph_record_to_memory_record (eru_record u))) (eru_score u) al)"
    unfolding entries_have_def
    by (intro put_graph_candidate_all) (use assms(4) has_value_stable [OF assms(3), of E v]
      in \<open>simp_all add: merge_stable_def entries_have_def\<close>)
  with True show ?thesis by (simp add: put_evidence_unit_def)
qed (use assms in \<open>simp add: put_evidence_unit_def\<close>)

lemma bundle_candidates_ok: "channel_ok GRAPH_KEYS f limit (bundle_candidates E V f limit b)"
proof -
  have "all_records (has_value k v) (bundle_candidates E V f limit b)"
    if f: "f = Some g" "json_get g k = Some v" "k \<notin> GRAPH_KEYS" for g k v
  proof -
    have "entries_have k v (fold (put_fact_unit E V f) (cb_fact_context_units b) [])"
      by (rule fold_keeps [where P = "entries_have k v"]) (auto simp: entries_have_def
          intro!: put_fact_unit_keeps [OF f, unfolded entries_have_def])
    then have "entries_have k v (fold (put_evidence_unit E V f) (cb_evidence_record_context_units b)
       (fold (put_fact_unit E V f) (cb_fact_context_units b) []))"
      by (rule fold_keeps [where P = "entries_have k v"]) (rule put_evidence_unit_keeps [OF f])
    then show ?thesis unfolding bundle_candidates_def
      by (intro all_records_take) (auto simp: all_records_def entries_have_def)
  qed
  then show ?thesis by (auto simp: channel_ok_def bundle_candidates_def)
qed

end
