(* ===== verification/MemFusionInv.thy ===== *)
theory MemFusionInv
  imports MemResults
begin

text \<open>
  The fusion with the graph's candidates: which records are in its result. A base candidate keeps its
  identifier and text, whatever is merged into its metadata; a graph candidate is added only beside the
  base, and only where the configuration allows it.
\<close>

definition record_key :: "MemoryRecord \<Rightarrow> str \<times> str" where
  "record_key r = (mr_id r, mr_text r)"

lemma record_key_merge [simp]: "record_key (merge_graph_into E x r) = record_key r"
  by (simp add: record_key_def merge_graph_into_def with_metadata_def)

lemma record_key_id: "record_key r = (i, t) \<Longrightarrow> mr_id r = i"
  by (simp add: record_key_def)

text \<open>The entries of a fusion map: each is under its record's identifier.\<close>

definition fusion_keys :: "(str \<times> GraphFusionCandidate) list \<Rightarrow> (str \<times> str) list" where
  "fusion_keys al = map (\<lambda>x. record_key (gf_record (snd x))) al"

definition keyed :: "(str \<times> GraphFusionCandidate) list \<Rightarrow> bool" where
  "keyed al \<longleftrightarrow> (\<forall>x \<in> set al. fst x = mr_id (gf_record (snd x)))"

lemma keyed_fsts: "keyed al \<Longrightarrow> map fst al = map fst (fusion_keys al)"
  by (induction al) (auto simp: keyed_def fusion_keys_def record_key_def)

lemma upsert_fresh: "k \<notin> fst ` set al \<Longrightarrow> upsert k f v al = al @ [(k, v)]"
  by (induction k f v al rule: upsert.induct) auto

lemma fold_base_fresh:
  assumes "keyed al" "distinct (map fst al @ map (mr_id \<circ> sm_record) cs)"
  shows "fusion_keys (fold (\<lambda>(index, c). upsert (mr_id (sm_record c)) (f index c)
            \<lparr>gf_record = sm_record c, gf_base_score = Some (sm_score c), gf_graph_score = None,
             gf_base_rank = Some (index + 1), gf_graph_rank = None\<rparr>) (enumerate n cs) al)
         = fusion_keys al @ map (record_key \<circ> sm_record) cs
    \<and> keyed (fold (\<lambda>(index, c). upsert (mr_id (sm_record c)) (f index c)
            \<lparr>gf_record = sm_record c, gf_base_score = Some (sm_score c), gf_graph_score = None,
             gf_base_rank = Some (index + 1), gf_graph_rank = None\<rparr>) (enumerate n cs) al)"
  using assms
proof (induction cs arbitrary: al n)
  case (Cons c cs)
  let ?new = "\<lparr>gf_record = sm_record c, gf_base_score = Some (sm_score c), gf_graph_score = None,
             gf_base_rank = Some (n + 1), gf_graph_rank = None\<rparr>"
  have "upsert (mr_id (sm_record c)) (f n c) ?new al = al @ [(mr_id (sm_record c), ?new)]"
    by (rule upsert_fresh) (use Cons.prems(2) in auto)
  moreover have "keyed (al @ [(mr_id (sm_record c), ?new)])" using Cons.prems(1) by (auto simp: keyed_def)
  ultimately show ?case
    using Cons.IH [of "al @ [(mr_id (sm_record c), ?new)]" "Suc n"] Cons.prems
    by (simp add: fusion_keys_def)
qed simp

lemma base_map_keys:
  assumes "distinct (map (mr_id \<circ> sm_record) cs)"
  shows "fusion_keys (base_map cs) = map (record_key \<circ> sm_record) cs \<and> keyed (base_map cs)"
  using fold_base_fresh [of "[]" cs _ 0] assms unfolding base_map_def
  by (simp add: keyed_def fusion_keys_def)


section \<open>Placing the graph's candidates\<close>

definition graph_only_ok ::
    "(str \<times> str) set \<Rightarrow> (str \<times> GraphFusionCandidate) list \<Rightarrow> (str \<times> GraphFusionCandidate) list \<Rightarrow> bool" where
  "graph_only_ok S base only \<longleftrightarrow> keyed only \<and> distinct (map fst only) \<and> set (fusion_keys only) \<subseteq> S
     \<and> fst ` set only \<inter> fst ` set base = {}"

lemma upsert_keyed:
  assumes "keyed al" "mr_id (gf_record v) = k" "\<And>g. mr_id (gf_record g) = k \<Longrightarrow> mr_id (gf_record (f g)) = k"
  shows "keyed (upsert k f v al)"
  using assms by (induction k f v al rule: upsert.induct) (auto simp: keyed_def)

lemma upsert_fusion_keys:
  assumes "keyed al" "record_key (gf_record v) \<in> S" "set (fusion_keys al) \<subseteq> S"
    "\<And>g. record_key (gf_record g) \<in> S \<Longrightarrow> record_key (gf_record (f g)) \<in> S"
  shows "set (fusion_keys (upsert k f v al)) \<subseteq> S"
  using assms by (induction k f v al rule: upsert.induct) (auto simp: keyed_def fusion_keys_def)

lemma place_keeps:
  assumes "keyed base" "graph_only_ok S base only" "record_key (sm_record c) \<in> S"
    "place_graph_candidate E (index, c) (base, only) = (base', only')"
  shows "keyed base' \<and> fusion_keys base' = fusion_keys base \<and> map fst base' = map fst base
    \<and> graph_only_ok S base' only'"
proof (cases "mr_id (sm_record c) \<in> fst ` set base")
  case True
  let ?m = "\<lambda>(k, g). (k, if k = mr_id (sm_record c) then merge_graph_candidate E index c g else g)"
  have b: "base' = map ?m base" "only' = only" using True assms(4) by (auto simp: place_graph_candidate_def Let_def)
  have fk: "fusion_keys base' = fusion_keys base"
    by (auto simp: b fusion_keys_def merge_graph_candidate_def case_prod_beta)
  have fs: "map fst base' = map fst base" by (auto simp: b case_prod_beta)
  have "mr_id (merge_graph_into E x r) = mr_id r" for x r
    using record_key_merge [of E x r] by (simp add: record_key_def)
  then have kd: "keyed base'"
    using assms(1) by (auto simp: b keyed_def merge_graph_candidate_def case_prod_beta)
  have "fst ` set base' = fst ` set base" using arg_cong [OF fs, of set] by simp
  with kd fk fs assms(2) b show ?thesis by (simp add: graph_only_ok_def)
next
  case False
  let ?f = "\<lambda>g. if higher_than (sm_score c) (gf_graph_score g)
      then g\<lparr>gf_record := sm_record c, gf_graph_score := Some (sm_score c), gf_graph_rank := Some (index + 1)\<rparr> else g"
  let ?v = "\<lparr>gf_record = sm_record c, gf_base_score = None, gf_graph_score = Some (sm_score c),
      gf_base_rank = None, gf_graph_rank = Some (index + 1)\<rparr>"
  have b: "base' = base" "only' = upsert (mr_id (sm_record c)) ?f ?v only"
    using False assms(4) by (auto simp: place_graph_candidate_def Let_def)
  have "keyed only'" unfolding b by (rule upsert_keyed) (use assms(2) in \<open>auto simp: graph_only_ok_def\<close>)
  moreover have "set (fusion_keys only') \<subseteq> S" unfolding b
    by (rule upsert_fusion_keys) (use assms(2,3) in \<open>auto simp: graph_only_ok_def\<close>)
  moreover have "distinct (map fst only')" unfolding b
    by (rule upsert_distinct) (use assms(2) in \<open>simp add: graph_only_ok_def\<close>)
  moreover have "fst ` set only' \<inter> fst ` set base = {}"
    using assms(2) False by (auto simp: b upsert_keys graph_only_ok_def)
  ultimately show ?thesis using assms(1) b(1) by (simp add: graph_only_ok_def)
qed

lemma fold_place_keeps:
  assumes "keyed base" "graph_only_ok S base only" "\<forall>(i, c) \<in> set ics. record_key (sm_record c) \<in> S"
    "fold (place_graph_candidate E) ics (base, only) = (base', only')"
  shows "keyed base' \<and> fusion_keys base' = fusion_keys base \<and> map fst base' = map fst base
    \<and> graph_only_ok S base' only'"
  using assms
proof (induction ics arbitrary: base only)
  case (Cons ic ics)
  obtain i c where ic: "ic = (i, c)" by (cases ic)
  obtain b1 o1 where p: "place_graph_candidate E (i, c) (base, only) = (b1, o1)"
    by (cases "place_graph_candidate E (i, c) (base, only)")
  note k = place_keeps [OF Cons.prems(1,2) _ p]
  have "record_key (sm_record c) \<in> S" using Cons.prems(3) ic by auto
  with k Cons.prems(3,4) ic p Cons.IH [of b1 o1] show ?case by auto
qed auto


section \<open>The result of the fusion\<close>

definition keys_of :: "ScoredMemory list \<Rightarrow> (str \<times> str) list" where
  "keys_of cs = map (record_key \<circ> sm_record) cs"

lemma keys_of_sort [simp]: "set (keys_of (sort_scored_desc cs)) = set (keys_of cs)"
  "distinct (map fst (keys_of (sort_scored_desc cs))) \<longleftrightarrow> distinct (map fst (keys_of cs))"
  by (simp_all add: keys_of_def comp_def)

lemma keys_of_append [simp]: "keys_of (a @ b) = keys_of a @ keys_of b"
  by (simp add: keys_of_def)

lemma keys_of_take: "keys_of (take n cs) = take n (keys_of cs)"
  by (simp add: keys_of_def take_map)

lemma length_keys_of [simp]: "length (keys_of cs) = length cs"
  by (simp add: keys_of_def)

lemma keys_of_results [simp]:
  "keys_of (map (base_result b w \<circ> snd) al) = fusion_keys al"
  "keys_of (map (graph_only_result w \<circ> snd) al) = fusion_keys al"
  by (simp_all add: keys_of_def fusion_keys_def base_result_def graph_only_result_def comp_def)

lemma distinct_fst: "distinct (map fst xs) \<Longrightarrow> distinct xs"
  by (simp add: distinct_map)

text \<open>
  Base candidates and graph-only ones, each with distinct identifiers and disjoint from the other: their
  combination in the last part of the fusion.
\<close>

lemma combine:
  assumes d: "distinct (map fst (keys_of base))" "distinct (map fst (keys_of only))"
    "fst ` set (keys_of base) \<inter> fst ` set (keys_of only) = {}"
    and n: "length base \<le> n" "length only \<le> n"
  defines "res \<equiv> take n (sort_scored_desc (take (n - length only) (sort_scored_desc base) @ only))"
  shows "length res \<le> n \<and> distinct (map fst (keys_of res))
    \<and> set (keys_of only) \<subseteq> set (keys_of res) \<and> set (keys_of res) \<subseteq> set (keys_of base) \<union> set (keys_of only)
    \<and> card (set (keys_of base) - set (keys_of res)) \<le> length only"
proof -
  let ?kept = "take (n - length only) (sort_scored_desc base)"
  have len: "length (?kept @ only) \<le> n" using n by simp
  then have res: "res = sort_scored_desc (?kept @ only)" by (simp add: res_def)
  have sub: "set (keys_of ?kept) \<subseteq> set (keys_of base)"
    using set_take_subset [of "n - length only" "keys_of (sort_scored_desc base)"] by (simp add: keys_of_take)
  have dk: "distinct (map fst (keys_of ?kept))"
    using d(1) by (metis distinct_take keys_of_sort(2) keys_of_take take_map)
  have db: "distinct (keys_of (sort_scored_desc base))" using d(1) by (intro distinct_fst) simp
  have "card (set (keys_of base) - set (keys_of ?kept)) = length base - length ?kept"
  proof -
    have "card (set (keys_of ?kept)) = length ?kept"
      using distinct_fst [OF dk] by (simp add: distinct_card)
    moreover have "card (set (keys_of base)) = length base"
      using db distinct_card by (metis keys_of_sort(1) length_keys_of length_sort_scored)
    ultimately show ?thesis using sub by (simp add: card_Diff_subset)
  qed
  also have "\<dots> \<le> length only" using n by simp
  finally have "card (set (keys_of base) - set (keys_of ?kept)) \<le> length only" .
  moreover have "card (set (keys_of base) - set (keys_of res)) \<le> card (set (keys_of base) - set (keys_of ?kept))"
    by (rule card_mono) (auto simp: res)
  moreover have "distinct (map fst (keys_of res))"
    using dk d sub by (auto simp: res)
  ultimately show ?thesis using len sub by (auto simp: res)
qed


text \<open>What the configuration allows the graph to add.\<close>

definition graph_only_allowed :: "bool \<Rightarrow> bool \<Rightarrow> f32 \<Rightarrow> bool" where
  "graph_only_allowed allow_graph_only rerank_with_graph graph_weight \<longleftrightarrow>
     allow_graph_only \<and> rerank_with_graph \<and> fc_gt (effective_graph_weight graph_weight) 0"

lemma graph_only_limit_le: "graph_only_result_limit top_k m \<le> top_k"
  by (simp add: graph_only_result_limit_def)

lemma fusion_maps:
  assumes "distinct (map fst (keys_of base))"
    and "fold (place_graph_candidate E) (enumerate 0 (sort_scored_desc graph)) (base_map base, []) = (b, only)"
  shows "fusion_keys b = keys_of base \<and> distinct (map fst (fusion_keys b))
    \<and> distinct (map fst (fusion_keys only)) \<and> set (fusion_keys only) \<subseteq> set (keys_of graph)
    \<and> fst ` set (fusion_keys b) \<inter> fst ` set (fusion_keys only) = {}"
proof -
  have d: "distinct (map (mr_id \<circ> sm_record) base)"
    using assms(1) by (simp add: keys_of_def comp_def record_key_def)
  note bm = base_map_keys [OF d]
  have "\<forall>(i, c) \<in> set (enumerate 0 (sort_scored_desc graph)). record_key (sm_record c) \<in> set (keys_of graph)"
    by (auto simp: keys_of_def in_set_enumerate_eq set_conv_nth [symmetric] dest!: nth_mem
        simp del: length_sort_scored)
  moreover have "graph_only_ok (set (keys_of graph)) (base_map base) []"
    by (simp add: graph_only_ok_def keyed_def fusion_keys_def)
  ultimately have k: "keyed b \<and> fusion_keys b = fusion_keys (base_map base) \<and> map fst b = map fst (base_map base)
      \<and> graph_only_ok (set (keys_of graph)) b only"
    using fold_place_keeps [OF _ _ _ assms(2), of "set (keys_of graph)"] bm by blast
  then have fb: "fusion_keys b = keys_of base" using bm by (simp add: keys_of_def)
  have only: "keyed only" "distinct (map fst only)" "set (fusion_keys only) \<subseteq> set (keys_of graph)"
      "fst ` set only \<inter> fst ` set b = {}"
    using k by (simp_all add: graph_only_ok_def)
  have "fst ` set (fusion_keys b) = fst ` set b" "fst ` set (fusion_keys only) = fst ` set only"
    using keyed_fsts [of b] keyed_fsts [OF only(1)] k by (metis list.set_map)+
  with only fb assms(1) keyed_fsts [OF only(1)] show ?thesis by auto
qed

lemma fuse_graph_keys:
  fixes n :: nat and w :: f32 and graph :: "ScoredMemory list"
  assumes "distinct (map fst (keys_of base))"
    and prot_def: "prot = take n (sort_scored_desc base)"
    and res_def: "res = fuse_graph_candidates E base graph n w rerank_with_graph allow_graph_only m"
  shows "length res \<le> n \<and> distinct (map fst (keys_of res))
    \<and> set (keys_of res) \<subseteq> set (keys_of prot) \<union> set (keys_of graph)
    \<and> (\<not> graph_only_allowed allow_graph_only rerank_with_graph w \<longrightarrow> set (keys_of res) = set (keys_of prot))
    \<and> card (set (keys_of res) - set (keys_of prot)) \<le> graph_only_result_limit n m
    \<and> card (set (keys_of prot) - set (keys_of res)) \<le> card (set (keys_of res) - set (keys_of prot))"
proof -
  have dk: "distinct (map fst (keys_of prot))"
    unfolding prot_def keys_of_take take_map [symmetric] using assms(1)
    by (intro distinct_take) simp
  consider "n = 0" | "graph = []" "n \<noteq> 0" | "graph \<noteq> []" "n \<noteq> 0" by blast
  then show ?thesis
  proof cases
    case 1
    then show ?thesis by (simp add: res_def prot_def fuse_graph_candidates_def keys_of_def)
  next
    case 2
    then have "res = prot" by (simp add: res_def prot_def fuse_graph_candidates_def)
    with dk show ?thesis by (simp add: prot_def)
  next
    case 3
    obtain b only where f: "fold (place_graph_candidate E) (enumerate 0 (sort_scored_desc graph))
        (base_map prot, []) = (b, only)"
      by (cases "fold (place_graph_candidate E) (enumerate 0 (sort_scored_desc graph)) (base_map prot, [])")
    note fm = fusion_maps [OF dk f]
    let ?w = "effective_graph_weight w"
    let ?base = "map (base_result rerank_with_graph ?w \<circ> snd) b"
    let ?only = "take (graph_only_result_limit n m) (sort_scored_desc (map (graph_only_result ?w \<circ> snd) only))"
    have kb: "keys_of ?base = keys_of prot" using fm by simp
    have lb: "length ?base \<le> n" using arg_cong [OF kb, of length] by (simp add: prot_def fusion_keys_def)
    show ?thesis
    proof (cases "graph_only_allowed allow_graph_only rerank_with_graph w")
      case False
      then have "res = take n (sort_scored_desc ?base)"
        using 3 f by (auto simp: res_def prot_def [symmetric] fuse_graph_candidates_def graph_only_allowed_def Let_def)
      then have r: "res = sort_scored_desc ?base" using lb by simp
      then have "set (keys_of res) = set (keys_of prot)" "distinct (map fst (keys_of res))"
        using kb dk by (simp_all del: keys_of_results)
      with False r lb show ?thesis by simp
    next
      case True
      then have r: "res = take n (sort_scored_desc (take (n - length ?only) (sort_scored_desc ?base) @ ?only))"
        using 3 f by (simp add: res_def prot_def [symmetric] fuse_graph_candidates_def graph_only_allowed_def Let_def)
      have ok: "set (keys_of ?only) \<subseteq> set (fusion_keys only)"
        using set_take_subset [of "graph_only_result_limit n m"
          "keys_of (sort_scored_desc (map (graph_only_result ?w \<circ> snd) only))"]
        by (simp add: keys_of_take)
      have "distinct (map fst (keys_of (sort_scored_desc (map (graph_only_result ?w \<circ> snd) only))))"
        using fm by simp
      then have od: "distinct (map fst (keys_of ?only))"
        unfolding keys_of_take take_map [symmetric] by (rule distinct_take)
      have "fst ` set (keys_of ?only) \<subseteq> fst ` set (fusion_keys only)" using ok by (rule image_mono)
      moreover have "fst ` set (keys_of prot) \<inter> fst ` set (fusion_keys only) = {}"
        using conjunct2 [OF conjunct2 [OF conjunct2 [OF conjunct2 [OF fm]]]] conjunct1 [OF fm] by simp
      ultimately have disj: "fst ` set (keys_of prot) \<inter> fst ` set (keys_of ?only) = {}" by blast
      have lo: "length ?only \<le> n" using graph_only_limit_le [of n m] by simp
      have c: "length res \<le> n" "distinct (map fst (keys_of res))" "set (keys_of ?only) \<subseteq> set (keys_of res)"
          "set (keys_of res) \<subseteq> set (keys_of prot) \<union> set (keys_of ?only)"
          "card (set (keys_of prot) - set (keys_of res)) \<le> length ?only"
        using combine [OF _ od _ lb lo, folded r] dk disj unfolding kb by blast+
      have "set (keys_of prot) \<inter> set (keys_of ?only) = {}" using disj by blast
      then have new: "set (keys_of res) - set (keys_of prot) = set (keys_of ?only)"
        using c(3,4) by blast
      have card: "card (set (keys_of ?only)) = length ?only"
        using distinct_card [OF distinct_fst [OF od]] by simp
      have "set (keys_of res) \<subseteq> set (keys_of prot) \<union> set (keys_of graph)" using c(4) ok fm by blast
      moreover have "length ?only \<le> graph_only_result_limit n m" by simp
      ultimately show ?thesis using c(1,2,5) True unfolding new card by blast
    qed
  qed
qed


section \<open>Properties of the fused records\<close>

definition gf_all :: "(MemoryRecord \<Rightarrow> bool) \<Rightarrow> (str \<times> GraphFusionCandidate) list \<Rightarrow> bool" where
  "gf_all Q al \<longleftrightarrow> (\<forall>x \<in> set al. Q (gf_record (snd x)))"

lemma gf_all_upsert:
  assumes "gf_all Q al" "Q (gf_record v)" "\<And>g. Q (gf_record g) \<Longrightarrow> Q (gf_record (f g))"
  shows "gf_all Q (upsert k f v al)"
  using assms by (induction k f v al rule: upsert.induct) (auto simp: gf_all_def)

lemma gf_all_map:
  assumes "gf_all Q al" "\<And>g. Q (gf_record g) \<Longrightarrow> Q (gf_record (h g))"
  shows "gf_all Q (map (\<lambda>(k, g). (k, if k = i then h g else g)) al)"
  using assms by (induction al) (auto simp: gf_all_def)

lemma fold_all:
  assumes "gf_all Q al" "\<forall>(i, c) \<in> set ics. Q (sm_record c)"
    "\<And>i c al. gf_all Q al \<Longrightarrow> Q (sm_record c) \<Longrightarrow> gf_all Q (f (i, c) al)"
  shows "gf_all Q (fold f ics al)"
  using assms
proof (induction ics arbitrary: al)
  case (Cons ic ics)
  obtain i c where "ic = (i, c)" by (cases ic)
  then have "gf_all Q (f ic al)" using Cons.prems by auto
  then show ?case using Cons.IH [of "f ic al"] Cons.prems by auto
qed simp

lemma all_records_enumerate: "all_records Q cs \<Longrightarrow> \<forall>(i, c) \<in> set (enumerate n cs). Q (sm_record c)"
  by (auto simp: all_records_def in_set_enumerate_eq dest!: nth_mem)

lemma base_map_all: "all_records Q cs \<Longrightarrow> gf_all Q (base_map cs)"
  unfolding base_map_def
  by (rule fold_all) (auto simp: gf_all_def [of _ "[]"] all_records_enumerate intro!: gf_all_upsert)

lemma place_all:
  assumes "gf_all Q base" "gf_all Q only" "Q (sm_record c)" "merge_stable E Q"
    "place_graph_candidate E (i, c) (base, only) = (base', only')"
  shows "gf_all Q base' \<and> gf_all Q only'"
proof (cases "mr_id (sm_record c) \<in> fst ` set base")
  case True
  have "Q (gf_record (merge_graph_candidate E i c g))" if "Q (gf_record g)" for g
    using that assms(4) by (simp add: merge_graph_candidate_def merge_stable_def)
  with True assms(1,2,5) show ?thesis by (auto simp: place_graph_candidate_def Let_def intro!: gf_all_map)
next
  case False
  with assms show ?thesis by (auto simp: place_graph_candidate_def Let_def intro!: gf_all_upsert)
qed

lemma fold_place_all:
  assumes "gf_all Q base" "gf_all Q only" "\<forall>(i, c) \<in> set ics. Q (sm_record c)" "merge_stable E Q"
    "fold (place_graph_candidate E) ics (base, only) = (base', only')"
  shows "gf_all Q base' \<and> gf_all Q only'"
  using assms
proof (induction ics arbitrary: base only)
  case (Cons ic ics)
  obtain i c where ic: "ic = (i, c)" by (cases ic)
  obtain b1 o1 where p: "place_graph_candidate E (i, c) (base, only) = (b1, o1)"
    by (cases "place_graph_candidate E (i, c) (base, only)")
  have "gf_all Q b1 \<and> gf_all Q o1" using place_all [OF Cons.prems(1,2) _ Cons.prems(4) p] Cons.prems(3) ic by auto
  with Cons.IH [of b1 o1] Cons.prems ic p show ?case by auto
qed simp

lemma fuse_graph_all:
  assumes "all_records Q base" "all_records Q graph" "merge_stable E Q"
  shows "all_records Q (fuse_graph_candidates E base graph n w rg ag m)"
proof -
  obtain b only where f: "fold (place_graph_candidate E) (enumerate 0 (sort_scored_desc graph))
      (base_map (take n (sort_scored_desc base)), []) = (b, only)"
    by (cases "fold (place_graph_candidate E) (enumerate 0 (sort_scored_desc graph))
      (base_map (take n (sort_scored_desc base)), [])")
  have "gf_all Q b \<and> gf_all Q only"
    by (rule fold_place_all [OF base_map_all _ _ assms(3) f])
       (use assms in \<open>auto simp: gf_all_def [of _ "[]"] intro!: all_records_take all_records_enumerate [simplified]\<close>)
  then have "all_records Q (map (base_result rg v \<circ> snd) b)" "all_records Q (map (graph_only_result v \<circ> snd) only)" for v
    by (auto simp: gf_all_def all_records_def base_result_def graph_only_result_def)
  with assms(1) f show ?thesis
    by (auto simp: fuse_graph_candidates_def Let_def intro!: all_records_take)
qed

lemma fuse_graph_ok:
  assumes "channel_ok GRAPH_KEYS f l base" "channel_ok GRAPH_KEYS f l' graph"
  shows "channel_ok GRAPH_KEYS f n (fuse_graph_candidates E base graph n w rg ag m)"
  using assms fuse_graph_all has_value_stable
  by (auto simp: channel_ok_def) (auto simp: fuse_graph_candidates_def Let_def split: prod.split)

end
