(* ===== verification/MemSearchInv.thy ===== *)
theory MemSearchInv
  imports MemFusionInv
begin

text \<open>
  From the channels to the modes: every mode of search ends with candidates that keep to the filter and the
  limit of the request. The two HTTP providers: how often they ask, and that a ranking chooses candidates.
\<close>

section \<open>Repeated attempts\<close>

lemma attempts_Inr:
  assumes "attempts once a n w = (Inr x, w')"
  shows "\<exists>w1 w2. once w1 = (Inr x, w2)"
  using assms
proof (induction once a n w rule: attempts.induct)
  case (2 once attempt left w)
  then show ?case by (cases "once w") (auto split: sum.splits if_splits prod.splits)
qed simp

text \<open>The pauses of the retries after the given attempt.\<close>

definition backoffs :: "nat \<Rightarrow> nat \<Rightarrow> nat list" where
  "backoffs attempt k = map mem_retry_backoff [attempt..<attempt + k]"

lemma backoffs_simps [simp]:
  "backoffs a 0 = []" "backoffs a (Suc k) = mem_retry_backoff a # backoffs (Suc a) k"
  using upt_conv_Cons [of a "a + Suc k"] by (simp_all add: backoffs_def del: upt_Suc)

lemma attempts_wire:
  assumes "\<And>w. w_requests (snd (once w)) = Suc (w_requests w) \<and> w_sleeps (snd (once w)) = w_sleeps w" "n > 0"
  shows "\<exists>k < n. w_requests (snd (attempts once a n w)) = w_requests w + Suc k
    \<and> w_sleeps (snd (attempts once a n w)) = w_sleeps w @ backoffs a k"
  using assms(2)
proof (induction n arbitrary: a w)
  case (Suc n)
  obtain r w1 where o: "once w = (r, w1)" by (cases "once w")
  then have w1: "w_requests w1 = Suc (w_requests w)" "w_sleeps w1 = w_sleeps w" using assms(1) [of w] by auto
  show ?case
  proof (cases "\<exists>message. r = Inl (True, message) \<and> n > 0")
    case True
    let ?w = "sleep (mem_retry_backoff a) w1"
    have eq: "attempts once a (Suc n) w = attempts once (Suc a) n ?w" using True o by auto
    obtain k where "k < n" "w_requests (snd (attempts once (Suc a) n ?w)) = w_requests ?w + Suc k"
        "w_sleeps (snd (attempts once (Suc a) n ?w)) = w_sleeps ?w @ backoffs (Suc a) k"
      using Suc.IH [of "Suc a" ?w] True by auto
    then have "Suc k < Suc n" "w_requests (snd (attempts once (Suc a) n ?w)) = w_requests w + Suc (Suc k)"
        "w_sleeps (snd (attempts once (Suc a) n ?w)) = w_sleeps w @ backoffs a (Suc k)"
      by (simp_all add: sleep_def w1)
    then show ?thesis unfolding eq by blast
  next
    case False
    then have "snd (attempts once a (Suc n) w) = w1" using o by (cases r) (auto split: prod.splits)
    with w1 show ?thesis by (intro exI [of _ 0]) simp
  qed
qed simp


text \<open>A call of either provider makes at most eight requests, with the doubling pauses between them.\<close>

lemma openrouter_embed_wire:
  "\<exists>k \<le> 8. w_requests (snd (openrouter_embed H c texts w)) = w_requests w + k
    \<and> w_sleeps (snd (openrouter_embed H c texts w)) = w_sleeps w @ backoffs 1 (k - 1)"
proof (cases "texts = []")
  case False
  have "\<exists>k < 8. w_requests (snd (attempts (embed_once H c texts) 1 8 w)) = w_requests w + Suc k
      \<and> w_sleeps (snd (attempts (embed_once H c texts) 1 8 w)) = w_sleeps w @ backoffs 1 k"
    by (rule attempts_wire) (simp_all add: embed_once_def send_def)
  then obtain k where k: "k < 8" "w_requests (snd (attempts (embed_once H c texts) 1 8 w)) = w_requests w + Suc k"
      "w_sleeps (snd (attempts (embed_once H c texts) 1 8 w)) = w_sleeps w @ backoffs 1 k"
    by blast
  have "snd (openrouter_embed H c texts w) = snd (attempts (embed_once H c texts) 1 8 w)"
    using False by (simp add: openrouter_embed_def EMBEDDING_MAX_ATTEMPTS_def split: prod.split sum.split)
  with k show ?thesis by (intro exI [of _ "Suc k"]) simp
qed (simp add: openrouter_embed_def)

lemma openrouter_rerank_wire:
  "\<exists>k \<le> 8. w_requests (snd (openrouter_rerank H c query cs n w)) = w_requests w + k
    \<and> w_sleeps (snd (openrouter_rerank H c query cs n w)) = w_sleeps w @ backoffs 1 (k - 1)"
proof (cases "n = 0 \<or> cs = []")
  case False
  let ?once = "rerank_once H c query cs (min n (length cs))"
  have "\<exists>k < 8. w_requests (snd (attempts ?once 1 8 w)) = w_requests w + Suc k
      \<and> w_sleeps (snd (attempts ?once 1 8 w)) = w_sleeps w @ backoffs 1 k"
    by (rule attempts_wire) (simp_all add: rerank_once_def send_def)
  then obtain k where k: "k < 8" "w_requests (snd (attempts ?once 1 8 w)) = w_requests w + Suc k"
      "w_sleeps (snd (attempts ?once 1 8 w)) = w_sleeps w @ backoffs 1 k"
    by blast
  have "snd (openrouter_rerank H c query cs n w) = snd (attempts ?once 1 8 w)"
    using False by (auto simp: openrouter_rerank_def RERANK_MAX_ATTEMPTS_def split: prod.split sum.split)
  with k show ?thesis by (intro exI [of _ "Suc k"]) simp
qed (auto simp: openrouter_rerank_def)


section \<open>Rankings\<close>

lemma rank_results_choose:
  assumes "rank_results cs seen rs = Inr ranked"
  shows "\<exists>js. distinct js \<and> set js \<inter> set seen = {} \<and> (\<forall>j \<in> set js. j < length cs)
    \<and> map sm_record ranked = map (\<lambda>j. sm_record (cs ! j)) js \<and> length js = length rs
    \<and> (\<forall>c \<in> set ranked. f_is_finite (sm_score c))"
  using assms
proof (induction cs seen rs arbitrary: ranked rule: rank_results.induct)
  case (2 cs seen index score rs)
  then obtain ranked' where r: "index < length cs" "index \<notin> set seen" "f_is_finite score"
      "rank_results cs (index # seen) rs = Inr ranked'" "ranked = (cs ! index)\<lparr>sm_score := score\<rparr> # ranked'"
    by (auto split: if_splits)
  with 2(1) [OF _ _ _ r(4)] obtain js where "distinct js" "set js \<inter> set (index # seen) = {}"
      "\<forall>j \<in> set js. j < length cs" "map sm_record ranked' = map (\<lambda>j. sm_record (cs ! j)) js"
      "length js = length rs" "\<forall>c \<in> set ranked'. f_is_finite (sm_score c)"
    by auto
  with r show ?case by (intro exI [of _ "index # js"]) auto
qed simp

text \<open>The records of a ranking: candidates at distinct places.\<close>

definition chosen_from :: "ScoredMemory list \<Rightarrow> ScoredMemory list \<Rightarrow> bool" where
  "chosen_from cs results \<longleftrightarrow> (\<exists>js. distinct js \<and> (\<forall>j \<in> set js. j < length cs)
     \<and> map sm_record results = map (\<lambda>j. sm_record (cs ! j)) js)"

lemma chosen_from_records:
  assumes "chosen_from cs results" "all_records Q cs"
  shows "all_records Q results"
proof -
  obtain js where js: "\<forall>j \<in> set js. j < length cs" "map sm_record results = map (\<lambda>j. sm_record (cs ! j)) js"
      "\<forall>c \<in> set cs. Q (sm_record c)"
    using assms by (auto simp: chosen_from_def all_records_def)
  have "Q r" if "r \<in> set (map sm_record results)" for r
    using that js(1,3) unfolding js(2) by auto
  then show ?thesis by (auto simp: all_records_def)
qed

lemma chosen_from_take:
  assumes "chosen_from cs results" shows "chosen_from cs (take n results)"
proof -
  obtain js where "distinct js" "\<forall>j \<in> set js. j < length cs"
      "map sm_record results = map (\<lambda>j. sm_record (cs ! j)) js"
    using assms by (auto simp: chosen_from_def)
  then show ?thesis unfolding chosen_from_def
    by (intro exI [of _ "take n js"]) (auto simp: take_map [symmetric] dest: in_set_takeD)
qed

lemma chosen_from_prefix: "chosen_from cs (take n cs)"
  unfolding chosen_from_def
  by (intro exI [of _ "[0..<min n (length cs)]"]) (auto simp: list_eq_iff_nth_eq)

lemma apply_results_chosen:
  assumes "apply_openrouter_results cs rs n = Inr ranked"
  shows "chosen_from cs ranked \<and> length ranked = min n (length cs)"
proof -
  have len: "min n (length cs) \<le> length rs" and r: "rank_results cs [] (take (min n (length cs)) rs) = Inr ranked"
    using assms by (auto simp: apply_openrouter_results_def Let_def split: if_splits)
  from rank_results_choose [OF r] obtain js where js: "distinct js" "\<forall>j \<in> set js. j < length cs"
      "map sm_record ranked = map (\<lambda>j. sm_record (cs ! j)) js" "length js = length (take (min n (length cs)) rs)"
    by auto
  have "length ranked = length js" using arg_cong [OF js(3), of length] by simp
  with js len show ?thesis by (auto simp: chosen_from_def)
qed

lemma openrouter_rerank_chosen:
  assumes "openrouter_rerank H c query cs top_k w = (Inr results, w')"
  shows "chosen_from cs results"
proof (cases "top_k = 0 \<or> cs = []")
  case True
  with assms chosen_from_prefix [of cs 0] show ?thesis by (auto simp: openrouter_rerank_def)
next
  case False
  with assms obtain w1 where "attempts (rerank_once H c query cs (min top_k (length cs))) 1 RERANK_MAX_ATTEMPTS w
      = (Inr (Inr results), w1)"
    by (auto simp: openrouter_rerank_def split: prod.splits sum.splits)
  from attempts_Inr [OF this] obtain a where "read_ranking H cs (min top_k (length cs)) a = Inr (Inr results)"
    by (auto simp: rerank_once_def Let_def case_prod_beta)
  then obtain rs where "apply_openrouter_results cs rs (min top_k (length cs)) = Inr results"
    by (auto simp: read_ranking_def Let_def split: HttpAnswer.splits sum.splits if_splits)
  then show ?thesis using apply_results_chosen by blast
qed

text \<open>The rerankers of the program: none, or the one over HTTP.\<close>

definition known_reranker :: "MemoryManager \<Rightarrow> bool" where
  "known_reranker M \<longleftrightarrow> (case mm_reranker M of None \<Rightarrow> True
     | Some r \<Rightarrow> (\<exists>H c. r = OpenRouterReranker_provider H c))"

lemma rerank_candidates_chosen:
  assumes "known_reranker M" "rerank_candidates M query cs top_k s = (Inr results, s')"
  shows "chosen_from cs results \<and> length results \<le> top_k"
proof (cases "mm_reranker M")
  case None
  with assms(2) chosen_from_prefix show ?thesis by (auto simp: rerank_candidates_def Let_def split: if_splits)
next
  case (Some r)
  obtain H c where r: "rr_rerank r = openrouter_rerank H c"
    using assms(1) Some by (auto simp: known_reranker_def OpenRouterReranker_provider_def)
  have "chosen_from cs rs" if "in_wire (rr_rerank r query cs top_k) s = (Inr rs, s1)" for rs s1
    using that openrouter_rerank_chosen by (auto simp: r in_wire_def split: prod.splits)
  with assms(2) Some chosen_from_prefix show ?thesis
    by (auto simp: rerank_candidates_def Let_def split: if_splits prod.splits sum.splits
        intro: chosen_from_take)
qed

text \<open>With \<open>fail_open\<close> reranking never fails.\<close>

lemma rerank_fail_open:
  "rk_fail_open (rc_rerank (mm_config M)) \<Longrightarrow> \<exists>results. fst (rerank_candidates M query cs n s) = Inr results"
  by (auto simp: rerank_candidates_def Let_def split: option.split prod.split sum.split)


section \<open>The modes\<close>

text \<open>The metadata keys under which the graph channel, if it is enabled, writes into the results.\<close>

definition reported_keys :: "MemoryManager \<Rightarrow> str set" where
  "reported_keys M = (if gc_enabled (rc_graph (mm_config M)) then GRAPH_KEYS else {})"

lemma graph_candidates_ok:
  assumes "graph_candidates E R V M q limit s = (Inr cs, s')"
  shows "channel_ok (reported_keys M) (sq_filter q) limit cs"
  using assms bundle_candidates_ok
  by (auto simp: reported_keys_def graph_candidates_def Let_def or_empty_def split: if_splits option.splits prod.splits sum.splits)

lemma fuse_optional_ok:
  assumes "fuse_optional_graph_channel E R V M q base n s = (Inr cs, s')" "channel_ok (reported_keys M) (sq_filter q) n base"
  shows "channel_ok (reported_keys M) (sq_filter q) n cs"
proof (cases "gc_enabled (rc_graph (mm_config M))")
  case True
  then have K: "reported_keys M = GRAPH_KEYS" by (simp add: reported_keys_def)
  show ?thesis
    using assms True graph_candidates_ok [of E R V M q n, unfolded K] unfolding K
    by (auto simp: fuse_optional_graph_channel_def Let_def then_do_Inr intro: fuse_graph_ok)
qed (use assms in \<open>simp add: fuse_optional_graph_channel_def\<close>)

lemma channel_ok_chosen:
  assumes "channel_ok K f l cs" "chosen_from cs results" "length results \<le> n"
  shows "channel_ok K f n results"
  using assms chosen_from_records by (auto simp: channel_ok_def)

lemma in_sqlite_bm25_ok:
  assumes "in_sqlite e (sqlite_bm25_candidates E R V query f n) s = (Inr cs, s')"
  shows "channel_ok K f n cs"
  using assms by (elim in_sqlite_Inr) (rule sqlite_bm25_ok)

lemma search_dense_ok:
  assumes "search_dense E R V M q s = (Inr cs, s')" shows "channel_ok (reported_keys M) (sq_filter q) (sq_top_k q) cs"
  using assms by (auto simp: search_dense_def then_do_Inr split: if_splits intro: fuse_optional_ok dense_candidates_ok)

lemma search_bm25_ok:
  assumes "search_bm25 E R V M q s = (Inr cs, s')" shows "channel_ok (reported_keys M) (sq_filter q) (sq_top_k q) cs"
  using assms by (auto simp: search_bm25_def Let_def then_do_Inr split: if_splits
      intro: fuse_optional_ok in_sqlite_bm25_ok)

lemma search_graph_ok:
  assumes "search_graph E R V M q s = (Inr cs, s')" shows "channel_ok (reported_keys M) (sq_filter q) (sq_top_k q) cs"
  using assms by (auto simp: search_graph_def split: if_splits intro: graph_candidates_ok)

lemma search_hybrid_ok:
  assumes "known_reranker M" "search_hybrid_with_progress E R V M p q s = (Inr cs, s')"
  shows "channel_ok (reported_keys M) (sq_filter q) (sq_top_k q) cs"
proof (cases "sq_top_k q = 0 \<or> trim (sq_query q) = []")
  case True
  with assms(2) show ?thesis by (auto simp: search_hybrid_with_progress_def Let_def split: if_splits)
next
  case False
  let ?c = "mm_config M" and ?K = "reported_keys M" and ?f = "sq_filter q" and ?n = "hybrid_result_limit M (sq_top_k q)"
  let ?k = "candidate_limit ?c (sq_top_k q)"
  obtain v d b s1 s2 s3 s4 cs1 s5 where
      d: "dense_candidates E V M v ?f ?k s1 = (Inr d, s2)"
    and b: "in_sqlite (mode_needs_sqlite ''Hybrid'') (sqlite_bm25_candidates E R V (trim (sq_query q)) ?f ?k) s3
        = (Inr b, s4)"
    and g: "(if gc_enabled (rc_graph ?c)
          then fuse_optional_graph_channel E R V M q (fuse_hybrid_candidates d b ?n (rc_embedding_weight ?c)
            (rc_bm25_weight ?c)) ?n
          else give (fuse_hybrid_candidates d b ?n (rc_embedding_weight ?c) (rc_bm25_weight ?c))) s4 = (Inr cs1, s5)"
    and r: "(if rk_enabled (rc_rerank ?c) then rerank_candidates M (trim (sq_query q)) cs1 (sq_top_k q)
          else give cs1) s5 = (Inr cs, s')"
    using assms(2) False unfolding search_hybrid_with_progress_def Let_def
    by (auto elim!: then_do_InrE simp del: give_simps)
  have "channel_ok ?K ?f ?n (fuse_hybrid_candidates d b ?n (rc_embedding_weight ?c) (rc_bm25_weight ?c))"
    using dense_candidates_ok [OF d] in_sqlite_bm25_ok [OF b] by (rule fuse_hybrid_ok)
  then have cs1: "channel_ok ?K ?f ?n cs1" using g by (auto split: if_splits intro: fuse_optional_ok)
  show ?thesis
  proof (cases "rk_enabled (rc_rerank ?c)")
    case True
    with r rerank_candidates_chosen [OF assms(1)] channel_ok_chosen [OF cs1] show ?thesis by simp
  next
    case False
    with r cs1 show ?thesis by (simp add: hybrid_result_limit_def)
  qed
qed

lemma search_ok:
  assumes "known_reranker M" "search E R V M q s = (Inr cs, s')"
  shows "channel_ok (reported_keys M) (sq_filter q) (sq_top_k q) cs"
  using assms search_hybrid_ok
  by (auto simp: search_def search_hybrid_def split: SearchMode.splits
      intro: search_dense_ok search_bm25_ok search_graph_ok)

end
