(* ===== verification/MemManagerInv.thy ===== *)
theory MemManagerInv
  imports MemSearchInv
begin

text \<open>
  The manager over time: searches leave the memories as they are, additions change them as \<open>put_record\<close>
  does and only after the check of the embedding profiles, deletions take out what matches. Managers
  with any configuration and embedder may share the database; their operations run one after another.
\<close>

section \<open>What leaves the memories alone\<close>

definition same_memories :: "ManagerState \<Rightarrow> ManagerState \<Rightarrow> bool" where
  "same_memories s s' \<longleftrightarrow> (case st_store s of
       Sqlite t \<Rightarrow> (\<exists>t'. st_store s' = Sqlite t' \<and> ss_db t' = ss_db t)
     | File t \<Rightarrow> (\<exists>t'. st_store s' = File t' \<and> fm_content t' = fm_content t))"

lemma same_memories_refl [simp]: "same_memories s s"
  by (simp add: same_memories_def split: MemoryStore.split)

lemma same_memories_trans: "same_memories a b \<Longrightarrow> same_memories b c \<Longrightarrow> same_memories a c"
  by (auto simp: same_memories_def split: MemoryStore.splits)

lemma same_memories_holds:
  "same_memories s s' \<Longrightarrow> store_holds E V (st_store s) rs \<Longrightarrow> store_holds E V (st_store s') rs"
  by (auto simp: same_memories_def store_holds_def sqlite_holds_def file_holds_def split: MemoryStore.splits)

abbreviation harmless :: "(ManagerState, 'a) oper \<Rightarrow> bool" where
  "harmless \<equiv> keeps same_memories"

lemma harmless_then_do [intro]: "harmless m \<Longrightarrow> (\<And>a. harmless (f a)) \<Longrightarrow> harmless (then_do m f)"
  by (rule keeps_then_do) (blast intro: same_memories_trans)+

lemma harmless_basic [simp, intro]:
  "harmless (give a)" "harmless (fail e)" "harmless (lift_result r)"
  by (simp_all add: keeps_give keeps_fail keeps_lift)

lemma harmless_map_ops [intro]: "(\<And>x. harmless (f x)) \<Longrightarrow> harmless (map_ops f xs)"
  by (rule keeps_map_ops) (blast intro: same_memories_trans same_memories_refl)+

lemma harmless_store_eq: "(\<And>s. st_store (snd (m s)) = st_store s) \<Longrightarrow> harmless m"
  by (simp add: keeps_def same_memories_def split: MemoryStore.split)

lemma harmless_wire [simp, intro]: "harmless (in_wire m)"
  by (rule harmless_store_eq) (simp add: in_wire_def case_prod_beta)

lemma harmless_report [simp, intro]: "harmless (report n)"
  and harmless_time [simp, intro]: "harmless (current_time_ms V)"
  and harmless_uuid [simp, intro]: "harmless (mem_new_v4 V)"
  by (rule harmless_store_eq, simp add: report_def current_time_ms_def mem_new_v4_def)+

lemma mem_run_read: "ss_db (snd (mem_run_sqlite_operation V (\<lambda>db. (f db, db)) t)) = ss_db t"
  by (rule mem_run_keeps [where P = "\<lambda>db. db = ss_db t"]) auto

lemma harmless_list [simp, intro]: "harmless (in_store (store_list_records E V))"
proof -
  have "fm_content (snd (file_list_records V t)) = fm_content t" for t
    by (auto simp: file_list_records_def Let_def split: option.split)
  then show ?thesis
    using mem_run_read [of V "list_records_db E"]
    by (auto simp: keeps_def same_memories_def in_store_def store_list_records_def on_store_def
        sqlite_list_records_def case_prod_beta split: MemoryStore.splits)
qed

lemma harmless_in_sqlite:
  assumes "\<And>t. ss_db (snd (m t)) = ss_db t" shows "harmless (in_sqlite e m)"
  using assms by (auto simp: keeps_def same_memories_def in_sqlite_def case_prod_beta split: MemoryStore.splits)

lemma harmless_bm25 [simp, intro]: "harmless (in_sqlite e (sqlite_bm25_candidates E R V query f n))"
  by (rule harmless_in_sqlite) (simp add: sqlite_bm25_candidates_def Let_def mem_run_read)

lemma harmless_sqlite_dense [simp, intro]: "harmless (in_sqlite e (sqlite_dense_candidates E V query f n))"
  by (rule harmless_in_sqlite) (simp add: sqlite_dense_candidates_def mem_run_read)

lemma harmless_graph [simp, intro]: "harmless (in_graph m)"
  by (auto simp: keeps_def same_memories_def in_graph_def case_prod_beta split: MemoryStore.splits sum.splits)

lemma harmless_if [intro]: "harmless a \<Longrightarrow> harmless b \<Longrightarrow> harmless (if c then a else b)"
  by simp

lemma harmless_dense [simp, intro]: "harmless (dense_candidates E V M query f n)"
proof -
  have a: "harmless (then_do (validate_search_embedding_profile E V M f)
      (\<lambda>_. in_sqlite needs_sqlite (sqlite_dense_candidates E V query f n)))"
    unfolding validate_search_embedding_profile_def by blast
  have b: "harmless (then_do (in_store (store_list_records E V))
      (\<lambda>records. lift_result (score_records query f n records)))"
    by blast
  show ?thesis using a b
    by (simp add: keeps_def dense_candidates_def split: MemoryStore.split)
qed

lemma harmless_or_empty [simp, intro]: "harmless (or_empty b e)"
  by (simp add: or_empty_def)

lemma harmless_graph_candidates [simp, intro]: "harmless (graph_candidates E R V M q n)"
proof -
  have "same_memories s (snd (graph_candidates E R V M q n s))" for s
  proof -
    have g: "same_memories s (snd (in_graph m s))" for m :: "(GraphRepository, ContextBundle) oper"
      using harmless_graph [of m] by (simp add: keeps_def)
    have o: "same_memories s' (snd (or_empty b e s'))" for b e s'
      using harmless_or_empty [of b e] by (simp add: keeps_def)
    have g': "same_memories s s1" if "in_graph m s = (r, s1)"
      for m :: "(GraphRepository, ContextBundle) oper" and r s1
      using g [of m] that by simp
    show ?thesis
      by (auto simp: graph_candidates_def Let_def o split: option.split sum.split prod.split
          dest: g' intro: same_memories_trans [OF g' o])
  qed
  then show ?thesis by (simp add: keeps_def)
qed

lemma harmless_fuse [simp, intro]: "harmless (fuse_optional_graph_channel E R V M q base n)"
  unfolding fuse_optional_graph_channel_def Let_def by (intro harmless_if harmless_then_do) simp_all

lemma harmless_rerank [simp, intro]: "harmless (rerank_candidates M query cs n)"
proof -
  have "st_store (snd (in_wire m s)) = st_store s" for m :: "(wire, ScoredMemory list) oper" and s
    by (simp add: in_wire_def case_prod_beta)
  then show ?thesis
    by (intro harmless_store_eq)
       (auto simp: rerank_candidates_def Let_def split: option.split sum.split prod.split; metis snd_conv)
qed

lemma harmless_search_hybrid [simp, intro]:
  "harmless p \<Longrightarrow> harmless (search_hybrid_with_progress E R V M p q)"
  unfolding search_hybrid_with_progress_def Let_def by (intro harmless_if harmless_then_do) simp_all

lemma harmless_search_dense [simp, intro]: "harmless (search_dense E R V M q)"
  unfolding search_dense_def by (intro harmless_if harmless_then_do) simp_all

lemma harmless_search_bm25 [simp, intro]: "harmless (search_bm25 E R V M q)"
  unfolding search_bm25_def Let_def by (intro harmless_if harmless_then_do) simp_all

lemma harmless_search_graph [simp, intro]: "harmless (search_graph E R V M q)"
  unfolding search_graph_def by (intro harmless_if) simp_all

lemma harmless_search [simp, intro]: "harmless (search E R V M q)"
  by (cases "rc_mode (mm_config M)") (simp_all add: search_def search_hybrid_def)

lemma harmless_embed [simp, intro]: "harmless (embed_in_batches M n texts)"
  unfolding embed_in_batches_def by (intro harmless_then_do harmless_map_ops) simp_all

lemma harmless_search_many [simp, intro]: "harmless (search_many_with_batch_size E R V M qs n)"
proof -
  have d: "harmless (search_many_dense E R V M n qs)"
    unfolding search_many_dense_def
    by (intro harmless_if harmless_then_do harmless_map_ops) (auto split: prod.split)
  have e: "harmless (map_ops (\<lambda>q. then_do (f q) (\<lambda>r. then_do (report 1) (\<lambda>_. give r))) qs)"
    if "\<And>q. harmless (f q)" for f :: "SearchMemoryRequest \<Rightarrow> (ManagerState, ScoredMemory list) oper"
    using that by (intro harmless_map_ops harmless_then_do) simp_all
  show ?thesis
    using d e [of "search_bm25 E R V M"] e [of "search_graph E R V M"]
    by (cases "rc_mode (mm_config M)") (simp_all add: search_many_with_batch_size_def Let_def harmless_map_ops)
qed


section \<open>One embedding profile per scope\<close>

definition one_profile :: "MemoryRecord list \<Rightarrow> bool" where
  "one_profile rs \<longleftrightarrow> (\<forall>r \<in> set rs. \<forall>r' \<in> set rs. \<forall>scope p p'.
     extract_scope_id (mr_metadata r) = Some scope \<longrightarrow> extract_scope_id (mr_metadata r') = Some scope
     \<longrightarrow> record_embedding_profile_id r = Some p \<longrightarrow> record_embedding_profile_id r' = Some p' \<longrightarrow> p = p')"

lemma one_profile_metadata:
  assumes "one_profile rs" "\<forall>x \<in> set xs. \<exists>y \<in> set rs. mr_metadata x = mr_metadata y"
  shows "one_profile xs"
  using assms unfolding one_profile_def record_embedding_profile_id_def by metis

lemma one_profile_filter: "one_profile rs \<Longrightarrow> one_profile (filter P rs)"
  by (erule one_profile_metadata) auto

lemma expect_profiles:
  assumes "for_each (expect_profile current) rs m = Inr m'"
  shows "(\<forall>scope p. map_of m scope = Some p \<longrightarrow> map_of m' scope = Some p)
    \<and> (\<forall>r \<in> set rs. \<forall>scope p. extract_scope_id (mr_metadata r) = Some scope
        \<longrightarrow> record_embedding_profile_id r = Some p \<longrightarrow> map_of m' scope = Some p)"
  using assms
proof (induction rs arbitrary: m)
  case (Cons r rs)
  then obtain m1 where m1: "expect_profile current r m = Inr m1" "for_each (expect_profile current) rs m1 = Inr m'"
    by auto
  have "(\<forall>scope p. map_of m scope = Some p \<longrightarrow> map_of m1 scope = Some p)
    \<and> (\<forall>scope p. extract_scope_id (mr_metadata r) = Some scope
        \<longrightarrow> record_embedding_profile_id r = Some p \<longrightarrow> map_of m1 scope = Some p)"
    using m1(1) by (auto simp: expect_profile_def insert_expected_embedding_profile_def
        split: option.splits if_splits)
  with Cons.IH [OF m1(2)] show ?case by auto
qed simp

lemma checked_profiles:
  assumes "check_new_profiles current stored new = Inr ()"
  shows "one_profile (stored @ new)"
proof -
  obtain m1 m2 where m: "for_each (expect_profile None) stored [] = Inr m1"
      "for_each (expect_profile (Some current)) new m1 = Inr m2"
    using assms by (auto simp: check_new_profiles_def)
  have "map_of m2 scope = Some p" if "r \<in> set (stored @ new)" "extract_scope_id (mr_metadata r) = Some scope"
      "record_embedding_profile_id r = Some p" for r scope p
    using expect_profiles [OF m(1)] expect_profiles [OF m(2)] that by auto
  then show ?thesis unfolding one_profile_def by (metis option.inject)
qed

lemma put_record_metadata:
  "x \<in> set (put_record r rs) \<Longrightarrow> \<exists>y \<in> set (rs @ [r]). mr_metadata x = mr_metadata y"
  by (auto simp: put_record_def split: if_splits)

lemma fold_put_metadata:
  "x \<in> set (fold put_record new rs) \<Longrightarrow> \<exists>y \<in> set (rs @ new). mr_metadata x = mr_metadata y"
proof (induction new arbitrary: rs)
  case (Cons r new)
  then obtain y where "y \<in> set (put_record r rs @ new)" "mr_metadata x = mr_metadata y" by fastforce
  then show ?case using put_record_metadata [of y r rs] by auto
qed auto

lemma put_one_profile:
  assumes "one_profile rs" "new = [] \<or> check_new_profiles current rs new = Inr ()"
  shows "one_profile (fold put_record new rs)"
  using assms checked_profiles one_profile_metadata [OF _ ballI] fold_put_metadata by (metis fold_simps(1))


section \<open>Additions\<close>

text \<open>The lengths of vectors are machine integers.\<close>

definition small_vectors :: "MemoryEmbedder \<Rightarrow> bool" where
  "small_vectors ep \<longleftrightarrow> (\<forall>texts w v w'. me_embed ep texts w = (Inr v, w') \<longrightarrow> (\<forall>x \<in> set v. length x < 2 ^ 64))"

text \<open>The record a request becomes.\<close>

definition record_of_request :: "MemoryManager \<Rightarrow> AddMemoryRequest \<Rightarrow> MemoryRecord \<Rightarrow> bool" where
  "record_of_request M q r \<longleftrightarrow> mr_text r = trim (am_text q)
     \<and> mr_metadata r = metadata_with_embedding_profile (am_metadata q) (embedding_profile_metadata M)
     \<and> (\<forall>i. am_id q = Some i \<longrightarrow> mr_id r = i) \<and> mr_updated_at_ms r = mr_created_at_ms r"

text \<open>The metadata the requests are stored with read back from the text \<open>serde_json\<close> writes for them.\<close>

definition requests_read_back :: "genv \<Rightarrow> MemoryManager \<Rightarrow> AddMemoryRequest list \<Rightarrow> bool" where
  "requests_read_back E M qs \<longleftrightarrow>
     list_all (\<lambda>q. reads_back E (metadata_with_embedding_profile (am_metadata q) (embedding_profile_metadata M))) qs"

lemma map_ops_Inr:
  assumes "map_ops f xs s = (Inr as, s')"
  shows "list_all2 (\<lambda>x a. \<exists>s s'. f x s = (Inr a, s')) xs as"
  using assms
proof (induction xs arbitrary: as s)
  case (Cons x xs)
  then obtain a s1 as' where "f x s = (Inr a, s1)" "map_ops f xs s1 = (Inr as', s')" "as = a # as'"
    by (auto simp: then_do_Inr)
  with Cons.IH show ?case by auto
qed simp

lemma list_all2_element: "list_all2 P xs ys \<Longrightarrow> y \<in> set ys \<Longrightarrow> \<exists>x. P x y"
  by (auto simp: list_all2_conv_all_nth in_set_conv_nth)

lemma list_all2_mp_set:
  assumes "list_all2 P xs ys" "\<And>x y. x \<in> set xs \<Longrightarrow> P x y \<Longrightarrow> Q x y"
  shows "list_all2 Q xs ys"
  using assms by (induction rule: list_all2_induct) auto

lemma new_record_of:
  assumes "the_id V q s = (Inr i, s')" "length v < 2 ^ 64" "requests_read_back E M qs" "q \<in> set qs"
  shows "record_of_request M q (new_record M now q v i) \<and> storable E (new_record M now q v i)
    \<and> mr_id (new_record M now q v i) = i"
  using assms
  by (auto simp: record_of_request_def new_record_def storable_def the_id_def requests_read_back_def list_all_iff)

lemma embed_batches_small:
  assumes "small_vectors (mm_embedder M)" "embed_in_batches M n texts s = (Inr v, s')"
  shows "\<forall>x \<in> set v. length x < 2 ^ 64"
proof -
  obtain vs where v: "v = concat vs" and vs: "list_all2 (\<lambda>chunk w. \<exists>s s'. then_do (in_wire (me_embed (mm_embedder M) chunk))
         (\<lambda>v. then_do (report (length chunk)) (\<lambda>_. give v)) s = (Inr w, s')) (chunks (max n 1) texts) vs"
    using assms(2) by (auto simp: embed_in_batches_def then_do_Inr dest!: map_ops_Inr)
  have "\<forall>x \<in> set w. length x < 2 ^ 64" if w: "w \<in> set vs" for w
  proof -
    obtain chunk s1 s2 where "then_do (in_wire (me_embed (mm_embedder M) chunk))
         (\<lambda>v. then_do (report (length chunk)) (\<lambda>_. give v)) s1 = (Inr w, s2)"
      using list_all2_element [OF vs w] by blast
    then obtain w1 w2 where "me_embed (mm_embedder M) chunk w1 = (Inr w, w2)"
      by (auto simp: then_do_Inr in_wire_def split: prod.splits)
    with assms(1) show ?thesis by (auto simp: small_vectors_def)
  qed
  then show ?thesis using v by auto
qed

lemma build_records_of:
  assumes "small_vectors (mm_embedder M)" "requests_read_back E M qs" "build_records V M qs n s = (Inr new, s')"
  shows "list_all2 (record_of_request M) qs new \<and> list_all (storable E) new"
proof (cases "qs = []")
  case True
  with assms(3) show ?thesis by (simp add: build_records_def)
next
  case False
  obtain v now s1 s2 where v: "embed_in_batches M n (map (trim \<circ> am_text) qs) s = (Inr v, s1)" "length v = length qs"
    and m: "map_ops (\<lambda>(q, v). then_do (the_id V q) (\<lambda>i. give (new_record M now q v i))) (zip qs v) s2 = (Inr new, s')"
    using assms(3) False by (auto simp: build_records_def then_do_Inr split: option.splits if_splits)
  note small = embed_batches_small [OF assms(1) v(1)]
  have one: "record_of_request M (fst qv) r \<and> storable E r"
    if qv: "qv \<in> set (zip qs v)" "(case qv of (q, v) \<Rightarrow> then_do (the_id V q) (\<lambda>i. give (new_record M now q v i))) s3 = (Inr r, s4)"
    for qv r s3 s4
  proof -
    obtain j s5 where "the_id V (fst qv) s3 = (Inr j, s5)" "r = new_record M now (fst qv) (snd qv) j"
      using qv(2) by (auto simp: then_do_Inr split: prod.splits)
    moreover have "length (snd qv) < 2 ^ 64" using small qv(1) by (cases qv) (auto dest: set_zip_rightD)
    moreover have "fst qv \<in> set qs" using set_zip_leftD [of "fst qv" "snd qv" qs v] qv(1) by simp
    ultimately show ?thesis using new_record_of [OF _ _ assms(2)] by simp
  qed
  have "list_all2 (\<lambda>qv r. record_of_request M (fst qv) r \<and> storable E r) (zip qs v) new"
    using map_ops_Inr [OF m] by (rule list_all2_mp_set) (use one in blast)
  then show ?thesis
    using v(2) by (auto simp: list_all2_conv_all_nth list_all_length)
qed

text \<open>An addition, whatever its outcome, as a change of the records of the store.\<close>

definition added ::
    "genv \<Rightarrow> MemoryManager \<Rightarrow> AddMemoryRequest list \<Rightarrow> MemoryRecord list \<Rightarrow> MemoryStore \<Rightarrow> str list \<Rightarrow> bool" where
  "added E M qs rs t ids \<longleftrightarrow> (\<exists>new t'. t = Sqlite t' \<and> list_all2 (record_of_request M) qs new
     \<and> (new = [] \<or> check_new_profiles (me_profile_id (mm_embedder M)) rs new = Inr ())
     \<and> sqlite_holds E t' (fold put_record new rs) \<and> ids = map mr_id new)"

lemma harmless_state: "harmless m \<Longrightarrow> m s = (r, s') \<Longrightarrow> same_memories s s'"
  unfolding keeps_def by (metis snd_conv)

lemma sqlite_same:
  assumes "st_store s = Sqlite t" "sqlite_holds E t rs" "same_memories s s'"
  obtains t' where "st_store s' = Sqlite t'" "sqlite_holds E t' rs"
  using assms by (auto simp: same_memories_def sqlite_holds_def)

lemma harmless_the_id [simp, intro]: "harmless (the_id V q)"
  by (cases "am_id q") (simp_all add: the_id_def)

lemma harmless_build [simp, intro]: "harmless (build_records V M qs n)"
proof -
  have "harmless (then_do (embed_in_batches M n (map (trim \<circ> am_text) qs)) (\<lambda>embeddings.
       if length embeddings \<noteq> length qs then fail (count_error (length embeddings) (length qs) '' requests'')
       else then_do (current_time_ms V) (\<lambda>now.
         map_ops (\<lambda>(q, v). then_do (the_id V q) (\<lambda>i. give (new_record M now q v i))) (zip qs embeddings))))"
    by (intro harmless_then_do harmless_if harmless_map_ops) (auto split: prod.split)
  then show ?thesis by (cases "add_request_error qs []") (simp_all add: build_records_def)
qed

lemma harmless_validate [simp, intro]: "harmless (validate_new_record_embedding_profiles E V M new)"
proof -
  have "harmless (then_do (in_store (store_list_records E V))
        (\<lambda>stored. lift_result (check_new_profiles (me_profile_id (mm_embedder M)) stored new)))"
    by blast
  then show ?thesis by (simp add: keeps_def validate_new_record_embedding_profiles_def)
qed

lemma validate_Inr:
  assumes "st_store s = Sqlite t" "sqlite_holds E t rs"
    "validate_new_record_embedding_profiles E V M new s = (Inr u, s')"
  shows "new = [] \<or> check_new_profiles (me_profile_id (mm_embedder M)) rs new = Inr ()"
proof (rule disjCI)
  assume "check_new_profiles (me_profile_id (mm_embedder M)) rs new \<noteq> Inr ()"
  show "new = []"
  proof (rule ccontr)
    assume "new \<noteq> []"
    with assms obtain xs s1 where l: "in_store (store_list_records E V) s = (Inr xs, s1)"
        "check_new_profiles (me_profile_id (mm_embedder M)) xs new = Inr u"
      by (auto simp: validate_new_record_embedding_profiles_def is_sqlite_def then_do_Inr)
    then obtain t1 where "sqlite_list_records E V t = (Inr xs, t1)"
      using assms(1) by (auto simp: in_store_def store_list_records_def on_store_def split: prod.splits)
    then have "xs = rs" using sqlite_list(1) [OF assms(2)] by simp
    with l \<open>check_new_profiles _ rs new \<noteq> Inr ()\<close> show False by simp
  qed
qed

lemma store_added:
  assumes "st_store s = Sqlite t" "sqlite_holds E t rs" "list_all (storable E) new"
    "in_store (store_add_records E V new) s = (r, s')"
  shows "\<exists>t'. st_store s' = Sqlite t'
    \<and> sqlite_holds E t' (case r of Inl e \<Rightarrow> rs | Inr u \<Rightarrow> fold put_record new rs)"
proof -
  obtain t' where t': "sqlite_add_records E V new t = (r, t')" "st_store s' = Sqlite t'"
    using assms(1,4) by (auto simp: in_store_def store_add_records_def on_store_def split: prod.splits)
  then show ?thesis
    using sqlite_add [OF assms(2,3)] sqlite_failed(1) [OF assms(2)] by (cases r) auto
qed

end
