(* ===== verification/MemSteps.thy ===== *)
theory MemSteps
  imports MemManagerInv
begin

text \<open>
  The histories of a memory database: any managers, with any configuration and embedder, add, delete and search
  in any order, while graph workers change the graph tables: as whole operations one after another, and as the
  store's single transactions in any interleaving. The invariants of the states they reach.
\<close>

section \<open>Additions and deletions\<close>

lemma then_do_cases:
  assumes "then_do m f s = (r, s')"
  obtains (failed) e where "r = Inl e" "m s = (Inl e, s')" | (went) a s1 where "m s = (Inr a, s1)" "f a s1 = (r, s')"
  using assms by (auto simp: then_do_def split: prod.splits sum.splits)

definition unchanged :: "genv \<Rightarrow> MemoryRecord list \<Rightarrow> MemoryStore \<Rightarrow> bool" where
  "unchanged E rs t \<longleftrightarrow> (\<exists>t'. t = Sqlite t' \<and> sqlite_holds E t' rs)"

lemma same_unchanged: "same_memories s s' \<Longrightarrow> unchanged E rs (st_store s) \<Longrightarrow> unchanged E rs (st_store s')"
  using sqlite_same unfolding unchanged_def by metis

lemma harmless_unchanged:
  assumes "harmless m" "m s = (r, s')" "unchanged E rs (st_store s)"
  shows "unchanged E rs (st_store s')"
  by (rule same_unchanged [OF harmless_state [OF assms(1,2)] assms(3)])

text \<open>The two transactions with which every addition ends: checking the profiles and writing.\<close>

definition checked_write ::
    "genv \<Rightarrow> menv \<Rightarrow> MemoryManager \<Rightarrow> MemoryRecord list \<Rightarrow> 'a \<Rightarrow> (ManagerState, 'a) oper" where
  "checked_write E V M new answer = then_do (validate_new_record_embedding_profiles E V M new)
     (\<lambda>_. then_do (in_store (store_add_records E V new)) (\<lambda>_. give answer))"

lemma checked_write_result:
  assumes "unchanged E rs (st_store s)" "list_all (storable E) new" "list_all2 (record_of_request M) qs new"
    "checked_write E V M new answer s = (r, s')"
  shows "case r of Inl e \<Rightarrow> unchanged E rs (st_store s')
    | Inr a \<Rightarrow> a = answer \<and> added E M qs rs (st_store s') (map mr_id new)"
  using assms(4) unfolding checked_write_def
proof (cases rule: then_do_cases)
  case (failed e)
  then show ?thesis using harmless_unchanged [OF harmless_validate failed(2) assms(1)] by simp
next
  case (went u s1)
  obtain t where t: "st_store s = Sqlite t" "sqlite_holds E t rs" using assms(1) by (auto simp: unchanged_def)
  note checked = validate_Inr [OF t went(1)]
  obtain t1 where t1: "st_store s1 = Sqlite t1" "sqlite_holds E t1 rs"
    using harmless_unchanged [OF harmless_validate went(1) assms(1)] by (auto simp: unchanged_def)
  from went(2) show ?thesis
  proof (cases rule: then_do_cases)
    case (failed e)
    then show ?thesis using store_added [OF t1 assms(2) failed(2)] by (auto simp: unchanged_def)
  next
    case (went u s2)
    have "r = Inr answer" "s' = s2" using went(2) by (simp_all add: give_def)
    then show ?thesis using store_added [OF t1 assms(2) went(1)] checked assms(3) by (auto simp: added_def)
  qed
qed

text \<open>An addition fails without touching the memories, or builds the records of its requests and comes to
  these transactions.\<close>

definition reaches_write ::
    "genv \<Rightarrow> menv \<Rightarrow> MemoryManager \<Rightarrow> AddMemoryRequest list \<Rightarrow> ManagerState
      \<Rightarrow> (MemoryRecord list \<Rightarrow> 'a) \<Rightarrow> MemoryError + 'a \<Rightarrow> ManagerState \<Rightarrow> bool" where
  "reaches_write E V M qs s answer r s' \<longleftrightarrow> (\<exists>s1 new. same_memories s s1 \<and> list_all (storable E) new
     \<and> list_all2 (record_of_request M) qs new \<and> checked_write E V M new (answer new) s1 = (r, s'))"

lemma add_many_cases:
  assumes "small_vectors (mm_embedder M)" "requests_read_back E M qs" "add_many_with_batch_size E V M qs n s = (r, s')"
  shows "(\<exists>e. r = Inl e) \<and> same_memories s s' \<or> reaches_write E V M qs s (map (\<lambda>r. \<lparr>ar_id = mr_id r\<rparr>)) r s'"
  using assms(3) unfolding add_many_with_batch_size_def
proof (cases rule: then_do_cases)
  case (failed e)
  then show ?thesis using harmless_state [OF harmless_build] by blast
next
  case (went new s1)
  then show ?thesis
    using build_records_of [OF assms(1,2) went(1)] harmless_state [OF harmless_build went(1)]
    unfolding reaches_write_def checked_write_def by blast
qed

lemma embed_one_small:
  assumes "small_vectors ep" "embed_one ep x w = (Inr v, w')" shows "length v < 2 ^ 64"
proof -
  obtain vs w1 where "me_embed ep [x] w = (Inr vs, w1)" "vs \<noteq> []" "v = last vs"
    using assms(2) by (auto simp: embed_one_def then_do_Inr split: if_splits)
  moreover have "\<forall>x \<in> set vs. length x < 2 ^ 64"
    using assms(1) calculation(1) unfolding small_vectors_def by blast
  ultimately show ?thesis using last_in_set [of vs] by blast
qed

lemma store_add_one: "store_add_record E V r s = store_add_records E V [r] s" if "s = Sqlite t"
  using that by (simp add: store_add_record_def store_add_records_def on_store_def sqlite_add_one)

lemma add_one_write:
  assumes "unchanged E rs (st_store s)"
  shows "then_do (validate_new_record_embedding_profiles E V M [x])
    (\<lambda>_. then_do (in_store (store_add_record E V x)) (\<lambda>_. give answer)) s = checked_write E V M [x] answer s"
proof -
  have "in_store (store_add_record E V x) s = in_store (store_add_records E V [x]) s"
    if "unchanged E rs (st_store s)" for s
    using that store_add_one by (auto simp: in_store_def unchanged_def)
  then show ?thesis
    using harmless_unchanged [OF harmless_validate _ assms]
    by (auto simp: checked_write_def then_do_def split: prod.splits sum.splits)
qed

lemma add_cases:
  assumes "small_vectors (mm_embedder M)" "requests_read_back E M [q]" "unchanged E rs (st_store s)"
    "mem_add E V M q s = (r, s')"
  shows "(\<exists>e. r = Inl e) \<and> same_memories s s' \<or> reaches_write E V M [q] s (\<lambda>new. \<lparr>ar_id = mr_id (hd new)\<rparr>) r s'"
proof (cases "trim (am_text q) = []")
  case True
  with assms show ?thesis by (auto simp: mem_add_def fail_def)
next
  case False
  from assms(4) False show ?thesis unfolding mem_add_def if_not_P [OF False]
  proof (cases rule: then_do_cases)
    case (failed e)
    then show ?thesis using harmless_state [OF harmless_wire] by blast
  next
    case (went v s1)
    have v: "length v < 2 ^ 64"
      using went(1) embed_one_small [OF assms(1)] by (auto simp: in_wire_def split: prod.splits)
    obtain now s2 where s2: "current_time_ms V s1 = (Inr now, s2)" by (simp add: current_time_ms_def)
    obtain i s3 where s3: "the_id V q s2 = (Inr i, s3)"
      by (cases "am_id q") (auto simp: the_id_def give_def mem_new_v4_def)
    have same: "same_memories s s3"
      by (rule same_memories_trans [OF harmless_state [OF harmless_wire went(1)]
            same_memories_trans [OF harmless_state [OF harmless_time s2] harmless_state [OF harmless_the_id s3]]])
    have "q \<in> set [q]" by simp
    note nr = new_record_of [OF s3 v assms(2) this, of now]
    let ?x = "new_record M now q v i"
    have "then_do (validate_new_record_embedding_profiles E V M [?x])
        (\<lambda>_. then_do (in_store (store_add_record E V ?x)) (\<lambda>_. give \<lparr>ar_id = i\<rparr>)) s3 = (r, s')"
      using went(2) s2 s3 by (simp add: then_do_def Let_def)
    then have "checked_write E V M [?x] \<lparr>ar_id = mr_id (hd [?x])\<rparr> s3 = (r, s')"
      using nr by (simp add: add_one_write [OF same_unchanged [OF same assms(3)]])
    with nr same have "reaches_write E V M [q] s (\<lambda>new. \<lparr>ar_id = mr_id (hd new)\<rparr>) r s'"
      unfolding reaches_write_def by (intro exI [of _ s3] exI [of _ "[?x]"]) simp
    then show ?thesis ..
  qed
qed

lemma reaches_write_result:
  assumes "(\<exists>e. r = Inl e) \<and> same_memories s s' \<or> reaches_write E V M qs s answer r s'" "unchanged E rs (st_store s)"
  shows "case r of Inl e \<Rightarrow> unchanged E rs (st_store s')
    | Inr a \<Rightarrow> \<exists>new. a = answer new \<and> added E M qs rs (st_store s') (map mr_id new)"
  using assms(1)
proof
  assume "(\<exists>e. r = Inl e) \<and> same_memories s s'"
  then show ?thesis using same_unchanged assms(2) by (auto split: sum.split)
next
  assume "reaches_write E V M qs s answer r s'"
  then obtain s1 new where w: "same_memories s s1" "list_all (storable E) new" "list_all2 (record_of_request M) qs new"
      "checked_write E V M new (answer new) s1 = (r, s')"
    unfolding reaches_write_def by blast
  from checked_write_result [OF same_unchanged [OF w(1) assms(2)] w(2,3,4)] show ?thesis
    by (auto split: sum.splits)
qed

lemma add_many_result:
  assumes "small_vectors (mm_embedder M)" "requests_read_back E M qs" "unchanged E rs (st_store s)"
    "add_many_with_batch_size E V M qs n s = (r, s')"
  shows "case r of Inl e \<Rightarrow> unchanged E rs (st_store s')
    | Inr resp \<Rightarrow> added E M qs rs (st_store s') (map ar_id resp)"
  using reaches_write_result [OF add_many_cases [OF assms(1,2,4)] assms(3)] by (auto simp: comp_def split: sum.splits)

lemma add_result:
  assumes "small_vectors (mm_embedder M)" "requests_read_back E M [q]" "unchanged E rs (st_store s)"
    "mem_add E V M q s = (r, s')"
  shows "case r of Inl e \<Rightarrow> unchanged E rs (st_store s') | Inr resp \<Rightarrow> \<exists>ids. added E M [q] rs (st_store s') ids"
  using reaches_write_result [OF add_cases [OF assms] assms(3)] by (auto split: sum.splits)

lemma delete_result:
  assumes "store_holds E V (st_store s) rs" "delete_by_filters E V filters s = (Inr n, s')"
  shows "store_holds E V (st_store s') (retained_records filters rs)
    \<and> n = length rs - length (retained_records filters rs)"
proof (cases "filters = []")
  case True
  with assms show ?thesis by (auto simp: delete_by_filters_def retained_records_def metadata_matches_any_def)
next
  case False
  let ?P = "\<lambda>r. \<not> metadata_matches_any (mr_metadata r) filters"
  let ?op = "then_do (store_list_records E V) (\<lambda>records.
        let retained = filter ?P records; deleted = length records - length retained
        in if deleted > 0 then then_do (store_replace_all E V retained) (\<lambda>_. give deleted) else give deleted)"
  obtain records s1 where l: "in_store (store_list_records E V) s = (Inr records, s1)"
    and rest: "(let retained = retained_records filters records; deleted = length records - length retained
        in if deleted > 0 then then_do (in_store (store_replace_all E V retained)) (\<lambda>_. give deleted)
           else give deleted) s1 = (Inr n, s')"
    using assms(2) False by (auto simp: delete_by_filters_def elim: then_do_InrE)
  have l': "store_list_records E V (st_store s) = (Inr records, st_store s1)"
    using l by (auto simp: in_store_def split: prod.splits)
  have "(let retained = filter ?P records; deleted = length records - length retained
        in if deleted > 0 then then_do (store_replace_all E V retained) (\<lambda>_. give deleted) else give deleted)
      (st_store s1) = (Inr n, st_store s')"
  proof (cases "length records - length (filter ?P records) > 0")
    case True
    with rest have "then_do (in_store (store_replace_all E V (filter ?P records)))
        (\<lambda>_. give (length records - length (filter ?P records))) s1 = (Inr n, s')"
      by (simp add: retained_records_def Let_def)
    then obtain u s2 where "in_store (store_replace_all E V (filter ?P records)) s1 = (Inr u, s2)"
        "(give (length records - length (filter ?P records)) :: (ManagerState, nat) oper) s2 = (Inr n, s')"
      by (rule then_do_InrE)
    then show ?thesis using True by (auto simp: Let_def then_do_Inr in_store_def split: prod.splits)
  next
    case False
    then show ?thesis using rest unfolding retained_records_def Let_def if_not_P [OF False] by simp
  qed
  with l' have "?op (st_store s) = (Inr n, st_store s')" by (simp add: then_do_def)
  from any_store.deletes [OF assms(1) this] show ?thesis by (simp add: retained_records_def)
qed

lemma delete_failed:
  assumes "unchanged E rs (st_store s)" "delete_by_filters E V filters s = (Inl e, s')"
  shows "unchanged E rs (st_store s')"
proof -
  have "then_do (in_store (store_list_records E V)) (\<lambda>records.
        let retained = retained_records filters records; deleted = length records - length retained
        in if deleted > 0 then then_do (in_store (store_replace_all E V retained)) (\<lambda>_. give deleted)
           else give deleted) s = (Inl e, s')"
    using assms(2) by (auto simp: delete_by_filters_def split: if_splits)
  then show ?thesis
  proof (cases rule: then_do_cases)
    case (failed e)
    then show ?thesis using harmless_unchanged [OF harmless_list failed(2) assms(1)] by simp
  next
    case (went records s1)
    obtain t1 where t1: "st_store s1 = Sqlite t1" "sqlite_holds E t1 rs"
      using harmless_unchanged [OF harmless_list went(1) assms(1)] by (auto simp: unchanged_def)
    then show ?thesis
      using went(2) sqlite_failed(2) [OF t1(2)]
      by (auto simp: Let_def then_do_def in_store_def store_replace_all_def on_store_def unchanged_def
          split: if_splits prod.splits sum.splits)
  qed
qed


section \<open>Histories\<close>

inductive mem_step :: "genv \<Rightarrow> renv \<Rightarrow> menv \<Rightarrow> ManagerState \<Rightarrow> ManagerState \<Rightarrow> bool" for E R V where
  step_add: "small_vectors (mm_embedder M) \<Longrightarrow> requests_read_back E M [q] \<Longrightarrow>
    mem_step E R V s (snd (mem_add E V M q s))"
| step_add_many: "small_vectors (mm_embedder M) \<Longrightarrow> requests_read_back E M qs \<Longrightarrow>
    mem_step E R V s (snd (add_many_with_batch_size E V M qs n s))"
| step_delete: "mem_step E R V s (snd (delete_by_filters E V filters s))"
| step_search: "mem_step E R V s (snd (search E R V M sq s))"
| step_search_many: "mem_step E R V s (snd (search_many_with_batch_size E R V M sqs n s))"
| step_graph: "mem_step E R V s (s\<lparr>st_graph := g\<rparr>)"

inductive mem_reachable :: "genv \<Rightarrow> renv \<Rightarrow> menv \<Rightarrow> ManagerState \<Rightarrow> bool" for E R V where
  fresh: "st_store s = Sqlite (SqliteMemoryStore_new create) \<Longrightarrow> mem_reachable E R V s"
| after: "mem_reachable E R V s \<Longrightarrow> mem_step E R V s s' \<Longrightarrow> mem_reachable E R V s'"

definition memories_ok :: "genv \<Rightarrow> ManagerState \<Rightarrow> MemoryRecord list \<Rightarrow> bool" where
  "memories_ok E s rs \<longleftrightarrow> unchanged E rs (st_store s) \<and> one_profile rs"

lemma added_ok:
  assumes "one_profile rs" "added E M qs rs (st_store s) ids"
  shows "\<exists>rs. memories_ok E s rs"
  using assms put_one_profile by (auto simp: added_def memories_ok_def unchanged_def)

lemma step_ok:
  assumes "memories_ok E s rs" "mem_step E R V s s'"
  shows "\<exists>rs. memories_ok E s' rs"
proof -
  have u: "unchanged E rs (st_store s)" "one_profile rs" using assms(1) by (auto simp: memories_ok_def)
  have h: "\<exists>rs. memories_ok E (snd (m s)) rs" if "harmless m" for m :: "(ManagerState, 'a) oper"
    using harmless_unchanged [OF that _ u(1)] u(2) by (metis memories_ok_def prod.collapse)
  from assms(2) show ?thesis
  proof (cases rule: mem_step.cases)
    case (step_add M q)
    then show ?thesis
      using add_result [OF step_add(2,3) u(1), of V "fst (mem_add E V M q s)" s'] u(2) added_ok
      by (cases "fst (mem_add E V M q s)") (auto simp: memories_ok_def prod_eq_iff)
  next
    case (step_add_many M qs n)
    then show ?thesis
      using add_many_result [OF step_add_many(2,3) u(1), of V n "fst (add_many_with_batch_size E V M qs n s)" s']
        u(2) added_ok
      by (cases "fst (add_many_with_batch_size E V M qs n s)") (auto simp: memories_ok_def prod_eq_iff)
  next
    case (step_delete filters)
    show ?thesis
    proof (cases "fst (delete_by_filters E V filters s)")
      case (Inl e)
      then have "delete_by_filters E V filters s = (Inl e, s')" using step_delete by (simp add: prod_eq_iff)
      from delete_failed [OF u(1) this] u(2) show ?thesis by (auto simp: memories_ok_def)
    next
      case (Inr n)
      then have d: "delete_by_filters E V filters s = (Inr n, s')" using step_delete by (simp add: prod_eq_iff)
      obtain t where t: "st_store s = Sqlite t" "sqlite_holds E t rs" using u(1) by (auto simp: unchanged_def)
      have "store_holds E V (st_store s) rs" using t by (simp add: store_holds_def)
      note dr = delete_result [OF this d]
      have "\<exists>t'. st_store s' = Sqlite t'"
        using d t(1) by (auto simp: delete_by_filters_def then_do_def in_store_def store_list_records_def
            store_replace_all_def on_store_def Let_def give_def split: if_splits prod.splits sum.splits)
      then have "unchanged E (retained_records filters rs) (st_store s')"
        using dr by (auto simp: unchanged_def store_holds_def)
      moreover have "one_profile (retained_records filters rs)"
        using u(2) by (simp add: retained_records_def one_profile_filter)
      ultimately show ?thesis by (auto simp: memories_ok_def)
    qed
  next
    case (step_search M sq)
    then show ?thesis using h [OF harmless_search] by simp
  next
    case (step_search_many M sqs n)
    then show ?thesis using h [OF harmless_search_many] by simp
  next
    case (step_graph g)
    then show ?thesis using u by (auto simp: memories_ok_def)
  qed
qed

lemma mem_reachable_ok:
  assumes "mem_reachable E R V s"
  shows "\<exists>rs. memories_ok E s rs"
  using assms
proof induction
  case (fresh s create)
  then have "memories_ok E s []"
    using holds_empty
    by (auto simp: memories_ok_def unchanged_def sqlite_holds_def SqliteMemoryStore_new_def one_profile_def)
  then show ?case ..
next
  case (after s s')
  then show ?case using step_ok by blast
qed


section \<open>Transactions\<close>

text \<open>
  The store's own transactions, of managers and processes that work at the same time: a listing, which its
  caller keeps and may use at any later time, the write of the records of an addition, and the write of what
  a deletion retains of one of the earlier listings. Whether a write checked the embedding profiles, and
  against which listing, is left open. Between them the memories stay as they are: searches, the graph workers,
  embedding, clocks and progress.
\<close>

inductive tx_reachable :: "genv \<Rightarrow> menv \<Rightarrow> ManagerState \<Rightarrow> MemoryRecord list list \<Rightarrow> bool" for E V where
  tx_fresh: "st_store s = Sqlite (SqliteMemoryStore_new create) \<Longrightarrow> tx_reachable E V s []"
| tx_list: "tx_reachable E V s listings \<Longrightarrow> in_store (store_list_records E V) s = (r, s') \<Longrightarrow>
    tx_reachable E V s' (case r of Inl e \<Rightarrow> listings | Inr xs \<Rightarrow> xs # listings)"
| tx_write: "tx_reachable E V s listings \<Longrightarrow> list_all2 (record_of_request M) qs new \<Longrightarrow> list_all (storable E) new \<Longrightarrow>
    in_store (store_add_records E V new) s = (r, s') \<Longrightarrow> tx_reachable E V s' listings"
| tx_rewrite: "tx_reachable E V s listings \<Longrightarrow> xs \<in> set listings \<Longrightarrow>
    in_store (store_replace_all E V (retained_records filters xs)) s = (r, s') \<Longrightarrow> tx_reachable E V s' listings"
| tx_other: "tx_reachable E V s listings \<Longrightarrow> same_memories s s' \<Longrightarrow> tx_reachable E V s' listings"

text \<open>Every operation of a manager is a sequence of these, so the histories of whole operations are among theirs.\<close>

definition listing_ok :: "genv \<Rightarrow> MemoryRecord list \<Rightarrow> bool" where
  "listing_ok E xs \<longleftrightarrow> list_all (storable E) xs \<and> distinct (map mr_id xs)"

definition tx_ok :: "genv \<Rightarrow> ManagerState \<Rightarrow> MemoryRecord list list \<Rightarrow> bool" where
  "tx_ok E s listings \<longleftrightarrow> (\<exists>rs. unchanged E rs (st_store s)) \<and> list_all (listing_ok E) listings"

lemma unchanged_listing: "unchanged E rs t \<Longrightarrow> listing_ok E rs"
  using holds_storable by (auto simp: unchanged_def sqlite_holds_def listing_ok_def holds_records_def)

lemma replaced_ok:
  assumes "unchanged E rs (st_store s)" "listing_ok E xs" "in_store (store_replace_all E V xs) s = (r, s')"
  shows "\<exists>rs. unchanged E rs (st_store s')"
proof -
  obtain t where t: "st_store s = Sqlite t" "sqlite_holds E t rs" using assms(1) by (auto simp: unchanged_def)
  then obtain t' where t': "sqlite_replace_all E V xs t = (r, t')" "st_store s' = Sqlite t'"
    using assms(3) by (auto simp: in_store_def store_replace_all_def on_store_def split: prod.splits)
  have "list_all (storable E) xs" using assms(2) by (simp add: listing_ok_def)
  then show ?thesis
    using sqlite_replace [OF t(2)] sqlite_failed(2) [OF t(2)] t' unfolding unchanged_def by (cases r) blast+
qed

lemma listing_ok_retained: "listing_ok E xs \<Longrightarrow> listing_ok E (retained_records filters xs)"
  by (auto simp: listing_ok_def retained_records_def list_all_iff distinct_map_filter)

lemma tx_reachable_ok: "tx_reachable E V s listings \<Longrightarrow> tx_ok E s listings"
proof (induction rule: tx_reachable.induct)
  case (tx_fresh s create)
  then have "unchanged E [] (st_store s)"
    using holds_empty by (simp add: unchanged_def sqlite_holds_def SqliteMemoryStore_new_def)
  then show ?case by (auto simp: tx_ok_def)
next
  case (tx_list s listings r s')
  then obtain rs where u: "unchanged E rs (st_store s)" "list_all (listing_ok E) listings" by (auto simp: tx_ok_def)
  note u' = harmless_unchanged [OF harmless_list tx_list(2) u(1)]
  obtain t where t: "st_store s = Sqlite t" "sqlite_holds E t rs" using u(1) by (auto simp: unchanged_def)
  then obtain t' where "sqlite_list_records E V t = (r, t')"
    using tx_list(2) by (auto simp: in_store_def store_list_records_def on_store_def split: prod.splits)
  then have "r = Inr xs \<Longrightarrow> xs = rs" for xs using sqlite_list(1) [OF t(2)] by blast
  with u u' unchanged_listing [OF u(1)] show ?case by (auto simp: tx_ok_def split: sum.split)
next
  case (tx_write s listings M qs new r s')
  then obtain rs t where "st_store s = Sqlite t" "sqlite_holds E t rs" by (auto simp: tx_ok_def unchanged_def)
  from store_added [OF this tx_write(3,4)] tx_write(5) show ?case by (auto simp: tx_ok_def unchanged_def)
next
  case (tx_rewrite s listings xs filters r s')
  then obtain rs where u: "unchanged E rs (st_store s)" "list_all (listing_ok E) listings" by (auto simp: tx_ok_def)
  then have "listing_ok E (retained_records filters xs)"
    using tx_rewrite(2) listing_ok_retained by (simp add: list_all_iff)
  from replaced_ok [OF u(1) this tx_rewrite(3)] u(2) show ?case by (simp add: tx_ok_def)
next
  case (tx_other s listings s')
  then show ?case using same_unchanged unfolding tx_ok_def by blast
qed

lemma tx_harmless:
  "tx_reachable E V s listings \<Longrightarrow> harmless m \<Longrightarrow> m s = (r, s') \<Longrightarrow> tx_reachable E V s' listings"
  using tx_other harmless_state by blast

lemma tx_checked_write:
  assumes "tx_reachable E V s listings" "list_all2 (record_of_request M) qs new" "list_all (storable E) new"
    "checked_write E V M new answer s = (r, s')"
  shows "tx_reachable E V s' listings"
  using assms(4) unfolding checked_write_def
proof (cases rule: then_do_cases)
  case (failed e)
  then show ?thesis using tx_harmless [OF assms(1) harmless_validate] by blast
next
  case (went u s1)
  note t1 = tx_harmless [OF assms(1) harmless_validate went(1)]
  from went(2) show ?thesis
  proof (cases rule: then_do_cases)
    case (failed e)
    then show ?thesis using tx_write [OF t1 assms(2,3)] by blast
  next
    case (went u s2)
    then show ?thesis using tx_write [OF t1 assms(2,3) went(1)] by (simp add: give_def)
  qed
qed

lemma tx_addition:
  assumes "tx_reachable E V s listings"
    "(\<exists>e. r = Inl e) \<and> same_memories s s' \<or> reaches_write E V M qs s answer r s'"
  shows "tx_reachable E V s' listings"
  using assms(2)
proof
  assume "(\<exists>e. r = Inl e) \<and> same_memories s s'"
  then show ?thesis using tx_other [OF assms(1)] by simp
next
  assume "reaches_write E V M qs s answer r s'"
  then obtain s1 new where w: "same_memories s s1" "list_all (storable E) new" "list_all2 (record_of_request M) qs new"
      "checked_write E V M new (answer new) s1 = (r, s')"
    unfolding reaches_write_def by (elim exE conjE)
  show ?thesis by (rule tx_checked_write [OF tx_other [OF assms(1) w(1)] w(3,2,4)])
qed

lemma tx_delete:
  assumes "tx_reachable E V s listings" "delete_by_filters E V filters s = (r, s')"
  shows "\<exists>listings. tx_reachable E V s' listings"
proof (cases "filters = []")
  case True
  with assms show ?thesis by (auto simp: delete_by_filters_def give_def)
next
  case False
  from assms(2) show ?thesis unfolding delete_by_filters_def if_not_P [OF False]
  proof (cases rule: then_do_cases)
    case (failed e)
    then show ?thesis using tx_list [OF assms(1)] by blast
  next
    case (went xs s1)
    have t1: "tx_reachable E V s1 (xs # listings)" using tx_list [OF assms(1) went(1)] by simp
    have "xs \<in> set (xs # listings)" by simp
    note w = tx_rewrite [OF t1 this, of filters]
    show ?thesis
    proof (cases "length xs - length (retained_records filters xs) > 0")
      case True
      with went(2) have "then_do (in_store (store_replace_all E V (retained_records filters xs)))
          (\<lambda>_. give (length xs - length (retained_records filters xs))) s1 = (r, s')"
        by (simp add: Let_def)
      then show ?thesis using w by (cases rule: then_do_cases) (auto simp: give_def)
    next
      case False
      with went(2) t1 show ?thesis by (auto simp: Let_def give_def)
    qed
  qed
qed

lemma mem_step_transactions:
  assumes "tx_reachable E V s listings" "mem_step E R V s s'"
  shows "\<exists>listings. tx_reachable E V s' listings"
proof -
  obtain rs where u: "unchanged E rs (st_store s)" using tx_reachable_ok [OF assms(1)] by (auto simp: tx_ok_def)
  from assms(2) show ?thesis
  proof (cases rule: mem_step.cases)
    case (step_add M q)
    then have "mem_add E V M q s = (fst (mem_add E V M q s), s')" by simp
    from tx_addition [OF assms(1) add_cases [OF step_add(2,3) u this]] show ?thesis ..
  next
    case (step_add_many M qs n)
    then have "add_many_with_batch_size E V M qs n s = (fst (add_many_with_batch_size E V M qs n s), s')" by simp
    from tx_addition [OF assms(1) add_many_cases [OF step_add_many(2,3) this]] show ?thesis ..
  next
    case (step_delete filters)
    then have "delete_by_filters E V filters s = (fst (delete_by_filters E V filters s), s')" by simp
    from tx_delete [OF assms(1) this] show ?thesis .
  next
    case (step_search M sq)
    then have "search E R V M sq s = (fst (search E R V M sq s), s')" by simp
    from tx_harmless [OF assms(1) harmless_search this] show ?thesis ..
  next
    case (step_search_many M sqs n)
    then have "search_many_with_batch_size E R V M sqs n s = (fst (search_many_with_batch_size E R V M sqs n s), s')" by simp
    from tx_harmless [OF assms(1) harmless_search_many this] show ?thesis ..
  next
    case (step_graph g)
    have "same_memories s s'" using step_graph by (simp add: same_memories_def split: MemoryStore.split)
    from tx_other [OF assms(1) this] show ?thesis ..
  qed
qed

lemma mem_reachable_transactions: "mem_reachable E R V s \<Longrightarrow> \<exists>listings. tx_reachable E V s listings"
proof (induction rule: mem_reachable.induct)
  case (fresh s create)
  then show ?case using tx_fresh by blast
next
  case (after s s')
  then show ?case using mem_step_transactions by blast
qed

end
