(* ===== verification/MemSample.thy ===== *)
theory MemSample
  imports MemSteps
begin

text \<open>
  A concrete environment for the memory manager: a coding of JSON values as lists of numbers that reads back
  what it writes, a provider of constant vectors, and stores with a few records.
\<close>

section \<open>A JSON coding\<close>

fun encode_json :: "json \<Rightarrow> nat list" where
  "encode_json JNull = [0]"
| "encode_json (JBool b) = [if b then 1 else 2]"
| "encode_json (JNumber s) = 3 # length s # s"
| "encode_json (JString s) = 4 # length s # s"
| "encode_json (JArray vs) = 5 # length vs # concat (map encode_json vs)"
| "encode_json (JObject kvs) = 6 # length kvs # concat (map (\<lambda>(k, v). length k # k @ encode_json v) kvs)"

fun decode_list :: "(nat list \<Rightarrow> ('a \<times> nat list) option) \<Rightarrow> nat \<Rightarrow> nat list \<Rightarrow> ('a list \<times> nat list) option" where
  "decode_list f 0 s = Some ([], s)"
| "decode_list f (Suc n) s = (case f s of None \<Rightarrow> None
     | Some (x, s) \<Rightarrow> (case decode_list f n s of None \<Rightarrow> None | Some (xs, s) \<Rightarrow> Some (x # xs, s)))"

fun decode_str :: "nat list \<Rightarrow> (str \<times> nat list) option" where
  "decode_str [] = None"
| "decode_str (n # s) = Some (take n s, drop n s)"

fun decode_json :: "nat \<Rightarrow> nat list \<Rightarrow> (json \<times> nat list) option" where
  "decode_json (Suc fuel) (c # s) =
     (if c = 0 then Some (JNull, s)
      else if c = 1 then Some (JBool True, s)
      else if c = 2 then Some (JBool False, s)
      else if c = 3 then map_option (\<lambda>(t, s). (JNumber t, s)) (decode_str s)
      else if c = 4 then map_option (\<lambda>(t, s). (JString t, s)) (decode_str s)
      else if s = [] then None
      else if c = 5 then
        map_option (\<lambda>(vs, s). (JArray vs, s)) (decode_list (decode_json fuel) (hd s) (tl s))
      else map_option (\<lambda>(kvs, s). (JObject kvs, s)) (decode_list (\<lambda>s. case decode_str s of None \<Rightarrow> None
         | Some (k, s) \<Rightarrow> map_option (\<lambda>(v, s). ((k, v), s)) (decode_json fuel s)) (hd s) (tl s)))"
| "decode_json _ _ = None"

lemma decode_list_encoded:
  assumes "\<And>x s. x \<in> set xs \<Longrightarrow> f (g x @ s) = Some (x, s)"
  shows "decode_list f (length xs) (concat (map g xs) @ s) = Some (xs, s)"
  using assms by (induction xs arbitrary: s) auto

fun json_depth :: "json \<Rightarrow> nat" where
  "json_depth (JArray vs) = Suc (sum_list (map json_depth vs))"
| "json_depth (JObject kvs) = Suc (sum_list (map (\<lambda>(k, v). json_depth v) kvs))"
| "json_depth _ = 1"

lemma decode_encode: "json_depth v \<le> fuel \<Longrightarrow> decode_json fuel (encode_json v @ s) = Some (v, s)"
proof (induction v arbitrary: fuel s)
  case (JArray vs)
  obtain n where n: "fuel = Suc n" "sum_list (map json_depth vs) \<le> n" using JArray.prems by (cases fuel) auto
  have "decode_list (decode_json n) (length vs) (concat (map encode_json vs) @ s) = Some (vs, s)"
  proof (rule decode_list_encoded)
    fix x s assume "x \<in> set vs"
    moreover from this have "json_depth x \<le> n" using member_le_sum_list [of "json_depth x" "map json_depth vs"] n by simp
    ultimately show "decode_json n (encode_json x @ s) = Some (x, s)" using JArray.IH by blast
  qed
  then show ?case using n by simp
next
  case (JObject kvs)
  obtain n where n: "fuel = Suc n" "sum_list (map (\<lambda>(k, v). json_depth v) kvs) \<le> n"
    using JObject.prems by (cases fuel) auto
  have "decode_list (\<lambda>s. case decode_str s of None \<Rightarrow> None
       | Some (k, s) \<Rightarrow> map_option (\<lambda>(v, s). ((k, v), s)) (decode_json n s)) (length kvs)
      (concat (map (\<lambda>(k, v). length k # k @ encode_json v) kvs) @ s) = Some (kvs, s)"
  proof (rule decode_list_encoded)
    fix x s assume x: "x \<in> set kvs"
    then have "json_depth (snd x) \<le> sum_list (map (\<lambda>(k, v). json_depth v) kvs)"
      using member_le_sum_list [of "json_depth (snd x)" "map (\<lambda>(k, v). json_depth v) kvs"]
      by (force simp: image_iff case_prod_beta)
    then have "decode_json n (encode_json (snd x) @ s) = Some (snd x, s)"
      using JObject.IH [OF x, of "snd x"] n by (cases x) simp
    then show "(case decode_str ((case x of (k, v) \<Rightarrow> length k # k @ encode_json v) @ s) of None \<Rightarrow> None
       | Some (k, s) \<Rightarrow> map_option (\<lambda>(v, s). ((k, v), s)) (decode_json n s)) = Some (x, s)"
      by (cases x) simp
  qed
  then show ?case using n by simp
next
  case JNull
  then show ?case by (cases fuel) simp_all
next
  case (JBool b)
  then show ?case by (cases fuel) simp_all
next
  case (JNumber t)
  then show ?case by (cases fuel) simp_all
next
  case (JString t)
  then show ?case by (cases fuel) simp_all
qed

lemma json_depth_le: "json_depth v \<le> length (encode_json v)"
proof (induction v)
  case (JArray vs)
  have "sum_list (map json_depth vs) \<le> length (concat (map encode_json vs))"
    using JArray.IH by (induction vs) (auto simp: add_mono)
  then show ?case by simp
next
  case (JObject kvs)
  have "sum_list (map (\<lambda>(k, v). json_depth v) kvs)
      \<le> length (concat (map (\<lambda>(k, v). length k # k @ encode_json v) kvs))"
    using JObject.IH
  proof (induction kvs)
    case (Cons x kvs)
    obtain k v where x: "x = (k, v)" by (cases x)
    have "json_depth v \<le> length (encode_json v)" using Cons.prems [of x v] x by simp
    moreover have "sum_list (map (\<lambda>(k, v). json_depth v) kvs)
      \<le> length (concat (map (\<lambda>(k, v). length k # k @ encode_json v) kvs))"
      by (rule Cons.IH) (use Cons.prems in auto)
    ultimately show ?case by (simp add: x)
  qed simp
  then show ?case by simp
qed simp_all

definition read_json :: "nat list \<Rightarrow> str + json" where
  "read_json s = (case decode_json (length s) s of Some (v, []) \<Rightarrow> Inr v | _ \<Rightarrow> Inl [])"

lemma read_encoded [simp]: "read_json (encode_json v) = Inr v"
  using decode_encode [of v "length (encode_json v)" "[]"] json_depth_le [of v] by (simp add: read_json_def)


section \<open>The environment\<close>

definition sample_genv :: genv where
  "sample_genv = \<lparr>g_nfc = id, g_lower = id, g_to_string = encode_json, g_from_str = read_json,
     g_uuid_v5 = id, g_uuid_v4 = (\<lambda>n. [n]), g_now = id, g_elapsed = int, g_fault = (\<lambda>_. None),
     g_constraint = [], g_no_rows = [], g_in_unit = (\<lambda>_. True), g_u64_json = (\<lambda>_. JNull)\<rparr>"

definition sample_renv :: renv where
  "sample_renv = \<lparr>q_alnum = (\<lambda>_. True), q_syntax = (\<lambda>_. None), q_match = (\<lambda>_ _. True), q_bm25 = (\<lambda>_ _ _. 0),
     q_conversion = id\<rparr>"

text \<open>Equal vectors have distance zero, others one.\<close>

definition sample_menv :: menv where
  "sample_menv = \<lparr>v_uuid = (\<lambda>n. [n]), v_now = (\<lambda>_. 0), v_fault = (\<lambda>_. None), v_locked = (\<lambda>_. False),
     v_cannot_open = [], v_null = [], v_bm25 = (\<lambda>_ _ _. (0, 0)),
     v_distance = (\<lambda>a b. Inr (Some (if a = b then (0, 0) else (1, F_ONE)))),
     v_line = (\<lambda>_. [97]), v_parse_line = (\<lambda>_. Inl []), v_write_fault = (\<lambda>_. None), v_f32_json = (\<lambda>_. JNull)\<rparr>"

definition sample_embedder :: "nat \<Rightarrow> MemoryEmbedder" where
  "sample_embedder n = \<lparr>me_dimensions = 1, me_model_name = [], me_profile_id = [n],
     me_embed = (\<lambda>texts. give (map (\<lambda>_. [0]) texts))\<rparr>"

definition sample_manager :: MemoryManager where
  "sample_manager = with_retrieval_config (sample_embedder 1) (RetrievalConfig_default\<lparr>rc_mode := Dense\<rparr>)"

definition mem_sample_state :: ManagerState where
  "mem_sample_state = \<lparr>st_store = Sqlite (SqliteMemoryStore_new True), st_graph = \<lparr>repo_db = initialize_schema, repo_ops = 0\<rparr>,
     st_wire = \<lparr>w_requests = 0, w_sleeps = []\<rparr>, st_uuids = 0, st_readings = 0, st_progress = []\<rparr>"

definition sample_add :: AddMemoryRequest where
  "sample_add = \<lparr>am_id = Some [1], am_text = [65], am_metadata = JObject []\<rparr>"

lemma sample_reads_back [simp]: "reads_back sample_genv v" "requests_read_back sample_genv M qs"
  by (simp_all add: requests_read_back_def reads_back_def sample_genv_def list_all_iff)

lemma sample_small: "small_vectors (sample_embedder n)"
  by (auto simp: small_vectors_def sample_embedder_def)

lemma mem_sample_reachable: "mem_reachable sample_genv sample_renv sample_menv mem_sample_state"
  by (rule mem_reachable.fresh [of _ True]) (simp add: mem_sample_state_def)


section \<open>An addition\<close>

lemmas sample_simps = sample_genv_def sample_menv_def sample_renv_def sample_embedder_def sample_manager_def
  mem_sample_state_def sample_add_def with_retrieval_config_def

lemma chunks_one: "n > 0 \<Longrightarrow> chunks n [x] = [[x]]"
  by (simp add: chunks.simps)

lemma trim_letter [simp]: "trim [65] = [65]"
  by (simp add: trim_def trim_start_def trim_end_def is_ws_def)

definition sample_record :: MemoryRecord where
  "sample_record = new_record sample_manager 0 sample_add [0] [1]"

lemma sample_build:
  "build_records sample_menv sample_manager [sample_add] 64 mem_sample_state
    = (Inr [sample_record], mem_sample_state\<lparr>st_readings := 1, st_progress := [1]\<rparr>)"
  by (simp add: build_records_def sample_simps sample_record_def new_record_def embed_in_batches_def chunks_one
      then_do_def in_wire_def report_def give_def current_time_ms_def the_id_def embedding_profile_metadata_def)

lemma sample_no_fault:
  "f (ss_db t) = (Inr a, db) \<Longrightarrow> ss_create_if_missing t \<Longrightarrow> mem_run_sqlite_operation sample_menv f t
    = (Inr a, t\<lparr>ss_attempts := Suc (ss_attempts t), ss_exists := True, ss_db := db\<rparr>)"
  by (rule mem_run_no_fault) (simp_all add: sample_menv_def)

lemma sample_run_ok:
  "ss_create_if_missing t \<Longrightarrow> f (ss_db t) = (Inr a, db) \<Longrightarrow> \<exists>t'. mem_run_sqlite_operation sample_menv f t = (Inr a, t')
     \<and> ss_create_if_missing t' \<and> ss_db t' = db"
  by (simp add: sample_no_fault)

lemma sample_list:
  assumes "st_store s = Sqlite t" "ss_create_if_missing t" "sqlite_holds sample_genv t rs"
  shows "\<exists>s' t'. in_store (store_list_records sample_genv sample_menv) s = (Inr rs, s')
    \<and> st_store s' = Sqlite t' \<and> ss_create_if_missing t' \<and> ss_db t' = ss_db t"
proof -
  have "list_records_db sample_genv (ss_db t) = Inr rs"
    using assms(3) list_records_holds by (auto simp: sqlite_holds_def)
  then have "\<exists>t'. sqlite_list_records sample_genv sample_menv t = (Inr rs, t') \<and> ss_create_if_missing t' \<and> ss_db t' = ss_db t"
    unfolding sqlite_list_records_def by (intro sample_run_ok assms(2)) simp
  then show ?thesis using assms(1) by (auto simp: in_store_def store_list_records_def on_store_def)
qed

lemma sample_put:
  assumes "st_store s = Sqlite t" "ss_create_if_missing t"
  shows "\<exists>s' t'. in_store (store_add_records sample_genv sample_menv new) s = (Inr (), s')
    \<and> st_store s' = Sqlite t' \<and> ss_create_if_missing t' \<and> ss_db t' = fold (upsert_record sample_genv) new (ss_db t)"
proof -
  have "\<exists>t'. sqlite_add_records sample_genv sample_menv new t = (Inr (), t') \<and> ss_create_if_missing t'
      \<and> ss_db t' = fold (upsert_record sample_genv) new (ss_db t)"
    unfolding sqlite_add_records_def by (intro sample_run_ok assms(2)) simp
  then show ?thesis using assms(1) by (auto simp: in_store_def store_add_records_def on_store_def)
qed

lemma sample_start:
  "sqlite_holds sample_genv (SqliteMemoryStore_new True) []" "ss_create_if_missing (SqliteMemoryStore_new True)"
  using holds_empty by (simp_all add: sqlite_holds_def SqliteMemoryStore_new_def)

lemma sample_added: "\<exists>s'. add_many_with_batch_size sample_genv sample_menv sample_manager [sample_add] 64 mem_sample_state
    = (Inr [\<lparr>ar_id = [1]\<rparr>], s')"
proof -
  let ?s = "mem_sample_state\<lparr>st_readings := 1, st_progress := [1]\<rparr>"
  have s: "st_store ?s = Sqlite (SqliteMemoryStore_new True)" by (simp add: mem_sample_state_def)
  obtain s1 t1 where s1: "in_store (store_list_records sample_genv sample_menv) ?s = (Inr [], s1)"
      "st_store s1 = Sqlite t1" "ss_create_if_missing t1"
    using sample_list [OF s sample_start(2) sample_start(1)] by blast
  have "check_new_profiles (me_profile_id (mm_embedder sample_manager)) [] [sample_record] = Inr ()"
    by (simp add: check_new_profiles_def expect_profile_def insert_expected_embedding_profile_def sample_record_def
        new_record_def sample_add_def metadata_with_embedding_profile_def extract_scope_id_def
        EMBEDDING_PROFILE_METADATA_KEY_def)
  then have v: "validate_new_record_embedding_profiles sample_genv sample_menv sample_manager [sample_record] ?s
      = (Inr (), s1)"
    using s1(1) s by (simp add: validate_new_record_embedding_profiles_def is_sqlite_def then_do_def lift_result_def)
  obtain s2 where s2: "in_store (store_add_records sample_genv sample_menv [sample_record]) s1 = (Inr (), s2)"
    using sample_put [OF s1(2,3)] by blast
  have "mr_id sample_record = [1]" by (simp add: sample_record_def new_record_def)
  then show ?thesis
    by (simp add: add_many_with_batch_size_def then_do_def sample_build v s2 give_def del: One_nat_def)
qed


section \<open>A deletion and a search\<close>

definition sample_stored :: ManagerState where
  "sample_stored = mem_sample_state\<lparr>st_store := Sqlite ((SqliteMemoryStore_new True)\<lparr>ss_db :=
     upsert_record sample_genv sample_record \<lparr>md_memories = [], md_fts = []\<rparr>\<rparr>)\<rparr>"

lemma sample_stored_holds: "store_holds sample_genv sample_menv (st_store sample_stored) [sample_record]"
proof -
  have "storable sample_genv sample_record" by (simp add: storable_def sample_record_def new_record_def)
  from holds_upsert [OF holds_empty this] show ?thesis
    by (simp add: store_holds_def sample_stored_def sqlite_holds_def put_record_def)
qed

lemma sample_delete:
  "\<exists>s'. delete_by_filters sample_genv sample_menv [JObject []] sample_stored = (Inr 1, s')"
proof -
  let ?t = "(SqliteMemoryStore_new True)\<lparr>ss_db := upsert_record sample_genv sample_record \<lparr>md_memories = [], md_fts = []\<rparr>\<rparr>"
  have t: "st_store sample_stored = Sqlite ?t" "ss_create_if_missing ?t"
    by (simp_all add: sample_stored_def SqliteMemoryStore_new_def)
  have "sqlite_holds sample_genv ?t [sample_record]" using sample_stored_holds t(1) by (simp add: store_holds_def)
  from sample_list [OF t this] obtain s1 t1 where
      l: "in_store (store_list_records sample_genv sample_menv) sample_stored = (Inr [sample_record], s1)"
    and t1: "st_store s1 = Sqlite t1" "ss_create_if_missing t1"
    by blast
  obtain t2 where "sqlite_replace_all sample_genv sample_menv [] t1 = (Inr (), t2)"
    using sample_run_ok [OF t1(2), of "\<lambda>db. (Inr (), fold (upsert_record sample_genv) [] \<lparr>md_memories = [], md_fts = []\<rparr>)"]
    by (auto simp: sqlite_replace_all_def)
  then have r: "in_store (store_replace_all sample_genv sample_menv []) s1 = (Inr (), s1\<lparr>st_store := Sqlite t2\<rparr>)"
    using t1(1) by (simp add: in_store_def store_replace_all_def on_store_def)
  have "retained_records [JObject []] [sample_record] = []"
    by (simp add: retained_records_def metadata_matches_any_def metadata_matches_def sample_record_def new_record_def
        sample_add_def metadata_with_embedding_profile_def)
  with l r show ?thesis by (simp add: delete_by_filters_def then_do_def give_def Let_def)
qed

text \<open>A file store with one line, whose record matches the filter.\<close>

definition sample_found :: MemoryRecord where
  "sample_found = \<lparr>mr_id = [1], mr_text = [65], mr_metadata = JObject [([107], JBool True)], mr_embedding = [],
     mr_created_at_ms = 0, mr_updated_at_ms = 0\<rparr>"

definition sample_file_menv :: menv where
  "sample_file_menv = sample_menv\<lparr>v_parse_line := (\<lambda>_. Inr sample_found)\<rparr>"

definition sample_file_state :: ManagerState where
  "sample_file_state = mem_sample_state\<lparr>st_store := File \<lparr>fm_content = Some [97, 10], fm_ops = 0\<rparr>\<rparr>"

definition sample_file_manager :: MemoryManager where
  "sample_file_manager = sample_manager\<lparr>mm_embedder := (sample_embedder 1)\<lparr>me_embed := (\<lambda>texts. give [[]])\<rparr>\<rparr>"

definition sample_search :: SearchMemoryRequest where
  "sample_search = \<lparr>sq_query = [65], sq_top_k = 1, sq_filter = Some (JObject [([107], JBool True)]),
     sq_graph_memory_space_id = None, sq_graph_target_subject = None, sq_graph_target_evidence_speaker = None\<rparr>"

text \<open>A file store with two lines, of which one matches.\<close>

definition sample_other :: MemoryRecord where
  "sample_other = sample_found\<lparr>mr_id := [2], mr_metadata := JNull\<rparr>"

definition sample_lines_menv :: menv where
  "sample_lines_menv = sample_menv\<lparr>v_line := (\<lambda>r. 97 # mr_id r), v_parse_line := (\<lambda>l.
     if l = [97, 1] then Inr sample_found else if l = [97, 2] then Inr sample_other else Inl [])\<rparr>"

definition sample_lines_state :: ManagerState where
  "sample_lines_state = mem_sample_state\<lparr>st_store := File \<lparr>fm_content = Some [97, 1, 10, 97, 2, 10], fm_ops = 0\<rparr>\<rparr>"

lemma trim_lines [simp]: "trim [97, Suc 0] = [97, Suc 0]" "trim [97, 2] = [97, 2]"
  by (simp_all add: trim_def trim_start_def trim_end_def is_ws_def)

lemma sample_lines_hold:
  "store_holds sample_genv sample_lines_menv (st_store sample_lines_state) [sample_found, sample_other]"
  by (simp add: store_holds_def file_holds_def line_reads_back_def sample_lines_menv_def sample_lines_state_def
      sample_found_def sample_other_def)

lemma sample_lines_delete: "\<exists>s'. delete_by_filters sample_genv sample_lines_menv [JObject [([107], JBool True)]]
    sample_lines_state = (Inr 1, s')"
proof -
  have l: "in_store (store_list_records sample_genv sample_lines_menv) sample_lines_state
      = (Inr [sample_found, sample_other], sample_lines_state
          \<lparr>st_store := File \<lparr>fm_content = Some [97, 1, 10, 97, 2, 10], fm_ops = 1\<rparr>\<rparr>)"
    by (simp add: in_store_def store_list_records_def on_store_def sample_lines_state_def file_list_records_def
        sample_lines_menv_def sample_menv_def)
  have "retained_records [JObject [([107], JBool True)]] [sample_found, sample_other] = [sample_other]"
    by (simp add: retained_records_def metadata_matches_any_def metadata_matches_def sample_found_def sample_other_def)
  with l show ?thesis
    by (simp add: delete_by_filters_def then_do_def give_def Let_def in_store_def store_replace_all_def on_store_def
        sample_lines_state_def file_replace_all_def sample_lines_menv_def sample_menv_def)
qed

lemma trim_a [simp]: "trim [97] = [97]"
  by (simp add: trim_def trim_start_def trim_end_def is_ws_def)

lemma sample_score:
  "score_records [] (Some (JObject [([107], JBool True)])) 1 [sample_found]
    = Inr [\<lparr>sm_record = sample_found, sm_score = 0\<rparr>]"
  by (simp add: score_records_def sample_found_def metadata_matches_def cosine_similarity_def sort_scored_desc_def)

lemma sample_searched:
  "\<exists>s'. search sample_genv sample_renv sample_file_menv sample_file_manager sample_search sample_file_state
    = (Inr [\<lparr>sm_record = sample_found, sm_score = 0\<rparr>], s')"
proof -
  have e: "in_wire (embed_one (mm_embedder sample_file_manager) [65]) s = (Inr [], s)" for s
    by (simp add: in_wire_def embed_one_def then_do_def give_def sample_file_manager_def)
  let ?s = "sample_file_state\<lparr>st_store := File \<lparr>fm_content = Some [97, 10], fm_ops = 1\<rparr>\<rparr>"
  have "file_list_records sample_file_menv \<lparr>fm_content = Some [97, 10], fm_ops = 0\<rparr>
      = (Inr [sample_found], \<lparr>fm_content = Some [97, 10], fm_ops = 1\<rparr>)"
    by (simp add: file_list_records_def sample_file_menv_def sample_menv_def)
  then have l: "in_store (store_list_records sample_genv sample_file_menv) sample_file_state = (Inr [sample_found], ?s)"
    by (simp add: in_store_def store_list_records_def on_store_def sample_file_state_def)
  have "dense_candidates sample_genv sample_file_menv sample_file_manager [] (sq_filter sample_search) 1 sample_file_state
      = (Inr [\<lparr>sm_record = sample_found, sm_score = 0\<rparr>], ?s)"
  proof -
    have "st_store sample_file_state = File \<lparr>fm_content = Some [97, 10], fm_ops = 0\<rparr>"
      by (simp add: sample_file_state_def)
    then show ?thesis
      using l sample_score
      by (simp add: dense_candidates_def then_do_def lift_result_def sample_search_def del: One_nat_def)
  qed
  with e show ?thesis
    by (simp add: search_def search_dense_def sample_file_manager_def sample_manager_def with_retrieval_config_def
        RetrievalConfig_default_def GraphRetrievalConfig_default_def sample_search_def then_do_def
        fuse_optional_graph_channel_def give_def)
qed

end
