(* ===== verification/MemProps.thy ===== *)
theory MemProps
  imports MemSample
begin

text \<open>
  The properties of the memory manager and its stores, each with its application to the sample instance.
\<close>

section \<open>The database\<close>

text \<open>C35: However the transactions of managers interleave, listings, writes of additions and writes of what deletions
  retain of any earlier listing, with every metadata value written one that reads back, the memory database
  stays sound: every stored row can be read back, no identifier occurs twice and the full-text table holds
  exactly the identifier and text of every memory, once. While whole additions, deletions and searches of any
  managers follow one another, all memories of a scope moreover carry the same embedding profile.\<close>

theorem memory_database_sound:
  assumes "tx_reachable E V s listings"
  shows "\<exists>t rs. st_store s = Sqlite t \<and> list_records_db E (ss_db t) = Inr rs \<and> distinct (map mr_id rs)
    \<and> distinct (map fst (md_fts (ss_db t))) \<and> set (md_fts (ss_db t)) = (\<lambda>r. (mr_id r, mr_text r)) ` set rs
    \<and> (mem_reachable E R V s \<longrightarrow> one_profile rs)"
proof -
  have "\<exists>rs. unchanged E rs (st_store s) \<and> (mem_reachable E R V s \<longrightarrow> one_profile rs)"
    using tx_reachable_ok [OF assms] mem_reachable_ok [of E R V s] unfolding tx_ok_def memories_ok_def by blast
  then obtain t rs where t: "st_store s = Sqlite t" "holds_records E (ss_db t) rs"
      "mem_reachable E R V s \<longrightarrow> one_profile rs"
    by (auto simp: unchanged_def sqlite_holds_def)
  with list_records_holds [OF t(2)] show ?thesis by (auto simp: holds_records_def)
qed

theorem memory_database_sound_witness:
  "\<exists>t rs. st_store (snd (add_many_with_batch_size sample_genv sample_menv sample_manager [sample_add] 64 mem_sample_state))
      = Sqlite t \<and> list_records_db sample_genv (ss_db t) = Inr rs \<and> distinct (map mr_id rs)
    \<and> distinct (map fst (md_fts (ss_db t))) \<and> set (md_fts (ss_db t)) = (\<lambda>r. (mr_id r, mr_text r)) ` set rs
    \<and> one_profile rs"
proof -
  have "small_vectors (mm_embedder sample_manager)"
    using sample_small by (simp add: sample_manager_def with_retrieval_config_def)
  note m = mem_reachable.after [OF mem_sample_reachable mem_step.step_add_many
      [OF this sample_reads_back(2), of sample_renv sample_menv mem_sample_state "[sample_add]" 64]]
  obtain listings where "tx_reachable sample_genv sample_menv
      (snd (add_many_with_batch_size sample_genv sample_menv sample_manager [sample_add] 64 mem_sample_state)) listings"
    using mem_reachable_transactions [OF m] by blast
  from memory_database_sound [OF this, of sample_renv] m show ?thesis by blast
qed

text \<open>
  The last conjunct needs its condition: a manager checks the profiles in one transaction and writes in another.
  Two managers that both check against the empty listing put two profiles into one scope.
\<close>

definition scoped_record :: "nat \<Rightarrow> MemoryRecord" where
  "scoped_record n = new_record (with_retrieval_config (sample_embedder n) RetrievalConfig_default) 0
     \<lparr>am_id = Some [n], am_text = [65], am_metadata = JObject [(lit ''scope_id'', JString [115])]\<rparr> [0] [n]"

lemma scoped_record_profile:
  "extract_scope_id (mr_metadata (scoped_record n)) = Some [115]"
  "record_embedding_profile_id (scoped_record n) = Some [n]"
  "mr_id (scoped_record n) = [n]" "storable sample_genv (scoped_record n)"
  "\<exists>M qs. list_all2 (record_of_request M) qs [scoped_record n]"
proof -
  let ?M = "with_retrieval_config (sample_embedder n) RetrievalConfig_default"
  let ?q = "\<lparr>am_id = Some [n], am_text = [65], am_metadata = JObject [(lit ''scope_id'', JString [115])]\<rparr>"
  have "list_all2 (record_of_request ?M) [?q] [scoped_record n]"
    by (simp add: record_of_request_def scoped_record_def new_record_def)
  then show "\<exists>M qs. list_all2 (record_of_request M) qs [scoped_record n]" by blast
qed (simp_all add: scoped_record_def new_record_def extract_scope_id_def record_embedding_profile_id_def
    profile_id_of_def str_at_def metadata_with_embedding_profile_def embedding_profile_metadata_def
    with_retrieval_config_def sample_embedder_def EMBEDDING_PROFILE_METADATA_KEY_def lit_def jobject_def
    map_of_obj_of storable_def)

lemma concurrent_additions_mix_profiles:
  "\<exists>s t listings. tx_reachable sample_genv sample_menv s listings \<and> st_store s = Sqlite t
     \<and> check_new_profiles [1] [] [scoped_record 1] = Inr () \<and> check_new_profiles [2] [] [scoped_record 2] = Inr ()
     \<and> list_records_db sample_genv (ss_db t) = Inr [scoped_record 1, scoped_record 2]
     \<and> \<not> one_profile [scoped_record 1, scoped_record 2]"
proof -
  have s0: "st_store mem_sample_state = Sqlite (SqliteMemoryStore_new True)" by (simp add: mem_sample_state_def)
  obtain s1 t1 where s1: "in_store (store_add_records sample_genv sample_menv [scoped_record 1]) mem_sample_state = (Inr (), s1)"
      "st_store s1 = Sqlite t1" "ss_create_if_missing t1"
      "ss_db t1 = fold (upsert_record sample_genv) [scoped_record 1] (ss_db (SqliteMemoryStore_new True))"
    using sample_put [OF s0 sample_start(2)] by blast
  obtain s2 t2 where s2: "in_store (store_add_records sample_genv sample_menv [scoped_record 2]) s1 = (Inr (), s2)"
      "st_store s2 = Sqlite t2" "ss_db t2 = fold (upsert_record sample_genv) [scoped_record 2] (ss_db t1)"
    using sample_put [OF s1(2,3)] by blast
  have st: "list_all (storable sample_genv) [scoped_record n]" for n by (simp add: scoped_record_profile)
  obtain M qs M' qs' where q: "list_all2 (record_of_request M) qs [scoped_record 1]"
      "list_all2 (record_of_request M') qs' [scoped_record 2]"
    using scoped_record_profile(5) by blast
  have tx: "tx_reachable sample_genv sample_menv s2 []"
    by (rule tx_write [OF tx_write [OF tx_fresh [OF s0] q(1) st s1(1)] q(2) st s2(1)])
  have db: "ss_db t2 = fold (upsert_record sample_genv) [scoped_record 1, scoped_record 2] \<lparr>md_memories = [], md_fts = []\<rparr>"
    using s1(4) s2(3) by (simp add: SqliteMemoryStore_new_def)
  have "list_all (storable sample_genv) [scoped_record 1, scoped_record 2]" by (simp add: scoped_record_profile)
  from holds_upserts [OF holds_empty this] have "holds_records sample_genv (ss_db t2) (fold put_record [scoped_record 1, scoped_record 2] [])"
    unfolding db .
  moreover have "fold put_record [scoped_record 1, scoped_record 2] [] = [scoped_record 1, scoped_record 2]"
    by (simp add: put_record_def scoped_record_profile)
  ultimately have "list_records_db sample_genv (ss_db t2) = Inr [scoped_record 1, scoped_record 2]"
    using list_records_holds by metis
  moreover have "check_new_profiles [n] [] [scoped_record n] = Inr ()" for n
    by (simp add: check_new_profiles_def expect_profile_def insert_expected_embedding_profile_def scoped_record_profile)
  moreover have "\<not> one_profile [scoped_record 1, scoped_record 2]"
    by (simp add: one_profile_def scoped_record_profile)
  ultimately show ?thesis using tx s2(2) by blast
qed

text \<open>C36: An acknowledged batch, of requests whose metadata reads back, is durable and changes nothing else: the database then lists the memories it listed
  before, with one record per request put in the place of its identifier or at the end, with the trimmed text,
  the metadata with the embedding profile and the identifier that was asked for and is answered.\<close>

theorem added_memories_are_listed:
  assumes "mem_reachable E R V s" "small_vectors (mm_embedder M)" "requests_read_back E M qs"
    "add_many_with_batch_size E V M qs n s = (Inr responses, s')"
  shows "\<exists>t t' rs new. st_store s = Sqlite t \<and> st_store s' = Sqlite t' \<and> list_records_db E (ss_db t) = Inr rs
    \<and> list_records_db E (ss_db t') = Inr (fold put_record new rs)
    \<and> list_all2 (record_of_request M) qs new \<and> map ar_id responses = map mr_id new"
proof -
  obtain rs where "memories_ok E s rs" using mem_reachable_ok [OF assms(1)] by blast
  then have u: "unchanged E rs (st_store s)" by (simp add: memories_ok_def)
  with add_many_result [OF assms(2,3) u assms(4)] show ?thesis
    using list_records_holds by (auto simp: added_def unchanged_def sqlite_holds_def)
qed

theorem added_memories_are_listed_witness:
  "\<exists>responses s' t t' rs new. add_many_with_batch_size sample_genv sample_menv sample_manager [sample_add] 64 mem_sample_state
      = (Inr responses, s') \<and> st_store mem_sample_state = Sqlite t \<and> st_store s' = Sqlite t'
    \<and> list_records_db sample_genv (ss_db t) = Inr rs
    \<and> list_records_db sample_genv (ss_db t') = Inr (fold put_record new rs)
    \<and> list_all2 (record_of_request sample_manager) [sample_add] new \<and> map ar_id responses = map mr_id new"
proof -
  have small: "small_vectors (mm_embedder sample_manager)"
    using sample_small by (simp add: sample_manager_def with_retrieval_config_def)
  obtain s' where "add_many_with_batch_size sample_genv sample_menv sample_manager [sample_add] 64 mem_sample_state
      = (Inr [\<lparr>ar_id = [1]\<rparr>], s')"
    using sample_added by blast
  with added_memories_are_listed [OF mem_sample_reachable small sample_reads_back(2) this] show ?thesis by blast
qed

text \<open>C37: A deletion by filters that succeeds removes exactly the records that match one of the filters, on the
  SQLite store as on the file store, keeps the others in their order, and answers how many it removed. The
  records the store holds are ones that read back from their row or line: metadata that does not nest too deep,
  and on the file store no number of an embedding that is not finite.\<close>

theorem deletion_is_exact:
  assumes "store_holds E V (st_store s) rs" "delete_by_filters E V filters s = (Inr n, s')"
  shows "store_holds E V (st_store s') (filter (\<lambda>r. \<not> list_ex (\<lambda>f. metadata_matches (mr_metadata r) (Some f)) filters) rs)
    \<and> n = length (filter (\<lambda>r. list_ex (\<lambda>f. metadata_matches (mr_metadata r) (Some f)) filters) rs)"
  using delete_result [OF assms] sum_length_filter_compl [of "\<lambda>r. list_ex (\<lambda>f. metadata_matches (mr_metadata r) (Some f)) filters" rs]
  by (simp add: retained_records_def metadata_matches_any_def)

theorem deletion_is_exact_witness:
  "(\<exists>s'. delete_by_filters sample_genv sample_menv [JObject []] sample_stored = (Inr 1, s')
     \<and> store_holds sample_genv sample_menv (st_store s')
        (filter (\<lambda>r. \<not> list_ex (\<lambda>f. metadata_matches (mr_metadata r) (Some f)) [JObject []]) [sample_record]))
   \<and> (\<exists>s'. delete_by_filters sample_genv sample_lines_menv [JObject [([107], JBool True)]] sample_lines_state = (Inr 1, s')
     \<and> store_holds sample_genv sample_lines_menv (st_store s')
        (filter (\<lambda>r. \<not> list_ex (\<lambda>f. metadata_matches (mr_metadata r) (Some f)) [JObject [([107], JBool True)]])
          [sample_found, sample_other]))"
proof -
  obtain s1 s2 where s:
      "delete_by_filters sample_genv sample_menv [JObject []] sample_stored = (Inr 1, s1)"
      "delete_by_filters sample_genv sample_lines_menv [JObject [([107], JBool True)]] sample_lines_state = (Inr 1, s2)"
    using sample_delete sample_lines_delete by blast
  from deletion_is_exact [OF sample_stored_holds s(1)] deletion_is_exact [OF sample_lines_hold s(2)] s
  show ?thesis by blast
qed


text \<open>C39: A deletion lists the records and writes back what it retains in two transactions: an addition that is
  acknowledged between the two is lost, although it does not match the filters.\<close>

theorem deletion_drops_concurrent_addition:
  assumes "sqlite_holds E t rs" "sqlite_list_records E V t = (Inr listed, t1)"
    "sqlite_add_record E V r t1 = (Inr u, t2)" "storable E r" "mr_id r \<notin> mr_id ` set rs"
    "\<not> metadata_matches_any (mr_metadata r) filters"
    "sqlite_replace_all E V (retained_records filters listed) t2 = (Inr u', t3)"
  shows "list_records_db E (ss_db t2) = Inr (rs @ [r])
    \<and> list_records_db E (ss_db t3) = Inr (retained_records filters rs) \<and> r \<notin> set (retained_records filters rs)"
proof -
  have l: "listed = rs" "sqlite_holds E t1 rs" using sqlite_list(1) [OF assms(1,2)] by simp_all
  have t2: "sqlite_holds E t2 (rs @ [r])"
    using sqlite_add [OF l(2) _ assms(3) [unfolded sqlite_add_one]] assms(4,5) by (simp add: put_record_def)
  have "retained_records filters rs = filter (\<lambda>x. x \<noteq> r \<and> \<not> metadata_matches_any (mr_metadata x) filters) (rs @ [r])"
    using assms(5) by (auto simp: retained_records_def intro!: filter_cong)
  then have "sqlite_replace_all E V (filter (\<lambda>x. x \<noteq> r \<and> \<not> metadata_matches_any (mr_metadata x) filters) (rs @ [r])) t2
      = (Inr u', t3)"
    using assms(7) l(1) by simp
  from sqlite_store.replaced [OF t2 this] have t3: "sqlite_holds E t3 (retained_records filters rs)"
    using \<open>retained_records filters rs = _\<close> by simp
  have "r \<notin> set (retained_records filters rs)" using assms(5) by (auto simp: retained_records_def)
  with t2 t3 show ?thesis using list_records_holds by (auto simp: sqlite_holds_def)
qed

definition sample_late :: MemoryRecord where
  "sample_late = sample_found\<lparr>mr_id := [9], mr_metadata := JNull\<rparr>"

theorem deletion_drops_concurrent_addition_witness:
  "\<exists>t t1 t2 t3 listed. sqlite_list_records sample_genv sample_menv t = (Inr listed, t1)
    \<and> sqlite_add_record sample_genv sample_menv sample_late t1 = (Inr (), t2)
    \<and> sqlite_replace_all sample_genv sample_menv (retained_records [JObject []] listed) t2 = (Inr (), t3)
    \<and> list_records_db sample_genv (ss_db t2) = Inr ([sample_record] @ [sample_late])
    \<and> list_records_db sample_genv (ss_db t3) = Inr (retained_records [JObject []] [sample_record])
    \<and> sample_late \<notin> set (retained_records [JObject []] [sample_record])"
proof -
  obtain t where t: "sqlite_holds sample_genv t [sample_record]" "ss_create_if_missing t"
    using sample_stored_holds by (auto simp: store_holds_def sample_stored_def SqliteMemoryStore_new_def)
  have "list_records_db sample_genv (ss_db t) = Inr [sample_record]"
    using t(1) list_records_holds by (auto simp: sqlite_holds_def)
  then obtain t1 where t1: "sqlite_list_records sample_genv sample_menv t = (Inr [sample_record], t1)" "ss_create_if_missing t1"
    using sample_run_ok [OF t(2), of "\<lambda>db. (list_records_db sample_genv db, db)" "[sample_record]" "ss_db t"]
    unfolding sqlite_list_records_def by auto
  obtain t2 where t2: "sqlite_add_record sample_genv sample_menv sample_late t1 = (Inr (), t2)" "ss_create_if_missing t2"
    using sample_run_ok [OF t1(2), of "\<lambda>db. (Inr (), upsert_record sample_genv sample_late db)"]
    unfolding sqlite_add_record_def by auto
  obtain t3 where t3: "sqlite_replace_all sample_genv sample_menv (retained_records [JObject []] [sample_record]) t2 = (Inr (), t3)"
    using sample_run_ok [OF t2(2), of "\<lambda>db. (Inr (), fold (upsert_record sample_genv)
      (retained_records [JObject []] [sample_record]) \<lparr>md_memories = [], md_fts = []\<rparr>)"]
    unfolding sqlite_replace_all_def by auto
  have "storable sample_genv sample_late" "mr_id sample_late \<notin> mr_id ` set [sample_record]"
      "\<not> metadata_matches_any (mr_metadata sample_late) [JObject []]"
    by (simp_all add: storable_def sample_late_def sample_found_def sample_record_def new_record_def
        metadata_matches_any_def metadata_matches_def)
  from deletion_drops_concurrent_addition [OF t(1) t1(1) t2(1) this t3] t1 t2 t3 show ?thesis by blast
qed


section \<open>Searching\<close>

text \<open>C34: In every mode, with or without graph channel and with either of the program's rerankers or none, a search
  answers at most \<open>top_k\<close> memories and leaves the stored memories as they are. Each answer has in its
  metadata every value the request's filter asks for; with the graph channel enabled this leaves out the keys
  that channel writes after filtering: its three own and \<open>source_agent_id\<close>, an ordinary metadata key that a
  graph record overwrites with the agent that wrote it.\<close>

theorem search_respects_request:
  assumes "known_reranker M" "search E R V M q s = (Inr results, s')"
  shows "length results \<le> sq_top_k q \<and> same_memories s s'
    \<and> (\<forall>f k v c. sq_filter q = Some f \<longrightarrow> json_get f k = Some v \<longrightarrow> k \<notin> reported_keys M \<longrightarrow> c \<in> set results
         \<longrightarrow> json_get (mr_metadata (sm_record c)) k = Some v)"
  using search_ok [OF assms] harmless_state [OF harmless_search assms(2)]
  by (auto simp: channel_ok_def all_records_def has_value_def)

theorem search_respects_request_witness:
  "\<exists>results s'. search sample_genv sample_renv sample_file_menv sample_file_manager sample_search sample_file_state
      = (Inr results, s') \<and> results \<noteq> [] \<and> length results \<le> sq_top_k sample_search \<and> same_memories sample_file_state s'
    \<and> (\<forall>f k v c. sq_filter sample_search = Some f \<longrightarrow> json_get f k = Some v \<longrightarrow> k \<notin> reported_keys sample_file_manager \<longrightarrow> c \<in> set results
         \<longrightarrow> json_get (mr_metadata (sm_record c)) k = Some v)"
proof -
  obtain s' where s': "search sample_genv sample_renv sample_file_menv sample_file_manager sample_search sample_file_state
      = (Inr [\<lparr>sm_record = sample_found, sm_score = 0\<rparr>], s')"
    using sample_searched by blast
  have "known_reranker sample_file_manager"
    by (simp add: known_reranker_def sample_file_manager_def sample_manager_def with_retrieval_config_def)
  from search_respects_request [OF this s'] s' show ?thesis by blast
qed

text \<open>C38: Fusing the graph's candidates into the base candidates keeps to the base: at most \<open>top_k\<close> results with
  distinct identifiers come out, exactly the best \<open>top_k\<close> base candidates unless graph-only results are allowed with
  graph ranking and a positive weight; then there are at most the configured number of them, and a base
  candidate gives way only to one of them.\<close>

theorem fusion_protects_base:
  assumes "distinct (map (mr_id \<circ> sm_record) base)"
  shows "let prot = take top_k (sort_scored_desc base);
       res = fuse_graph_candidates E base graph top_k weight rerank_with_graph allow_graph_only limit;
       new = set (keys_of res) - set (keys_of prot)
     in length res \<le> top_k \<and> distinct (map (mr_id \<circ> sm_record) res) \<and> new \<subseteq> set (keys_of graph)
       \<and> (\<not> graph_only_allowed allow_graph_only rerank_with_graph weight \<longrightarrow> set (keys_of res) = set (keys_of prot))
       \<and> card new \<le> graph_only_result_limit top_k limit
       \<and> card (set (keys_of prot) - set (keys_of res)) \<le> card new"
proof -
  have ids: "map fst (keys_of cs) = map (mr_id \<circ> sm_record) cs" for cs
    by (simp add: keys_of_def record_key_def)
  then have "distinct (map fst (keys_of base))" using assms by simp
  from fuse_graph_keys [OF this refl refl, where n = top_k and w = weight and graph = graph and m = limit
      and E = E and rerank_with_graph = rerank_with_graph and allow_graph_only = allow_graph_only]
  show ?thesis unfolding ids Let_def by blast
qed

definition sample_scored :: "nat \<Rightarrow> ScoredMemory" where
  "sample_scored n = \<lparr>sm_record = sample_found\<lparr>mr_id := [n]\<rparr>, sm_score = F_ONE\<rparr>"

theorem fusion_protects_base_witness:
  "let prot = take 2 (sort_scored_desc [sample_scored 1, sample_scored 2]);
       res = fuse_graph_candidates sample_genv [sample_scored 1, sample_scored 2] [sample_scored 3] 2
         default_graph_weight True True (Some 1);
       new = set (keys_of res) - set (keys_of prot)
     in length res \<le> 2 \<and> distinct (map (mr_id \<circ> sm_record) res) \<and> new \<subseteq> set (keys_of [sample_scored 3])
       \<and> (\<not> graph_only_allowed True True default_graph_weight \<longrightarrow> set (keys_of res) = set (keys_of prot))
       \<and> card new \<le> graph_only_result_limit 2 (Some 1)
       \<and> card (set (keys_of prot) - set (keys_of res)) \<le> card new"
  by (rule fusion_protects_base) (simp add: sample_scored_def)

text \<open>C40: The SQLite search cuts at its limit before it applies the metadata filter: there are stored memories for which
  it answers nothing to a request that the search over the same records, filtering first, answers with a match.\<close>

theorem limit_before_filter_loses_match:
  "\<exists>E V query f db rs c. (\<forall>v. reads_back E v) \<and> holds_records E db rs
    \<and> dense_candidates_db E V query (Some f) 1 db = Inr [] \<and> score_records query (Some f) 1 rs = Inr [c]"
proof -
  define near where "near = sample_found\<lparr>mr_embedding := [0], mr_metadata := JObject [([107], JBool False)]\<rparr>"
  define far where "far = sample_found\<lparr>mr_id := [2], mr_embedding := [1]\<rparr>"
  let ?f = "JObject [([107], JBool True)]"
  let ?db = "fold (upsert_record sample_genv) [near, far] \<lparr>md_memories = [], md_fts = []\<rparr>"
  have "list_all (storable sample_genv) [near, far]" by (simp add: near_def far_def storable_def)
  from holds_upserts [OF holds_empty this]
  have holds: "holds_records sample_genv ?db [near, far]"
    by (simp add: near_def far_def sample_found_def put_record_def)
  have rows: "md_memories ?db = [row_of_record sample_genv near, row_of_record sample_genv far]"
    by (simp add: upsert_record_def upsert_row_def near_def far_def sample_found_def)
  have blobs: "embedding_to_blob [1] \<noteq> embedding_to_blob [0]"
    by (simp add: embedding_to_blob_def to_le_bytes_def)
  have none: "extract_scope_id_from_filter (Some ?f) = None"
    by (simp add: extract_scope_id_from_filter_def extract_scope_id_def lit_def)
  have embs: "row_embedding_dims (row_of_record sample_genv near) = 1" "row_embedding_dims (row_of_record sample_genv far) = 1"
      "row_embedding (row_of_record sample_genv near) = embedding_to_blob [0]"
      "row_embedding (row_of_record sample_genv far) = embedding_to_blob [1]"
    by (simp_all add: row_of_record_def near_def far_def)
  have d: "dense_rows sample_menv ?db [0] None = Inr [(row_of_record sample_genv near, Some (0, 0)),
      (row_of_record sample_genv far, Some (1, F_ONE))]"
    unfolding dense_rows_def rows using blobs by (simp add: embs in_scope_def sample_menv_def)
  have r: "record_of_memory_row sample_genv (row_of_record sample_genv near) = Inr near"
    by (rule row_holds_readable) (simp add: row_holds_def storable_def near_def sample_found_def)
  have "ensure_no_dense_dimension_mismatch 1 (Some ?f) ?db = Inr ()"
    by (simp only: ensure_no_dense_dimension_mismatch_def rows) (simp add: embs count_where_def Let_def)
  then have "dense_candidates_db sample_genv sample_menv [0] (Some ?f) 1 ?db = Inr []"
    using d r by (simp add: dense_candidates_db_def none dense_key_def dense_candidate_def metadata_matches_def near_def
        del: and_then_Inr)
  moreover have "\<exists>c. score_records [0] (Some ?f) 1 [near, far] = Inr [c]"
    by (simp add: score_records_def near_def far_def sample_found_def metadata_matches_def sort_scored_desc_def
        del: and_then_Inr)
  ultimately show ?thesis using sample_reads_back(1) holds by blast
qed

end
