(* ===== verification/Spec2Isabelle.thy ===== *)
theory Spec2Isabelle
  imports KvProps KvConcurrency KvDivergence KvAccess PipeRunMore GraphLiveProps GraphRetrieveProps MemProps
begin

text \<open>
  A model of RAM-A, an agent's memory: the KV-cache daemon that keeps track of which cached chunks an
  agent's sessions still need (\<open>src/ram-a-kv\<close>), the memory pipeline that turns conversations into
  evidence-backed memories (\<open>src/ram-a-mem/crates/memory-pipeline\<close>), and \<open>src/ram-a-mem/crates/memory-core\<close>: the
  knowledge graph that memories are taken into (\<open>graph\<close> and \<open>sqlite\<close>) and the manager that stores
  memories and searches them (\<open>manager.rs\<close>, \<open>sqlite_store.rs\<close>, \<open>store.rs\<close>, \<open>embedding.rs\<close>, \<open>rerank.rs\<close>). Each
  definition carries the name of the function or type it translates; each theory names its source files.

  The KV-cache coordinator (\<open>crates/manager-core\<close>). \<open>KvManager\<close> has its state (sessions with their
  chunk-hash maps, the reference-count table, open fork snapshots) and every operation of
  \<open>KvCacheManager\<close>, split where the code takes and drops its locks. \<open>KvRefcount\<close> states the table as the
  locale \<open>refcount_table\<close> and interprets it on the code's counting functions. \<open>KvInvariant\<close> has the
  accounting invariant: a count is the number of sessions and forks that hold the hash. \<open>KvOps\<close> and
  \<open>KvProps\<close> run operations one after the other; \<open>KvConcurrency\<close> lets their critical sections interleave
  freely, proves what survives, and shows the three interleavings that evict or leak a chunk wrongly.

  The daemon (\<open>crates/ram-a-kv\<close>). \<open>KvStore\<close> is the SQLite session store as a map with a failure answer per
  statement, an interpretation of the locales \<open>rows\<close> and \<open>pinned_rows\<close>. \<open>KvBackend\<close> has the three
  backends behind the locale \<open>backend_contract\<close>. \<open>KvDaemon\<close> has the ten event handlers, the registry, the
  dispatcher with its persistence, start-up with rehydration, and the bearer check. \<open>KvDaemonInv\<close>
  reduces a handler to at most one operation of the coordinator and gives the reachable states over
  events and restarts; \<open>KvDaemonProps\<close>, \<open>KvDivergence\<close> and \<open>KvAccess\<close> hold the daemon's properties;
  \<open>KvSample\<close> the concrete runs that instantiate them.

  The memory pipeline. \<open>PipeError\<close>, \<open>PipeModels\<close> and \<open>PipeCanonical\<close> are \<open>error.rs\<close>, \<open>models.rs\<close> and
  \<open>canonical.rs\<close>. The stages follow in the order of a run: \<open>PipeNormalize\<close> reads the prepared document,
  \<open>PipeEpisode\<close> groups messages, \<open>PipeWindow\<close> slices and packs them, \<open>PipeExtraction\<close> asks the model through
  \<open>PipeClient\<close>, \<open>PipeValidation\<close> checks the evidence, \<open>PipeGrounding\<close> asks the verifier, \<open>PipeWriter\<close>
  aggregates. \<open>PipeCache\<close> is the JSON cache over the atomic file write, and \<open>PipeRun\<close> is
  \<open>run_memory_pipeline\<close>. The extractor and the verifier are records of functions, as the code's traits
  are; the locales \<open>extraction_contract\<close> and \<open>verification_contract\<close> state what the run relies on and are
  interpreted on the static and the chat implementation. The theories ending in \<open>Props\<close> and \<open>More\<close> hold the
  properties: conservation and partition of each stage, budgets, soundness of evidence, termination
  of requests, atomicity of writes, and the end-to-end statements about a run.

  The knowledge graph. \<open>GraphTypes\<close> has the errors, the type registry, the request and text normalization;
  \<open>GraphExtraction\<close> the extractor's answer and its check against the record. \<open>GraphStore\<close> is the schema -
  each table a list of rows in insertion order, an insert checking its keys, unique indexes and foreign
  keys - with the transactions that accept a memory and move its run from stage to stage;
  \<open>GraphPublish\<close> is the transaction that resolves entities and facts and completes the run. \<open>GraphPipeline\<close>
  has the repository's operations, the three stage executors and the build and resume of a memory.
  \<open>GraphRuns\<close> is the relation \<open>graph_step\<close>: any worker may run any transaction at any time, a publication
  on a claim handed out before, however old. \<open>GraphInv\<close> (spaces, records, runs), \<open>GraphContent\<close> (what a
  publication adds, integrity of the graph) and \<open>GraphPublished\<close> (claims, rows of a run, evidence) are the
  invariants of its reachable states; \<open>GraphProps\<close> states them, \<open>GraphSample\<close> runs one memory through every
  stage. \<open>GraphLive\<close> and \<open>GraphResume\<close> show each stage succeeds when the database and the providers
  do, so that a resumed run completes (\<open>GraphLiveProps\<close>). Retrieval is \<open>GraphQuery\<close> (request, terms, the
  actors a query names, scores as the bits of \<open>f32\<close>), \<open>GraphRetrieve\<close> (the queries as joins of rows,
  seeds, candidates) and \<open>GraphContext\<close> (loading, units, the bundle). \<open>GraphFound\<close> and \<open>GraphBundle\<close> show what
  an answer may contain and its limits, \<open>GraphReadable\<close> that it does not fail on what was stored,
  \<open>GraphComplete\<close> that small spaces lose no match; \<open>GraphRetrieveProps\<close> states this.

  The memory manager. \<open>MemFloat\<close> is the arithmetic of \<open>f32\<close> on bit patterns; \<open>MemTypes\<close> has the requests,
  the configuration, the records, the metadata filter, the cosine similarity and the operations on a
  state (\<open>oper\<close>, with \<open>then_do\<close> for \<open>?\<close>). \<open>MemClients\<close> is the embedding provider and the reranker with their
  repeated attempts. \<open>MemStore\<close> has the SQLite store - the table of memories, its full-text and vector queries, the
  retries while the database is locked - and the file store; \<open>MemFusion\<close> the weighted fusion of dense and
  full-text candidates and the fusion with the graph's; \<open>MemManager\<close> adding and deleting, \<open>MemSearch\<close> the four modes of
  search over the graph's retrieval above. \<open>MemStoreInv\<close> states the interface of a store as the
  locale \<open>record_store\<close>, interpreted on both stores, and shows that the table implements an ordered list of records
  with one record per identifier. \<open>MemResults\<close>, \<open>MemFusionInv\<close> and \<open>MemSearchInv\<close> show what a search may return;
  \<open>MemManagerInv\<close> what each operation does to the records; \<open>MemSteps\<close> has the histories of a database under
  any managers, once as whole operations one after another (\<open>mem_step\<close>) and once as the store's single
  transactions in any order (\<open>tx_reachable\<close>, of which the former are sequences), with the invariants of the states they
  reach. \<open>MemProps\<close> states the properties, on the instance of \<open>MemSample\<close>, and three effects of the
  transactions and queries chosen: an addition between the two transactions of a deletion is lost, two additions
  checked against the same listing put two embedding profiles into a scope, and a vector search that cuts
  before it filters loses a match. What these properties ask of \<open>serde_json\<close>, that a value reads back, they ask
  of the values stored, as values that nest too deep and numbers that are not finite do not.

  Parameters. What the sources call but do not contain is an argument: the HTTP provider of a chat
  request (\<open>provider\<close>) and of a backend, the answers of the file system (\<open>io_env\<close>, one per step), of
  SQLite (\<open>db_env\<close>), and in \<open>penv\<close> the library functions of the pipeline: JSON parsing and printing,
  SHA-256, float formatting and arithmetic, Unicode lower case, the time parsers. The derived
  deserialisation of cached batches is \<open>codec\<close>, that of an extractor's answer \<open>output_codec\<close>. The graph's
  library functions are in \<open>genv\<close>: Unicode normalization, JSON, UUIDs, the clock, SQLite's error texts, and
  \<open>g_fault\<close>, which may fail any operation of the repository before it changes anything; what retrieval needs of
  FTS5 - well-formed queries, matching, ranking - and the alphanumeric characters are in \<open>renv\<close>. The manager's
  are in \<open>menv\<close>: identifiers, the clock, faults of the database and of writing the file, the scores of FTS5 and of
  the vector extension, the lines of the file store; the HTTP services of embedding and reranking are \<open>henv\<close>.

  Numbers. Counts and lengths are natural numbers where the code could only overflow beyond the
  memory of a machine; the token counts a model reports are added as 64-bit integers that wrap, as a release
  build does; \<open>f32\<close> values are bit patterns; JSON numbers keep their text. Strings are lists of Unicode scalar values with the
  UTF-8 length where the code asks for bytes. Loops are structural or have a measure; no fuel is used.

  Not modelled, and why. Logging, tracing and metrics have no effect on the results. TOML parsing,
  command lines, socket serving and the writing of artifacts are calls of libraries around the
  modelled functions. The KV SDK only sends the daemon's events. The benchmarks, the Python tools
  and the plugins are drivers. Columns of the graph's tables that no statement of the
  sources writes are left out. The graph's LLM extractor is one implementation of the extractor the graph's
  pipeline takes as a record of functions: the text of a prompt and an HTTP client. The crate \<open>memory-cases\<close> keeps
  documents of its own in a database of its own that no modelled component reads; \<open>memory-mcp\<close> is the
  configuration, the tool schemas and the transport before the manager and that service.
\<close>

end
